(* ===== verification/Prelude.thy ===== *)
theory Prelude
  imports Main
begin

text \<open>
  Shared vocabulary of the development.

  \<^item> Python values. The backend validates its arguments dynamically
    (\<^verbatim>\<open>isinstance\<close>, \<^verbatim>\<open>type(x) is ...\<close>), so an argument whose class the code tests
    is modelled by a datatype that also has the values that fail the test:
    \<open>'a arg\<close> (an instance of the expected class, or any other object),
    \<open>'e enum_arg\<close> (the member, an exact \<^verbatim>\<open>str\<close>, anything else) and \<open>pyval\<close> (the
    scalar classes the validators tell apart). A Python \<^verbatim>\<open>str\<close> is its list of code
    points.
  \<^item> Errors are values: an operation that can raise returns \<open>'e + 'a\<close>.
  \<^item> Interfaces shared by several components, as locales: \<open>str_enum\<close> (parsing the value
    of a \<^verbatim>\<open>StrEnum\<close>), \<open>preserved\<close> (an invariant of a step relation) and \<open>fencing\<close> (a token
    that only grows, so that a superseded holder stays superseded).
\<close>

named_theorems result_simps \<open>rewriting of the result type\<close>

section \<open>Python values\<close>

type_synonym uuid = nat
type_synonym pystr = "nat list"

text \<open>Instants are whole microseconds, the resolution of \<^verbatim>\<open>datetime\<close> and of the database.\<close>

type_synonym instant = int

definition cp :: "string \<Rightarrow> pystr" where
  "cp s = map of_char s"

lemma cp_eq_iff [simp]: "cp a = cp b \<longleftrightarrow> a = b"
proof -
  have "inj (of_char :: char \<Rightarrow> nat)" by (simp add: inj_def)
  then show ?thesis by (simp add: cp_def inj_map_eq_map)
qed

datatype 'a arg = Inst 'a | Other

datatype pyval = PyNone | PyBool bool | PyInt int | PyStr pystr | PyUuid uuid | PyObj

datatype 'e enum_arg = Member 'e | ExactStr pystr | NoEnum

section \<open>Results\<close>

definition rbind :: "'e + 'a \<Rightarrow> ('a \<Rightarrow> 'e + 'b) \<Rightarrow> 'e + 'b" where
  "rbind r f = (case r of Inl e \<Rightarrow> Inl e | Inr a \<Rightarrow> f a)"

definition require :: "bool \<Rightarrow> 'e \<Rightarrow> 'e + unit" where
  "require b e = (if b then Inr () else Inl e)"

lemma rbind_simps [simp, result_simps]:
  "rbind (Inl e) f = Inl e"
  "rbind (Inr a) f = f a"
  by (simp_all add: rbind_def)

lemma rbind_eq_Inr_iff [result_simps]:
  "rbind r f = Inr b \<longleftrightarrow> (\<exists>a. r = Inr a \<and> f a = Inr b)"
  by (cases r) (auto simp: rbind_def)

lemma rbind_eq_Inl_iff [result_simps]:
  "rbind r f = Inl e \<longleftrightarrow> r = Inl e \<or> (\<exists>a. r = Inr a \<and> f a = Inl e)"
  by (cases r) (auto simp: rbind_def)

lemma require_eq_Inr_iff [simp, result_simps]: "require b e = Inr u \<longleftrightarrow> b"
  by (simp add: require_def)

lemma require_eq_Inl_iff [simp, result_simps]: "require b e = Inl e' \<longleftrightarrow> \<not> b \<and> e' = e"
  by (auto simp: require_def)

lemma require_simps [simp]:
  "require True e = Inr ()"
  "require False e = Inl e"
  by (simp_all add: require_def)

section \<open>Lists\<close>

text \<open>The last \<open>n\<close> elements of a list, in order: Python's \<^verbatim>\<open>xs[-n:]\<close> for \<open>n > 0\<close>.\<close>

definition last_n :: "nat \<Rightarrow> 'a list \<Rightarrow> 'a list" where
  "last_n n xs = drop (length xs - n) xs"

lemma length_last_n [simp]: "length (last_n n xs) = min n (length xs)"
  by (simp add: last_n_def)

lemma last_n_all [simp]: "length xs \<le> n \<Longrightarrow> last_n n xs = xs"
  by (simp add: last_n_def)

lemma set_last_n: "set (last_n n xs) \<subseteq> set xs"
  by (simp add: last_n_def set_drop_subset)

lemma last_last_n [simp]: "xs \<noteq> [] \<Longrightarrow> 0 < n \<Longrightarrow> last (last_n n xs) = last xs"
  by (simp add: last_n_def)

lemma last_n_snoc: "0 < n \<Longrightarrow> last_n n (xs @ [x]) = last_n (n - 1) xs @ [x]"
  by (cases n) (simp_all add: last_n_def Suc_diff_le)

lemma last_n_last_n [simp]: "last_n m (last_n n xs) = last_n (min m n) xs"
  by (cases "length xs \<le> n") (auto simp: last_n_def min_def)

lemma map_last_n: "map f (last_n n xs) = last_n n (map f xs)"
  by (simp add: last_n_def drop_map)

lemma last_n_append:
  "last_n n (xs @ ys) = last_n (n - length ys) xs @ last_n n ys"
  by (cases "n \<le> length ys") (simp_all add: last_n_def)

section \<open>Interfaces\<close>

text \<open>A \<^verbatim>\<open>StrEnum\<close>: its members in declaration order and their values, pairwise distinct.\<close>

definition enum_lookup :: "'e list \<Rightarrow> ('e \<Rightarrow> string) \<Rightarrow> pystr \<Rightarrow> 'e option" where
  "enum_lookup ms val s = find (\<lambda>m. cp (val m) = s) ms"

locale str_enum =
  fixes members :: "'e list"
    and val :: "'e \<Rightarrow> string"
  assumes members_all: "m \<in> set members"
    and val_distinct: "distinct (map val members)"
begin

lemma val_inj: "val m = val m' \<Longrightarrow> m = m'"
  using val_distinct members_all by (auto simp: distinct_map dest: inj_onD)

lemma lookup_iff: "enum_lookup members val s = Some m \<longleftrightarrow> s = cp (val m)"
proof
  assume "enum_lookup members val s = Some m"
  then show "s = cp (val m)"
    by (auto simp: enum_lookup_def find_Some_iff)
next
  assume s: "s = cp (val m)"
  show "enum_lookup members val s = Some m"
  proof (cases "enum_lookup members val s")
    case None
    then have "\<forall>x \<in> set members. cp (val x) \<noteq> s"
      by (simp add: enum_lookup_def find_None_iff)
    with s members_all show ?thesis by blast
  next
    case (Some m')
    then have "cp (val m') = s" by (auto simp: enum_lookup_def find_Some_iff)
    with s have "m' = m" by (auto dest: val_inj)
    with Some show ?thesis by simp
  qed
qed

lemma lookup_val [simp]: "enum_lookup members val (cp (val m)) = Some m"
  by (simp add: lookup_iff)

end

text \<open>An invariant of a step relation.\<close>

locale preserved =
  fixes step :: "'s \<Rightarrow> 's \<Rightarrow> bool"
    and inv :: "'s \<Rightarrow> bool"
  assumes step_inv: "step s t \<Longrightarrow> inv s \<Longrightarrow> inv t"
begin

lemma run_inv: "step\<^sup>*\<^sup>* s t \<Longrightarrow> inv s \<Longrightarrow> inv t"
  by (induction rule: rtranclp_induct) (auto intro: step_inv)

end

text \<open>
  A fencing token: every step keeps it or makes it larger. A step that supersedes a
  holder makes it strictly larger, so the holder's token is never current again.
\<close>

locale fencing =
  fixes step :: "'s \<Rightarrow> 's \<Rightarrow> bool"
    and token :: "'s \<Rightarrow> 't::order"
  assumes token_mono: "step s t \<Longrightarrow> token s \<le> token t"
begin

lemma run_token_mono: "step\<^sup>*\<^sup>* s t \<Longrightarrow> token s \<le> token t"
  by (induction rule: rtranclp_induct) (auto dest: token_mono intro: order_trans)

lemma superseded_stays: "step\<^sup>*\<^sup>* s t \<Longrightarrow> k < token s \<Longrightarrow> token t \<noteq> k"
  by (auto dest: run_token_mono)

end

end
