(* ===== verification/Authz_Capabilities.thy ===== *)
theory Authz_Capabilities
  imports Prelude
begin

text \<open>
  The capabilities, scopes, audit modes and roles of \<^verbatim>\<open>paw_backend/authz/capabilities.py\<close>
  and \<^verbatim>\<open>authz/roles.py\<close>: the closed enumerations with their stored values, the table
  \<open>CAPABILITIES\<close> (scope, delegability and audit mode of each capability), the table of
  repository permissions, and the boundary parser \<open>parse_capability\<close>.
\<close>

section \<open>Roles and scopes\<close>

datatype SystemRole = SystemRole_OWNER | SystemRole_ADMIN | SystemRole_USER | SystemRole_SYSTEM

primrec SystemRole_value :: "SystemRole \<Rightarrow> string" where
  "SystemRole_value SystemRole_OWNER = ''owner''"
| "SystemRole_value SystemRole_ADMIN = ''admin''"
| "SystemRole_value SystemRole_USER = ''user''"
| "SystemRole_value SystemRole_SYSTEM = ''system''"

definition SystemRole_members :: "SystemRole list" where
  "SystemRole_members = [SystemRole_OWNER, SystemRole_ADMIN, SystemRole_USER, SystemRole_SYSTEM]"

datatype ProjectRole = ProjectRole_MANAGER | ProjectRole_CONTRIBUTOR | ProjectRole_VIEWER

primrec ProjectRole_value :: "ProjectRole \<Rightarrow> string" where
  "ProjectRole_value ProjectRole_MANAGER = ''manager''"
| "ProjectRole_value ProjectRole_CONTRIBUTOR = ''contributor''"
| "ProjectRole_value ProjectRole_VIEWER = ''viewer''"

definition ProjectRole_members :: "ProjectRole list" where
  "ProjectRole_members = [ProjectRole_MANAGER, ProjectRole_CONTRIBUTOR, ProjectRole_VIEWER]"

datatype Scope = Scope_SYSTEM | Scope_PROJECT | Scope_SELF

datatype AuditMode = AuditMode_REQUIRED | AuditMode_DENIED_ONLY

datatype RepoPermission = RepoPermission_READ | RepoPermission_WRITE | RepoPermission_AGENT

section \<open>Capabilities\<close>

datatype Capability =
    CHAT_USE
  | AGENT_USE
  | WORKSPACE_USE
  | GITHUB_USE
  | MEMORY_USE
  | MEMORY_READ
  | PR_CREATE
  | PROJECT_INVITATION_RESPOND
  | PROJECT_LEAVE
  | PROJECT_CREATE
  | SHARED_MEMORY_READ
  | SHARED_MEMORY_MANAGE
  | SHARED_MEMORY_CREATE
  | SHARED_MEMORY_EDIT
  | SHARED_MEMORY_DELETE
  | SHARED_MEMORY_RESTORE
  | SHARED_MEMORY_CANDIDATE_APPROVE
  | SHARED_MEMORY_CANDIDATE_REJECT
  | ACCOUNT_READ
  | ACCOUNT_MANAGE
  | SYSTEM_HEALTH_SUMMARY_READ
  | TASKS_LIST
  | NOTIFICATION_READ
  | NOTIFICATION_MANAGE
  | ADMIN_USERS_MANAGE
  | ADMIN_USAGE_VIEW
  | ADMIN_QUOTA_MANAGE
  | ADMIN_AUDIT_VIEW
  | ADMIN_SYSTEM_PROMPT_MANAGE
  | ADMIN_MODELS_MANAGE
  | ADMIN_ROUTING_MANAGE
  | ADMIN_PERMISSIONS_MANAGE
  | ADMIN_CONFIG_MANAGE
  | ADMIN_PROJECTS_MANAGE
  | ADMIN_AUTH_POLICY_VIEW
  | ADMIN_COMPUTE_FULL_GPU
  | ADMIN_SYSTEM_HEALTH_VIEW
  | OWNER_ADMINS_MANAGE
  | OWNER_OWNERSHIP_TRANSFER
  | OWNER_RECOVERY_MANAGE
  | OWNER_USER_RESTORE
  | OWNER_BACKUP_MANAGE
  | OWNER_AUTH_POLICY_MANAGE
  | PROJECT_READ
  | PROJECT_CHAT
  | PROJECT_TASK_RUN
  | PROJECT_REPO_WRITE
  | PROJECT_AGENT_USE
  | PROJECT_PR_CREATE
  | PROJECT_MEMORY_USE
  | PROJECT_MEMORY_MANAGE
  | PROJECT_SETTINGS_MANAGE
  | PROJECT_REPO_ADD
  | PROJECT_MEMBERS_MANAGE
  | PROJECT_AGENT_POLICY_MANAGE
  | PROJECT_LIFECYCLE_MANAGE
  | PROJECT_TASK_WORKING_SET_MANAGE
  | PROJECT_TASK_WRITE_RESERVATION_RELEASE

primrec Capability_value :: "Capability \<Rightarrow> string" where
  "Capability_value CHAT_USE = ''chat.use''"
| "Capability_value AGENT_USE = ''agent.use''"
| "Capability_value WORKSPACE_USE = ''workspace.use''"
| "Capability_value GITHUB_USE = ''github.use''"
| "Capability_value MEMORY_USE = ''memory.use''"
| "Capability_value MEMORY_READ = ''memory.read''"
| "Capability_value PR_CREATE = ''pr.create''"
| "Capability_value PROJECT_INVITATION_RESPOND = ''project.invitation.respond''"
| "Capability_value PROJECT_LEAVE = ''project.leave''"
| "Capability_value PROJECT_CREATE = ''project.create''"
| "Capability_value SHARED_MEMORY_READ = ''shared_memory.read''"
| "Capability_value SHARED_MEMORY_MANAGE = ''shared_memory.manage''"
| "Capability_value SHARED_MEMORY_CREATE = ''shared_memory.create''"
| "Capability_value SHARED_MEMORY_EDIT = ''shared_memory.edit''"
| "Capability_value SHARED_MEMORY_DELETE = ''shared_memory.delete''"
| "Capability_value SHARED_MEMORY_RESTORE = ''shared_memory.restore''"
| "Capability_value SHARED_MEMORY_CANDIDATE_APPROVE = ''shared_memory.candidate.approve''"
| "Capability_value SHARED_MEMORY_CANDIDATE_REJECT = ''shared_memory.candidate.reject''"
| "Capability_value ACCOUNT_READ = ''account.read''"
| "Capability_value ACCOUNT_MANAGE = ''account.manage''"
| "Capability_value SYSTEM_HEALTH_SUMMARY_READ = ''system_health.summary.read''"
| "Capability_value TASKS_LIST = ''tasks.list''"
| "Capability_value NOTIFICATION_READ = ''notification.read''"
| "Capability_value NOTIFICATION_MANAGE = ''notification.manage''"
| "Capability_value ADMIN_USERS_MANAGE = ''admin.users.manage''"
| "Capability_value ADMIN_USAGE_VIEW = ''admin.usage.view''"
| "Capability_value ADMIN_QUOTA_MANAGE = ''admin.quota.manage''"
| "Capability_value ADMIN_AUDIT_VIEW = ''admin.audit.view''"
| "Capability_value ADMIN_SYSTEM_PROMPT_MANAGE = ''admin.system_prompt.manage''"
| "Capability_value ADMIN_MODELS_MANAGE = ''admin.models.manage''"
| "Capability_value ADMIN_ROUTING_MANAGE = ''admin.routing.manage''"
| "Capability_value ADMIN_PERMISSIONS_MANAGE = ''admin.permissions.manage''"
| "Capability_value ADMIN_CONFIG_MANAGE = ''admin.config.manage''"
| "Capability_value ADMIN_PROJECTS_MANAGE = ''admin.projects.manage''"
| "Capability_value ADMIN_AUTH_POLICY_VIEW = ''admin.auth_policy.view''"
| "Capability_value ADMIN_COMPUTE_FULL_GPU = ''admin.compute.full_gpu''"
| "Capability_value ADMIN_SYSTEM_HEALTH_VIEW = ''admin.system_health.view''"
| "Capability_value OWNER_ADMINS_MANAGE = ''owner.admins.manage''"
| "Capability_value OWNER_OWNERSHIP_TRANSFER = ''owner.ownership.transfer''"
| "Capability_value OWNER_RECOVERY_MANAGE = ''owner.recovery.manage''"
| "Capability_value OWNER_USER_RESTORE = ''owner.user_restore''"
| "Capability_value OWNER_BACKUP_MANAGE = ''owner.backup.manage''"
| "Capability_value OWNER_AUTH_POLICY_MANAGE = ''owner.auth_policy.manage''"
| "Capability_value PROJECT_READ = ''project.read''"
| "Capability_value PROJECT_CHAT = ''project.chat''"
| "Capability_value PROJECT_TASK_RUN = ''project.task.run''"
| "Capability_value PROJECT_REPO_WRITE = ''project.repo.write''"
| "Capability_value PROJECT_AGENT_USE = ''project.agent.use''"
| "Capability_value PROJECT_PR_CREATE = ''project.pr.create''"
| "Capability_value PROJECT_MEMORY_USE = ''project.memory.use''"
| "Capability_value PROJECT_MEMORY_MANAGE = ''project.memory.manage''"
| "Capability_value PROJECT_SETTINGS_MANAGE = ''project.settings.manage''"
| "Capability_value PROJECT_REPO_ADD = ''project.repo.add''"
| "Capability_value PROJECT_MEMBERS_MANAGE = ''project.members.manage''"
| "Capability_value PROJECT_AGENT_POLICY_MANAGE = ''project.agent_policy.manage''"
| "Capability_value PROJECT_LIFECYCLE_MANAGE = ''project.lifecycle.manage''"
| "Capability_value PROJECT_TASK_WORKING_SET_MANAGE = ''project.task.working_set.manage''"
| "Capability_value PROJECT_TASK_WRITE_RESERVATION_RELEASE = ''project.task.write_reservation.release''"

definition Capability_members :: "Capability list" where
  "Capability_members =
    [CHAT_USE, AGENT_USE, WORKSPACE_USE,
     GITHUB_USE, MEMORY_USE, MEMORY_READ,
     PR_CREATE, PROJECT_INVITATION_RESPOND, PROJECT_LEAVE,
     PROJECT_CREATE, SHARED_MEMORY_READ, SHARED_MEMORY_MANAGE,
     SHARED_MEMORY_CREATE, SHARED_MEMORY_EDIT, SHARED_MEMORY_DELETE,
     SHARED_MEMORY_RESTORE, SHARED_MEMORY_CANDIDATE_APPROVE, SHARED_MEMORY_CANDIDATE_REJECT,
     ACCOUNT_READ, ACCOUNT_MANAGE, SYSTEM_HEALTH_SUMMARY_READ,
     TASKS_LIST, NOTIFICATION_READ, NOTIFICATION_MANAGE,
     ADMIN_USERS_MANAGE, ADMIN_USAGE_VIEW, ADMIN_QUOTA_MANAGE,
     ADMIN_AUDIT_VIEW, ADMIN_SYSTEM_PROMPT_MANAGE, ADMIN_MODELS_MANAGE,
     ADMIN_ROUTING_MANAGE, ADMIN_PERMISSIONS_MANAGE, ADMIN_CONFIG_MANAGE,
     ADMIN_PROJECTS_MANAGE, ADMIN_AUTH_POLICY_VIEW, ADMIN_COMPUTE_FULL_GPU,
     ADMIN_SYSTEM_HEALTH_VIEW, OWNER_ADMINS_MANAGE, OWNER_OWNERSHIP_TRANSFER,
     OWNER_RECOVERY_MANAGE, OWNER_USER_RESTORE, OWNER_BACKUP_MANAGE,
     OWNER_AUTH_POLICY_MANAGE, PROJECT_READ, PROJECT_CHAT,
     PROJECT_TASK_RUN, PROJECT_REPO_WRITE, PROJECT_AGENT_USE,
     PROJECT_PR_CREATE, PROJECT_MEMORY_USE, PROJECT_MEMORY_MANAGE,
     PROJECT_SETTINGS_MANAGE, PROJECT_REPO_ADD, PROJECT_MEMBERS_MANAGE,
     PROJECT_AGENT_POLICY_MANAGE, PROJECT_LIFECYCLE_MANAGE, PROJECT_TASK_WORKING_SET_MANAGE,
     PROJECT_TASK_WRITE_RESERVATION_RELEASE]"

record CapabilityInfo =
  scope :: Scope
  delegable :: bool
  audit :: AuditMode

definition info :: "Scope \<Rightarrow> bool \<Rightarrow> bool \<Rightarrow> CapabilityInfo" where
  "info s d read_only =
     \<lparr>scope = s, delegable = d,
      audit = (if read_only then AuditMode_DENIED_ONLY else AuditMode_REQUIRED)\<rparr>"

text \<open>
  The table is total: every member has an entry (the module raises at import time
  otherwise), so it is a function. The second argument is \<open>delegable\<close>, the third
  \<open>read_only\<close>.
\<close>

primrec CAPABILITIES :: "Capability \<Rightarrow> CapabilityInfo" where
  "CAPABILITIES CHAT_USE = info Scope_SELF True False"
| "CAPABILITIES AGENT_USE = info Scope_SELF False False"
| "CAPABILITIES WORKSPACE_USE = info Scope_SELF True False"
| "CAPABILITIES GITHUB_USE = info Scope_SELF True False"
| "CAPABILITIES MEMORY_USE = info Scope_SELF True False"
| "CAPABILITIES MEMORY_READ = info Scope_SELF True True"
| "CAPABILITIES PR_CREATE = info Scope_SELF True False"
| "CAPABILITIES PROJECT_INVITATION_RESPOND = info Scope_SELF False False"
| "CAPABILITIES PROJECT_LEAVE = info Scope_SELF False False"
| "CAPABILITIES PROJECT_CREATE = info Scope_SYSTEM False False"
| "CAPABILITIES SHARED_MEMORY_READ = info Scope_SYSTEM True True"
| "CAPABILITIES SHARED_MEMORY_MANAGE = info Scope_SYSTEM False False"
| "CAPABILITIES SHARED_MEMORY_CREATE = info Scope_SYSTEM False False"
| "CAPABILITIES SHARED_MEMORY_EDIT = info Scope_SYSTEM False False"
| "CAPABILITIES SHARED_MEMORY_DELETE = info Scope_SYSTEM False False"
| "CAPABILITIES SHARED_MEMORY_RESTORE = info Scope_SYSTEM False False"
| "CAPABILITIES SHARED_MEMORY_CANDIDATE_APPROVE = info Scope_SYSTEM False False"
| "CAPABILITIES SHARED_MEMORY_CANDIDATE_REJECT = info Scope_SYSTEM False False"
| "CAPABILITIES ACCOUNT_READ = info Scope_SYSTEM False True"
| "CAPABILITIES ACCOUNT_MANAGE = info Scope_SYSTEM False False"
| "CAPABILITIES SYSTEM_HEALTH_SUMMARY_READ = info Scope_SYSTEM False True"
| "CAPABILITIES TASKS_LIST = info Scope_SYSTEM False True"
| "CAPABILITIES NOTIFICATION_READ = info Scope_SYSTEM False True"
| "CAPABILITIES NOTIFICATION_MANAGE = info Scope_SYSTEM False False"
| "CAPABILITIES ADMIN_USERS_MANAGE = info Scope_SYSTEM False False"
| "CAPABILITIES ADMIN_USAGE_VIEW = info Scope_SYSTEM False False"
| "CAPABILITIES ADMIN_QUOTA_MANAGE = info Scope_SYSTEM False False"
| "CAPABILITIES ADMIN_AUDIT_VIEW = info Scope_SYSTEM False False"
| "CAPABILITIES ADMIN_SYSTEM_PROMPT_MANAGE = info Scope_SYSTEM False False"
| "CAPABILITIES ADMIN_MODELS_MANAGE = info Scope_SYSTEM False False"
| "CAPABILITIES ADMIN_ROUTING_MANAGE = info Scope_SYSTEM False False"
| "CAPABILITIES ADMIN_PERMISSIONS_MANAGE = info Scope_SYSTEM False False"
| "CAPABILITIES ADMIN_CONFIG_MANAGE = info Scope_SYSTEM False False"
| "CAPABILITIES ADMIN_PROJECTS_MANAGE = info Scope_SYSTEM False False"
| "CAPABILITIES ADMIN_AUTH_POLICY_VIEW = info Scope_SYSTEM False False"
| "CAPABILITIES ADMIN_COMPUTE_FULL_GPU = info Scope_SYSTEM False False"
| "CAPABILITIES ADMIN_SYSTEM_HEALTH_VIEW = info Scope_SYSTEM False True"
| "CAPABILITIES OWNER_ADMINS_MANAGE = info Scope_SYSTEM False False"
| "CAPABILITIES OWNER_OWNERSHIP_TRANSFER = info Scope_SYSTEM False False"
| "CAPABILITIES OWNER_RECOVERY_MANAGE = info Scope_SYSTEM False False"
| "CAPABILITIES OWNER_USER_RESTORE = info Scope_SYSTEM False False"
| "CAPABILITIES OWNER_BACKUP_MANAGE = info Scope_SYSTEM False False"
| "CAPABILITIES OWNER_AUTH_POLICY_MANAGE = info Scope_SYSTEM False False"
| "CAPABILITIES PROJECT_READ = info Scope_PROJECT True True"
| "CAPABILITIES PROJECT_CHAT = info Scope_PROJECT True False"
| "CAPABILITIES PROJECT_TASK_RUN = info Scope_PROJECT True False"
| "CAPABILITIES PROJECT_REPO_WRITE = info Scope_PROJECT True False"
| "CAPABILITIES PROJECT_AGENT_USE = info Scope_PROJECT False False"
| "CAPABILITIES PROJECT_PR_CREATE = info Scope_PROJECT True False"
| "CAPABILITIES PROJECT_MEMORY_USE = info Scope_PROJECT True False"
| "CAPABILITIES PROJECT_MEMORY_MANAGE = info Scope_PROJECT False False"
| "CAPABILITIES PROJECT_SETTINGS_MANAGE = info Scope_PROJECT False False"
| "CAPABILITIES PROJECT_REPO_ADD = info Scope_PROJECT False False"
| "CAPABILITIES PROJECT_MEMBERS_MANAGE = info Scope_PROJECT False False"
| "CAPABILITIES PROJECT_AGENT_POLICY_MANAGE = info Scope_PROJECT False False"
| "CAPABILITIES PROJECT_LIFECYCLE_MANAGE = info Scope_PROJECT False False"
| "CAPABILITIES PROJECT_TASK_WORKING_SET_MANAGE = info Scope_PROJECT True False"
| "CAPABILITIES PROJECT_TASK_WRITE_RESERVATION_RELEASE = info Scope_PROJECT False False"

text \<open>\<open>None\<close>: the capability is not about a single repository (no key in the table).\<close>

definition REPO_PERMISSION_OF :: "Capability \<rightharpoonup> RepoPermission" where
  "REPO_PERMISSION_OF =
     [PROJECT_READ \<mapsto> RepoPermission_READ,
      PROJECT_MEMORY_USE \<mapsto> RepoPermission_READ,
      PROJECT_REPO_WRITE \<mapsto> RepoPermission_WRITE,
      PROJECT_PR_CREATE \<mapsto> RepoPermission_WRITE,
      PROJECT_TASK_RUN \<mapsto> RepoPermission_AGENT,
      PROJECT_AGENT_USE \<mapsto> RepoPermission_AGENT]"

text \<open>
  \<open>parse_capability\<close>: a \<^verbatim>\<open>str\<close> that is exactly a member's value gives the member; every
  other object gives \<open>None\<close>.
\<close>

definition parse_capability :: "pyval \<Rightarrow> Capability option" where
  "parse_capability name =
     (case name of
        PyStr s \<Rightarrow> enum_lookup Capability_members Capability_value s
      | _ \<Rightarrow> None)"

section \<open>The enumerations are string enumerations\<close>

lemma Capability_members_all: "c \<in> set Capability_members"
  by (cases c) (simp_all add: Capability_members_def)

lemma Capability_values_distinct: "distinct (map Capability_value Capability_members)"
  by code_simp

interpretation capability_enum: str_enum Capability_members Capability_value
  by unfold_locales (rule Capability_members_all, rule Capability_values_distinct)

interpretation system_role_enum: str_enum SystemRole_members SystemRole_value
proof
  show "m \<in> set SystemRole_members" for m
    by (cases m) (simp_all add: SystemRole_members_def)
  show "distinct (map SystemRole_value SystemRole_members)" by code_simp
qed

interpretation project_role_enum: str_enum ProjectRole_members ProjectRole_value
proof
  show "m \<in> set ProjectRole_members" for m
    by (cases m) (simp_all add: ProjectRole_members_def)
  show "distinct (map ProjectRole_value ProjectRole_members)" by code_simp
qed

section \<open>Facts about the tables\<close>

lemma scope_info [simp]: "scope (info s d r) = s"
  and delegable_info [simp]: "delegable (info s d r) = d"
  by (simp_all add: info_def)

lemma REPO_PERMISSION_OF_project:
  "REPO_PERMISSION_OF c = Some p \<Longrightarrow> scope (CAPABILITIES c) = Scope_PROJECT"
  by (auto simp: REPO_PERMISSION_OF_def split: if_splits)

text \<open>The only workspace-wide right an agent can ever hold is reading Shared Memory.\<close>

lemma delegable_not_system:
  "delegable (CAPABILITIES c) \<Longrightarrow> scope (CAPABILITIES c) = Scope_SYSTEM \<Longrightarrow> c = SHARED_MEMORY_READ"
  by (cases c) simp_all

end
