(* ===== verification/Authz_Subjects.thy ===== *)
theory Authz_Subjects
  imports Authz_Capabilities
begin

text \<open>
  The value objects the policy decides on (\<^verbatim>\<open>paw_backend/authz/subjects.py\<close>): principals,
  repository ACLs, resources and agent grants, with their validating constructors
  (\<^verbatim>\<open>__post_init__\<close>). Identifiers are UUIDs; \<open>to_uuid\<close> accepts a UUID or its canonical
  text and nothing else.
\<close>

datatype subject_error = ValueError | TypeError

section \<open>UUID text\<close>

text \<open>
  \<^verbatim>\<open>uuid.UUID(value)\<close> followed by the test \<^verbatim>\<open>str(parsed) == value\<close> accepts exactly the
  canonical texts: 32 lower-case hexadecimal digits in groups of 8-4-4-4-12.
  \<open>uuid_text\<close> is \<^verbatim>\<open>str\<close> of a UUID, \<open>parse_uuid_text\<close> reads the digits back.
\<close>

definition hex_digit :: "nat \<Rightarrow> nat" where
  "hex_digit d = (if d < 10 then 48 + d else 87 + d)"

definition hex_value :: "nat \<Rightarrow> nat option" where
  "hex_value c =
     (if 48 \<le> c \<and> c \<le> 57 then Some (c - 48)
      else if 97 \<le> c \<and> c \<le> 102 then Some (c - 87)
      else None)"

primrec hex_digits :: "nat \<Rightarrow> nat \<Rightarrow> pystr" where
  "hex_digits 0 n = []"
| "hex_digits (Suc k) n = hex_digits k (n div 16) @ [hex_digit (n mod 16)]"

fun hex_number :: "nat \<Rightarrow> pystr \<Rightarrow> nat option" where
  "hex_number acc [] = Some acc"
| "hex_number acc (c # cs) =
     (case hex_value c of None \<Rightarrow> None | Some d \<Rightarrow> hex_number (16 * acc + d) cs)"

definition dashed :: "pystr \<Rightarrow> pystr" where
  "dashed hs = take 8 hs @ [45] @ take 4 (drop 8 hs) @ [45] @ take 4 (drop 12 hs) @ [45]
     @ take 4 (drop 16 hs) @ [45] @ drop 20 hs"

definition undashed :: "pystr \<Rightarrow> pystr" where
  "undashed s = take 8 s @ take 4 (drop 9 s) @ take 4 (drop 14 s) @ take 4 (drop 19 s) @ drop 24 s"

definition uuid_text :: "uuid \<Rightarrow> pystr" where
  "uuid_text u = dashed (hex_digits 32 u)"

definition parse_uuid_text :: "pystr \<Rightarrow> uuid option" where
  "parse_uuid_text s =
     (if length s = 36 then
        (case hex_number 0 (undashed s) of
           Some u \<Rightarrow> if uuid_text u = s then Some u else None
         | None \<Rightarrow> None)
      else None)"

definition to_uuid :: "pyval \<Rightarrow> subject_error + uuid" where
  "to_uuid v =
     (case v of
        PyUuid u \<Rightarrow> Inr u
      | PyStr s \<Rightarrow> (case parse_uuid_text s of Some u \<Rightarrow> Inr u | None \<Rightarrow> Inl ValueError)
      | _ \<Rightarrow> Inl ValueError)"

definition optional_uuid :: "pyval \<Rightarrow> subject_error + uuid option" where
  "optional_uuid v =
     (if v = PyNone then Inr None else rbind (to_uuid v) (\<lambda>u. Inr (Some u)))"

section \<open>Enumerations built from their value\<close>

text \<open>\<^verbatim>\<open>EnumClass(value)\<close>: the member itself or its value, else \<^verbatim>\<open>ValueError\<close>.\<close>

definition enum_of :: "'e list \<Rightarrow> ('e \<Rightarrow> string) \<Rightarrow> 'e enum_arg \<Rightarrow> subject_error + 'e" where
  "enum_of ms val a =
     (case a of
        Member m \<Rightarrow> Inr m
      | ExactStr s \<Rightarrow> (case enum_lookup ms val s of Some m \<Rightarrow> Inr m | None \<Rightarrow> Inl ValueError)
      | NoEnum \<Rightarrow> Inl ValueError)"

datatype ProjectState = ProjectState_ACTIVE | ProjectState_ARCHIVED | ProjectState_PENDING_DELETION

primrec ProjectState_value :: "ProjectState \<Rightarrow> string" where
  "ProjectState_value ProjectState_ACTIVE = ''active''"
| "ProjectState_value ProjectState_ARCHIVED = ''archived''"
| "ProjectState_value ProjectState_PENDING_DELETION = ''pending_deletion''"

definition ProjectState_members :: "ProjectState list" where
  "ProjectState_members =
     [ProjectState_ACTIVE, ProjectState_ARCHIVED, ProjectState_PENDING_DELETION]"

section \<open>Principal\<close>

record Principal =
  user_id :: uuid
  system_role :: SystemRole
  project_roles :: "uuid \<rightharpoonup> ProjectRole"

fun collect_roles ::
  "(uuid \<rightharpoonup> ProjectRole) \<Rightarrow> (pyval \<times> ProjectRole enum_arg) list
     \<Rightarrow> subject_error + (uuid \<rightharpoonup> ProjectRole)" where
  "collect_roles roles [] = Inr roles"
| "collect_roles roles ((project_id, role) # items) =
     rbind (to_uuid project_id) (\<lambda>key.
       if roles key \<noteq> None then Inl ValueError
       else rbind (enum_of ProjectRole_members ProjectRole_value role) (\<lambda>r.
         collect_roles (roles(key \<mapsto> r)) items))"

definition Principal_init ::
  "pyval \<Rightarrow> SystemRole enum_arg \<Rightarrow> (pyval \<times> ProjectRole enum_arg) list
     \<Rightarrow> subject_error + Principal" where
  "Principal_init uid role items =
     rbind (to_uuid uid) (\<lambda>u.
     rbind (enum_of SystemRole_members SystemRole_value role) (\<lambda>r.
     rbind (collect_roles Map.empty items) (\<lambda>roles.
       Inr \<lparr>user_id = u, system_role = r, project_roles = roles\<rparr>)))"

section \<open>Repository ACL\<close>

record RepoAcl =
  acl_repo_id :: uuid
  acl_project_id :: uuid
  acl_allowed :: "RepoPermission set option"

text \<open>
  The \<open>allowed\<close> argument: \<^verbatim>\<open>None\<close>, text or a non-collection (refused), or a collection
  whose elements may or may not be permissions.
\<close>

datatype 'a collection_arg = NoneArg | TextOrNotIterable | Items "'a arg list"

definition all_inst :: "'a arg list \<Rightarrow> bool" where
  "all_inst xs = list_all (\<lambda>x. x \<noteq> Other) xs"

fun insts :: "'a arg list \<Rightarrow> 'a list" where
  "insts [] = []"
| "insts (Inst a # xs) = a # insts xs"
| "insts (Other # xs) = insts xs"

definition RepoAcl_init ::
  "pyval \<Rightarrow> pyval \<Rightarrow> RepoPermission collection_arg \<Rightarrow> subject_error + RepoAcl" where
  "RepoAcl_init rid pid perms =
     rbind (to_uuid rid) (\<lambda>r.
     rbind (to_uuid pid) (\<lambda>p.
       case perms of
         NoneArg \<Rightarrow> Inr \<lparr>acl_repo_id = r, acl_project_id = p, acl_allowed = None\<rparr>
       | TextOrNotIterable \<Rightarrow> Inl TypeError
       | Items xs \<Rightarrow>
           (if all_inst xs
            then Inr \<lparr>acl_repo_id = r, acl_project_id = p, acl_allowed = Some (set (insts xs))\<rparr>
            else Inl ValueError)))"

definition RepoAcl_inherit :: "pyval \<Rightarrow> pyval \<Rightarrow> subject_error + RepoAcl" where
  "RepoAcl_inherit rid pid = RepoAcl_init rid pid NoneArg"

definition RepoAcl_override ::
  "pyval \<Rightarrow> pyval \<Rightarrow> RepoPermission collection_arg \<Rightarrow> subject_error + RepoAcl" where
  "RepoAcl_override rid pid perms =
     (case perms of
        Items xs \<Rightarrow> RepoAcl_init rid pid (Items xs)
      | _ \<Rightarrow> Inl TypeError)"

definition inherits :: "RepoAcl \<Rightarrow> bool" where
  "inherits a \<longleftrightarrow> acl_allowed a = None"

section \<open>Resource\<close>

record Resource =
  r_kind :: pystr
  r_id :: "uuid option"
  project_id :: "uuid option"
  owner_id :: "uuid option"
  repo_id :: "uuid option"
  project_state :: "ProjectState option"
  repo_acl :: "RepoAcl option"

definition lower_ascii :: "nat \<Rightarrow> bool" where
  "lower_ascii c \<longleftrightarrow> 97 \<le> c \<and> c \<le> 122"

definition digit_ascii :: "nat \<Rightarrow> bool" where
  "digit_ascii c \<longleftrightarrow> 48 \<le> c \<and> c \<le> 57"

text \<open>The pattern \<^verbatim>\<open>[a-z][a-z0-9_]{0,63}\<close>, matched in full.\<close>

definition valid_kind :: "pystr \<Rightarrow> bool" where
  "valid_kind k =
     (case k of
        [] \<Rightarrow> False
      | c # cs \<Rightarrow> lower_ascii c \<and> length cs \<le> 63
                  \<and> list_all (\<lambda>x. lower_ascii x \<or> digit_ascii x \<or> x = 95) cs)"

text \<open>The pattern \<^verbatim>\<open>[A-Za-z0-9._-]{1,64}\<close> of a client's request id, matched in full.\<close>

definition is_valid_client_request_id :: "pyval \<Rightarrow> bool" where
  "is_valid_client_request_id v =
     (case v of
        PyStr s \<Rightarrow> 1 \<le> length s \<and> length s \<le> 64
          \<and> list_all (\<lambda>x. 65 \<le> x \<and> x \<le> 90 \<or> lower_ascii x \<or> digit_ascii x
                          \<or> x = 46 \<or> x = 95 \<or> x = 45) s
      | _ \<Rightarrow> False)"

definition Resource_init ::
  "pyval \<Rightarrow> pyval \<Rightarrow> pyval \<Rightarrow> pyval \<Rightarrow> pyval \<Rightarrow> ProjectState enum_arg option \<Rightarrow> RepoAcl arg option
     \<Rightarrow> subject_error + Resource" where
  "Resource_init kind i pid oid rid pstate acl =
     (case kind of
        PyStr k \<Rightarrow>
          if \<not> valid_kind k then Inl ValueError else
          rbind (optional_uuid i) (\<lambda>i'.
          rbind (optional_uuid pid) (\<lambda>p'.
          rbind (optional_uuid oid) (\<lambda>o'.
          rbind (optional_uuid rid) (\<lambda>r'.
          rbind (case pstate of
                   None \<Rightarrow> Inr None
                 | Some st \<Rightarrow> rbind (enum_of ProjectState_members ProjectState_value st)
                               (\<lambda>x. Inr (Some x))) (\<lambda>st'.
          if st' \<noteq> None \<and> p' = None then Inl ValueError else
          case acl of
            None \<Rightarrow> Inr \<lparr>r_kind = k, r_id = i', project_id = p', owner_id = o', repo_id = r',
                         project_state = st', repo_acl = None\<rparr>
          | Some Other \<Rightarrow> Inl ValueError
          | Some (Inst a) \<Rightarrow>
              if r' = None then Inl ValueError
              else Inr \<lparr>r_kind = k, r_id = i', project_id = p', owner_id = o', repo_id = r',
                        project_state = st', repo_acl = Some a\<rparr>)))))
      | _ \<Rightarrow> Inl ValueError)"

text \<open>What \<open>Resource_init\<close> guarantees of every resource that exists.\<close>

definition resource_ok :: "Resource \<Rightarrow> bool" where
  "resource_ok r \<longleftrightarrow>
     valid_kind (r_kind r)
     \<and> (project_state r \<noteq> None \<longrightarrow> project_id r \<noteq> None)
     \<and> (repo_acl r \<noteq> None \<longrightarrow> repo_id r \<noteq> None)"

definition Resource_system :: Resource where
  "Resource_system =
     \<lparr>r_kind = cp ''system'', r_id = None, project_id = None, owner_id = None, repo_id = None,
      project_state = None, repo_acl = None\<rparr>"

definition Resource_project :: "uuid \<Rightarrow> ProjectState \<Rightarrow> Resource" where
  "Resource_project pid st =
     \<lparr>r_kind = cp ''project'', r_id = Some pid, project_id = Some pid, owner_id = None,
      repo_id = None, project_state = Some st, repo_acl = None\<rparr>"

definition Resource_repository :: "uuid \<Rightarrow> ProjectState \<Rightarrow> RepoAcl \<Rightarrow> Resource" where
  "Resource_repository pid st acl =
     \<lparr>r_kind = cp ''repository'', r_id = Some (acl_repo_id acl), project_id = Some pid,
      owner_id = None, repo_id = Some (acl_repo_id acl), project_state = Some st,
      repo_acl = Some acl\<rparr>"

definition Resource_owned_by :: "uuid \<Rightarrow> pystr \<Rightarrow> uuid option \<Rightarrow> Resource" where
  "Resource_owned_by oid k i =
     \<lparr>r_kind = k, r_id = i, project_id = None, owner_id = Some oid, repo_id = None,
      project_state = None, repo_acl = None\<rparr>"

section \<open>Agent grants\<close>

datatype ProjectScope = ALL_PROJECTS | Projects "uuid set"

record AgentGrant =
  agent_id :: uuid
  capabilities :: "Capability set"
  project_ids :: ProjectScope

datatype scope_arg = AllProjectsArg | ScopeNotIterable | ScopeItems "pyval list"

fun uuids_of :: "pyval list \<Rightarrow> subject_error + uuid list" where
  "uuids_of [] = Inr []"
| "uuids_of (v # vs) = rbind (to_uuid v) (\<lambda>u. rbind (uuids_of vs) (\<lambda>us. Inr (u # us)))"

definition AgentGrant_init ::
  "pyval \<Rightarrow> Capability collection_arg \<Rightarrow> scope_arg \<Rightarrow> subject_error + AgentGrant" where
  "AgentGrant_init aid caps projects =
     rbind (to_uuid aid) (\<lambda>a.
       case caps of
         Items xs \<Rightarrow>
           if \<not> all_inst xs then Inl ValueError
           else (case projects of
                   AllProjectsArg \<Rightarrow>
                     Inr \<lparr>agent_id = a, capabilities = set (insts xs), project_ids = ALL_PROJECTS\<rparr>
                 | ScopeNotIterable \<Rightarrow> Inl TypeError
                 | ScopeItems ps \<Rightarrow>
                     rbind (uuids_of ps) (\<lambda>us.
                       Inr \<lparr>agent_id = a, capabilities = set (insts xs),
                            project_ids = Projects (set us)\<rparr>))
       | _ \<Rightarrow> Inl TypeError)"

fun parse_names :: "pyval list \<Rightarrow> Capability arg list option" where
  "parse_names [] = Some []"
| "parse_names (v # vs) =
     (case parse_capability v of
        None \<Rightarrow> None
      | Some c \<Rightarrow> map_option (\<lambda>cs. Inst c # cs) (parse_names vs))"

text \<open>\<open>None\<close>: the names argument is itself a text.\<close>

definition AgentGrant_from_names ::
  "pyval \<Rightarrow> pyval list option \<Rightarrow> scope_arg \<Rightarrow> subject_error + AgentGrant" where
  "AgentGrant_from_names aid names projects =
     (case names of
        None \<Rightarrow> Inl TypeError
      | Some vs \<Rightarrow>
          (case parse_names vs of
             None \<Rightarrow> Inl ValueError
           | Some cs \<Rightarrow> AgentGrant_init aid (Items cs) projects))"

section \<open>Facts\<close>

lemma hex_value_digit [simp]: "d < 16 \<Longrightarrow> hex_value (hex_digit d) = Some d"
  by (auto simp: hex_value_def hex_digit_def)

lemma hex_number_snoc:
  "hex_number acc (xs @ [c]) =
     (case hex_number acc xs of
        None \<Rightarrow> None
      | Some a \<Rightarrow> map_option (\<lambda>d. 16 * a + d) (hex_value c))"
  by (induction acc xs rule: hex_number.induct) (auto split: option.splits)

lemma hex_number_digits: "hex_number 0 (hex_digits k n) = Some (n mod 16 ^ k)"
  by (induction k arbitrary: n) (simp_all add: hex_number_snoc mod_mult2_eq)

lemma length_hex_digits [simp]: "length (hex_digits k n) = k"
  by (induction k arbitrary: n) simp_all

lemma undashed_dashed: "length hs = 32 \<Longrightarrow> undashed (dashed hs) = hs"
proof -
  assume len: "length hs = 32"
  have "undashed (dashed hs) =
      take 8 hs @ take 4 (drop 8 hs) @ take 4 (drop 12 hs) @ take 4 (drop 16 hs) @ drop 20 hs"
    using len by (simp add: undashed_def dashed_def)
  also have "\<dots> = hs"
  proof -
    have "take 4 (drop 16 hs) @ drop 20 hs = drop 16 hs"
      using append_take_drop_id [of 4 "drop 16 hs"] by simp
    moreover have "take 4 (drop 12 hs) @ drop 16 hs = drop 12 hs"
      using append_take_drop_id [of 4 "drop 12 hs"] by simp
    moreover have "take 4 (drop 8 hs) @ drop 12 hs = drop 8 hs"
      using append_take_drop_id [of 4 "drop 8 hs"] by simp
    ultimately show ?thesis by simp
  qed
  finally show ?thesis .
qed

lemma parse_uuid_text_uuid_text:
  assumes "u < 2 ^ 128"
  shows "parse_uuid_text (uuid_text u) = Some u"
proof -
  have "(16::nat) ^ 32 = 2 ^ 128" by simp
  with assms have "hex_number 0 (undashed (uuid_text u)) = Some u"
    by (simp add: uuid_text_def undashed_dashed hex_number_digits)
  moreover have "length (uuid_text u) = 36"
    by (simp add: uuid_text_def dashed_def)
  ultimately show ?thesis by (simp add: parse_uuid_text_def)
qed

lemma parse_uuid_text_Some: "parse_uuid_text s = Some u \<Longrightarrow> s = uuid_text u"
  by (auto simp: parse_uuid_text_def split: if_splits option.splits)

lemma to_uuid_Inr_iff:
  "to_uuid v = Inr u \<longleftrightarrow> v = PyUuid u \<or> (\<exists>s. v = PyStr s \<and> parse_uuid_text s = Some u)"
  by (auto simp: to_uuid_def split: pyval.splits option.splits)

lemma Resource_init_ok: "Resource_init k i p ow r st acl = Inr res \<Longrightarrow> resource_ok res"
  by (auto simp: Resource_init_def resource_ok_def rbind_eq_Inr_iff
        split: pyval.splits if_splits option.splits arg.splits)

lemma resource_ok_system [simp]: "resource_ok Resource_system"
  and resource_ok_project [simp]: "resource_ok (Resource_project pid st)"
  and resource_ok_repository [simp]: "resource_ok (Resource_repository pid st acl)"
  by (simp_all add: resource_ok_def Resource_system_def Resource_project_def
        Resource_repository_def valid_kind_def cp_def lower_ascii_def)

lemma set_insts [simp]: "set (insts (map Inst xs)) = set xs"
  by (induction xs) auto

lemma all_inst_map [simp]: "all_inst (map Inst xs)"
  by (simp add: all_inst_def list_all_iff)

end
