(* ===== verification/Authz_Policy.thy ===== *)
theory Authz_Policy
  imports Authz_Subjects
begin

text \<open>
  The role to capability policy and the decision functions of
  \<^verbatim>\<open>paw_backend/authz/policy.py\<close>: the default grants, \<open>decide\<close> (a person),
  \<open>decide_agent\<close> (an agent acting for a person), \<open>decide_role_change\<close> and
  \<open>decide_ownership_transfer\<close>. The abstract specification \<open>permitted\<close> states in one
  formula when a person may act; \<open>decide_refines_permitted\<close> shows that the branching
  code computes exactly that.
\<close>

section \<open>Decisions\<close>

datatype Reason =
    GRANTED_BY_SYSTEM_ROLE
  | GRANTED_BY_PROJECT_ROLE
  | GRANTED_TO_RESOURCE_OWNER
  | UNAUTHENTICATED
  | UNKNOWN_CAPABILITY
  | INVALID_RESOURCE
  | CAPABILITY_NOT_GRANTED
  | NOT_PROJECT_MEMBER
  | NOT_RESOURCE_OWNER
  | AGENT_CAPABILITY_FORBIDDEN
  | AGENT_CAPABILITY_NOT_GRANTED
  | AGENT_PROJECT_NOT_GRANTED
  | DELEGATOR_NOT_ACTIVE
  | REPO_ACL_UNRESOLVED
  | REPO_ACL_MISMATCH
  | REPO_ACL_FORBIDS
  | PROJECT_STATE_FORBIDS
  | ROLE_CHANGE_NOT_ALLOWED
  | SELF_ROLE_CHANGE
  | AUDIT_UNAVAILABLE

record Decision =
  allowed :: bool
  reason :: Reason
  d_capability :: "Capability option"

definition Decision_allow :: "Reason \<Rightarrow> Capability \<Rightarrow> Decision" where
  "Decision_allow r c = \<lparr>allowed = True, reason = r, d_capability = Some c\<rparr>"

definition Decision_deny :: "Reason \<Rightarrow> Capability option \<Rightarrow> Decision" where
  "Decision_deny r c = \<lparr>allowed = False, reason = r, d_capability = c\<rparr>"

section \<open>The default grants\<close>

definition USER_GRANTS :: "Capability set" where
  "USER_GRANTS =
     {CHAT_USE, AGENT_USE, WORKSPACE_USE, GITHUB_USE, MEMORY_USE, MEMORY_READ, PR_CREATE,
      SHARED_MEMORY_READ, PROJECT_CREATE, PROJECT_INVITATION_RESPOND, PROJECT_LEAVE,
      ACCOUNT_READ, ACCOUNT_MANAGE, SYSTEM_HEALTH_SUMMARY_READ, TASKS_LIST,
      NOTIFICATION_READ, NOTIFICATION_MANAGE}"

definition ADMIN_ONLY :: "Capability set" where
  "ADMIN_ONLY =
     {SHARED_MEMORY_MANAGE, SHARED_MEMORY_CREATE, SHARED_MEMORY_EDIT, SHARED_MEMORY_DELETE,
      SHARED_MEMORY_RESTORE, SHARED_MEMORY_CANDIDATE_APPROVE, SHARED_MEMORY_CANDIDATE_REJECT,
      ADMIN_USERS_MANAGE, ADMIN_USAGE_VIEW, ADMIN_QUOTA_MANAGE, ADMIN_AUDIT_VIEW,
      ADMIN_SYSTEM_PROMPT_MANAGE, ADMIN_MODELS_MANAGE, ADMIN_ROUTING_MANAGE,
      ADMIN_PERMISSIONS_MANAGE, ADMIN_CONFIG_MANAGE, ADMIN_PROJECTS_MANAGE,
      ADMIN_AUTH_POLICY_VIEW, PROJECT_LIFECYCLE_MANAGE, PROJECT_TASK_WRITE_RESERVATION_RELEASE,
      ADMIN_COMPUTE_FULL_GPU, ADMIN_SYSTEM_HEALTH_VIEW}"

definition OWNER_ONLY :: "Capability set" where
  "OWNER_ONLY =
     {OWNER_ADMINS_MANAGE, OWNER_OWNERSHIP_TRANSFER, OWNER_RECOVERY_MANAGE, OWNER_USER_RESTORE,
      OWNER_BACKUP_MANAGE, OWNER_AUTH_POLICY_MANAGE}"

definition VIEWER_GRANTS :: "Capability set" where
  "VIEWER_GRANTS = {PROJECT_READ}"

definition CONTRIBUTOR_ONLY :: "Capability set" where
  "CONTRIBUTOR_ONLY =
     {PROJECT_CHAT, PROJECT_TASK_RUN, PROJECT_REPO_WRITE, PROJECT_AGENT_USE, PROJECT_PR_CREATE,
      PROJECT_MEMORY_USE, PROJECT_TASK_WORKING_SET_MANAGE}"

definition MANAGER_ONLY :: "Capability set" where
  "MANAGER_ONLY =
     {PROJECT_MEMBERS_MANAGE, PROJECT_REPO_ADD, PROJECT_SETTINGS_MANAGE,
      PROJECT_AGENT_POLICY_MANAGE, PROJECT_MEMORY_MANAGE, PROJECT_LIFECYCLE_MANAGE,
      PROJECT_TASK_WRITE_RESERVATION_RELEASE}"

definition ADMIN_GRANTS :: "Capability set" where
  "ADMIN_GRANTS = USER_GRANTS \<union> ADMIN_ONLY"

definition CONTRIBUTOR_GRANTS :: "Capability set" where
  "CONTRIBUTOR_GRANTS = VIEWER_GRANTS \<union> CONTRIBUTOR_ONLY"

section \<open>Policies\<close>

record Policy =
  system_grants :: "SystemRole \<rightharpoonup> Capability set"
  project_grants :: "ProjectRole \<rightharpoonup> Capability set"

text \<open>
  The check of \<^verbatim>\<open>Policy.__post_init__\<close>: a membership confers project capabilities only.
  \<open>None\<close> is its \<^verbatim>\<open>ValueError\<close>.
\<close>

definition project_only :: "Capability set option \<Rightarrow> bool" where
  "project_only g =
     (case g of None \<Rightarrow> True | Some cs \<Rightarrow> \<forall>c \<in> cs. scope (CAPABILITIES c) = Scope_PROJECT)"

definition Policy_init ::
  "(SystemRole \<rightharpoonup> Capability set) \<Rightarrow> (ProjectRole \<rightharpoonup> Capability set) \<Rightarrow> Policy option" where
  "Policy_init sg pg =
     (if list_all (\<lambda>role. project_only (pg role)) ProjectRole_members
      then Some \<lparr>system_grants = sg, project_grants = pg\<rparr>
      else None)"

definition granted :: "('r \<rightharpoonup> Capability set) \<Rightarrow> 'r \<Rightarrow> Capability set" where
  "granted g role = (case g role of None \<Rightarrow> {} | Some cs \<Rightarrow> cs)"

definition system_role_allows :: "Policy \<Rightarrow> SystemRole \<Rightarrow> Capability \<Rightarrow> bool" where
  "system_role_allows pol role c \<longleftrightarrow> c \<in> granted (system_grants pol) role"

definition project_role_allows :: "Policy \<Rightarrow> ProjectRole \<Rightarrow> Capability \<Rightarrow> bool" where
  "project_role_allows pol role c \<longleftrightarrow> c \<in> granted (project_grants pol) role"

definition DEFAULT_POLICY :: Policy where
  "DEFAULT_POLICY =
     \<lparr>system_grants =
        [SystemRole_OWNER \<mapsto> ADMIN_GRANTS \<union> OWNER_ONLY,
         SystemRole_ADMIN \<mapsto> ADMIN_GRANTS,
         SystemRole_USER \<mapsto> USER_GRANTS,
         SystemRole_SYSTEM \<mapsto> {}],
      project_grants =
        [ProjectRole_MANAGER \<mapsto> CONTRIBUTOR_GRANTS \<union> MANAGER_ONLY,
         ProjectRole_CONTRIBUTOR \<mapsto> CONTRIBUTOR_GRANTS,
         ProjectRole_VIEWER \<mapsto> VIEWER_GRANTS]\<rparr>"

text \<open>What each lifecycle state leaves usable; \<open>None\<close> is everything the roles allow.\<close>

primrec STATE_ALLOWS :: "ProjectState \<Rightarrow> Capability set option" where
  "STATE_ALLOWS ProjectState_ACTIVE = None"
| "STATE_ALLOWS ProjectState_ARCHIVED = Some {PROJECT_READ, PROJECT_LIFECYCLE_MANAGE}"
| "STATE_ALLOWS ProjectState_PENDING_DELETION = Some {PROJECT_LIFECYCLE_MANAGE}"

section \<open>Deciding for a person\<close>

definition project_role_decision ::
  "Principal \<Rightarrow> Capability \<Rightarrow> uuid \<Rightarrow> Policy \<Rightarrow> Decision" where
  "project_role_decision p cap pid pol =
     (if system_role_allows pol (system_role p) cap
      then Decision_allow GRANTED_BY_SYSTEM_ROLE cap
      else case project_roles p pid of
             None \<Rightarrow> Decision_deny NOT_PROJECT_MEMBER (Some cap)
           | Some role \<Rightarrow>
               if project_role_allows pol role cap
               then Decision_allow GRANTED_BY_PROJECT_ROLE cap
               else Decision_deny CAPABILITY_NOT_GRANTED (Some cap))"

text \<open>
  The repository ACL of the last branch: \<^verbatim>\<open>REPO_PERMISSION_OF[cap]\<close> raises \<open>KeyError\<close> for
  a capability that is not about a repository.
\<close>

datatype policy_error = KeyError

definition narrowed_by_acl ::
  "Decision \<Rightarrow> RepoAcl option \<Rightarrow> Capability \<Rightarrow> policy_error + Decision" where
  "narrowed_by_acl d acl cap =
     (case acl of
        None \<Rightarrow> Inr d
      | Some a \<Rightarrow>
          (case acl_allowed a of
             None \<Rightarrow> Inr d
           | Some perms \<Rightarrow>
               if \<not> allowed d then Inr d
               else (case REPO_PERMISSION_OF cap of
                       None \<Rightarrow> Inl KeyError
                     | Some perm \<Rightarrow>
                         if perm \<in> perms then Inr d
                         else Inr (Decision_deny REPO_ACL_FORBIDS (Some cap)))))"

definition decide_project ::
  "Principal \<Rightarrow> Capability \<Rightarrow> Resource \<Rightarrow> Policy \<Rightarrow> policy_error + Decision" where
  "decide_project p cap res pol =
     (case (project_id res, project_state res) of
        (Some pid, Some st) \<Rightarrow>
          (if (case STATE_ALLOWS st of None \<Rightarrow> False | Some cs \<Rightarrow> cap \<notin> cs)
           then Inr (Decision_deny PROJECT_STATE_FORBIDS (Some cap))
           else
             (case repo_id res of
                None \<Rightarrow> narrowed_by_acl (project_role_decision p cap pid pol) (repo_acl res) cap
              | Some rid \<Rightarrow>
                  (case repo_acl res of
                     None \<Rightarrow> Inr (Decision_deny REPO_ACL_UNRESOLVED (Some cap))
                   | Some a \<Rightarrow>
                       if acl_repo_id a \<noteq> rid \<or> acl_project_id a \<noteq> pid
                       then Inr (Decision_deny REPO_ACL_MISMATCH (Some cap))
                       else narrowed_by_acl (project_role_decision p cap pid pol) (Some a) cap)))
      | _ \<Rightarrow> Inr (Decision_deny INVALID_RESOURCE (Some cap)))"

definition decide ::
  "Principal arg \<Rightarrow> Capability arg \<Rightarrow> Resource arg \<Rightarrow> Policy \<Rightarrow> policy_error + Decision" where
  "decide who capability resource pol =
     (case capability of
        Other \<Rightarrow> Inr (Decision_deny UNKNOWN_CAPABILITY None)
      | Inst cap \<Rightarrow>
          (case who of
             Other \<Rightarrow> Inr (Decision_deny UNAUTHENTICATED (Some cap))
           | Inst p \<Rightarrow>
               (case resource of
                  Other \<Rightarrow> Inr (Decision_deny INVALID_RESOURCE (Some cap))
                | Inst res \<Rightarrow>
                    if repo_id res \<noteq> None
                       \<and> (scope (CAPABILITIES cap) \<noteq> Scope_PROJECT \<or> REPO_PERMISSION_OF cap = None)
                    then Inr (Decision_deny INVALID_RESOURCE (Some cap))
                    else
                      (case scope (CAPABILITIES cap) of
                         Scope_SYSTEM \<Rightarrow>
                           Inr (if system_role_allows pol (system_role p) cap
                                then Decision_allow GRANTED_BY_SYSTEM_ROLE cap
                                else Decision_deny CAPABILITY_NOT_GRANTED (Some cap))
                       | Scope_SELF \<Rightarrow>
                           Inr (case owner_id res of
                                  None \<Rightarrow> Decision_deny INVALID_RESOURCE (Some cap)
                                | Some oid \<Rightarrow>
                                    if \<not> system_role_allows pol (system_role p) cap
                                    then Decision_deny CAPABILITY_NOT_GRANTED (Some cap)
                                    else if oid \<noteq> user_id p
                                    then Decision_deny NOT_RESOURCE_OWNER (Some cap)
                                    else Decision_allow GRANTED_TO_RESOURCE_OWNER cap)
                       | Scope_PROJECT \<Rightarrow> decide_project p cap res pol))))"

section \<open>Deciding for an agent\<close>

definition grant_covers_project :: "AgentGrant \<Rightarrow> Resource arg \<Rightarrow> bool" where
  "grant_covers_project g resource =
     (case project_ids g of
        ALL_PROJECTS \<Rightarrow> True
      | Projects ps \<Rightarrow>
          (case resource of
             Other \<Rightarrow> False
           | Inst res \<Rightarrow> (case project_id res of None \<Rightarrow> False | Some pid \<Rightarrow> pid \<in> ps)))"

definition acl_lets_agent :: "Resource arg \<Rightarrow> bool" where
  "acl_lets_agent resource =
     (case resource of
        Other \<Rightarrow> True
      | Inst res \<Rightarrow>
          (case repo_acl res of
             None \<Rightarrow> True
           | Some a \<Rightarrow> (case acl_allowed a of
                          None \<Rightarrow> True
                        | Some perms \<Rightarrow> RepoPermission_AGENT \<in> perms)))"

definition decide_agent ::
  "Principal arg \<Rightarrow> AgentGrant arg \<Rightarrow> Capability arg \<Rightarrow> Resource arg \<Rightarrow> Policy
     \<Rightarrow> policy_error + Decision" where
  "decide_agent delegator grant capability resource pol =
     rbind (decide delegator capability resource pol) (\<lambda>user_decision.
       if \<not> allowed user_decision then Inr user_decision
       else
         (case (d_capability user_decision, grant) of
            (Some cap, Inst g) \<Rightarrow>
              if \<not> delegable (CAPABILITIES cap)
              then Inr (Decision_deny AGENT_CAPABILITY_FORBIDDEN (Some cap))
              else if cap \<notin> capabilities g
              then Inr (Decision_deny AGENT_CAPABILITY_NOT_GRANTED (Some cap))
              else if \<not> grant_covers_project g resource
              then Inr (Decision_deny AGENT_PROJECT_NOT_GRANTED (Some cap))
              else if \<not> acl_lets_agent resource
              then Inr (Decision_deny REPO_ACL_FORBIDS (Some cap))
              else Inr user_decision
          | (cap, _) \<Rightarrow> Inr (Decision_deny AGENT_CAPABILITY_NOT_GRANTED cap)))"

section \<open>Changing roles\<close>

definition valid_target :: "pyval \<Rightarrow> uuid option" where
  "valid_target v = (case to_uuid v of Inr u \<Rightarrow> Some u | Inl _ \<Rightarrow> None)"

text \<open>\<open>None\<close> as the new role removes the user; \<open>Some Other\<close> is an object that is no role.\<close>

definition decide_role_change ::
  "Principal arg \<Rightarrow> pyval \<Rightarrow> SystemRole arg \<Rightarrow> SystemRole arg option \<Rightarrow> Policy
     \<Rightarrow> policy_error + Decision" where
  "decide_role_change actor target_user_id target_role new_role pol =
     (case actor of
        Other \<Rightarrow> Inr (Decision_deny UNAUTHENTICATED (Some ADMIN_USERS_MANAGE))
      | Inst p \<Rightarrow>
          (case (valid_target target_user_id, target_role) of
             (Some target, Inst old) \<Rightarrow>
               if new_role = Some Other
               then Inr (Decision_deny ROLE_CHANGE_NOT_ALLOWED (Some ADMIN_USERS_MANAGE))
               else if target = user_id p
               then Inr (Decision_deny SELF_ROLE_CHANGE (Some ADMIN_USERS_MANAGE))
               else
                 (let involved = {old} \<union> (case new_role of Some (Inst r) \<Rightarrow> {r} | _ \<Rightarrow> {})
                  in if SystemRole_SYSTEM \<in> involved
                     then Inr (Decision_deny ROLE_CHANGE_NOT_ALLOWED (Some ADMIN_USERS_MANAGE))
                     else if SystemRole_OWNER \<in> involved
                     then Inr (Decision_deny ROLE_CHANGE_NOT_ALLOWED (Some OWNER_OWNERSHIP_TRANSFER))
                     else decide actor
                            (Inst (if SystemRole_ADMIN \<in> involved
                                   then OWNER_ADMINS_MANAGE else ADMIN_USERS_MANAGE))
                            (Inst Resource_system) pol)
           | _ \<Rightarrow> Inr (Decision_deny ROLE_CHANGE_NOT_ALLOWED (Some ADMIN_USERS_MANAGE))))"

definition decide_ownership_transfer ::
  "Principal arg \<Rightarrow> pyval \<Rightarrow> SystemRole arg \<Rightarrow> Policy \<Rightarrow> policy_error + Decision" where
  "decide_ownership_transfer actor new_owner_id new_owner_role pol =
     rbind (decide actor (Inst OWNER_OWNERSHIP_TRANSFER) (Inst Resource_system) pol) (\<lambda>permitted.
       case actor of
         Other \<Rightarrow> Inr permitted
       | Inst p \<Rightarrow>
           if \<not> allowed permitted then Inr permitted
           else
             (case (valid_target new_owner_id, new_owner_role) of
                (Some new_owner, Inst role) \<Rightarrow>
                  if role \<notin> {SystemRole_USER, SystemRole_ADMIN}
                  then Inr (Decision_deny ROLE_CHANGE_NOT_ALLOWED (Some OWNER_OWNERSHIP_TRANSFER))
                  else if new_owner = user_id p
                  then Inr (Decision_deny SELF_ROLE_CHANGE (Some OWNER_OWNERSHIP_TRANSFER))
                  else Inr permitted
              | _ \<Rightarrow> Inr (Decision_deny ROLE_CHANGE_NOT_ALLOWED (Some OWNER_OWNERSHIP_TRANSFER))))"

section \<open>The abstract specification\<close>

text \<open>
  \<open>permitted\<close>: when a person may act. A workspace-wide right needs the system role; a
  personal right also needs to be about the person's own data; a project right needs the
  project to be in a state that leaves the right usable, a role (system or project) that
  holds it, and, for a repository, the repository's own ACL to leave the permission.
\<close>

definition state_leaves :: "ProjectState \<Rightarrow> Capability \<Rightarrow> bool" where
  "state_leaves st c \<longleftrightarrow> (\<forall>cs. STATE_ALLOWS st = Some cs \<longrightarrow> c \<in> cs)"

definition acl_leaves :: "Resource \<Rightarrow> uuid \<Rightarrow> Capability \<Rightarrow> bool" where
  "acl_leaves r pid c \<longleftrightarrow>
     (\<forall>rid. repo_id r = Some rid \<longrightarrow>
        (\<exists>a. repo_acl r = Some a \<and> acl_repo_id a = rid \<and> acl_project_id a = pid
           \<and> (\<forall>perms. acl_allowed a = Some perms \<longrightarrow>
                (\<exists>q \<in> perms. REPO_PERMISSION_OF c = Some q))))"

definition project_permitted :: "Principal \<Rightarrow> Capability \<Rightarrow> Resource \<Rightarrow> Policy \<Rightarrow> bool" where
  "project_permitted p c r pol \<longleftrightarrow>
     (\<exists>pid st. project_id r = Some pid \<and> project_state r = Some st \<and> state_leaves st c
        \<and> acl_leaves r pid c
        \<and> (system_role_allows pol (system_role p) c
           \<or> (\<exists>role. project_roles p pid = Some role \<and> project_role_allows pol role c)))"

definition permitted :: "Principal \<Rightarrow> Capability \<Rightarrow> Resource \<Rightarrow> Policy \<Rightarrow> bool" where
  "permitted p c r pol \<longleftrightarrow>
     (repo_id r \<noteq> None \<longrightarrow> REPO_PERMISSION_OF c \<noteq> None)
     \<and> (case scope (CAPABILITIES c) of
          Scope_SYSTEM \<Rightarrow> system_role_allows pol (system_role p) c
        | Scope_SELF \<Rightarrow>
            system_role_allows pol (system_role p) c \<and> owner_id r = Some (user_id p)
        | Scope_PROJECT \<Rightarrow> project_permitted p c r pol)"

definition allows :: "policy_error + Decision \<Rightarrow> bool" where
  "allows x = (case x of Inl _ \<Rightarrow> False | Inr d \<Rightarrow> allowed d)"

section \<open>Facts\<close>

named_theorems decision_simps \<open>unfolding of decisions\<close>

lemma allowed_simps [simp, decision_simps]:
  "allowed (Decision_allow r c)" "\<not> allowed (Decision_deny r oc)"
  "d_capability (Decision_allow r c) = Some c" "d_capability (Decision_deny r oc) = oc"
  "reason (Decision_allow r c) = r" "reason (Decision_deny r oc) = r"
  by (simp_all add: Decision_allow_def Decision_deny_def)

lemma allows_simps [simp, decision_simps]:
  "allows (Inr d) = allowed d" "\<not> allows (Inl e)"
  by (simp_all add: allows_def)

lemma project_role_decision_allowed:
  "allowed (project_role_decision p c pid pol) \<longleftrightarrow>
     system_role_allows pol (system_role p) c
     \<or> (\<exists>role. project_roles p pid = Some role \<and> project_role_allows pol role c)"
  by (auto simp: project_role_decision_def split: option.splits)

lemma project_role_decision_capability [simp]:
  "d_capability (project_role_decision p c pid pol) = Some c"
  by (auto simp: project_role_decision_def split: option.splits)

lemma narrowed_by_acl_inherit [simp]:
  "acl_allowed a = None \<Longrightarrow> narrowed_by_acl d (Some a) c = Inr d"
  "narrowed_by_acl d None c = Inr d"
  by (simp_all add: narrowed_by_acl_def)

lemma narrowed_by_acl_override:
  assumes "acl_allowed a = Some perms" and "REPO_PERMISSION_OF c = Some q"
    and "d_capability d = Some c"
  shows "\<exists>d'. narrowed_by_acl d (Some a) c = Inr d' \<and> d_capability d' = Some c
     \<and> (allowed d' \<longleftrightarrow> allowed d \<and> q \<in> perms)"
  using assms by (simp add: narrowed_by_acl_def)

lemma project_id_of_state: "resource_ok r \<Longrightarrow> project_state r = Some st \<Longrightarrow> project_id r \<noteq> None"
  by (simp add: resource_ok_def)

lemma decide_project_correct:
  assumes ok: "resource_ok r"
    and repo: "repo_id r \<noteq> None \<longrightarrow> REPO_PERMISSION_OF c \<noteq> None"
  shows "\<exists>d. decide_project p c r pol = Inr d \<and> d_capability d = Some c
     \<and> (allowed d \<longleftrightarrow> project_permitted p c r pol)"
proof (cases "project_id r = None \<or> project_state r = None")
  case True
  then show ?thesis
    by (auto simp: decide_project_def project_permitted_def split: option.splits)
next
  case False
  then obtain pid st where ids: "project_id r = Some pid" "project_state r = Some st"
    by auto
  show ?thesis
  proof (cases "state_leaves st c")
    case closed: False
    with ids show ?thesis
      by (auto simp: decide_project_def project_permitted_def state_leaves_def)
  next
    case opened: True
    then have st: "\<not> (case STATE_ALLOWS st of None \<Rightarrow> False | Some cs \<Rightarrow> c \<notin> cs)"
      by (auto simp: state_leaves_def split: option.splits)
    show ?thesis
    proof (cases "repo_id r")
      case None
      with ok have "repo_acl r = None" by (auto simp: resource_ok_def)
      with ids opened st None show ?thesis
        by (simp add: decide_project_def project_permitted_def acl_leaves_def
              project_role_decision_allowed)
    next
      case (Some rid)
      with repo obtain q where q: "REPO_PERMISSION_OF c = Some q" by blast
      show ?thesis
      proof (cases "\<exists>a. repo_acl r = Some a \<and> acl_repo_id a = rid \<and> acl_project_id a = pid")
        case False
        with ids st Some show ?thesis
          by (auto simp: decide_project_def project_permitted_def acl_leaves_def
                split: option.splits)
      next
        case True
        then obtain a where a: "repo_acl r = Some a" "acl_repo_id a = rid" "acl_project_id a = pid"
          by blast
        show ?thesis
        proof (cases "acl_allowed a")
          case None
          with ids opened st Some a show ?thesis
            by (simp add: decide_project_def project_permitted_def acl_leaves_def
                  project_role_decision_allowed)
        next
          case (Some perms)
          from narrowed_by_acl_override [OF this q project_role_decision_capability, of p pid pol]
          obtain d where "narrowed_by_acl (project_role_decision p c pid pol) (Some a) c = Inr d"
            and "d_capability d = Some c"
            and "allowed d \<longleftrightarrow> allowed (project_role_decision p c pid pol) \<and> q \<in> perms"
            by blast
          with ids opened st \<open>repo_id r = Some rid\<close> a q Some show ?thesis
            by (auto simp: decide_project_def project_permitted_def acl_leaves_def
                  project_role_decision_allowed)
        qed
      qed
    qed
  qed
qed

lemma decide_correct:
  assumes ok: "resource_ok r"
  shows "\<exists>d. decide (Inst p) (Inst c) (Inst r) pol = Inr d \<and> d_capability d = Some c
     \<and> (allowed d \<longleftrightarrow> permitted p c r pol)"
proof (cases "repo_id r \<noteq> None \<and> REPO_PERMISSION_OF c = None")
  case True
  then show ?thesis by (auto simp: decide_def permitted_def)
next
  case False
  then have repo: "repo_id r \<noteq> None \<longrightarrow> REPO_PERMISSION_OF c \<noteq> None" by auto
  then have guard: "\<not> (repo_id r \<noteq> None
      \<and> (scope (CAPABILITIES c) \<noteq> Scope_PROJECT \<or> REPO_PERMISSION_OF c = None))"
    using REPO_PERMISSION_OF_project [of c] by auto
  show ?thesis
  proof (cases "scope (CAPABILITIES c)")
    case Scope_SYSTEM
    with guard repo show ?thesis by (auto simp: decide_def permitted_def)
  next
    case Scope_SELF
    with guard repo show ?thesis
      by (auto simp: decide_def permitted_def split: option.splits)
  next
    case Scope_PROJECT
    with guard repo decide_project_correct [OF ok repo, of p pol] show ?thesis
      by (auto simp: decide_def permitted_def)
  qed
qed

lemma allows_decide:
  "resource_ok r \<Longrightarrow> allows (decide (Inst p) (Inst c) (Inst r) pol) \<longleftrightarrow> permitted p c r pol"
  using decide_correct [of r p c pol] by auto

lemma decide_other [simp]:
  "\<not> allows (decide Other c r pol)" "\<not> allows (decide p Other r pol)" "\<not> allows (decide p c Other pol)"
  by (cases c; cases p; simp add: decide_def)+

lemma decide_agent_correct:
  assumes ok: "resource_ok r"
  shows "\<exists>d. decide_agent (Inst p) (Inst g) (Inst c) (Inst r) pol = Inr d
     \<and> (allowed d \<longleftrightarrow> permitted p c r pol \<and> delegable (CAPABILITIES c) \<and> c \<in> capabilities g
          \<and> grant_covers_project g (Inst r) \<and> acl_lets_agent (Inst r))"
proof -
  from decide_correct [OF ok] obtain d where
    d: "decide (Inst p) (Inst c) (Inst r) pol = Inr d" "d_capability d = Some c"
      "allowed d \<longleftrightarrow> permitted p c r pol" by blast
  then show ?thesis by (auto simp: decide_agent_def)
qed

lemma system_role_allows_default:
  "system_role_allows DEFAULT_POLICY role c \<longleftrightarrow>
     (case role of
        SystemRole_OWNER \<Rightarrow> c \<in> ADMIN_GRANTS \<union> OWNER_ONLY
      | SystemRole_ADMIN \<Rightarrow> c \<in> ADMIN_GRANTS
      | SystemRole_USER \<Rightarrow> c \<in> USER_GRANTS
      | SystemRole_SYSTEM \<Rightarrow> False)"
  by (cases role) (simp_all add: system_role_allows_def DEFAULT_POLICY_def granted_def)

lemma project_role_allows_default:
  "project_role_allows DEFAULT_POLICY role c \<longleftrightarrow>
     (case role of
        ProjectRole_MANAGER \<Rightarrow> c \<in> CONTRIBUTOR_GRANTS \<union> MANAGER_ONLY
      | ProjectRole_CONTRIBUTOR \<Rightarrow> c \<in> CONTRIBUTOR_GRANTS
      | ProjectRole_VIEWER \<Rightarrow> c \<in> VIEWER_GRANTS)"
  by (cases role) (simp_all add: project_role_allows_def DEFAULT_POLICY_def granted_def)

lemmas grant_sets = USER_GRANTS_def ADMIN_ONLY_def OWNER_ONLY_def VIEWER_GRANTS_def
  CONTRIBUTOR_ONLY_def MANAGER_ONLY_def ADMIN_GRANTS_def CONTRIBUTOR_GRANTS_def

lemma owner_admins_manage_default:
  "system_role_allows DEFAULT_POLICY role OWNER_ADMINS_MANAGE \<longleftrightarrow> role = SystemRole_OWNER"
  "system_role_allows DEFAULT_POLICY role OWNER_OWNERSHIP_TRANSFER \<longleftrightarrow> role = SystemRole_OWNER"
  "system_role_allows DEFAULT_POLICY role ADMIN_USERS_MANAGE \<longleftrightarrow>
     role \<in> {SystemRole_OWNER, SystemRole_ADMIN}"
  by (cases role; simp add: system_role_allows_default grant_sets)+

lemma permitted_system:
  "scope (CAPABILITIES c) = Scope_SYSTEM \<Longrightarrow>
     permitted p c Resource_system pol \<longleftrightarrow> system_role_allows pol (system_role p) c"
  by (simp add: permitted_def Resource_system_def)

end
