(* ===== verification/Authz_Authorizer.thy ===== *)
theory Authz_Authorizer
  imports Authz_Policy
begin

text \<open>
  Auditing (\<^verbatim>\<open>paw_backend/authz/audit.py\<close>) and the \<open>Authorizer\<close> (\<^verbatim>\<open>authz/authorizer.py\<close>): decide,
  then record, fail closed. The identifiers \<^verbatim>\<open>uuid.uuid4()\<close> draws and the clock reading are
  parameters (\<open>stamp\<close>). The sink is the interface \<open>AuditSink\<close>: the locale \<open>audit_sink\<close> states
  its documented law (\<^verbatim>\<open>record\<close> raises when the event was not stored), interpreted on the two
  sinks of the module. A call that raises may still have stored the event (a deadline that
  passes after the commit), so a failed write says nothing about the log.
\<close>

section \<open>Events\<close>

primrec Reason_value :: "Reason \<Rightarrow> string" where
  "Reason_value GRANTED_BY_SYSTEM_ROLE = ''granted_by_system_role''"
| "Reason_value GRANTED_BY_PROJECT_ROLE = ''granted_by_project_role''"
| "Reason_value GRANTED_TO_RESOURCE_OWNER = ''granted_to_resource_owner''"
| "Reason_value UNAUTHENTICATED = ''unauthenticated''"
| "Reason_value UNKNOWN_CAPABILITY = ''unknown_capability''"
| "Reason_value INVALID_RESOURCE = ''invalid_resource''"
| "Reason_value CAPABILITY_NOT_GRANTED = ''capability_not_granted''"
| "Reason_value NOT_PROJECT_MEMBER = ''not_project_member''"
| "Reason_value NOT_RESOURCE_OWNER = ''not_resource_owner''"
| "Reason_value AGENT_CAPABILITY_FORBIDDEN = ''agent_capability_forbidden''"
| "Reason_value AGENT_CAPABILITY_NOT_GRANTED = ''agent_capability_not_granted''"
| "Reason_value AGENT_PROJECT_NOT_GRANTED = ''agent_project_not_granted''"
| "Reason_value DELEGATOR_NOT_ACTIVE = ''delegator_not_active''"
| "Reason_value REPO_ACL_UNRESOLVED = ''repo_acl_unresolved''"
| "Reason_value REPO_ACL_MISMATCH = ''repo_acl_mismatch''"
| "Reason_value REPO_ACL_FORBIDS = ''repo_acl_forbids''"
| "Reason_value PROJECT_STATE_FORBIDS = ''project_state_forbids''"
| "Reason_value ROLE_CHANGE_NOT_ALLOWED = ''role_change_not_allowed''"
| "Reason_value SELF_ROLE_CHANGE = ''self_role_change''"
| "Reason_value AUDIT_UNAVAILABLE = ''audit_unavailable''"

record AuditEvent =
  event_id :: uuid
  correlation_id :: uuid
  occurred_at :: instant
  actor_id :: "uuid option"
  actor_role :: "string option"
  e_agent_id :: "uuid option"
  action :: string
  resource_kind :: pystr
  resource_id :: "uuid option"
  e_project_id :: "uuid option"
  e_repo_id :: "uuid option"
  e_repo_acl :: "string option"
  e_decision :: string
  e_reason :: string
  old_role :: "string option"
  new_role :: "string option"
  client_request_id :: "pystr option"

text \<open>What the event takes from outside: fresh ids, the clock, the caller's request ids.\<close>

record stamp =
  fresh_event_id :: uuid
  fresh_correlation_id :: uuid
  clock_reading :: instant
  given_correlation_id :: "uuid option"
  given_client_request_id :: pyval

definition UNKNOWN_RESOURCE :: Resource where
  "UNKNOWN_RESOURCE =
     \<lparr>r_kind = cp ''unknown'', r_id = None, project_id = None, owner_id = None, repo_id = None,
      project_state = None, repo_acl = None\<rparr>"

definition role_value :: "SystemRole arg option \<Rightarrow> string option" where
  "role_value r = (case r of Some (Inst x) \<Rightarrow> Some (SystemRole_value x) | _ \<Rightarrow> None)"

definition build_event ::
  "stamp \<Rightarrow> Decision \<Rightarrow> Principal arg \<Rightarrow> Resource arg \<Rightarrow> uuid option \<Rightarrow> AgentGrant arg option
     \<Rightarrow> SystemRole arg option \<Rightarrow> SystemRole arg option \<Rightarrow> AuditEvent" where
  "build_event st d who resource actor agent old new =
     (let target = (case resource of Inst r \<Rightarrow> r | Other \<Rightarrow> UNKNOWN_RESOURCE) in
      \<lparr>event_id = fresh_event_id st,
       correlation_id = (case given_correlation_id st of Some c \<Rightarrow> c | None \<Rightarrow> fresh_correlation_id st),
       occurred_at = clock_reading st,
       actor_id = (case who of Inst p \<Rightarrow> Some (user_id p) | Other \<Rightarrow> actor),
       actor_role = (case who of Inst p \<Rightarrow> Some (SystemRole_value (system_role p)) | Other \<Rightarrow> None),
       e_agent_id = (case agent of Some (Inst g) \<Rightarrow> Some (agent_id g) | _ \<Rightarrow> None),
       action = (case d_capability d of Some c \<Rightarrow> Capability_value c | None \<Rightarrow> ''unknown''),
       resource_kind = r_kind target,
       resource_id = r_id target,
       e_project_id = project_id target,
       e_repo_id = repo_id target,
       e_repo_acl = (case repo_acl target of
                       None \<Rightarrow> None
                     | Some a \<Rightarrow> Some (if inherits a then ''inherit'' else ''override'')),
       e_decision = (if allowed d then ''allow'' else ''deny''),
       e_reason = Reason_value (reason d),
       old_role = role_value old,
       new_role = role_value new,
       client_request_id =
         (case given_client_request_id st of
            PyStr s \<Rightarrow> if is_valid_client_request_id (PyStr s) then Some s else None
          | _ \<Rightarrow> None)\<rparr>)"

section \<open>Sinks\<close>

text \<open>
  \<open>record_to sink event log\<close> is the log after the call and whether the call returned
  (\<open>True\<close>) or raised, a timeout included (\<open>False\<close>).
\<close>

type_synonym 'log sink = "AuditEvent \<Rightarrow> 'log \<Rightarrow> 'log \<times> bool"

locale audit_sink =
  fixes record_to :: "'log sink"
    and stored :: "'log \<Rightarrow> AuditEvent \<Rightarrow> bool"
  assumes returned_stored: "record_to e l = (l', True) \<Longrightarrow> stored l' e"

definition InMemoryAuditSink_record :: "AuditEvent list sink" where
  "InMemoryAuditSink_record e log = (log @ [e], True)"

datatype write_outcome = Written | NotWritten | WrittenButFailed

definition PostgresAuditSink_record :: "(AuditEvent \<Rightarrow> write_outcome) \<Rightarrow> AuditEvent list sink" where
  "PostgresAuditSink_record outcome e log =
     (case outcome e of
        Written \<Rightarrow> (log @ [e], True)
      | NotWritten \<Rightarrow> (log, False)
      | WrittenButFailed \<Rightarrow> (log @ [e], False))"

section \<open>Auditing a decision\<close>

definition audit_mode :: "Decision \<Rightarrow> AuditMode" where
  "audit_mode d =
     (case d_capability d of None \<Rightarrow> AuditMode_REQUIRED | Some c \<Rightarrow> audit (CAPABILITIES c))"

definition audited ::
  "'log sink \<Rightarrow> stamp \<Rightarrow> Decision \<Rightarrow> Principal arg \<Rightarrow> Resource arg \<Rightarrow> uuid option
     \<Rightarrow> AgentGrant arg option \<Rightarrow> SystemRole arg option \<Rightarrow> SystemRole arg option
     \<Rightarrow> 'log \<Rightarrow> Decision \<times> 'log" where
  "audited sink st d who resource actor agent old new log =
     (let event = build_event st d who resource actor agent old new in
      if reason d = UNAUTHENTICATED then (d, log)
      else if allowed d \<and> agent = None \<and> audit_mode d = AuditMode_DENIED_ONLY then (d, log)
      else
        (case sink event log of
           (log', ok) \<Rightarrow>
             if \<not> ok \<and> allowed d
             then (d\<lparr>allowed := False, reason := AUDIT_UNAVAILABLE\<rparr>, log')
             else (d, log')))"

section \<open>The Authorizer\<close>

definition authorize ::
  "'log sink \<Rightarrow> Policy \<Rightarrow> stamp \<Rightarrow> Principal arg \<Rightarrow> Capability arg \<Rightarrow> Resource arg \<Rightarrow> 'log
     \<Rightarrow> policy_error + (Decision \<times> 'log)" where
  "authorize sink pol st who cap resource log =
     rbind (decide who cap resource pol) (\<lambda>d.
       Inr (audited sink st d who resource None None None None log))"

text \<open>
  The directory lookup: \<open>None\<close> when there is no directory, no slot in time, a deadline, a
  cancellation or an exception; otherwise the object the directory returned.
\<close>

definition lookup :: "(uuid \<Rightarrow> Principal arg option) \<Rightarrow> uuid \<Rightarrow> Principal option" where
  "lookup directory uid =
     (case directory uid of
        Some (Inst p) \<Rightarrow> if user_id p \<noteq> uid then None else Some p
      | _ \<Rightarrow> None)"

definition authorize_agent_action ::
  "'log sink \<Rightarrow> Policy \<Rightarrow> (uuid \<Rightarrow> Principal arg option) \<Rightarrow> stamp \<Rightarrow> pyval \<Rightarrow> AgentGrant arg
     \<Rightarrow> Capability arg \<Rightarrow> Resource arg \<Rightarrow> 'log \<Rightarrow> policy_error + (Decision \<times> 'log)" where
  "authorize_agent_action sink pol directory st delegator_id grant cap resource log =
     (let uid = (case to_uuid delegator_id of Inr u \<Rightarrow> Some u | Inl _ \<Rightarrow> None);
          found = (case uid of None \<Rightarrow> None | Some u \<Rightarrow> lookup directory u)
      in rbind (case found of
                  None \<Rightarrow> Inr (Decision_deny DELEGATOR_NOT_ACTIVE
                                 (case cap of Inst c \<Rightarrow> Some c | Other \<Rightarrow> None))
                | Some p \<Rightarrow> decide_agent (Inst p) grant cap resource pol) (\<lambda>d.
           Inr (audited sink st d (case found of Some p \<Rightarrow> Inst p | None \<Rightarrow> Other) resource uid
                  (Some grant) None None log)))"

text \<open>The audit resource of a user: its id in canonical form, or none when malformed.\<close>

definition user_resource :: "pyval \<Rightarrow> Resource arg" where
  "user_resource v =
     (case Resource_init (PyStr (cp ''user'')) v PyNone PyNone PyNone None None of
        Inr r \<Rightarrow> Inst r | Inl _ \<Rightarrow> Other)"

definition authorize_role_change ::
  "'log sink \<Rightarrow> Policy \<Rightarrow> stamp \<Rightarrow> Principal arg \<Rightarrow> pyval \<Rightarrow> SystemRole arg
     \<Rightarrow> SystemRole arg option \<Rightarrow> 'log \<Rightarrow> policy_error + (Decision \<times> 'log)" where
  "authorize_role_change sink pol st actor target old new log =
     rbind (decide_role_change actor target old new pol) (\<lambda>d.
       Inr (audited sink st d actor (user_resource target) None None (Some old) new log))"

definition authorize_ownership_transfer ::
  "'log sink \<Rightarrow> Policy \<Rightarrow> stamp \<Rightarrow> Principal arg \<Rightarrow> pyval \<Rightarrow> SystemRole arg \<Rightarrow> 'log
     \<Rightarrow> policy_error + (Decision \<times> 'log)" where
  "authorize_ownership_transfer sink pol st actor new_owner role log =
     rbind (decide_ownership_transfer actor new_owner role pol) (\<lambda>d.
       Inr (audited sink st d actor (user_resource new_owner) None None (Some role)
              (Some (Inst SystemRole_OWNER)) log))"

section \<open>Facts\<close>

text \<open>Auditing never turns a denial into an allow, and keeps the capability.\<close>

lemma audited_allowed:
  "audited sink st d who r a ag ol nw log = (d', log') \<Longrightarrow> allowed d' \<Longrightarrow> d' = d \<and> allowed d"
  by (auto simp: audited_def Let_def split: if_splits prod.splits)

text \<open>An allow that is not on the read-only allowlist went through the sink, which returned.\<close>

lemma audited_recorded:
  assumes "audited sink st d who r a ag ol nw log = (d', log')" and "allowed d'"
    and "reason d \<noteq> UNAUTHENTICATED"
    and "ag \<noteq> None \<or> audit_mode d = AuditMode_REQUIRED"
  shows "sink (build_event st d who r a ag ol nw) log = (log', True)"
  using assms by (auto simp: audited_def Let_def split: if_splits prod.splits)

lemma decide_allowed_reason:
  "decide who cap r pol = Inr d \<Longrightarrow> allowed d \<Longrightarrow> reason d \<noteq> UNAUTHENTICATED"
  by (auto simp: decide_def decide_project_def narrowed_by_acl_def project_role_decision_def
        split: arg.splits if_splits Scope.splits option.splits)

lemma decide_agent_allowed_reason:
  "decide_agent who g cap r pol = Inr d \<Longrightarrow> allowed d \<Longrightarrow> reason d \<noteq> UNAUTHENTICATED"
  by (auto simp: decide_agent_def rbind_eq_Inr_iff dest: decide_allowed_reason
        split: if_splits option.splits arg.splits)

section \<open>What every sink of the contract gives\<close>

context audit_sink
begin

lemma agent_action_recorded:
  assumes run: "authorize_agent_action record_to pol dir st uid g cap r log = Inr (d, log')"
    and al: "allowed d"
  shows "\<exists>e. stored log' e \<and> e_decision e = ''allow''
     \<and> e_agent_id e = (case g of Inst x \<Rightarrow> Some (agent_id x) | Other \<Rightarrow> None)"
proof -
  define found where "found = (case to_uuid uid of Inr u \<Rightarrow> lookup dir u | Inl _ \<Rightarrow> None)"
  define actor where "actor = (case to_uuid uid of Inr u \<Rightarrow> Some u | Inl _ \<Rightarrow> None)"
  from run obtain d0 who where
    d0: "(case found of
            None \<Rightarrow> Inr (Decision_deny DELEGATOR_NOT_ACTIVE
                           (case cap of Inst c \<Rightarrow> Some c | Other \<Rightarrow> None))
          | Some p \<Rightarrow> decide_agent (Inst p) g cap r pol) = Inr d0"
    and au: "audited record_to st d0 who r actor (Some g) None None log = (d, log')"
    by (auto simp: authorize_agent_action_def Let_def rbind_eq_Inr_iff found_def actor_def
          split: sum.splits)
  from audited_allowed [OF au al] have d: "d = d0" "allowed d0" by simp_all
  then have "reason d0 \<noteq> UNAUTHENTICATED"
    using d0 by (auto split: option.splits dest: decide_agent_allowed_reason)
  from audited_recorded [OF au al this]
  have "record_to (build_event st d0 who r actor (Some g) None None) log = (log', True)"
    by simp
  from returned_stored [OF this] d(2) show ?thesis
    by (intro exI [of _ "build_event st d0 who r actor (Some g) None None"])
      (auto simp: build_event_def Let_def split: arg.splits)
qed

lemma required_recorded:
  assumes run: "authorize record_to pol st who cap r log = Inr (d, log')"
    and al: "allowed d" and mode: "audit_mode d = AuditMode_REQUIRED"
  shows "\<exists>e. stored log' e \<and> e_decision e = ''allow''
     \<and> Some (action e) = map_option Capability_value (d_capability d)"
proof -
  from run obtain d0 where d0: "decide who cap r pol = Inr d0"
    and au: "audited record_to st d0 who r None None None None log = (d, log')"
    by (auto simp: authorize_def rbind_eq_Inr_iff)
  from audited_allowed [OF au al] have d: "d = d0" "allowed d0" by simp_all
  from decide_allowed_reason [OF d0 d(2)] mode d(1) audited_recorded [OF au al]
  have "record_to (build_event st d0 who r None None None None) log = (log', True)"
    by simp
  from returned_stored [OF this] have "stored log' (build_event st d0 who r None None None None)" .
  moreover have "d_capability d0 \<noteq> None"
    using d0 d(2)
    by (auto simp: decide_def decide_project_def narrowed_by_acl_def project_role_decision_def
          split: arg.splits if_splits Scope.splits option.splits)
  ultimately show ?thesis
    using d by (intro exI [of _ "build_event st d0 who r None None None None"])
      (auto simp: build_event_def Let_def)
qed

end

interpretation memory_sink: audit_sink InMemoryAuditSink_record "\<lambda>log e. e \<in> set log"
  by unfold_locales (auto simp: InMemoryAuditSink_record_def)

interpretation postgres_sink:
  audit_sink "PostgresAuditSink_record outcome" "\<lambda>log e. e \<in> set log" for outcome
  by unfold_locales (auto simp: PostgresAuditSink_record_def split: write_outcome.splits)

end
