(* ===== verification/Authz_Delegation.thy ===== *)
theory Authz_Delegation
  imports Authz_Policy
begin

text \<open>
  Grants of child agents (\<^verbatim>\<open>paw_backend/authz/delegation.py\<close>): \<open>derive_child_grant\<close> can only
  narrow. The locale \<open>narrowing\<close> is the contract the orchestrator relies on (a derived
  authority never does what its source cannot); it is interpreted on \<open>derive_child_grant\<close>
  and \<open>decide_agent\<close>, so a chain of derivations of any length is bounded by its root.
\<close>

section \<open>Operations\<close>

datatype EscalationReason = SAME_AGENT | CAPABILITY | NOT_DELEGABLE | PROJECT

datatype delegation_error = Subject subject_error | GrantEscalationError EscalationReason

definition capabilities_of :: "Capability collection_arg \<Rightarrow> delegation_error + Capability set" where
  "capabilities_of v =
     (case v of
        Items xs \<Rightarrow> if all_inst xs then Inr (set (insts xs)) else Inl (Subject ValueError)
      | _ \<Rightarrow> Inl (Subject TypeError))"

definition projects_of :: "scope_arg \<Rightarrow> delegation_error + ProjectScope" where
  "projects_of v =
     (case v of
        AllProjectsArg \<Rightarrow> Inr ALL_PROJECTS
      | ScopeNotIterable \<Rightarrow> Inl (Subject TypeError)
      | ScopeItems ps \<Rightarrow>
          (case uuids_of ps of Inl e \<Rightarrow> Inl (Subject e) | Inr us \<Rightarrow> Inr (Projects (set us))))"

definition delegable_capabilities :: "AgentGrant \<Rightarrow> Capability set" where
  "delegable_capabilities g = {c \<in> capabilities g. delegable (CAPABILITIES c)}"

definition projects_within :: "ProjectScope \<Rightarrow> ProjectScope \<Rightarrow> bool" where
  "projects_within child parent =
     (case parent of
        ALL_PROJECTS \<Rightarrow> True
      | Projects ps \<Rightarrow> (case child of ALL_PROJECTS \<Rightarrow> False | Projects cs \<Rightarrow> cs \<subseteq> ps))"

definition is_subgrant :: "AgentGrant arg \<Rightarrow> AgentGrant arg \<Rightarrow> subject_error + bool" where
  "is_subgrant child parent =
     (case (child, parent) of
        (Inst c, Inst p) \<Rightarrow>
          Inr (capabilities c \<subseteq> capabilities p \<and> projects_within (project_ids c) (project_ids p))
      | _ \<Rightarrow> Inl TypeError)"

text \<open>\<open>None\<close> for \<open>caps\<close> and \<open>projects\<close> is the default: all delegable rights, the parent's projects.\<close>

definition derive_child_grant ::
  "AgentGrant arg \<Rightarrow> pyval \<Rightarrow> Capability collection_arg option \<Rightarrow> scope_arg option
     \<Rightarrow> delegation_error + AgentGrant" where
  "derive_child_grant parent child_agent_id caps projects =
     (case parent of
        Other \<Rightarrow> Inl (Subject TypeError)
      | Inst par \<Rightarrow>
          (case to_uuid child_agent_id of
             Inl e \<Rightarrow> Inl (Subject e)
           | Inr child_id \<Rightarrow>
               if child_id = agent_id par then Inl (GrantEscalationError SAME_AGENT)
               else
                 rbind (case caps of
                          None \<Rightarrow> Inr (delegable_capabilities par)
                        | Some v \<Rightarrow>
                            rbind (capabilities_of v) (\<lambda>cs.
                              if \<not> cs \<subseteq> capabilities par
                              then Inl (GrantEscalationError CAPABILITY)
                              else if \<not> (\<forall>c \<in> cs. delegable (CAPABILITIES c))
                              then Inl (GrantEscalationError NOT_DELEGABLE)
                              else Inr cs)) (\<lambda>cs.
                 rbind (case projects of
                          None \<Rightarrow> Inr (project_ids par)
                        | Some v \<Rightarrow>
                            rbind (projects_of v) (\<lambda>reach.
                              if \<not> projects_within reach (project_ids par)
                              then Inl (GrantEscalationError PROJECT)
                              else Inr reach)) (\<lambda>reach.
                   Inr \<lparr>agent_id = child_id, capabilities = cs, project_ids = reach\<rparr>))))"

section \<open>Facts\<close>

lemma projects_within_refl [simp]: "projects_within s s"
  by (cases s) (simp_all add: projects_within_def)

lemma projects_within_trans:
  "projects_within a b \<Longrightarrow> projects_within b c \<Longrightarrow> projects_within a c"
  by (auto simp: projects_within_def split: ProjectScope.splits)

lemma is_subgrant_Inst [simp]:
  "is_subgrant (Inst c) (Inst p) =
     Inr (capabilities c \<subseteq> capabilities p \<and> projects_within (project_ids c) (project_ids p))"
  by (simp add: is_subgrant_def)

lemma derive_child_grant_narrows:
  assumes "derive_child_grant (Inst p) aid caps ps = Inr c"
  shows "capabilities c \<subseteq> capabilities p"
    and "projects_within (project_ids c) (project_ids p)"
    and "\<forall>x \<in> capabilities c. delegable (CAPABILITIES x)"
    and "agent_id c \<noteq> agent_id p"
  using assms
  by (auto simp: derive_child_grant_def rbind_eq_Inr_iff delegable_capabilities_def
        split: sum.splits option.splits if_splits)

lemma grant_covers_project_mono:
  "projects_within (project_ids c) (project_ids p) \<Longrightarrow> grant_covers_project c r
     \<Longrightarrow> grant_covers_project p r"
  by (auto simp: projects_within_def grant_covers_project_def
        split: ProjectScope.splits arg.splits option.splits)

lemma decide_agent_mono:
  assumes sub: "capabilities c \<subseteq> capabilities p"
      "projects_within (project_ids c) (project_ids p)"
    and al: "allows (decide_agent u (Inst c) cap r pol)"
  shows "allows (decide_agent u (Inst p) cap r pol)"
  using al grant_covers_project_mono [OF sub(2), of r] sub(1)
  by (auto simp: decide_agent_def allows_def rbind_def
        split: sum.splits option.splits if_splits)

section \<open>The contract: a derived authority only narrows\<close>

locale narrowing =
  fixes derives :: "'g \<Rightarrow> 'g \<Rightarrow> bool"
    and can :: "'g \<Rightarrow> 'x \<Rightarrow> bool"
  assumes derives_can: "derives p c \<Longrightarrow> can c x \<Longrightarrow> can p x"
begin

lemma chain_can: "derives\<^sup>*\<^sup>* root g \<Longrightarrow> can g x \<Longrightarrow> can root x"
  by (induction rule: rtranclp_induct) (auto dest: derives_can)

end

definition derives_from :: "AgentGrant \<Rightarrow> AgentGrant \<Rightarrow> bool" where
  "derives_from p c \<longleftrightarrow> (\<exists>aid caps ps. derive_child_grant (Inst p) aid caps ps = Inr c)"

definition agent_can ::
  "AgentGrant \<Rightarrow> Principal arg \<times> Capability arg \<times> Resource arg \<times> Policy \<Rightarrow> bool" where
  "agent_can g x = (case x of (u, cap, r, pol) \<Rightarrow> allows (decide_agent u (Inst g) cap r pol))"

interpretation child_grants: narrowing derives_from agent_can
  by unfold_locales
    (auto simp: derives_from_def agent_can_def
      dest: decide_agent_mono [OF derive_child_grant_narrows(1,2)])

end
