(* ===== verification/Authz_Properties.thy ===== *)
theory Authz_Properties
  imports Authz_Authorizer Authz_Delegation
begin

text \<open>
  The properties of the authorization core: what a decision means, what an agent can do, how
  delegated authority shrinks, who may change roles, and that decisions are recorded.
\<close>

section \<open>Concrete subjects\<close>

definition demo_member :: "SystemRole \<Rightarrow> ProjectRole \<Rightarrow> Principal" where
  "demo_member role prole = \<lparr>user_id = 1, system_role = role, project_roles = [9 \<mapsto> prole]\<rparr>"

definition demo_acl :: "RepoPermission set option \<Rightarrow> RepoAcl" where
  "demo_acl perms = \<lparr>acl_repo_id = 5, acl_project_id = 9, acl_allowed = perms\<rparr>"

definition demo_repo :: "RepoPermission set option \<Rightarrow> Resource" where
  "demo_repo perms =
     \<lparr>r_kind = cp ''repository'', r_id = Some 5, project_id = Some 9, owner_id = None,
      repo_id = Some 5, project_state = Some ProjectState_ACTIVE, repo_acl = Some (demo_acl perms)\<rparr>"

definition demo_grant :: AgentGrant where
  "demo_grant = \<lparr>agent_id = 70, capabilities = {PROJECT_READ, PROJECT_CHAT}, project_ids = ALL_PROJECTS\<rparr>"

lemma demo_repo_init:
  "Resource_init (PyStr (cp ''repository'')) (PyUuid 5) (PyUuid 9) PyNone (PyUuid 5)
     (Some (Member ProjectState_ACTIVE)) (Some (Inst (demo_acl perms))) = Inr (demo_repo perms)"
  by (simp add: Resource_init_def valid_kind_def lower_ascii_def cp_def optional_uuid_def to_uuid_def
      rbind_def enum_of_def demo_acl_def demo_repo_def)

lemmas role_defaults = system_role_allows_default project_role_allows_default grant_sets

section \<open>Decisions\<close>

text \<open>
  C1: for every resource that can be constructed, a decision for a person never raises and
  allows exactly what the specification \<open>permitted\<close> says: the right's scope, the role, the
  project's state, the person's own data and the repository's ACL all have to agree.
\<close>

theorem decide_refines_permitted:
  assumes "Resource_init kind i pid oid rid pstate acl = Inr r"
  shows "\<exists>d. decide (Inst p) (Inst c) (Inst r) pol = Inr d \<and> d_capability d = Some c
    \<and> (allowed d \<longleftrightarrow> permitted p c r pol)"
  by (rule decide_correct [OF Resource_init_ok [OF assms]])

theorem decide_refines_permitted_witness:
  "\<exists>d. decide (Inst (demo_member SystemRole_USER ProjectRole_CONTRIBUTOR)) (Inst PROJECT_READ)
       (Inst (demo_repo (Some {RepoPermission_READ}))) DEFAULT_POLICY = Inr d \<and> allowed d"
  using decide_refines_permitted [OF demo_repo_init [of "Some {RepoPermission_READ}"], where
      p = "demo_member SystemRole_USER ProjectRole_CONTRIBUTOR" and c = PROJECT_READ
      and pol = DEFAULT_POLICY]
  by (auto simp: permitted_def project_permitted_def state_leaves_def acl_leaves_def demo_repo_def
      demo_acl_def demo_member_def role_defaults REPO_PERMISSION_OF_def)

text \<open>
  A repository's ACL can take a permission away and never give one: what is allowed
  under an ACL of its own is allowed when the repository inherits the project's permissions.
\<close>

theorem acl_only_narrows:
  assumes "Resource_init kind i pid oid rid pstate acl = Inr r"
    and "allows (decide (Inst p) (Inst c) (Inst r) pol)"
  shows "allows (decide (Inst p) (Inst c)
    (Inst (r\<lparr>repo_acl := map_option (\<lambda>a. a\<lparr>acl_allowed := None\<rparr>) (repo_acl r)\<rparr>)) pol)"
proof -
  let ?r = "r\<lparr>repo_acl := map_option (\<lambda>a. a\<lparr>acl_allowed := None\<rparr>) (repo_acl r)\<rparr>"
  note ok = Resource_init_ok [OF assms(1)]
  then have ok': "resource_ok ?r" by (simp add: resource_ok_def)
  from assms(2) have "permitted p c r pol" by (simp add: allows_decide [OF ok])
  moreover have "acl_leaves r x c \<Longrightarrow> acl_leaves ?r x c" for x by (auto simp: acl_leaves_def)
  ultimately have "permitted p c ?r pol"
    by (auto simp: permitted_def project_permitted_def split: Scope.splits)
  then show ?thesis by (simp add: allows_decide [OF ok'])
qed

theorem acl_only_narrows_witness:
  "allows (decide (Inst (demo_member SystemRole_USER ProjectRole_CONTRIBUTOR)) (Inst PROJECT_READ)
     (Inst (demo_repo None)) DEFAULT_POLICY)"
proof -
  have "allows (decide (Inst (demo_member SystemRole_USER ProjectRole_CONTRIBUTOR)) (Inst PROJECT_READ)
      (Inst (demo_repo (Some {RepoPermission_READ}))) DEFAULT_POLICY)"
    unfolding allows_decide [OF Resource_init_ok [OF demo_repo_init]]
    by (simp add: permitted_def project_permitted_def state_leaves_def acl_leaves_def demo_repo_def
        demo_acl_def demo_member_def role_defaults REPO_PERMISSION_OF_def)
  from acl_only_narrows [OF demo_repo_init this] show ?thesis by (simp add: demo_repo_def demo_acl_def)
qed

text \<open>
  In a project that is archived nothing but reading and managing its lifecycle is
  allowed, and in one pending deletion nothing but managing its lifecycle, whatever the
  policy and the roles, the Owner's included.
\<close>

theorem closed_project_read_only:
  assumes "Resource_init kind i pid oid rid pstate acl = Inr r"
    and "allows (decide (Inst p) (Inst c) (Inst r) pol)" and "scope (CAPABILITIES c) = Scope_PROJECT"
  shows "(project_state r = Some ProjectState_ARCHIVED \<longrightarrow> c \<in> {PROJECT_READ, PROJECT_LIFECYCLE_MANAGE})
    \<and> (project_state r = Some ProjectState_PENDING_DELETION \<longrightarrow> c = PROJECT_LIFECYCLE_MANAGE)"
  using assms(2,3)
  by (auto simp: allows_decide [OF Resource_init_ok [OF assms(1)]] permitted_def project_permitted_def
      state_leaves_def)

theorem closed_project_read_only_witness:
  "\<exists>c. allows (decide (Inst (demo_member SystemRole_OWNER ProjectRole_VIEWER)) (Inst c)
       (Inst (Resource_project 9 ProjectState_PENDING_DELETION)) DEFAULT_POLICY)
     \<and> c = PROJECT_LIFECYCLE_MANAGE"
proof -
  have init: "Resource_init (PyStr (cp ''project'')) (PyUuid 9) (PyUuid 9) PyNone PyNone
      (Some (Member ProjectState_PENDING_DELETION)) None
      = Inr (Resource_project 9 ProjectState_PENDING_DELETION)"
    by (simp add: Resource_init_def valid_kind_def lower_ascii_def cp_def optional_uuid_def to_uuid_def
        rbind_def enum_of_def Resource_project_def)
  have al: "allows (decide (Inst (demo_member SystemRole_OWNER ProjectRole_VIEWER))
      (Inst PROJECT_LIFECYCLE_MANAGE) (Inst (Resource_project 9 ProjectState_PENDING_DELETION)) DEFAULT_POLICY)"
    unfolding allows_decide [OF resource_ok_project]
    by (simp add: permitted_def project_permitted_def state_leaves_def acl_leaves_def
        Resource_project_def demo_member_def role_defaults)
  show ?thesis using closed_project_read_only [OF init al] al by auto
qed

section \<open>Agents\<close>



text \<open>
  C12: however long a chain of delegations is, the agent at its end can do nothing that
  the first agent could not do, and nothing that the person behind it may not do.
\<close>

theorem delegation_chain_bounded:
  assumes "derives_from\<^sup>*\<^sup>* root g" and "allows (decide_agent who (Inst g) cap r pol)"
  shows "allows (decide_agent who (Inst root) cap r pol) \<and> allows (decide who cap r pol)"
proof -
  have "agent_can root (who, cap, r, pol)"
    by (rule child_grants.chain_can [OF assms(1)]) (simp add: agent_can_def assms(2))
  moreover have "allows (decide who cap r pol)"
    using assms(2) by (auto simp: decide_agent_def allows_def rbind_def split: sum.splits if_splits)
  ultimately show ?thesis by (simp add: agent_can_def)
qed

definition demo_child :: AgentGrant where
  "demo_child = \<lparr>agent_id = 71, capabilities = {PROJECT_READ}, project_ids = Projects {9}\<rparr>"

lemma demo_derived:
  "derive_child_grant (Inst demo_grant) (PyUuid 71) (Some (Items [Inst PROJECT_READ]))
     (Some (ScopeItems [PyUuid 9])) = Inr demo_child"
  by (simp add: derive_child_grant_def to_uuid_def demo_grant_def demo_child_def capabilities_of_def
      all_inst_def projects_of_def rbind_def projects_within_def)

theorem delegation_chain_bounded_witness:
  "allows (decide_agent (Inst (demo_member SystemRole_USER ProjectRole_VIEWER)) (Inst demo_grant)
     (Inst PROJECT_READ) (Inst (demo_repo None)) DEFAULT_POLICY)"
proof -
  have chain: "derives_from\<^sup>*\<^sup>* demo_grant demo_child"
    using demo_derived by (intro r_into_rtranclp) (auto simp: derives_from_def)
  obtain d where "decide_agent (Inst (demo_member SystemRole_USER ProjectRole_VIEWER)) (Inst demo_child)
      (Inst PROJECT_READ) (Inst (demo_repo None)) DEFAULT_POLICY = Inr d" "allowed d"
    using decide_agent_correct [OF Resource_init_ok [OF demo_repo_init [of None]], where
        p = "demo_member SystemRole_USER ProjectRole_VIEWER" and g = demo_child
        and c = PROJECT_READ and pol = DEFAULT_POLICY]
    by (auto simp: permitted_def project_permitted_def state_leaves_def acl_leaves_def demo_repo_def
        demo_acl_def demo_member_def role_defaults demo_child_def grant_covers_project_def
        acl_lets_agent_def REPO_PERMISSION_OF_def)
  then have "allows (decide_agent (Inst (demo_member SystemRole_USER ProjectRole_VIEWER)) (Inst demo_child)
      (Inst PROJECT_READ) (Inst (demo_repo None)) DEFAULT_POLICY)" by simp
  from delegation_chain_bounded [OF chain this] show ?thesis by blast
qed

text \<open>
  A child grant is made for another agent, holds only rights that can be delegated and
  is a subgrant of its parent by the code's own test; asking for a right the parent does not
  hold is refused as an escalation.
\<close>

theorem derived_grant_is_subgrant:
  "case derive_child_grant (Inst p) (PyUuid aid) (Some (Items (map Inst cs))) None of
     Inr c \<Rightarrow> is_subgrant (Inst c) (Inst p) = Inr True \<and> capabilities c = set cs
       \<and> (\<forall>x \<in> set cs. delegable (CAPABILITIES x)) \<and> agent_id c \<noteq> agent_id p \<and> project_ids c = project_ids p
   | Inl e \<Rightarrow>
       e = (if aid = agent_id p then GrantEscalationError SAME_AGENT
            else if \<not> set cs \<subseteq> capabilities p then GrantEscalationError CAPABILITY
            else GrantEscalationError NOT_DELEGABLE)"
  by (auto simp: derive_child_grant_def to_uuid_def capabilities_of_def rbind_def)

theorem derived_grant_is_subgrant_witness:
  "case derive_child_grant (Inst demo_grant) (PyUuid 71) (Some (Items (map Inst [PROJECT_REPO_WRITE]))) None of
     Inr _ \<Rightarrow> False | Inl e \<Rightarrow> e = GrantEscalationError CAPABILITY"
  using derived_grant_is_subgrant [where p = demo_grant and aid = 71 and cs = "[PROJECT_REPO_WRITE]"]
  by (auto simp: demo_grant_def split: sum.splits)

section \<open>Changing roles\<close>

text \<open>
  Under the default policy a role change is allowed exactly when it is about someone
  else, no Owner and no system account is involved, and the actor is the Owner or, when no
  Admin is involved either, an Admin: nobody changes their own role, and no role change
  makes or removes an Owner.
\<close>

theorem role_change_rules:
  "allows (decide_role_change (Inst p) (PyUuid target) (Inst old) (map_option Inst new) DEFAULT_POLICY) \<longleftrightarrow>
     target \<noteq> user_id p
     \<and> {old} \<union> set_option new \<subseteq> {SystemRole_ADMIN, SystemRole_USER}
     \<and> (system_role p = SystemRole_OWNER
        \<or> system_role p = SystemRole_ADMIN \<and> SystemRole_ADMIN \<notin> {old} \<union> set_option new)"
proof -
  let ?inv = "{old} \<union> set_option new"
  have subset: "?inv \<subseteq> {SystemRole_ADMIN, SystemRole_USER} \<longleftrightarrow>
      SystemRole_SYSTEM \<notin> ?inv \<and> SystemRole_OWNER \<notin> ?inv"
  proof -
    have "x \<in> {SystemRole_ADMIN, SystemRole_USER} \<longleftrightarrow> x \<noteq> SystemRole_SYSTEM \<and> x \<noteq> SystemRole_OWNER" for x
      by (cases x) simp_all
    then show ?thesis by blast
  qed
  have sys: "allows (decide (Inst p) (Inst c) (Inst Resource_system) DEFAULT_POLICY)
      \<longleftrightarrow> system_role_allows DEFAULT_POLICY (system_role p) c"
    if "c = OWNER_ADMINS_MANAGE \<or> c = ADMIN_USERS_MANAGE" for c
    using that by (auto simp: allows_decide permitted_system)
  show ?thesis
    unfolding subset
    by (cases new) (auto simp: decide_role_change_def valid_target_def to_uuid_def Let_def sys
        owner_admins_manage_default)
qed

text \<open>
  Under the default policy ownership passes only from the Owner to another user
  or Admin, never to a system account and never to the Owner again.
\<close>

theorem ownership_transfer_rules:
  "allows (decide_ownership_transfer (Inst p) (PyUuid new_owner) (Inst role) DEFAULT_POLICY) \<longleftrightarrow>
     system_role p = SystemRole_OWNER \<and> new_owner \<noteq> user_id p \<and> role \<in> {SystemRole_USER, SystemRole_ADMIN}"
proof -
  have ok: "resource_ok Resource_system" by simp
  obtain d where d: "decide (Inst p) (Inst OWNER_OWNERSHIP_TRANSFER) (Inst Resource_system) DEFAULT_POLICY = Inr d"
    and al: "allowed d \<longleftrightarrow> system_role p = SystemRole_OWNER"
    using decide_correct [OF ok, of p OWNER_OWNERSHIP_TRANSFER DEFAULT_POLICY]
    by (auto simp: permitted_system owner_admins_manage_default)
  show ?thesis
    using al by (auto simp: decide_ownership_transfer_def d rbind_def valid_target_def to_uuid_def)
qed

definition system_rank :: "SystemRole \<Rightarrow> nat" where
  "system_rank r = (case r of SystemRole_SYSTEM \<Rightarrow> 0 | SystemRole_USER \<Rightarrow> 1 | SystemRole_ADMIN \<Rightarrow> 2
     | SystemRole_OWNER \<Rightarrow> 3)"

definition project_rank :: "ProjectRole \<Rightarrow> nat" where
  "project_rank r = (case r of ProjectRole_VIEWER \<Rightarrow> 0 | ProjectRole_CONTRIBUTOR \<Rightarrow> 1
     | ProjectRole_MANAGER \<Rightarrow> 2)"

lemma system_rank_mono:
  "system_rank a \<le> system_rank b \<Longrightarrow> system_role_allows DEFAULT_POLICY a c
     \<Longrightarrow> system_role_allows DEFAULT_POLICY b c"
  by (cases a; cases b) (auto simp: system_rank_def system_role_allows_default ADMIN_GRANTS_def)

lemma project_rank_mono:
  "project_rank a \<le> project_rank b \<Longrightarrow> project_role_allows DEFAULT_POLICY a c
     \<Longrightarrow> project_role_allows DEFAULT_POLICY b c"
  by (cases a; cases b) (auto simp: project_rank_def project_role_allows_default CONTRIBUTOR_GRANTS_def)

lemma permitted_mono:
  assumes "permitted p c r DEFAULT_POLICY" and "user_id q = user_id p"
    and "system_rank (system_role p) \<le> system_rank (system_role q)"
    and "\<And>pid a. project_roles p pid = Some a
      \<Longrightarrow> \<exists>b. project_roles q pid = Some b \<and> project_rank a \<le> project_rank b"
  shows "permitted q c r DEFAULT_POLICY"
proof -
  note sys = system_rank_mono [OF assms(3), of c]
  have "project_permitted q c r DEFAULT_POLICY" if proj: "project_permitted p c r DEFAULT_POLICY"
  proof -
    from proj obtain pid st where r: "project_id r = Some pid" "project_state r = Some st"
      "state_leaves st c" "acl_leaves r pid c"
      and role: "system_role_allows DEFAULT_POLICY (system_role p) c
        \<or> (\<exists>role. project_roles p pid = Some role \<and> project_role_allows DEFAULT_POLICY role c)"
      by (auto simp: project_permitted_def)
    from role have "system_role_allows DEFAULT_POLICY (system_role q) c
        \<or> (\<exists>role. project_roles q pid = Some role \<and> project_role_allows DEFAULT_POLICY role c)"
      using sys assms(4) [of pid] project_rank_mono by blast
    with r show ?thesis by (auto simp: project_permitted_def)
  qed
  with assms(1,2) sys show ?thesis
    by (auto simp: permitted_def split: Scope.splits)
qed

text \<open>
  The roles form a hierarchy: whatever the default policy allows a person it still
  allows when the system role is raised from User to Admin to Owner, or the project role from
  Viewer to Contributor to Manager.
\<close>

theorem higher_role_keeps_rights:
  assumes "Resource_init kind i pid oid rid pstate acl = Inr r"
    and "allows (decide (Inst p) (Inst c) (Inst r) DEFAULT_POLICY)" and "user_id q = user_id p"
    and "system_rank (system_role p) \<le> system_rank (system_role q)"
    and "\<And>pid a. project_roles p pid = Some a
      \<Longrightarrow> \<exists>b. project_roles q pid = Some b \<and> project_rank a \<le> project_rank b"
  shows "allows (decide (Inst q) (Inst c) (Inst r) DEFAULT_POLICY)"
  using assms(2) permitted_mono [OF _ assms(3,4,5)]
  by (simp add: allows_decide [OF Resource_init_ok [OF assms(1)]])

theorem higher_role_keeps_rights_witness:
  "allows (decide (Inst (demo_member SystemRole_ADMIN ProjectRole_MANAGER)) (Inst PROJECT_READ)
     (Inst (demo_repo None)) DEFAULT_POLICY)"
proof (rule higher_role_keeps_rights [OF demo_repo_init,
      where p = "demo_member SystemRole_USER ProjectRole_VIEWER"])
  show "allows (decide (Inst (demo_member SystemRole_USER ProjectRole_VIEWER)) (Inst PROJECT_READ)
      (Inst (demo_repo None)) DEFAULT_POLICY)"
    unfolding allows_decide [OF Resource_init_ok [OF demo_repo_init]]
    by (simp add: permitted_def project_permitted_def state_leaves_def acl_leaves_def demo_repo_def
        demo_acl_def demo_member_def role_defaults REPO_PERMISSION_OF_def)
qed (auto simp: demo_member_def system_rank_def project_rank_def split: if_splits)

section \<open>The audit trail\<close>

text \<open>
  C18: an agent's action is allowed only when the database has the audit event: whatever
  the outcome of each write (stored, not stored, stored but reported as failed), every allowed
  agent action has an ``allow'' event with the agent's id in the log.
\<close>

theorem agent_allow_is_recorded:
  assumes "authorize_agent_action (PostgresAuditSink_record outcome) pol dir st uid (Inst g) cap r log
      = Inr (d, log')" and "allowed d"
  shows "\<exists>e \<in> set log'. e_decision e = ''allow'' \<and> e_agent_id e = Some (agent_id g)"
  using postgres_sink.agent_action_recorded [OF assms] by auto

definition demo_stamp :: stamp where
  "demo_stamp = \<lparr>fresh_event_id = 100, fresh_correlation_id = 101, clock_reading = 5,
     given_correlation_id = None, given_client_request_id = PyNone\<rparr>"

definition demo_directory :: "uuid \<Rightarrow> Principal arg option" where
  "demo_directory u = (if u = 1 then Some (Inst (demo_member SystemRole_USER ProjectRole_VIEWER)) else None)"

lemma demo_agent_decision:
  obtains d where "decide_agent (Inst (demo_member SystemRole_USER ProjectRole_VIEWER)) (Inst demo_grant)
    (Inst PROJECT_READ) (Inst (demo_repo None)) DEFAULT_POLICY = Inr d" and "allowed d"
    and "reason d \<noteq> UNAUTHENTICATED"
proof -
  obtain d where d: "decide_agent (Inst (demo_member SystemRole_USER ProjectRole_VIEWER)) (Inst demo_grant)
      (Inst PROJECT_READ) (Inst (demo_repo None)) DEFAULT_POLICY = Inr d" "allowed d"
    using decide_agent_correct [OF Resource_init_ok [OF demo_repo_init [of None]], where
        p = "demo_member SystemRole_USER ProjectRole_VIEWER" and g = demo_grant
        and c = PROJECT_READ and pol = DEFAULT_POLICY]
    by (auto simp: permitted_def project_permitted_def state_leaves_def acl_leaves_def demo_repo_def
        demo_acl_def demo_member_def role_defaults demo_grant_def grant_covers_project_def
        acl_lets_agent_def REPO_PERMISSION_OF_def)
  with decide_agent_allowed_reason show ?thesis by (intro that) auto
qed

theorem agent_allow_is_recorded_witness:
  "\<exists>d log'. authorize_agent_action (PostgresAuditSink_record (\<lambda>_. Written)) DEFAULT_POLICY demo_directory
       demo_stamp (PyUuid 1) (Inst demo_grant) (Inst PROJECT_READ) (Inst (demo_repo None)) [] = Inr (d, log')
     \<and> (\<exists>e \<in> set log'. e_agent_id e = Some 70)"
proof -
  obtain d where d: "decide_agent (Inst (demo_member SystemRole_USER ProjectRole_VIEWER)) (Inst demo_grant)
      (Inst PROJECT_READ) (Inst (demo_repo None)) DEFAULT_POLICY = Inr d" "allowed d"
    "reason d \<noteq> UNAUTHENTICATED" by (rule demo_agent_decision)
  then obtain log' where run: "authorize_agent_action (PostgresAuditSink_record (\<lambda>_. Written)) DEFAULT_POLICY
      demo_directory demo_stamp (PyUuid 1) (Inst demo_grant) (Inst PROJECT_READ) (Inst (demo_repo None)) []
      = Inr (d, log')"
    by (simp add: authorize_agent_action_def to_uuid_def Let_def lookup_def demo_directory_def
        demo_member_def rbind_def audited_def PostgresAuditSink_record_def)
  from agent_allow_is_recorded [OF run d(2)] run show ?thesis by (auto simp: demo_grant_def)
qed

text \<open>
  A person's action whose right has to be audited is allowed only when its event is
  in the log, and when the write fails the decision becomes a denial.
\<close>

theorem required_allow_is_recorded:
  assumes "authorize (PostgresAuditSink_record outcome) pol st who cap r log = Inr (d, log')"
  shows "(allowed d \<and> audit_mode d = AuditMode_REQUIRED \<longrightarrow>
      (\<exists>e \<in> set log'. e_decision e = ''allow'' \<and> Some (action e) = map_option Capability_value (d_capability d)))
    \<and> (outcome = (\<lambda>_. NotWritten) \<and> audit_mode d = AuditMode_REQUIRED \<longrightarrow> \<not> allowed d \<and> log' = log)"
proof -
  let ?sink = "PostgresAuditSink_record outcome"
  have rec: "\<exists>e \<in> set log'. e_decision e = ''allow'' \<and> Some (action e) = map_option Capability_value (d_capability d)"
    if "allowed d" "audit_mode d = AuditMode_REQUIRED"
    using postgres_sink.required_recorded [OF assms that] by auto
  from assms obtain d0 where "decide who cap r pol = Inr d0"
    and au: "audited ?sink st d0 who r None None None None log = (d, log')"
    by (auto simp: authorize_def rbind_eq_Inr_iff)
  have "\<not> allowed d \<and> log' = log" if "outcome = (\<lambda>_. NotWritten)" "audit_mode d = AuditMode_REQUIRED"
  proof -
    from au that have "log' = log"
      by (auto simp: audited_def PostgresAuditSink_record_def Let_def split: if_splits)
    moreover have "\<not> allowed d"
    proof
      assume al: "allowed d"
      from audited_allowed [OF au al] have "d = d0" "allowed d0" by simp_all
      with decide_allowed_reason [OF \<open>decide who cap r pol = Inr d0\<close>] audited_recorded [OF au al] that
      show False by (simp add: PostgresAuditSink_record_def)
    qed
    ultimately show ?thesis by blast
  qed
  with rec show ?thesis by blast
qed

theorem required_allow_is_recorded_witness:
  "\<exists>d log'. authorize (PostgresAuditSink_record (\<lambda>_. NotWritten)) DEFAULT_POLICY demo_stamp
       (Inst (demo_member SystemRole_OWNER ProjectRole_VIEWER)) (Inst ADMIN_CONFIG_MANAGE)
       (Inst Resource_system) [] = Inr (d, log') \<and> \<not> allowed d \<and> log' = []"
proof -
  let ?who = "Inst (demo_member SystemRole_OWNER ProjectRole_VIEWER)"
  have "resource_ok Resource_system" by simp
  from decide_correct [OF this] obtain d0 where
    d0: "decide ?who (Inst ADMIN_CONFIG_MANAGE) (Inst Resource_system) DEFAULT_POLICY = Inr d0"
      "d_capability d0 = Some ADMIN_CONFIG_MANAGE" by blast
  obtain d log' where au: "audited (PostgresAuditSink_record (\<lambda>_. NotWritten)) demo_stamp d0 ?who
      (Inst Resource_system) None None None None [] = (d, log')" by fastforce
  with d0 have run: "authorize (PostgresAuditSink_record (\<lambda>_. NotWritten)) DEFAULT_POLICY demo_stamp ?who
      (Inst ADMIN_CONFIG_MANAGE) (Inst Resource_system) [] = Inr (d, log')"
    by (simp add: authorize_def rbind_def)
  have "audit_mode d = AuditMode_REQUIRED"
    using au d0(2) by (auto simp: audited_def Let_def audit_mode_def info_def split: if_splits prod.splits)
  with required_allow_is_recorded [OF run] run show ?thesis by auto
qed

section \<open>Boundary\<close>

text \<open>
  The canonical text of every 128-bit id parses back to the id, and no other text parses to
  it: an id has one accepted spelling.
\<close>

theorem uuid_text_roundtrip:
  assumes "u < 2 ^ 128"
  shows "to_uuid (PyStr s) = Inr u \<longleftrightarrow> s = uuid_text u"
  using parse_uuid_text_uuid_text [OF assms] by (auto simp: to_uuid_Inr_iff dest: parse_uuid_text_Some)

theorem uuid_text_roundtrip_witness: "to_uuid (PyStr (uuid_text 255)) = Inr 255"
  using uuid_text_roundtrip [of 255 "uuid_text 255"] by simp

text \<open>
  The parser of capability names accepts exactly the values of the enumeration, and gives
  back the member the name stands for.
\<close>

lemma capability_names:
  "parse_capability v = Some c \<longleftrightarrow> v = PyStr (cp (Capability_value c))"
  by (cases v) (auto simp: parse_capability_def capability_enum.lookup_iff)

end
