(* ===== verification/Task_Domain.thy ===== *)
theory Task_Domain
  imports Prelude
begin

text \<open>
  The pure rules of the Agent Task lifecycle (\<^verbatim>\<open>paw_backend/tasks/domain.py\<close>): states,
  commands, the transition tables (ordinary and read-only tasks), actors, runs and the
  operations of a task's Working Set. \<open>task_move\<close> is the induced step relation on
  (state, wait reason) pairs.
\<close>

section \<open>Errors of the task lane\<close>

datatype TaskState =
    TaskState_QUEUED | TaskState_RUNNING | TaskState_WAITING | TaskState_PAUSED
  | TaskState_EVALUATING | TaskState_COMPLETED | TaskState_FAILED | TaskState_CANCELLED

datatype WaitReason = WaitReason_USER | WaitReason_APPROVAL | WaitReason_RESOURCE

datatype TaskCommand =
    CREATE | CHANGE_WORKING_SET | RELEASE_REPOSITORY_WRITE
  | START | WAIT | UNBLOCK | BEGIN_EVALUATION | COMPLETE | FAIL
  | PAUSE | RESUME | CANCEL | RETRY | RESTART | STOP_NOW

text \<open>
  The errors of \<^verbatim>\<open>tasks/errors.py\<close> and \<^verbatim>\<open>tasks/queueing/errors.py\<close> that the modelled
  operations raise. \<open>InvalidQueueingArgumentError\<close> names the offending parameter;
  \<open>NumericValueOutOfRange\<close> is the database's own error for a counter column that would
  leave its range.
\<close>

datatype task_error =
    TaskNotFoundError
  | IllegalTransitionError TaskState TaskCommand
  | InvalidCommandArgumentError
  | ProjectNotActiveError
  | StaleRunError
  | StaleAttemptError
  | TaskNotRunningError
  | InvalidQueueingArgumentError string
  | TaskAlreadyQueuedError
  | LeaseLostError
  | StaleRuntimeSessionError
  | BudgetNotConfiguredError
  | NumericValueOutOfRange
  | KeyError

section \<open>Enumerations\<close>

primrec TaskState_value :: "TaskState \<Rightarrow> string" where
  "TaskState_value TaskState_QUEUED = ''queued''"
| "TaskState_value TaskState_RUNNING = ''running''"
| "TaskState_value TaskState_WAITING = ''waiting''"
| "TaskState_value TaskState_PAUSED = ''paused''"
| "TaskState_value TaskState_EVALUATING = ''evaluating''"
| "TaskState_value TaskState_COMPLETED = ''completed''"
| "TaskState_value TaskState_FAILED = ''failed''"
| "TaskState_value TaskState_CANCELLED = ''cancelled''"

definition TaskState_members :: "TaskState list" where
  "TaskState_members =
     [TaskState_QUEUED, TaskState_RUNNING, TaskState_WAITING, TaskState_PAUSED,
      TaskState_EVALUATING, TaskState_COMPLETED, TaskState_FAILED, TaskState_CANCELLED]"

primrec WaitReason_value :: "WaitReason \<Rightarrow> string" where
  "WaitReason_value WaitReason_USER = ''user''"
| "WaitReason_value WaitReason_APPROVAL = ''approval''"
| "WaitReason_value WaitReason_RESOURCE = ''resource''"

definition WaitReason_members :: "WaitReason list" where
  "WaitReason_members = [WaitReason_USER, WaitReason_APPROVAL, WaitReason_RESOURCE]"

primrec TaskCommand_value :: "TaskCommand \<Rightarrow> string" where
  "TaskCommand_value CREATE = ''create''"
| "TaskCommand_value CHANGE_WORKING_SET = ''change_working_set''"
| "TaskCommand_value RELEASE_REPOSITORY_WRITE = ''release_repository_write''"
| "TaskCommand_value START = ''start''"
| "TaskCommand_value WAIT = ''wait''"
| "TaskCommand_value UNBLOCK = ''unblock''"
| "TaskCommand_value BEGIN_EVALUATION = ''begin_evaluation''"
| "TaskCommand_value COMPLETE = ''complete''"
| "TaskCommand_value FAIL = ''fail''"
| "TaskCommand_value PAUSE = ''pause''"
| "TaskCommand_value RESUME = ''resume''"
| "TaskCommand_value CANCEL = ''cancel''"
| "TaskCommand_value RETRY = ''retry''"
| "TaskCommand_value RESTART = ''restart''"
| "TaskCommand_value STOP_NOW = ''stop_now''"

definition TaskCommand_members :: "TaskCommand list" where
  "TaskCommand_members =
     [CREATE, CHANGE_WORKING_SET, RELEASE_REPOSITORY_WRITE, START, WAIT, UNBLOCK,
      BEGIN_EVALUATION, COMPLETE, FAIL, PAUSE, RESUME, CANCEL, RETRY, RESTART, STOP_NOW]"

definition CONTROL_COMMANDS :: "TaskCommand set" where
  "CONTROL_COMMANDS = {PAUSE, RESUME, CANCEL, RETRY, RESTART, STOP_NOW}"

definition TERMINAL_STATES :: "TaskState set" where
  "TERMINAL_STATES = {TaskState_COMPLETED, TaskState_FAILED, TaskState_CANCELLED}"

datatype Interruption = GRACEFUL | IMMEDIATE

datatype ActorKind = ActorKind_USER | ActorKind_SYSTEM | ActorKind_POLICY

primrec ActorKind_value :: "ActorKind \<Rightarrow> string" where
  "ActorKind_value ActorKind_USER = ''user''"
| "ActorKind_value ActorKind_SYSTEM = ''system''"
| "ActorKind_value ActorKind_POLICY = ''policy''"

definition ActorKind_members :: "ActorKind list" where
  "ActorKind_members = [ActorKind_USER, ActorKind_SYSTEM, ActorKind_POLICY]"

definition enum_member :: "'e list \<Rightarrow> ('e \<Rightarrow> string) \<Rightarrow> 'e enum_arg \<Rightarrow> task_error + 'e" where
  "enum_member ms val a =
     (case a of
        Member m \<Rightarrow> Inr m
      | ExactStr s \<Rightarrow>
          (case enum_lookup ms val s of
             Some m \<Rightarrow> Inr m | None \<Rightarrow> Inl InvalidCommandArgumentError)
      | NoEnum \<Rightarrow> Inl InvalidCommandArgumentError)"

section \<open>Actors and runs\<close>

record Actor =
  actor_kind :: ActorKind
  a_id :: "uuid option"

definition Actor_init :: "ActorKind enum_arg \<Rightarrow> pyval \<Rightarrow> task_error + Actor" where
  "Actor_init kind i =
     rbind (enum_member ActorKind_members ActorKind_value kind) (\<lambda>k.
       case i of
         PyNone \<Rightarrow>
           if (k = ActorKind_USER) \<noteq> False then Inl InvalidCommandArgumentError
           else Inr \<lparr>actor_kind = k, a_id = None\<rparr>
       | PyUuid u \<Rightarrow>
           if (k = ActorKind_USER) \<noteq> True then Inl InvalidCommandArgumentError
           else Inr \<lparr>actor_kind = k, a_id = Some u\<rparr>
       | _ \<Rightarrow> Inl InvalidCommandArgumentError)"

definition Actor_user :: "uuid \<Rightarrow> task_error + Actor" where
  "Actor_user u = Actor_init (Member ActorKind_USER) (PyUuid u)"

definition Actor_system :: "task_error + Actor" where
  "Actor_system = Actor_init (Member ActorKind_SYSTEM) PyNone"

definition Actor_policy :: "task_error + Actor" where
  "Actor_policy = Actor_init (Member ActorKind_POLICY) PyNone"

definition MAX_COUNTER :: int where
  "MAX_COUNTER = 2 ^ 31 - 1"

record TaskRun =
  run_attempt :: int
  run_retry_count :: int

definition counter_ok :: "pyval \<Rightarrow> int \<Rightarrow> int option" where
  "counter_ok v minimum =
     (case v of
        PyInt n \<Rightarrow> if minimum \<le> n \<and> n \<le> MAX_COUNTER then Some n else None
      | _ \<Rightarrow> None)"

definition TaskRun_init :: "pyval \<Rightarrow> pyval \<Rightarrow> task_error + TaskRun" where
  "TaskRun_init att ret =
     (case counter_ok att 1 of
        None \<Rightarrow> Inl InvalidCommandArgumentError
      | Some a \<Rightarrow>
          (case counter_ok ret 0 of
             None \<Rightarrow> Inl InvalidCommandArgumentError
           | Some r \<Rightarrow> Inr \<lparr>run_attempt = a, run_retry_count = r\<rparr>))"

section \<open>Working Set operations\<close>

datatype RepoRole = RepoRole_REFERENCED | RepoRole_WORKING | RepoRole_TARGET

primrec role_strength :: "RepoRole \<Rightarrow> int" where
  "role_strength RepoRole_REFERENCED = 0"
| "role_strength RepoRole_WORKING = 1"
| "role_strength RepoRole_TARGET = 2"

datatype WorkingSetOperation =
    ADD_REFERENCED | SET_WORKING | SET_TARGET
  | DOWNGRADE_TO_WORKING | DOWNGRADE_TO_REFERENCED | REMOVE

text \<open>The accepted roles (\<open>None\<close>: not in the Working Set) and the role afterwards.\<close>

primrec OPERATION_RULES :: "WorkingSetOperation \<Rightarrow> RepoRole option set \<times> RepoRole option" where
  "OPERATION_RULES ADD_REFERENCED = ({None}, Some RepoRole_REFERENCED)"
| "OPERATION_RULES SET_WORKING = ({None, Some RepoRole_REFERENCED}, Some RepoRole_WORKING)"
| "OPERATION_RULES SET_TARGET =
     ({None, Some RepoRole_REFERENCED, Some RepoRole_WORKING}, Some RepoRole_TARGET)"
| "OPERATION_RULES DOWNGRADE_TO_WORKING = ({Some RepoRole_TARGET}, Some RepoRole_WORKING)"
| "OPERATION_RULES DOWNGRADE_TO_REFERENCED =
     ({Some RepoRole_WORKING, Some RepoRole_TARGET}, Some RepoRole_REFERENCED)"
| "OPERATION_RULES REMOVE =
     ({Some RepoRole_REFERENCED, Some RepoRole_WORKING, Some RepoRole_TARGET}, None)"

definition accepts_role :: "WorkingSetOperation \<Rightarrow> RepoRole option \<Rightarrow> bool" where
  "accepts_role op role \<longleftrightarrow> role \<in> fst (OPERATION_RULES op)"

definition role_after :: "WorkingSetOperation \<Rightarrow> RepoRole option" where
  "role_after op = snd (OPERATION_RULES op)"

definition narrows :: "WorkingSetOperation \<Rightarrow> bool" where
  "narrows op \<longleftrightarrow> op \<in> {DOWNGRADE_TO_WORKING, DOWNGRADE_TO_REFERENCED, REMOVE}"

section \<open>Transitions\<close>

record TransitionRule =
  sources :: "TaskState set"
  target :: TaskState
  interruption :: "Interruption option"

definition trule :: "TaskState set \<Rightarrow> TaskState \<Rightarrow> Interruption option \<Rightarrow> TransitionRule" where
  "trule ss t i = \<lparr>sources = ss, target = t, interruption = i\<rparr>"

primrec TRANSITIONS :: "TaskCommand \<Rightarrow> TransitionRule option" where
  "TRANSITIONS CREATE = None"
| "TRANSITIONS CHANGE_WORKING_SET = None"
| "TRANSITIONS RELEASE_REPOSITORY_WRITE = None"
| "TRANSITIONS START = Some (trule {TaskState_QUEUED} TaskState_RUNNING None)"
| "TRANSITIONS WAIT = Some (trule {TaskState_RUNNING} TaskState_WAITING None)"
| "TRANSITIONS UNBLOCK = Some (trule {TaskState_WAITING} TaskState_RUNNING None)"
| "TRANSITIONS BEGIN_EVALUATION = Some (trule {TaskState_RUNNING} TaskState_EVALUATING None)"
| "TRANSITIONS COMPLETE = Some (trule {TaskState_EVALUATING} TaskState_COMPLETED None)"
| "TRANSITIONS FAIL =
     Some (trule {TaskState_QUEUED, TaskState_RUNNING, TaskState_WAITING, TaskState_EVALUATING}
             TaskState_FAILED None)"
| "TRANSITIONS PAUSE = Some (trule {TaskState_RUNNING} TaskState_PAUSED (Some GRACEFUL))"
| "TRANSITIONS RESUME = Some (trule {TaskState_PAUSED} TaskState_RUNNING None)"
| "TRANSITIONS CANCEL =
     Some (trule {TaskState_QUEUED, TaskState_RUNNING, TaskState_WAITING, TaskState_PAUSED,
                  TaskState_EVALUATING} TaskState_CANCELLED (Some GRACEFUL))"
| "TRANSITIONS RETRY = Some (trule {TaskState_FAILED} TaskState_QUEUED None)"
| "TRANSITIONS RESTART =
     Some (trule {TaskState_FAILED, TaskState_CANCELLED} TaskState_QUEUED None)"
| "TRANSITIONS STOP_NOW =
     Some (trule {TaskState_RUNNING, TaskState_WAITING, TaskState_EVALUATING}
             TaskState_CANCELLED (Some IMMEDIATE))"

definition READ_ONLY_TRANSITIONS :: "TaskCommand \<Rightarrow> TransitionRule option" where
  "READ_ONLY_TRANSITIONS =
     (TRANSITIONS(COMPLETE := Some (trule {TaskState_RUNNING} TaskState_COMPLETED None)))
       (BEGIN_EVALUATION := None)"

definition table :: "bool arg \<Rightarrow> task_error + (TaskCommand \<Rightarrow> TransitionRule option)" where
  "table read_only =
     (case read_only of
        Other \<Rightarrow> Inl InvalidCommandArgumentError
      | Inst b \<Rightarrow> Inr (if b then READ_ONLY_TRANSITIONS else TRANSITIONS))"

record TransitionPlan =
  p_command :: TaskCommand
  p_from_state :: TaskState
  p_target :: TaskState
  p_wait_reason :: "WaitReason option"
  p_interruption :: "Interruption option"

definition interruption_of :: "TaskCommand \<Rightarrow> Interruption option" where
  "interruption_of c = (case TRANSITIONS c of None \<Rightarrow> None | Some r \<Rightarrow> interruption r)"

definition allowed_commands :: "TaskState \<Rightarrow> bool arg \<Rightarrow> task_error + TaskCommand set" where
  "allowed_commands s read_only =
     rbind (table read_only) (\<lambda>t.
       Inr (set (filter (\<lambda>c. case t c of None \<Rightarrow> False | Some r \<Rightarrow> s \<in> sources r)
              TaskCommand_members)))"

definition plan_transition ::
  "TaskState \<Rightarrow> TaskCommand \<Rightarrow> WaitReason enum_arg option \<Rightarrow> bool arg
     \<Rightarrow> task_error + TransitionPlan" where
  "plan_transition s command wait_reason read_only =
     rbind (table read_only) (\<lambda>t.
     rbind (case wait_reason of
              None \<Rightarrow> Inr None
            | Some w \<Rightarrow> rbind (enum_member WaitReason_members WaitReason_value w)
                          (\<lambda>x. Inr (Some x))) (\<lambda>wr.
       case t command of
         None \<Rightarrow> Inl (IllegalTransitionError s command)
       | Some r \<Rightarrow>
           if s \<notin> sources r then Inl (IllegalTransitionError s command)
           else if command = WAIT \<and> wr = None then Inl InvalidCommandArgumentError
           else if command \<noteq> WAIT \<and> wr \<noteq> None then Inl InvalidCommandArgumentError
           else Inr \<lparr>p_command = command, p_from_state = s, p_target = target r,
                     p_wait_reason = wr, p_interruption = interruption r\<rparr>))"

section \<open>The step relation of the lifecycle\<close>

text \<open>A task's (state, wait reason), moved by any accepted command.\<close>

inductive task_move :: "bool \<Rightarrow> TaskState \<times> WaitReason option \<Rightarrow> TaskState \<times> WaitReason option \<Rightarrow> bool"
  for ro :: bool where
  move: "plan_transition s c w (Inst ro) = Inr p
     \<Longrightarrow> task_move ro (s, wr) (p_target p, p_wait_reason p)"

inductive_cases task_moveE: "task_move ro x y"

section \<open>Facts\<close>

interpretation task_state_enum: str_enum TaskState_members TaskState_value
proof
  show "m \<in> set TaskState_members" for m by (cases m) (simp_all add: TaskState_members_def)
  show "distinct (map TaskState_value TaskState_members)" by code_simp
qed

interpretation wait_reason_enum: str_enum WaitReason_members WaitReason_value
proof
  show "m \<in> set WaitReason_members" for m by (cases m) (simp_all add: WaitReason_members_def)
  show "distinct (map WaitReason_value WaitReason_members)" by code_simp
qed

interpretation task_command_enum: str_enum TaskCommand_members TaskCommand_value
proof
  show "m \<in> set TaskCommand_members" for m by (cases m) (simp_all add: TaskCommand_members_def)
  show "distinct (map TaskCommand_value TaskCommand_members)" by code_simp
qed

interpretation actor_kind_enum: str_enum ActorKind_members ActorKind_value
proof
  show "m \<in> set ActorKind_members" for m by (cases m) (simp_all add: ActorKind_members_def)
  show "distinct (map ActorKind_value ActorKind_members)" by code_simp
qed

lemma trule_sel [simp]:
  "sources (trule ss t i) = ss" "target (trule ss t i) = t" "interruption (trule ss t i) = i"
  by (simp_all add: trule_def)

lemma table_Inst [simp]: "table (Inst b) = Inr (if b then READ_ONLY_TRANSITIONS else TRANSITIONS)"
  "table Other = Inl InvalidCommandArgumentError"
  by (simp_all add: table_def)

lemma allowed_commands_iff:
  "allowed_commands s (Inst ro) = Inr cs \<Longrightarrow>
     c \<in> cs \<longleftrightarrow>
       (\<exists>r. (if ro then READ_ONLY_TRANSITIONS else TRANSITIONS) c = Some r \<and> s \<in> sources r)"
  using task_command_enum.members_all [of c]
  by (auto simp: allowed_commands_def split: option.splits if_splits)

text \<open>\<open>wait_ok\<close>: the wait reason that the command needs.\<close>

definition wait_ok :: "TaskCommand \<Rightarrow> WaitReason option \<Rightarrow> bool" where
  "wait_ok c wr \<longleftrightarrow> (c = WAIT \<longleftrightarrow> wr \<noteq> None)"

lemma plan_transition_member:
  "plan_transition s c (map_option Member wr) (Inst ro) =
     (case (if ro then READ_ONLY_TRANSITIONS else TRANSITIONS) c of
        None \<Rightarrow> Inl (IllegalTransitionError s c)
      | Some r \<Rightarrow>
          if s \<notin> sources r then Inl (IllegalTransitionError s c)
          else if \<not> wait_ok c wr then Inl InvalidCommandArgumentError
          else Inr \<lparr>p_command = c, p_from_state = s, p_target = target r,
                    p_wait_reason = wr, p_interruption = interruption r\<rparr>)"
  by (cases wr)
    (auto simp: plan_transition_def enum_member_def wait_ok_def split: option.splits)

text \<open>Every accepted plan comes from a rule of the table, with a fitting wait reason.\<close>

lemma plan_transition_InrD:
  assumes "plan_transition s c w (Inst ro) = Inr p"
  obtains r where "(if ro then READ_ONLY_TRANSITIONS else TRANSITIONS) c = Some r"
    and "s \<in> sources r" and "p_command p = c" and "p_from_state p = s"
    and "p_target p = target r" and "p_interruption p = interruption r"
    and "wait_ok c (p_wait_reason p)"
  using assms
  by (auto simp: plan_transition_def rbind_eq_Inr_iff wait_ok_def split: option.splits if_splits)

lemma target_waiting:
  "(if ro then READ_ONLY_TRANSITIONS else TRANSITIONS) c = Some r \<Longrightarrow>
     target r = TaskState_WAITING \<longleftrightarrow> c = WAIT"
  by (cases c) (auto simp: READ_ONLY_TRANSITIONS_def split: if_splits)

lemma target_read_only:
  "READ_ONLY_TRANSITIONS c = Some r \<Longrightarrow> target r \<noteq> TaskState_EVALUATING"
  by (cases c) (auto simp: READ_ONLY_TRANSITIONS_def split: if_splits)

lemma sources_terminal:
  "(if ro then READ_ONLY_TRANSITIONS else TRANSITIONS) c = Some r \<Longrightarrow> s \<in> sources r \<Longrightarrow>
     s \<in> TERMINAL_STATES \<Longrightarrow>
     (s = TaskState_FAILED \<and> c = RETRY
      \<or> s \<in> {TaskState_FAILED, TaskState_CANCELLED} \<and> c = RESTART)
     \<and> target r = TaskState_QUEUED"
  by (cases c) (auto simp: READ_ONLY_TRANSITIONS_def TERMINAL_STATES_def split: if_splits)

text \<open>The wait reason matches the state, and a read-only task is never evaluated.\<close>

definition task_shape :: "bool \<Rightarrow> TaskState \<times> WaitReason option \<Rightarrow> bool" where
  "task_shape ro x \<longleftrightarrow>
     (fst x = TaskState_WAITING \<longleftrightarrow> snd x \<noteq> None)
     \<and> (ro \<longrightarrow> fst x \<noteq> TaskState_EVALUATING)"

interpretation task_life: preserved "task_move ro" "task_shape ro" for ro
proof
  fix x y assume "task_move ro x y"
  then show "task_shape ro y"
    by (cases rule: task_move.cases, elim plan_transition_InrD)
      (auto simp: task_shape_def wait_ok_def target_waiting dest: target_read_only split: if_splits)
qed

text \<open>Every state that is not terminal accepts Cancel, so a task can always be ended.\<close>

lemma cancel_always:
  "s \<notin> TERMINAL_STATES \<Longrightarrow>
     (\<exists>p. plan_transition s CANCEL None (Inst ro) = Inr p \<and> p_target p = TaskState_CANCELLED)"
  by (cases s)
    (auto simp: plan_transition_def READ_ONLY_TRANSITIONS_def TERMINAL_STATES_def)

lemma completed_stuck: "\<not> task_move ro (TaskState_COMPLETED, wr) y"
proof
  assume "task_move ro (TaskState_COMPLETED, wr) y"
  then obtain c w p where "plan_transition TaskState_COMPLETED c w (Inst ro) = Inr p"
    by (auto elim: task_moveE)
  then obtain r where "(if ro then READ_ONLY_TRANSITIONS else TRANSITIONS) c = Some r"
    "TaskState_COMPLETED \<in> sources r" by (elim plan_transition_InrD)
  from sources_terminal [OF this] show False by (simp add: TERMINAL_STATES_def)
qed

text \<open>The strength of a role, with \<open>-1\<close> for a repository that is not in the Working Set.\<close>

definition strength_of :: "RepoRole option \<Rightarrow> int" where
  "strength_of r = (case r of None \<Rightarrow> - 1 | Some x \<Rightarrow> role_strength x)"

lemma narrows_strength:
  "accepts_role op role \<Longrightarrow> narrows op \<longleftrightarrow> strength_of (role_after op) < strength_of role"
  by (cases op)
    (auto simp: accepts_role_def role_after_def narrows_def strength_of_def)

lemma not_narrows_strength:
  "accepts_role op role \<Longrightarrow> \<not> narrows op \<longleftrightarrow> strength_of role < strength_of (role_after op)"
  by (cases op)
    (auto simp: accepts_role_def role_after_def narrows_def strength_of_def)

end
