(* ===== verification/Task_Lifecycle_Properties.thy ===== *)
theory Task_Lifecycle_Properties
  imports Task_Domain
begin

text \<open>
  The properties of the task lifecycle: which commands a state accepts, what every
  reachable task looks like, and that a task can always be ended.
\<close>

text \<open>
  What the user interface is told agrees with what the backend does: a command can be
  planned exactly when it is among the allowed commands of the state and carries a wait reason
  exactly when it is Wait; a command that is not among them is refused as an illegal
  transition.
\<close>

theorem commands_match_plans:
  assumes "allowed_commands s (Inst ro) = Inr cs"
  shows "(c \<in> cs \<and> wait_ok c wr \<longleftrightarrow> (\<exists>p. plan_transition s c (map_option Member wr) (Inst ro) = Inr p))
    \<and> (c \<notin> cs \<longrightarrow> plan_transition s c (map_option Member wr) (Inst ro) = Inl (IllegalTransitionError s c))"
  using allowed_commands_iff [OF assms, of c]
  by (auto simp: plan_transition_member split: option.splits)

theorem commands_match_plans_witness:
  "\<exists>p. plan_transition TaskState_RUNNING WAIT (map_option Member (Some WaitReason_USER)) (Inst False) = Inr p"
proof -
  obtain cs where cs: "allowed_commands TaskState_RUNNING (Inst False) = Inr cs"
    by (simp add: allowed_commands_def rbind_def)
  have "WAIT \<in> cs" unfolding allowed_commands_iff [OF cs] by simp
  with commands_match_plans [OF cs, of WAIT "Some WaitReason_USER"] show ?thesis by (simp add: wait_ok_def)
qed

text \<open>
  Every task that accepted commands can lead to has a wait reason exactly while it
  waits, and a read-only task is never being evaluated.
\<close>

theorem reachable_task_shape:
  assumes "(task_move ro)\<^sup>*\<^sup>* (TaskState_QUEUED, None) (s, wr)"
  shows "(s = TaskState_WAITING \<longleftrightarrow> wr \<noteq> None) \<and> (ro \<longrightarrow> s \<noteq> TaskState_EVALUATING)"
proof -
  have "task_shape ro (TaskState_QUEUED, None)" by (simp add: task_shape_def)
  from task_life.run_inv [OF assms this] show ?thesis by (simp add: task_shape_def)
qed

theorem reachable_task_shape_witness:
  "\<exists>s wr. (task_move True)\<^sup>*\<^sup>* (TaskState_QUEUED, None) (s, wr) \<and> s = TaskState_RUNNING \<and> wr = None"
proof -
  have "plan_transition TaskState_QUEUED START None (Inst True) = Inr \<lparr>p_command = START,
      p_from_state = TaskState_QUEUED, p_target = TaskState_RUNNING, p_wait_reason = None, p_interruption = None\<rparr>"
    by (simp add: plan_transition_def rbind_def READ_ONLY_TRANSITIONS_def)
  from task_move.move [OF this, of None]
  have run: "(task_move True)\<^sup>*\<^sup>* (TaskState_QUEUED, None) (TaskState_RUNNING, None)" by simp
  with reachable_task_shape [OF run] show ?thesis by auto
qed

text \<open>
  A task that has not ended can always be cancelled; a completed task never moves again;
  and a failed or cancelled task moves only back to the queue, by Retry (failed only) or
  Restart.
\<close>

theorem endings:
  "(s \<notin> TERMINAL_STATES \<longrightarrow>
      (\<exists>p. plan_transition s CANCEL None (Inst ro) = Inr p \<and> p_target p = TaskState_CANCELLED))
   \<and> (s \<in> TERMINAL_STATES \<and> plan_transition s c w (Inst ro) = Inr p \<longrightarrow>
        s \<noteq> TaskState_COMPLETED \<and> p_target p = TaskState_QUEUED
        \<and> (c = RETRY \<and> s = TaskState_FAILED \<or> c = RESTART))"
proof -
  have "s \<noteq> TaskState_COMPLETED \<and> p_target p = TaskState_QUEUED
        \<and> (c = RETRY \<and> s = TaskState_FAILED \<or> c = RESTART)"
    if end_state: "s \<in> TERMINAL_STATES" and plan: "plan_transition s c w (Inst ro) = Inr p"
    using plan
  proof (rule plan_transition_InrD)
    fix r assume "(if ro then READ_ONLY_TRANSITIONS else TRANSITIONS) c = Some r" "s \<in> sources r"
      and t: "p_target p = target r"
    from sources_terminal [OF this(1,2) end_state] t show ?thesis by auto
  qed
  then show ?thesis using cancel_always by blast
qed

theorem endings_witness:
  "\<exists>p. plan_transition TaskState_EVALUATING CANCEL None (Inst False) = Inr p \<and> p_target p = TaskState_CANCELLED"
  using endings [of TaskState_EVALUATING False] by (simp add: TERMINAL_STATES_def)

end
