(* ===== verification/Working_Set.thy ===== *)
theory Working_Set
  imports Task_Domain Authz_Capabilities
begin

text \<open>
  The rules of a task's Working Set that need no database
  (\<^verbatim>\<open>paw_backend/tasks/working_set.py\<close>, with the enumerations of \<^verbatim>\<open>paw_backend/tasks/records.py\<close>):
  what each role of a repository lets a call do, what a change of the set needs, when a
  discarded change is verified, and which repositories keep a task from completing.
\<close>

section \<open>Levels, ceilings and permissions\<close>

datatype ReviewStatus = ReviewStatus_NOT_STARTED | ReviewStatus_IN_REVIEW | ReviewStatus_APPROVED
  | ReviewStatus_CHANGES_REQUESTED

datatype EvaluationResult = EvaluationResult_NOT_RUN | EvaluationResult_PASSED | EvaluationResult_FAILED

datatype PullRequestState = PullRequestState_DRAFT | PullRequestState_OPEN | PullRequestState_MERGED
  | PullRequestState_CLOSED

definition SCOPED_AUTO :: string where "SCOPED_AUTO = ''scoped_auto''"
definition STRONG_APPROVAL :: string where "STRONG_APPROVAL = ''strong_approval''"

primrec approval_level :: "WorkingSetOperation \<Rightarrow> string" where
  "approval_level ADD_REFERENCED = SCOPED_AUTO"
| "approval_level SET_WORKING = STRONG_APPROVAL"
| "approval_level SET_TARGET = STRONG_APPROVAL"
| "approval_level DOWNGRADE_TO_WORKING = STRONG_APPROVAL"
| "approval_level DOWNGRADE_TO_REFERENCED = STRONG_APPROVAL"
| "approval_level REMOVE = STRONG_APPROVAL"

definition DELIVERED_PULL_REQUEST_STATES :: "PullRequestState set" where
  "DELIVERED_PULL_REQUEST_STATES = {PullRequestState_OPEN, PullRequestState_MERGED}"

definition ROLE_GATED_CAPABILITIES :: "Capability set" where
  "ROLE_GATED_CAPABILITIES = {PROJECT_REPO_WRITE, PROJECT_PR_CREATE}"

primrec ROLE_WRITE_CEILING :: "RepoRole \<Rightarrow> Capability set" where
  "ROLE_WRITE_CEILING RepoRole_REFERENCED = {}"
| "ROLE_WRITE_CEILING RepoRole_WORKING = {PROJECT_REPO_WRITE}"
| "ROLE_WRITE_CEILING RepoRole_TARGET = {PROJECT_REPO_WRITE, PROJECT_PR_CREATE}"

definition EXECUTING_ROLES :: "RepoRole set" where
  "EXECUTING_ROLES = {RepoRole_WORKING, RepoRole_TARGET}"

definition role_allows :: "RepoRole \<Rightarrow> Capability \<Rightarrow> bool \<Rightarrow> bool" where
  "role_allows role cap executes =
     (if cap \<in> ROLE_GATED_CAPABILITIES \<and> cap \<notin> ROLE_WRITE_CEILING role then False
      else \<not> executes \<or> role \<in> EXECUTING_ROLES)"

definition marks_changed :: "Capability \<Rightarrow> bool \<Rightarrow> bool" where
  "marks_changed cap executes \<longleftrightarrow> executes \<or> cap \<in> ROLE_GATED_CAPABILITIES"

definition required_permission :: "WorkingSetOperation \<Rightarrow> RepoRole option \<Rightarrow> RepoPermission" where
  "required_permission op current =
     (if op = ADD_REFERENCED then RepoPermission_READ
      else if op \<in> {SET_WORKING, SET_TARGET} then RepoPermission_WRITE
      else if current = None \<or> current = Some RepoRole_REFERENCED then RepoPermission_READ
      else RepoPermission_WRITE)"

section \<open>Discarded changes\<close>

record RepositoryChangeState =
  cs_clean :: bool
  cs_head_commit :: "pystr option"
  cs_branch_pushed :: bool
  cs_open_pull_request :: bool

text \<open>
  The answer of the inspector (a parameter: it looks at the repository): it raised, a
  timeout included, it returned something that is not a change state (\<^verbatim>\<open>None\<close> is one such
  object), or it returned one.
\<close>

datatype inspection = Raised | Found "RepositoryChangeState arg"

definition verify_discarded ::
  "inspection \<Rightarrow> pystr option \<Rightarrow> bool \<Rightarrow> RepositoryChangeState option" where
  "verify_discarded answer starting_commit open_pull_request =
     (if open_pull_request \<or> starting_commit = None then None
      else
        (case answer of
           Raised \<Rightarrow> None
         | Found Other \<Rightarrow> None
         | Found (Inst found) \<Rightarrow>
             if cs_clean found \<and> cs_head_commit found = starting_commit
                \<and> \<not> cs_branch_pushed found \<and> \<not> cs_open_pull_request found
             then Some found else None))"

definition FailClosedChangeInspector :: inspection where
  "FailClosedChangeInspector = Found Other"

section \<open>Completion\<close>

record AttemptRepositoryFacts =
  repository_id :: uuid
  ar_role :: "RepoRole option"
  starting_commit :: "pystr option"
  strongest_role :: RepoRole
  modified :: bool
  head_commit :: "pystr option"
  evaluation :: EvaluationResult
  review :: ReviewStatus
  pull_request :: "PullRequestState option"

definition was_changed :: "AttemptRepositoryFacts \<Rightarrow> bool" where
  "was_changed facts =
     (if modified facts \<or> pull_request facts \<noteq> None then True
      else if head_commit facts = None then False
      else starting_commit facts = None \<or> head_commit facts \<noteq> starting_commit facts)"

definition obligation :: "AttemptRepositoryFacts \<Rightarrow> RepoRole option" where
  "obligation facts =
     (if ar_role facts = Some RepoRole_TARGET then Some RepoRole_TARGET
      else if \<not> was_changed facts then None
      else
        (let strongest =
           (case ar_role facts of
              None \<Rightarrow> strongest_role facts
            | Some r \<Rightarrow> if role_strength r > role_strength (strongest_role facts) then r
                        else strongest_role facts)
         in if strongest = RepoRole_TARGET then Some RepoRole_TARGET else Some RepoRole_WORKING))"

definition meets :: "AttemptRepositoryFacts \<Rightarrow> RepoRole \<Rightarrow> bool" where
  "meets facts role =
     (if evaluation facts \<noteq> EvaluationResult_PASSED then False
      else if role \<noteq> RepoRole_TARGET then True
      else pull_request facts \<in> Some ` DELIVERED_PULL_REQUEST_STATES
           \<and> review facts = ReviewStatus_APPROVED)"

definition unmet_repositories :: "AttemptRepositoryFacts list \<Rightarrow> uuid list" where
  "unmet_repositories facts =
     map repository_id
       (filter (\<lambda>item. case obligation item of None \<Rightarrow> False | Some needed \<Rightarrow> \<not> meets item needed) facts)"

definition has_target :: "(uuid \<times> RepoRole) list \<Rightarrow> bool" where
  "has_target roles = list_ex (\<lambda>(_, role). role = RepoRole_TARGET) roles"

section \<open>Facts\<close>

text \<open>The obligation in one line: a changed repository keeps the strongest role it ever held.\<close>

lemma obligation_eq:
  "obligation f =
     (if ar_role f = Some RepoRole_TARGET \<or> was_changed f \<and> strongest_role f = RepoRole_TARGET
      then Some RepoRole_TARGET
      else if was_changed f then Some RepoRole_WORKING else None)"
  by (cases "ar_role f"; cases "strongest_role f"; cases "the (ar_role f)")
    (auto simp: obligation_def Let_def)

lemma meets_TARGET:
  "meets f RepoRole_TARGET \<longleftrightarrow> evaluation f = EvaluationResult_PASSED
     \<and> pull_request f \<in> {Some PullRequestState_OPEN, Some PullRequestState_MERGED}
     \<and> review f = ReviewStatus_APPROVED"
  by (auto simp: meets_def DELIVERED_PULL_REQUEST_STATES_def)

lemma meets_WORKING: "meets f RepoRole_WORKING \<longleftrightarrow> evaluation f = EvaluationResult_PASSED"
  by (simp add: meets_def)

section \<open>Properties\<close>

text \<open>
  C20: no repository stands in the way of completion exactly when every repository that is
  a target, or was changed while it ever was one, passed its evaluation, has a pull request
  that is open or merged and an approved review, and every other changed one passed its
  evaluation: taking a changed repository out of the set, or lowering its role, changes nothing.
\<close>

theorem completion_requirements:
  "unmet_repositories fs = [] \<longleftrightarrow>
     (\<forall>f \<in> set fs.
        (ar_role f = Some RepoRole_TARGET \<or> was_changed f \<and> strongest_role f = RepoRole_TARGET \<longrightarrow>
           evaluation f = EvaluationResult_PASSED \<and> review f = ReviewStatus_APPROVED
           \<and> pull_request f \<in> {Some PullRequestState_OPEN, Some PullRequestState_MERGED})
        \<and> (was_changed f \<longrightarrow> evaluation f = EvaluationResult_PASSED))"
  unfolding unmet_repositories_def map_is_Nil_conv filter_empty_conv
  by (intro ball_cong refl) (auto simp: obligation_eq meets_TARGET meets_WORKING)

definition demo_facts :: AttemptRepositoryFacts where
  "demo_facts = \<lparr>repository_id = 5, ar_role = None, starting_commit = Some [97], strongest_role = RepoRole_TARGET,
     modified = True, head_commit = None, evaluation = EvaluationResult_PASSED,
     review = ReviewStatus_APPROVED, pull_request = None\<rparr>"

theorem completion_requirements_witness: "unmet_repositories [demo_facts] \<noteq> []"
  using completion_requirements [of "[demo_facts]"] by (simp add: demo_facts_def was_changed_def)

text \<open>
  A stronger role allows whatever a weaker one allows, only a target may get a pull
  request, and a use that the role of a referenced repository allows never counts as a change
  of it.
\<close>

theorem role_ceiling:
  "(role_allows r c ex \<and> role_strength r \<le> role_strength r' \<longrightarrow> role_allows r' c ex)
   \<and> (role_allows r PROJECT_PR_CREATE ex \<longrightarrow> r = RepoRole_TARGET)
   \<and> (role_allows RepoRole_REFERENCED c ex \<longrightarrow> \<not> marks_changed c ex)"
  by (cases r; cases r')
    (auto simp: role_allows_def marks_changed_def ROLE_GATED_CAPABILITIES_def EXECUTING_ROLES_def)

theorem role_ceiling_witness:
  "role_allows RepoRole_WORKING PROJECT_REPO_WRITE True \<and> role_allows RepoRole_TARGET PROJECT_REPO_WRITE True
   \<and> \<not> role_allows RepoRole_WORKING PROJECT_PR_CREATE False"
proof -
  have "role_allows RepoRole_WORKING PROJECT_REPO_WRITE True" by code_simp
  with role_ceiling [of RepoRole_WORKING PROJECT_REPO_WRITE True RepoRole_TARGET]
    role_ceiling [of RepoRole_WORKING PROJECT_REPO_WRITE False RepoRole_TARGET]
  show ?thesis by auto
qed

text \<open>
  A change counts as discarded only when the stored pull request is not open, the
  repository has a known starting commit, and the inspector itself saw a clean worktree at
  exactly that commit, nothing pushed and no open pull request; a failing or undecided
  inspector never verifies.
\<close>

theorem discard_is_verified:
  "verify_discarded answer start pr = Some found \<longleftrightarrow>
     \<not> pr \<and> answer = Found (Inst found) \<and> start \<noteq> None \<and> cs_clean found \<and> cs_head_commit found = start
     \<and> \<not> cs_branch_pushed found \<and> \<not> cs_open_pull_request found"
  by (auto simp: verify_discarded_def split: inspection.splits arg.splits if_splits)

text \<open>
  A change of the Working Set that the rules accept either narrows the repository's role
  or widens it: it is a downgrade or a removal exactly when the strength falls, never leaves
  the role as it was, and asks for the write permission whenever the role before or after can
  write.
\<close>

theorem operation_strength:
  assumes "accepts_role op r"
  shows "(narrows op \<longleftrightarrow> strength_of (role_after op) < strength_of r)
    \<and> strength_of (role_after op) \<noteq> strength_of r
    \<and> (required_permission op r = RepoPermission_WRITE \<longleftrightarrow>
         1 \<le> max (strength_of r) (strength_of (role_after op)))"
  using assms narrows_strength [OF assms] not_narrows_strength [OF assms]
  by (cases op) (auto simp: accepts_role_def role_after_def required_permission_def strength_of_def)

theorem operation_strength_witness:
  "narrows DOWNGRADE_TO_WORKING
   \<and> required_permission DOWNGRADE_TO_WORKING (Some RepoRole_TARGET) = RepoPermission_WRITE"
  using operation_strength [of DOWNGRADE_TO_WORKING "Some RepoRole_TARGET"]
  by (simp add: accepts_role_def role_after_def strength_of_def)

end
