(* ===== verification/Queue_Validation.thy ===== *)
theory Queue_Validation
  imports Task_Domain
begin

text \<open>
  Argument validation of the queue, budget and loop services
  (\<^verbatim>\<open>paw_backend/tasks/queueing/validation.py\<close>). No check coerces: a \<^verbatim>\<open>bool\<close> is not an \<^verbatim>\<open>int\<close>,
  text is not a UUID, a naive \<^verbatim>\<open>datetime\<close> is not an instant. Text is a list of code points,
  so that surrogates (U+D800 to U+DFFF) can be told apart.
\<close>

section \<open>Bounds\<close>

definition MAX_RECORD_AMOUNT :: int where "MAX_RECORD_AMOUNT = 10 ^ 12"
definition MAX_CONSUMED :: int where "MAX_CONSUMED = 10 ^ 15"
definition MAX_APPROACH :: int where "MAX_APPROACH = 100"
definition MAX_WORKER_ID_LENGTH :: nat where "MAX_WORKER_ID_LENGTH = 100"
definition MAX_ERROR_CLASS_LENGTH :: nat where "MAX_ERROR_CLASS_LENGTH = 200"
definition MAX_STEP_NAME_LENGTH :: nat where "MAX_STEP_NAME_LENGTH = 100"
definition MAX_SIGNATURE_MESSAGE_CHARS :: nat where "MAX_SIGNATURE_MESSAGE_CHARS = 2000"
definition DEFAULT_LEASE_SECONDS :: int where "DEFAULT_LEASE_SECONDS = 60"
definition MAX_LEASE_SECONDS :: int where "MAX_LEASE_SECONDS = 86400"
definition MAX_ENTRY_ID :: int where "MAX_ENTRY_ID = 2 ^ 63 - 1"
definition MAX_CLAIM_COUNT :: int where "MAX_CLAIM_COUNT = 2 ^ 31 - 1"
definition MAX_ATTEMPT :: int where "MAX_ATTEMPT = 2 ^ 31 - 1"
definition MAX_RUNTIME_GENERATION :: int where "MAX_RUNTIME_GENERATION = 2 ^ 63 - 1"

section \<open>Character classes\<close>

definition is_alnum_ascii :: "nat \<Rightarrow> bool" where
  "is_alnum_ascii c \<longleftrightarrow> 65 \<le> c \<and> c \<le> 90 \<or> 97 \<le> c \<and> c \<le> 122 \<or> 48 \<le> c \<and> c \<le> 57"

text \<open>\<^verbatim>\<open>[A-Za-z0-9._:@/-]\<close>\<close>

definition worker_char :: "nat \<Rightarrow> bool" where
  "worker_char c \<longleftrightarrow> is_alnum_ascii c \<or> c \<in> {46, 95, 58, 64, 47, 45}"

definition is_control :: "nat \<Rightarrow> bool" where
  "is_control c \<longleftrightarrow> c \<le> 31 \<or> c = 127"

definition is_surrogate :: "nat \<Rightarrow> bool" where
  "is_surrogate c \<longleftrightarrow> 55296 \<le> c \<and> c \<le> 57343"

definition is_hex_lower :: "nat \<Rightarrow> bool" where
  "is_hex_lower c \<longleftrightarrow> 48 \<le> c \<and> c \<le> 57 \<or> 97 \<le> c \<and> c \<le> 102"

text \<open>What \<^verbatim>\<open>str.strip()\<close> and \<^verbatim>\<open>str.split()\<close> treat as white space.\<close>

definition is_space :: "nat \<Rightarrow> bool" where
  "is_space c \<longleftrightarrow> 9 \<le> c \<and> c \<le> 13 \<or> 28 \<le> c \<and> c \<le> 32 \<or> c = 133 \<or> c = 160 \<or> c = 5760
     \<or> 8192 \<le> c \<and> c \<le> 8202 \<or> c \<in> {8232, 8233, 8239, 8287, 12288}"

section \<open>Checks\<close>

abbreviation reject :: "string \<Rightarrow> task_error + 'a" where
  "reject name \<equiv> Inl (InvalidQueueingArgumentError name)"

definition check_int :: "string \<Rightarrow> pyval \<Rightarrow> int \<Rightarrow> int \<Rightarrow> task_error + int" where
  "check_int name v minimum maximum =
     (case v of
        PyInt n \<Rightarrow> if minimum \<le> n \<and> n \<le> maximum then Inr n else reject name
      | _ \<Rightarrow> reject name)"

definition check_bool :: "string \<Rightarrow> pyval \<Rightarrow> task_error + bool" where
  "check_bool name v = (case v of PyBool b \<Rightarrow> Inr b | _ \<Rightarrow> reject name)"

definition check_amount :: "string \<Rightarrow> pyval \<Rightarrow> task_error + int" where
  "check_amount name v = check_int name v 0 MAX_RECORD_AMOUNT"

definition check_entry_id :: "pyval \<Rightarrow> task_error + int" where
  "check_entry_id v = check_int ''entry_id'' v 1 MAX_ENTRY_ID"

definition check_claim_count :: "pyval \<Rightarrow> task_error + int" where
  "check_claim_count v = check_int ''claim_count'' v 1 MAX_CLAIM_COUNT"

definition check_runtime_generation :: "pyval \<Rightarrow> task_error + int" where
  "check_runtime_generation v = check_int ''generation'' v 1 MAX_RUNTIME_GENERATION"

definition check_attempt :: "pyval \<Rightarrow> task_error + int" where
  "check_attempt v = check_int ''attempt'' v 1 MAX_ATTEMPT"

definition check_approach :: "pyval \<Rightarrow> task_error + int" where
  "check_approach v = check_int ''approach'' v 0 MAX_APPROACH"

definition check_uuid :: "string \<Rightarrow> pyval \<Rightarrow> task_error + uuid" where
  "check_uuid name v = (case v of PyUuid u \<Rightarrow> Inr u | _ \<Rightarrow> reject name)"

text \<open>A caller's session: whether it is an \<^verbatim>\<open>AsyncSession\<close> inside a transaction.\<close>

definition check_session :: "string \<Rightarrow> bool \<Rightarrow> task_error + unit" where
  "check_session name in_transaction = require in_transaction (InvalidQueueingArgumentError name)"

text \<open>An explicit \<^verbatim>\<open>now\<close>: a timezone-aware \<^verbatim>\<open>datetime\<close> (\<open>Inst\<close>) or any other object.\<close>

definition check_now :: "string \<Rightarrow> instant arg \<Rightarrow> task_error + instant" where
  "check_now name v = (case v of Inst t \<Rightarrow> Inr t | Other \<Rightarrow> reject name)"

definition check_member :: "string \<Rightarrow> 'e arg \<Rightarrow> task_error + 'e" where
  "check_member name v = (case v of Inst m \<Rightarrow> Inr m | Other \<Rightarrow> reject name)"

definition worker_id_ok :: "pystr \<Rightarrow> bool" where
  "worker_id_ok s \<longleftrightarrow> length s \<le> MAX_WORKER_ID_LENGTH
     \<and> (case s of [] \<Rightarrow> False | c # cs \<Rightarrow> is_alnum_ascii c \<and> list_all worker_char cs)"

definition check_worker_id :: "pyval \<Rightarrow> task_error + pystr" where
  "check_worker_id v =
     (case v of PyStr s \<Rightarrow> if worker_id_ok s then Inr s else reject ''worker_id''
      | _ \<Rightarrow> reject ''worker_id'')"

definition label_ok :: "nat \<Rightarrow> pystr \<Rightarrow> bool" where
  "label_ok maximum s \<longleftrightarrow> list_ex (\<lambda>c. \<not> is_space c) s \<and> length s \<le> maximum
     \<and> \<not> list_ex is_control s \<and> \<not> list_ex is_surrogate s"

definition check_label :: "string \<Rightarrow> pyval \<Rightarrow> nat \<Rightarrow> task_error + pystr" where
  "check_label name v maximum =
     (case v of PyStr s \<Rightarrow> if label_ok maximum s then Inr s else reject name
      | _ \<Rightarrow> reject name)"

definition check_error_class :: "pyval \<Rightarrow> task_error + pystr" where
  "check_error_class v = check_label ''error_class'' v MAX_ERROR_CLASS_LENGTH"

definition check_step_name :: "pyval \<Rightarrow> task_error + pystr" where
  "check_step_name v = check_label ''step'' v MAX_STEP_NAME_LENGTH"

definition check_message :: "pyval \<Rightarrow> task_error + pystr" where
  "check_message v =
     (case v of PyStr s \<Rightarrow> if list_ex is_surrogate s then reject ''message'' else Inr s
      | _ \<Rightarrow> reject ''message'')"

definition signature_ok :: "pystr \<Rightarrow> bool" where
  "signature_ok s \<longleftrightarrow> length s = 64 \<and> list_all is_hex_lower s"

definition check_signature :: "pyval \<Rightarrow> task_error + pystr" where
  "check_signature v =
     (case v of PyStr s \<Rightarrow> if signature_ok s then Inr s else reject ''signature''
      | _ \<Rightarrow> reject ''signature'')"

section \<open>Facts\<close>

named_theorems check_iffs \<open>when a check accepts\<close>

lemma check_int_Inr [check_iffs]:
  "check_int name v lo hi = Inr n \<longleftrightarrow> v = PyInt n \<and> lo \<le> n \<and> n \<le> hi"
  by (auto simp: check_int_def split: pyval.splits)

lemma check_worker_id_Inr [check_iffs]:
  "check_worker_id v = Inr s \<longleftrightarrow> v = PyStr s \<and> worker_id_ok s"
  by (auto simp: check_worker_id_def split: pyval.splits)

lemma check_uuid_Inr [check_iffs]: "check_uuid name v = Inr u \<longleftrightarrow> v = PyUuid u"
  by (auto simp: check_uuid_def split: pyval.splits)

lemma check_member_Inr [check_iffs]: "check_member name v = Inr m \<longleftrightarrow> v = Inst m"
  by (auto simp: check_member_def split: arg.splits)

lemma check_bool_Inr [check_iffs]: "check_bool name v = Inr b \<longleftrightarrow> v = PyBool b"
  by (auto simp: check_bool_def split: pyval.splits)

lemmas checks_by_int = check_amount_def check_entry_id_def check_claim_count_def
  check_runtime_generation_def check_attempt_def check_approach_def

end
