(* ===== verification/Queue_Domain.thy ===== *)
theory Queue_Domain
  imports Queue_Validation
begin

text \<open>
  The value objects of the queue, the budgets and the loop detector
  (\<^verbatim>\<open>paw_backend/tasks/queueing/domain.py\<close>) with their validating constructors.
\<close>

section \<open>Queue\<close>

datatype Priority = HIGH | NORMAL | LOW

primrec priority_rank_of :: "Priority \<Rightarrow> int" where
  "priority_rank_of HIGH = 0"
| "priority_rank_of NORMAL = 1"
| "priority_rank_of LOW = 2"

text \<open>Priorities are ordered by rank: a smaller one starts first.\<close>

instantiation Priority :: linorder
begin

definition less_eq_Priority :: "Priority \<Rightarrow> Priority \<Rightarrow> bool" where
  "less_eq_Priority a b \<longleftrightarrow> priority_rank_of a \<le> priority_rank_of b"

definition less_Priority :: "Priority \<Rightarrow> Priority \<Rightarrow> bool" where
  "less_Priority a b \<longleftrightarrow> priority_rank_of a < priority_rank_of b"

instance
proof
  fix a b :: Priority
  assume "a \<le> b" "b \<le> a"
  then show "a = b" by (cases a; cases b) (simp_all add: less_eq_Priority_def)
qed (auto simp: less_eq_Priority_def less_Priority_def)

end

datatype QueueStatus = QueueStatus_QUEUED | QueueStatus_CLAIMED | QueueStatus_COMPLETED
  | QueueStatus_CANCELLED

definition ACTIVE_QUEUE_STATUSES :: "QueueStatus set" where
  "ACTIVE_QUEUE_STATUSES = {QueueStatus_QUEUED, QueueStatus_CLAIMED}"

record QueueEntry =
  e_id :: int
  task_id :: uuid
  priority :: Priority
  status :: QueueStatus
  enqueued_at :: instant
  claimed_by :: "pystr option"
  claimed_at :: "instant option"
  lease_expires_at :: "instant option"
  claim_count :: int
  finished_at :: "instant option"

record QueueLease =
  l_entry_id :: int
  l_worker_id :: pystr
  l_claim_count :: int

definition QueueLease_init :: "pyval \<Rightarrow> pyval \<Rightarrow> pyval \<Rightarrow> task_error + QueueLease" where
  "QueueLease_init i w c =
     rbind (check_entry_id i) (\<lambda>i'.
     rbind (check_worker_id w) (\<lambda>w'.
     rbind (check_claim_count c) (\<lambda>c'.
       Inr \<lparr>l_entry_id = i', l_worker_id = w', l_claim_count = c'\<rparr>)))"

definition QueueLease_of :: "QueueEntry arg \<Rightarrow> pyval \<Rightarrow> task_error + QueueLease" where
  "QueueLease_of entry w =
     (case entry of
        Other \<Rightarrow> reject ''entry''
      | Inst e \<Rightarrow> QueueLease_init (PyInt (e_id e)) w (PyInt (claim_count e)))"

section \<open>Budget\<close>

datatype BudgetKind = RUNTIME_SECONDS | STEPS | RETRIES | TOOL_CALLS | TOKENS | GPU_SECONDS

text \<open>The declaration order is the canonical order.\<close>

definition BudgetKind_members :: "BudgetKind list" where
  "BudgetKind_members = [RUNTIME_SECONDS, STEPS, RETRIES, TOOL_CALLS, TOKENS, GPU_SECONDS]"

definition RECORDABLE_KINDS :: "BudgetKind list" where
  "RECORDABLE_KINDS = filter (\<lambda>k. k \<noteq> RUNTIME_SECONDS) BudgetKind_members"

datatype BudgetPreset = STANDARD | LONG | UNLIMITED

fun PRESET_LIMITS :: "BudgetPreset \<Rightarrow> BudgetKind \<Rightarrow> int option" where
  "PRESET_LIMITS STANDARD k =
     Some (case k of RUNTIME_SECONDS \<Rightarrow> 3600 | STEPS \<Rightarrow> 50 | RETRIES \<Rightarrow> 10 | TOOL_CALLS \<Rightarrow> 300
           | TOKENS \<Rightarrow> 1000000 | GPU_SECONDS \<Rightarrow> 3600)"
| "PRESET_LIMITS LONG k =
     Some (case k of RUNTIME_SECONDS \<Rightarrow> 14400 | STEPS \<Rightarrow> 200 | RETRIES \<Rightarrow> 20 | TOOL_CALLS \<Rightarrow> 1200
           | TOKENS \<Rightarrow> 4000000 | GPU_SECONDS \<Rightarrow> 14400)"
| "PRESET_LIMITS UNLIMITED k = None"

definition limit_for :: "BudgetPreset arg \<Rightarrow> BudgetKind arg \<Rightarrow> task_error + int option" where
  "limit_for preset kind =
     rbind (check_member ''preset'' preset) (\<lambda>p.
     rbind (check_member ''kind'' kind) (\<lambda>k. Inr (PRESET_LIMITS p k)))"

definition MAX_LIMIT :: int where
  "MAX_LIMIT = 2 ^ 63 - 1"

record BudgetUsage =
  u_kind :: BudgetKind
  consumed :: int
  u_limit :: "int option"

definition BudgetUsage_init :: "BudgetKind \<Rightarrow> int \<Rightarrow> int option \<Rightarrow> task_error + BudgetUsage" where
  "BudgetUsage_init k c l =
     rbind (check_int ''consumed'' (PyInt c) 0 MAX_LIMIT) (\<lambda>c'.
     rbind (case l of None \<Rightarrow> Inr ()
            | Some x \<Rightarrow> rbind (check_int ''limit'' (PyInt x) 0 MAX_LIMIT) (\<lambda>_. Inr ())) (\<lambda>_.
       Inr \<lparr>u_kind = k, consumed = c, u_limit = l\<rparr>))"

definition remaining :: "BudgetUsage \<Rightarrow> int option" where
  "remaining u = map_option (\<lambda>l. max (l - consumed u) 0) (u_limit u)"

datatype BudgetStatus = BudgetStatus_OK | BudgetStatus_EXCEEDED

record BudgetVerdict =
  v_status :: BudgetStatus
  exceeded :: "BudgetKind list"
  usages :: "BudgetUsage list"

definition BudgetVerdict_init ::
  "BudgetStatus \<Rightarrow> BudgetKind list \<Rightarrow> BudgetUsage list \<Rightarrow> task_error + BudgetVerdict" where
  "BudgetVerdict_init st ex us =
     (if map u_kind us \<noteq> BudgetKind_members then reject ''usage''
      else if filter (\<lambda>k. k \<in> set ex) BudgetKind_members \<noteq> ex then reject ''exceeded''
      else if (st = BudgetStatus_EXCEEDED) \<noteq> (ex \<noteq> []) then reject ''status''
      else Inr \<lparr>v_status = st, exceeded = ex, usages = us\<rparr>)"

text \<open>\<^verbatim>\<open>self.usage[tuple(BudgetKind).index(kind)]\<close>; \<open>None\<close> is an index out of range.\<close>

definition usage_of :: "BudgetVerdict \<Rightarrow> BudgetKind \<Rightarrow> BudgetUsage option" where
  "usage_of v k =
     (let i = length (takeWhile (\<lambda>x. x \<noteq> k) BudgetKind_members)
      in if i < length (usages v) then Some (usages v ! i) else None)"

section \<open>Loop detection\<close>

datatype LoopVerdict = CONTINUE_LOOP | TRY_ALTERNATIVE_LOOP | ESCALATE

record FailureRecord =
  f_signature :: pystr
  f_approach :: int

definition FailureRecord_init :: "pyval \<Rightarrow> pyval \<Rightarrow> task_error + FailureRecord" where
  "FailureRecord_init s a =
     rbind (check_signature s) (\<lambda>s'. rbind (check_approach a) (\<lambda>a'.
       Inr \<lparr>f_signature = s', f_approach = a'\<rparr>))"

record LoopPolicy =
  repeat_threshold :: int
  window_size :: int
  max_alternatives :: int

definition LoopPolicy_init :: "pyval \<Rightarrow> pyval \<Rightarrow> pyval \<Rightarrow> task_error + LoopPolicy" where
  "LoopPolicy_init r w m =
     rbind (check_int ''repeat_threshold'' r 2 1000) (\<lambda>r'.
     rbind (check_int ''window_size'' w 2 1000) (\<lambda>w'.
     rbind (check_int ''max_alternatives'' m 0 MAX_APPROACH) (\<lambda>m'.
       if w' < r' then reject ''window_size''
       else Inr \<lparr>repeat_threshold = r', window_size = w', max_alternatives = m'\<rparr>)))"

definition loop_policy_ok :: "LoopPolicy \<Rightarrow> bool" where
  "loop_policy_ok p \<longleftrightarrow> 2 \<le> repeat_threshold p \<and> repeat_threshold p \<le> 1000
     \<and> repeat_threshold p \<le> window_size p \<and> window_size p \<le> 1000
     \<and> 0 \<le> max_alternatives p \<and> max_alternatives p \<le> MAX_APPROACH"

definition DEFAULT_LOOP_POLICY :: LoopPolicy where
  "DEFAULT_LOOP_POLICY = \<lparr>repeat_threshold = 3, window_size = 10, max_alternatives = 1\<rparr>"

record LoopAssessment =
  la_verdict :: LoopVerdict
  la_signature :: "pystr option"
  la_approach :: "int option"
  repeats :: int

section \<open>The next action\<close>

datatype NextAction = CONTINUE | TRY_ALTERNATIVE | ESCALATE_AGENT | WAIT_FOR_USER | FAIL_TASK

datatype DecisionReason = REASON_NONE | BUDGET_EXCEEDED | LOOP_TRY_ALTERNATIVE | LOOP_ESCALATE
  | LOOP_ESCALATION_UNAVAILABLE

record QueueDecision =
  qd_action :: NextAction
  qd_reason :: DecisionReason
  qd_exceeded :: "BudgetKind list"
  qd_loop_verdict :: LoopVerdict

primrec ACTION_TASK_COMMANDS :: "NextAction \<Rightarrow> (TaskCommand \<times> WaitReason option) option" where
  "ACTION_TASK_COMMANDS CONTINUE = None"
| "ACTION_TASK_COMMANDS TRY_ALTERNATIVE = None"
| "ACTION_TASK_COMMANDS ESCALATE_AGENT = None"
| "ACTION_TASK_COMMANDS WAIT_FOR_USER = Some (WAIT, Some WaitReason_USER)"
| "ACTION_TASK_COMMANDS FAIL_TASK = Some (FAIL, None)"

section \<open>Facts\<close>

lemma BudgetKind_members_all [simp]: "k \<in> set BudgetKind_members"
  by (cases k) (simp_all add: BudgetKind_members_def)

lemma distinct_BudgetKind_members [simp]: "distinct BudgetKind_members"
  by (simp add: BudgetKind_members_def)

lemma BudgetUsage_init_ok:
  "0 \<le> c \<Longrightarrow> c \<le> MAX_LIMIT \<Longrightarrow> (\<And>x. l = Some x \<Longrightarrow> 0 \<le> x \<and> x \<le> MAX_LIMIT)
     \<Longrightarrow> BudgetUsage_init k c l = Inr \<lparr>u_kind = k, consumed = c, u_limit = l\<rparr>"
  by (cases l) (simp_all add: BudgetUsage_init_def rbind_def check_int_def)

lemma LoopPolicy_init_ok: "LoopPolicy_init r w m = Inr p \<Longrightarrow> loop_policy_ok p"
  by (auto simp: LoopPolicy_init_def rbind_eq_Inr_iff check_iffs loop_policy_ok_def
        split: if_splits)

lemma DEFAULT_LOOP_POLICY_ok: "loop_policy_ok DEFAULT_LOOP_POLICY"
  by (simp add: loop_policy_ok_def DEFAULT_LOOP_POLICY_def MAX_APPROACH_def)

lemma priority_rank_inj: "priority_rank_of a = priority_rank_of b \<longleftrightarrow> a = b"
  by (cases a; cases b) simp_all

end
