(* ===== verification/Task_Store.thy ===== *)
theory Task_Store
  imports Queue_Domain
begin

text \<open>
  The database tables the task lane reads and writes, as one record: the task rows
  (\<^verbatim>\<open>tasks/models.py\<close>), the project status the gate reads (\<^verbatim>\<open>projects/records.py\<close>), the single
  row of \<^verbatim>\<open>deploy_maintenance\<close>, and the three tables of \<^verbatim>\<open>tasks/queueing/models.py\<close>. A
  transaction is one function on the record: it returns the new record, or an error and
  nothing is written. \<open>row_ok\<close> and \<open>budget_row_ok\<close> are the CHECK constraints of the tables.
\<close>

section \<open>Rows\<close>

record TaskRow =
  t_project_id :: uuid
  t_state :: TaskState
  t_attempt :: int
  t_retry_count :: int

datatype ProjectStatus = ProjectStatus_ACTIVE | ProjectStatus_ARCHIVED
  | ProjectStatus_PENDING_DELETION | ProjectStatus_DELETED

record QueueEntryRow = QueueEntry +
  priority_rank :: int

record BudgetUsageRow =
  b_preset :: BudgetPreset
  b_consumed :: int
  b_limit :: "int option"
  running_since :: "instant option"
  runtime_generation :: int
  settled_through :: "instant option"

record FailureSignatureRow =
  fs_seq :: int
  fs_task_id :: uuid
  fs_attempt :: int
  fs_approach :: int
  fs_signature :: pystr

record store =
  tasks :: "uuid \<rightharpoonup> TaskRow"
  projects :: "uuid \<rightharpoonup> ProjectStatus"
  maintenance :: bool
  entries :: "QueueEntryRow list"
  next_entry_id :: int
  budgets :: "uuid \<Rightarrow> BudgetKind \<Rightarrow> BudgetUsageRow option"
  failures :: "FailureSignatureRow list"
  next_seq :: int

section \<open>Constraints\<close>

definition active_entry :: "QueueEntryRow \<Rightarrow> bool" where
  "active_entry r \<longleftrightarrow> status r \<in> ACTIVE_QUEUE_STATUSES"

definition row_ok :: "QueueEntryRow \<Rightarrow> bool" where
  "row_ok r \<longleftrightarrow>
     priority_rank r = priority_rank_of (priority r)
     \<and> 0 \<le> claim_count r \<and> claim_count r \<le> MAX_CLAIM_COUNT
     \<and> (status r = QueueStatus_CLAIMED \<longleftrightarrow> lease_expires_at r \<noteq> None)
     \<and> (status r = QueueStatus_CLAIMED \<longrightarrow> claimed_by r \<noteq> None \<and> claimed_at r \<noteq> None)
     \<and> (status r = QueueStatus_QUEUED \<longrightarrow> claimed_by r = None \<and> claimed_at r = None)
     \<and> (\<forall>l c. lease_expires_at r = Some l \<longrightarrow> claimed_at r = Some c \<longrightarrow> c < l)
     \<and> (status r \<in> {QueueStatus_COMPLETED, QueueStatus_CANCELLED} \<longleftrightarrow> finished_at r \<noteq> None)"

text \<open>
  The queue table: primary key, foreign key, the CHECKs and the unique partial index
  (one active entry per task).
\<close>

definition queue_wf :: "store \<Rightarrow> bool" where
  "queue_wf s \<longleftrightarrow>
     distinct (map e_id (entries s))
     \<and> list_all (\<lambda>r. row_ok r \<and> e_id r < next_entry_id s \<and> task_id r \<in> dom (tasks s)) (entries s)
     \<and> distinct (map task_id (filter active_entry (entries s)))"

definition budget_row_ok :: "BudgetKind \<Rightarrow> BudgetUsageRow \<Rightarrow> bool" where
  "budget_row_ok k r \<longleftrightarrow>
     0 \<le> b_consumed r \<and> b_consumed r \<le> MAX_CONSUMED
     \<and> (\<forall>l. b_limit r = Some l \<longrightarrow> 0 \<le> l \<and> l \<le> MAX_LIMIT)
     \<and> (b_preset r = UNLIMITED \<longleftrightarrow> b_limit r = None)
     \<and> (running_since r \<noteq> None \<longrightarrow> k = RUNTIME_SECONDS)
     \<and> 0 \<le> runtime_generation r \<and> (k = RUNTIME_SECONDS \<or> runtime_generation r = 0)
     \<and> (settled_through r \<noteq> None \<longrightarrow> k = RUNTIME_SECONDS)
     \<and> (\<forall>a b. running_since r = Some a \<longrightarrow> settled_through r = Some b \<longrightarrow> b \<le> a)"

section \<open>Statements\<close>

text \<open>\<^verbatim>\<open>UPDATE ... WHERE p SET ...\<close>: the rows that match are rewritten in place.\<close>

definition update_where :: "('r \<Rightarrow> bool) \<Rightarrow> ('r \<Rightarrow> 'r) \<Rightarrow> 'r list \<Rightarrow> 'r list" where
  "update_where p f rows = map (\<lambda>r. if p r then f r else r) rows"

definition entry_row :: "int \<Rightarrow> QueueEntryRow list \<Rightarrow> QueueEntryRow option" where
  "entry_row i rows = find (\<lambda>r. e_id r = i) rows"

text \<open>\<^verbatim>\<open>ORDER BY key LIMIT 1\<close>.\<close>

definition first_by :: "('r \<Rightarrow> 'k::linorder) \<Rightarrow> 'r list \<Rightarrow> 'r option" where
  "first_by key rows = (case sort_key key rows of [] \<Rightarrow> None | r # _ \<Rightarrow> Some r)"

section \<open>The project state gate\<close>

text \<open>
  \<open>ProjectStateGate\<close> (\<^verbatim>\<open>projects/task_gate.py\<close>): \<open>require_active\<close> refuses a project that is
  not Active or unknown; \<open>active_condition\<close> is the same test as a condition of the claim.
\<close>

definition active_condition :: "store \<Rightarrow> uuid \<Rightarrow> bool" where
  "active_condition s pid \<longleftrightarrow> projects s pid = Some ProjectStatus_ACTIVE"

definition require_active :: "store \<Rightarrow> uuid \<Rightarrow> task_error + unit" where
  "require_active s pid =
     (if projects s pid \<noteq> Some ProjectStatus_ACTIVE then Inl ProjectNotActiveError else Inr ())"

section \<open>Facts\<close>

lemma first_by_None [simp]: "first_by key rows = None \<longleftrightarrow> rows = []"
proof -
  have "sort_key key rows = [] \<longleftrightarrow> rows = []"
    by (metis length_0_conv length_sort)
  then show ?thesis by (auto simp: first_by_def split: list.splits)
qed

lemma first_by_Nil [simp]: "first_by key [] = None"
  by simp

lemma first_by_Some:
  assumes "first_by key rows = Some r"
  shows "r \<in> set rows" and "\<forall>x \<in> set rows. key r \<le> key x"
proof -
  from assms obtain rest where sorted: "sort_key key rows = r # rest"
    by (auto simp: first_by_def split: list.splits)
  have "set (sort_key key rows) = set rows" by simp
  with sorted have set: "set rows = insert r (set rest)" by simp
  then show "r \<in> set rows" by simp
  from sorted_sort_key [of key rows] sorted have "\<forall>x \<in> set rest. key r \<le> key x" by simp
  with set show "\<forall>x \<in> set rows. key r \<le> key x" by simp
qed

lemma entry_row_in: "entry_row i rows = Some r \<Longrightarrow> r \<in> set rows \<and> e_id r = i"
  by (auto simp: entry_row_def find_Some_iff)

lemma entry_row_unique:
  "distinct (map e_id rows) \<Longrightarrow> r \<in> set rows \<Longrightarrow> entry_row (e_id r) rows = Some r"
  by (induction rows) (auto simp: entry_row_def)

lemma entry_row_append:
  "entry_row i (rows @ [r]) =
     (case entry_row i rows of Some x \<Rightarrow> Some x | None \<Rightarrow> if e_id r = i then Some r else None)"
  by (induction rows) (auto simp: entry_row_def)

lemma entry_row_update:
  assumes "\<And>r. e_id (f r) = e_id r"
  shows "entry_row i (update_where p f rows) =
    map_option (\<lambda>r. if p r then f r else r) (entry_row i rows)"
  using assms by (induction rows) (auto simp: entry_row_def update_where_def)

lemma set_update_where: "set (update_where p f rows) = (\<lambda>r. if p r then f r else r) ` set rows"
  by (simp add: update_where_def)

lemma map_e_id_update:
  "(\<And>r. e_id (f r) = e_id r) \<Longrightarrow> map e_id (update_where p f rows) = map e_id rows"
  by (induction rows) (auto simp: update_where_def)

lemma active_distinct_update:
  assumes "distinct (map task_id (filter active_entry rows))"
    and "\<And>r. r \<in> set rows \<Longrightarrow> p r \<Longrightarrow> task_id (f r) = task_id r \<and> (active_entry (f r) \<longrightarrow> active_entry r)"
  shows "distinct (map task_id (filter active_entry (update_where p f rows)))"
proof -
  have sub: "set (map task_id (filter active_entry (update_where p f rs)))
      \<subseteq> set (map task_id (filter active_entry rs))" if "set rs \<subseteq> set rows" for rs
    using assms(2) that by (fastforce simp: update_where_def)
  have "distinct (map task_id (filter active_entry (update_where p f rs)))"
    if "distinct (map task_id (filter active_entry rs))" "set rs \<subseteq> set rows" for rs
    using that
  proof (induction rs)
    case Nil
    then show ?case by (simp add: update_where_def)
  next
    case (Cons r rs)
    from Cons.prems sub [of rs] have "task_id r \<in> set (map task_id (filter active_entry
        (update_where p f rs))) \<Longrightarrow> \<not> active_entry r"
      by (auto split: if_splits)
    moreover from Cons have "distinct (map task_id (filter active_entry (update_where p f rs)))"
      by (auto split: if_splits)
    moreover have "p r \<Longrightarrow> task_id (f r) = task_id r \<and> (active_entry (f r) \<longrightarrow> active_entry r)"
      using Cons.prems(2) assms(2) by auto
    ultimately show ?case
      by (auto simp: update_where_def)
  qed
  with assms(1) show ?thesis by blast
qed

text \<open>
  An update of the queue table keeps the table's constraints when every rewritten row
  keeps its keys and its CHECKs and is not made active.
\<close>

lemma queue_wf_update:
  assumes wf: "queue_wf s"
    and ids: "\<And>r. e_id (f r) = e_id r" "\<And>r. task_id (f r) = task_id r"
    and ok: "\<And>r. r \<in> set (entries s) \<Longrightarrow> p r \<Longrightarrow> row_ok r \<Longrightarrow> row_ok (f r)"
    and act: "\<And>r. r \<in> set (entries s) \<Longrightarrow> p r \<Longrightarrow> active_entry (f r) \<Longrightarrow> active_entry r"
  shows "queue_wf (s\<lparr>entries := update_where p f (entries s)\<rparr>)"
proof -
  have "distinct (map task_id (filter active_entry (update_where p f (entries s))))"
    using wf ids act by (intro active_distinct_update) (auto simp: queue_wf_def)
  with wf ids ok show ?thesis
    by (auto simp: queue_wf_def map_e_id_update list_all_iff set_update_where)
qed

lemma queue_wf_row: "queue_wf s \<Longrightarrow> r \<in> set (entries s) \<Longrightarrow> row_ok r"
  by (simp add: queue_wf_def list_all_iff)

lemma active_unique:
  assumes "queue_wf s" and "r \<in> set (entries s)" "r' \<in> set (entries s)"
    and "active_entry r" "active_entry r'" and "task_id r = task_id r'"
  shows "r = r'"
  using assms unfolding queue_wf_def
  by (auto simp: distinct_map inj_on_def)

end
