(* ===== verification/Task_Queue.thy ===== *)
theory Task_Queue
  imports Task_Store "HOL-Library.Product_Lexorder"
begin

text \<open>
  The task queue (\<^verbatim>\<open>paw_backend/tasks/queueing/task_queue.py\<close>): priority order, leases with a
  fencing token (\<open>claim_count\<close>), the project gate and the update maintenance.

  Each method is one transaction. The readings of the database clock are arguments, one per
  statement that reads it (\<open>clock\<close>; \<open>claim_next\<close> has two), and nothing is assumed about
  them: two readings may be equal or go backwards. \<open>locked\<close> is the set of entries other
  transactions hold locked when the claim runs (\<^verbatim>\<open>FOR UPDATE SKIP LOCKED\<close>).
\<close>

section \<open>Configuration and clock\<close>

record TaskQueue =
  lease_seconds :: int
  allow_explicit_now :: bool

definition TaskQueue_init :: "pyval \<Rightarrow> pyval \<Rightarrow> bool \<Rightarrow> task_error + TaskQueue" where
  "TaskQueue_init lease explicit gate_ok =
     rbind (check_int ''lease_seconds'' lease 1 MAX_LEASE_SECONDS) (\<lambda>l.
     rbind (check_bool ''allow_explicit_now'' explicit) (\<lambda>e.
     rbind (require gate_ok (InvalidQueueingArgumentError ''project_gate'')) (\<lambda>_.
       Inr \<lparr>lease_seconds = l, allow_explicit_now = e\<rparr>)))"

definition queue_ok :: "TaskQueue \<Rightarrow> bool" where
  "queue_ok q \<longleftrightarrow> 1 \<le> lease_seconds q \<and> lease_seconds q \<le> MAX_LEASE_SECONDS"

definition lease :: "TaskQueue \<Rightarrow> int" where
  "lease q = lease_seconds q * 1000000"

text \<open>The current instant and the end of a lease granted now (\<^verbatim>\<open>_instants\<close>).\<close>

definition instants ::
  "TaskQueue \<Rightarrow> instant arg option \<Rightarrow> instant \<Rightarrow> task_error + instant \<times> instant" where
  "instants q now clock =
     (case now of
        None \<Rightarrow> Inr (clock, clock + lease q)
      | Some v \<Rightarrow>
          if \<not> allow_explicit_now q then reject ''now''
          else rbind (check_now ''now'' v) (\<lambda>t. Inr (t, t + lease q)))"

section \<open>Enqueue\<close>

definition entry_of :: "QueueEntryRow \<Rightarrow> QueueEntry" where
  "entry_of r = QueueEntry.truncate r"

definition require_active_project :: "store \<Rightarrow> uuid \<Rightarrow> task_error + unit" where
  "require_active_project s tid =
     (case tasks s tid of
        None \<Rightarrow> Inl TaskNotFoundError
      | Some t \<Rightarrow> require_active s (t_project_id t))"

definition new_row :: "int \<Rightarrow> uuid \<Rightarrow> Priority \<Rightarrow> instant \<Rightarrow> QueueEntryRow" where
  "new_row i tid prio current =
     \<lparr>e_id = i, task_id = tid, priority = prio, status = QueueStatus_QUEUED,
      enqueued_at = current, claimed_by = None, claimed_at = None, lease_expires_at = None,
      claim_count = 0, finished_at = None, priority_rank = priority_rank_of prio\<rparr>"

text \<open>
  The insert with the two constraints it can violate: the foreign key to the task
  (\<open>TaskNotFoundError\<close>) and the unique index of active entries (\<open>TaskAlreadyQueuedError\<close>).
\<close>

definition insert_entry :: "store \<Rightarrow> uuid \<Rightarrow> Priority \<Rightarrow> instant \<Rightarrow> task_error + QueueEntry \<times> store" where
  "insert_entry s tid prio current =
     (if tasks s tid = None then Inl TaskNotFoundError
      else if list_ex (\<lambda>r. task_id r = tid \<and> active_entry r) (entries s)
      then Inl TaskAlreadyQueuedError
      else
        (let r = new_row (next_entry_id s) tid prio current
         in Inr (entry_of r,
                 s\<lparr>entries := entries s @ [r], next_entry_id := next_entry_id s + 1\<rparr>)))"

definition enqueue_core ::
  "TaskQueue \<Rightarrow> store \<Rightarrow> uuid \<Rightarrow> instant arg option \<Rightarrow> Priority \<Rightarrow> instant
     \<Rightarrow> task_error + QueueEntry \<times> store" where
  "enqueue_core q s tid now prio clock =
     rbind (instants q now clock) (\<lambda>(current, _).
     rbind (require_active_project s tid) (\<lambda>_.
       insert_entry s tid prio current))"

definition enqueue ::
  "TaskQueue \<Rightarrow> store \<Rightarrow> pyval \<Rightarrow> instant arg option \<Rightarrow> Priority arg \<Rightarrow> instant
     \<Rightarrow> task_error + QueueEntry \<times> store" where
  "enqueue q s tid now prio clock =
     rbind (check_uuid ''task_id'' tid) (\<lambda>t.
     rbind (check_member ''priority'' prio) (\<lambda>p.
       enqueue_core q s t now p clock))"

definition enqueue_in ::
  "TaskQueue \<Rightarrow> bool \<Rightarrow> store \<Rightarrow> pyval \<Rightarrow> instant arg option \<Rightarrow> Priority arg \<Rightarrow> instant
     \<Rightarrow> task_error + QueueEntry \<times> store" where
  "enqueue_in q in_transaction s tid now prio clock =
     rbind (check_session ''session'' in_transaction) (\<lambda>_. enqueue q s tid now prio clock)"

section \<open>Claim\<close>

definition claimable :: "instant \<Rightarrow> QueueEntryRow \<Rightarrow> bool" where
  "claimable current r \<longleftrightarrow>
     status r = QueueStatus_QUEUED
     \<or> (status r = QueueStatus_CLAIMED
        \<and> (case lease_expires_at r of None \<Rightarrow> False | Some l \<Rightarrow> l \<le> current))"

definition project_active :: "store \<Rightarrow> QueueEntryRow \<Rightarrow> bool" where
  "project_active s r =
     (case tasks s (task_id r) of None \<Rightarrow> False | Some t \<Rightarrow> active_condition s (t_project_id t))"

definition claim_key :: "QueueEntryRow \<Rightarrow> int \<times> instant \<times> int" where
  "claim_key r = (priority_rank r, enqueued_at r, e_id r)"

definition candidates :: "store \<Rightarrow> instant \<Rightarrow> (int \<Rightarrow> bool) \<Rightarrow> QueueEntryRow list" where
  "candidates s current locked =
     filter (\<lambda>r. claimable current r \<and> project_active s r \<and> \<not> locked (e_id r)) (entries s)"

definition best_first :: "store \<Rightarrow> instant \<Rightarrow> (int \<Rightarrow> bool) \<Rightarrow> int option" where
  "best_first s current locked = map_option e_id (first_by claim_key (candidates s current locked))"

definition claim_row :: "pystr \<Rightarrow> instant \<Rightarrow> instant \<Rightarrow> QueueEntryRow \<Rightarrow> QueueEntryRow" where
  "claim_row worker current lease_end r =
     r\<lparr>status := QueueStatus_CLAIMED, claimed_by := Some worker, claimed_at := Some current,
       lease_expires_at := Some lease_end, claim_count := claim_count r + 1\<rparr>"

definition claim_next_core ::
  "TaskQueue \<Rightarrow> store \<Rightarrow> pystr \<Rightarrow> instant \<Rightarrow> instant \<times> instant \<Rightarrow> (int \<Rightarrow> bool)
     \<Rightarrow> task_error + QueueEntry option \<times> store" where
  "claim_next_core q s worker select_now stamp locked =
     (if maintenance s then Inr (None, s)
      else
        (case best_first s select_now locked of
           None \<Rightarrow> Inr (None, s)
         | Some i \<Rightarrow>
             (case entry_row i (entries s) of
                None \<Rightarrow> Inr (None, s)
              | Some r \<Rightarrow>
                  if MAX_CLAIM_COUNT \<le> claim_count r then Inl NumericValueOutOfRange
                  else
                    Inr (Some (entry_of (claim_row worker (fst stamp) (snd stamp) r)),
                         s\<lparr>entries := update_where (\<lambda>x. e_id x = i)
                             (claim_row worker (fst stamp) (snd stamp)) (entries s)\<rparr>))))"

text \<open>\<open>clock1\<close> is read by the statement that selects, \<open>clock2\<close> by the one that updates.\<close>

definition claim_next ::
  "TaskQueue \<Rightarrow> store \<Rightarrow> pyval \<Rightarrow> instant arg option \<Rightarrow> instant \<Rightarrow> instant \<Rightarrow> (int \<Rightarrow> bool)
     \<Rightarrow> task_error + QueueEntry option \<times> store" where
  "claim_next q s worker now clock1 clock2 locked =
     rbind (check_worker_id worker) (\<lambda>w.
     rbind (instants q now clock1) (\<lambda>(select_now, _).
     rbind (instants q now clock2) (\<lambda>stamp.
       claim_next_core q s w select_now stamp locked)))"

section \<open>Operations of the lease holder\<close>

definition holds :: "int \<Rightarrow> pystr \<Rightarrow> int \<Rightarrow> instant \<Rightarrow> QueueEntryRow \<Rightarrow> bool" where
  "holds i worker count current r \<longleftrightarrow>
     e_id r = i \<and> status r = QueueStatus_CLAIMED \<and> claimed_by r = Some worker
     \<and> claim_count r = count
     \<and> (case lease_expires_at r of None \<Rightarrow> False | Some l \<Rightarrow> current < l)"

definition update_held_in ::
  "store \<Rightarrow> int \<Rightarrow> pystr \<Rightarrow> int \<Rightarrow> instant \<Rightarrow> (QueueEntryRow \<Rightarrow> QueueEntryRow)
     \<Rightarrow> task_error + QueueEntry \<times> store" where
  "update_held_in s i worker count current f =
     (case entry_row i (entries s) of
        None \<Rightarrow> Inl LeaseLostError
      | Some r \<Rightarrow>
          if holds i worker count current r
          then Inr (entry_of (f r),
                    s\<lparr>entries := update_where (holds i worker count current) f (entries s)\<rparr>)
          else Inl LeaseLostError)"

definition extend_row :: "instant \<Rightarrow> QueueEntryRow \<Rightarrow> QueueEntryRow" where
  "extend_row lease_end r =
     r\<lparr>lease_expires_at :=
         Some (case lease_expires_at r of None \<Rightarrow> lease_end | Some l \<Rightarrow> max l lease_end)\<rparr>"

definition release_row :: "QueueEntryRow \<Rightarrow> QueueEntryRow" where
  "release_row r =
     r\<lparr>status := QueueStatus_QUEUED, claimed_by := None, claimed_at := None,
       lease_expires_at := None\<rparr>"

definition complete_row :: "instant \<Rightarrow> QueueEntryRow \<Rightarrow> QueueEntryRow" where
  "complete_row current r =
     r\<lparr>status := QueueStatus_COMPLETED, finished_at := Some current, lease_expires_at := None\<rparr>"

text \<open>The argument checks and the clock that the four operations share.\<close>

definition with_lease_args ::
  "TaskQueue \<Rightarrow> pyval \<Rightarrow> pyval \<Rightarrow> pyval \<Rightarrow> instant arg option \<Rightarrow> instant
     \<Rightarrow> (int \<Rightarrow> pystr \<Rightarrow> int \<Rightarrow> instant \<Rightarrow> instant \<Rightarrow> task_error + 'b) \<Rightarrow> task_error + 'b" where
  "with_lease_args q i w c now clock body =
     rbind (check_entry_id i) (\<lambda>i'.
     rbind (check_worker_id w) (\<lambda>w'.
     rbind (check_claim_count c) (\<lambda>c'.
     rbind (instants q now clock) (\<lambda>(current, lease_end).
       body i' w' c' current lease_end))))"

definition heartbeat ::
  "TaskQueue \<Rightarrow> store \<Rightarrow> pyval \<Rightarrow> pyval \<Rightarrow> pyval \<Rightarrow> instant arg option \<Rightarrow> instant
     \<Rightarrow> task_error + QueueEntry \<times> store" where
  "heartbeat q s i w c now clock =
     with_lease_args q i w c now clock (\<lambda>i' w' c' current lease_end.
       update_held_in s i' w' c' current (extend_row lease_end))"

definition heartbeat_in ::
  "TaskQueue \<Rightarrow> bool \<Rightarrow> store \<Rightarrow> pyval \<Rightarrow> pyval \<Rightarrow> pyval \<Rightarrow> instant arg option \<Rightarrow> instant
     \<Rightarrow> task_error + QueueEntry \<times> store" where
  "heartbeat_in q in_transaction s i w c now clock =
     rbind (check_session ''session'' in_transaction) (\<lambda>_. heartbeat q s i w c now clock)"

definition release ::
  "TaskQueue \<Rightarrow> store \<Rightarrow> pyval \<Rightarrow> pyval \<Rightarrow> pyval \<Rightarrow> instant arg option \<Rightarrow> instant
     \<Rightarrow> task_error + QueueEntry \<times> store" where
  "release q s i w c now clock =
     with_lease_args q i w c now clock (\<lambda>i' w' c' current _.
       update_held_in s i' w' c' current release_row)"

definition complete ::
  "TaskQueue \<Rightarrow> store \<Rightarrow> pyval \<Rightarrow> pyval \<Rightarrow> pyval \<Rightarrow> instant arg option \<Rightarrow> instant
     \<Rightarrow> task_error + QueueEntry \<times> store" where
  "complete q s i w c now clock =
     with_lease_args q i w c now clock (\<lambda>i' w' c' current _.
       update_held_in s i' w' c' current (complete_row current))"

definition NEEDS_A_WORKER :: "TaskState set" where
  "NEEDS_A_WORKER = {TaskState_QUEUED, TaskState_RUNNING}"

definition needs_worker :: "store \<Rightarrow> uuid \<Rightarrow> bool" where
  "needs_worker s tid =
     (case tasks s tid of None \<Rightarrow> False | Some t \<Rightarrow> t_state t \<in> NEEDS_A_WORKER)"

definition finish ::
  "TaskQueue \<Rightarrow> store \<Rightarrow> pyval \<Rightarrow> pyval \<Rightarrow> pyval \<Rightarrow> instant arg option \<Rightarrow> instant
     \<Rightarrow> task_error + QueueEntry \<times> store" where
  "finish q s i w c now clock =
     with_lease_args q i w c now clock (\<lambda>i' w' c' current _.
       case entry_row i' (entries s) of
         None \<Rightarrow> Inl LeaseLostError
       | Some r \<Rightarrow>
           update_held_in s i' w' c' current
             (if needs_worker s (task_id r) then release_row else complete_row current))"

definition holds_lease ::
  "TaskQueue \<Rightarrow> store \<Rightarrow> pyval \<Rightarrow> QueueLease arg \<Rightarrow> instant arg option \<Rightarrow> instant
     \<Rightarrow> task_error + bool" where
  "holds_lease q s tid l now clock =
     rbind (check_uuid ''task_id'' tid) (\<lambda>t.
     rbind (check_member ''lease'' l) (\<lambda>l'.
     rbind (instants q now clock) (\<lambda>(current, _).
       Inr (list_ex (\<lambda>r. task_id r = t
              \<and> holds (l_entry_id l') (l_worker_id l') (l_claim_count l') current r)
            (entries s)))))"

section \<open>Cancel\<close>

definition task_terminal :: "store \<Rightarrow> uuid \<Rightarrow> bool" where
  "task_terminal s tid =
     (case tasks s tid of None \<Rightarrow> False | Some t \<Rightarrow> t_state t \<in> TERMINAL_STATES)"

definition cancel_row :: "instant \<Rightarrow> QueueEntryRow \<Rightarrow> QueueEntryRow" where
  "cancel_row current r =
     r\<lparr>status := QueueStatus_CANCELLED, finished_at := Some current, lease_expires_at := None\<rparr>"

definition cancel_core :: "store \<Rightarrow> uuid \<Rightarrow> instant \<Rightarrow> bool \<Rightarrow> bool \<times> store" where
  "cancel_core s tid current only_if_terminal =
     (if only_if_terminal \<and> \<not> task_terminal s tid then (False, s)
      else
        (let hit = (\<lambda>r. task_id r = tid \<and> active_entry r)
         in (list_ex hit (entries s),
             s\<lparr>entries := update_where hit (cancel_row current) (entries s)\<rparr>)))"

definition cancel ::
  "TaskQueue \<Rightarrow> store \<Rightarrow> pyval \<Rightarrow> instant arg option \<Rightarrow> pyval \<Rightarrow> instant
     \<Rightarrow> task_error + bool \<times> store" where
  "cancel q s tid now only_if_terminal clock =
     rbind (check_uuid ''task_id'' tid) (\<lambda>t.
     rbind (check_bool ''only_if_task_terminal'' only_if_terminal) (\<lambda>b.
     rbind (instants q now clock) (\<lambda>(current, _). Inr (cancel_core s t current b))))"

definition cancel_in ::
  "TaskQueue \<Rightarrow> bool \<Rightarrow> store \<Rightarrow> pyval \<Rightarrow> instant arg option \<Rightarrow> pyval \<Rightarrow> instant
     \<Rightarrow> task_error + bool \<times> store" where
  "cancel_in q in_transaction s tid now only_if_terminal clock =
     rbind (check_session ''session'' in_transaction) (\<lambda>_. cancel q s tid now only_if_terminal clock)"

section \<open>Runs of the queue\<close>

text \<open>
  One transaction of the queue, or a change by the rest of the backend: commands change
  the tasks' states (no task row is ever deleted), projects change status, a maintenance
  begins or ends, the other tables change. \<open>t0\<close> is a lower bound of every clock reading
  (production queues: no explicit \<open>now\<close>).
\<close>

inductive qstep :: "TaskQueue \<Rightarrow> instant \<Rightarrow> store \<Rightarrow> store \<Rightarrow> bool" for q t0 where
  enq: "t0 \<le> clock \<Longrightarrow> enqueue q s tid None prio clock = Inr (e, s') \<Longrightarrow> qstep q t0 s s'"
| claim: "t0 \<le> clock1 \<Longrightarrow> t0 \<le> clock2
     \<Longrightarrow> claim_next q s w None clock1 clock2 locked = Inr (oe, s') \<Longrightarrow> qstep q t0 s s'"
| beat: "t0 \<le> clock \<Longrightarrow> heartbeat q s i w c None clock = Inr (e, s') \<Longrightarrow> qstep q t0 s s'"
| rel: "t0 \<le> clock \<Longrightarrow> release q s i w c None clock = Inr (e, s') \<Longrightarrow> qstep q t0 s s'"
| comp: "t0 \<le> clock \<Longrightarrow> complete q s i w c None clock = Inr (e, s') \<Longrightarrow> qstep q t0 s s'"
| fin: "t0 \<le> clock \<Longrightarrow> finish q s i w c None clock = Inr (e, s') \<Longrightarrow> qstep q t0 s s'"
| canc: "t0 \<le> clock \<Longrightarrow> cancel q s tid None b clock = Inr (ok, s') \<Longrightarrow> qstep q t0 s s'"
| env: "dom (tasks s) \<subseteq> dom ts
     \<Longrightarrow> qstep q t0 s (s\<lparr>tasks := ts, projects := ps, maintenance := m, budgets := bs,
                        failures := fs, next_seq := n\<rparr>)"

inductive_cases qstepE: "qstep q t0 s s'"

section \<open>What a successful call did\<close>

lemma instants_None [simp]: "instants q None clock = Inr (clock, clock + lease q)"
  by (simp add: instants_def)

lemma enqueue_InrD:
  assumes "enqueue q s tid None prio clock = Inr (e, s')"
  obtains t p where "tid = PyUuid t" and "prio = Inst p" and "tasks s t \<noteq> None"
    and "\<not> (\<exists>r \<in> set (entries s). task_id r = t \<and> active_entry r)"
    and "e = entry_of (new_row (next_entry_id s) t p clock)"
    and "s' = s\<lparr>entries := entries s @ [new_row (next_entry_id s) t p clock],
               next_entry_id := next_entry_id s + 1\<rparr>"
  using assms
  by (auto simp: enqueue_def enqueue_core_def insert_entry_def Let_def rbind_eq_Inr_iff
        check_iffs list_ex_iff split: if_splits prod.splits)

lemma best_first_Some:
  assumes "best_first s now locked = Some i"
  obtains r where "r \<in> set (candidates s now locked)" and "e_id r = i"
    and "\<forall>x \<in> set (candidates s now locked). claim_key r \<le> claim_key x"
  using assms by (auto simp: best_first_def dest: first_by_Some)

lemma candidates_iff:
  "r \<in> set (candidates s now locked) \<longleftrightarrow>
     r \<in> set (entries s) \<and> claimable now r \<and> project_active s r \<and> \<not> locked (e_id r)"
  by (auto simp: candidates_def)

lemma claim_next_InrD:
  assumes "claim_next q s w None clock1 clock2 locked = Inr (oe, s')"
  obtains (nothing) "oe = None" and "s' = s"
    and "maintenance s \<or> candidates s clock1 locked = [] \<or> \<not> distinct (map e_id (entries s))"
  | (claimed) worker i r where "w = PyStr worker" and "worker_id_ok worker"
    and "\<not> maintenance s"
    and "best_first s clock1 locked = Some i" and "entry_row i (entries s) = Some r"
    and "claim_count r < MAX_CLAIM_COUNT"
    and "oe = Some (entry_of (claim_row worker clock2 (clock2 + lease q) r))"
    and "s' = s\<lparr>entries := update_where (\<lambda>x. e_id x = i)
                 (claim_row worker clock2 (clock2 + lease q)) (entries s)\<rparr>"
proof -
  from assms obtain worker where w: "w = PyStr worker" "worker_id_ok worker"
    and core: "claim_next_core q s worker clock1 (clock2, clock2 + lease q) locked = Inr (oe, s')"
    by (auto simp: claim_next_def rbind_eq_Inr_iff check_iffs)
  show ?thesis
  proof (cases "maintenance s")
    case True
    with core have "oe = None" "s' = s" by (simp_all add: claim_next_core_def)
    then show ?thesis by (rule nothing) (simp add: True)
  next
    case up: False
    show ?thesis
    proof (cases "best_first s clock1 locked")
      case None
      with core up have "oe = None" "s' = s" by (simp_all add: claim_next_core_def)
      moreover from None have "maintenance s \<or> candidates s clock1 locked = []
          \<or> \<not> distinct (map e_id (entries s))" by (simp add: best_first_def)
      ultimately show ?thesis by (rule nothing)
    next
      case (Some i)
      show ?thesis
      proof (cases "entry_row i (entries s)")
        case none: None
        from Some obtain r where "r \<in> set (candidates s clock1 locked)" "e_id r = i"
          by (rule best_first_Some)
        with none have dup: "\<not> distinct (map e_id (entries s))"
          by (auto simp: candidates_iff dest: entry_row_unique)
        from core up Some none have "oe = None" "s' = s"
          by (simp_all add: claim_next_core_def)
        then show ?thesis by (rule nothing) (simp add: dup)
      next
        case (Some r)
        note best = \<open>best_first s clock1 locked = Some i\<close>
        from core up best Some have "claim_count r < MAX_CLAIM_COUNT"
          and "oe = Some (entry_of (claim_row worker clock2 (clock2 + lease q) r))"
          and "s' = s\<lparr>entries := update_where (\<lambda>x. e_id x = i)
                 (claim_row worker clock2 (clock2 + lease q)) (entries s)\<rparr>"
          by (auto simp: claim_next_core_def split: if_splits)
        with w up best Some show ?thesis by (rule claimed)
      qed
    qed
  qed
qed

lemma update_held_InrD:
  assumes "update_held_in s i w c now f = Inr (e, s')"
  obtains r where "entry_row i (entries s) = Some r" and "holds i w c now r"
    and "e = entry_of (f r)"
    and "s' = s\<lparr>entries := update_where (holds i w c now) f (entries s)\<rparr>"
  using assms by (auto simp: update_held_in_def split: option.splits if_splits)

lemma with_lease_args_InrD:
  assumes "with_lease_args q i w c None clock body = Inr x"
  obtains i' w' c' where "i = PyInt i'" and "w = PyStr w'" and "c = PyInt c'"
    and "body i' w' c' clock (clock + lease q) = Inr x"
  using assms
  by (auto simp: with_lease_args_def rbind_eq_Inr_iff checks_by_int check_iffs)

text \<open>
  The row updates of the lease holder: \<open>held_change\<close> collects the three of them, for the
  lease end that the clock reading gives.
\<close>

inductive held_change :: "TaskQueue \<Rightarrow> instant \<Rightarrow> (QueueEntryRow \<Rightarrow> QueueEntryRow) \<Rightarrow> bool"
  for q clock where
  extend: "held_change q clock (extend_row (clock + lease q))"
| give_back: "held_change q clock release_row"
| done_with: "held_change q clock (complete_row clock)"

text \<open>A successful call of a lease holder: the row it held, and what became of it.\<close>

inductive held_step ::
  "TaskQueue \<Rightarrow> instant \<Rightarrow> store \<Rightarrow> int \<Rightarrow> pystr \<Rightarrow> int \<Rightarrow> QueueEntryRow \<Rightarrow> QueueEntry \<Rightarrow> store \<Rightarrow> bool"
  for q clock s i w c r where
  held: "held_change q clock f \<Longrightarrow> entry_row i (entries s) = Some r \<Longrightarrow> holds i w c clock r
     \<Longrightarrow> held_step q clock s i w c r (entry_of (f r))
           (s\<lparr>entries := update_where (holds i w c clock) f (entries s)\<rparr>)"

lemma update_held_step:
  assumes "update_held_in s i w c clock f = Inr (e, s')" and "held_change q clock f"
  shows "\<exists>r. held_step q clock s i w c r e s'"
  using assms(1) by (rule update_held_InrD) (auto intro: held_step.intros [OF assms(2)])

definition holder_call ::
  "TaskQueue \<Rightarrow> store \<Rightarrow> pyval \<Rightarrow> pyval \<Rightarrow> pyval \<Rightarrow> instant \<Rightarrow> QueueEntry \<Rightarrow> store \<Rightarrow> bool" where
  "holder_call q s i w c clock e s' \<longleftrightarrow>
     heartbeat q s i w c None clock = Inr (e, s') \<or> release q s i w c None clock = Inr (e, s')
     \<or> complete q s i w c None clock = Inr (e, s') \<or> finish q s i w c None clock = Inr (e, s')"

lemma holder_callD:
  assumes "holder_call q s i w c clock e s'"
  shows "\<exists>i' w' c' r. i = PyInt i' \<and> w = PyStr w' \<and> c = PyInt c'
     \<and> held_step q clock s i' w' c' r e s'"
proof -
  note change = held_change.intros [of q clock]
  from assms consider
    (beat) "heartbeat q s i w c None clock = Inr (e, s')"
  | (rel) "release q s i w c None clock = Inr (e, s')"
  | (comp) "complete q s i w c None clock = Inr (e, s')"
  | (fin) "finish q s i w c None clock = Inr (e, s')"
    unfolding holder_call_def by blast
  then show ?thesis
  proof cases
    case beat
    then show ?thesis unfolding heartbeat_def
      by (rule with_lease_args_InrD) (blast dest: update_held_step [OF _ change(1)])
  next
    case rel
    then show ?thesis unfolding release_def
      by (rule with_lease_args_InrD) (blast dest: update_held_step [OF _ change(2)])
  next
    case comp
    then show ?thesis unfolding complete_def
      by (rule with_lease_args_InrD) (blast dest: update_held_step [OF _ change(3)])
  next
    case fin
    have change': "held_change q clock (if b then release_row else complete_row clock)" for b
      using change by simp
    from fin show ?thesis unfolding finish_def
      by (rule with_lease_args_InrD)
        (auto split: option.splits dest: update_held_step [OF _ change'])
  qed
qed

section \<open>The table constraints are kept\<close>

lemma lease_pos: "queue_ok q \<Longrightarrow> 0 < lease q"
  by (simp add: queue_ok_def lease_def)

lemma row_ok_new: "row_ok (new_row i t p clock)"
  by (auto simp: row_ok_def new_row_def MAX_CLAIM_COUNT_def)

lemma row_ok_claim:
  "row_ok r \<Longrightarrow> claimable now r \<Longrightarrow> claim_count r < MAX_CLAIM_COUNT \<Longrightarrow> c < l
     \<Longrightarrow> row_ok (claim_row w c l r)"
  by (auto simp: row_ok_def claim_row_def claimable_def)

lemma row_ok_held:
  assumes "held_change q clock f" and "row_ok r" and "holds i w c now r"
  shows "row_ok (f r)"
  using assms
  by (cases rule: held_change.cases)
    (auto simp: row_ok_def holds_def extend_row_def release_row_def complete_row_def
      max_def split: option.splits)

lemma row_ok_cancel: "row_ok r \<Longrightarrow> active_entry r \<Longrightarrow> row_ok (cancel_row now r)"
  by (auto simp: row_ok_def cancel_row_def active_entry_def ACTIVE_QUEUE_STATUSES_def)

lemma held_change_keys:
  "held_change q clock f \<Longrightarrow> e_id (f r) = e_id r \<and> task_id (f r) = task_id r
     \<and> claim_count (f r) = claim_count r \<and> priority (f r) = priority r
     \<and> enqueued_at (f r) = enqueued_at r \<and> priority_rank (f r) = priority_rank r"
  by (auto elim: held_change.cases simp: extend_row_def release_row_def complete_row_def)

lemma claim_row_keys [simp]:
  "e_id (claim_row w c l r) = e_id r" "task_id (claim_row w c l r) = task_id r"
  "claim_count (claim_row w c l r) = claim_count r + 1"
  by (simp_all add: claim_row_def)

lemma cancel_row_keys [simp]:
  "e_id (cancel_row now r) = e_id r" "task_id (cancel_row now r) = task_id r"
  "claim_count (cancel_row now r) = claim_count r"
  by (simp_all add: cancel_row_def)

lemma holds_active: "holds i w c now r \<Longrightarrow> active_entry r"
  by (simp add: holds_def active_entry_def ACTIVE_QUEUE_STATUSES_def)

lemma claimable_active: "claimable now r \<Longrightarrow> active_entry r"
  by (auto simp: claimable_def active_entry_def ACTIVE_QUEUE_STATUSES_def)

lemma enqueue_wf:
  assumes wf: "queue_wf s" and run: "enqueue q s tid None prio clock = Inr (e, s')"
  shows "queue_wf s'"
  using run
proof (rule enqueue_InrD)
  fix t p
  assume new: "tasks s t \<noteq> None" "\<not> (\<exists>r \<in> set (entries s). task_id r = t \<and> active_entry r)"
    and s': "s' = s\<lparr>entries := entries s @ [new_row (next_entry_id s) t p clock],
               next_entry_id := next_entry_id s + 1\<rparr>"
  have "next_entry_id s \<notin> e_id ` set (entries s)"
    using wf by (auto simp: queue_wf_def list_all_iff)
  moreover have "e_id (new_row i t p clock) = i" "task_id (new_row i t p clock) = t" for i
    by (simp_all add: new_row_def)
  ultimately show ?thesis
    using wf new s' row_ok_new [of "next_entry_id s" t p clock]
    by (auto simp: queue_wf_def list_all_iff)
qed

lemma claim_next_wf:
  assumes q: "queue_ok q" and wf: "queue_wf s"
    and run: "claim_next q s w None clock1 clock2 locked = Inr (oe, s')"
  shows "queue_wf s'"
  using run
proof (cases rule: claim_next_InrD)
  case nothing
  with wf show ?thesis by simp
next
  case (claimed worker i r)
  have id: "x = r" if "x \<in> set (entries s)" "e_id x = i" for x
    using wf claimed(5) that entry_row_unique [of "entries s" x] by (auto simp: queue_wf_def)
  from claimed(4) obtain r' where "r' \<in> set (candidates s clock1 locked)" "e_id r' = i"
    by (rule best_first_Some)
  then have "r' \<in> set (entries s)" "e_id r' = i" "claimable clock1 r'"
    by (simp_all add: candidates_iff)
  with id have cl: "claimable clock1 r" by blast
  show ?thesis
    unfolding claimed(8)
  proof (rule queue_wf_update [OF wf])
    fix x assume "x \<in> set (entries s)" "e_id x = i" "row_ok x"
    with id cl claimed(6) lease_pos [OF q] show "row_ok (claim_row worker clock2 (clock2 + lease q) x)"
      by (auto intro: row_ok_claim)
  next
    fix x assume "x \<in> set (entries s)" "e_id x = i"
    with id cl show "active_entry x" by (auto dest: claimable_active)
  qed simp_all
qed

lemma held_step_wf:
  assumes "held_step q clock s i w c r e s'" and wf: "queue_wf s"
  shows "queue_wf s'"
  using assms(1)
proof cases
  case (held f)
  then show ?thesis
    by (auto intro!: queue_wf_update [OF wf] simp: held_change_keys intro: row_ok_held
          dest: holds_active)
qed

lemma cancel_wf:
  assumes wf: "queue_wf s" and run: "cancel q s tid None b clock = Inr (ok, s')"
  shows "queue_wf s'"
proof -
  from run obtain t b' where "cancel_core s t clock b' = (ok, s')"
    by (auto simp: cancel_def rbind_eq_Inr_iff check_iffs)
  moreover have "queue_wf (s\<lparr>entries := update_where (\<lambda>r. task_id r = t \<and> active_entry r)
      (cancel_row clock) (entries s)\<rparr>)"
    by (intro queue_wf_update [OF wf]) (auto intro: row_ok_cancel)
  ultimately show ?thesis
    using wf by (auto simp: cancel_core_def Let_def split: if_splits)
qed

definition queue_inv :: "TaskQueue \<Rightarrow> store \<Rightarrow> bool" where
  "queue_inv q s \<longleftrightarrow> queue_ok q \<and> queue_wf s"

interpretation queue_run: preserved "qstep q t0" "queue_inv q" for q t0
proof
  fix s s' assume step: "qstep q t0 s s'" and inv: "queue_inv q s"
  then have q: "queue_ok q" and wf: "queue_wf s" by (simp_all add: queue_inv_def)
  have "queue_wf s'"
    using step
  proof (cases rule: qstep.cases)
    case enq
    with wf show ?thesis by (blast intro: enqueue_wf)
  next
    case claim
    with q wf show ?thesis by (blast intro: claim_next_wf)
  next
    case canc
    with wf show ?thesis by (blast intro: cancel_wf)
  next
    case env
    with wf show ?thesis by (fastforce simp: queue_wf_def list_all_iff)
  next
    case (beat clock i w c e)
    then have "holder_call q s i w c clock e s'" by (simp add: holder_call_def)
    with wf show ?thesis by (blast dest: holder_callD held_step_wf)
  next
    case (rel clock i w c e)
    then have "holder_call q s i w c clock e s'" by (simp add: holder_call_def)
    with wf show ?thesis by (blast dest: holder_callD held_step_wf)
  next
    case (comp clock i w c e)
    then have "holder_call q s i w c clock e s'" by (simp add: holder_call_def)
    with wf show ?thesis by (blast dest: holder_callD held_step_wf)
  next
    case (fin clock i w c e)
    then have "holder_call q s i w c clock e s'" by (simp add: holder_call_def)
    with wf show ?thesis by (blast dest: holder_callD held_step_wf)
  qed
  with q show "queue_inv q s'" by (simp add: queue_inv_def)
qed

section \<open>Fencing\<close>

text \<open>The claim generation of an entry: its \<open>claim_count\<close>, or -1 before it exists.\<close>

definition generation :: "int \<Rightarrow> store \<Rightarrow> int" where
  "generation i s = (case entry_row i (entries s) of None \<Rightarrow> -1 | Some r \<Rightarrow> claim_count r)"

lemma generation_update_where:
  assumes "\<And>r. e_id (f r) = e_id r" and "\<And>r. claim_count r \<le> claim_count (f r)"
  shows "generation i s \<le> generation i (s\<lparr>entries := update_where p f (entries s)\<rparr>)"
  using assms by (auto simp: generation_def entry_row_update split: option.splits)

lemma generation_append:
  "-1 \<le> claim_count r
     \<Longrightarrow> generation i s \<le> generation i (s\<lparr>entries := entries s @ [r], next_entry_id := n\<rparr>)"
  by (auto simp: generation_def entry_row_append split: option.splits)

lemma holder_call_generation:
  assumes "holder_call q s i w c clock e s'"
  shows "generation j s \<le> generation j s'"
  using holder_callD [OF assms]
  by (auto elim!: held_step.cases intro!: generation_update_where simp: held_change_keys)

interpretation queue_fence: fencing "qstep q t0" "generation i" for q t0 i
proof
  fix s s' assume "qstep q t0 s s'"
  then show "generation i s \<le> generation i s'"
  proof (cases rule: qstep.cases)
    case enq
    from enq(2) show ?thesis
      by (rule enqueue_InrD) (simp add: generation_append new_row_def)
  next
    case claim
    from claim(3) show ?thesis
      by (cases rule: claim_next_InrD) (simp_all add: generation_update_where)
  next
    case canc
    then obtain t b' clock ok' where "cancel_core s t clock b' = (ok', s')"
      by (auto simp: cancel_def rbind_eq_Inr_iff check_iffs)
    then show ?thesis
      by (auto simp: cancel_core_def Let_def intro!: generation_update_where split: if_splits)
  next
    case env
    then show ?thesis by (simp add: generation_def)
  qed (auto intro: holder_call_generation simp: holder_call_def)
qed

text \<open>What a holder can do is decided by the row of its entry.\<close>

lemma update_held_lost:
  "(\<And>r. entry_row i (entries s) = Some r \<Longrightarrow> \<not> holds i w c now r)
     \<Longrightarrow> update_held_in s i w c now f = Inl LeaseLostError"
  by (simp add: update_held_in_def split: option.splits)

lemma holds_generation:
  "entry_row i (entries s) = Some r \<Longrightarrow> holds i w c now r \<Longrightarrow> generation i s = c"
  by (simp add: generation_def holds_def)

text \<open>The four operations of a lease holder, called with the fields of a lease.\<close>

definition lease_calls ::
  "TaskQueue \<Rightarrow> store \<Rightarrow> QueueLease \<Rightarrow> instant \<Rightarrow> (task_error + QueueEntry \<times> store) list" where
  "lease_calls q s l clock =
     map (\<lambda>call. call q s (PyInt (l_entry_id l)) (PyStr (l_worker_id l)) (PyInt (l_claim_count l))
               None clock)
       [heartbeat, release, complete, finish]"

definition lease_of :: "QueueLease \<Rightarrow> instant \<Rightarrow> QueueEntryRow \<Rightarrow> bool" where
  "lease_of l clock = holds (l_entry_id l) (l_worker_id l) (l_claim_count l) clock"

definition lease_valid :: "QueueLease \<Rightarrow> bool" where
  "lease_valid l \<longleftrightarrow>
     QueueLease_init (PyInt (l_entry_id l)) (PyStr (l_worker_id l)) (PyInt (l_claim_count l)) = Inr l"

lemma lease_calls_lost:
  assumes "lease_valid l"
    and "\<And>r. entry_row (l_entry_id l) (entries s) = Some r \<Longrightarrow> \<not> lease_of l clock r"
  shows "\<forall>x \<in> set (lease_calls q s l clock). x = Inl LeaseLostError"
proof -
  from assms(1) have "check_entry_id (PyInt (l_entry_id l)) = Inr (l_entry_id l)"
    "check_worker_id (PyStr (l_worker_id l)) = Inr (l_worker_id l)"
    "check_claim_count (PyInt (l_claim_count l)) = Inr (l_claim_count l)"
    by (auto simp: lease_valid_def QueueLease_init_def rbind_eq_Inr_iff checks_by_int check_iffs)
  then have "with_lease_args q (PyInt (l_entry_id l)) (PyStr (l_worker_id l)) (PyInt (l_claim_count l))
      None clock body = body (l_entry_id l) (l_worker_id l) (l_claim_count l) clock (clock + lease q)"
    for body :: "int \<Rightarrow> pystr \<Rightarrow> int \<Rightarrow> instant \<Rightarrow> instant \<Rightarrow> task_error + QueueEntry \<times> store"
    by (simp add: with_lease_args_def rbind_def)
  moreover have "update_held_in s (l_entry_id l) (l_worker_id l) (l_claim_count l) clock f
      = Inl LeaseLostError" for f
    using assms(2) by (intro update_held_lost) (auto simp: lease_of_def)
  ultimately show ?thesis
    by (auto simp: lease_calls_def heartbeat_def release_def complete_def finish_def
          split: option.splits)
qed

text \<open>
  A lease that is dead at \<open>t0\<close>: the claim it came from has been made, and no row is held
  under it at \<open>t0\<close> or later.
\<close>

definition lease_dead :: "TaskQueue \<Rightarrow> instant \<Rightarrow> QueueLease \<Rightarrow> store \<Rightarrow> bool" where
  "lease_dead q t0 l s \<longleftrightarrow> queue_inv q s \<and> l_claim_count l \<le> generation (l_entry_id l) s
     \<and> (\<forall>r \<in> set (entries s). \<not> lease_of l t0 r)"

lemma holds_earlier: "holds i w c now r \<Longrightarrow> now' \<le> now \<Longrightarrow> holds i w c now' r"
  by (auto simp: holds_def split: option.splits)

lemma dead_update:
  assumes "\<forall>r \<in> set (entries s). \<not> lease_of l t0 r"
    and "\<And>r. r \<in> set (entries s) \<Longrightarrow> p r \<Longrightarrow> \<not> lease_of l t0 r \<Longrightarrow> \<not> lease_of l t0 (f r)"
  shows "\<forall>r \<in> set (update_where p f (entries s)). \<not> lease_of l t0 r"
  using assms by (auto simp: set_update_where)

lemma held_change_dead:
  assumes "held_change q clock f" "t0 \<le> clock" "holds i w c clock r" "\<not> holds i' w' c' t0 r"
  shows "\<not> holds i' w' c' t0 (f r)"
  using assms
  by (cases rule: held_change.cases)
    (auto simp: holds_def extend_row_def release_row_def complete_row_def split: option.splits)

lemma holder_call_dead:
  assumes "holder_call q s i w c clock e s'" "t0 \<le> clock" "\<forall>r \<in> set (entries s). \<not> lease_of l t0 r"
  shows "\<forall>r \<in> set (entries s'). \<not> lease_of l t0 r"
proof -
  from holder_callD [OF assms(1)] obtain f i' w' c' where f: "held_change q clock f"
    and s': "s' = s\<lparr>entries := update_where (holds i' w' c' clock) f (entries s)\<rparr>"
    by (auto elim: held_step.cases)
  have "\<forall>r \<in> set (update_where (holds i' w' c' clock) f (entries s)). \<not> lease_of l t0 r"
    using assms(2,3) f by (intro dead_update) (auto simp: lease_of_def dest: held_change_dead)
  then show ?thesis by (simp add: s')
qed

interpretation dead_lease: preserved "qstep q t0" "lease_dead q t0 l" for q t0 l
proof
  fix s s' assume step: "qstep q t0 s s'" and dead: "lease_dead q t0 l s"
  then have inv: "queue_inv q s" and gen: "l_claim_count l \<le> generation (l_entry_id l) s"
    and none: "\<forall>r \<in> set (entries s). \<not> lease_of l t0 r"
    by (simp_all add: lease_dead_def)
  from step inv have inv': "queue_inv q s'" by (rule queue_run.step_inv)
  from queue_fence.token_mono [OF step] gen
  have gen': "l_claim_count l \<le> generation (l_entry_id l) s'" by (rule order_trans [rotated])
  have "\<forall>r \<in> set (entries s'). \<not> lease_of l t0 r"
    using step
  proof (cases rule: qstep.cases)
    case enq
    from enq(2) none show ?thesis
      by (elim enqueue_InrD) (auto simp: lease_of_def holds_def new_row_def)
  next
    case claim
    from claim(3) show ?thesis
    proof (cases rule: claim_next_InrD)
      case nothing
      with none show ?thesis by simp
    next
      case (claimed worker i r)
      have "\<not> lease_of l t0 (claim_row worker n m x)" if "x \<in> set (entries s)" "e_id x = i" for x n m
      proof -
        have "entry_row (e_id x) (entries s) = Some x"
          using inv that by (intro entry_row_unique) (auto simp: queue_inv_def queue_wf_def)
        with gen show ?thesis
          by (auto simp: lease_of_def holds_def generation_def claim_row_def)
      qed
      with none show ?thesis by (auto simp: claimed(8) set_update_where)
    qed
  next
    case (canc clock tid b ok)
    then obtain t b' ok' where "cancel_core s t clock b' = (ok', s')"
      by (auto simp: cancel_def rbind_eq_Inr_iff check_iffs)
    with none show ?thesis
      by (auto simp: cancel_core_def Let_def set_update_where lease_of_def holds_def cancel_row_def
            split: if_splits)
  next
    case env
    with none show ?thesis by simp
  qed (metis holder_call_dead holder_call_def none)+
  with inv' gen' show "lease_dead q t0 l s'" by (simp add: lease_dead_def)
qed

end
