(* ===== verification/Task_Queue_Properties.thy ===== *)
theory Task_Queue_Properties
  imports Task_Queue
begin

text \<open>
  The properties of the task queue, each with a witness on a small database: one project,
  two tasks, an entry claimed twice and a queued one.
\<close>

section \<open>A small database\<close>

definition demo_queue :: TaskQueue where
  "demo_queue = \<lparr>lease_seconds = 60, allow_explicit_now = False\<rparr>"

definition demo_claimed :: QueueEntryRow where
  "demo_claimed =
     \<lparr>e_id = 1, task_id = 7, priority = NORMAL, status = QueueStatus_CLAIMED,
      enqueued_at = 0, claimed_by = Some (cp ''w2''), claimed_at = Some 10,
      lease_expires_at = Some 60000010, claim_count = 2, finished_at = None,
      priority_rank = priority_rank_of NORMAL\<rparr>"

definition demo_store :: store where
  "demo_store =
     \<lparr>tasks = [7 \<mapsto> \<lparr>t_project_id = 3, t_state = TaskState_RUNNING, t_attempt = 1, t_retry_count = 0\<rparr>,
               8 \<mapsto> \<lparr>t_project_id = 3, t_state = TaskState_QUEUED, t_attempt = 1, t_retry_count = 0\<rparr>],
      projects = [3 \<mapsto> ProjectStatus_ACTIVE],
      maintenance = False,
      entries = [demo_claimed, new_row 2 8 HIGH 5],
      next_entry_id = 3,
      budgets = (\<lambda>_ _. None),
      failures = [],
      next_seq = 1\<rparr>"

lemmas demo_defs = demo_queue_def demo_claimed_def demo_store_def new_row_def

lemma demo_wf: "queue_inv demo_queue demo_store"
  by (simp add: queue_inv_def queue_ok_def queue_wf_def row_ok_def active_entry_def
      ACTIVE_QUEUE_STATUSES_def MAX_LEASE_SECONDS_def MAX_CLAIM_COUNT_def demo_defs)

definition demo_lease :: "string \<Rightarrow> int \<Rightarrow> QueueLease" where
  "demo_lease w c = \<lparr>l_entry_id = 1, l_worker_id = cp w, l_claim_count = c\<rparr>"

lemma demo_lease_valid: "lease_valid (demo_lease ''w1'' 1)" "lease_valid (demo_lease ''w2'' 2)"
  by code_simp+

section \<open>Invariant and fencing\<close>

text \<open>
  C14: whatever the workers, the users and the rest of the backend do, and
  whatever the clock reads, the table keeps its constraints: unique ids, well-formed rows
  (a lease exactly while claimed, ending after the claim), at most one active entry per task.
\<close>

theorem queue_constraints_kept:
  assumes "queue_inv q s" and "(qstep q t0)\<^sup>*\<^sup>* s s'"
  shows "queue_wf s'"
  using queue_run.run_inv [OF assms(2,1)] by (simp add: queue_inv_def)

theorem queue_constraints_kept_witness:
  "\<exists>e s'. enqueue demo_queue (demo_store\<lparr>tasks := (tasks demo_store)(9 \<mapsto> \<lparr>t_project_id = 3,
       t_state = TaskState_QUEUED, t_attempt = 1, t_retry_count = 0\<rparr>)\<rparr>) (PyUuid 9) None
       (Inst LOW) 4 = Inr (e, s') \<and> queue_wf s'"
proof -
  let ?s = "demo_store\<lparr>tasks := (tasks demo_store)(9 \<mapsto> \<lparr>t_project_id = 3,
       t_state = TaskState_QUEUED, t_attempt = 1, t_retry_count = 0\<rparr>)\<rparr>"
  obtain e s' where run: "enqueue demo_queue ?s (PyUuid 9) None (Inst LOW) 4 = Inr (e, s')"
    by (simp add: enqueue_def enqueue_core_def insert_entry_def require_active_project_def
        require_active_def check_uuid_def check_member_def rbind_def Let_def active_entry_def
        ACTIVE_QUEUE_STATUSES_def demo_defs)
  have "(qstep demo_queue 0)\<^sup>*\<^sup>* demo_store ?s"
    using qstep.env [where s = demo_store and ts = "tasks ?s" and ps = "projects demo_store"
        and m = "maintenance demo_store" and bs = "budgets demo_store" and fs = "failures demo_store"
        and n = "next_seq demo_store" and q = demo_queue and ?t0.0 = 0]
    by (intro r_into_rtranclp) (simp add: subset_insertI)
  moreover from run have "qstep demo_queue 0 ?s s'" by (rule qstep.enq [rotated]) simp
  ultimately have "(qstep demo_queue 0)\<^sup>*\<^sup>* demo_store s'" by (rule rtranclp.rtrancl_into_rtrancl)
  with run show ?thesis using queue_constraints_kept [OF demo_wf] by blast
qed

text \<open>
  C5: once an entry has been claimed again, every operation of the earlier
  holder (heartbeat, release, complete, finish) is refused with \<open>LeaseLostError\<close>, at every
  clock reading and after any further run; a refused operation returns no new store.
\<close>

theorem superseded_lease_lost:
  assumes "lease_valid l" and "l_claim_count l < generation (l_entry_id l) s"
    and "(qstep q t0)\<^sup>*\<^sup>* s s'"
  shows "\<forall>x \<in> set (lease_calls q s' l clock). x = Inl LeaseLostError"
proof (rule lease_calls_lost [OF assms(1)])
  have "generation (l_entry_id l) s' \<noteq> l_claim_count l"
    using queue_fence.superseded_stays [OF assms(3,2)] .
  then show "\<not> lease_of l clock r" if "entry_row (l_entry_id l) (entries s') = Some r" for r
    using that by (auto simp: lease_of_def dest: holds_generation)
qed

theorem superseded_lease_lost_witness:
  "complete demo_queue demo_store (PyInt 1) (PyStr (cp ''w1'')) (PyInt 1) None 20 = Inl LeaseLostError"
proof -
  have "\<forall>x \<in> set (lease_calls demo_queue demo_store (demo_lease ''w1'' 1) 20). x = Inl LeaseLostError"
    by (rule superseded_lease_lost [where s = demo_store and ?t0.0 = 0, OF demo_lease_valid(1)])
      (simp_all add: generation_def entry_row_def demo_lease_def demo_defs)
  then show ?thesis by (simp add: lease_calls_def demo_lease_def)
qed

text \<open>
  C15: a lease that is over at \<open>t0\<close> stays lost while the clock reads \<open>t0\<close> or
  later: no step of anyone revives it, although nobody has claimed the entry again.
\<close>

theorem expired_lease_stays_lost:
  assumes "lease_valid l" and "queue_inv q s"
    and row: "entry_row (l_entry_id l) (entries s) = Some r" "l_claim_count l \<le> claim_count r"
    and over: "lease_expires_at r = None \<or> the (lease_expires_at r) \<le> t0"
    and "(qstep q t0)\<^sup>*\<^sup>* s s'" and "t0 \<le> clock"
  shows "\<forall>x \<in> set (lease_calls q s' l clock). x = Inl LeaseLostError"
proof (rule lease_calls_lost [OF assms(1)])
  have "\<not> lease_of l t0 x" if "x \<in> set (entries s)" for x
  proof
    assume held: "lease_of l t0 x"
    then have "entry_row (l_entry_id l) (entries s) = Some x"
      using entry_row_unique [OF _ that] assms(2) by (simp add: lease_of_def holds_def queue_inv_def queue_wf_def)
    with row(1) held over show False by (auto simp: lease_of_def holds_def split: option.splits)
  qed
  with assms(2) row have "lease_dead q t0 l s" by (simp add: lease_dead_def generation_def)
  from dead_lease.run_inv [OF assms(6) this] have dead: "lease_dead q t0 l s'" .
  fix x assume "entry_row (l_entry_id l) (entries s') = Some x"
  with dead have "\<not> lease_of l t0 x" by (auto simp: lease_dead_def dest: entry_row_in)
  with assms(7) show "\<not> lease_of l clock x" by (auto simp: lease_of_def dest: holds_earlier)
qed

theorem expired_lease_stays_lost_witness:
  "heartbeat demo_queue demo_store (PyInt 1) (PyStr (cp ''w2'')) (PyInt 2) None 60000010
     = Inl LeaseLostError"
proof -
  have "entry_row (l_entry_id (demo_lease ''w2'' 2)) (entries demo_store) = Some demo_claimed"
    "l_claim_count (demo_lease ''w2'' 2) \<le> claim_count demo_claimed"
    "lease_expires_at demo_claimed = None \<or> the (lease_expires_at demo_claimed) \<le> 60000010"
    by (simp_all add: entry_row_def demo_lease_def demo_defs)
  from expired_lease_stays_lost [OF demo_lease_valid(2) demo_wf this rtranclp.rtrancl_refl order_refl]
  show ?thesis by (simp add: lease_calls_def demo_lease_def)
qed

text \<open>
  Two leases that the queue confirms for one task in one state of the
  database are the same lease, even when the two checks read different clocks.
\<close>

theorem one_holder_per_task:
  assumes "queue_wf s"
    and "holds_lease q s tid (Inst l1) None clock1 = Inr True"
    and "holds_lease q s tid (Inst l2) None clock2 = Inr True"
  shows "l1 = l2"
proof -
  have row: "\<exists>t r. tid = PyUuid t \<and> r \<in> set (entries s) \<and> task_id r = t \<and> lease_of l clock r"
    if "holds_lease q s tid (Inst l) None clock = Inr True" for l clock
    using that by (auto simp: holds_lease_def rbind_eq_Inr_iff check_iffs list_ex_iff lease_of_def)
  from row [OF assms(2)] row [OF assms(3)] obtain r1 r2 where
    r: "r1 \<in> set (entries s)" "r2 \<in> set (entries s)" "task_id r1 = task_id r2"
    and l: "lease_of l1 clock1 r1" "lease_of l2 clock2 r2" by auto
  then have "r1 = r2"
    using assms(1) by (auto intro: active_unique dest: holds_active simp: lease_of_def)
  with l show ?thesis by (simp add: lease_of_def holds_def)
qed

theorem one_holder_per_task_witness:
  "\<exists>l. holds_lease demo_queue demo_store (PyUuid 7) (Inst l) None 20 = Inr True
     \<and> l = demo_lease ''w2'' 2"
proof -
  have wf: "queue_wf demo_store" using demo_wf by (simp add: queue_inv_def)
  have held: "holds_lease demo_queue demo_store (PyUuid 7) (Inst (demo_lease ''w2'' 2)) None clock
      = Inr True" if "clock < 60000010" for clock
    using that by (simp add: holds_lease_def rbind_def check_uuid_def check_member_def holds_def
        demo_lease_def demo_defs)
  show ?thesis
    using one_holder_per_task [OF wf held [of 20] held [of 30]] held [of 20] by auto
qed

section \<open>What the operations do\<close>



text \<open>
  Enqueueing a task has four outcomes, decided in this order: an unknown task,
  a project that is not Active, a task that already has an active entry, and a new queued
  entry with a fresh id appended to the table.
\<close>

lemma enqueue_outcomes:
  "enqueue q s (PyUuid t) None (Inst p) clock =
     (case tasks s t of
        None \<Rightarrow> Inl TaskNotFoundError
      | Some row \<Rightarrow>
          if projects s (t_project_id row) \<noteq> Some ProjectStatus_ACTIVE then Inl ProjectNotActiveError
          else if \<exists>r \<in> set (entries s). task_id r = t \<and> active_entry r then Inl TaskAlreadyQueuedError
          else Inr (entry_of (new_row (next_entry_id s) t p clock),
                    s\<lparr>entries := entries s @ [new_row (next_entry_id s) t p clock],
                      next_entry_id := next_entry_id s + 1\<rparr>))"
  by (simp add: enqueue_def enqueue_core_def insert_entry_def require_active_project_def
      require_active_def check_uuid_def check_member_def rbind_def Let_def list_ex_iff
      split: option.splits)

text \<open>
  When a worker finishes an entry, a task that still needs a worker (queued or
  running) keeps an active entry, now unclaimed, and every other task's entry is completed; the
  entry it finished is never left claimed.
\<close>

theorem finish_keeps_needed_entry:
  assumes run: "finish q s i w c None clock = Inr (e, s')"
  shows "status e = (if needs_worker s (task_id e) then QueueStatus_QUEUED else QueueStatus_COMPLETED)
    \<and> (\<exists>r \<in> set (entries s'). entry_of r = e
         \<and> (needs_worker s' (task_id e) \<longrightarrow> active_entry r \<and> claimed_by r = None))"
proof -
  from run obtain i' w' c' r where row: "entry_row i' (entries s) = Some r"
    and upd: "update_held_in s i' w' c' clock
      (if needs_worker s (task_id r) then release_row else complete_row clock) = Inr (e, s')"
    unfolding finish_def by (elim with_lease_args_InrD) (auto split: option.splits)
  from upd row have held: "holds i' w' c' clock r"
    and e: "e = entry_of ((if needs_worker s (task_id r) then release_row else complete_row clock) r)"
    and s': "s' = s\<lparr>entries := update_where (holds i' w' c' clock)
      (if needs_worker s (task_id r) then release_row else complete_row clock) (entries s)\<rparr>"
    by (auto simp: update_held_in_def split: if_splits)
  from row have "r \<in> set (entries s)" by (blast dest: entry_row_in)
  with held have mem: "(if needs_worker s (task_id r) then release_row else complete_row clock) r
      \<in> set (entries s')"
    by (auto simp: s' set_update_where)
  have same: "needs_worker s' = needs_worker s" by (simp add: s' needs_worker_def fun_eq_iff)
  show ?thesis
    unfolding e same
    by (intro conjI bexI [OF _ mem])
      (simp_all add: entry_of_def QueueEntry.truncate_def release_row_def complete_row_def
        active_entry_def ACTIVE_QUEUE_STATUSES_def)
qed

theorem finish_keeps_needed_entry_witness:
  "case finish demo_queue demo_store (PyInt 1) (PyStr (cp ''w2'')) (PyInt 2) None 20 of
     Inr (e, s') \<Rightarrow> status e = QueueStatus_QUEUED | Inl _ \<Rightarrow> False"
proof -
  have w: "worker_id_ok (cp ''w2'')" by code_simp
  obtain e s' where run: "finish demo_queue demo_store (PyInt 1) (PyStr (cp ''w2'')) (PyInt 2) None 20
      = Inr (e, s')" and t: "needs_worker demo_store (task_id e)"
    using w by (simp add: finish_def with_lease_args_def checks_by_int check_int_def check_worker_id_def
        rbind_def MAX_ENTRY_ID_def MAX_CLAIM_COUNT_def entry_row_def update_held_in_def holds_def
        needs_worker_def NEEDS_A_WORKER_def entry_of_def QueueEntry.truncate_def release_row_def
        demo_defs)
  from finish_keeps_needed_entry [OF run] run t show ?thesis by simp
qed

end
