(* ===== verification/Task_Budget.thy ===== *)
theory Task_Budget
  imports Task_Store
begin

text \<open>
  Execution budgets (\<^verbatim>\<open>paw_backend/tasks/queueing/budget.py\<close>): six rows per task with a copy of
  the preset's limit and the consumption, and a runtime timer that is fenced by a session
  generation. Each method is one transaction on the store.

  \<open>reading\<close> is what the tracker's clock reads for the statement: the database's
  \<^verbatim>\<open>clock_timestamp()\<close>, always an instant, or what a test clock returned, which may be
  something else (\<open>Other\<close>). No order between readings is assumed.
\<close>

section \<open>Clock\<close>

text \<open>The constructor: \<open>clock\<close> is \<open>None\<close> or whether the object given is callable.\<close>

definition BudgetTracker_init :: "bool option \<Rightarrow> pyval \<Rightarrow> task_error + unit" where
  "BudgetTracker_init clock allow_explicit =
     rbind (check_bool ''allow_explicit_clock'' allow_explicit) (\<lambda>allow.
       require (case clock of None \<Rightarrow> True | Some callable \<Rightarrow> allow \<and> callable)
         (InvalidQueueingArgumentError ''clock''))"

definition instant_now :: "instant arg \<Rightarrow> task_error + instant" where
  "instant_now reading = (case reading of Inst t \<Rightarrow> Inr t | Other \<Rightarrow> reject ''clock'')"

text \<open>Whole seconds, rounded down, never negative (an instant counts microseconds).\<close>

definition elapsed_seconds :: "instant \<Rightarrow> instant \<Rightarrow> int" where
  "elapsed_seconds now since = max ((now - since) div 1000000) 0"

section \<open>Reading\<close>

definition usage_item :: "BudgetKind \<Rightarrow> instant \<Rightarrow> BudgetUsageRow \<Rightarrow> task_error + BudgetUsage" where
  "usage_item k now r =
     BudgetUsage_init k
       (b_consumed r + (case running_since r of None \<Rightarrow> 0 | Some since \<Rightarrow> elapsed_seconds now since))
       (b_limit r)"

fun collect_usage ::
  "(BudgetKind \<Rightarrow> BudgetUsageRow option) \<Rightarrow> instant \<Rightarrow> BudgetKind list \<Rightarrow> task_error + BudgetUsage list" where
  "collect_usage by_kind now [] = Inr []"
| "collect_usage by_kind now (k # ks) =
     (case by_kind k of
        None \<Rightarrow> Inl KeyError
      | Some r \<Rightarrow>
          rbind (usage_item k now r) (\<lambda>u.
          rbind (collect_usage by_kind now ks) (\<lambda>us. Inr (u # us))))"

definition read_usage :: "store \<Rightarrow> uuid \<Rightarrow> instant arg \<Rightarrow> task_error + BudgetUsage list" where
  "read_usage s t reading =
     rbind (instant_now reading) (\<lambda>now.
       if list_all (\<lambda>k. budgets s t k = None) BudgetKind_members then Inl BudgetNotConfiguredError
       else collect_usage (budgets s t) now BudgetKind_members)"

definition usage :: "store \<Rightarrow> pyval \<Rightarrow> instant arg \<Rightarrow> task_error + BudgetUsage list" where
  "usage s tid reading = rbind (check_uuid ''task_id'' tid) (\<lambda>t. read_usage s t reading)"

section \<open>Preset\<close>

text \<open>
  One upsert of six rows: an inserted row starts at zero, an existing row keeps everything
  but its preset and limit.
\<close>

definition preset_row :: "BudgetPreset \<Rightarrow> BudgetKind \<Rightarrow> BudgetUsageRow option \<Rightarrow> BudgetUsageRow" where
  "preset_row p k old =
     (case old of
        None \<Rightarrow> \<lparr>b_preset = p, b_consumed = 0, b_limit = PRESET_LIMITS p k, running_since = None,
                 runtime_generation = 0, settled_through = None\<rparr>
      | Some r \<Rightarrow> r\<lparr>b_preset := p, b_limit := PRESET_LIMITS p k\<rparr>)"

text \<open>The foreign key to the task refuses the insert for an unknown task.\<close>

definition preset_upsert :: "store \<Rightarrow> uuid \<Rightarrow> BudgetPreset \<Rightarrow> task_error + store" where
  "preset_upsert s t p =
     (if tasks s t = None then Inl TaskNotFoundError
      else Inr (s\<lparr>budgets := (budgets s)(t := (\<lambda>k. Some (preset_row p k (budgets s t k))))\<rparr>))"

definition set_preset ::
  "store \<Rightarrow> pyval \<Rightarrow> BudgetPreset arg \<Rightarrow> instant arg \<Rightarrow> task_error + BudgetUsage list \<times> store" where
  "set_preset s tid preset reading =
     rbind (check_uuid ''task_id'' tid) (\<lambda>t.
     rbind (check_member ''preset'' preset) (\<lambda>p.
     rbind (preset_upsert s t p) (\<lambda>s'.
     rbind (read_usage s' t reading) (\<lambda>us. Inr (us, s')))))"

definition set_preset_in ::
  "bool \<Rightarrow> store \<Rightarrow> pyval \<Rightarrow> BudgetPreset arg \<Rightarrow> task_error + store" where
  "set_preset_in in_transaction s tid preset =
     rbind (check_session ''session'' in_transaction) (\<lambda>_.
     rbind (check_uuid ''task_id'' tid) (\<lambda>t.
     rbind (check_member ''preset'' preset) (\<lambda>p. preset_upsert s t p)))"

section \<open>Recording\<close>

definition check_run :: "TaskRun arg option \<Rightarrow> task_error + TaskRun option" where
  "check_run run =
     (case run of None \<Rightarrow> Inr None | Some (Inst r) \<Rightarrow> Inr (Some r) | Some Other \<Rightarrow> reject ''run'')"

definition check_record ::
  "pyval \<Rightarrow> BudgetKind arg \<Rightarrow> pyval \<Rightarrow> TaskRun arg option \<Rightarrow> pyval
     \<Rightarrow> task_error + uuid \<times> BudgetKind \<times> int \<times> TaskRun option \<times> bool" where
  "check_record tid kind amount run running =
     rbind (check_uuid ''task_id'' tid) (\<lambda>t.
     rbind (check_member ''kind'' kind) (\<lambda>k.
     rbind (require (k \<noteq> RUNTIME_SECONDS) (InvalidQueueingArgumentError ''kind'')) (\<lambda>_.
     rbind (check_amount ''amount'' amount) (\<lambda>a.
     rbind (check_run run) (\<lambda>r.
     rbind (check_bool ''require_running'' running) (\<lambda>b.
     rbind (require (\<not> (b \<and> r = None)) (InvalidQueueingArgumentError ''require_running'')) (\<lambda>_.
       Inr (t, k, a, r, b))))))))"

definition require_run :: "store \<Rightarrow> uuid \<Rightarrow> TaskRun \<Rightarrow> bool \<Rightarrow> task_error + unit" where
  "require_run s t run require_running =
     (case tasks s t of
        None \<Rightarrow> Inl StaleRunError
      | Some row \<Rightarrow>
          if t_state row \<in> TERMINAL_STATES
             \<or> \<lparr>run_attempt = t_attempt row, run_retry_count = t_retry_count row\<rparr> \<noteq> run
          then Inl StaleRunError
          else if require_running \<and> t_state row \<noteq> TaskState_RUNNING then Inl TaskNotRunningError
          else Inr ())"

definition set_budget :: "store \<Rightarrow> uuid \<Rightarrow> BudgetKind \<Rightarrow> BudgetUsageRow \<Rightarrow> store" where
  "set_budget s t k r = s\<lparr>budgets := (budgets s)(t := (budgets s t)(k \<mapsto> r))\<rparr>"

definition record_run ::
  "store \<Rightarrow> uuid \<Rightarrow> BudgetKind \<Rightarrow> int \<Rightarrow> TaskRun option \<Rightarrow> bool \<Rightarrow> task_error + BudgetUsage \<times> store" where
  "record_run s t k amount run require_running =
     rbind (case run of None \<Rightarrow> Inr () | Some r \<Rightarrow> require_run s t r require_running) (\<lambda>_.
       case budgets s t k of
         None \<Rightarrow> Inl BudgetNotConfiguredError
       | Some row \<Rightarrow>
           (let row' = row\<lparr>b_consumed := min (b_consumed row + amount) MAX_CONSUMED\<rparr>
            in rbind (BudgetUsage_init k (b_consumed row') (b_limit row')) (\<lambda>u.
                 Inr (u, set_budget s t k row'))))"

definition record_usage ::
  "store \<Rightarrow> pyval \<Rightarrow> BudgetKind arg \<Rightarrow> pyval \<Rightarrow> TaskRun arg option \<Rightarrow> pyval
     \<Rightarrow> task_error + BudgetUsage \<times> store" where
  "record_usage s tid kind amount run running =
     rbind (check_record tid kind amount run running) (\<lambda>(t, k, a, r, b). record_run s t k a r b)"

definition record_in ::
  "bool \<Rightarrow> store \<Rightarrow> pyval \<Rightarrow> BudgetKind arg \<Rightarrow> pyval \<Rightarrow> TaskRun arg option \<Rightarrow> pyval
     \<Rightarrow> task_error + BudgetUsage \<times> store" where
  "record_in in_transaction s tid kind amount run running =
     rbind (check_session ''session'' in_transaction) (\<lambda>_. record_usage s tid kind amount run running)"

section \<open>Runtime sessions\<close>

definition start_row :: "instant \<Rightarrow> BudgetUsageRow \<Rightarrow> BudgetUsageRow" where
  "start_row now r =
     r\<lparr>runtime_generation := runtime_generation r + 1,
       running_since :=
         (case running_since r of
            Some since \<Rightarrow> Some since
          | None \<Rightarrow> Some (case settled_through r of None \<Rightarrow> now | Some c \<Rightarrow> max now c))\<rparr>"

definition start_statement :: "store \<Rightarrow> uuid \<Rightarrow> instant \<Rightarrow> task_error + int \<times> store" where
  "start_statement s t now =
     (case budgets s t RUNTIME_SECONDS of
        None \<Rightarrow> Inl BudgetNotConfiguredError
      | Some r \<Rightarrow>
          if MAX_RUNTIME_GENERATION \<le> runtime_generation r then Inl NumericValueOutOfRange
          else Inr (runtime_generation (start_row now r), set_budget s t RUNTIME_SECONDS (start_row now r)))"

definition start_runtime :: "store \<Rightarrow> pyval \<Rightarrow> instant arg \<Rightarrow> task_error + int \<times> store" where
  "start_runtime s tid reading =
     rbind (check_uuid ''task_id'' tid) (\<lambda>t.
     rbind (instant_now reading) (\<lambda>now. start_statement s t now))"

definition start_runtime_in ::
  "bool \<Rightarrow> store \<Rightarrow> pyval \<Rightarrow> TaskRun arg option \<Rightarrow> instant arg \<Rightarrow> task_error + int \<times> store" where
  "start_runtime_in in_transaction s tid run reading =
     rbind (check_session ''session'' in_transaction) (\<lambda>_.
     rbind (check_uuid ''task_id'' tid) (\<lambda>t.
     rbind (check_run run) (\<lambda>r.
     rbind (case r of None \<Rightarrow> Inr () | Some x \<Rightarrow> require_run s t x True) (\<lambda>_.
     rbind (instant_now reading) (\<lambda>now. start_statement s t now)))))"

definition stop_row :: "instant \<Rightarrow> instant \<Rightarrow> BudgetUsageRow \<Rightarrow> BudgetUsageRow" where
  "stop_row now since r =
     r\<lparr>b_consumed := min (b_consumed r + elapsed_seconds now since) MAX_CONSUMED,
       running_since := None,
       settled_through := Some (max now since)\<rparr>"

text \<open>
  The stop and, when it stopped nothing, the reading of why: no budget, another session,
  or a session that was stopped already. \<open>reading2\<close> is the clock of the second statement.
\<close>

definition stop_runtime ::
  "store \<Rightarrow> pyval \<Rightarrow> pyval \<Rightarrow> instant arg \<Rightarrow> instant arg \<Rightarrow> task_error + BudgetUsage \<times> store" where
  "stop_runtime s tid gen reading reading2 =
     rbind (check_uuid ''task_id'' tid) (\<lambda>t.
     rbind (check_runtime_generation gen) (\<lambda>g.
     rbind (instant_now reading) (\<lambda>now.
       case budgets s t RUNTIME_SECONDS of
         None \<Rightarrow> Inl BudgetNotConfiguredError
       | Some r \<Rightarrow>
           if runtime_generation r \<noteq> g then Inl StaleRuntimeSessionError
           else
             (case running_since r of
                Some since \<Rightarrow>
                  (let r' = stop_row now since r
                   in rbind (BudgetUsage_init RUNTIME_SECONDS (b_consumed r') (b_limit r')) (\<lambda>u.
                        Inr (u, set_budget s t RUNTIME_SECONDS r')))
              | None \<Rightarrow>
                  rbind (read_usage s t reading2) (\<lambda>us.
                    case find (\<lambda>u. u_kind u = RUNTIME_SECONDS) us of
                      None \<Rightarrow> Inl KeyError
                    | Some u \<Rightarrow> Inr (u, s))))))"

section \<open>The verdict\<close>

text \<open>\<open>planned\<close>: \<open>None\<close>, a mapping (its items) or any other object.\<close>

fun check_planned :: "(BudgetKind arg \<times> pyval) list \<Rightarrow> task_error + (BudgetKind \<times> int) list" where
  "check_planned [] = Inr []"
| "check_planned ((k, a) # items) =
     rbind (check_member ''planned'' k) (\<lambda>k'.
     rbind (check_amount ''amount'' a) (\<lambda>a'.
     rbind (check_planned items) (\<lambda>rest. Inr ((k', a') # rest))))"

definition planned_amounts ::
  "(BudgetKind arg \<times> pyval) list arg option \<Rightarrow> task_error + (BudgetKind \<times> int) list" where
  "planned_amounts planned =
     (case planned of
        None \<Rightarrow> Inr []
      | Some Other \<Rightarrow> reject ''planned''
      | Some (Inst items) \<Rightarrow> check_planned items)"

definition extra_of :: "(BudgetKind \<times> int) list \<Rightarrow> BudgetKind \<Rightarrow> int" where
  "extra_of extra k = (case map_of extra k of None \<Rightarrow> 0 | Some a \<Rightarrow> a)"

definition over_limit :: "(BudgetKind \<times> int) list \<Rightarrow> BudgetUsage \<Rightarrow> bool" where
  "over_limit extra u =
     (case u_limit u of None \<Rightarrow> False | Some l \<Rightarrow> l < consumed u + extra_of extra (u_kind u))"

definition check ::
  "store \<Rightarrow> pyval \<Rightarrow> (BudgetKind arg \<times> pyval) list arg option \<Rightarrow> instant arg
     \<Rightarrow> task_error + BudgetVerdict" where
  "check s tid planned reading =
     rbind (check_uuid ''task_id'' tid) (\<lambda>_.
     rbind (planned_amounts planned) (\<lambda>extra.
     rbind (usage s tid reading) (\<lambda>us.
       (let over = map u_kind (filter (over_limit extra) us)
        in BudgetVerdict_init (if over \<noteq> [] then BudgetStatus_EXCEEDED else BudgetStatus_OK) over us))))"

section \<open>Runs of the budget service\<close>

text \<open>
  One transaction of the tracker, or a change by the rest of the backend (no task row is
  deleted). Every clock reading lies between \<open>lo\<close> and \<open>hi\<close>, in any order.
\<close>

inductive bstep :: "instant \<Rightarrow> instant \<Rightarrow> store \<Rightarrow> store \<Rightarrow> bool" for lo hi where
  preset: "set_preset s tid p reading = Inr (us, s') \<Longrightarrow> bstep lo hi s s'"
| preset_in: "set_preset_in tx s tid p = Inr s' \<Longrightarrow> bstep lo hi s s'"
| rec: "record_usage s tid k a run b = Inr (u, s') \<Longrightarrow> bstep lo hi s s'"
| rec_in: "record_in tx s tid k a run b = Inr (u, s') \<Longrightarrow> bstep lo hi s s'"
| start: "lo \<le> now \<Longrightarrow> now \<le> hi \<Longrightarrow> start_runtime s tid (Inst now) = Inr (g, s') \<Longrightarrow> bstep lo hi s s'"
| start_in: "lo \<le> now \<Longrightarrow> now \<le> hi \<Longrightarrow> start_runtime_in tx s tid run (Inst now) = Inr (g, s')
    \<Longrightarrow> bstep lo hi s s'"
| stop: "lo \<le> now \<Longrightarrow> now \<le> hi \<Longrightarrow> stop_runtime s tid gen (Inst now) reading = Inr (u, s')
    \<Longrightarrow> bstep lo hi s s'"
| env: "dom (tasks s) \<subseteq> dom ts
    \<Longrightarrow> bstep lo hi s (s\<lparr>tasks := ts, projects := ps, maintenance := m, entries := es,
                        next_entry_id := i, failures := fs, next_seq := n\<rparr>)"

text \<open>What any of them can do to the row of one kind of one task.\<close>

inductive row_step ::
  "instant \<Rightarrow> instant \<Rightarrow> BudgetKind \<Rightarrow> BudgetUsageRow option \<Rightarrow> BudgetUsageRow option \<Rightarrow> bool"
  for lo hi k where
  same: "row_step lo hi k x x"
| configured: "row_step lo hi k x (Some (preset_row p k x))"
| charged: "k \<noteq> RUNTIME_SECONDS \<Longrightarrow> 0 \<le> a
    \<Longrightarrow> row_step lo hi k (Some r) (Some (r\<lparr>b_consumed := min (b_consumed r + a) MAX_CONSUMED\<rparr>))"
| started: "k = RUNTIME_SECONDS \<Longrightarrow> lo \<le> now \<Longrightarrow> now \<le> hi
    \<Longrightarrow> runtime_generation r < MAX_RUNTIME_GENERATION
    \<Longrightarrow> row_step lo hi k (Some r) (Some (start_row now r))"
| stopped: "k = RUNTIME_SECONDS \<Longrightarrow> lo \<le> now \<Longrightarrow> now \<le> hi \<Longrightarrow> running_since r = Some since
    \<Longrightarrow> row_step lo hi k (Some r) (Some (stop_row now since r))"

inductive_cases row_step_NoneE: "row_step lo hi k x None"
inductive_cases row_step_SomeE: "row_step lo hi k x (Some r')"

lemma budgets_set_budget [simp]:
  "budgets (set_budget s t k r) t' k' = (if t' = t \<and> k' = k then Some r else budgets s t' k')"
  "tasks (set_budget s t k r) = tasks s"
  by (simp_all add: set_budget_def)

lemma preset_upsert_rows:
  "preset_upsert s t p = Inr s' \<Longrightarrow>
     budgets s' t' k = (if t' = t then Some (preset_row p k (budgets s t k)) else budgets s t' k)
     \<and> tasks s t \<noteq> None \<and> tasks s' = tasks s"
  by (auto simp: preset_upsert_def split: if_splits)

lemma record_run_rows:
  assumes "record_run s t k a run b = Inr (u, s')"
  obtains r where "budgets s t k = Some r"
    and "s' = set_budget s t k (r\<lparr>b_consumed := min (b_consumed r + a) MAX_CONSUMED\<rparr>)"
  using assms by (auto simp: record_run_def rbind_eq_Inr_iff Let_def split: option.splits)

lemma start_statement_rows:
  assumes "start_statement s t now = Inr (g, s')"
  obtains r where "budgets s t RUNTIME_SECONDS = Some r"
    and "runtime_generation r < MAX_RUNTIME_GENERATION" and "g = runtime_generation r + 1"
    and "s' = set_budget s t RUNTIME_SECONDS (start_row now r)"
  using assms by (auto simp: start_statement_def start_row_def split: option.splits if_splits)

lemma stop_runtime_rows:
  assumes "stop_runtime s tid gen (Inst now) reading = Inr (u, s')"
  obtains (kept) "s' = s"
  | (stopped) t r since where "tid = PyUuid t" and "gen = PyInt (runtime_generation r)"
    and "budgets s t RUNTIME_SECONDS = Some r" and "running_since r = Some since"
    and "s' = set_budget s t RUNTIME_SECONDS (stop_row now since r)"
proof -
  from assms obtain t g where args: "tid = PyUuid t" "gen = PyInt g"
    by (auto simp: stop_runtime_def rbind_eq_Inr_iff check_iffs checks_by_int)
  with assms obtain r where row: "budgets s t RUNTIME_SECONDS = Some r" "runtime_generation r = g"
    by (auto simp: stop_runtime_def rbind_eq_Inr_iff check_iffs checks_by_int
          split: option.splits if_splits)
  show ?thesis
  proof (cases "running_since r")
    case None
    with assms args row have "s' = s"
      by (auto simp: stop_runtime_def rbind_eq_Inr_iff check_iffs checks_by_int split: option.splits)
    then show ?thesis by (rule kept)
  next
    case (Some since)
    with assms args row have "s' = set_budget s t RUNTIME_SECONDS (stop_row now since r)"
      by (auto simp: stop_runtime_def rbind_eq_Inr_iff check_iffs checks_by_int instant_now_def Let_def)
    with args row Some show ?thesis by (intro stopped) simp_all
  qed
qed

lemma check_record_InrD:
  assumes "check_record tid kind amount run b = Inr (t, k, a, r, b')"
  shows "k \<noteq> RUNTIME_SECONDS" and "0 \<le> a"
  using assms by (auto simp: check_record_def rbind_eq_Inr_iff check_iffs checks_by_int)

lemma record_usage_rows:
  assumes "record_usage s tid k a run b = Inr (u, s')"
  shows "row_step lo hi k' (budgets s t' k') (budgets s' t' k')"
proof -
  from assms obtain t k0 a0 run0 b0 where chk: "check_record tid k a run b = Inr (t, k0, a0, run0, b0)"
    and run: "record_run s t k0 a0 run0 b0 = Inr (u, s')"
    by (auto simp: record_usage_def rbind_eq_Inr_iff)
  from run show ?thesis
    by (rule record_run_rows)
      (use check_record_InrD [OF chk] in \<open>auto intro: row_step.intros\<close>)
qed

lemma start_rows:
  assumes "start_statement s t now = Inr (g, s')" "lo \<le> now" "now \<le> hi"
  shows "row_step lo hi k (budgets s t' k) (budgets s' t' k)"
  using assms(1) by (rule start_statement_rows) (auto intro: row_step.intros assms)

text \<open>The whole service refines the automaton of one row.\<close>

lemma bstep_row:
  assumes "bstep lo hi s s'"
  shows "row_step lo hi k (budgets s t k) (budgets s' t k)"
  using assms
proof (cases rule: bstep.cases)
  case (preset tid p reading us)
  then obtain t' p' where "preset_upsert s t' p' = Inr s'"
    by (auto simp: set_preset_def rbind_eq_Inr_iff)
  then show ?thesis by (auto simp: preset_upsert_rows intro: row_step.intros)
next
  case (preset_in tx tid p)
  then obtain t' p' where "preset_upsert s t' p' = Inr s'"
    by (auto simp: set_preset_in_def rbind_eq_Inr_iff)
  then show ?thesis by (auto simp: preset_upsert_rows intro: row_step.intros)
next
  case rec
  then show ?thesis by (rule record_usage_rows)
next
  case rec_in
  then show ?thesis
    by (auto simp: record_in_def rbind_eq_Inr_iff intro: record_usage_rows)
next
  case start
  then show ?thesis
    by (auto simp: start_runtime_def rbind_eq_Inr_iff instant_now_def intro: start_rows)
next
  case start_in
  then show ?thesis
    by (auto simp: start_runtime_in_def rbind_eq_Inr_iff instant_now_def intro: start_rows)
next
  case stop
  from stop(3) show ?thesis
    by (cases rule: stop_runtime_rows) (use stop in \<open>auto intro: row_step.intros\<close>)
next
  case env
  then show ?thesis by (simp add: row_step.same)
qed

lemma bstep_run_row:
  assumes "(bstep lo hi)\<^sup>*\<^sup>* s s'"
  shows "(row_step lo hi k)\<^sup>*\<^sup>* (budgets s t k) (budgets s' t k)"
  using assms
  by (induction rule: rtranclp_induct) (auto intro: rtranclp.rtrancl_into_rtrancl bstep_row)

section \<open>The rows keep their constraints\<close>

definition budget_wf :: "BudgetKind \<Rightarrow> BudgetUsageRow option \<Rightarrow> bool" where
  "budget_wf k x = (case x of None \<Rightarrow> True | Some r \<Rightarrow> budget_row_ok k r)"

lemma preset_limit_ok: "PRESET_LIMITS p k = Some l \<Longrightarrow> 0 \<le> l \<and> l \<le> MAX_LIMIT"
  by (cases p; cases k) (auto simp: MAX_LIMIT_def)

lemma PRESET_LIMITS_None: "PRESET_LIMITS p k = None \<longleftrightarrow> p = UNLIMITED"
  by (cases p) simp_all

lemma elapsed_nonneg [simp]: "0 \<le> elapsed_seconds now since"
  by (simp add: elapsed_seconds_def)

interpretation budget_rows: preserved "row_step lo hi k" "budget_wf k" for lo hi k
proof
  fix x y assume "row_step lo hi k x y" and ok: "budget_wf k x"
  then show "budget_wf k y"
  proof (cases rule: row_step.cases)
    case same
    with ok show ?thesis by simp
  next
    case (configured p)
    with ok show ?thesis
      by (cases x) (auto simp: budget_wf_def budget_row_ok_def preset_row_def preset_limit_ok
          PRESET_LIMITS_None MAX_CONSUMED_def)
  next
    case charged
    with ok show ?thesis
      by (auto simp: budget_wf_def budget_row_ok_def MAX_CONSUMED_def)
  next
    case started
    with ok show ?thesis
      by (auto simp: budget_wf_def budget_row_ok_def start_row_def split: option.splits)
  next
    case stopped
    with ok show ?thesis
      by (auto simp: budget_wf_def budget_row_ok_def stop_row_def MAX_CONSUMED_def)
  qed
qed

section \<open>The session generation\<close>

definition session_of :: "BudgetUsageRow option \<Rightarrow> int" where
  "session_of x = (case x of None \<Rightarrow> -1 | Some r \<Rightarrow> runtime_generation r)"

interpretation session_fence: fencing "row_step lo hi k" session_of for lo hi k
  by unfold_locales
    (auto elim!: row_step.cases simp: session_of_def preset_row_def start_row_def stop_row_def
      split: option.splits)

section \<open>The timer never charges an interval twice\<close>

text \<open>
  What a runtime row has charged fits between \<open>lo\<close> and the cutoff it settled through, and
  a running timer starts no earlier than that cutoff.
\<close>

definition charged_within :: "instant \<Rightarrow> instant \<Rightarrow> BudgetUsageRow option \<Rightarrow> bool" where
  "charged_within lo hi x =
     (case x of
        None \<Rightarrow> True
      | Some r \<Rightarrow>
          (case settled_through r of
             None \<Rightarrow> b_consumed r = 0
           | Some c \<Rightarrow> lo \<le> c \<and> c \<le> hi \<and> b_consumed r * 1000000 \<le> c - lo)
          \<and> (case running_since r of
               None \<Rightarrow> True
             | Some a \<Rightarrow> lo \<le> a \<and> a \<le> hi
                 \<and> (case settled_through r of None \<Rightarrow> True | Some c \<Rightarrow> c \<le> a)))"

lemma elapsed_bound: "elapsed_seconds now since * 1000000 \<le> max now since - since"
proof -
  have "(now - since) div 1000000 * 1000000 \<le> now - since"
    by (simp add: minus_mod_eq_div_mult [symmetric])
  then show ?thesis by (auto simp: elapsed_seconds_def max_def)
qed

lemma charged_stop:
  assumes "charged_within lo hi (Some r)" "running_since r = Some since" "lo \<le> now" "now \<le> hi"
  shows "charged_within lo hi (Some (stop_row now since r))"
proof -
  from assms have "b_consumed r * 1000000 \<le> since - lo" "lo \<le> since" "since \<le> hi"
    by (auto simp: charged_within_def split: option.splits)
  with elapsed_bound [of now since] assms(3,4) show ?thesis
    by (auto simp: charged_within_def stop_row_def min_def max_def split: if_splits)
qed

interpretation runtime_charges: preserved "row_step lo hi RUNTIME_SECONDS" "charged_within lo hi"
  for lo hi
proof
  fix x y assume "row_step lo hi RUNTIME_SECONDS x y" and ok: "charged_within lo hi x"
  then show "charged_within lo hi y"
  proof (cases rule: row_step.cases)
    case (configured p)
    with ok show ?thesis
      by (cases x) (auto simp: charged_within_def preset_row_def split: option.splits)
  next
    case started
    with ok show ?thesis
      by (auto simp: charged_within_def start_row_def max_def split: option.splits)
  next
    case stopped
    with ok show ?thesis by (auto intro: charged_stop)
  qed (use ok in auto)
qed

section \<open>Reading a configured budget\<close>

lemma usage_item_Inr:
  "usage_item k now r = Inr u \<Longrightarrow> u_kind u = k \<and> u_limit u = b_limit r
     \<and> consumed u = b_consumed r + (case running_since r of None \<Rightarrow> 0 | Some a \<Rightarrow> elapsed_seconds now a)"
  by (auto simp: usage_item_def BudgetUsage_init_def rbind_eq_Inr_iff check_iffs)

lemma collect_usage_Inr:
  "collect_usage by_kind now ks = Inr us \<Longrightarrow>
     map u_kind us = ks \<and> list_all (\<lambda>u. \<exists>r. by_kind (u_kind u) = Some r
       \<and> usage_item (u_kind u) now r = Inr u) us"
proof (induction ks arbitrary: us)
  case (Cons k ks)
  then obtain r u us' where row: "by_kind k = Some r" "usage_item k now r = Inr u" "us = u # us'"
    and rest: "collect_usage by_kind now ks = Inr us'"
    by (auto simp: rbind_eq_Inr_iff split: option.splits)
  from usage_item_Inr [OF row(2)] row Cons.IH [OF rest] show ?case by auto
qed simp

lemma read_usage_Inr:
  assumes "read_usage s t reading = Inr us"
  obtains now where "reading = Inst now" and "map u_kind us = BudgetKind_members"
    and "\<And>u. u \<in> set us \<Longrightarrow> \<exists>r. budgets s t (u_kind u) = Some r \<and> usage_item (u_kind u) now r = Inr u"
  using assms
  by (auto simp: read_usage_def instant_now_def rbind_eq_Inr_iff list_all_iff
        split: arg.splits if_splits dest!: collect_usage_Inr)

lemma filter_kinds:
  assumes "distinct (map u_kind us)"
  shows "filter (\<lambda>k. k \<in> set (map u_kind (filter p us))) (map u_kind us) = map u_kind (filter p us)"
proof -
  have "(u_kind u \<in> u_kind ` {x \<in> set us. p x}) = p u" if "u \<in> set us" for u
    using assms that by (auto simp: distinct_map dest: inj_onD)
  then have "filter (\<lambda>u. u_kind u \<in> u_kind ` {x \<in> set us. p x}) us = filter p us"
    by (rule filter_cong [OF refl])
  then show ?thesis by (simp add: filter_map o_def)
qed

text \<open>The constructor of the verdict never refuses what \<open>check\<close> hands it.\<close>

lemma check_Inr:
  assumes "check_uuid ''task_id'' tid = Inr t" and "planned_amounts planned = Inr extra"
    and "read_usage s t reading = Inr us"
  shows "check s tid planned reading =
    Inr \<lparr>v_status = (if list_ex (over_limit extra) us then BudgetStatus_EXCEEDED else BudgetStatus_OK),
         exceeded = map u_kind (filter (over_limit extra) us), usages = us\<rparr>"
proof -
  from assms(3) have kinds: "map u_kind us = BudgetKind_members" by (rule read_usage_Inr)
  then have "filter (\<lambda>k. k \<in> set (map u_kind (filter (over_limit extra) us))) BudgetKind_members
      = map u_kind (filter (over_limit extra) us)"
    using filter_kinds [of us "over_limit extra"] by simp
  moreover have "list_ex (over_limit extra) us \<longleftrightarrow> filter (over_limit extra) us \<noteq> []"
    by (auto simp: list_ex_iff filter_empty_conv)
  ultimately show ?thesis
    using assms kinds by (simp add: check_def usage_def rbind_def BudgetVerdict_init_def Let_def)
qed

lemma collect_usage_total:
  assumes "\<And>k. k \<in> set ks \<Longrightarrow> \<exists>r. by_kind k = Some r \<and> (\<exists>u. usage_item k now r = Inr u)"
  shows "\<exists>us. collect_usage by_kind now ks = Inr us"
  using assms
proof (induction ks)
  case (Cons k ks)
  from Cons.IH Cons.prems obtain us where "collect_usage by_kind now ks = Inr us" by auto
  moreover from Cons.prems [of k] obtain r u where "by_kind k = Some r" "usage_item k now r = Inr u"
    by auto
  ultimately show ?case by (auto simp: rbind_def)
qed simp

lemma usage_item_total:
  assumes "budget_row_ok k r" and "\<And>a. running_since r = Some a \<Longrightarrow>
      elapsed_seconds now a \<le> MAX_LIMIT - MAX_CONSUMED"
  shows "\<exists>u. usage_item k now r = Inr u"
  using assms
  by (auto simp: usage_item_def BudgetUsage_init_def rbind_eq_Inr_iff check_int_def budget_row_ok_def
        rbind_def MAX_LIMIT_def MAX_CONSUMED_def split: option.splits)

lemma read_usage_total:
  assumes "\<And>k. \<exists>r. budgets s t k = Some r \<and> budget_row_ok k r
      \<and> (\<forall>a. running_since r = Some a \<longrightarrow> elapsed_seconds now a \<le> MAX_LIMIT - MAX_CONSUMED)"
  shows "\<exists>us. read_usage s t (Inst now) = Inr us"
proof -
  have "\<exists>r. budgets s t k = Some r \<and> (\<exists>u. usage_item k now r = Inr u)" for k
    using assms [of k] usage_item_total by blast
  then have "\<exists>us. collect_usage (budgets s t) now BudgetKind_members = Inr us"
    by (intro collect_usage_total) blast
  moreover have "\<not> list_all (\<lambda>k. budgets s t k = None) BudgetKind_members"
    using assms [of STEPS] by (auto simp: list_all_iff)
  ultimately show ?thesis by (simp add: read_usage_def instant_now_def rbind_def)
qed

end
