(* ===== verification/Task_Budget_Properties.thy ===== *)
theory Task_Budget_Properties
  imports Task_Budget
begin

text \<open>
  The properties of the budget service, with witnesses on a database of one running task
  that has a Standard budget and a runtime session in progress.
\<close>

section \<open>A small database\<close>

definition demo_budget :: "BudgetKind \<Rightarrow> BudgetUsageRow option" where
  "demo_budget k = Some (if k = RUNTIME_SECONDS
     then \<lparr>b_preset = STANDARD, b_consumed = 10, b_limit = Some 3600, running_since = Some 20000000,
           runtime_generation = 2, settled_through = Some 15000000\<rparr>
     else preset_row STANDARD k None)"

definition demo_budgets :: store where
  "demo_budgets =
     \<lparr>tasks = [7 \<mapsto> \<lparr>t_project_id = 3, t_state = TaskState_RUNNING, t_attempt = 1, t_retry_count = 0\<rparr>],
      projects = [3 \<mapsto> ProjectStatus_ACTIVE], maintenance = False, entries = [], next_entry_id = 1,
      budgets = (\<lambda>_ _. None)(7 := demo_budget), failures = [], next_seq = 1\<rparr>"

lemma demo_budget_rows [simp]:
  "budgets demo_budgets 7 k = demo_budget k"
  "demo_budget RUNTIME_SECONDS = Some \<lparr>b_preset = STANDARD, b_consumed = 10, b_limit = Some 3600,
     running_since = Some 20000000, runtime_generation = 2, settled_through = Some 15000000\<rparr>"
  "k \<noteq> RUNTIME_SECONDS \<Longrightarrow> demo_budget k = Some (preset_row STANDARD k None)"
  by (simp_all add: demo_budgets_def demo_budget_def)

section \<open>Rows\<close>

text \<open>
  No run of the service breaks a row: the consumption stays between 0 and
  \<open>MAX_CONSUMED\<close> (it saturates), only the runtime row has a timer or a session, and a running
  timer never starts before the cutoff it settled through.
\<close>

theorem budget_rows_kept:
  assumes "(bstep lo hi)\<^sup>*\<^sup>* s s'" and "budget_wf k (budgets s t k)" and "budgets s' t k = Some r"
  shows "budget_row_ok k r"
  using budget_rows.run_inv [OF bstep_run_row [OF assms(1)] assms(2)] assms(3)
  by (simp add: budget_wf_def)

theorem budget_rows_kept_witness:
  "budget_row_ok RUNTIME_SECONDS
     \<lparr>b_preset = STANDARD, b_consumed = 10, b_limit = Some 3600, running_since = Some 20000000,
      runtime_generation = 2, settled_through = Some 15000000\<rparr>"
  by (rule budget_rows_kept [where s = demo_budgets and s' = demo_budgets and t = 7])
    (simp_all add: budget_wf_def budget_row_ok_def MAX_CONSUMED_def MAX_LIMIT_def)

text \<open>
  The stop of a superseded runtime session is refused
  (\<open>StaleRuntimeSessionError\<close>, nothing written) in every state any run can reach, so it
  never settles or clears the timer of the session that took over.
\<close>

theorem stale_stop_refused:
  assumes "(bstep lo hi)\<^sup>*\<^sup>* s s'" and "1 \<le> g" and "g < session_of (budgets s t RUNTIME_SECONDS)"
    and "g \<le> MAX_RUNTIME_GENERATION"
  shows "stop_runtime s' (PyUuid t) (PyInt g) (Inst now) reading = Inl StaleRuntimeSessionError"
proof -
  let ?x = "budgets s' t RUNTIME_SECONDS"
  have "session_of (budgets s t RUNTIME_SECONDS) \<le> session_of ?x"
    by (rule session_fence.run_token_mono [OF bstep_run_row [OF assms(1)]])
  with assms(2,3) obtain r' where "?x = Some r'" "g < runtime_generation r'"
    by (cases ?x) (auto simp: session_of_def)
  with assms(2,4) show ?thesis
    by (simp add: stop_runtime_def rbind_def check_uuid_def checks_by_int check_int_def instant_now_def)
qed

theorem stale_stop_refused_witness:
  "stop_runtime demo_budgets (PyUuid 7) (PyInt 1) (Inst 30000000) (Inst 0)
     = Inl StaleRuntimeSessionError"
  by (rule stale_stop_refused [OF rtranclp.rtrancl_refl, where t = 7])
    (simp_all add: session_of_def MAX_RUNTIME_GENERATION_def)

text \<open>
  C6: when every clock reading of a run lies between \<open>lo\<close> and \<open>hi\<close>, in whatever
  order and however often sessions start, stop and take over, a budget configured during the
  run has charged at most \<open>hi - lo\<close>, and so does what a later \<open>usage\<close> reports, the running
  session included: no interval of time is charged twice.
\<close>

theorem runtime_never_charged_twice:
  assumes "(bstep lo hi)\<^sup>*\<^sup>* s s'" and "budgets s t RUNTIME_SECONDS = None"
    and "usage s' (PyUuid t) (Inst now) = Inr us" and "u \<in> set us" and "u_kind u = RUNTIME_SECONDS"
    and "lo \<le> now" and "now \<le> hi"
  shows "consumed u * 1000000 \<le> hi - lo"
proof -
  from assms(3) have "read_usage s' t (Inst now) = Inr us" by (simp add: usage_def rbind_def check_uuid_def)
  with assms(4,5) obtain r where r: "budgets s' t RUNTIME_SECONDS = Some r"
    and "usage_item RUNTIME_SECONDS now r = Inr u"
    by (elim read_usage_Inr) fastforce
  then have u: "consumed u = b_consumed r
      + (case running_since r of None \<Rightarrow> 0 | Some a \<Rightarrow> elapsed_seconds now a)"
    by (auto dest: usage_item_Inr)
  from runtime_charges.run_inv [OF bstep_run_row [OF assms(1), of RUNTIME_SECONDS t]] assms(2) r
  have within: "charged_within lo hi (Some r)" by (simp add: charged_within_def)
  show ?thesis
  proof (cases "running_since r")
    case None
    with within u assms(6,7) show ?thesis by (auto simp: charged_within_def split: option.splits)
  next
    case (Some a)
    with within have "b_consumed r * 1000000 \<le> a - lo" "a \<le> hi"
      by (auto simp: charged_within_def split: option.splits)
    with elapsed_bound [of now a] Some u assms(7) show ?thesis by (auto simp: max_def split: if_splits)
  qed
qed

text \<open>The same database before its budget was configured, and one second after a start.\<close>

definition demo_started :: store where
  "demo_started =
     (case set_preset_in True (demo_budgets\<lparr>budgets := \<lambda>_ _. None\<rparr>) (PyUuid 7) (Inst STANDARD) of
        Inl _ \<Rightarrow> demo_budgets
      | Inr s \<Rightarrow> (case start_runtime s (PyUuid 7) (Inst 4000000) of Inl _ \<Rightarrow> s | Inr (_, s') \<Rightarrow> s'))"

lemma demo_started_run: "(bstep 0 5000000)\<^sup>*\<^sup>* (demo_budgets\<lparr>budgets := \<lambda>_ _. None\<rparr>) demo_started"
proof -
  let ?s0 = "demo_budgets\<lparr>budgets := \<lambda>_ _. None\<rparr>"
  obtain s1 where s1: "set_preset_in True ?s0 (PyUuid 7) (Inst STANDARD) = Inr s1"
    and rows: "budgets s1 7 RUNTIME_SECONDS = Some (preset_row STANDARD RUNTIME_SECONDS None)"
    by (simp add: set_preset_in_def check_session_def check_uuid_def check_member_def rbind_def
        preset_upsert_def demo_budgets_def)
  from rows obtain g where s2: "start_runtime s1 (PyUuid 7) (Inst 4000000) = Inr (g, demo_started)"
    using s1 by (auto simp: start_runtime_def rbind_def check_uuid_def instant_now_def
        start_statement_def preset_row_def MAX_RUNTIME_GENERATION_def demo_started_def)
  from s1 have "bstep 0 5000000 ?s0 s1" by (rule bstep.preset_in)
  moreover from s2 have "bstep 0 5000000 s1 demo_started" by (rule bstep.start [rotated 2]) simp_all
  ultimately show ?thesis by simp
qed

theorem runtime_never_charged_twice_witness:
  "\<exists>us u. usage demo_started (PyUuid 7) (Inst 5000000) = Inr us \<and> u \<in> set us
     \<and> u_kind u = RUNTIME_SECONDS \<and> consumed u * 1000000 \<le> 5000000 - 0"
proof -
  have rows: "\<exists>r. budgets demo_started 7 k = Some r \<and> budget_row_ok k r
      \<and> (\<forall>a. running_since r = Some a \<longrightarrow> elapsed_seconds 5000000 a \<le> MAX_LIMIT - MAX_CONSUMED)" for k
    by (cases k) (simp_all add: demo_started_def set_preset_in_def check_session_def check_uuid_def
        check_member_def rbind_def preset_upsert_def demo_budgets_def start_runtime_def instant_now_def
        start_statement_def start_row_def preset_row_def MAX_RUNTIME_GENERATION_def budget_row_ok_def
        elapsed_seconds_def MAX_LIMIT_def MAX_CONSUMED_def)
  obtain us where us: "read_usage demo_started 7 (Inst 5000000) = Inr us"
    using read_usage_total [OF rows] by blast
  then have use: "usage demo_started (PyUuid 7) (Inst 5000000) = Inr us"
    by (simp add: usage_def rbind_def check_uuid_def)
  from us have "map u_kind us = BudgetKind_members" by (rule read_usage_Inr)
  then have "RUNTIME_SECONDS \<in> u_kind ` set us" by (metis BudgetKind_members_all set_map)
  then obtain u where u: "u \<in> set us" "u_kind u = RUNTIME_SECONDS" by auto
  from runtime_never_charged_twice [OF demo_started_run _ use u] use u show ?thesis by auto
qed

text \<open>
  For a configured task, \<open>check\<close> with valid planned amounts always gives a verdict
  (the verdict's own constructor never rejects it), lists the six usages in declaration order,
  and reports a kind as exceeded exactly when it has a limit and consumed plus planned is
  above it; the status is EXCEEDED exactly when some kind is.
\<close>

theorem check_verdict:
  assumes "planned_amounts planned = Inr extra"
    and "\<And>k. \<exists>r. budgets s t k = Some r \<and> budget_row_ok k r
      \<and> (\<forall>a. running_since r = Some a \<longrightarrow> elapsed_seconds now a \<le> MAX_LIMIT - MAX_CONSUMED)"
  shows "\<exists>v. check s (PyUuid t) planned (Inst now) = Inr v
    \<and> usage s (PyUuid t) (Inst now) = Inr (usages v) \<and> map u_kind (usages v) = BudgetKind_members
    \<and> (\<forall>k. k \<in> set (exceeded v) \<longleftrightarrow> (\<exists>u \<in> set (usages v). u_kind u = k
          \<and> (\<exists>l. u_limit u = Some l \<and> l < consumed u + extra_of extra k)))
    \<and> (v_status v = BudgetStatus_EXCEEDED \<longleftrightarrow> exceeded v \<noteq> [])"
proof -
  from read_usage_total [OF assms(2)] obtain us where us: "read_usage s t (Inst now) = Inr us" by blast
  from us have kinds: "map u_kind us = BudgetKind_members" by (rule read_usage_Inr)
  have uuid: "check_uuid ''task_id'' (PyUuid t) = Inr t" by (simp add: check_uuid_def)
  have usage: "usage s (PyUuid t) (Inst now) = Inr us" using us uuid by (simp add: usage_def rbind_def)
  show ?thesis
    unfolding check_Inr [OF uuid assms(1) us] sum.inject BudgetVerdict.ext_inject ex_simps
    by (rule exI, rule conjI [OF refl])
      (auto simp: usage kinds over_limit_def list_ex_iff filter_empty_conv image_iff
        split: option.splits)
qed

theorem check_verdict_witness:
  "\<exists>v. check demo_budgets (PyUuid 7) (Some (Inst [(Inst STEPS, PyInt 51)])) (Inst 30000000) = Inr v
     \<and> STEPS \<in> set (exceeded v) \<and> v_status v = BudgetStatus_EXCEEDED"
proof -
  have plan: "planned_amounts (Some (Inst [(Inst STEPS, PyInt 51)])) = Inr [(STEPS, 51)]"
    by (simp add: planned_amounts_def rbind_def check_member_def checks_by_int check_int_def
        MAX_RECORD_AMOUNT_def)
  have rows: "\<exists>r. budgets demo_budgets 7 k = Some r \<and> budget_row_ok k r
      \<and> (\<forall>a. running_since r = Some a \<longrightarrow> elapsed_seconds 30000000 a \<le> MAX_LIMIT - MAX_CONSUMED)" for k
    by (cases k) (simp_all add: budget_row_ok_def preset_row_def elapsed_seconds_def MAX_LIMIT_def
        MAX_CONSUMED_def)
  from check_verdict [OF plan rows] obtain v where
    v: "check demo_budgets (PyUuid 7) (Some (Inst [(Inst STEPS, PyInt 51)])) (Inst 30000000) = Inr v"
    and us: "read_usage demo_budgets 7 (Inst 30000000) = Inr (usages v)"
      "map u_kind (usages v) = BudgetKind_members"
    and ex: "\<And>k. k \<in> set (exceeded v) \<longleftrightarrow> (\<exists>u \<in> set (usages v). u_kind u = k
          \<and> (\<exists>l. u_limit u = Some l \<and> l < consumed u + extra_of [(STEPS, 51)] k))"
      "v_status v = BudgetStatus_EXCEEDED \<longleftrightarrow> exceeded v \<noteq> []"
    by (auto simp: usage_def rbind_def check_uuid_def)
  from us(2) have "STEPS \<in> u_kind ` set (usages v)"
    by (metis BudgetKind_members_all set_map)
  then obtain u where u: "u \<in> set (usages v)" "u_kind u = STEPS" by auto
  from us(1) u have "usage_item STEPS 30000000 (preset_row STANDARD STEPS None) = Inr u"
    by (elim read_usage_Inr) fastforce
  then have "u_limit u = Some 50" "consumed u = 0"
    by (auto simp: preset_row_def dest: usage_item_Inr)
  with u have "STEPS \<in> set (exceeded v)" unfolding ex(1)
    by (intro bexI [of _ u]) (simp_all add: extra_of_def)
  with v ex(2) show ?thesis by auto
qed

section \<open>Charging and configuring\<close>

text \<open>
  A charge on behalf of a run of the task writes nothing unless the task exists,
  has not ended and is in exactly that run (and, for a charge that starts work, is running);
  otherwise it adds the amount to that one row, saturating at \<open>MAX_CONSUMED\<close>, and every other
  row keeps its value.
\<close>

theorem record_outcomes:
  assumes "k \<noteq> RUNTIME_SECONDS" and "0 \<le> a" and "a \<le> MAX_RECORD_AMOUNT" and "\<And>k. budget_wf k (budgets s t k)"
  shows "case record_usage s (PyUuid t) (Inst k) (PyInt a) (Some (Inst run)) (PyBool b) of
      Inl e \<Rightarrow>
        (if \<forall>row. tasks s t = Some row \<longrightarrow> t_state row \<in> TERMINAL_STATES
              \<or> run_attempt run \<noteq> t_attempt row \<or> run_retry_count run \<noteq> t_retry_count row
         then e = StaleRunError
         else if b \<and> map_option t_state (tasks s t) \<noteq> Some TaskState_RUNNING then e = TaskNotRunningError
         else e = BudgetNotConfiguredError \<and> budgets s t k = None)
    | Inr (u, s') \<Rightarrow>
        (\<exists>row r. tasks s t = Some row \<and> t_state row \<notin> TERMINAL_STATES
           \<and> run_attempt run = t_attempt row \<and> run_retry_count run = t_retry_count row
           \<and> (b \<longrightarrow> t_state row = TaskState_RUNNING) \<and> budgets s t k = Some r
           \<and> consumed u = min (b_consumed r + a) MAX_CONSUMED
           \<and> budgets s' t k = Some (r\<lparr>b_consumed := consumed u\<rparr>)
           \<and> (\<forall>t' k'. (t', k') \<noteq> (t, k) \<longrightarrow> budgets s' t' k' = budgets s t' k'))"
proof -
  have eq: "record_usage s (PyUuid t) (Inst k) (PyInt a) (Some (Inst run)) (PyBool b)
      = record_run s t k a (Some run) b"
    using assms(1-3) by (simp add: record_usage_def check_record_def rbind_def check_uuid_def
        check_member_def checks_by_int check_int_def check_run_def check_bool_def)
  have run_eq: "\<lparr>run_attempt = x, run_retry_count = y\<rparr> = run
      \<longleftrightarrow> run_attempt run = x \<and> run_retry_count run = y" for x y
    by (cases run) auto
  show ?thesis
  proof (cases "require_run s t run b")
    case (Inl e)
    then show ?thesis
      by (auto simp: eq record_run_def rbind_def require_run_def run_eq split: option.splits if_splits)
  next
    case (Inr x)
    then obtain row where row: "tasks s t = Some row" "t_state row \<notin> TERMINAL_STATES"
      "run_attempt run = t_attempt row" "run_retry_count run = t_retry_count row"
      "b \<longrightarrow> t_state row = TaskState_RUNNING"
      by (auto simp: require_run_def run_eq split: option.splits if_splits)
    show ?thesis
    proof (cases "budgets s t k")
      case None
      with Inr row show ?thesis by (auto simp: eq record_run_def rbind_def)
    next
      case (Some r)
      with assms(4) [of k] have "budget_row_ok k r" by (simp add: budget_wf_def)
      then have "BudgetUsage_init k (min (b_consumed r + a) MAX_CONSUMED) (b_limit r)
          = Inr \<lparr>u_kind = k, consumed = min (b_consumed r + a) MAX_CONSUMED, u_limit = b_limit r\<rparr>"
        using assms(2) by (intro BudgetUsage_init_ok) (auto simp: budget_row_ok_def MAX_LIMIT_def
            MAX_CONSUMED_def)
      with Inr Some row show ?thesis by (auto simp: eq record_run_def rbind_def Let_def)
    qed
  qed
qed

theorem record_outcomes_witness:
  "case record_usage demo_budgets (PyUuid 7) (Inst STEPS) (PyInt 3)
       (Some (Inst \<lparr>run_attempt = 1, run_retry_count = 1\<rparr>)) (PyBool True) of
     Inl e \<Rightarrow> e = StaleRunError | Inr _ \<Rightarrow> False"
proof -
  have ok: "budget_wf k (budgets demo_budgets 7 k)" for k
    by (cases k) (simp_all add: budget_wf_def budget_row_ok_def preset_row_def MAX_LIMIT_def
        MAX_CONSUMED_def)
  have t: "tasks demo_budgets 7 = Some \<lparr>t_project_id = 3, t_state = TaskState_RUNNING, t_attempt = 1,
      t_retry_count = 0\<rparr>"
    by (simp add: demo_budgets_def)
  from record_outcomes [where k = STEPS and a = 3 and s = demo_budgets and t = 7
      and run = "\<lparr>run_attempt = 1, run_retry_count = 1\<rparr>" and b = True, OF _ _ _ ok]
  show ?thesis by (simp add: MAX_RECORD_AMOUNT_def t split: sum.splits prod.splits)
qed

text \<open>
  Setting a preset gives every kind the preset's limit and changes nothing else of
  an existing row: the consumption, the timer, the session and the cutoff are kept, so
  reconfiguring never hands back spent budget; a task without a budget starts at zero, and
  other tasks are untouched.
\<close>

theorem set_preset_keeps_consumption:
  assumes "set_preset_in True s (PyUuid t) (Inst p) = Inr s'"
  shows "tasks s t \<noteq> None
    \<and> (\<forall>k. \<exists>r'. budgets s' t k = Some r' \<and> b_preset r' = p \<and> b_limit r' = PRESET_LIMITS p k
        \<and> (case budgets s t k of
             None \<Rightarrow> b_consumed r' = 0 \<and> running_since r' = None \<and> runtime_generation r' = 0
           | Some r \<Rightarrow> b_consumed r' = b_consumed r \<and> running_since r' = running_since r
               \<and> runtime_generation r' = runtime_generation r \<and> settled_through r' = settled_through r))
    \<and> (\<forall>t'. t' \<noteq> t \<longrightarrow> budgets s' t' = budgets s t')"
proof -
  from assms have up: "preset_upsert s t p = Inr s'"
    by (simp add: set_preset_in_def rbind_def check_session_def check_uuid_def check_member_def)
  have "\<exists>r'. budgets s' t k = Some r' \<and> b_preset r' = p \<and> b_limit r' = PRESET_LIMITS p k
        \<and> (case budgets s t k of
             None \<Rightarrow> b_consumed r' = 0 \<and> running_since r' = None \<and> runtime_generation r' = 0
           | Some r \<Rightarrow> b_consumed r' = b_consumed r \<and> running_since r' = running_since r
               \<and> runtime_generation r' = runtime_generation r \<and> settled_through r' = settled_through r)"
    for k
    using preset_upsert_rows [OF up, of t k] by (auto simp: preset_row_def split: option.splits)
  then show ?thesis using preset_upsert_rows [OF up] by (auto simp: fun_eq_iff)
qed

theorem set_preset_keeps_consumption_witness:
  "\<exists>s' r'. set_preset_in True demo_budgets (PyUuid 7) (Inst LONG) = Inr s'
     \<and> budgets s' 7 RUNTIME_SECONDS = Some r' \<and> b_consumed r' = 10 \<and> runtime_generation r' = 2
     \<and> b_limit r' = Some 14400"
proof -
  obtain s' where run: "set_preset_in True demo_budgets (PyUuid 7) (Inst LONG) = Inr s'"
    by (simp add: set_preset_in_def rbind_def check_session_def check_uuid_def check_member_def
        preset_upsert_def demo_budgets_def)
  from set_preset_keeps_consumption [OF run] obtain r' where
    "budgets s' 7 RUNTIME_SECONDS = Some r'" "b_limit r' = PRESET_LIMITS LONG RUNTIME_SECONDS"
    "b_consumed r' = 10 \<and> runtime_generation r' = 2"
    by (fastforce dest: spec [of _ RUNTIME_SECONDS])
  with run show ?thesis by simp
qed

end
