(* ===== verification/Task_Loop.thy ===== *)
theory Task_Loop
  imports Task_Store
begin

text \<open>
  Failure loops (\<^verbatim>\<open>paw_backend/tasks/queueing/loop.py\<close>) and the next action
  (\<^verbatim>\<open>paw_backend/tasks/queueing/escalation.py\<close>): a failure becomes a signature that ignores ids,
  hashes and numbers, the detector stores a bounded window of signatures per task, and a
  failure that repeats within one approach of the task's current attempt is a loop.

  The Unicode tables and the hash are parameters (\<open>text_lib\<close>): NFKC, case folding, the
  classes \<^verbatim>\<open>\w\<close> and \<^verbatim>\<open>\d\<close> of Python's regular expressions, and SHA-256 of the UTF-8 encoding
  as hexadecimal text.
\<close>

section \<open>Normalisation of failure messages\<close>

record text_lib =
  nfkc :: "pystr \<Rightarrow> pystr"
  casefold :: "pystr \<Rightarrow> pystr"
  is_word :: "nat \<Rightarrow> bool"
  is_digit :: "nat \<Rightarrow> bool"
  sha256_hex :: "pystr \<Rightarrow> pystr"

text \<open>
  \<^verbatim>\<open>pattern.sub(replacement, text)\<close> for patterns that match no empty text: \<open>m prev s\<close> is the
  length of the match at the head of \<open>s\<close> (0: none), \<open>prev\<close> the character before it.
\<close>

function re_sub :: "(nat option \<Rightarrow> pystr \<Rightarrow> nat) \<Rightarrow> pystr \<Rightarrow> nat option \<Rightarrow> pystr \<Rightarrow> pystr" where
  "re_sub m repl prev [] = []"
| "re_sub m repl prev (c # cs) =
     (let n = m prev (c # cs)
      in if 0 < n then repl @ re_sub m repl (Some (last (take n (c # cs)))) (drop n (c # cs))
         else c # re_sub m repl (Some c) cs)"
  by pat_completeness auto
termination
  by (relation "measure (\<lambda>(_, _, _, s). length s)") auto

text \<open>\<^verbatim>\<open>\b\<close> between two characters (\<open>None\<close>: the end of the text).\<close>

definition boundary :: "text_lib \<Rightarrow> nat option \<Rightarrow> nat option \<Rightarrow> bool" where
  "boundary lib a b \<longleftrightarrow>
     (case a of None \<Rightarrow> False | Some c \<Rightarrow> is_word lib c) \<noteq> (case b of None \<Rightarrow> False | Some c \<Rightarrow> is_word lib c)"

definition head :: "pystr \<Rightarrow> nat option" where
  "head s = (case s of [] \<Rightarrow> None | c # _ \<Rightarrow> Some c)"

definition hex_run :: "pystr \<Rightarrow> pystr" where
  "hex_run s = takeWhile is_hex_lower s"

text \<open>The groups of hexadecimal digits of a UUID, separated by hyphens.\<close>

fun hex_groups :: "nat list \<Rightarrow> pystr \<Rightarrow> bool" where
  "hex_groups [] s = True"
| "hex_groups [n] s = (n \<le> length s \<and> list_all is_hex_lower (take n s))"
| "hex_groups (n # ns) s =
     (n < length s \<and> list_all is_hex_lower (take n s) \<and> s ! n = 45 \<and> hex_groups ns (drop (n + 1) s))"

definition match_uuid :: "text_lib \<Rightarrow> nat option \<Rightarrow> pystr \<Rightarrow> nat" where
  "match_uuid lib prev s =
     (if boundary lib prev (head s) \<and> hex_groups [8, 4, 4, 4, 12] s
         \<and> boundary lib (Some (s ! 35)) (head (drop 36 s))
      then 36 else 0)"

text \<open>
  A run of hexadecimal characters ends at a word boundary only at its end (they are word
  characters), so the greedy run is the only match.
\<close>

definition match_prefixed_hex :: "text_lib \<Rightarrow> nat option \<Rightarrow> pystr \<Rightarrow> nat" where
  "match_prefixed_hex lib prev s =
     (let run = hex_run (drop 2 s); rest = drop (2 + length run) s
      in if boundary lib prev (head s) \<and> take 2 s = cp ''0x'' \<and> run \<noteq> []
            \<and> boundary lib (Some (last run)) (head rest)
         then 2 + length run else 0)"

definition match_hex_token :: "text_lib \<Rightarrow> nat option \<Rightarrow> pystr \<Rightarrow> nat" where
  "match_hex_token lib prev s =
     (let run = hex_run s; rest = drop (length run) s
      in if boundary lib prev (head s)
            \<and> list_ex (\<lambda>c. 97 \<le> c) run
            \<and> (list_ex (is_digit lib) run \<or> (case head rest of None \<Rightarrow> False | Some c \<Rightarrow> is_digit lib c))
            \<and> 7 \<le> length run \<and> length run \<le> 64
            \<and> boundary lib (Some (last run)) (head rest)
         then length run else 0)"

definition match_digits :: "text_lib \<Rightarrow> nat option \<Rightarrow> pystr \<Rightarrow> nat" where
  "match_digits lib prev s = length (takeWhile (is_digit lib) s)"

text \<open>\<^verbatim>\<open>" ".join(text.split())\<close>\<close>

fun split_words :: "pystr \<Rightarrow> pystr list" where
  "split_words [] = []"
| "split_words (c # cs) =
     (if is_space c then split_words cs
      else (case cs of
              [] \<Rightarrow> [[c]]
            | d # _ \<Rightarrow>
                if is_space d then [c] # split_words cs
                else (case split_words cs of [] \<Rightarrow> [[c]] | w # ws \<Rightarrow> (c # w) # ws)))"

fun join_words :: "pystr list \<Rightarrow> pystr" where
  "join_words [] = []"
| "join_words [w] = w"
| "join_words (w # ws) = w @ 32 # join_words ws"

definition normalize_failure_message :: "text_lib \<Rightarrow> pyval \<Rightarrow> task_error + pystr" where
  "normalize_failure_message lib message =
     rbind (check_message message) (\<lambda>msg.
       let t0 = casefold lib (nfkc lib (take MAX_SIGNATURE_MESSAGE_CHARS msg));
           t1 = re_sub (match_uuid lib) (cp ''<uuid>'') None t0;
           t2 = re_sub (match_prefixed_hex lib) (cp ''<hex>'') None t1;
           t3 = re_sub (match_hex_token lib) (cp ''<hex>'') None t2;
           t4 = re_sub (match_digits lib) (cp ''<n>'') None t3
       in Inr (join_words (split_words t4)))"

definition failure_signature :: "text_lib \<Rightarrow> pyval \<Rightarrow> pyval \<Rightarrow> pyval \<Rightarrow> task_error + pystr" where
  "failure_signature lib error_class step message =
     rbind (check_error_class error_class) (\<lambda>e.
     rbind (check_step_name step) (\<lambda>st.
     rbind (check_message message) (\<lambda>_.
     rbind (normalize_failure_message lib message) (\<lambda>m.
       Inr (sha256_hex lib (e @ [31] @ st @ [31] @ m))))))"

section \<open>Evaluation of a history\<close>

definition LoopAssessment_init ::
  "LoopVerdict \<Rightarrow> pystr option \<Rightarrow> int option \<Rightarrow> int \<Rightarrow> task_error + LoopAssessment" where
  "LoopAssessment_init v sig app n =
     rbind (case sig of None \<Rightarrow> Inr () | Some x \<Rightarrow> rbind (check_signature (PyStr x)) (\<lambda>_. Inr ())) (\<lambda>_.
     rbind (case app of None \<Rightarrow> Inr () | Some a \<Rightarrow> rbind (check_approach (PyInt a)) (\<lambda>_. Inr ())) (\<lambda>_.
     rbind (check_int ''repeats'' (PyInt n) 0 (10 ^ 9)) (\<lambda>_.
       Inr \<lparr>la_verdict = v, la_signature = sig, la_approach = app, repeats = n\<rparr>)))"

definition window :: "LoopPolicy \<Rightarrow> nat" where
  "window p = nat (window_size p)"

definition loop_verdict :: "LoopPolicy \<Rightarrow> FailureRecord \<Rightarrow> int \<Rightarrow> LoopVerdict" where
  "loop_verdict p lst n =
     (if n < repeat_threshold p then CONTINUE_LOOP
      else if f_approach lst < max_alternatives p then TRY_ALTERNATIVE_LOOP
      else ESCALATE)"

definition repeats_of :: "LoopPolicy \<Rightarrow> FailureRecord list \<Rightarrow> int" where
  "repeats_of p history =
     int (length (filter (\<lambda>r. f_signature r = f_signature (last history)
                            \<and> f_approach r = f_approach (last history))
                 (last_n (window p) history)))"

definition evaluate_history :: "LoopPolicy \<Rightarrow> FailureRecord list \<Rightarrow> task_error + LoopAssessment" where
  "evaluate_history p history =
     (if history = [] then LoopAssessment_init CONTINUE_LOOP None None 0
      else LoopAssessment_init (loop_verdict p (last history) (repeats_of p history))
             (Some (f_signature (last history))) (Some (f_approach (last history))) (repeats_of p history))"

fun all_records :: "FailureRecord arg list \<Rightarrow> FailureRecord list option" where
  "all_records [] = Some []"
| "all_records (Inst r # rs) = map_option ((#) r) (all_records rs)"
| "all_records (Other # rs) = None"

text \<open>\<open>history\<close>: a list or tuple (its elements), or any other object.\<close>

definition evaluate_loop ::
  "FailureRecord arg list arg \<Rightarrow> LoopPolicy arg \<Rightarrow> task_error + LoopAssessment" where
  "evaluate_loop history policy =
     (case history of
        Other \<Rightarrow> reject ''history''
      | Inst rs \<Rightarrow>
          (case all_records rs of
             None \<Rightarrow> reject ''history''
           | Some h \<Rightarrow>
               (case policy of Other \<Rightarrow> reject ''policy'' | Inst p \<Rightarrow> evaluate_history p h)))"

section \<open>The detector\<close>

definition LoopDetector_init :: "LoopPolicy arg \<Rightarrow> task_error + LoopPolicy" where
  "LoopDetector_init policy = check_member ''policy'' policy"

definition require_current_attempt ::
  "store \<Rightarrow> uuid \<Rightarrow> int \<Rightarrow> TaskRun option \<Rightarrow> task_error + unit" where
  "require_current_attempt s t attempt run =
     (case tasks s t of
        None \<Rightarrow> Inl TaskNotFoundError
      | Some row \<Rightarrow>
          if t_attempt row \<noteq> attempt then Inl StaleAttemptError
          else
            (case run of
               None \<Rightarrow> Inr ()
             | Some r \<Rightarrow>
                 if t_retry_count row \<noteq> run_retry_count r \<or> t_state row \<in> TERMINAL_STATES
                 then Inl StaleRunError else Inr ()))"

definition task_rows :: "store \<Rightarrow> uuid \<Rightarrow> FailureSignatureRow list" where
  "task_rows s t = sort_key fs_seq (filter (\<lambda>r. fs_task_id r = t) (failures s))"

fun records_of :: "FailureSignatureRow list \<Rightarrow> task_error + FailureRecord list" where
  "records_of [] = Inr []"
| "records_of (r # rs) =
     rbind (FailureRecord_init (PyStr (fs_signature r)) (PyInt (fs_approach r))) (\<lambda>x.
     rbind (records_of rs) (\<lambda>xs. Inr (x # xs)))"

definition read_history :: "store \<Rightarrow> uuid \<Rightarrow> task_error + FailureRecord list" where
  "read_history s t =
     (case tasks s t of
        None \<Rightarrow> Inr []
      | Some row \<Rightarrow> records_of (filter (\<lambda>r. fs_attempt r = t_attempt row) (task_rows s t)))"

definition history :: "store \<Rightarrow> pyval \<Rightarrow> task_error + FailureRecord list" where
  "history s tid = rbind (check_uuid ''task_id'' tid) (\<lambda>t. read_history s t)"

definition assess :: "LoopPolicy \<Rightarrow> store \<Rightarrow> pyval \<Rightarrow> task_error + LoopAssessment" where
  "assess p s tid = rbind (history s tid) (\<lambda>h. evaluate_loop (Inst (map Inst h)) (Inst p))"

definition add_failure :: "store \<Rightarrow> uuid \<Rightarrow> int \<Rightarrow> int \<Rightarrow> pystr \<Rightarrow> store" where
  "add_failure s t attempt approach sig =
     s\<lparr>failures := failures s @ [\<lparr>fs_seq = next_seq s, fs_task_id = t, fs_attempt = attempt,
                                  fs_approach = approach, fs_signature = sig\<rparr>],
       next_seq := next_seq s + 1\<rparr>"

text \<open>Delete the task's rows that are not among its newest \<open>window_size\<close>.\<close>

definition trim_window :: "LoopPolicy \<Rightarrow> store \<Rightarrow> uuid \<Rightarrow> store" where
  "trim_window p s t =
     (let newest = map fs_seq (last_n (window p) (task_rows s t))
      in s\<lparr>failures := filter (\<lambda>r. \<not> (fs_task_id r = t \<and> fs_seq r \<notin> set newest)) (failures s)\<rparr>)"

definition check_failure_run :: "TaskRun arg option \<Rightarrow> int \<Rightarrow> task_error + TaskRun option" where
  "check_failure_run run attempt =
     (case run of
        None \<Rightarrow> Inr None
      | Some Other \<Rightarrow> reject ''run''
      | Some (Inst r) \<Rightarrow> if run_attempt r \<noteq> attempt then reject ''run'' else Inr (Some r))"

definition record_failure ::
  "text_lib \<Rightarrow> LoopPolicy \<Rightarrow> store \<Rightarrow> pyval \<Rightarrow> pyval \<Rightarrow> pyval \<Rightarrow> pyval \<Rightarrow> pyval \<Rightarrow> pyval \<Rightarrow> TaskRun arg option
     \<Rightarrow> task_error + LoopAssessment \<times> store" where
  "record_failure lib p s tid attempt error_class step message approach run =
     rbind (check_uuid ''task_id'' tid) (\<lambda>t.
     rbind (check_attempt attempt) (\<lambda>att.
     rbind (check_approach approach) (\<lambda>app.
     rbind (check_failure_run run att) (\<lambda>r.
     rbind (failure_signature lib error_class step message) (\<lambda>sig.
     rbind (require_current_attempt s t att r) (\<lambda>_.
       let s' = trim_window p (add_failure s t att app sig) t
       in rbind (read_history s' t) (\<lambda>h.
          rbind (evaluate_loop (Inst (map Inst h)) (Inst p)) (\<lambda>a. Inr (a, s')))))))))"

definition clear_previous_attempts :: "store \<Rightarrow> pyval \<Rightarrow> task_error + int \<times> store" where
  "clear_previous_attempts s tid =
     rbind (check_uuid ''task_id'' tid) (\<lambda>t.
       let old = (\<lambda>r. fs_task_id r = t
             \<and> (case tasks s t of None \<Rightarrow> False | Some row \<Rightarrow> fs_attempt r < t_attempt row))
       in Inr (int (length (filter old (failures s))),
               s\<lparr>failures := filter (\<lambda>r. \<not> old r) (failures s)\<rparr>))"

section \<open>The next action\<close>

definition decide_next_action ::
  "BudgetVerdict arg \<Rightarrow> LoopVerdict arg \<Rightarrow> pyval \<Rightarrow> task_error + QueueDecision" where
  "decide_next_action budget loop can_escalate =
     rbind (check_member ''budget'' budget) (\<lambda>b.
     rbind (check_member ''loop'' loop) (\<lambda>l.
     rbind (check_bool ''can_escalate'' can_escalate) (\<lambda>esc.
       let (action, reason) =
         (if v_status b = BudgetStatus_EXCEEDED
          then (if RETRIES \<in> set (exceeded b) then FAIL_TASK else WAIT_FOR_USER, BUDGET_EXCEEDED)
          else if l = ESCALATE \<and> esc then (ESCALATE_AGENT, LOOP_ESCALATE)
          else if l = ESCALATE then (WAIT_FOR_USER, LOOP_ESCALATION_UNAVAILABLE)
          else if l = TRY_ALTERNATIVE_LOOP then (TRY_ALTERNATIVE, LOOP_TRY_ALTERNATIVE)
          else (CONTINUE, REASON_NONE))
       in Inr \<lparr>qd_action = action, qd_reason = reason, qd_exceeded = exceeded b, qd_loop_verdict = l\<rparr>)))"

section \<open>Evaluation looks at the window only\<close>

definition record_ok :: "FailureRecord \<Rightarrow> bool" where
  "record_ok r \<longleftrightarrow> signature_ok (f_signature r) \<and> 0 \<le> f_approach r \<and> f_approach r \<le> MAX_APPROACH"

lemma all_records_Inst [simp]: "all_records (map Inst h) = Some h"
  by (induction h) simp_all

lemma evaluate_loop_Inst [simp]: "evaluate_loop (Inst (map Inst h)) (Inst p) = evaluate_history p h"
  by (simp add: evaluate_loop_def)

lemma repeats_of_le: "loop_policy_ok p \<Longrightarrow> repeats_of p h \<le> 1000"
proof -
  assume "loop_policy_ok p"
  then have "window p \<le> 1000" by (auto simp: loop_policy_ok_def window_def)
  moreover have "length (filter q (last_n (window p) h)) \<le> window p" for q
    by (rule order_trans [OF length_filter_le]) simp
  ultimately show ?thesis unfolding repeats_of_def
    by (metis (no_types, lifting) of_nat_le_iff of_nat_numeral order_trans)
qed

lemma evaluate_history_Inr:
  assumes "loop_policy_ok p" and "h \<noteq> []" and "record_ok (last h)"
  shows "evaluate_history p h = Inr \<lparr>la_verdict = loop_verdict p (last h) (repeats_of p h),
    la_signature = Some (f_signature (last h)), la_approach = Some (f_approach (last h)),
    repeats = repeats_of p h\<rparr>"
proof -
  have "0 \<le> repeats_of p h" by (simp add: repeats_of_def)
  with repeats_of_le [OF assms(1), of h] assms show ?thesis
    by (simp add: evaluate_history_def LoopAssessment_init_def rbind_def check_signature_def
        checks_by_int check_int_def record_ok_def)
qed

lemma evaluate_history_Nil:
  "evaluate_history p [] = Inr \<lparr>la_verdict = CONTINUE_LOOP, la_signature = None, la_approach = None,
     repeats = 0\<rparr>"
  by (simp add: evaluate_history_def LoopAssessment_init_def rbind_def check_int_def)

lemma window_pos: "loop_policy_ok p \<Longrightarrow> 0 < window p"
  by (simp add: loop_policy_ok_def window_def)

lemma evaluate_history_window:
  assumes "loop_policy_ok p"
  shows "evaluate_history p (last_n (window p) h) = evaluate_history p h"
proof (cases "h = []")
  case False
  with window_pos [OF assms] have "last_n (window p) h \<noteq> []"
    by (metis length_0_conv length_last_n min_def not_less_zero)
  with False window_pos [OF assms] show ?thesis
    by (simp add: evaluate_history_def repeats_of_def)
qed simp

section \<open>The stored window\<close>

definition rec_of :: "FailureSignatureRow \<Rightarrow> FailureRecord" where
  "rec_of r = \<lparr>f_signature = fs_signature r, f_approach = fs_approach r\<rparr>"

definition loop_store_ok :: "store \<Rightarrow> bool" where
  "loop_store_ok s \<longleftrightarrow> sorted_wrt (<) (map fs_seq (failures s))
     \<and> list_all (\<lambda>r. fs_seq r < next_seq s \<and> record_ok (rec_of r)) (failures s)"

definition rows_for :: "store \<Rightarrow> uuid \<Rightarrow> FailureSignatureRow list" where
  "rows_for s t = filter (\<lambda>r. fs_task_id r = t) (failures s)"

lemma strict_sorted_filter:
  "sorted_wrt (<) (map f xs) \<Longrightarrow> sorted_wrt (<) (map f (filter q xs))" for f :: "'a \<Rightarrow> 'b::order"
  by (induction xs) auto

lemma task_rows_eq: "loop_store_ok s \<Longrightarrow> task_rows s t = rows_for s t"
  unfolding task_rows_def rows_for_def loop_store_ok_def
  by (intro sort_key_id_if_sorted strict_sorted_imp_sorted strict_sorted_filter) blast

lemma records_of_ok:
  "list_all (\<lambda>r. record_ok (rec_of r)) rs \<Longrightarrow> records_of rs = Inr (map rec_of rs)"
  by (induction rs)
    (simp_all add: rec_of_def record_ok_def FailureRecord_init_def rbind_def check_signature_def
      checks_by_int check_int_def)

lemma filter_newest:
  fixes f :: "'a \<Rightarrow> 'b::order"
  assumes "sorted_wrt (<) (map f xs)"
  shows "filter (\<lambda>x. f x \<in> f ` set (last_n n xs)) xs = last_n n xs"
proof -
  let ?k = "length xs - n"
  have xs: "xs = take ?k xs @ last_n n xs" by (simp add: last_n_def)
  have "sorted_wrt (<) (map f (take ?k xs) @ map f (last_n n xs))"
    using assms xs by (metis map_append)
  then have "f x \<notin> f ` set (last_n n xs)" if "x \<in> set (take ?k xs)" for x
    using that by (fastforce simp: sorted_wrt_append)
  then have "filter (\<lambda>x. f x \<in> f ` set (last_n n xs)) (take ?k xs) = []"
    by (simp add: filter_empty_conv)
  moreover have "filter (\<lambda>x. f x \<in> f ` set (last_n n xs)) (last_n n xs) = last_n n xs"
    by (simp add: filter_id_conv)
  ultimately show ?thesis
    by (subst xs) (simp add: filter_append)
qed

lemma rows_for_trim:
  assumes "loop_store_ok s"
  shows "rows_for (trim_window p s t) t' =
    (if t' = t then last_n (window p) (rows_for s t) else rows_for s t')"
proof (cases "t' = t")
  case True
  have "sorted_wrt (<) (map fs_seq (rows_for s t))"
    using assms by (simp add: rows_for_def loop_store_ok_def strict_sorted_filter)
  from filter_newest [OF this, of "window p"] True show ?thesis
    by (simp add: trim_window_def Let_def task_rows_eq [OF assms] rows_for_def conj_commute
        cong: conj_cong)
next
  case False
  then show ?thesis
    by (auto simp: trim_window_def Let_def rows_for_def intro!: filter_cong)
qed

lemma loop_store_ok_subset:
  "loop_store_ok s \<Longrightarrow> loop_store_ok (s\<lparr>failures := filter q (failures s)\<rparr>)"
  by (auto simp: loop_store_ok_def list_all_iff strict_sorted_filter)

lemma loop_store_ok_trim: "loop_store_ok s \<Longrightarrow> loop_store_ok (trim_window p s t)"
  by (simp add: trim_window_def Let_def loop_store_ok_subset)

lemma loop_store_ok_add:
  assumes "loop_store_ok s" "signature_ok sig" "0 \<le> app" "app \<le> MAX_APPROACH"
  shows "loop_store_ok (add_failure s t att app sig)"
  using assms by (auto simp: loop_store_ok_def add_failure_def sorted_wrt_append list_all_iff
      rec_of_def record_ok_def)

lemma rows_for_add:
  "rows_for (add_failure s t att app sig) t' = rows_for s t' @ (if t' = t then
     [\<lparr>fs_seq = next_seq s, fs_task_id = t, fs_attempt = att, fs_approach = app, fs_signature = sig\<rparr>]
     else [])"
  by (simp add: rows_for_def add_failure_def)

section \<open>The detector refines an unbounded history\<close>

text \<open>
  The abstract detector keeps every failure of the task's current attempt (\<open>h\<close>) and forgets
  them when the attempt changes. \<open>tracks\<close> relates it to the table: the newest rows of the task
  are the last \<open>window_size\<close> of \<open>h\<close>; older rows belong to earlier attempts.
\<close>

definition text_lib_ok :: "text_lib \<Rightarrow> bool" where
  "text_lib_ok lib \<longleftrightarrow> (\<forall>x. signature_ok (sha256_hex lib x))"

definition tracks :: "LoopPolicy \<Rightarrow> uuid \<Rightarrow> store \<times> FailureRecord list \<Rightarrow> bool" where
  "tracks p t = (\<lambda>(s, h). loop_store_ok s \<and> loop_policy_ok p \<and> length (rows_for s t) \<le> window p \<and>
     (\<exists>row old cur. tasks s t = Some row \<and> rows_for s t = old @ cur
        \<and> (\<forall>r \<in> set old. fs_attempt r < t_attempt row) \<and> (\<forall>r \<in> set cur. fs_attempt r = t_attempt row)
        \<and> map rec_of cur = last_n (window p) h))"

lemma tracksI:
  "loop_store_ok s \<Longrightarrow> loop_policy_ok p \<Longrightarrow> tasks s t = Some row \<Longrightarrow> rows_for s t = old @ cur
     \<Longrightarrow> \<forall>r \<in> set old. fs_attempt r < t_attempt row \<Longrightarrow> \<forall>r \<in> set cur. fs_attempt r = t_attempt row
     \<Longrightarrow> map rec_of cur = last_n (window p) h \<Longrightarrow> length (old @ cur) \<le> window p \<Longrightarrow> tracks p t (s, h)"
  unfolding tracks_def by auto

inductive lstep ::
  "text_lib \<Rightarrow> LoopPolicy \<Rightarrow> uuid \<Rightarrow> store \<times> FailureRecord list \<Rightarrow> store \<times> FailureRecord list \<Rightarrow> bool"
  for lib p t where
  failed: "record_failure lib p s (PyUuid t) att ec st msg (PyInt app) run = Inr (a, s')
    \<Longrightarrow> failure_signature lib ec st msg = Inr sig
    \<Longrightarrow> lstep lib p t (s, h) (s', h @ [\<lparr>f_signature = sig, f_approach = app\<rparr>])"
| other_failed: "record_failure lib p s (PyUuid t') att ec st msg app run = Inr (a, s') \<Longrightarrow> t' \<noteq> t
    \<Longrightarrow> lstep lib p t (s, h) (s', h)"
| cleared: "clear_previous_attempts s tid = Inr (n, s') \<Longrightarrow> lstep lib p t (s, h) (s', h)"
| restarted: "tasks s t = Some row \<Longrightarrow> ts t = Some row' \<Longrightarrow> t_attempt row < t_attempt row'
    \<Longrightarrow> lstep lib p t (s, h) (s\<lparr>tasks := ts\<rparr>, [])"
| env: "map_option t_attempt (ts t) = map_option t_attempt (tasks s t)
    \<Longrightarrow> lstep lib p t (s, h) (s\<lparr>tasks := ts, projects := ps, maintenance := m, entries := es,
                              next_entry_id := i, budgets := bs\<rparr>, h)"

lemma last_n_window: "last_n n (last_n n h @ [x]) = last_n n (h @ [x])"
  by (cases n) (simp_all add: last_n_append)

lemma trim_tasks [simp]: "tasks (trim_window p s t) = tasks s" "tasks (add_failure s t a b c) = tasks s"
  by (simp_all add: trim_window_def Let_def add_failure_def)

lemma record_failure_InrD:
  assumes "record_failure lib p s tid att ec st msg app run = Inr (a, s')"
  obtains t n k sig row where "tid = PyUuid t" and "att = PyInt n" and "app = PyInt k" and "0 \<le> k" and "k \<le> MAX_APPROACH"
    and "failure_signature lib ec st msg = Inr sig"
    and "tasks s t = Some row" and "t_attempt row = n"
    and "s' = trim_window p (add_failure s t n k sig) t"
    and "rbind (read_history s' t) (evaluate_history p) = Inr a"
proof -
  from assms obtain t n k r sig where "tid = PyUuid t" "att = PyInt n" "app = PyInt k" "0 \<le> k" "k \<le> MAX_APPROACH"
    "failure_signature lib ec st msg = Inr sig"
    and cur: "require_current_attempt s t n r = Inr ()"
    and "s' = trim_window p (add_failure s t n k sig) t" "rbind (read_history s' t) (evaluate_history p) = Inr a"
    by (auto simp: record_failure_def rbind_eq_Inr_iff check_iffs checks_by_int Let_def)
  moreover from cur obtain row where "tasks s t = Some row" "t_attempt row = n"
    by (auto simp: require_current_attempt_def split: option.splits if_splits)
  ultimately show ?thesis by (intro that) blast+
qed

lemma failure_signature_ok:
  "text_lib_ok lib \<Longrightarrow> failure_signature lib ec st msg = Inr sig \<Longrightarrow> signature_ok sig"
  by (auto simp: failure_signature_def text_lib_ok_def rbind_eq_Inr_iff)

lemma record_failure_store:
  assumes "text_lib_ok lib" "loop_store_ok s"
    and "record_failure lib p s (PyUuid t) att ec st msg app run = Inr (a, s')"
  shows "loop_store_ok s'" and "tasks s' = tasks s" and "t' \<noteq> t \<Longrightarrow> rows_for s' t' = rows_for s t'"
  using assms(3)
  by (elim record_failure_InrD; simp add: loop_store_ok_trim loop_store_ok_add assms rows_for_trim rows_for_add
      failure_signature_ok [OF assms(1)])+

lemma rows_for_memberD:
  "rows_for s t = old @ cur \<Longrightarrow> r \<in> set cur \<Longrightarrow> r \<in> set (failures s) \<and> fs_task_id r = t"
proof -
  assume "rows_for s t = old @ cur" "r \<in> set cur"
  then have "r \<in> set (rows_for s t)" by simp
  then show ?thesis by (simp add: rows_for_def)
qed

lemma rows_for_delete:
  "rows_for (s\<lparr>failures := filter q (failures s)\<rparr>) t = filter q (rows_for s t)"
  by (simp add: rows_for_def conj_commute)

lemma tracks_failed:
  assumes lib: "text_lib_ok lib" and tr: "tracks p t (s, h)"
    and run: "record_failure lib p s (PyUuid t) att ec st msg (PyInt app) run = Inr (a, s')"
    and sig: "failure_signature lib ec st msg = Inr sig"
  shows "tracks p t (s', h @ [\<lparr>f_signature = sig, f_approach = app\<rparr>])"
proof -
  from tr obtain row old cur where ok: "loop_store_ok s" "loop_policy_ok p"
    and row: "tasks s t = Some row" "rows_for s t = old @ cur"
    and att: "\<forall>r \<in> set old. fs_attempt r < t_attempt row" "\<forall>r \<in> set cur. fs_attempt r = t_attempt row"
    and cur: "map rec_of cur = last_n (window p) h"
    by (auto simp: tracks_def)
  let ?new = "\<lparr>fs_seq = next_seq s, fs_task_id = t, fs_attempt = t_attempt row, fs_approach = app,
      fs_signature = sig\<rparr>"
  from run sig row(1) have s': "s' = trim_window p (add_failure s t (t_attempt row) app sig) t"
    and app: "0 \<le> app" "app \<le> MAX_APPROACH"
    by (auto elim!: record_failure_InrD)
  note added = loop_store_ok_add [OF ok(1) failure_signature_ok [OF lib sig] app]
  let ?w = "window p"
  have rows: "rows_for s' t = last_n (?w - length (cur @ [?new])) old @ last_n ?w (cur @ [?new])"
    using row(2) last_n_append [of ?w old "cur @ [?new]"]
    by (simp add: s' rows_for_trim [OF added] rows_for_add)
  have "map rec_of (last_n ?w (cur @ [?new])) = last_n ?w (map rec_of (cur @ [?new]))"
    by (rule map_last_n)
  also have "\<dots> = last_n ?w (h @ [\<lparr>f_signature = sig, f_approach = app\<rparr>])"
    by (simp add: cur last_n_window rec_of_def)
  finally have new: "map rec_of (last_n ?w (cur @ [?new])) = last_n ?w (h @ [\<lparr>f_signature = sig, f_approach = app\<rparr>])" .
  have "\<forall>r \<in> set (last_n m old). fs_attempt r < t_attempt row" for m
    using att(1) set_last_n [of m old] by blast
  moreover have "\<forall>r \<in> set (last_n ?w (cur @ [?new])). fs_attempt r = t_attempt row"
    using att(2) set_last_n [of ?w "cur @ [?new]"] by auto
  moreover have "loop_store_ok s'" using record_failure_store(1) [OF lib ok(1) run] .
  moreover have "tasks s' t = Some row" using row(1) record_failure_store(2) [OF lib ok(1) run] by simp
  moreover have "length (rows_for s' t) \<le> ?w" by (simp add: rows)
  ultimately show ?thesis
    using rows new ok(2) unfolding tracks_def by blast
qed

lemma tracks_cleared:
  assumes tr: "tracks p t (s, h)" and run: "clear_previous_attempts s tid = Inr (n, s')"
  shows "tracks p t (s', h)"
proof -
  from run obtain t' where s': "s' = s\<lparr>failures := filter (\<lambda>r. \<not> (fs_task_id r = t'
      \<and> (case tasks s t' of None \<Rightarrow> False | Some row \<Rightarrow> fs_attempt r < t_attempt row))) (failures s)\<rparr>"
    by (auto simp: clear_previous_attempts_def rbind_eq_Inr_iff Let_def)
  define q :: "FailureSignatureRow \<Rightarrow> bool" where "q = (\<lambda>r. \<not> (fs_task_id r = t'
      \<and> (case tasks s t' of None \<Rightarrow> False | Some row \<Rightarrow> fs_attempt r < t_attempt row)))"
  note s' = s' [folded q_def]
  have q: "q r" if "tasks s t = Some row" "fs_task_id r = t" "t_attempt row \<le> fs_attempt r" for r row
    using that by (auto simp: q_def)
  from tr obtain row old cur where ok: "loop_store_ok s" "loop_policy_ok p"
    and row: "tasks s t = Some row" "rows_for s t = old @ cur"
    and att: "\<forall>r \<in> set old. fs_attempt r < t_attempt row" "\<forall>r \<in> set cur. fs_attempt r = t_attempt row"
    and cur: "map rec_of cur = last_n (window p) h" and len: "length (old @ cur) \<le> window p"
    by (auto simp: tracks_def)
  have "fs_task_id r = t" if "r \<in> set cur" for r
    using rows_for_memberD [OF row(2) that] by blast
  with att(2) row(1) q have "filter q cur = cur" by (auto simp: filter_id_conv)
  then have "rows_for s' t = filter q old @ cur" by (simp add: s' rows_for_delete row(2))
  moreover have "\<forall>r \<in> set (filter q old). fs_attempt r < t_attempt row" using att(1) by simp
  moreover have "loop_store_ok s'" using ok(1) by (simp add: s' loop_store_ok_subset)
  moreover have "tasks s' t = Some row" using row(1) by (simp add: s')
  moreover have "length (filter q old @ cur) \<le> window p"
    using len length_filter_le [of q old] unfolding length_append by linarith
  ultimately show ?thesis using ok(2) att(2) cur by (blast intro: tracksI)
qed

definition lib_tracks :: "text_lib \<Rightarrow> LoopPolicy \<Rightarrow> uuid \<Rightarrow> store \<times> FailureRecord list \<Rightarrow> bool" where
  "lib_tracks lib p t x \<longleftrightarrow> text_lib_ok lib \<and> tracks p t x"

interpretation loop_window: preserved "lstep lib p t" "lib_tracks lib p t" for lib p t
proof
  fix x y assume "lstep lib p t x y" and inv: "lib_tracks lib p t x"
  then have lib: "text_lib_ok lib" and tr: "tracks p t x" by (simp_all add: lib_tracks_def)
  from \<open>lstep lib p t x y\<close> have "tracks p t y"
  proof (cases rule: lstep.cases)
    case failed
    with tr show ?thesis by (auto intro: tracks_failed [OF lib])
  next
    case (other_failed s t' att ec st msg app run a s' h)
    from tr other_failed have "loop_store_ok s" by (simp add: tracks_def)
    from record_failure_store [OF lib this other_failed(3)] other_failed(4) tr other_failed(1,2)
    show ?thesis by (auto simp: tracks_def)
  next
    case cleared
    with tr show ?thesis by (auto intro: tracks_cleared)
  next
    case (restarted s row ts row' h)
    from tr restarted obtain old cur where ok: "loop_store_ok s" "loop_policy_ok p"
      and rows: "rows_for s t = old @ cur"
      and att: "\<forall>r \<in> set old. fs_attempt r < t_attempt row" "\<forall>r \<in> set cur. fs_attempt r = t_attempt row"
      and len: "length (old @ cur) \<le> window p"
      by (auto simp: tracks_def)
    have "\<forall>r \<in> set (old @ cur). fs_attempt r < t_attempt row'" using att restarted(5) by auto
    moreover have "rows_for (s\<lparr>tasks := ts\<rparr>) t = (old @ cur) @ []" using rows by (simp add: rows_for_def)
    moreover have "loop_store_ok (s\<lparr>tasks := ts\<rparr>)" using ok(1) by (simp add: loop_store_ok_def)
    ultimately show ?thesis
      unfolding restarted(2) tracks_def using ok(2) restarted(4) len by (auto simp: last_n_def)
  next
    case (env ts s h bs i es m ps)
    let ?s = "s\<lparr>tasks := ts, projects := ps, maintenance := m, entries := es, next_entry_id := i, budgets := bs\<rparr>"
    from tr env(1) obtain row where "tasks s t = Some row" by (auto simp: tracks_def)
    with env(3) obtain row' where "ts t = Some row'" "t_attempt row' = t_attempt row" by auto
    moreover have "rows_for ?s t = rows_for s t" "loop_store_ok ?s = loop_store_ok s"
      by (simp_all add: rows_for_def loop_store_ok_def)
    ultimately show ?thesis
      using tr \<open>tasks s t = Some row\<close> unfolding env(1,2) tracks_def by simp
  qed
  with lib show "lib_tracks lib p t y" by (simp add: lib_tracks_def)
qed

lemma tracks_history:
  assumes "tracks p t (s, h)"
  shows "read_history s t = Inr (last_n (window p) h)"
proof -
  from assms obtain row old cur where ok: "loop_store_ok s"
    and row: "tasks s t = Some row" "rows_for s t = old @ cur"
    and att: "\<forall>r \<in> set old. fs_attempt r < t_attempt row" "\<forall>r \<in> set cur. fs_attempt r = t_attempt row"
    and cur: "map rec_of cur = last_n (window p) h"
    by (auto simp: tracks_def)
  have "filter (\<lambda>r. fs_attempt r = t_attempt row) (old @ cur) = cur"
    using att by (auto simp: filter_empty_conv filter_id_conv)
  moreover have "list_all (\<lambda>r. record_ok (rec_of r)) cur"
    using ok rows_for_memberD [OF row(2)] by (auto simp: loop_store_ok_def list_all_iff)
  ultimately show ?thesis
    using row ok by (simp add: read_history_def task_rows_eq records_of_ok cur)
qed

lemma tracks_assess:
  assumes "tracks p t (s, h)"
  shows "assess p s (PyUuid t) = evaluate_history p h"
proof -
  from assms have "loop_policy_ok p" by (simp add: tracks_def)
  with tracks_history [OF assms] show ?thesis
    by (simp add: assess_def history_def rbind_def check_uuid_def evaluate_history_window)
qed

end
