(* ===== verification/Task_Loop_Properties.thy ===== *)
theory Task_Loop_Properties
  imports Task_Loop "HOL-Library.Code_Target_Nat"
begin

text \<open>
  The properties of the failure signatures, the loop detector and the next action.
\<close>

section \<open>Concrete inputs\<close>

text \<open>A text library whose Unicode tables are the ASCII part of Python's.\<close>

definition ascii_lib :: text_lib where
  "ascii_lib = \<lparr>nfkc = (\<lambda>s. s), casefold = map (\<lambda>c. if 65 \<le> c \<and> c \<le> 90 then c + 32 else c),
     is_word = (\<lambda>c. is_alnum_ascii c \<or> c = 95), is_digit = (\<lambda>c. 48 \<le> c \<and> c \<le> 57),
     sha256_hex = (\<lambda>s. replicate 64 (48 + length s mod 10))\<rparr>"

lemma ascii_lib_ok: "text_lib_ok ascii_lib"
proof -
  have "is_hex_lower (48 + n mod 10)" for n
    using mod_less_divisor [of 10 n] unfolding is_hex_lower_def by linarith
  then show ?thesis by (simp add: text_lib_ok_def signature_ok_def ascii_lib_def list_all_iff)
qed

definition demo_loop_store :: store where
  "demo_loop_store =
     \<lparr>tasks = [7 \<mapsto> \<lparr>t_project_id = 3, t_state = TaskState_RUNNING, t_attempt = 1, t_retry_count = 0\<rparr>],
      projects = [3 \<mapsto> ProjectStatus_ACTIVE], maintenance = False, entries = [], next_entry_id = 1,
      budgets = (\<lambda>_ _. None), failures = [], next_seq = 1\<rparr>"

definition demo_record :: "int \<Rightarrow> FailureRecord" where
  "demo_record a = \<lparr>f_signature = replicate 64 97, f_approach = a\<rparr>"

section \<open>Signatures\<close>

lemma re_sub_digits:
  assumes "\<forall>c \<in> set repl. \<not> is_digit lib c"
  shows "\<forall>c \<in> set (re_sub (match_digits lib) repl prev s). \<not> is_digit lib c"
proof (induction s arbitrary: prev rule: length_induct)
  case (1 s)
  show ?case
  proof (cases s)
    case (Cons c cs)
    let ?n = "match_digits lib prev s"
    have n: "0 < ?n \<longleftrightarrow> is_digit lib c" by (simp add: Cons match_digits_def)
    have "\<forall>x \<in> set (re_sub (match_digits lib) repl prev' (drop ?n s)). \<not> is_digit lib x" if "is_digit lib c" for prev'
    proof -
      have "length (drop ?n s) < length s" using n that Cons by simp
      with 1 show ?thesis by blast
    qed
    moreover have "\<forall>x \<in> set (re_sub (match_digits lib) repl prev' cs). \<not> is_digit lib x" for prev'
    proof -
      have "length cs < length s" using Cons by simp
      with 1 show ?thesis by blast
    qed
    ultimately show ?thesis
      using assms n by (auto simp: Cons Let_def simp del: take_Cons' drop_Cons')
  qed simp
qed

lemma split_words_members: "w \<in> set (split_words s) \<Longrightarrow> set w \<subseteq> {c \<in> set s. \<not> is_space c} \<and> w \<noteq> []"
proof (induction s arbitrary: w)
  case (Cons c cs)
  show ?case
  proof (cases "is_space c \<or> cs = [] \<or> is_space (hd cs)")
    case True
    with Cons show ?thesis by (cases cs) (auto split: if_splits)
  next
    case False
    then obtain d ds where cs: "cs = d # ds" "\<not> is_space d" "\<not> is_space c" by (cases cs) auto
    then have eq: "split_words (c # cs) = (case split_words cs of [] \<Rightarrow> [[c]] | w # ws \<Rightarrow> (c # w) # ws)"
      by simp
    have IH: "set v \<subseteq> {x \<in> set (c # cs). \<not> is_space x} \<and> v \<noteq> []" if "v \<in> set (split_words cs)" for v
      using Cons.IH [OF that] by auto
    show ?thesis
    proof (cases "split_words cs")
      case Nil
      with Cons.prems eq cs(3) show ?thesis by simp
    next
      case (Cons v vs)
      with Cons.prems eq have "w = c # v \<or> w \<in> set vs" by simp
      with Cons IH cs(3) show ?thesis by fastforce
    qed
  qed
qed simp

lemma join_words_members: "c \<in> set (join_words ws) \<Longrightarrow> c = 32 \<or> (\<exists>w \<in> set ws. c \<in> set w)"
  by (induction ws rule: join_words.induct) auto

text \<open>
  No digit survives the normalisation of a failure message, and the only white
  space left is the space between two words: messages that differ in a counter, a time or a
  line number can compare equal.
\<close>

theorem no_digit_survives:
  assumes "normalize_failure_message lib msg = Inr out"
    and "\<not> is_digit lib 32" and "\<forall>c \<in> set (cp ''<n>''). \<not> is_digit lib c"
  shows "\<forall>c \<in> set out. \<not> is_digit lib c \<and> (is_space c \<longrightarrow> c = 32)"
proof -
  from assms(1) obtain t3 where out: "out = join_words (split_words (re_sub (match_digits lib) (cp ''<n>'') None t3))"
    by (auto simp: normalize_failure_message_def rbind_eq_Inr_iff Let_def)
  show ?thesis
  proof
    fix c assume "c \<in> set out"
    then consider "c = 32" | w where "w \<in> set (split_words (re_sub (match_digits lib) (cp ''<n>'') None t3))" "c \<in> set w"
      using out join_words_members by blast
    then show "\<not> is_digit lib c \<and> (is_space c \<longrightarrow> c = 32)"
    proof cases
      case 1
      with assms(2) show ?thesis by simp
    next
      case 2
      with split_words_members re_sub_digits [OF assms(3)] show ?thesis by blast
    qed
  qed
qed

theorem no_digit_survives_witness:
  "normalize_failure_message ascii_lib (PyStr (cp ''Timeout after 30s  on 0x7FFF''))
     = Inr (cp ''timeout after <n>s on <hex>'')
   \<and> list_all (\<lambda>c. \<not> is_digit ascii_lib c) (cp ''timeout after <n>s on <hex>'')"
proof -
  have run: "normalize_failure_message ascii_lib (PyStr (cp ''Timeout after 30s  on 0x7FFF''))
      = Inr (cp ''timeout after <n>s on <hex>'')" by code_simp
  have "\<not> is_digit ascii_lib 32" and "\<forall>c \<in> set (cp ''<n>''). \<not> is_digit ascii_lib c" by code_simp+
  from no_digit_survives [OF run this] run show ?thesis by (auto simp: list_all_iff)
qed

section \<open>The detector\<close>

text \<open>
  C7: although the table keeps at most \<open>window_size\<close> rows per task, the detector judges
  as if it remembered every failure of the task's current attempt: after any sequence of
  reports, reports of other tasks, cleanups, restarts and other work, its assessment is the
  evaluation of the unbounded history, which a restart empties.
\<close>

theorem detector_refines_history:
  assumes "text_lib_ok lib" and "loop_policy_ok p" and "loop_store_ok s" and "tasks s t = Some row"
    and "rows_for s t = []" and "(lstep lib p t)\<^sup>*\<^sup>* (s, []) (s', h)"
  shows "assess p s' (PyUuid t) = evaluate_history p h \<and> length (rows_for s' t) \<le> window p"
proof -
  from assms have "lib_tracks lib p t (s, [])"
    by (auto simp: lib_tracks_def last_n_def intro: tracksI [where old = "[]" and cur = "[]"])
  from loop_window.run_inv [OF assms(6) this] have "tracks p t (s', h)" by (simp add: lib_tracks_def)
  then show ?thesis using tracks_assess by (auto simp: tracks_def)
qed

text \<open>Two reports of one failure.\<close>

definition demo_report :: "store \<Rightarrow> task_error + LoopAssessment \<times> store" where
  "demo_report s = record_failure ascii_lib DEFAULT_LOOP_POLICY s (PyUuid 7) (PyInt 1)
     (PyStr (cp ''IOError'')) (PyStr (cp ''build'')) (PyStr (cp ''disk 9 full'')) (PyInt 0) None"

definition demo_sig :: pystr where
  "demo_sig = sha256_hex ascii_lib (cp ''IOError'' @ [31] @ cp ''build'' @ [31] @ cp ''disk <n> full'')"

lemma demo_sig: "failure_signature ascii_lib (PyStr (cp ''IOError'')) (PyStr (cp ''build''))
    (PyStr (cp ''disk 9 full'')) = Inr demo_sig"
  by code_simp

theorem detector_refines_history_witness:
  "\<exists>a s'. demo_report demo_loop_store = Inr (a, s')
     \<and> assess DEFAULT_LOOP_POLICY s' (PyUuid 7)
         = evaluate_history DEFAULT_LOOP_POLICY [\<lparr>f_signature = demo_sig, f_approach = 0\<rparr>]"
proof -
  have store: "loop_store_ok demo_loop_store" "rows_for demo_loop_store 7 = []"
    "tasks demo_loop_store 7 = Some \<lparr>t_project_id = 3, t_state = TaskState_RUNNING, t_attempt = 1,
       t_retry_count = 0\<rparr>"
    by (simp_all add: loop_store_ok_def rows_for_def demo_loop_store_def)
  have "\<not> isl (demo_report demo_loop_store)" by code_simp
  then obtain a s' where run: "demo_report demo_loop_store = Inr (a, s')"
    by (cases "demo_report demo_loop_store") auto
  from lstep.failed [OF run [unfolded demo_report_def] demo_sig, where h = "[]"]
  have "(lstep ascii_lib DEFAULT_LOOP_POLICY 7)\<^sup>*\<^sup>* (demo_loop_store, [])
      (s', [\<lparr>f_signature = demo_sig, f_approach = 0\<rparr>])" by simp
  from detector_refines_history [OF ascii_lib_ok DEFAULT_LOOP_POLICY_ok store(1,3,2) this] run
  show ?thesis by blast
qed

text \<open>
  A failure that repeats \<open>repeat_threshold\<close> times in a row is always detected,
  whatever happened before: the verdict is the next alternative while the policy allows one
  more, and escalation after that.
\<close>

theorem repeats_are_a_loop:
  assumes "loop_policy_ok p" and "record_ok r" and "repeat_threshold p \<le> int n"
  shows "\<exists>a. evaluate_history p (h @ replicate n r) = Inr a
    \<and> la_verdict a = (if f_approach r < max_alternatives p then TRY_ALTERNATIVE_LOOP else ESCALATE)"
proof -
  let ?h = "h @ replicate n r" and ?w = "window p"
  from assms(1,3) have n: "0 < n" and w: "repeat_threshold p \<le> int ?w"
    by (auto simp: loop_policy_ok_def window_def)
  then have last: "last ?h = r" by simp
  have "last_n ?w ?h = last_n (?w - n) h @ last_n ?w (replicate n r)"
    by (simp add: last_n_append)
  moreover have "last_n ?w (replicate n r) = replicate (min ?w n) r"
    by (simp add: last_n_def min_def)
  ultimately have "int (min ?w n) \<le> repeats_of p ?h"
    unfolding repeats_of_def last by simp
  with w assms(3) have "repeat_threshold p \<le> repeats_of p ?h" by (simp add: min_def split: if_splits)
  with evaluate_history_Inr [OF assms(1), of ?h] n assms(2) last show ?thesis
    by (simp add: loop_verdict_def)
qed

theorem repeats_are_a_loop_witness:
  "\<exists>a. evaluate_history DEFAULT_LOOP_POLICY ([demo_record 0, demo_record 1] @ replicate 3 (demo_record 1))
      = Inr a \<and> la_verdict a = ESCALATE"
proof -
  have "record_ok (demo_record 1)"
    by (simp add: record_ok_def signature_ok_def demo_record_def is_hex_lower_def MAX_APPROACH_def
        list_all_iff)
  moreover have "repeat_threshold DEFAULT_LOOP_POLICY \<le> int 3" "\<not> f_approach (demo_record 1) < max_alternatives DEFAULT_LOOP_POLICY"
    by (simp_all add: DEFAULT_LOOP_POLICY_def demo_record_def)
  ultimately show ?thesis
    using repeats_are_a_loop [OF DEFAULT_LOOP_POLICY_ok, of "demo_record 1" 3 "[demo_record 0, demo_record 1]"]
    by simp
qed

section \<open>The next action\<close>

text \<open>
  An exceeded budget always stops the work, whatever the loop detector says: the
  task fails when its retries are used up and otherwise waits for the user; and the work goes
  on unchanged exactly when no budget is exceeded and no loop was found.
\<close>

theorem exceeded_budget_stops:
  "\<exists>d. decide_next_action (Inst b) (Inst l) (PyBool esc) = Inr d
     \<and> (v_status b = BudgetStatus_EXCEEDED \<longrightarrow>
          qd_action d = (if RETRIES \<in> set (exceeded b) then FAIL_TASK else WAIT_FOR_USER)
          \<and> qd_reason d = BUDGET_EXCEEDED)
     \<and> (qd_action d = CONTINUE \<longleftrightarrow> v_status b = BudgetStatus_OK \<and> l = CONTINUE_LOOP)
     \<and> (qd_action d = ESCALATE_AGENT \<longleftrightarrow> v_status b = BudgetStatus_OK \<and> l = ESCALATE \<and> esc)
     \<and> qd_exceeded d = exceeded b \<and> qd_loop_verdict d = l"
  by (cases "v_status b"; cases l; cases esc)
    (simp_all add: decide_next_action_def rbind_def check_member_def check_bool_def)

theorem exceeded_budget_stops_witness:
  "\<exists>d. decide_next_action
       (Inst \<lparr>v_status = BudgetStatus_EXCEEDED, exceeded = [TOKENS], usages = []\<rparr>)
       (Inst ESCALATE) (PyBool True) = Inr d \<and> qd_action d = WAIT_FOR_USER"
  using exceeded_budget_stops [of "\<lparr>v_status = BudgetStatus_EXCEEDED, exceeded = [TOKENS], usages = []\<rparr>"
      ESCALATE True] by auto

end
