(* ===== verification/Compute_Domain.thy ===== *)
theory Compute_Domain
  imports Prelude Complex_Main
begin

text \<open>
  The vocabulary and the configuration of the compute scheduler
  (\<^verbatim>\<open>paw_backend/compute/domain.py\<close>, \<^verbatim>\<open>limits.py\<close>, \<^verbatim>\<open>config.py\<close>).

  A Python float that is a number is a rational; where the code computes with floats, the
  rounding of each operation is a parameter \<open>rnd\<close> (round to the nearest double).
\<close>

section \<open>Enumerations\<close>

datatype ResourceClass = INTERACTIVE | CODING | SUPPORT | BACKGROUND | EXCLUSIVE

text \<open>\<open>CLASS_RANK\<close> has no entry for Exclusive; a lookup of it is a \<^verbatim>\<open>KeyError\<close>.\<close>

primrec CLASS_RANK :: "ResourceClass \<Rightarrow> nat option" where
  "CLASS_RANK INTERACTIVE = Some 0"
| "CLASS_RANK CODING = Some 1"
| "CLASS_RANK SUPPORT = Some 2"
| "CLASS_RANK BACKGROUND = Some 3"
| "CLASS_RANK EXCLUSIVE = None"

definition SHARED_CLASSES :: "ResourceClass list" where
  "SHARED_CLASSES = [INTERACTIVE, CODING, SUPPORT, BACKGROUND]"

datatype Placement = LOCAL_GPU | LOCAL_CPU | CLOUD

datatype ModelRole = MAIN | MEMORY_WORKER | EMBEDDING | RERANKER

definition SUPPORT_ROLES :: "ModelRole set" where
  "SUPPORT_ROLES = {EMBEDDING, RERANKER}"

primrec ROLE_ORDER :: "ModelRole \<Rightarrow> nat" where
  "ROLE_ORDER MAIN = 0"
| "ROLE_ORDER MEMORY_WORKER = 1"
| "ROLE_ORDER EMBEDDING = 2"
| "ROLE_ORDER RERANKER = 3"

datatype ResidencyPolicy = ALWAYS | IF_ROOM

datatype DeploymentState = DeploymentState_GPU | DeploymentState_CPU | DeploymentState_UNLOADED
  | DeploymentState_FAILED

text \<open>The relief steps are an \<^verbatim>\<open>IntEnum\<close>: they compare by their values.\<close>

datatype Relief = Relief_NONE | Relief_BACKGROUND_STOPPED | Relief_MEMORY_WORKER_UNLOADED
  | Relief_SUPPORT_ON_CPU | Relief_ADMISSION_SUPPRESSED | Relief_CONTEXT_REDUCED
  | Relief_MAIN_CHANGE_NEEDED

primrec relief_value :: "Relief \<Rightarrow> nat" where
  "relief_value Relief_NONE = 0"
| "relief_value Relief_BACKGROUND_STOPPED = 1"
| "relief_value Relief_MEMORY_WORKER_UNLOADED = 2"
| "relief_value Relief_SUPPORT_ON_CPU = 3"
| "relief_value Relief_ADMISSION_SUPPRESSED = 4"
| "relief_value Relief_CONTEXT_REDUCED = 5"
| "relief_value Relief_MAIN_CHANGE_NEEDED = 6"

instantiation Relief :: linorder
begin

definition less_eq_Relief :: "Relief \<Rightarrow> Relief \<Rightarrow> bool" where
  "less_eq_Relief a b \<longleftrightarrow> relief_value a \<le> relief_value b"

definition less_Relief :: "Relief \<Rightarrow> Relief \<Rightarrow> bool" where
  "less_Relief a b \<longleftrightarrow> relief_value a < relief_value b"

instance
proof
  fix x y :: Relief
  show "x \<le> y \<Longrightarrow> y \<le> x \<Longrightarrow> x = y"
    by (cases x; cases y) (simp_all add: less_eq_Relief_def)
qed (auto simp: less_eq_Relief_def less_Relief_def)

end

text \<open>\<^verbatim>\<open>Relief(relief + 1)\<close> and \<^verbatim>\<open>Relief(relief - 1)\<close>, inside the range of the values.\<close>

primrec relief_up :: "Relief \<Rightarrow> Relief" where
  "relief_up Relief_NONE = Relief_BACKGROUND_STOPPED"
| "relief_up Relief_BACKGROUND_STOPPED = Relief_MEMORY_WORKER_UNLOADED"
| "relief_up Relief_MEMORY_WORKER_UNLOADED = Relief_SUPPORT_ON_CPU"
| "relief_up Relief_SUPPORT_ON_CPU = Relief_ADMISSION_SUPPRESSED"
| "relief_up Relief_ADMISSION_SUPPRESSED = Relief_CONTEXT_REDUCED"
| "relief_up Relief_CONTEXT_REDUCED = Relief_MAIN_CHANGE_NEEDED"
| "relief_up Relief_MAIN_CHANGE_NEEDED = Relief_MAIN_CHANGE_NEEDED"

primrec relief_down :: "Relief \<Rightarrow> Relief" where
  "relief_down Relief_NONE = Relief_NONE"
| "relief_down Relief_BACKGROUND_STOPPED = Relief_NONE"
| "relief_down Relief_MEMORY_WORKER_UNLOADED = Relief_BACKGROUND_STOPPED"
| "relief_down Relief_SUPPORT_ON_CPU = Relief_MEMORY_WORKER_UNLOADED"
| "relief_down Relief_ADMISSION_SUPPRESSED = Relief_SUPPORT_ON_CPU"
| "relief_down Relief_CONTEXT_REDUCED = Relief_ADMISSION_SUPPRESSED"
| "relief_down Relief_MAIN_CHANGE_NEEDED = Relief_CONTEXT_REDUCED"

lemma relief_steps:
  "relief_value (relief_up r) = min 6 (relief_value r + 1)"
  "relief_value (relief_down r) = relief_value r - 1"
  by (cases r; simp)+

datatype SchedulerMode = SchedulerMode_NORMAL | SchedulerMode_DRAINING | SchedulerMode_EXCLUSIVE

datatype ExclusiveFailure = ExclusiveFailure_BUSY | ExclusiveFailure_PROBE_UNAVAILABLE
  | ExclusiveFailure_DRAIN_TIMEOUT | ExclusiveFailure_CANNOT_UNLOAD | ExclusiveFailure_NOT_FREED

datatype Refusal = PROBE_UNAVAILABLE | NOT_RESIDENT | BACKGROUND_PAUSED | ADMISSION_SUPPRESSED
  | CONTEXT_TOO_LONG | CONTEXT_REDUCED | KV_FULL | SEQUENCES_FULL | EXCLUSIVE_MODE | QUEUED_BEHIND
  | QUEUE_FULL | INSUFFICIENT_FREE_VRAM

definition PERMANENT_REFUSALS :: "Refusal set" where
  "PERMANENT_REFUSALS = {CONTEXT_TOO_LONG}"

definition CAPACITY_REFUSALS :: "Refusal set" where
  "CAPACITY_REFUSALS = {KV_FULL, SEQUENCES_FULL}"

section \<open>Values\<close>

definition GIB :: int where "GIB = 1024 ^ 3"
definition DEFAULT_HEADROOM_MIN_BYTES :: int where "DEFAULT_HEADROOM_MIN_BYTES = 4 * GIB"
definition DEFAULT_HEADROOM_FRACTION :: rat where "DEFAULT_HEADROOM_FRACTION = 5 / 100"
definition MAX_HEADROOM_FRACTION :: rat where "MAX_HEADROOM_FRACTION = 1 / 2"
definition DEFAULT_KV_SAFETY :: rat where "DEFAULT_KV_SAFETY = 9 / 10"

primrec DEFAULT_CLASS_KV_CEILINGS :: "ResourceClass \<Rightarrow> rat option" where
  "DEFAULT_CLASS_KV_CEILINGS INTERACTIVE = Some 1"
| "DEFAULT_CLASS_KV_CEILINGS CODING = Some (95 / 100)"
| "DEFAULT_CLASS_KV_CEILINGS SUPPORT = Some (85 / 100)"
| "DEFAULT_CLASS_KV_CEILINGS BACKGROUND = Some (70 / 100)"
| "DEFAULT_CLASS_KV_CEILINGS EXCLUSIVE = None"

definition MAX_BYTES :: int where "MAX_BYTES = 2 ^ 50"
definition MAX_TOKENS :: int where "MAX_TOKENS = 2 ^ 24"
definition MAX_SEQUENCES :: int where "MAX_SEQUENCES = 4096"

section \<open>Checks\<close>

datatype compute_error = InvalidComputeArgumentError string | ComputeKeyError
  | ComputeUnavailableError Refusal | ExclusiveUnavailableError ExclusiveFailure

text \<open>A number argument: an \<^verbatim>\<open>int\<close>, a finite float, an infinity (its sign), a NaN, or no number.\<close>

datatype num_arg = NumInt int | NumFloat rat | NumInf bool | NumNaN | NotANumber

abbreviation refuse :: "string \<Rightarrow> compute_error + 'a" where
  "refuse p \<equiv> Inl (InvalidComputeArgumentError p)"

definition name_ok :: "pystr \<Rightarrow> bool" where
  "name_ok s =
     (case s of
        [] \<Rightarrow> False
      | c # cs \<Rightarrow> 97 \<le> c \<and> c \<le> 122 \<and> length cs \<le> 31
          \<and> list_all (\<lambda>x. 97 \<le> x \<and> x \<le> 122 \<or> 48 \<le> x \<and> x \<le> 57 \<or> x = 95 \<or> x = 45) cs)"

definition check_name :: "string \<Rightarrow> pyval \<Rightarrow> compute_error + pystr" where
  "check_name p v = (case v of PyStr s \<Rightarrow> if name_ok s then Inr s else refuse p | _ \<Rightarrow> refuse p)"

definition compute_check_int :: "string \<Rightarrow> pyval \<Rightarrow> int \<Rightarrow> int \<Rightarrow> compute_error + int" where
  "compute_check_int p v lo hi =
     (case v of PyInt n \<Rightarrow> if lo \<le> n \<and> n \<le> hi then Inr n else refuse p | _ \<Rightarrow> refuse p)"

definition num_value :: "num_arg \<Rightarrow> rat option" where
  "num_value v = (case v of NumInt n \<Rightarrow> Some (of_int n) | NumFloat x \<Rightarrow> Some x | _ \<Rightarrow> None)"

text \<open>
  An infinity fails one of the two bounds, a NaN the test \<^verbatim>\<open>value != value\<close>. The values that
  pass are small, so the conversion of an \<^verbatim>\<open>int\<close> to a float is exact.
\<close>

definition check_number :: "string \<Rightarrow> num_arg \<Rightarrow> rat \<Rightarrow> rat \<Rightarrow> bool \<Rightarrow> compute_error + rat" where
  "check_number p v lo hi exclusive_minimum =
     (case num_value v of
        None \<Rightarrow> refuse p
      | Some x \<Rightarrow>
          if x > hi \<or> x < lo then refuse p
          else if exclusive_minimum \<and> x = lo then refuse p
          else Inr x)"

definition compute_check_member :: "string \<Rightarrow> 'e arg \<Rightarrow> compute_error + 'e" where
  "compute_check_member p v = (case v of Inst m \<Rightarrow> Inr m | Other \<Rightarrow> refuse p)"

section \<open>Deployments\<close>

record DeploymentSpec =
  ds_name :: pystr
  ds_role :: ModelRole
  weights_bytes :: int
  kv_pool_bytes :: int
  runtime_bytes :: int
  workspace_bytes :: int
  kv_bytes_per_token :: int
  ds_max_sequences :: int
  max_context_tokens :: int
  residency :: ResidencyPolicy
  cpu_fallback :: bool
  initial :: DeploymentState

text \<open>The arguments of the constructor, before they are checked.\<close>

record spec_args =
  a_name :: pyval
  a_role :: "ModelRole arg"
  a_weights :: pyval
  a_kv_pool :: pyval
  a_runtime :: pyval
  a_workspace :: pyval
  a_kv_per_token :: pyval
  a_max_sequences :: pyval
  a_max_context :: pyval
  a_residency :: "ResidencyPolicy arg"
  a_cpu_fallback :: pyval
  a_initial :: "DeploymentState arg"

definition DeploymentSpec_init :: "spec_args \<Rightarrow> compute_error + DeploymentSpec" where
  "DeploymentSpec_init a =
     rbind (check_name ''name'' (a_name a)) (\<lambda>name.
     rbind (compute_check_member ''role'' (a_role a)) (\<lambda>role.
     rbind (compute_check_int ''weights_bytes'' (a_weights a) 1 MAX_BYTES) (\<lambda>weights.
     rbind (compute_check_int ''kv_pool_bytes'' (a_kv_pool a) 0 MAX_BYTES) (\<lambda>kv_pool.
     rbind (compute_check_int ''runtime_bytes'' (a_runtime a) 0 MAX_BYTES) (\<lambda>runtime.
     rbind (compute_check_int ''workspace_bytes'' (a_workspace a) 0 MAX_BYTES) (\<lambda>workspace.
     rbind (compute_check_int ''kv_bytes_per_token'' (a_kv_per_token a) 0 MAX_BYTES) (\<lambda>per_token.
     rbind (require (\<not> (kv_pool \<noteq> 0 \<and> per_token = 0))
              (InvalidComputeArgumentError ''kv_bytes_per_token'')) (\<lambda>_.
     rbind (compute_check_int ''max_sequences'' (a_max_sequences a) 1 MAX_SEQUENCES) (\<lambda>seqs.
     rbind (compute_check_int ''max_context_tokens'' (a_max_context a) 1 MAX_TOKENS) (\<lambda>context.
     rbind (compute_check_member ''residency'' (a_residency a)) (\<lambda>res.
     rbind (case a_cpu_fallback a of
              PyBool b \<Rightarrow> if b \<and> role \<notin> SUPPORT_ROLES then refuse ''cpu_fallback'' else Inr b
            | _ \<Rightarrow> refuse ''cpu_fallback'') (\<lambda>cpu.
     rbind (compute_check_member ''initial'' (a_initial a)) (\<lambda>ini.
     rbind (require (\<not> (ini = DeploymentState_FAILED \<or> ini = DeploymentState_CPU \<and> \<not> cpu))
              (InvalidComputeArgumentError ''initial'')) (\<lambda>_.
       Inr \<lparr>ds_name = name, ds_role = role, weights_bytes = weights, kv_pool_bytes = kv_pool,
            runtime_bytes = runtime, workspace_bytes = workspace, kv_bytes_per_token = per_token,
            ds_max_sequences = seqs, max_context_tokens = context, residency = res,
            cpu_fallback = cpu, initial = ini\<rparr>))))))))))))))"

definition gpu_bytes :: "DeploymentSpec \<Rightarrow> int" where
  "gpu_bytes d = weights_bytes d + kv_pool_bytes d + runtime_bytes d + workspace_bytes d"

text \<open>\<^verbatim>\<open>//\<close> by the checked divisor, which is not zero where the pool is not.\<close>

definition kv_capacity_tokens :: "DeploymentSpec \<Rightarrow> int" where
  "kv_capacity_tokens d = (if kv_pool_bytes d = 0 then 0 else kv_pool_bytes d div kv_bytes_per_token d)"

section \<open>The configuration\<close>

record ComputeConfig =
  deployments :: "DeploymentSpec list"
  gpu_index :: int
  headroom_min_bytes :: int
  headroom_fraction :: rat
  kv_safety :: rat
  class_ceilings :: "ResourceClass \<Rightarrow> rat option"
  probe_max_age_seconds :: rat
  restore_margin_bytes :: "int option"
  pressure_context_fraction :: rat
  max_waiters :: int
  verify_timeout_seconds :: rat
  verify_poll_seconds :: rat
  failed_retry_seconds :: rat
  vram_warning_interval_seconds :: rat

record config_args =
  c_deployments :: "DeploymentSpec arg list arg"
  c_gpu_index :: pyval
  c_headroom_min :: pyval
  c_headroom_fraction :: num_arg
  c_kv_safety :: num_arg
  c_class_ceilings :: "(ResourceClass \<Rightarrow> num_arg option) arg"
  c_probe_max_age :: num_arg
  c_restore_margin :: "pyval option"
  c_pressure_fraction :: num_arg
  c_max_waiters :: pyval
  c_verify_timeout :: num_arg
  c_verify_poll :: num_arg
  c_failed_retry :: num_arg
  c_warning_interval :: num_arg

fun all_specs :: "DeploymentSpec arg list \<Rightarrow> DeploymentSpec list option" where
  "all_specs [] = Some []"
| "all_specs (Inst d # ds) = map_option ((#) d) (all_specs ds)"
| "all_specs (Other # ds) = None"

definition check_deployments :: "DeploymentSpec arg list arg \<Rightarrow> compute_error + DeploymentSpec list" where
  "check_deployments v =
     (case v of
        Other \<Rightarrow> refuse ''deployments''
      | Inst xs \<Rightarrow>
          if xs = [] then refuse ''deployments''
          else
            (case all_specs xs of
               None \<Rightarrow> refuse ''deployments''
             | Some ds \<Rightarrow> if distinct (map ds_name ds) then Inr ds else refuse ''deployments''))"

definition ceiling_of ::
  "(ResourceClass \<Rightarrow> num_arg option) \<Rightarrow> ResourceClass \<Rightarrow> compute_error + rat" where
  "ceiling_of m cls =
     (case m cls of
        None \<Rightarrow> refuse ''class_ceilings''
      | Some v \<Rightarrow> check_number ''class_ceilings'' v 0 1 True)"

text \<open>The four shares, each checked, none above the one before it.\<close>

definition check_ceilings ::
  "(ResourceClass \<Rightarrow> num_arg option) arg \<Rightarrow> compute_error + (ResourceClass \<Rightarrow> rat option)" where
  "check_ceilings v =
     (case v of
        Other \<Rightarrow> refuse ''class_ceilings''
      | Inst m \<Rightarrow>
          if m EXCLUSIVE \<noteq> None \<or> list_ex (\<lambda>c. m c = None) SHARED_CLASSES then refuse ''class_ceilings''
          else
            rbind (ceiling_of m INTERACTIVE) (\<lambda>i.
            rbind (ceiling_of m CODING) (\<lambda>c.
            rbind (ceiling_of m SUPPORT) (\<lambda>s.
            rbind (ceiling_of m BACKGROUND) (\<lambda>b.
              if c > i \<or> s > c \<or> b > s then refuse ''class_ceilings''
              else Inr [INTERACTIVE \<mapsto> i, CODING \<mapsto> c, SUPPORT \<mapsto> s, BACKGROUND \<mapsto> b])))))"

definition ComputeConfig_init :: "config_args \<Rightarrow> compute_error + ComputeConfig" where
  "ComputeConfig_init a =
     rbind (check_deployments (c_deployments a)) (\<lambda>ds.
     rbind (compute_check_int ''gpu_index'' (c_gpu_index a) 0 63) (\<lambda>gpu.
     rbind (compute_check_int ''headroom_min_bytes'' (c_headroom_min a) 0 MAX_BYTES) (\<lambda>hmin.
     rbind (check_number ''headroom_fraction'' (c_headroom_fraction a) 0 MAX_HEADROOM_FRACTION False) (\<lambda>hfrac.
     rbind (check_number ''kv_safety'' (c_kv_safety a) 0 1 True) (\<lambda>safety.
     rbind (check_ceilings (c_class_ceilings a)) (\<lambda>ceilings.
     rbind (check_number ''probe_max_age_seconds'' (c_probe_max_age a) 0 3600 True) (\<lambda>age.
     rbind (case c_restore_margin a of
              None \<Rightarrow> Inr None
            | Some v \<Rightarrow> rbind (compute_check_int ''restore_margin_bytes'' v 0 MAX_BYTES) (\<lambda>n. Inr (Some n))) (\<lambda>margin.
     rbind (check_number ''pressure_context_fraction'' (c_pressure_fraction a) 0 1 True) (\<lambda>pressure.
     rbind (compute_check_int ''max_waiters'' (c_max_waiters a) 1 100000) (\<lambda>waiters.
     rbind (check_number ''verify_timeout_seconds'' (c_verify_timeout a) 0 86400 True) (\<lambda>vt.
     rbind (check_number ''verify_poll_seconds'' (c_verify_poll a) 0 86400 True) (\<lambda>vp.
     rbind (check_number ''failed_retry_seconds'' (c_failed_retry a) 0 86400 True) (\<lambda>fr.
     rbind (check_number ''vram_warning_interval_seconds'' (c_warning_interval a) 0 86400 True) (\<lambda>wi.
       Inr \<lparr>deployments = ds, gpu_index = gpu, headroom_min_bytes = hmin, headroom_fraction = hfrac,
            kv_safety = safety, class_ceilings = ceilings, probe_max_age_seconds = age,
            restore_margin_bytes = margin, pressure_context_fraction = pressure, max_waiters = waiters,
            verify_timeout_seconds = vt, verify_poll_seconds = vp, failed_retry_seconds = fr,
            vram_warning_interval_seconds = wi\<rparr>))))))))))))))"

definition spec_of :: "ComputeConfig \<Rightarrow> pystr \<Rightarrow> DeploymentSpec option" where
  "spec_of c name = find (\<lambda>d. ds_name d = name) (deployments c)"

section \<open>What an accepted configuration guarantees\<close>

definition config_ok :: "ComputeConfig \<Rightarrow> bool" where
  "config_ok c \<longleftrightarrow> 0 < kv_safety c \<and> kv_safety c \<le> 1
     \<and> 0 \<le> headroom_fraction c \<and> headroom_fraction c \<le> MAX_HEADROOM_FRACTION \<and> 0 \<le> headroom_min_bytes c
     \<and> distinct (map ds_name (deployments c))
     \<and> (\<exists>i co su b. class_ceilings c = [INTERACTIVE \<mapsto> i, CODING \<mapsto> co, SUPPORT \<mapsto> su, BACKGROUND \<mapsto> b]
          \<and> i \<le> 1 \<and> co \<le> i \<and> su \<le> co \<and> b \<le> su \<and> 0 < b)"

lemma check_number_Inr:
  "check_number p v lo hi ex = Inr x \<longleftrightarrow> num_value v = Some x \<and> lo \<le> x \<and> x \<le> hi \<and> (ex \<longrightarrow> x \<noteq> lo)"
  by (auto simp: check_number_def split: option.splits)

lemma compute_check_int_Inr:
  "compute_check_int p v lo hi = Inr n \<longleftrightarrow> v = PyInt n \<and> lo \<le> n \<and> n \<le> hi"
  by (auto simp: compute_check_int_def split: pyval.splits)

lemma check_ceilings_Inr:
  assumes "check_ceilings v = Inr m"
  shows "\<exists>i co su b. m = [INTERACTIVE \<mapsto> i, CODING \<mapsto> co, SUPPORT \<mapsto> su, BACKGROUND \<mapsto> b]
    \<and> i \<le> 1 \<and> co \<le> i \<and> su \<le> co \<and> b \<le> su \<and> 0 < b"
proof -
  from assms obtain i co su b where
    "m = [INTERACTIVE \<mapsto> i, CODING \<mapsto> co, SUPPORT \<mapsto> su, BACKGROUND \<mapsto> b]"
    "\<not> (co > i \<or> su > co \<or> b > su)" "i \<le> 1" "0 \<le> b \<and> b \<noteq> 0"
    by (auto simp: check_ceilings_def ceiling_of_def rbind_eq_Inr_iff check_number_Inr
        split: arg.splits if_splits option.splits)
  then show ?thesis
    by (intro exI [of _ i] exI [of _ co] exI [of _ su] exI [of _ b]) auto
qed

lemma ComputeConfig_init_ok: "ComputeConfig_init a = Inr c \<Longrightarrow> config_ok c"
  by (auto simp: ComputeConfig_init_def config_ok_def rbind_eq_Inr_iff check_number_Inr
      compute_check_int_Inr check_deployments_def dest: check_ceilings_Inr
      split: arg.splits if_splits option.splits)

lemma DeploymentSpec_init_capacity:
  assumes "DeploymentSpec_init a = Inr d"
  shows "0 < gpu_bytes d" and "0 \<le> kv_capacity_tokens d"
    and "kv_capacity_tokens d * kv_bytes_per_token d \<le> kv_pool_bytes d"
  using assms
  by (auto simp: DeploymentSpec_init_def rbind_eq_Inr_iff compute_check_int_Inr gpu_bytes_def
      kv_capacity_tokens_def pos_imp_zdiv_nonneg_iff minus_mod_eq_div_mult [symmetric] split: if_splits)

end
