(* ===== verification/Compute_Accounting.thy ===== *)
theory Compute_Accounting
  imports Compute_Domain
begin

text \<open>
  VRAM accounting (\<^verbatim>\<open>paw_backend/compute/accounting.py\<close>) and KV-cache admission
  (\<^verbatim>\<open>paw_backend/compute/concurrency.py\<close>), the two pure cores of the compute scheduler.
\<close>

section \<open>VRAM\<close>

record GpuDevice =
  d_index :: int
  d_uuid :: pystr
  d_name :: pystr
  total_bytes :: int
  used_bytes :: int
  utilization_percent :: "int option"

record GpuProcess =
  p_gpu_uuid :: pystr
  p_pid :: int
  p_used_bytes :: "int option"

record DeploymentUsage =
  reserved_bytes :: int
  pids :: "int set option"

record VramView =
  vv_total :: int
  actual :: int
  reserved :: int
  own_actual :: int
  external :: int
  committed :: int
  headroom :: int
  available :: int
  extra_use :: int

definition under_pressure :: "VramView \<Rightarrow> bool" where
  "under_pressure v \<longleftrightarrow> available v < 0"

definition observed_free :: "VramView \<Rightarrow> int" where
  "observed_free v = vv_total v - actual v"

definition unseen_reserved :: "VramView \<Rightarrow> int" where
  "unseen_reserved v = max 0 (committed v - actual v)"

definition free_vram_admits :: "VramView \<Rightarrow> int \<Rightarrow> bool" where
  "free_vram_admits v need =
     (if need \<le> 0 then True else observed_free v - unseen_reserved v \<ge> need + headroom v)"

definition free_vram_after_emptying :: "VramView \<Rightarrow> int" where
  "free_vram_after_emptying v = vv_total v - headroom v - external v"

definition headroom_bytes :: "(rat \<Rightarrow> rat) \<Rightarrow> int \<Rightarrow> int \<Rightarrow> rat \<Rightarrow> int" where
  "headroom_bytes rnd tot minimum_bytes fraction =
     min tot (max minimum_bytes (floor (rnd (rnd (of_int tot) * fraction))))"

text \<open>The processes of the device: what each pid uses in sum, and the pids that do not say.\<close>

fun tally :: "pystr \<Rightarrow> GpuProcess list \<Rightarrow> (int \<Rightarrow> int) \<Rightarrow> int set \<Rightarrow> (int \<Rightarrow> int) \<times> int set" where
  "tally gpu [] used_by unknown_use = (used_by, unknown_use)"
| "tally gpu (p # ps) used_by unknown_use =
     (if p_gpu_uuid p \<noteq> gpu then tally gpu ps used_by unknown_use
      else
        (case p_used_bytes p of
           None \<Rightarrow> tally gpu ps used_by (insert (p_pid p) unknown_use)
         | Some n \<Rightarrow> tally gpu ps (used_by(p_pid p := used_by (p_pid p) + n)) unknown_use))"

text \<open>The sums the loop over the deployments keeps.\<close>

record vram_sums =
  s_reserved :: int
  committed_own :: int
  s_own_actual :: int
  unknown_reserved :: int

definition add_deployment :: "(int \<Rightarrow> int) \<Rightarrow> int set \<Rightarrow> DeploymentUsage \<Rightarrow> vram_sums \<Rightarrow> vram_sums" where
  "add_deployment used_by unknown_use u s =
     (let act = (case pids u of None \<Rightarrow> 0 | Some ps \<Rightarrow> (\<Sum>pid \<in> ps. used_by pid))
      in if act = 0
         then s\<lparr>s_reserved := s_reserved s + reserved_bytes u,
                committed_own := committed_own s + reserved_bytes u,
                unknown_reserved := unknown_reserved s + reserved_bytes u\<rparr>
         else s\<lparr>s_reserved := s_reserved s + reserved_bytes u,
                committed_own := committed_own s + max (reserved_bytes u) act,
                s_own_actual := s_own_actual s + act,
                unknown_reserved := unknown_reserved s
                  + (if the (pids u) \<inter> unknown_use \<noteq> {} then max 0 (reserved_bytes u - act) else 0)\<rparr>)"

definition account ::
  "GpuDevice \<Rightarrow> GpuProcess list \<Rightarrow> DeploymentUsage list \<Rightarrow> int \<Rightarrow> int \<Rightarrow> int \<Rightarrow> VramView" where
  "account device processes deps head extra_reserved extra_baseline =
     (let (used_by, unknown_use) = tally (d_uuid device) processes (\<lambda>_. 0) {};
          s = fold (add_deployment used_by unknown_use) deps
                \<lparr>s_reserved = extra_reserved, committed_own = extra_reserved, s_own_actual = 0,
                 unknown_reserved = 0\<rparr>;
          rest = max 0 (used_bytes device - s_own_actual s - unknown_reserved s);
          exclusive_use = min extra_reserved (max 0 (rest - max 0 extra_baseline));
          ext = rest - exclusive_use;
          com = committed_own s + ext
      in \<lparr>vv_total = total_bytes device, actual = used_bytes device, reserved = s_reserved s,
          own_actual = s_own_actual s, external = ext, committed = com, headroom = head,
          available = total_bytes device - head - com, extra_use = exclusive_use\<rparr>)"

section \<open>KV cache\<close>

record KvState =
  capacity_tokens :: int
  reserved_tokens :: int
  sequences :: int
  max_sequences :: int
  observed_fraction :: "rat option"
  reserved_by_class :: "(ResourceClass \<Rightarrow> int option) option"

definition EPSILON :: rat where "EPSILON = 1 / 10 ^ 9"

text \<open>
  Floating point: \<open>rnd\<close> rounds the conversion of the integer and the result of each
  operation. \<open>Inl\<close> is the \<^verbatim>\<open>KeyError\<close> of a class that has no share or no rank.
\<close>

definition usable_tokens ::
  "(rat \<Rightarrow> rat) \<Rightarrow> KvState \<Rightarrow> ResourceClass \<Rightarrow> rat \<Rightarrow> (ResourceClass \<Rightarrow> rat option) \<Rightarrow> compute_error + int" where
  "usable_tokens rnd st cls safety ceilings =
     (case ceilings cls of
        None \<Rightarrow> Inl ComputeKeyError
      | Some c \<Rightarrow>
          Inr (floor (rnd (rnd (rnd (rnd (of_int (capacity_tokens st)) * safety) * c) + EPSILON))))"

text \<open>The loop over the shared classes: what counts as it is, the capped rest, the highest share.\<close>

fun count_classes ::
  "(rat \<Rightarrow> rat) \<Rightarrow> KvState \<Rightarrow> nat \<Rightarrow> rat \<Rightarrow> (ResourceClass \<Rightarrow> rat option) \<Rightarrow> (ResourceClass \<Rightarrow> int option)
     \<Rightarrow> ResourceClass list \<Rightarrow> int \<times> int \<times> int \<Rightarrow> compute_error + int \<times> int \<times> int" where
  "count_classes rnd st rank safety ceilings by_class [] acc = Inr acc"
| "count_classes rnd st rank safety ceilings by_class (cls # rest) (counted, lower, share) =
     (let tokens = (case by_class cls of None \<Rightarrow> 0 | Some n \<Rightarrow> n) in
      case CLASS_RANK cls of
        None \<Rightarrow> Inl ComputeKeyError
      | Some r \<Rightarrow>
          if r \<le> rank
          then count_classes rnd st rank safety ceilings by_class rest (counted + tokens, lower, share)
          else
            rbind (usable_tokens rnd st cls safety ceilings) (\<lambda>u.
              count_classes rnd st rank safety ceilings by_class rest
                (counted, lower + min tokens u, max share u)))"

definition counted_tokens ::
  "(rat \<Rightarrow> rat) \<Rightarrow> KvState \<Rightarrow> ResourceClass \<Rightarrow> rat \<Rightarrow> (ResourceClass \<Rightarrow> rat option) \<Rightarrow> compute_error + int" where
  "counted_tokens rnd st cls safety ceilings =
     (case reserved_by_class st of
        None \<Rightarrow> Inr (reserved_tokens st)
      | Some by_class \<Rightarrow>
          (case CLASS_RANK cls of
             None \<Rightarrow> Inl ComputeKeyError
           | Some rank \<Rightarrow>
               rbind (count_classes rnd st rank safety ceilings by_class SHARED_CLASSES (0, 0, 0))
                 (\<lambda>(counted, lower, share). Inr (counted + min lower share))))"

definition observed_tokens :: "(rat \<Rightarrow> rat) \<Rightarrow> KvState \<Rightarrow> int" where
  "observed_tokens rnd st =
     (case observed_fraction st of
        None \<Rightarrow> 0
      | Some f \<Rightarrow> ceiling (rnd (rnd (rnd (of_int (capacity_tokens st)) * f) - EPSILON)))"

definition used_tokens ::
  "(rat \<Rightarrow> rat) \<Rightarrow> KvState \<Rightarrow> ResourceClass \<Rightarrow> rat \<Rightarrow> (ResourceClass \<Rightarrow> rat option) \<Rightarrow> compute_error + int" where
  "used_tokens rnd st cls safety ceilings =
     rbind (counted_tokens rnd st cls safety ceilings) (\<lambda>n. Inr (max n (observed_tokens rnd st)))"

definition kv_refusal ::
  "(rat \<Rightarrow> rat) \<Rightarrow> KvState \<Rightarrow> int \<Rightarrow> ResourceClass \<Rightarrow> rat \<Rightarrow> (ResourceClass \<Rightarrow> rat option)
     \<Rightarrow> compute_error + Refusal option" where
  "kv_refusal rnd st tokens cls safety ceilings =
     (if sequences st \<ge> max_sequences st then Inr (Some SEQUENCES_FULL)
      else if capacity_tokens st = 0 then Inr None
      else
        rbind (usable_tokens rnd st cls safety ceilings) (\<lambda>usable.
        rbind (used_tokens rnd st cls safety ceilings) (\<lambda>used.
          if used + tokens > usable then Inr (Some KV_FULL) else Inr None)))"

definition parallelism ::
  "(rat \<Rightarrow> rat) \<Rightarrow> KvState \<Rightarrow> int \<Rightarrow> ResourceClass \<Rightarrow> rat \<Rightarrow> (ResourceClass \<Rightarrow> rat option)
     \<Rightarrow> compute_error + int" where
  "parallelism rnd st tokens cls safety ceilings =
     (let seqs = max 0 (max_sequences st - sequences st)
      in if capacity_tokens st = 0 then Inr seqs
         else
           rbind (usable_tokens rnd st cls safety ceilings) (\<lambda>usable.
           rbind (used_tokens rnd st cls safety ceilings) (\<lambda>used.
             let free = usable - used
             in if tokens \<le> 0 then Inr (if free \<ge> 0 then seqs else 0)
                else Inr (min seqs (max 0 free div tokens)))))"

section \<open>Facts about the accounting\<close>

text \<open>
  What every deployment keeps: the committed sum is at least the reservations, and at least
  the extra reservation, the known use and the part of the unknown use that is the models'.
\<close>

definition sums_ok :: "int \<Rightarrow> vram_sums \<Rightarrow> bool" where
  "sums_ok extra s \<longleftrightarrow> s_reserved s \<le> committed_own s
     \<and> extra + s_own_actual s + unknown_reserved s \<le> committed_own s"

lemma add_deployment_ok: "sums_ok extra s \<Longrightarrow> sums_ok extra (add_deployment used unknown u s)"
  by (auto simp: sums_ok_def add_deployment_def Let_def max_def)

lemma fold_deployments_ok: "sums_ok extra s \<Longrightarrow> sums_ok extra (fold (add_deployment used unknown) deps s)"
  by (induction deps arbitrary: s) (auto intro: add_deployment_ok)

lemma account_bounds:
  shows "actual (account dev procs deps h extra base) \<le> committed (account dev procs deps h extra base)"
    and "reserved (account dev procs deps h extra base) \<le> committed (account dev procs deps h extra base)"
    and "0 \<le> external (account dev procs deps h extra base)"
proof -
  obtain used unknown where t: "tally (d_uuid dev) procs (\<lambda>_. 0) {} = (used, unknown)" by fastforce
  define s where "s = fold (add_deployment used unknown) deps
      \<lparr>s_reserved = extra, committed_own = extra, s_own_actual = 0, unknown_reserved = 0\<rparr>"
  have ok: "sums_ok extra s" unfolding s_def by (rule fold_deployments_ok) (simp add: sums_ok_def)
  show "actual (account dev procs deps h extra base) \<le> committed (account dev procs deps h extra base)"
    and "reserved (account dev procs deps h extra base) \<le> committed (account dev procs deps h extra base)"
    and "0 \<le> external (account dev procs deps h extra base)"
    using ok by (auto simp: account_def t Let_def s_def [symmetric] sums_ok_def min_def max_def)
qed

lemma account_view:
  "available (account dev procs deps h extra base) =
     vv_total (account dev procs deps h extra base) - h - committed (account dev procs deps h extra base)"
  "headroom (account dev procs deps h extra base) = h"
  "vv_total (account dev procs deps h extra base) = total_bytes dev"
  "actual (account dev procs deps h extra base) = used_bytes dev"
  by (simp_all add: account_def Let_def split: prod.splits)

section \<open>Facts about the KV cache\<close>

text \<open>The shares of a validated configuration: every shared class has one, none above a higher class's.\<close>

definition ceilings_ok :: "(ResourceClass \<Rightarrow> rat option) \<Rightarrow> bool" where
  "ceilings_ok m \<longleftrightarrow> (\<exists>i co su b. m = [INTERACTIVE \<mapsto> i, CODING \<mapsto> co, SUPPORT \<mapsto> su, BACKGROUND \<mapsto> b]
     \<and> i \<le> 1 \<and> co \<le> i \<and> su \<le> co \<and> b \<le> su \<and> 0 < b)"

definition share_of :: "(rat \<Rightarrow> rat) \<Rightarrow> int \<Rightarrow> rat \<Rightarrow> rat \<Rightarrow> int" where
  "share_of rnd cap safety c = floor (rnd (rnd (rnd (rnd (of_int cap) * safety) * c) + EPSILON))"

definition tokens_of :: "(ResourceClass \<Rightarrow> int option) \<Rightarrow> ResourceClass \<Rightarrow> int" where
  "tokens_of m c = (case m c of None \<Rightarrow> 0 | Some n \<Rightarrow> n)"

definition rank_of :: "ResourceClass \<Rightarrow> nat" where
  "rank_of c = (case CLASS_RANK c of None \<Rightarrow> 0 | Some r \<Rightarrow> r)"

lemma usable_tokens_Some:
  "ceilings cls = Some c \<Longrightarrow> usable_tokens rnd st cls safety ceilings = Inr (share_of rnd (capacity_tokens st) safety c)"
  by (simp add: usable_tokens_def share_of_def)

text \<open>The loop in closed form.\<close>

definition kept :: "nat \<Rightarrow> (ResourceClass \<Rightarrow> int option) \<Rightarrow> ResourceClass list \<Rightarrow> int" where
  "kept rank m cs = sum_list (map (tokens_of m) (filter (\<lambda>c. rank_of c \<le> rank) cs))"

definition capped ::
  "nat \<Rightarrow> (ResourceClass \<Rightarrow> int option) \<Rightarrow> (ResourceClass \<Rightarrow> int) \<Rightarrow> ResourceClass list \<Rightarrow> int" where
  "capped rank m u cs =
     sum_list (map (\<lambda>c. min (tokens_of m c) (u c)) (filter (\<lambda>c. \<not> rank_of c \<le> rank) cs))"

definition top_share :: "nat \<Rightarrow> (ResourceClass \<Rightarrow> int) \<Rightarrow> ResourceClass list \<Rightarrow> int \<Rightarrow> int" where
  "top_share rank u cs init = fold (\<lambda>c x. max x (u c)) (filter (\<lambda>c. \<not> rank_of c \<le> rank) cs) init"

lemma count_classes_closed:
  assumes "\<And>c. c \<in> set cs \<Longrightarrow> usable_tokens rnd st c safety ceilings = Inr (u c)"
    and "\<And>c. c \<in> set cs \<Longrightarrow> CLASS_RANK c \<noteq> None"
  shows "count_classes rnd st rank safety ceilings m cs (a, b, d) =
    Inr (a + kept rank m cs, b + capped rank m u cs, top_share rank u cs d)"
  using assms
proof (induction cs arbitrary: a b d)
  case (Cons c cs)
  then obtain r where r: "CLASS_RANK c = Some r" by fastforce
  with Cons show ?case
    by (simp add: Let_def rbind_def rank_of_def tokens_of_def kept_def capped_def top_share_def)
qed (simp add: kept_def capped_def top_share_def)

text \<open>The state after one more request of a class was admitted.\<close>

definition kv_admit :: "ResourceClass \<Rightarrow> int \<Rightarrow> KvState \<Rightarrow> KvState" where
  "kv_admit cls tokens st =
     st\<lparr>sequences := sequences st + 1, reserved_tokens := reserved_tokens st + tokens,
        reserved_by_class := map_option (\<lambda>m. m(cls \<mapsto> tokens_of m cls + tokens)) (reserved_by_class st)\<rparr>"

lemma kv_admit_fields [simp]:
  "capacity_tokens (kv_admit cls n st) = capacity_tokens st"
  "max_sequences (kv_admit cls n st) = max_sequences st"
  "sequences (kv_admit cls n st) = sequences st + 1"
  "observed_fraction (kv_admit cls n st) = observed_fraction st"
  by (simp_all add: kv_admit_def)

lemma usable_tokens_admit [simp]:
  "usable_tokens rnd (kv_admit cls n st) c safety ceilings = usable_tokens rnd st c safety ceilings"
  by (simp add: usable_tokens_def split: option.splits)

lemma observed_tokens_admit [simp]: "observed_tokens rnd (kv_admit cls n st) = observed_tokens rnd st"
  by (simp add: observed_tokens_def split: option.splits)

lemma tokens_of_upd [simp]: "tokens_of (m(c' \<mapsto> n)) c = (if c = c' then n else tokens_of m c)"
  by (simp add: tokens_of_def)

lemma shared_usable:
  assumes "ceilings_ok ceilings"
  shows "\<exists>u. \<forall>c \<in> set SHARED_CLASSES. usable_tokens rnd st c safety ceilings = Inr (u c)"
proof -
  from assms obtain i co su b where m: "ceilings = [INTERACTIVE \<mapsto> i, CODING \<mapsto> co, SUPPORT \<mapsto> su, BACKGROUND \<mapsto> b]"
    by (auto simp: ceilings_ok_def)
  show ?thesis
    by (intro exI [of _ "\<lambda>c. share_of rnd (capacity_tokens st) safety (the (ceilings c))"])
      (auto simp: SHARED_CLASSES_def m usable_tokens_Some)
qed

lemma counted_closed:
  assumes "ceilings_ok ceilings" and "CLASS_RANK cls = Some rank" and "reserved_by_class st = Some m"
    and u: "\<forall>c \<in> set SHARED_CLASSES. usable_tokens rnd st c safety ceilings = Inr (u c)"
  shows "counted_tokens rnd st cls safety ceilings =
    Inr (kept rank m SHARED_CLASSES
      + min (capped rank m u SHARED_CLASSES) (top_share rank u SHARED_CLASSES 0))"
proof -
  have "CLASS_RANK c \<noteq> None" if "c \<in> set SHARED_CLASSES" for c
    using that by (auto simp: SHARED_CLASSES_def)
  then show ?thesis
    using assms(2,3) u by (simp add: counted_tokens_def rbind_def count_classes_closed [where u = u])
qed

lemma counted_admit:
  assumes "ceilings_ok ceilings" and "CLASS_RANK cls = Some rank"
    and "counted_tokens rnd st cls safety ceilings = Inr n"
  shows "counted_tokens rnd (kv_admit cls k st) cls safety ceilings = Inr (n + k)"
proof (cases "reserved_by_class st")
  case None
  with assms(3) show ?thesis by (simp add: counted_tokens_def kv_admit_def)
next
  case (Some m)
  let ?m = "m(cls \<mapsto> tokens_of m cls + k)"
  from shared_usable [OF assms(1)] obtain u where
    u: "\<forall>c \<in> set SHARED_CLASSES. usable_tokens rnd st c safety ceilings = Inr (u c)" by blast
  have "kept rank ?m SHARED_CLASSES = kept rank m SHARED_CLASSES + k"
    using assms(2) by (cases cls) (auto simp: kept_def SHARED_CLASSES_def rank_of_def)
  moreover have "capped rank ?m u SHARED_CLASSES = capped rank m u SHARED_CLASSES"
    using assms(2) by (cases cls) (auto simp: capped_def SHARED_CLASSES_def rank_of_def)
  moreover have "reserved_by_class (kv_admit cls k st) = Some ?m" using Some by (simp add: kv_admit_def)
  ultimately show ?thesis
    using counted_closed [OF assms(1,2) Some u] assms(3) u
      counted_closed [OF assms(1,2), of "kv_admit cls k st" ?m rnd safety u]
    by simp
qed

lemma used_tokens_total:
  assumes "ceilings_ok ceilings" and "CLASS_RANK cls = Some rank"
  shows "\<exists>n. counted_tokens rnd st cls safety ceilings = Inr n"
proof (cases "reserved_by_class st")
  case (Some m)
  from shared_usable [OF assms(1)] obtain u where
    "\<forall>c \<in> set SHARED_CLASSES. usable_tokens rnd st c safety ceilings = Inr (u c)" by blast
  from counted_closed [OF assms Some this] show ?thesis by blast
qed (simp add: counted_tokens_def)

end
