(* ===== verification/Compute_Properties.thy ===== *)
theory Compute_Properties
  imports Compute_Accounting
begin

text \<open>
  The properties of the compute core: the accounting never promises memory twice, and
  admission to the KV cache keeps what it reports and what it reserves for higher classes.
\<close>

section \<open>VRAM\<close>

text \<open>
  Whatever the probe reports, the committed memory of a view is never below what the
  GPU really uses and never below what the scheduler promised, so what is available never
  counts memory that is in use or already given away.
\<close>

theorem committed_covers_use_and_promises:
  "let v = account device processes deps head extra baseline in
     used_bytes device \<le> committed v \<and> reserved v \<le> committed v \<and> 0 \<le> external v
     \<and> available v \<le> total_bytes device - head - used_bytes device
     \<and> available v \<le> total_bytes device - head - reserved v"
  using account_bounds [where dev = device and procs = processes and deps = deps and h = head
      and extra = extra and base = baseline]
    account_view [where dev = device and procs = processes and deps = deps and h = head
      and extra = extra and base = baseline]
  by (simp add: Let_def)

text \<open>
  The admission test on the observed free memory, which subtracts only promises the
  probe does not show yet, is exactly the test that the available memory is enough.
\<close>

theorem admission_is_availability:
  "free_vram_admits (account device processes deps head extra baseline) need \<longleftrightarrow>
     need \<le> 0 \<or> need \<le> available (account device processes deps head extra baseline)"
  using account_bounds(1) [where dev = device and procs = processes and deps = deps and h = head
      and extra = extra and base = baseline]
  by (auto simp: free_vram_admits_def observed_free_def unseen_reserved_def account_view)

text \<open>
  The safety headroom is at least the configured minimum and never more than the GPU.
\<close>

lemma headroom_within_gpu:
  "headroom_bytes rnd tot m f \<le> tot \<and> (m \<le> tot \<longrightarrow> m \<le> headroom_bytes rnd tot m f)"
  by (auto simp: headroom_bytes_def)

lemma headroom_within_gpu_witness:
  "4 \<le> headroom_bytes (\<lambda>x. x) 100 4 (5 / 100) \<and> headroom_bytes (\<lambda>x. x) 100 4 (5 / 100) \<le> 100"
  using headroom_within_gpu [of "\<lambda>x. x" 100 4 "5 / 100"] by simp

section \<open>KV cache\<close>

definition demo_kv :: KvState where
  "demo_kv = \<lparr>capacity_tokens = 1000, reserved_tokens = 900, sequences = 2, max_sequences = 8,
     observed_fraction = None, reserved_by_class = Some [BACKGROUND \<mapsto> 900]\<rparr>"

lemma default_ceilings_ok: "ceilings_ok DEFAULT_CLASS_KV_CEILINGS"
proof -
  have "DEFAULT_CLASS_KV_CEILINGS = [INTERACTIVE \<mapsto> 1, CODING \<mapsto> 95 / 100, SUPPORT \<mapsto> 85 / 100, BACKGROUND \<mapsto> 70 / 100]"
  proof
    fix c show "DEFAULT_CLASS_KV_CEILINGS c
        = [INTERACTIVE \<mapsto> 1, CODING \<mapsto> 95 / 100, SUPPORT \<mapsto> 85 / 100, BACKGROUND \<mapsto> 70 / 100] c"
      by (cases c) simp_all
  qed
  then show ?thesis unfolding ceilings_ok_def
    by (intro exI [of _ 1] exI [of _ "95 / 100"] exI [of _ "85 / 100"] exI [of _ "70 / 100"]) simp
qed

lemma kv_refusal_used:
  assumes "counted_tokens rnd st cls safety ceilings = Inr n" and "usable_tokens rnd st cls safety ceilings = Inr U"
    and "capacity_tokens st \<noteq> 0"
  shows "kv_refusal rnd st tokens cls safety ceilings =
    (if max_sequences st \<le> sequences st then Inr (Some SEQUENCES_FULL)
     else if U < max n (observed_tokens rnd st) + tokens then Inr (Some KV_FULL) else Inr None)"
  using assms by (simp add: kv_refusal_def used_tokens_def rbind_def)

lemma admit_run:
  assumes ok: "ceilings_ok ceilings" "CLASS_RANK cls = Some rank"
    and n: "counted_tokens rnd st cls safety ceilings = Inr n"
  shows "counted_tokens rnd ((kv_admit cls k ^^ i) st) cls safety ceilings = Inr (n + int i * k)
    \<and> sequences ((kv_admit cls k ^^ i) st) = sequences st + int i
    \<and> max_sequences ((kv_admit cls k ^^ i) st) = max_sequences st
    \<and> capacity_tokens ((kv_admit cls k ^^ i) st) = capacity_tokens st
    \<and> observed_tokens rnd ((kv_admit cls k ^^ i) st) = observed_tokens rnd st
    \<and> usable_tokens rnd ((kv_admit cls k ^^ i) st) cls safety ceilings = usable_tokens rnd st cls safety ceilings"
proof (induction i)
  case (Suc i)
  with counted_admit [OF ok, of rnd "(kv_admit cls k ^^ i) st" safety "n + int i * k" k]
  show ?case by (simp add: algebra_simps)
qed (simp add: n)

text \<open>
  The number of further requests that the scheduler reports can really be admitted one
  after the other, each seeing the reservations of those before it; and when it reports none,
  the next request is refused.
\<close>

theorem parallelism_is_admitted:
  assumes "ceilings_ok ceilings" and "CLASS_RANK cls = Some rank" and "0 \<le> tokens"
    and "parallelism rnd st tokens cls safety ceilings = Inr n"
  shows "(int i < n \<longrightarrow> kv_refusal rnd ((kv_admit cls tokens ^^ i) st) tokens cls safety ceilings = Inr None)
    \<and> (n \<le> 0 \<longrightarrow> kv_refusal rnd st tokens cls safety ceilings \<noteq> Inr None)"
proof -
  obtain c where c: "counted_tokens rnd st cls safety ceilings = Inr c"
    using used_tokens_total [OF assms(1,2)] by blast
  note run = admit_run [OF assms(1,2) c, where k = tokens and i = i]
  show ?thesis
  proof (cases "capacity_tokens st = 0")
    case True
    with assms(4) have "n = max 0 (max_sequences st - sequences st)" by (simp add: parallelism_def Let_def)
    with True run show ?thesis by (auto simp: kv_refusal_def)
  next
    case False
    have "cls \<in> set SHARED_CLASSES" using assms(2) by (cases cls) (auto simp: SHARED_CLASSES_def)
    with shared_usable [OF assms(1)] obtain U where U: "usable_tokens rnd st cls safety ceilings = Inr U" by blast
    let ?used = "max c (observed_tokens rnd st)" and ?seqs = "max 0 (max_sequences st - sequences st)"
    have n: "n = (if tokens \<le> 0 then if 0 \<le> U - ?used then ?seqs else 0
        else min ?seqs (max 0 (U - ?used) div tokens))"
      using assms(4) False c U by (auto simp: parallelism_def used_tokens_def rbind_def Let_def split: if_splits)
    have fits: "max (c + int j * tokens) (observed_tokens rnd st) + tokens \<le> U" if j: "int j < n" for j
    proof (cases "tokens = 0")
      case True
      with n j show ?thesis by (auto split: if_splits)
    next
      case pos: False
      with assms(3) n j have "int j < max 0 (U - ?used) div tokens" and "0 < tokens" by (auto split: if_splits)
      then have "(int j + 1) * tokens \<le> max 0 (U - ?used) div tokens * tokens" by (intro mult_right_mono) auto
      also have "\<dots> \<le> max 0 (U - ?used)" using \<open>0 < tokens\<close> by (simp add: minus_mod_eq_div_mult [symmetric])
      finally have "(int j + 1) * tokens \<le> max 0 (U - ?used)" .
      moreover have "0 < (int j + 1) * tokens" using \<open>0 < tokens\<close> by simp
      moreover have "0 \<le> int j * tokens" using \<open>0 < tokens\<close> by simp
      ultimately show ?thesis by (auto simp: algebra_simps max_def split: if_splits)
    qed
    have seqs: "int j < n \<Longrightarrow> sequences st + int j < max_sequences st" for j
      using n by (auto split: if_splits)
    have yes: "kv_refusal rnd ((kv_admit cls tokens ^^ i) st) tokens cls safety ceilings = Inr None" if "int i < n"
      using kv_refusal_used [of rnd "(kv_admit cls tokens ^^ i) st" cls safety ceilings "c + int i * tokens" U tokens]
        run U False fits [OF that] seqs [OF that] by simp
    have no: "kv_refusal rnd st tokens cls safety ceilings \<noteq> Inr None" if "n \<le> 0"
    proof -
      have "max_sequences st \<le> sequences st \<or> U < ?used + tokens"
      proof (rule ccontr)
        assume "\<not> ?thesis"
        then have room: "sequences st < max_sequences st" "tokens \<le> U - ?used" by auto
        have "1 \<le> max 0 (U - ?used) div tokens" if "0 < tokens"
          using zdiv_mono1 [of tokens "max 0 (U - ?used)" tokens] room(2) that by simp
        with n room assms(3) \<open>n \<le> 0\<close> show False by (auto split: if_splits)
      qed
      then show ?thesis by (auto simp: kv_refusal_used [OF c U False])
    qed
    from yes no show ?thesis by blast
  qed
qed

theorem parallelism_is_admitted_witness:
  "parallelism (\<lambda>x. x) demo_kv 10 CODING (9 / 10) DEFAULT_CLASS_KV_CEILINGS = Inr 6
   \<and> kv_refusal (\<lambda>x. x) ((kv_admit CODING 10 ^^ 5) demo_kv) 10 CODING (9 / 10) DEFAULT_CLASS_KV_CEILINGS = Inr None"
proof -
  have run: "parallelism (\<lambda>x. x) demo_kv 10 CODING (9 / 10) DEFAULT_CLASS_KV_CEILINGS = Inr 6"
    by code_simp
  have "CLASS_RANK CODING = Some 1" by simp
  from parallelism_is_admitted [OF default_ceilings_ok this _ run, of 5] run show ?thesis by simp
qed

section \<open>What lower classes leave\<close>

lemma share_mono:
  assumes "mono rnd" and "rnd 0 = 0" and "0 \<le> cap" and "0 \<le> safety" and "a \<le> b"
  shows "share_of rnd cap safety a \<le> share_of rnd cap safety b"
proof -
  have "0 \<le> rnd (of_int cap)" using monoD [OF assms(1), of 0 "of_int cap"] assms(2,3) by simp
  then have "0 \<le> rnd (rnd (of_int cap) * safety)"
    using monoD [OF assms(1), of 0 "rnd (of_int cap) * safety"] assms(2,4) by simp
  then have "rnd (rnd (of_int cap) * safety) * a \<le> rnd (rnd (of_int cap) * safety) * b"
    using assms(5) by (rule mult_left_mono [rotated])
  then show ?thesis
    unfolding share_of_def using assms(1) by (intro floor_mono monoD [OF assms(1)] add_right_mono)
qed

lemma share_nonneg:
  assumes "mono rnd" and "rnd 0 = 0" and "0 \<le> cap" and "0 \<le> safety" and "0 \<le> a"
  shows "0 \<le> share_of rnd cap safety a"
proof -
  have "0 \<le> rnd EPSILON" using monoD [OF assms(1), of 0 EPSILON] assms(2) by (simp add: EPSILON_def)
  then have "0 \<le> share_of rnd cap safety 0" by (simp add: share_of_def assms(2))
  also have "\<dots> \<le> share_of rnd cap safety a" by (rule share_mono) (use assms in auto)
  finally show ?thesis .
qed

lemma top_share_next:
  assumes "ceilings_ok ceilings" and "CLASS_RANK cls = Some r" and "CLASS_RANK below = Some (Suc r)"
    and "mono rnd" "rnd 0 = 0" "0 \<le> cap" "0 \<le> safety"
    and u: "\<And>c x. ceilings c = Some x \<Longrightarrow> u c = share_of rnd cap safety x"
  shows "top_share r u SHARED_CLASSES 0 = u below"
proof -
  from assms(1) obtain i co su b where m: "ceilings = [INTERACTIVE \<mapsto> i, CODING \<mapsto> co, SUPPORT \<mapsto> su, BACKGROUND \<mapsto> b]"
    and ord: "su \<le> co" "b \<le> su" "0 < b" by (auto simp: ceilings_ok_def)
  have val: "u CODING = share_of rnd cap safety co" "u SUPPORT = share_of rnd cap safety su"
    "u BACKGROUND = share_of rnd cap safety b"
    by (rule u; simp add: m)+
  have "u BACKGROUND \<le> u SUPPORT" "u SUPPORT \<le> u CODING" "0 \<le> u BACKGROUND"
    unfolding val using share_mono [OF assms(4-7)] share_nonneg [OF assms(4-7)] ord by auto
  then show ?thesis
    using assms(2,3) by (cases cls; cases below) (auto simp: top_share_def SHARED_CLASSES_def rank_of_def)
qed

text \<open>
  Whatever lower classes have reserved, however far their running requests have grown,
  the room between a class's share and the share of the class below it stays for that class and
  the ones above: a request that fits into it with their reservations is admitted.
\<close>

theorem lower_classes_leave_room:
  assumes "ceilings_ok ceilings" and "CLASS_RANK cls = Some r" and "CLASS_RANK below = Some (Suc r)"
    and "mono rnd" "rnd 0 = 0" "0 \<le> capacity_tokens st" "0 \<le> safety"
    and "reserved_by_class st = Some m" and "observed_fraction st = None" and "sequences st < max_sequences st"
    and "usable_tokens rnd st cls safety ceilings = Inr U" and "usable_tokens rnd st below safety ceilings = Inr U'"
    and "tokens + kept r m SHARED_CLASSES \<le> U - U'" and "0 \<le> tokens" and "0 \<le> kept r m SHARED_CLASSES"
  shows "kv_refusal rnd st tokens cls safety ceilings = Inr None"
proof (cases "capacity_tokens st = 0")
  case True
  with assms(10) show ?thesis by (simp add: kv_refusal_def)
next
  case False
  define u where "u c = (case usable_tokens rnd st c safety ceilings of Inr n \<Rightarrow> n | Inl _ \<Rightarrow> 0)" for c
  have u: "u c = share_of rnd (capacity_tokens st) safety x" if "ceilings c = Some x" for c x
    using that by (simp add: u_def usable_tokens_Some)
  have usable: "\<forall>c \<in> set SHARED_CLASSES. usable_tokens rnd st c safety ceilings = Inr (u c)"
    using shared_usable [OF assms(1), of rnd st safety] by (auto simp: u_def)
  have "top_share r u SHARED_CLASSES 0 = u below" by (rule top_share_next [OF assms(1-7) u])
  also have "\<dots> = U'" by (simp add: u_def assms(12))
  finally have counted: "counted_tokens rnd st cls safety ceilings =
      Inr (kept r m SHARED_CLASSES + min (capped r m u SHARED_CLASSES) U')"
    using counted_closed [OF assms(1,2,8) usable] by simp
  obtain x where "ceilings below = Some x" "0 \<le> x"
    using assms(1,3) by (cases below) (auto simp: ceilings_ok_def)
  then have "0 \<le> U'"
    using share_nonneg [OF assms(4-7), of x] assms(12) by (simp add: usable_tokens_Some)
  then show ?thesis
    using assms(9,10,13-15) False by (auto simp: kv_refusal_used [OF counted assms(11) False] observed_tokens_def)
qed

theorem lower_classes_leave_room_witness:
  "kv_refusal (\<lambda>x. x) demo_kv 40 INTERACTIVE (9 / 10) DEFAULT_CLASS_KV_CEILINGS = Inr None"
proof (rule lower_classes_leave_room [OF default_ceilings_ok, where below = CODING and m = "[BACKGROUND \<mapsto> 900]"
      and U = 900 and U' = 855 and r = 0])
  show "usable_tokens (\<lambda>x. x) demo_kv INTERACTIVE (9 / 10) DEFAULT_CLASS_KV_CEILINGS = Inr 900" by code_simp
  show "usable_tokens (\<lambda>x. x) demo_kv CODING (9 / 10) DEFAULT_CLASS_KV_CEILINGS = Inr 855" by code_simp
qed (simp_all add: demo_kv_def kept_def SHARED_CLASSES_def rank_of_def tokens_of_def monoI)

end
