(* ===== verification/Compute_Scheduler.thy ===== *)
theory Compute_Scheduler
  imports Compute_Accounting "HOL-Library.Product_Lexorder"
begin

text \<open>
  The compute scheduler (\<^verbatim>\<open>paw_backend/compute/scheduler.py\<close>, with the rate-limited warnings of
  \<^verbatim>\<open>alerts.py\<close>): requests, leases, deployments, admission, the waiting line, relief and
  residency. This theory holds the synchronous code, which runs between two awaits; the
  coroutines are in \<open>Compute_Control\<close>.

  Objects that the code shares by reference have an identity: a lease is a number, its fields
  are in the heap \<open>cs_heap\<close>; a waiter and its future are the sequence number. A set of leases
  is the list of its members in the order they were added. The dictionary of deployments is
  the list of its entries in insertion order, each found by its name. Times are rationals,
  \<open>cs_rnd\<close> is the rounding of a float operation. A stretch of synchronous code reads the clock
  once (\<open>now\<close>).
\<close>

section \<open>Requests\<close>

record ComputeRequest =
  cr_class :: ResourceClass
  cr_deployment :: "pystr option"
  cr_tokens :: int
  cr_vram :: int
  cr_cloud :: bool
  cr_task :: "uuid option"

record request_args =
  ra_class :: "ResourceClass arg"
  ra_deployment :: pyval
  ra_tokens :: pyval
  ra_vram :: pyval
  ra_cloud :: pyval
  ra_task :: pyval

definition plain_int :: "string \<Rightarrow> pyval \<Rightarrow> compute_error + int" where
  "plain_int p v = (case v of PyInt n \<Rightarrow> Inr n | _ \<Rightarrow> refuse p)"

definition ComputeRequest_init :: "request_args \<Rightarrow> compute_error + ComputeRequest" where
  "ComputeRequest_init a =
     rbind (compute_check_member ''resource_class'' (ra_class a)) (\<lambda>cls.
     rbind (compute_check_int ''context_tokens'' (ra_tokens a) 0 MAX_TOKENS) (\<lambda>tokens.
     rbind (plain_int ''vram_bytes'' (ra_vram a)) (\<lambda>vram.
     rbind (case ra_cloud a of PyBool b \<Rightarrow> Inr b | _ \<Rightarrow> refuse ''allow_cloud'') (\<lambda>cloud.
     rbind (case ra_task a of PyNone \<Rightarrow> Inr None | PyUuid u \<Rightarrow> Inr (Some u) | _ \<Rightarrow> refuse ''task_id'') (\<lambda>task.
       if cls = EXCLUSIVE
       then
         if ra_deployment a \<noteq> PyNone then refuse ''deployment''
         else if task \<noteq> None then refuse ''task_id''
         else if \<not> (0 < vram \<and> vram \<le> MAX_BYTES) then refuse ''vram_bytes''
         else if cloud then refuse ''allow_cloud''
         else Inr \<lparr>cr_class = cls, cr_deployment = None, cr_tokens = tokens, cr_vram = vram,
                   cr_cloud = cloud, cr_task = task\<rparr>
       else
         rbind (check_name ''deployment'' (ra_deployment a)) (\<lambda>name.
           if \<not> (0 \<le> vram \<and> vram \<le> MAX_BYTES) then refuse ''vram_bytes''
           else Inr \<lparr>cr_class = cls, cr_deployment = Some name, cr_tokens = tokens, cr_vram = vram,
                     cr_cloud = cloud, cr_task = task\<rparr>))))))"

definition check_seconds :: "string \<Rightarrow> num_arg \<Rightarrow> compute_error + rat" where
  "check_seconds p v = check_number p v 0 86400 False"

section \<open>Leases, deployments, waiters\<close>

type_synonym lid = nat

text \<open>\<open>cl_held\<close> names the work of the last \<^verbatim>\<open>hold_until\<close>.\<close>

record ComputeLease =
  cl_class :: ResourceClass
  cl_deployment :: "pystr option"
  cl_task :: "uuid option"
  cl_placement :: Placement
  cl_tokens :: int
  cl_vram :: int
  cl_revoked :: bool
  cl_granted_at :: rat
  cl_released :: bool
  cl_held :: "nat option"

record UnitEnd =
  ue_invocation :: pystr
  ue_oom_killed :: bool
  ue_seen_at :: rat

record UnitState =
  us_active_state :: pystr
  us_result :: pystr
  us_invocation :: pystr

definition ENDED_STATES :: "pystr list" where
  "ENDED_STATES = [cp ''deactivating'', cp ''failed'', cp ''inactive'']"

definition us_ended :: "UnitState \<Rightarrow> bool" where
  "us_ended u \<longleftrightarrow> us_active_state u \<in> set ENDED_STATES"

definition OOM_KILL_RESULT :: pystr where "OOM_KILL_RESULT = cp ''oom-kill''"

definition us_oom_killed :: "UnitState \<Rightarrow> bool" where
  "us_oom_killed u \<longleftrightarrow> us_result u = OOM_KILL_RESULT"

record Deployment =
  dp_spec :: DeploymentSpec
  dp_state :: DeploymentState
  dp_leases :: "lid list"
  dp_reserved :: int
  dp_by_class :: "ResourceClass \<Rightarrow> int option"
  dp_pids :: "int set option"
  dp_observed :: "rat option"
  dp_draining :: bool
  dp_busy :: bool
  dp_displaced :: bool
  dp_retry_at :: "rat option"
  dp_seen_on_gpu :: bool
  dp_unit_end :: "UnitEnd option"
  dp_oom_ends :: "(pystr \<times> rat) list"

abbreviation dp_name :: "Deployment \<Rightarrow> pystr" where
  "dp_name d \<equiv> ds_name (dp_spec d)"

definition counts_on_gpu :: "Deployment \<Rightarrow> bool" where
  "counts_on_gpu d \<longleftrightarrow> dp_busy d \<or> dp_state d = DeploymentState_GPU \<or> dp_state d = DeploymentState_FAILED"

definition dp_order :: "Deployment \<Rightarrow> nat" where
  "dp_order d = ROLE_ORDER (ds_role (dp_spec d))"

definition no_reservations :: "ResourceClass \<Rightarrow> int option" where
  "no_reservations c = (if c \<in> set SHARED_CLASSES then Some 0 else None)"

definition new_deployment :: "DeploymentSpec \<Rightarrow> Deployment" where
  "new_deployment spec =
     \<lparr>dp_spec = spec, dp_state = initial spec, dp_leases = [], dp_reserved = 0,
      dp_by_class = no_reservations, dp_pids = None, dp_observed = None, dp_draining = False,
      dp_busy = False, dp_displaced = False, dp_retry_at = None, dp_seen_on_gpu = False,
      dp_unit_end = None, dp_oom_ends = []\<rparr>"

datatype fut = Pending | Result lid | Cancelled

record Waiter =
  wt_request :: ComputeRequest
  wt_seq :: nat
  wt_last :: Refusal
  wt_waited :: bool

definition note_refusal :: "Refusal \<Rightarrow> Waiter \<Rightarrow> Waiter" where
  "note_refusal r w = (if r = INSUFFICIENT_FREE_VRAM then w\<lparr>wt_last := r, wt_waited := True\<rparr> else w\<lparr>wt_last := r\<rparr>)"

definition new_waiter :: "ComputeRequest \<Rightarrow> nat \<Rightarrow> Refusal \<Rightarrow> Waiter" where
  "new_waiter r n refusal = note_refusal refusal \<lparr>wt_request = r, wt_seq = n, wt_last = refusal, wt_waited = False\<rparr>"

text \<open>\<open>rank_of\<close> is \<^verbatim>\<open>CLASS_RANK[...]\<close> of a shared class; an Exclusive request never waits in the line.\<close>

definition wt_key :: "Waiter \<Rightarrow> nat \<times> nat" where
  "wt_key w = (rank_of (cr_class (wt_request w)), wt_seq w)"

section \<open>Warnings\<close>

datatype DeferredWork = Deferred_REQUEST | Deferred_EXCLUSIVE | Deferred_MODEL_LOAD

record VramDeferral =
  vd_work :: DeferredWork
  vd_class :: "ResourceClass option"
  vd_requested :: int
  vd_observed_free :: int
  vd_external :: int
  vd_headroom :: int
  vd_gave_up :: bool

type_synonym warning_key = "DeferredWork \<times> ResourceClass option \<times> bool"

definition warning_key :: "VramDeferral \<Rightarrow> warning_key" where
  "warning_key e = (vd_work e, vd_class e, vd_gave_up e)"

section \<open>The scheduler\<close>

text \<open>
  \<open>cs_mode_changes\<close> counts the changes of the mode: the event that \<^verbatim>\<open>mode_change\<close> returns is set
  when the count has grown. \<open>cs_drained\<close> is the drain's event (\<open>Some True\<close> when set).
  \<open>cs_warned\<close> is the time of the last warning of each kind, \<open>cs_warnings\<close> what the log and the
  sink received, newest first. \<open>cs_works_done\<close> and \<open>cs_callbacks\<close> are the futures given to
  \<^verbatim>\<open>hold_until\<close> that ended, and the callbacks not run yet.
\<close>

record scheduler =
  cs_config :: ComputeConfig
  cs_control :: bool
  cs_units :: bool
  cs_rnd :: "rat \<Rightarrow> rat"
  cs_entries :: "Deployment list"
  cs_heap :: "lid \<Rightarrow> ComputeLease option"
  cs_next_lease :: lid
  cs_device :: "GpuDevice option"
  cs_processes :: "GpuProcess list"
  cs_sampled_at :: "rat option"
  cs_probe_failing :: bool
  cs_relief :: Relief
  cs_mode :: SchedulerMode
  cs_mode_changes :: nat
  cs_exclusive :: "lid option"
  cs_extra_baseline :: int
  cs_pending_release :: int
  cs_last_view :: "VramView option"
  cs_exclusive_pending :: bool
  cs_exclusive_waits :: bool
  cs_drained :: "bool option"
  cs_cloud :: "lid list"
  cs_waiters :: "Waiter list"
  cs_futures :: "nat \<Rightarrow> fut"
  cs_refused_tasks :: "uuid list"
  cs_sequence :: nat
  cs_warned :: "warning_key \<Rightarrow> rat option"
  cs_warnings :: "VramDeferral list"
  cs_works_done :: "nat list"
  cs_callbacks :: "(nat \<times> lid) list"

definition new_scheduler :: "ComputeConfig \<Rightarrow> bool \<Rightarrow> bool \<Rightarrow> (rat \<Rightarrow> rat) \<Rightarrow> scheduler" where
  "new_scheduler config control units rnd =
     \<lparr>cs_config = config, cs_control = control, cs_units = units, cs_rnd = rnd,
      cs_entries = map new_deployment (deployments config), cs_heap = (\<lambda>_. None), cs_next_lease = 0,
      cs_device = None, cs_processes = [], cs_sampled_at = None, cs_probe_failing = False,
      cs_relief = Relief_NONE, cs_mode = SchedulerMode_NORMAL, cs_mode_changes = 0, cs_exclusive = None,
      cs_extra_baseline = 0, cs_pending_release = 0, cs_last_view = None, cs_exclusive_pending = False,
      cs_exclusive_waits = False, cs_drained = None, cs_cloud = [], cs_waiters = [],
      cs_futures = (\<lambda>_. Pending), cs_refused_tasks = [], cs_sequence = 0, cs_warned = (\<lambda>_. None),
      cs_warnings = [], cs_works_done = [], cs_callbacks = []\<rparr>"

definition ordered :: "scheduler \<Rightarrow> Deployment list" where
  "ordered s = sort_key dp_order (cs_entries s)"

definition entry_of :: "scheduler \<Rightarrow> pystr \<Rightarrow> Deployment option" where
  "entry_of s name = find (\<lambda>d. dp_name d = name) (cs_entries s)"

definition upd_entry :: "pystr \<Rightarrow> (Deployment \<Rightarrow> Deployment) \<Rightarrow> scheduler \<Rightarrow> scheduler" where
  "upd_entry name f s =
     s\<lparr>cs_entries := map (\<lambda>d. if dp_name d = name then f d else d) (cs_entries s)\<rparr>"

definition lease_at :: "scheduler \<Rightarrow> lid \<Rightarrow> ComputeLease" where
  "lease_at s l = (case cs_heap s l of Some x \<Rightarrow> x
     | None \<Rightarrow> \<lparr>cl_class = EXCLUSIVE, cl_deployment = None, cl_task = None, cl_placement = CLOUD, cl_tokens = 0,
               cl_vram = 0, cl_revoked = True, cl_granted_at = 0, cl_released = True, cl_held = None\<rparr>)"

definition upd_lease :: "lid \<Rightarrow> (ComputeLease \<Rightarrow> ComputeLease) \<Rightarrow> scheduler \<Rightarrow> scheduler" where
  "upd_lease l f s = s\<lparr>cs_heap := (cs_heap s)(l := map_option f (cs_heap s l))\<rparr>"

definition upd_waiter :: "nat \<Rightarrow> (Waiter \<Rightarrow> Waiter) \<Rightarrow> scheduler \<Rightarrow> scheduler" where
  "upd_waiter n f s = s\<lparr>cs_waiters := map (\<lambda>w. if wt_seq w = n then f w else w) (cs_waiters s)\<rparr>"

definition drop_waiter :: "nat \<Rightarrow> scheduler \<Rightarrow> scheduler" where
  "drop_waiter n s = s\<lparr>cs_waiters := filter (\<lambda>w. wt_seq w \<noteq> n) (cs_waiters s)\<rparr>"

definition emit :: "rat \<Rightarrow> VramDeferral \<Rightarrow> scheduler \<Rightarrow> scheduler" where
  "emit now e s =
     (case cs_warned s (warning_key e) of
        Some t \<Rightarrow>
          if cs_rnd s (now - t) < vram_warning_interval_seconds (cs_config s) then s
          else s\<lparr>cs_warned := (cs_warned s)(warning_key e \<mapsto> now), cs_warnings := e # cs_warnings s\<rparr>
      | None \<Rightarrow> s\<lparr>cs_warned := (cs_warned s)(warning_key e \<mapsto> now), cs_warnings := e # cs_warnings s\<rparr>)"

section \<open>The reading\<close>

definition fresh :: "rat \<Rightarrow> scheduler \<Rightarrow> bool" where
  "fresh now s =
     (case (cs_sampled_at s, cs_device s) of
        (Some t, Some _) \<Rightarrow> cs_rnd s (now - t) \<le> probe_max_age_seconds (cs_config s)
      | _ \<Rightarrow> False)"

definition sched_headroom :: "GpuDevice \<Rightarrow> scheduler \<Rightarrow> int" where
  "sched_headroom dev s =
     headroom_bytes (cs_rnd s) (total_bytes dev) (headroom_min_bytes (cs_config s)) (headroom_fraction (cs_config s))"

definition sched_margin :: "GpuDevice \<Rightarrow> scheduler \<Rightarrow> int" where
  "sched_margin dev s = (case restore_margin_bytes (cs_config s) of Some m \<Rightarrow> m | None \<Rightarrow> sched_headroom dev s)"

definition shared_leases :: "scheduler \<Rightarrow> lid list" where
  "shared_leases s = concat (map dp_leases (cs_entries s))"

definition extra_reserved :: "scheduler \<Rightarrow> int" where
  "extra_reserved s =
     (case cs_exclusive s of
        Some l \<Rightarrow> cs_pending_release s + cl_vram (lease_at s l)
      | None \<Rightarrow> cs_pending_release s + sum_list (map (\<lambda>l. cl_vram (lease_at s l)) (shared_leases s)))"

definition vram_of :: "GpuDevice \<Rightarrow> scheduler \<Rightarrow> VramView" where
  "vram_of dev s =
     account dev (cs_processes s)
       (map (\<lambda>d. \<lparr>reserved_bytes = gpu_bytes (dp_spec d), pids = dp_pids d\<rparr>) (filter counts_on_gpu (ordered s)))
       (sched_headroom dev s) (extra_reserved s) (cs_extra_baseline s)"

text \<open>\<open>None\<close> is the \<^verbatim>\<open>assert\<close> that there is a reading.\<close>

definition vram :: "scheduler \<Rightarrow> VramView option" where
  "vram s = map_option (\<lambda>dev. vram_of dev s) (cs_device s)"

definition lose_sample :: "scheduler \<Rightarrow> scheduler" where
  "lose_sample s =
     s\<lparr>cs_probe_failing := True,
       cs_last_view := (case vram s of Some v \<Rightarrow> Some v | None \<Rightarrow> cs_last_view s),
       cs_sampled_at := None, cs_device := None, cs_processes := []\<rparr>"

section \<open>Admission\<close>

definition sched_check_request :: "ComputeRequest arg \<Rightarrow> scheduler \<Rightarrow> compute_error + ComputeRequest" where
  "sched_check_request v s =
     (case v of
        Other \<Rightarrow> refuse ''request''
      | Inst r \<Rightarrow>
          (case cr_deployment r of
             None \<Rightarrow> Inr r
           | Some name \<Rightarrow> if entry_of s name = None then refuse ''deployment'' else Inr r))"

definition kv_of :: "Deployment \<Rightarrow> KvState" where
  "kv_of d =
     \<lparr>capacity_tokens = kv_capacity_tokens (dp_spec d), reserved_tokens = dp_reserved d,
      sequences = int (length (dp_leases d)), max_sequences = ds_max_sequences (dp_spec d),
      observed_fraction = dp_observed d, reserved_by_class = Some (dp_by_class d)\<rparr>"

text \<open>
  The share of a class. The lookups of a shared class in a checked configuration succeed
  (lemma \<open>class_lookups\<close>), so the \<^verbatim>\<open>KeyError\<close> of \<open>usable_tokens\<close> and \<open>kv_refusal\<close> does not occur.
\<close>

definition class_share :: "scheduler \<Rightarrow> Deployment \<Rightarrow> ResourceClass \<Rightarrow> int" where
  "class_share s d cls =
     (case usable_tokens (cs_rnd s) (kv_of d) cls (kv_safety (cs_config s)) (class_ceilings (cs_config s)) of
        Inr n \<Rightarrow> n | Inl _ \<Rightarrow> 0)"

definition kv_answer :: "scheduler \<Rightarrow> Deployment \<Rightarrow> int \<Rightarrow> ResourceClass \<Rightarrow> Refusal option" where
  "kv_answer s d tokens cls =
     (case kv_refusal (cs_rnd s) (kv_of d) tokens cls (kv_safety (cs_config s)) (class_ceilings (cs_config s)) of
        Inr r \<Rightarrow> r | Inl _ \<Rightarrow> Some KV_FULL)"

definition on_cpu :: "Deployment \<Rightarrow> bool" where
  "on_cpu d \<longleftrightarrow> \<not> dp_busy d \<and> \<not> dp_draining d \<and> dp_state d = DeploymentState_CPU"

definition queued_ahead :: "ComputeRequest \<Rightarrow> bool \<Rightarrow> scheduler \<Rightarrow> bool" where
  "queued_ahead r gpu s =
     (let needs_vram = gpu \<and> cr_vram r > 0
      in list_ex (\<lambda>w.
           rank_of (cr_class (wt_request w)) \<le> rank_of (cr_class r)
           \<and> (needs_vram \<and> wt_last w = INSUFFICIENT_FREE_VRAM
              \<or> cr_deployment (wt_request w) = cr_deployment r
                \<and> (needs_vram \<or> wt_last w \<noteq> INSUFFICIENT_FREE_VRAM))) (cs_waiters s))"

text \<open>The longest context of a new request under relief step 5.\<close>

definition reduced_context :: "scheduler \<Rightarrow> Deployment \<Rightarrow> int" where
  "reduced_context s d =
     floor (cs_rnd s (cs_rnd s (of_int (max_context_tokens (dp_spec d))) * pressure_context_fraction (cs_config s)))"

definition judge :: "rat \<Rightarrow> ComputeRequest \<Rightarrow> bool \<Rightarrow> Deployment \<Rightarrow> scheduler \<Rightarrow> Refusal option \<times> Placement" where
  "judge now r queue d s =
     (let spec = dp_spec d; cls = cr_class r; tokens = cr_tokens r in
      if tokens > max_context_tokens spec then (Some CONTEXT_TOO_LONG, LOCAL_GPU)
      else if \<not> on_cpu d \<and> kv_capacity_tokens spec \<noteq> 0 \<and> tokens > class_share s d cls
      then (Some CONTEXT_TOO_LONG, LOCAL_GPU)
      else if on_cpu d then
        if queue \<and> queued_ahead r False s then (Some QUEUED_BEHIND, LOCAL_CPU)
        else if int (length (dp_leases d)) \<ge> ds_max_sequences spec then (Some SEQUENCES_FULL, LOCAL_CPU)
        else (None, LOCAL_CPU)
      else if cs_mode s \<noteq> SchedulerMode_NORMAL then (Some EXCLUSIVE_MODE, LOCAL_GPU)
      else if dp_busy d \<or> dp_draining d \<or> dp_state d \<noteq> DeploymentState_GPU then (Some NOT_RESIDENT, LOCAL_GPU)
      else if queue \<and> queued_ahead r True s then (Some QUEUED_BEHIND, LOCAL_GPU)
      else if \<not> fresh now s then (Some PROBE_UNAVAILABLE, LOCAL_GPU)
      else if cls = BACKGROUND \<and> cs_relief s \<ge> Relief_BACKGROUND_STOPPED then (Some BACKGROUND_PAUSED, LOCAL_GPU)
      else if cs_relief s \<ge> Relief_ADMISSION_SUPPRESSED \<and> cls \<noteq> INTERACTIVE
      then (Some ADMISSION_SUPPRESSED, LOCAL_GPU)
      else if cs_relief s \<ge> Relief_CONTEXT_REDUCED \<and> tokens > reduced_context s d
      then (Some CONTEXT_REDUCED, LOCAL_GPU)
      else
        (case kv_answer s d tokens cls of
           Some refusal \<Rightarrow> (Some refusal, LOCAL_GPU)
         | None \<Rightarrow>
             (case vram s of
                Some v \<Rightarrow> if free_vram_admits v (cr_vram r) then (None, LOCAL_GPU)
                          else (Some INSUFFICIENT_FREE_VRAM, LOCAL_GPU)
              | None \<Rightarrow> (Some PROBE_UNAVAILABLE, LOCAL_GPU))))"

text \<open>What a waiter that is queued behind others waits for.\<close>

definition queued_reason :: "ComputeRequest \<Rightarrow> Refusal \<Rightarrow> scheduler \<Rightarrow> Refusal" where
  "queued_reason r refusal s =
     (if refusal \<noteq> QUEUED_BEHIND then refusal
      else
        let ahead = filter (\<lambda>w. rank_of (cr_class (wt_request w)) \<le> rank_of (cr_class r)
                       \<and> cs_futures s (wt_seq w) = Pending) (sort_key wt_key (cs_waiters s))
        in case find (\<lambda>w. cr_deployment (wt_request w) = cr_deployment r \<and> wt_last w \<in> CAPACITY_REFUSALS) ahead of
             Some w \<Rightarrow> wt_last w
           | None \<Rightarrow>
               let cpu = (case cr_deployment r of None \<Rightarrow> False
                          | Some name \<Rightarrow> (case entry_of s name of None \<Rightarrow> False | Some d \<Rightarrow> on_cpu d))
               in if cr_vram r > 0 \<and> \<not> cpu \<and> list_ex (\<lambda>w. wt_last w = INSUFFICIENT_FREE_VRAM) ahead
                  then INSUFFICIENT_FREE_VRAM
                  else refusal)"

definition deferral :: "DeferredWork \<Rightarrow> ResourceClass option \<Rightarrow> int \<Rightarrow> VramView \<Rightarrow> bool \<Rightarrow> VramDeferral" where
  "deferral work cls need v gave_up =
     \<lparr>vd_work = work, vd_class = cls, vd_requested = need, vd_observed_free = observed_free v,
      vd_external = external v, vd_headroom = headroom v, vd_gave_up = gave_up\<rparr>"

definition warn_request :: "rat \<Rightarrow> ComputeRequest \<Rightarrow> bool \<Rightarrow> scheduler \<Rightarrow> scheduler" where
  "warn_request now r gave_up s =
     (case (case vram s of Some v \<Rightarrow> Some v | None \<Rightarrow> if gave_up then cs_last_view s else None) of
        None \<Rightarrow> s
      | Some v \<Rightarrow> emit now (deferral Deferred_REQUEST (Some (cr_class r)) (cr_vram r) v gave_up) s)"

section \<open>Grants and releases\<close>

definition reserve :: "pystr \<Rightarrow> ResourceClass \<Rightarrow> int \<Rightarrow> scheduler \<Rightarrow> scheduler" where
  "reserve name cls tokens =
     upd_entry name (\<lambda>d. d\<lparr>dp_reserved := dp_reserved d + tokens,
       dp_by_class := (dp_by_class d)(cls := map_option (\<lambda>n. n + tokens) (dp_by_class d cls))\<rparr>)"

definition rebase :: "int \<Rightarrow> scheduler \<Rightarrow> scheduler" where
  "rebase released s =
     (let s' = (case vram s of
                  None \<Rightarrow> s
                | Some v \<Rightarrow> s\<lparr>cs_extra_baseline := external v + min released (extra_use v)\<rparr>)
      in s'\<lparr>cs_pending_release := cs_pending_release s' + released\<rparr>)"

definition new_lease :: "rat \<Rightarrow> ComputeRequest \<Rightarrow> Placement \<Rightarrow> int \<Rightarrow> ComputeLease" where
  "new_lease now r placement tokens =
     \<lparr>cl_class = cr_class r, cl_deployment = cr_deployment r, cl_task = cr_task r, cl_placement = placement,
      cl_tokens = tokens, cl_vram = (if placement = LOCAL_GPU then cr_vram r else 0), cl_revoked = False,
      cl_granted_at = now, cl_released = False, cl_held = None\<rparr>"

definition alloc_lease :: "ComputeLease \<Rightarrow> scheduler \<Rightarrow> scheduler" where
  "alloc_lease x s =
     s\<lparr>cs_heap := (cs_heap s)(cs_next_lease s \<mapsto> x), cs_next_lease := Suc (cs_next_lease s)\<rparr>"

text \<open>The three kinds of \<^verbatim>\<open>_grant\<close>; the new lease is the next identity.\<close>

definition grant_cloud :: "rat \<Rightarrow> ComputeRequest \<Rightarrow> scheduler \<Rightarrow> scheduler" where
  "grant_cloud now r s =
     (alloc_lease (new_lease now r CLOUD 0) s)\<lparr>cs_cloud := cs_cloud s @ [cs_next_lease s]\<rparr>"

definition grant_exclusive :: "rat \<Rightarrow> ComputeRequest \<Rightarrow> scheduler \<Rightarrow> scheduler" where
  "grant_exclusive now r s =
     (alloc_lease (new_lease now r LOCAL_GPU 0) s)
       \<lparr>cs_extra_baseline := (case vram s of Some v \<Rightarrow> external v | None \<Rightarrow> cs_extra_baseline s),
        cs_exclusive := Some (cs_next_lease s)\<rparr>"

definition grant_local :: "rat \<Rightarrow> ComputeRequest \<Rightarrow> Placement \<Rightarrow> Deployment \<Rightarrow> scheduler \<Rightarrow> scheduler" where
  "grant_local now r placement d s =
     (let tokens = (if placement = LOCAL_GPU \<and> kv_capacity_tokens (dp_spec d) \<noteq> 0 then cr_tokens r else 0);
          x = new_lease now r placement tokens;
          l = cs_next_lease s;
          s1 = (if cl_vram x \<noteq> 0 then rebase 0 s else s);
          s2 = upd_entry (dp_name d) (\<lambda>e. e\<lparr>dp_leases := dp_leases e @ [l]\<rparr>) (alloc_lease x s1)
      in reserve (dp_name d) (cr_class r) tokens s2)"

definition local_gpu_leases :: "scheduler \<Rightarrow> lid list" where
  "local_gpu_leases s = filter (\<lambda>l. cl_placement (lease_at s l) = LOCAL_GPU) (shared_leases s)"

section \<open>The waiting line\<close>

type_synonym pump_state = "scheduler \<times> (pystr \<Rightarrow> Refusal option) \<times> bool"

definition pump_one :: "rat \<Rightarrow> Waiter \<Rightarrow> pump_state \<Rightarrow> pump_state" where
  "pump_one now w st =
     (case st of (s, blocked, vram_blocked) \<Rightarrow>
      if cs_futures s (wt_seq w) \<noteq> Pending then st
      else
        (case cr_deployment (wt_request w) of
           None \<Rightarrow> st
         | Some name \<Rightarrow>
             (case (blocked name, entry_of s name) of
                (Some refusal, _) \<Rightarrow> (upd_waiter (wt_seq w) (note_refusal refusal) s, blocked, vram_blocked)
              | (None, None) \<Rightarrow> st
              | (None, Some d) \<Rightarrow>
                  if cr_vram (wt_request w) > 0 \<and> \<not> on_cpu d \<and> vram_blocked
                  then (upd_waiter (wt_seq w) (note_refusal INSUFFICIENT_FREE_VRAM) s, blocked, vram_blocked)
                  else
                    (case judge now (wt_request w) False d s of
                       (None, placement) \<Rightarrow>
                         (let s1 = grant_local now (wt_request w) placement d (drop_waiter (wt_seq w) s)
                          in (s1\<lparr>cs_futures := (cs_futures s1)(wt_seq w := Result (cs_next_lease s))\<rparr>,
                              blocked, vram_blocked))
                     | (Some refusal, _) \<Rightarrow>
                         (let s1 = upd_waiter (wt_seq w) (note_refusal refusal) s
                          in if refusal \<in> CAPACITY_REFUSALS then (s1, blocked(name \<mapsto> refusal), vram_blocked)
                             else if refusal = INSUFFICIENT_FREE_VRAM
                             then (warn_request now (wt_request w) False s1, blocked, True)
                             else (s1, blocked, vram_blocked))))))"

definition pump :: "rat \<Rightarrow> scheduler \<Rightarrow> scheduler" where
  "pump now s = fst (fold (pump_one now) (sort_key wt_key (cs_waiters s)) (s, (\<lambda>_. None), False))"

section \<open>The mode, releases and resizes\<close>

definition set_mode :: "SchedulerMode \<Rightarrow> scheduler \<Rightarrow> scheduler" where
  "set_mode m s = (if m = cs_mode s then s else s\<lparr>cs_mode := m, cs_mode_changes := Suc (cs_mode_changes s)\<rparr>)"

text \<open>The bookkeeping of a release, before the waiters are looked at.\<close>

definition give_back :: "lid \<Rightarrow> ComputeLease \<Rightarrow> scheduler \<Rightarrow> scheduler" where
  "give_back l x s =
     (if cl_placement x = CLOUD then s\<lparr>cs_cloud := removeAll l (cs_cloud s)\<rparr>
      else if cs_exclusive s = Some l
      then (set_mode SchedulerMode_NORMAL (s\<lparr>cs_exclusive := None\<rparr>))\<lparr>cs_refused_tasks := []\<rparr>
      else
        (case cl_deployment x of
           None \<Rightarrow> s
         | Some name \<Rightarrow>
             (case entry_of s name of
                None \<Rightarrow> s
              | Some d \<Rightarrow>
                  if l \<in> set (dp_leases d)
                  then
                    let s1 = (if cl_vram x \<noteq> 0 then rebase (cl_vram x) s else s)
                    in reserve name (cl_class x) (- cl_tokens x)
                         (upd_entry name (\<lambda>e. e\<lparr>dp_leases := removeAll l (dp_leases e)\<rparr>) s1)
                  else s)))"

definition signal_drained :: "scheduler \<Rightarrow> scheduler" where
  "signal_drained s =
     (if cs_drained s \<noteq> None \<and> local_gpu_leases s = [] then s\<lparr>cs_drained := Some True\<rparr> else s)"

definition release_lease :: "rat \<Rightarrow> lid \<Rightarrow> scheduler \<Rightarrow> scheduler" where
  "release_lease now l s =
     (case cs_heap s l of
        None \<Rightarrow> s
      | Some x \<Rightarrow>
          if cl_released x then s
          else pump now (signal_drained (give_back l x (upd_lease l (cl_released_update (\<lambda>_. True)) s))))"

text \<open>\<^verbatim>\<open>ComputeLease.release\<close>, \<^verbatim>\<open>hold_until\<close>, and the end of held work with its callback.\<close>

definition lease_release :: "rat \<Rightarrow> lid \<Rightarrow> scheduler \<Rightarrow> scheduler" where
  "lease_release now l s =
     (case cl_held (lease_at s l) of
        Some w \<Rightarrow> if w \<notin> set (cs_works_done s) then s else release_lease now l s
      | None \<Rightarrow> release_lease now l s)"

definition hold_until :: "lid \<Rightarrow> nat \<Rightarrow> scheduler \<Rightarrow> scheduler" where
  "hold_until l w s =
     (if w \<in> set (cs_works_done s) then s
      else (upd_lease l (cl_held_update (\<lambda>_. Some w)) s)\<lparr>cs_callbacks := cs_callbacks s @ [(w, l)]\<rparr>)"

definition work_ends :: "nat \<Rightarrow> scheduler \<Rightarrow> scheduler" where
  "work_ends w s = s\<lparr>cs_works_done := w # cs_works_done s\<rparr>"

definition run_callback :: "rat \<Rightarrow> nat \<times> lid \<Rightarrow> scheduler \<Rightarrow> scheduler" where
  "run_callback now c s = release_lease now (snd c) (s\<lparr>cs_callbacks := remove1 c (cs_callbacks s)\<rparr>)"

definition resize_lease :: "rat \<Rightarrow> lid \<Rightarrow> pyval \<Rightarrow> scheduler \<Rightarrow> (compute_error + unit) \<times> scheduler" where
  "resize_lease now l v s =
     (case compute_check_int ''context_tokens'' v 0 MAX_TOKENS of
        Inl e \<Rightarrow> (Inl e, s)
      | Inr n \<Rightarrow>
          (case cs_heap s l of
             None \<Rightarrow> (refuse ''lease'', s)
           | Some x \<Rightarrow>
               if cl_released x \<or> cl_class x = EXCLUSIVE then (refuse ''lease'', s)
               else if cl_placement x = CLOUD then (Inr (), s)
               else
                 (case Option.bind (cl_deployment x) (entry_of s) of
                    None \<Rightarrow> (Inl ComputeKeyError, s)
                  | Some d \<Rightarrow>
                      if n > max_context_tokens (dp_spec d)
                      then (Inl (ComputeUnavailableError CONTEXT_TOO_LONG), s)
                      else if l \<notin> set (dp_leases d) \<or> cl_placement x \<noteq> LOCAL_GPU
                        \<or> kv_capacity_tokens (dp_spec d) = 0 then (Inr (), s)
                      else
                        let change = n - cl_tokens x;
                            s1 = reserve (dp_name d) (cl_class x) change
                                   (upd_lease l (cl_tokens_update (\<lambda>_. n)) s)
                        in (Inr (), if change < 0 then pump now s1 else s1))))"

end
