(* ===== verification/Compute_Requests.thy ===== *)
theory Compute_Requests
  imports Compute_Scheduler
begin

text \<open>
  The public operations of the compute scheduler that its callers use
  (\<^verbatim>\<open>paw_backend/compute/scheduler.py\<close>): \<^verbatim>\<open>try_acquire\<close>, \<^verbatim>\<open>acquire\<close> for the shared classes, the
  tasks that use the GPU, revocation, what is reported, and how a model server's unit ended.

  A call of \<^verbatim>\<open>acquire\<close> that waits is cut at its await: \<open>acquire_shared\<close> runs until the request is
  answered or waits (\<open>Waiting\<close>, with the sequence number of its waiter and the time it may
  wait); \<open>acquire_resume\<close> goes on when the wait ends and \<open>acquire_cancel\<close> when it is cancelled.
  An operation that raises returns the error beside the state it leaves.
\<close>

section \<open>Refused tasks\<close>

definition note_refused :: "ComputeRequest \<Rightarrow> Placement \<Rightarrow> Refusal \<Rightarrow> scheduler \<Rightarrow> scheduler" where
  "note_refused r placement refusal s =
     (case cr_task r of
        None \<Rightarrow> s
      | Some t \<Rightarrow>
          if placement = LOCAL_GPU \<and> refusal \<notin> PERMANENT_REFUSALS \<and> cs_mode s \<noteq> SchedulerMode_NORMAL
          then s\<lparr>cs_refused_tasks := List.insert t (cs_refused_tasks s)\<rparr>
          else s)"

text \<open>\<^verbatim>\<open>gpu_task_ids\<close>: in normal mode it first forgets the refused tasks.\<close>

definition forget_refused :: "scheduler \<Rightarrow> scheduler" where
  "forget_refused s = (if cs_mode s = SchedulerMode_NORMAL then s\<lparr>cs_refused_tasks := []\<rparr> else s)"

definition waiting_tasks :: "scheduler \<Rightarrow> uuid set" where
  "waiting_tasks s = {t. \<exists>w \<in> set (cs_waiters s). cr_task (wt_request w) = Some t
     \<and> cs_futures s (wt_seq w) = Pending
     \<and> (case Option.bind (cr_deployment (wt_request w)) (entry_of s) of
          Some d \<Rightarrow> dp_state d \<noteq> DeploymentState_CPU | None \<Rightarrow> False)}"

definition gpu_task_ids :: "scheduler \<Rightarrow> uuid set" where
  "gpu_task_ids s =
     set (cs_refused_tasks (forget_refused s))
     \<union> {t. \<exists>l \<in> set (local_gpu_leases s). cl_task (lease_at s l) = Some t}
     \<union> waiting_tasks s"

section \<open>Acquiring\<close>

datatype admission = Lease lid | Refused Refusal

definition try_acquire ::
  "rat \<Rightarrow> ComputeRequest arg \<Rightarrow> scheduler \<Rightarrow> (compute_error + admission) \<times> scheduler" where
  "try_acquire now v s =
     (case sched_check_request v s of
        Inl e \<Rightarrow> (Inl e, s)
      | Inr r \<Rightarrow>
          if cr_class r = EXCLUSIVE then (refuse ''request'', s)
          else
            (case Option.bind (cr_deployment r) (entry_of s) of
               None \<Rightarrow> (refuse ''deployment'', s)
             | Some d \<Rightarrow>
                 (case judge now r True d s of
                    (Some refusal, placement) \<Rightarrow>
                      (Inr (Refused refusal),
                       note_refused r placement refusal
                         (if refusal = INSUFFICIENT_FREE_VRAM then warn_request now r False s else s))
                  | (None, placement) \<Rightarrow> (Inr (Lease (cs_next_lease s)), grant_local now r placement d s))))"

datatype acquired = Granted lid | Raised compute_error | Waiting nat rat Placement

definition enter_line :: "ComputeRequest \<Rightarrow> Refusal \<Rightarrow> scheduler \<Rightarrow> scheduler" where
  "enter_line r refusal s =
     s\<lparr>cs_waiters := cs_waiters s @ [new_waiter r (cs_sequence s) (queued_reason r refusal s)],
       cs_futures := (cs_futures s)(cs_sequence s := Pending), cs_sequence := Suc (cs_sequence s)\<rparr>"

definition acquire_shared ::
  "rat \<Rightarrow> ComputeRequest \<Rightarrow> rat \<Rightarrow> rat \<Rightarrow> Deployment \<Rightarrow> scheduler \<Rightarrow> acquired \<times> scheduler" where
  "acquire_shared now r timeout cloud_after d s =
     (case judge now r True d s of
        (None, placement) \<Rightarrow> (Granted (cs_next_lease s), grant_local now r placement d s)
      | (Some refusal, placement) \<Rightarrow>
          (let at_once = cr_cloud r \<and> cloud_after = 0;
               s1 = (if refusal = INSUFFICIENT_FREE_VRAM \<and> \<not> at_once
                     then warn_request now r (timeout = 0) s else s)
           in if refusal \<in> PERMANENT_REFUSALS \<or> at_once then
                if cr_cloud r then (Granted (cs_next_lease s1), grant_cloud now r s1)
                else (Raised (ComputeUnavailableError refusal), note_refused r placement refusal s1)
              else if timeout = 0
              then (Raised (ComputeUnavailableError refusal), note_refused r placement refusal s1)
              else if int (length (cs_waiters s1)) \<ge> max_waiters (cs_config s1) then
                if cr_cloud r then (Granted (cs_next_lease s1), grant_cloud now r s1)
                else (Raised (ComputeUnavailableError QUEUE_FULL), note_refused r placement QUEUE_FULL s1)
              else
                (Waiting (cs_sequence s1) (if cr_cloud r then min timeout cloud_after else timeout) placement,
                 enter_line r refusal s1)))"

text \<open>
  The checks of \<^verbatim>\<open>acquire\<close>; an Exclusive request goes on in \<open>Compute_Control\<close>.
\<close>

definition acquire_checks ::
  "ComputeRequest arg \<Rightarrow> num_arg \<Rightarrow> num_arg \<Rightarrow> num_arg option \<Rightarrow> scheduler
     \<Rightarrow> compute_error + (ComputeRequest \<times> rat \<times> rat \<times> rat option)" where
  "acquire_checks v wait_seconds cloud_after_seconds drain_seconds s =
     rbind (sched_check_request v s) (\<lambda>r.
     rbind (check_seconds ''wait_seconds'' wait_seconds) (\<lambda>timeout.
     rbind (check_seconds ''cloud_after_seconds'' cloud_after_seconds) (\<lambda>cloud_after.
     rbind (case drain_seconds of None \<Rightarrow> Inr None
            | Some d \<Rightarrow> rbind (check_seconds ''drain_seconds'' d) (\<lambda>x. Inr (Some x))) (\<lambda>drain.
       Inr (r, timeout, cloud_after, drain)))))"

definition waiter_at :: "nat \<Rightarrow> scheduler \<Rightarrow> Waiter option" where
  "waiter_at n s = find (\<lambda>w. wt_seq w = n) (cs_waiters s)"

text \<open>
  The wait ended: the future has a lease, or the time is over (the waiter of a pending future
  is still in the line).
\<close>

definition acquire_resume ::
  "rat \<Rightarrow> nat \<Rightarrow> ComputeRequest \<Rightarrow> Placement \<Rightarrow> scheduler \<Rightarrow> acquired \<times> scheduler" where
  "acquire_resume now n r placement s =
     (let s1 = drop_waiter n s in
      case cs_futures s n of
        Result l \<Rightarrow> (Granted l, s1)
      | _ \<Rightarrow>
          (let s2 = s1\<lparr>cs_futures := (cs_futures s1)(n := Cancelled)\<rparr> in
           if cr_cloud r then (Granted (cs_next_lease s2), grant_cloud now r s2)
           else
             (case waiter_at n s of
                None \<Rightarrow> (Raised (ComputeUnavailableError QUEUED_BEHIND), s2)
              | Some w \<Rightarrow>
                  let s3 = (if wt_last w = INSUFFICIENT_FREE_VRAM
                              \<or> wt_waited w \<and> wt_last w = PROBE_UNAVAILABLE
                            then warn_request now r True s2 else s2)
                  in (Raised (ComputeUnavailableError (wt_last w)), note_refused r placement (wt_last w) s3))))"

text \<open>The waiting call is cancelled: a lease it was given meanwhile goes back.\<close>

definition acquire_cancel :: "rat \<Rightarrow> nat \<Rightarrow> scheduler \<Rightarrow> scheduler" where
  "acquire_cancel now n s =
     (let s1 = drop_waiter n s in
      case cs_futures s n of Result l \<Rightarrow> release_lease now l s1 | _ \<Rightarrow> s1)"

section \<open>Revocation\<close>

definition revoke_all :: "lid list \<Rightarrow> scheduler \<Rightarrow> scheduler" where
  "revoke_all ls s =
     s\<lparr>cs_heap := (\<lambda>l. if l \<in> set ls then map_option (cl_revoked_update (\<lambda>_. True)) (cs_heap s l)
                       else cs_heap s l)\<rparr>"

definition revoke_local_gpu :: "scheduler \<Rightarrow> nat \<times> scheduler" where
  "revoke_local_gpu s =
     (let ls = filter (\<lambda>l. \<not> cl_released (lease_at s l)) (local_gpu_leases s)
      in (length ls, revoke_all ls s))"

definition force_release_exclusive :: "rat \<Rightarrow> scheduler \<Rightarrow> bool \<times> scheduler" where
  "force_release_exclusive now s =
     (case cs_exclusive s of
        None \<Rightarrow> (False, s)
      | Some l \<Rightarrow> (True, release_lease now l (revoke_all [l] s)))"

section \<open>How a unit ended\<close>

definition MODEL_SERVER_OOM_WINDOW_SECONDS :: rat where "MODEL_SERVER_OOM_WINDOW_SECONDS = 3600"
definition MAX_MODEL_SERVER_OOM_ENDS :: nat where "MAX_MODEL_SERVER_OOM_ENDS = 64"

definition prune_oom_ends :: "(rat \<Rightarrow> rat) \<Rightarrow> rat \<Rightarrow> (pystr \<times> rat) list \<Rightarrow> (pystr \<times> rat) list" where
  "prune_oom_ends rnd now ends = dropWhile (\<lambda>e. snd e < rnd (now - MODEL_SERVER_OOM_WINDOW_SECONDS)) ends"

text \<open>The last end and whether it is one more end by the OOM killer.\<close>

definition unit_end_after :: "rat \<Rightarrow> UnitState \<Rightarrow> UnitEnd option \<Rightarrow> UnitEnd" where
  "unit_end_after now u prev =
     (case prev of
        None \<Rightarrow> \<lparr>ue_invocation = us_invocation u, ue_oom_killed = us_oom_killed u, ue_seen_at = now\<rparr>
      | Some e \<Rightarrow>
          if ue_invocation e \<noteq> us_invocation u
          then \<lparr>ue_invocation = us_invocation u, ue_oom_killed = us_oom_killed u, ue_seen_at = now\<rparr>
          else if us_oom_killed u \<and> \<not> ue_oom_killed e then e\<lparr>ue_oom_killed := True\<rparr>
          else e)"

definition note_unit_end :: "(rat \<Rightarrow> rat) \<Rightarrow> rat \<Rightarrow> UnitState \<Rightarrow> Deployment \<Rightarrow> Deployment" where
  "note_unit_end rnd now u d =
     (let e = unit_end_after now u (dp_unit_end d); d1 = d\<lparr>dp_unit_end := Some e\<rparr> in
      if \<not> ue_oom_killed e \<or> list_ex (\<lambda>x. fst x = ue_invocation e) (dp_oom_ends d) then d1
      else d1\<lparr>dp_oom_ends :=
        prune_oom_ends rnd now
          (last_n MAX_MODEL_SERVER_OOM_ENDS (dp_oom_ends d @ [(ue_invocation e, ue_seen_at e)]))\<rparr>)"

text \<open>\<open>answer\<close>: what the control's \<^verbatim>\<open>unit_state\<close> returned, \<open>None\<close> when it raised or returned no state.\<close>

definition observe_unit :: "rat \<Rightarrow> pystr \<Rightarrow> UnitState option \<Rightarrow> scheduler \<Rightarrow> UnitState option \<times> scheduler" where
  "observe_unit now name answer s =
     (if \<not> cs_units s then (None, s)
      else
        (case answer of
           None \<Rightarrow> (None, s)
         | Some u \<Rightarrow>
             (Some u, if us_ended u \<and> us_invocation u \<noteq> []
                      then upd_entry name (note_unit_end (cs_rnd s) now u) s else s)))"

definition oom_kills :: "(rat \<Rightarrow> rat) \<Rightarrow> rat \<Rightarrow> Deployment \<Rightarrow> nat" where
  "oom_kills rnd now d = length (prune_oom_ends rnd now (dp_oom_ends d))"

definition oom_killed_since :: "rat \<Rightarrow> Deployment \<Rightarrow> bool" where
  "oom_killed_since since d = list_ex (\<lambda>e. snd e \<ge> since) (dp_oom_ends d)"

text \<open>
  \<^verbatim>\<open>model_server_oom_killed\<close>: at most 21 readings; \<open>answers\<close> are the clock and the answer of each
  (a call that is answered earlier makes no more).
\<close>

definition UNIT_END_POLLS :: nat where "UNIT_END_POLLS = 20"

fun oom_polls :: "pystr \<Rightarrow> rat \<Rightarrow> (rat \<times> UnitState option) list \<Rightarrow> scheduler \<Rightarrow> bool \<times> scheduler" where
  "oom_polls name since [] s = (False, s)"
| "oom_polls name since ((now, answer) # rest) s =
     (case observe_unit now name answer s of
        (state, s1) \<Rightarrow>
          if (case entry_of s1 name of Some d \<Rightarrow> oom_killed_since since d | None \<Rightarrow> False) then (True, s1)
          else
            (case state of
               None \<Rightarrow> (False, s1)
             | Some u \<Rightarrow> if us_ended u then (False, s1) else oom_polls name since rest s1))"

definition model_server_oom_killed ::
  "pyval \<Rightarrow> num_arg \<Rightarrow> (rat \<times> UnitState option) list \<Rightarrow> scheduler \<Rightarrow> (compute_error + bool) \<times> scheduler" where
  "model_server_oom_killed deployment since answers s =
     (case (case deployment of PyStr n \<Rightarrow> entry_of s n | _ \<Rightarrow> None) of
        None \<Rightarrow> (refuse ''deployment'', s)
      | Some d \<Rightarrow>
          (case num_value since of
             None \<Rightarrow> (refuse ''since'', s)
           | Some t \<Rightarrow>
               if t < 0 then (refuse ''since'', s)
               else
                 (case oom_polls (dp_name d) t (take (UNIT_END_POLLS + 1) answers) s of
                    (b, s1) \<Rightarrow> (Inr b, s1))))"

section \<open>What is reported\<close>

definition sched_parallelism ::
  "rat \<Rightarrow> pyval \<Rightarrow> pyval \<Rightarrow> ResourceClass arg \<Rightarrow> scheduler \<Rightarrow> compute_error + int" where
  "sched_parallelism now deployment tokens cls s =
     (case (case deployment of PyStr n \<Rightarrow> entry_of s n | _ \<Rightarrow> None) of
        None \<Rightarrow> refuse ''deployment''
      | Some d \<Rightarrow>
          if cls = Other \<or> cls = Inst EXCLUSIVE then refuse ''resource_class''
          else
            rbind (ComputeRequest_init \<lparr>ra_class = cls, ra_deployment = deployment, ra_tokens = tokens,
                     ra_vram = PyInt 0, ra_cloud = PyBool False, ra_task = PyNone\<rparr>) (\<lambda>r.
              case judge now r False d s of
                (refusal, placement) \<Rightarrow>
                  if placement \<noteq> LOCAL_GPU
                    \<or> (case refusal of None \<Rightarrow> False | Some x \<Rightarrow> x \<notin> CAPACITY_REFUSALS) then Inr 0
                  else parallelism (cs_rnd s) (kv_of d) (cr_tokens r) (cr_class r)
                         (kv_safety (cs_config s)) (class_ceilings (cs_config s))))"

definition agent_tokens :: "Deployment \<Rightarrow> scheduler \<Rightarrow> int" where
  "agent_tokens d s =
     max 1 (if kv_capacity_tokens (dp_spec d) \<noteq> 0
            then min (max_context_tokens (dp_spec d)) (class_share s d CODING)
            else max_context_tokens (dp_spec d))"

record CodingCapacity =
  cc_running :: int
  cc_limit :: int

text \<open>What one main model adds to the running agents and to the further ones.\<close>

definition coding_of :: "rat \<Rightarrow> scheduler \<Rightarrow> Deployment \<Rightarrow> compute_error + int \<times> int" where
  "coding_of now s d =
     (let agent = agent_tokens d s;
          coding = filter (\<lambda>l. cl_class (lease_at s l) = CODING) (dp_leases d);
          running = int (length coding)
      in rbind (sched_parallelism now (PyStr (dp_name d)) (PyInt agent) (Inst CODING) s) (\<lambda>now_fits.
           if now_fits = 0 then Inr (running, 0)
           else
             let growth = sum_list (map (\<lambda>l. max 0 (agent - cl_tokens (lease_at s l))) coding);
                 kv = kv_of d
             in rbind (parallelism (cs_rnd s)
                    (kv\<lparr>reserved_tokens := reserved_tokens kv + growth,
                        reserved_by_class := Some ((dp_by_class d)(CODING \<mapsto> tokens_of (dp_by_class d) CODING + growth))\<rparr>)
                    agent CODING (kv_safety (cs_config s)) (class_ceilings (cs_config s)))
                  (\<lambda>n. Inr (running, n))))"

fun coding_sum :: "rat \<Rightarrow> scheduler \<Rightarrow> Deployment list \<Rightarrow> int \<times> int \<Rightarrow> compute_error + int \<times> int" where
  "coding_sum now s [] acc = Inr acc"
| "coding_sum now s (d # ds) (running, further) =
     rbind (coding_of now s d) (\<lambda>(r, m). coding_sum now s ds (running + r, further + m))"

definition coding_capacity :: "rat \<Rightarrow> scheduler \<Rightarrow> compute_error + CodingCapacity option" where
  "coding_capacity now s =
     (let mains = filter (\<lambda>d. ds_role (dp_spec d) = MAIN) (cs_entries s) in
      if mains = [] then Inr None
      else rbind (coding_sum now s mains (0, 0)) (\<lambda>(running, further).
             Inr (Some \<lparr>cc_running = running, cc_limit = running + further\<rparr>)))"

record DeploymentStatus =
  st_name :: pystr
  st_role :: ModelRole
  st_state :: DeploymentState
  st_draining :: bool
  st_leases :: nat
  st_reserved_tokens :: int
  st_capacity_tokens :: int
  st_sequences :: nat
  st_max_sequences :: int
  st_observed_kv :: "rat option"
  st_observed_on_gpu :: "bool option"
  st_oom_kills :: nat

record ComputeStatus =
  cst_mode :: SchedulerMode
  cst_relief :: Relief
  cst_probe_ok :: bool
  cst_sample_age :: "rat option"
  cst_vram :: "VramView option"
  cst_utilization :: "int option"
  cst_deployments :: "DeploymentStatus list"
  cst_leases :: "ResourceClass \<Rightarrow> nat"
  cst_cloud_leases :: nat
  cst_waiting :: "ResourceClass \<Rightarrow> nat"
  cst_needs_human :: bool
  cst_exclusive_age :: "rat option"
  cst_vram_waiting :: nat
  cst_exclusive_waiting :: bool
  cst_oom_kills :: nat

definition deployment_status :: "rat \<Rightarrow> scheduler \<Rightarrow> Deployment \<Rightarrow> DeploymentStatus" where
  "deployment_status now s d =
     \<lparr>st_name = dp_name d, st_role = ds_role (dp_spec d), st_state = dp_state d, st_draining = dp_draining d,
      st_leases = length (dp_leases d), st_reserved_tokens = dp_reserved d,
      st_capacity_tokens = kv_capacity_tokens (dp_spec d), st_sequences = length (dp_leases d),
      st_max_sequences = ds_max_sequences (dp_spec d), st_observed_kv = dp_observed d,
      st_observed_on_gpu = (if cs_control s then Some (dp_seen_on_gpu d) else None),
      st_oom_kills = oom_kills (cs_rnd s) now d\<rparr>"

text \<open>\<^verbatim>\<open>status\<close> also drops the ends outside the window from the deployments (\<open>prune_all\<close>).\<close>

definition prune_all :: "rat \<Rightarrow> scheduler \<Rightarrow> scheduler" where
  "prune_all now s =
     s\<lparr>cs_entries := map (\<lambda>d. d\<lparr>dp_oom_ends := prune_oom_ends (cs_rnd s) now (dp_oom_ends d)\<rparr>) (cs_entries s)\<rparr>"

definition compute_status :: "rat \<Rightarrow> scheduler \<Rightarrow> ComputeStatus" where
  "compute_status now s =
     \<lparr>cst_mode = cs_mode s, cst_relief = cs_relief s, cst_probe_ok = fresh now s,
      cst_sample_age = map_option (\<lambda>t. cs_rnd s (now - t)) (cs_sampled_at s),
      cst_vram = (if fresh now s then vram s else None),
      cst_utilization = (if fresh now s then Option.bind (cs_device s) utilization_percent else None),
      cst_deployments = map (deployment_status now s) (cs_entries s),
      cst_leases = (\<lambda>c. length (filter (\<lambda>l. cl_class (lease_at s l) = c) (shared_leases s))
        + (if c = EXCLUSIVE \<and> cs_exclusive s \<noteq> None then 1 else 0)),
      cst_cloud_leases = length (cs_cloud s),
      cst_waiting = (\<lambda>c. length (filter (\<lambda>w. cr_class (wt_request w) = c) (cs_waiters s))),
      cst_needs_human = (cs_relief s = Relief_MAIN_CHANGE_NEEDED),
      cst_exclusive_age = map_option (\<lambda>l. cs_rnd s (now - cl_granted_at (lease_at s l))) (cs_exclusive s),
      cst_vram_waiting = length (filter (\<lambda>w. wt_last w = INSUFFICIENT_FREE_VRAM) (cs_waiters s)),
      cst_exclusive_waiting = cs_exclusive_waits s,
      cst_oom_kills = sum_list (map (oom_kills (cs_rnd s) now) (cs_entries s))\<rparr>"

end
