(* ===== verification/Compute_Residency.thy ===== *)
theory Compute_Residency
  imports Compute_Requests
begin

text \<open>
  Relief steps, residency and readings of the compute scheduler
  (\<^verbatim>\<open>paw_backend/compute/scheduler.py\<close>): \<^verbatim>\<open>_decide\<close> and what it chooses from, the effect of a model
  action, and the parts of \<^verbatim>\<open>_sample\<close>. A callback that the code passes as a closure is a value
  of \<open>after\<close>, run by \<open>run_after\<close>.
\<close>

section \<open>Actions\<close>

datatype operation = Op_gpu | Op_cpu | Op_unload

datatype after = After_none | After_displace pystr "ModelRole list" Relief
  | After_bring_back pystr "ModelRole list" Relief

record Action =
  ac_deployment :: pystr
  ac_operation :: operation
  ac_then :: after

definition set_relief :: "Relief \<Rightarrow> scheduler \<Rightarrow> scheduler" where
  "set_relief r s = s\<lparr>cs_relief := r\<rparr>"

definition displaceable :: "ModelRole list \<Rightarrow> Deployment \<Rightarrow> bool" where
  "displaceable roles d =
     (let spec = dp_spec d in
      if ds_role spec \<notin> set roles \<or> dp_state d \<noteq> DeploymentState_GPU then False
      else if ds_role spec = MEMORY_WORKER then True
      else cpu_fallback spec \<or> residency spec = IF_ROOM)"

definition displace_targets :: "ModelRole list \<Rightarrow> scheduler \<Rightarrow> Deployment list" where
  "displace_targets roles s = filter (\<lambda>d. \<not> dp_busy d \<and> displaceable roles d) (ordered s)"

definition start_draining :: "Deployment \<Rightarrow> scheduler \<Rightarrow> scheduler" where
  "start_draining d s =
     (if dp_draining d then s
      else revoke_all (dp_leases d) (upd_entry (dp_name d) (dp_draining_update (\<lambda>_. True)) s))"

definition move_off :: "DeploymentSpec \<Rightarrow> operation" where
  "move_off spec = (if cpu_fallback spec then Op_cpu else Op_unload)"

definition displace :: "ModelRole list \<Rightarrow> Relief \<Rightarrow> scheduler \<Rightarrow> Action option \<times> scheduler" where
  "displace roles next s =
     (let targets = displace_targets roles s in
      if \<not> cs_control s \<or> targets = [] then (None, set_relief next s)
      else
        let s1 = fold start_draining targets s in
        case filter (\<lambda>d. dp_leases d = []) targets of
          [] \<Rightarrow> (None, s1)
        | d # _ \<Rightarrow> (Some \<lparr>ac_deployment = dp_name d, ac_operation = move_off (dp_spec d),
                         ac_then = After_displace (dp_name d) roles next\<rparr>, s1))"

definition background_gpu :: "scheduler \<Rightarrow> lid list" where
  "background_gpu s = filter (\<lambda>l. cl_class (lease_at s l) = BACKGROUND \<and> cl_placement (lease_at s l) = LOCAL_GPU)
     (shared_leases s)"

definition relieve :: "scheduler \<Rightarrow> Action option \<times> scheduler" where
  "relieve s =
     (case cs_relief s of
        Relief_NONE \<Rightarrow>
          (let s1 = set_relief Relief_BACKGROUND_STOPPED s in (None, revoke_all (background_gpu s1) s1))
      | Relief_BACKGROUND_STOPPED \<Rightarrow> displace [MEMORY_WORKER] Relief_MEMORY_WORKER_UNLOADED s
      | Relief_MEMORY_WORKER_UNLOADED \<Rightarrow> displace [EMBEDDING, RERANKER] Relief_SUPPORT_ON_CPU s
      | r \<Rightarrow> (None, if r < Relief_MAIN_CHANGE_NEEDED then set_relief (relief_up r) s else s))"

definition back_candidates :: "ModelRole list \<Rightarrow> scheduler \<Rightarrow> Deployment list" where
  "back_candidates roles s =
     filter (\<lambda>d. ds_role (dp_spec d) \<in> set roles \<and> dp_displaced d \<and> \<not> dp_busy d
       \<and> (dp_state d = DeploymentState_CPU \<or> dp_state d = DeploymentState_UNLOADED)) (ordered s)"

definition bring_back ::
  "ModelRole list \<Rightarrow> GpuDevice \<Rightarrow> VramView \<Rightarrow> Relief \<Rightarrow> scheduler \<Rightarrow> Action option \<times> scheduler" where
  "bring_back roles dev view next s =
     (if \<not> cs_control s then (None, set_relief next s)
      else
        case back_candidates roles s of
          [] \<Rightarrow> (None, set_relief next s)
        | d # _ \<Rightarrow>
            if available view - gpu_bytes (dp_spec d) < sched_margin dev s then (None, s)
            else (Some \<lparr>ac_deployment = dp_name d, ac_operation = Op_gpu,
                        ac_then = After_bring_back (dp_name d) roles next\<rparr>, s))"

definition restore :: "GpuDevice \<Rightarrow> VramView \<Rightarrow> scheduler \<Rightarrow> Action option \<times> scheduler" where
  "restore dev view s =
     (if available view < sched_margin dev s then (None, s)
      else if cs_relief s \<ge> Relief_ADMISSION_SUPPRESSED then (None, set_relief (relief_down (cs_relief s)) s)
      else if cs_relief s = Relief_SUPPORT_ON_CPU
      then bring_back [EMBEDDING, RERANKER] dev view Relief_MEMORY_WORKER_UNLOADED s
      else if cs_relief s = Relief_MEMORY_WORKER_UNLOADED
      then bring_back [MEMORY_WORKER] dev view Relief_BACKGROUND_STOPPED s
      else (None, set_relief Relief_NONE s))"

fun fill_loop :: "rat \<Rightarrow> GpuDevice \<Rightarrow> VramView \<Rightarrow> Deployment list \<Rightarrow> scheduler \<Rightarrow> Action option \<times> scheduler" where
  "fill_loop now dev view [] s = (None, s)"
| "fill_loop now dev view (d # ds) s =
     (if dp_busy d \<or> dp_state d = DeploymentState_GPU then fill_loop now dev view ds s
      else if dp_state d = DeploymentState_FAILED \<and> (case dp_retry_at d of None \<Rightarrow> False | Some t \<Rightarrow> now < t)
      then fill_loop now dev view ds s
      else
        let need = gpu_bytes (dp_spec d);
            room = available view + (if counts_on_gpu d then need else 0);
            always = residency (dp_spec d) = ALWAYS;
            floor = (if always then 0 else sched_margin dev s)
        in if room - need \<ge> floor
           then (Some \<lparr>ac_deployment = dp_name d, ac_operation = Op_gpu, ac_then = After_none\<rparr>,
                 upd_entry (dp_name d) (dp_displaced_update (\<lambda>_. False)) s)
           else
             let s1 = (if room + external view - need \<ge> floor
                       then emit now (deferral Deferred_MODEL_LOAD None need view False) s else s)
             in if always then (None, s1) else fill_loop now dev view ds s1)"

definition fill :: "rat \<Rightarrow> GpuDevice \<Rightarrow> VramView \<Rightarrow> scheduler \<Rightarrow> Action option \<times> scheduler" where
  "fill now dev view s = (if \<not> cs_control s then (None, s) else fill_loop now dev view (ordered s) s)"

definition stop_draining :: "scheduler \<Rightarrow> scheduler" where
  "stop_draining s =
     s\<lparr>cs_entries := map (\<lambda>d. if dp_draining d \<and> \<not> dp_busy d then d\<lparr>dp_draining := False\<rparr> else d) (cs_entries s)\<rparr>"

text \<open>\<open>None\<close> of the device is the \<^verbatim>\<open>assert\<close> of the view; \<^verbatim>\<open>refresh\<close> decides on a fresh reading only.\<close>

definition sched_decide :: "rat \<Rightarrow> scheduler \<Rightarrow> Action option \<times> scheduler" where
  "sched_decide now s =
     (case cs_device s of
        None \<Rightarrow> (None, s)
      | Some dev \<Rightarrow>
          let view = vram_of dev s in
          if under_pressure view then relieve s
          else
            let s1 = stop_draining s in
            if cs_relief s1 \<noteq> Relief_NONE then restore dev view s1 else fill now dev view s1)"

section \<open>The effect of an action\<close>

datatype outcome = Done | Failed | Aborted

definition run_after :: "after \<Rightarrow> scheduler \<Rightarrow> scheduler" where
  "run_after a s =
     (case a of
        After_none \<Rightarrow> s
      | After_displace name roles next \<Rightarrow>
          (let s1 = upd_entry name (\<lambda>d. if dp_state d \<noteq> DeploymentState_FAILED then d\<lparr>dp_displaced := True\<rparr> else d) s
           in if displace_targets roles s1 = [] then set_relief next s1 else s1)
      | After_bring_back name roles next \<Rightarrow>
          (let s1 = upd_entry name (dp_displaced_update (\<lambda>_. False)) s
           in if back_candidates roles s1 = [] then set_relief next s1 else s1))"

primrec op_state :: "operation \<Rightarrow> DeploymentState" where
  "op_state Op_gpu = DeploymentState_GPU"
| "op_state Op_cpu = DeploymentState_CPU"
| "op_state Op_unload = DeploymentState_UNLOADED"

definition perform_begin :: "Action \<Rightarrow> scheduler \<Rightarrow> scheduler" where
  "perform_begin a = upd_entry (ac_deployment a) (dp_busy_update (\<lambda>_. True))"

definition action_failed :: "rat \<Rightarrow> Deployment \<Rightarrow> Deployment" where
  "action_failed retry d =
     d\<lparr>dp_state := DeploymentState_FAILED, dp_pids := None, dp_seen_on_gpu := False, dp_retry_at := Some retry\<rparr>"

definition action_done :: "DeploymentState \<Rightarrow> Deployment \<Rightarrow> Deployment" where
  "action_done st d =
     d\<lparr>dp_state := st, dp_seen_on_gpu := (st = DeploymentState_GPU), dp_retry_at := None,
       dp_pids := (if st = DeploymentState_GPU then None else Some {}), dp_observed := None\<rparr>"

definition perform_end :: "rat \<Rightarrow> Action \<Rightarrow> outcome \<Rightarrow> scheduler \<Rightarrow> scheduler" where
  "perform_end now a out s =
     (let settle = (case out of
                      Done \<Rightarrow> action_done (op_state (ac_operation a))
                    | _ \<Rightarrow> action_failed (cs_rnd s (now + failed_retry_seconds (cs_config s))));
          s1 = upd_entry (ac_deployment a) (\<lambda>d. (settle d)\<lparr>dp_busy := False, dp_draining := False\<rparr>) s
      in if out = Aborted then s1 else run_after (ac_then a) s1)"

section \<open>Readings\<close>

record GpuSample =
  gs_devices :: "GpuDevice list"
  gs_processes :: "GpuProcess list"

definition sample_device :: "int \<Rightarrow> GpuSample \<Rightarrow> GpuDevice option" where
  "sample_device i g = find (\<lambda>d. d_index d = i) (gs_devices g)"

definition processes_on :: "GpuDevice \<Rightarrow> GpuSample \<Rightarrow> GpuProcess list" where
  "processes_on dev g = filter (\<lambda>p. p_gpu_uuid p = d_uuid dev) (gs_processes g)"

record sampling =
  sm_carried :: int
  sm_device :: GpuDevice
  sm_processes :: "GpuProcess list"
  sm_at :: rat
  sm_todo :: "pystr list"
  sm_inspected :: "pystr \<Rightarrow> (int set option \<times> rat option) option"

text \<open>The probe's answer: \<open>None\<close> when it raised.\<close>

definition sample_read :: "rat \<Rightarrow> int \<Rightarrow> GpuSample option \<Rightarrow> scheduler \<Rightarrow> sampling option \<times> scheduler" where
  "sample_read now carried answer s =
     (case Option.bind answer (sample_device (gpu_index (cs_config s))) of
        None \<Rightarrow> (None, lose_sample s)
      | Some dev \<Rightarrow>
          (Some \<lparr>sm_carried = carried, sm_device = dev, sm_processes = processes_on dev (the answer), sm_at = now,
                 sm_todo = map dp_name (ordered s), sm_inspected = (\<lambda>_. None)\<rparr>, s))"

text \<open>
  What a model says: \<open>raw\<close> is the control's set of pids (\<open>None\<close> when it raised or is no set of
  integers), \<open>kv\<close> its KV use.
\<close>

definition inspect :: "int set option \<Rightarrow> num_arg \<Rightarrow> scheduler \<Rightarrow> int set option \<times> rat option" where
  "inspect raw kv s =
     (if \<not> cs_control s then (None, None)
      else
        ((case raw of Some ps \<Rightarrow> if Ball ps (\<lambda>p. p > 0) then Some ps else None | None \<Rightarrow> None),
         (case num_value kv of Some x \<Rightarrow> if 0 \<le> x \<and> x \<le> 1 then Some x else None | None \<Rightarrow> None)))"

definition sample_inspect ::
  "rat \<Rightarrow> int set option \<Rightarrow> num_arg \<Rightarrow> UnitState option \<Rightarrow> sampling \<Rightarrow> scheduler \<Rightarrow> sampling \<times> scheduler" where
  "sample_inspect now raw kv answer m s =
     (case sm_todo m of
        [] \<Rightarrow> (m, s)
      | name # rest \<Rightarrow>
          (case entry_of s name of
             None \<Rightarrow> (m\<lparr>sm_todo := rest\<rparr>, s)
           | Some d \<Rightarrow>
               if \<not> dp_busy d \<and> counts_on_gpu d
               then
                 let x = inspect raw kv s in
                 (m\<lparr>sm_todo := rest, sm_inspected := (sm_inspected m)(name \<mapsto> x)\<rparr>,
                  if dp_state d = DeploymentState_GPU \<and> fst x = Some {} then snd (observe_unit now name answer s) else s)
               else (m\<lparr>sm_todo := rest\<rparr>, s)))"

definition reconcile :: "Deployment \<Rightarrow> Deployment" where
  "reconcile d =
     (if dp_state d = DeploymentState_GPU \<and> dp_pids d = Some {} \<and> dp_leases d = [] \<and> \<not> dp_draining d
      then d\<lparr>dp_state := DeploymentState_UNLOADED\<rparr> else d)"

definition publish_entry :: "sampling \<Rightarrow> Deployment \<Rightarrow> Deployment" where
  "publish_entry m d =
     (if dp_busy d then d
      else if \<not> counts_on_gpu d then d\<lparr>dp_pids := Some {}, dp_observed := None, dp_seen_on_gpu := False\<rparr>
      else
        (case sm_inspected m (dp_name d) of
           None \<Rightarrow> d
         | Some (ps, kv) \<Rightarrow>
             reconcile (d\<lparr>dp_pids := ps, dp_observed := kv,
               dp_seen_on_gpu := (case ps of None \<Rightarrow> False
                                  | Some xs \<Rightarrow> list_ex (\<lambda>p. p_pid p \<in> xs) (sm_processes m))\<rparr>)))"

definition sample_publish :: "sampling \<Rightarrow> scheduler \<Rightarrow> scheduler" where
  "sample_publish m s =
     (let s1 = s\<lparr>cs_probe_failing := False, cs_device := Some (sm_device m), cs_processes := sm_processes m,
                 cs_sampled_at := Some (sm_at m), cs_entries := map (publish_entry m) (cs_entries s)\<rparr>
      in if sm_carried m = 0 then s1
         else
           let v = vram_of (sm_device m) s1
           in s1\<lparr>cs_extra_baseline := external v + min (sm_carried m) (extra_use v),
                 cs_pending_release := cs_pending_release s1 - sm_carried m\<rparr>)"

end
