(* ===== verification/Compute_Control.thy ===== *)
theory Compute_Control
  imports Compute_Residency
begin

text \<open>
  The coroutines of the compute scheduler that wait (\<^verbatim>\<open>paw_backend/compute/scheduler.py\<close>):
  \<^verbatim>\<open>refresh\<close> with \<^verbatim>\<open>_perform_sampling\<close>, and \<^verbatim>\<open>_acquire_exclusive\<close> with \<^verbatim>\<open>_await_external_room\<close>, \<^verbatim>\<open>_drain\<close>,
  \<^verbatim>\<open>_empty_gpu\<close>, \<^verbatim>\<open>_verify\<close> and \<^verbatim>\<open>_freed\<close>.

  A coroutine is a program counter, one value per await, and one definition per stretch of
  code between two awaits. \<open>cstep\<close> interleaves them with each other (the control lock lets one of
  the two act) and with every public operation, at any reading of the clock; what the probe, the
  model control and the clock answer is arbitrary.
\<close>

section \<open>Program counters\<close>

text \<open>A reading in progress: waiting for the probe (with the carried release), or for the models.\<close>

datatype smp = Reading int | Inspecting sampling

datatype lock_holder = Lock_free | Lock_refresh | Lock_exclusive

datatype rpc =
    R_idle
  | R_sample smp
  | R_perform Action "smp option"
  | R_finish smp

text \<open>
  \<open>X_first\<close>, \<open>X_room_sample\<close> and \<open>X_drained\<close> with \<open>None\<close> wait for the lock. \<open>X_freed\<close> asks the models
  for their processes: the pids on the GPU and the models still to ask.
\<close>

datatype xpc =
    X_off
  | X_first "smp option"
  | X_room
  | X_room_sample "smp option"
  | X_drain
  | X_drained bool "smp option"
  | X_empty Action "pystr list" "pystr list"
  | X_verify "pystr list" rat smp
  | X_freed "pystr list" rat "int set" "pystr list"
  | X_verify_sleep "pystr list" rat

record xdata =
  x_request :: ComputeRequest
  x_deadline :: rat
  x_drain :: "rat option"
  x_drain_started :: rat
  x_drain_deadline :: rat

record control =
  ct_s :: scheduler
  ct_lock :: lock_holder
  ct_r :: rpc
  ct_x :: xpc
  ct_req :: xdata

section \<open>Refresh\<close>

definition refresh_done :: "rat \<Rightarrow> control \<Rightarrow> control" where
  "refresh_done now c = c\<lparr>ct_s := pump now (ct_s c), ct_lock := Lock_free, ct_r := R_idle\<rparr>"

text \<open>The reading is published or lost: decide, and begin the action.\<close>

definition refresh_sampled :: "rat \<Rightarrow> control \<Rightarrow> control" where
  "refresh_sampled now c =
     (let s = ct_s c in
      if cs_mode s = SchedulerMode_NORMAL \<and> fresh now s
      then
        (case sched_decide now s of
           (None, s1) \<Rightarrow> refresh_done now (c\<lparr>ct_s := s1\<rparr>)
         | (Some a, s1) \<Rightarrow> c\<lparr>ct_s := perform_begin a s1, ct_r := R_perform a None\<rparr>)
      else refresh_done now c)"

section \<open>Exclusive\<close>

definition external_room :: "ComputeRequest \<Rightarrow> scheduler \<Rightarrow> bool" where
  "external_room r s = (case vram s of None \<Rightarrow> False | Some v \<Rightarrow> free_vram_after_emptying v \<ge> cr_vram r)"

definition warn_exclusive :: "rat \<Rightarrow> ComputeRequest \<Rightarrow> bool \<Rightarrow> scheduler \<Rightarrow> scheduler" where
  "warn_exclusive now r gave_up s =
     (case vram s of
        None \<Rightarrow> s
      | Some v \<Rightarrow> emit now (deferral Deferred_EXCLUSIVE (Some EXCLUSIVE) (cr_vram r) v gave_up) s)"

definition unlock :: "control \<Rightarrow> control" where
  "unlock c = (if ct_lock c = Lock_exclusive then c\<lparr>ct_lock := Lock_free\<rparr> else c)"

text \<open>The handler of every exception, and the \<^verbatim>\<open>finally\<close>; the error itself goes to the caller.\<close>

definition excl_fail :: "rat \<Rightarrow> control \<Rightarrow> control" where
  "excl_fail now c =
     (unlock c)\<lparr>ct_x := X_off,
        ct_s := (pump now (set_mode SchedulerMode_NORMAL (ct_s c)))
                  \<lparr>cs_exclusive_pending := False, cs_exclusive_waits := False\<rparr>\<rparr>"

definition excl_start ::
  "rat \<Rightarrow> ComputeRequest \<Rightarrow> rat \<Rightarrow> rat option \<Rightarrow> control \<Rightarrow> (compute_error + unit) \<times> control" where
  "excl_start now r wait drain c =
     (let s = ct_s c in
      if cs_mode s \<noteq> SchedulerMode_NORMAL \<or> cs_exclusive_pending s
      then (Inl (ExclusiveUnavailableError ExclusiveFailure_BUSY), c)
      else
        (Inr (), c\<lparr>ct_s := s\<lparr>cs_exclusive_pending := True\<rparr>, ct_x := X_first None,
           ct_req := \<lparr>x_request = r, x_deadline = cs_rnd s (now + wait), x_drain = drain, x_drain_started = now,
                      x_drain_deadline = now\<rparr>\<rparr>))"

text \<open>\<^verbatim>\<open>_drain\<close> up to its await: the mode is \<^verbatim>\<open>DRAINING\<close>.\<close>

definition excl_begin_drain :: "rat \<Rightarrow> control \<Rightarrow> control" where
  "excl_begin_drain now c =
     (let s = set_mode SchedulerMode_DRAINING ((ct_s c)\<lparr>cs_exclusive_waits := False\<rparr>);
          x = (ct_req c)\<lparr>x_drain_started := now,
                x_drain_deadline := (case x_drain (ct_req c) of None \<Rightarrow> x_deadline (ct_req c)
                                     | Some d \<Rightarrow> cs_rnd s (now + d))\<rparr>
      in if local_gpu_leases s = [] then c\<lparr>ct_s := s, ct_req := x, ct_x := X_drained False None\<rparr>
         else c\<lparr>ct_s := s\<lparr>cs_drained := Some False\<rparr>, ct_req := x, ct_x := X_drain\<rparr>)"

text \<open>
  The loop of \<^verbatim>\<open>_await_external_room\<close>: the drain begins, the wait goes on (\<open>X_room\<close>), or the failure
  (its code is the first component).
\<close>

definition excl_room :: "rat \<Rightarrow> control \<Rightarrow> ExclusiveFailure option \<times> control" where
  "excl_room now c =
     (let s = ct_s c; r = x_request (ct_req c) in
      if fresh now s \<and> external_room r s then (None, excl_begin_drain now c)
      else
        let gave_up = now \<ge> x_deadline (ct_req c);
            s1 = s\<lparr>cs_exclusive_waits := True\<rparr>;
            s2 = (if fresh now s then warn_exclusive now r gave_up s1 else s1);
            c2 = c\<lparr>ct_s := s2\<rparr>
        in if gave_up
           then (Some (if fresh now s then ExclusiveFailure_NOT_FREED else ExclusiveFailure_PROBE_UNAVAILABLE),
                 excl_fail now c2)
           else (None, c2\<lparr>ct_x := X_room\<rparr>))"

definition excl_first_sampled :: "rat \<Rightarrow> control \<Rightarrow> ExclusiveFailure option \<times> control" where
  "excl_first_sampled now c =
     (let c1 = unlock c; s = ct_s c in
      if \<not> fresh now s then (Some ExclusiveFailure_PROBE_UNAVAILABLE, excl_fail now c1)
      else if \<not> cs_control s \<and> list_ex counts_on_gpu (ordered s)
      then (Some ExclusiveFailure_CANNOT_UNLOAD, excl_fail now c1)
      else excl_room now c1)"

definition excl_room_sampled :: "rat \<Rightarrow> control \<Rightarrow> ExclusiveFailure option \<times> control" where
  "excl_room_sampled now c =
     (let c1 = unlock c; s = ct_s c; r = x_request (ct_req c) in
      if now \<ge> x_deadline (ct_req c) \<and> fresh now s \<and> external_room r s
      then (Some ExclusiveFailure_NOT_FREED, excl_fail now (c1\<lparr>ct_s := warn_exclusive now r True s\<rparr>))
      else excl_room now c1)"

text \<open>\<^verbatim>\<open>_drain\<close> after its await: the event was set, or the time is over.\<close>

definition excl_drain_ended :: "rat \<Rightarrow> bool \<Rightarrow> control \<Rightarrow> ExclusiveFailure option \<times> control" where
  "excl_drain_ended now drained c =
     (let c1 = c\<lparr>ct_s := (ct_s c)\<lparr>cs_drained := None\<rparr>\<rparr> in
      if drained then (None, c1\<lparr>ct_x := X_drained True None\<rparr>)
      else (Some ExclusiveFailure_DRAIN_TIMEOUT, excl_fail now c1))"

definition exclusive_rank :: "ModelRole \<Rightarrow> nat" where
  "exclusive_rank r = (case r of MEMORY_WORKER \<Rightarrow> 0 | EMBEDDING \<Rightarrow> 1 | RERANKER \<Rightarrow> 2 | MAIN \<Rightarrow> 3)"

definition exclusive_order :: "scheduler \<Rightarrow> pystr list" where
  "exclusive_order s = map dp_name (sort_key (\<lambda>d. exclusive_rank (ds_role (dp_spec d))) (ordered s))"

text \<open>The loop of \<^verbatim>\<open>_empty_gpu\<close>: the next model that counts on the GPU is moved off; then \<^verbatim>\<open>_verify\<close>.\<close>

fun excl_empty :: "rat \<Rightarrow> pystr list \<Rightarrow> pystr list \<Rightarrow> control \<Rightarrow> control" where
  "excl_empty now [] moved c =
     c\<lparr>ct_x := X_verify moved (cs_rnd (ct_s c) (now + verify_timeout_seconds (cs_config (ct_s c))))
         (Reading (cs_pending_release (ct_s c)))\<rparr>"
| "excl_empty now (name # rest) moved c =
     (case entry_of (ct_s c) name of
        None \<Rightarrow> excl_empty now rest moved c
      | Some d \<Rightarrow>
          if \<not> counts_on_gpu d then excl_empty now rest moved c
          else
            let a = \<lparr>ac_deployment = name, ac_operation = move_off (dp_spec d), ac_then = After_none\<rparr>
            in c\<lparr>ct_s := perform_begin a (upd_entry name (dp_displaced_update (\<lambda>_. False)) (ct_s c)),
                 ct_x := X_empty a rest (moved @ [name])\<rparr>)"

text \<open>The reading after the drain, under the lock.\<close>

definition excl_drained_sampled :: "rat \<Rightarrow> bool \<Rightarrow> control \<Rightarrow> ExclusiveFailure option \<times> control" where
  "excl_drained_sampled now drained c =
     (let s = ct_s c; r = x_request (ct_req c) in
      if drained \<and> now > x_drain_deadline (ct_req c) then
        if \<not> fresh now s then (Some ExclusiveFailure_PROBE_UNAVAILABLE, excl_fail now c)
        else (Some ExclusiveFailure_NOT_FREED,
              excl_fail now (if external_room r s then c else c\<lparr>ct_s := warn_exclusive now r True s\<rparr>))
      else if fresh now s \<and> external_room r s then (None, excl_empty now (exclusive_order s) [] c)
      else
        let x = ct_req c;
            x1 = (case x_drain x of None \<Rightarrow> x
                  | Some _ \<Rightarrow> x\<lparr>x_deadline := cs_rnd s (x_deadline x + cs_rnd s (now - x_drain_started x))\<rparr>)
        in excl_room now ((unlock c)\<lparr>ct_req := x1, ct_s := pump now (set_mode SchedulerMode_NORMAL s)\<rparr>))"

definition excl_performed ::
  "rat \<Rightarrow> Action \<Rightarrow> pystr list \<Rightarrow> pystr list \<Rightarrow> outcome \<Rightarrow> control \<Rightarrow> ExclusiveFailure option \<times> control" where
  "excl_performed now a todo moved out c =
     (let c1 = c\<lparr>ct_s := perform_end now a out (ct_s c)\<rparr> in
      if out = Done then (None, excl_empty now todo moved c1)
      else (Some ExclusiveFailure_CANNOT_UNLOAD, excl_fail now c1))"

text \<open>The reading of \<^verbatim>\<open>_verify\<close> is there: \<^verbatim>\<open>_freed\<close> up to its first question, its answer, and the end.\<close>

definition excl_not_freed :: "rat \<Rightarrow> pystr list \<Rightarrow> rat \<Rightarrow> control \<Rightarrow> ExclusiveFailure option \<times> control" where
  "excl_not_freed now moved deadline c =
     (if now \<ge> deadline then (Some ExclusiveFailure_NOT_FREED, excl_fail now c)
      else (None, c\<lparr>ct_x := X_verify_sleep moved deadline\<rparr>))"

definition excl_grant :: "rat \<Rightarrow> control \<Rightarrow> control" where
  "excl_grant now c =
     (unlock c)\<lparr>ct_x := X_off,
        ct_s := (set_mode SchedulerMode_EXCLUSIVE (grant_exclusive now (x_request (ct_req c)) (ct_s c)))
                  \<lparr>cs_exclusive_pending := False, cs_exclusive_waits := False\<rparr>\<rparr>"

definition excl_freed_end :: "rat \<Rightarrow> pystr list \<Rightarrow> rat \<Rightarrow> control \<Rightarrow> ExclusiveFailure option \<times> control" where
  "excl_freed_end now moved deadline c =
     (if (case vram (ct_s c) of None \<Rightarrow> False | Some v \<Rightarrow> available v \<ge> cr_vram (x_request (ct_req c)))
      then (None, excl_grant now c)
      else excl_not_freed now moved deadline c)"

definition excl_verify_sampled :: "rat \<Rightarrow> pystr list \<Rightarrow> rat \<Rightarrow> control \<Rightarrow> ExclusiveFailure option \<times> control" where
  "excl_verify_sampled now moved deadline c =
     (let s = ct_s c in
      if \<not> fresh now s \<or> moved \<noteq> [] \<and> \<not> cs_control s then excl_not_freed now moved deadline c
      else if \<not> cs_control s then excl_freed_end now moved deadline c
      else (None, c\<lparr>ct_x := X_freed moved deadline (p_pid ` set (cs_processes s)) (map dp_name (ordered s))\<rparr>))"

text \<open>One model answered with its pids (\<open>None\<close>: it raised or gave no set).\<close>

definition excl_asked ::
  "rat \<Rightarrow> pystr list \<Rightarrow> rat \<Rightarrow> int set \<Rightarrow> pystr \<Rightarrow> pystr list \<Rightarrow> int set option \<Rightarrow> control
     \<Rightarrow> ExclusiveFailure option \<times> control" where
  "excl_asked now moved deadline on_gpu name rest answer c =
     (case answer of
        None \<Rightarrow> if name \<in> set moved then excl_not_freed now moved deadline c
                else (None, c\<lparr>ct_x := X_freed moved deadline on_gpu rest\<rparr>)
      | Some ps \<Rightarrow> if ps \<inter> on_gpu \<noteq> {} then excl_not_freed now moved deadline c
                  else (None, c\<lparr>ct_x := X_freed moved deadline on_gpu rest\<rparr>))"

text \<open>A cancelled Exclusive request: the await raises, an action in progress is aborted.\<close>

definition excl_cancel :: "rat \<Rightarrow> control \<Rightarrow> control" where
  "excl_cancel now c =
     excl_fail now
       (case ct_x c of
          X_drain \<Rightarrow> c\<lparr>ct_s := (ct_s c)\<lparr>cs_drained := None\<rparr>\<rparr>
        | X_empty a _ _ \<Rightarrow> c\<lparr>ct_s := perform_end now a Aborted (ct_s c)\<rparr>
        | _ \<Rightarrow> c)"

section \<open>Steps of a reading\<close>

text \<open>What the outside answers during a reading: the probe, a model's pids and KV use, its unit.\<close>

record answers =
  an_probe :: "GpuSample option"
  an_pids :: "int set option"
  an_kv :: num_arg
  an_unit :: "UnitState option"

definition smp_begin :: "control \<Rightarrow> smp" where
  "smp_begin c = Reading (cs_pending_release (ct_s c))"

text \<open>\<open>None\<close>: the reading is published or lost.\<close>

definition smp_next :: "rat \<Rightarrow> answers \<Rightarrow> smp \<Rightarrow> scheduler \<Rightarrow> smp option \<times> scheduler" where
  "smp_next now i m s =
     (case m of
        Reading carried \<Rightarrow>
          (case sample_read now carried (an_probe i) s of
             (None, s1) \<Rightarrow> (None, s1)
           | (Some p, s1) \<Rightarrow> (Some (Inspecting p), s1))
      | Inspecting p \<Rightarrow>
          if sm_todo p = [] then (None, sample_publish p s)
          else
            (case sample_inspect now (an_pids i) (an_kv i) (an_unit i) p s of
               (p1, s1) \<Rightarrow> (Some (Inspecting p1), s1)))"

fun x_smp :: "xpc \<Rightarrow> smp option" where
  "x_smp (X_first m) = m"
| "x_smp (X_room_sample m) = m"
| "x_smp (X_drained b m) = m"
| "x_smp (X_verify moved deadline m) = Some m"
| "x_smp _ = None"

fun x_with :: "smp \<Rightarrow> xpc \<Rightarrow> xpc" where
  "x_with m (X_first _) = X_first (Some m)"
| "x_with m (X_room_sample _) = X_room_sample (Some m)"
| "x_with m (X_drained b _) = X_drained b (Some m)"
| "x_with m (X_verify moved deadline _) = X_verify moved deadline m"
| "x_with m x = x"

definition x_wants_lock :: "xpc \<Rightarrow> bool" where
  "x_wants_lock x \<longleftrightarrow> x = X_first None \<or> x = X_room_sample None \<or> x = X_drained True None \<or> x = X_drained False None"

definition x_sampled :: "rat \<Rightarrow> control \<Rightarrow> ExclusiveFailure option \<times> control" where
  "x_sampled now c =
     (case ct_x c of
        X_first _ \<Rightarrow> excl_first_sampled now c
      | X_room_sample _ \<Rightarrow> excl_room_sampled now c
      | X_drained b _ \<Rightarrow> excl_drained_sampled now b c
      | X_verify moved deadline _ \<Rightarrow> excl_verify_sampled now moved deadline c
      | _ \<Rightarrow> (None, c))"

section \<open>The step relation\<close>

text \<open>What \<open>ComputeRequest_init\<close> guarantees of a request object (lemma \<open>ComputeRequest_init_ok\<close>).\<close>

definition request_ok :: "ComputeRequest \<Rightarrow> bool" where
  "request_ok r \<longleftrightarrow> 0 \<le> cr_tokens r \<and> 0 \<le> cr_vram r \<and> (cr_class r = EXCLUSIVE \<longleftrightarrow> cr_deployment r = None)
     \<and> (cr_class r = EXCLUSIVE \<longrightarrow> 0 < cr_vram r \<and> \<not> cr_cloud r \<and> cr_task r = None)"

lemma ComputeRequest_init_ok: "ComputeRequest_init a = Inr r \<Longrightarrow> request_ok r"
  by (auto simp: ComputeRequest_init_def request_ok_def rbind_eq_Inr_iff compute_check_int_Inr check_name_def
      compute_check_member_def split: if_splits arg.splits pyval.splits)

inductive public_step :: "scheduler \<Rightarrow> scheduler \<Rightarrow> bool" where
  ps_try: "request_ok r \<Longrightarrow> public_step s (snd (try_acquire now (Inst r) s))"
| ps_acquire: "acquire_checks (Inst r) w ca dr s = Inr (r, timeout, cloud_after, drain) \<Longrightarrow> request_ok r
    \<Longrightarrow> cr_class r \<noteq> EXCLUSIVE \<Longrightarrow> Option.bind (cr_deployment r) (entry_of s) = Some d
    \<Longrightarrow> public_step s (snd (acquire_shared now r timeout cloud_after d s))"
| ps_resume: "waiter_at n s = Some w \<Longrightarrow> public_step s (snd (acquire_resume now n (wt_request w) placement s))"
| ps_cancel: "public_step s (acquire_cancel now n s)"
| ps_release: "public_step s (lease_release now l s)"
| ps_hold: "public_step s (hold_until l w s)"
| ps_ends: "public_step s (work_ends w s)"
| ps_callback: "cb \<in> set (cs_callbacks s) \<Longrightarrow> fst cb \<in> set (cs_works_done s) \<Longrightarrow> public_step s (run_callback now cb s)"
| ps_resize: "public_step s (snd (resize_lease now l v s))"
| ps_revoke: "public_step s (snd (revoke_local_gpu s))"
| ps_force: "public_step s (snd (force_release_exclusive now s))"
| ps_tasks: "public_step s (forget_refused s)"
| ps_prune: "public_step s (prune_all now s)"
| ps_unit: "public_step s (snd (observe_unit now name answer s))"

inductive cstep :: "control \<Rightarrow> control \<Rightarrow> bool" where
  public: "public_step (ct_s c) s \<Longrightarrow> cstep c (c\<lparr>ct_s := s\<rparr>)"
| r_begin: "ct_lock c = Lock_free \<Longrightarrow> cstep c (c\<lparr>ct_lock := Lock_refresh, ct_r := R_sample (smp_begin c)\<rparr>)"
| r_sample: "ct_r c = R_sample m \<Longrightarrow> smp_next now i m (ct_s c) = (Some m', s)
    \<Longrightarrow> cstep c (c\<lparr>ct_s := s, ct_r := R_sample m'\<rparr>)"
| r_sampled: "ct_r c = R_sample m \<Longrightarrow> smp_next now i m (ct_s c) = (None, s)
    \<Longrightarrow> cstep c (refresh_sampled now' (c\<lparr>ct_s := s\<rparr>))"
| p_observe: "ct_r c = R_perform a sm \<Longrightarrow> ac_operation a = Op_gpu
    \<Longrightarrow> cstep c (c\<lparr>ct_s := snd (observe_unit now (ac_deployment a) answer (ct_s c))\<rparr>)"
| p_again: "ct_r c = R_perform a None \<Longrightarrow> cstep c (c\<lparr>ct_r := R_perform a (Some (smp_begin c))\<rparr>)"
| p_sample: "ct_r c = R_perform a (Some m) \<Longrightarrow> smp_next now i m (ct_s c) = (Some m', s)
    \<Longrightarrow> cstep c (c\<lparr>ct_s := s, ct_r := R_perform a (Some m')\<rparr>)"
| p_sampled: "ct_r c = R_perform a (Some m) \<Longrightarrow> smp_next now i m (ct_s c) = (None, s)
    \<Longrightarrow> cstep c (c\<lparr>ct_s := pump now' s, ct_r := R_perform a None\<rparr>)"
| p_end: "ct_r c = R_perform a None \<Longrightarrow> out \<noteq> Aborted
    \<Longrightarrow> cstep c (refresh_done now' (c\<lparr>ct_s := perform_end now a out (ct_s c)\<rparr>))"
| p_end_sampling: "ct_r c = R_perform a (Some m) \<Longrightarrow> out \<noteq> Aborted
    \<Longrightarrow> cstep c (c\<lparr>ct_s := perform_end now a out (ct_s c), ct_r := R_finish m\<rparr>)"
| f_sample: "ct_r c = R_finish m \<Longrightarrow> smp_next now i m (ct_s c) = (Some m', s)
    \<Longrightarrow> cstep c (c\<lparr>ct_s := s, ct_r := R_finish m'\<rparr>)"
| f_sampled: "ct_r c = R_finish m \<Longrightarrow> smp_next now i m (ct_s c) = (None, s)
    \<Longrightarrow> cstep c (refresh_done now'' (c\<lparr>ct_s := pump now' s\<rparr>))"
| r_cancel: "ct_r c = R_sample m \<or> ct_r c = R_finish m \<Longrightarrow> cstep c (c\<lparr>ct_lock := Lock_free, ct_r := R_idle\<rparr>)"
| p_cancel: "ct_r c = R_perform a sm
    \<Longrightarrow> cstep c (c\<lparr>ct_s := perform_end now a out (ct_s c), ct_lock := Lock_free, ct_r := R_idle\<rparr>)"
| x_start: "request_ok r \<Longrightarrow> cr_class r = EXCLUSIVE \<Longrightarrow> excl_start now r wait drain c = (Inr (), c') \<Longrightarrow> cstep c c'"
| x_lock: "x_wants_lock (ct_x c) \<Longrightarrow> ct_lock c = Lock_free
    \<Longrightarrow> cstep c (c\<lparr>ct_lock := Lock_exclusive, ct_x := x_with (smp_begin c) (ct_x c)\<rparr>)"
| x_sample: "x_smp (ct_x c) = Some m \<Longrightarrow> smp_next now i m (ct_s c) = (Some m', s)
    \<Longrightarrow> cstep c (c\<lparr>ct_s := s, ct_x := x_with m' (ct_x c)\<rparr>)"
| x_sampled: "x_smp (ct_x c) = Some m \<Longrightarrow> smp_next now i m (ct_s c) = (None, s)
    \<Longrightarrow> cstep c (snd (x_sampled now' (c\<lparr>ct_s := s\<rparr>)))"
| x_room: "ct_x c = X_room \<Longrightarrow> cstep c (c\<lparr>ct_x := X_room_sample None\<rparr>)"
| x_drain_set: "ct_x c = X_drain \<Longrightarrow> cs_drained (ct_s c) = Some True \<Longrightarrow> cstep c (snd (excl_drain_ended now True c))"
| x_drain_timeout: "ct_x c = X_drain \<Longrightarrow> cstep c (snd (excl_drain_ended now False c))"
| x_performed: "ct_x c = X_empty a todo moved \<Longrightarrow> out \<noteq> Aborted
    \<Longrightarrow> cstep c (snd (excl_performed now a todo moved out c))"
| x_asked: "ct_x c = X_freed moved deadline on_gpu (name # rest)
    \<Longrightarrow> cstep c (snd (excl_asked now moved deadline on_gpu name rest answer c))"
| x_freed: "ct_x c = X_freed moved deadline on_gpu [] \<Longrightarrow> cstep c (snd (excl_freed_end now moved deadline c))"
| x_again: "ct_x c = X_verify_sleep moved deadline \<Longrightarrow> cstep c (c\<lparr>ct_x := X_verify moved deadline (smp_begin c)\<rparr>)"
| x_cancel: "ct_x c \<noteq> X_off \<Longrightarrow> cstep c (excl_cancel now c)"

text \<open>A process starts with a new scheduler and no coroutine.\<close>

definition boot :: "ComputeConfig \<Rightarrow> bool \<Rightarrow> bool \<Rightarrow> (rat \<Rightarrow> rat) \<Rightarrow> xdata \<Rightarrow> control" where
  "boot config control units rnd x =
     \<lparr>ct_s = new_scheduler config control units rnd, ct_lock = Lock_free, ct_r = R_idle, ct_x = X_off, ct_req = x\<rparr>"

definition reachable :: "control \<Rightarrow> bool" where
  "reachable c \<longleftrightarrow> (\<exists>a config control units rnd x. ComputeConfig_init a = Inr config
     \<and> cstep\<^sup>*\<^sup>* (boot config control units rnd x) c)"

end
