(* ===== verification/Compute_Books.thy ===== *)
theory Compute_Books
  imports Compute_Control
begin

text \<open>
  The books of the compute scheduler: every lease that is not released is held in exactly one
  place, and what a deployment has reserved is the sum of its leases. \<open>core\<close> is the part of the
  state the books read; most operations leave it alone (the simplification rules of \<open>core\<close>), so
  that an invariant is only proved for the few that change it.
\<close>

section \<open>The part of the state that is booked\<close>

type_synonym book = "pystr \<times> lid list \<times> int \<times> (ResourceClass \<Rightarrow> int option)"

definition bk :: "Deployment \<Rightarrow> book" where
  "bk d = (dp_name d, dp_leases d, dp_reserved d, dp_by_class d)"

text \<open>A lease without what the books do not read.\<close>

definition erase :: "ComputeLease \<Rightarrow> ComputeLease" where
  "erase x = x\<lparr>cl_revoked := False, cl_held := None, cl_granted_at := 0\<rparr>"

definition ledger :: "scheduler \<Rightarrow> lid \<Rightarrow> ComputeLease option" where
  "ledger s l = map_option erase (cs_heap s l)"

definition core ::
  "scheduler \<Rightarrow> book list \<times> (lid \<Rightarrow> ComputeLease option) \<times> lid \<times> lid option \<times> lid list" where
  "core s = (map bk (cs_entries s), ledger s, cs_next_lease s, cs_exclusive s, cs_cloud s)"

lemma erase_fields [simp]:
  "cl_class (erase x) = cl_class x" "cl_deployment (erase x) = cl_deployment x"
  "cl_task (erase x) = cl_task x" "cl_placement (erase x) = cl_placement x"
  "cl_tokens (erase x) = cl_tokens x" "cl_vram (erase x) = cl_vram x"
  "cl_released (erase x) = cl_released x"
  by (simp_all add: erase_def)

lemma erase_updates [simp]:
  "erase (x\<lparr>cl_revoked := b\<rparr>) = erase x" "erase (x\<lparr>cl_held := h\<rparr>) = erase x"
  "erase (x\<lparr>cl_released := b\<rparr>) = (erase x)\<lparr>cl_released := b\<rparr>"
  "erase (x\<lparr>cl_tokens := n\<rparr>) = (erase x)\<lparr>cl_tokens := n\<rparr>"
  by (simp_all add: erase_def)

lemma erase_update_funs [simp]:
  "erase (cl_revoked_update f x) = erase x" "erase (cl_held_update g x) = erase x"
  by (cases x; simp add: erase_def)+

lemma ledger_simps [simp]:
  "ledger (s\<lparr>cs_cloud := cl\<rparr>) = ledger s" "ledger (s\<lparr>cs_exclusive := ex\<rparr>) = ledger s"
  "ledger (s\<lparr>cs_mode := md\<rparr>) = ledger s" "ledger (s\<lparr>cs_mode_changes := mc\<rparr>) = ledger s"
  "ledger (s\<lparr>cs_refused_tasks := rt\<rparr>) = ledger s" "ledger (s\<lparr>cs_extra_baseline := eb\<rparr>) = ledger s"
  by (simp_all add: ledger_def fun_eq_iff)

section \<open>The books\<close>

definition tokens_in :: "(lid \<Rightarrow> ComputeLease option) \<Rightarrow> lid \<Rightarrow> int" where
  "tokens_in h l = (case h l of Some x \<Rightarrow> cl_tokens x | None \<Rightarrow> 0)"

definition has_class :: "(lid \<Rightarrow> ComputeLease option) \<Rightarrow> ResourceClass \<Rightarrow> lid \<Rightarrow> bool" where
  "has_class h c l \<longleftrightarrow> (case h l of Some x \<Rightarrow> cl_class x = c | None \<Rightarrow> False)"

definition class_tokens :: "(lid \<Rightarrow> ComputeLease option) \<Rightarrow> ResourceClass \<Rightarrow> lid list \<Rightarrow> int" where
  "class_tokens h c ls = sum_list (map (tokens_in h) (filter (has_class h c) ls))"

definition shared_lease :: "pystr \<Rightarrow> ComputeLease \<Rightarrow> bool" where
  "shared_lease name x \<longleftrightarrow> \<not> cl_released x \<and> cl_deployment x = Some name \<and> cl_class x \<noteq> EXCLUSIVE
     \<and> cl_placement x \<noteq> CLOUD \<and> 0 \<le> cl_tokens x \<and> 0 \<le> cl_vram x
     \<and> (cl_placement x = LOCAL_CPU \<longrightarrow> cl_tokens x = 0 \<and> cl_vram x = 0)"

definition book_ok :: "(lid \<Rightarrow> ComputeLease option) \<Rightarrow> book \<Rightarrow> bool" where
  "book_ok h b \<longleftrightarrow> (case b of (name, ls, res, by) \<Rightarrow>
     distinct ls \<and> (\<forall>l \<in> set ls. \<exists>x. h l = Some x \<and> shared_lease name x)
     \<and> res = sum_list (map (tokens_in h) ls)
     \<and> (\<forall>c \<in> set SHARED_CLASSES. by c = Some (class_tokens h c ls)))"

definition placed :: "book list \<Rightarrow> lid option \<Rightarrow> lid list \<Rightarrow> lid \<Rightarrow> bool" where
  "placed bs ex cl l \<longleftrightarrow> l \<in> set cl \<or> ex = Some l \<or> (\<exists>b \<in> set bs. l \<in> set (fst (snd b)))"

definition books_of ::
  "book list \<times> (lid \<Rightarrow> ComputeLease option) \<times> lid \<times> lid option \<times> lid list \<Rightarrow> bool" where
  "books_of k \<longleftrightarrow> (case k of (bs, h, nx, ex, cl) \<Rightarrow>
     distinct (map fst bs) \<and> (\<forall>b \<in> set bs. book_ok h b)
     \<and> (\<forall>l x. h l = Some x \<longrightarrow> l < nx)
     \<and> (\<forall>l x. h l = Some x \<longrightarrow> \<not> cl_released x \<longrightarrow> placed bs ex cl l)
     \<and> (\<forall>l \<in> set cl. \<exists>x. h l = Some x \<and> \<not> cl_released x \<and> cl_placement x = CLOUD)
     \<and> (\<forall>l. ex = Some l \<longrightarrow> (\<exists>x. h l = Some x \<and> \<not> cl_released x \<and> cl_class x = EXCLUSIVE
          \<and> cl_deployment x = None \<and> cl_placement x = LOCAL_GPU \<and> cl_tokens x = 0 \<and> 0 \<le> cl_vram x)))"

definition books :: "scheduler \<Rightarrow> bool" where
  "books s \<longleftrightarrow> books_of (core s)"

section \<open>What leaves the core alone\<close>

lemma core_simps [simp]:
  "core (s\<lparr>cs_device := dv\<rparr>) = core s" "core (s\<lparr>cs_processes := ps\<rparr>) = core s"
  "core (s\<lparr>cs_sampled_at := sa\<rparr>) = core s" "core (s\<lparr>cs_probe_failing := pf\<rparr>) = core s"
  "core (s\<lparr>cs_relief := re\<rparr>) = core s" "core (s\<lparr>cs_mode := md\<rparr>) = core s"
  "core (s\<lparr>cs_mode_changes := mc\<rparr>) = core s" "core (s\<lparr>cs_extra_baseline := eb\<rparr>) = core s"
  "core (s\<lparr>cs_pending_release := pr\<rparr>) = core s" "core (s\<lparr>cs_last_view := lv\<rparr>) = core s"
  "core (s\<lparr>cs_exclusive_pending := ep\<rparr>) = core s" "core (s\<lparr>cs_exclusive_waits := ew\<rparr>) = core s"
  "core (s\<lparr>cs_drained := dr\<rparr>) = core s" "core (s\<lparr>cs_waiters := ws\<rparr>) = core s"
  "core (s\<lparr>cs_futures := fs\<rparr>) = core s" "core (s\<lparr>cs_refused_tasks := rt\<rparr>) = core s"
  "core (s\<lparr>cs_sequence := sq\<rparr>) = core s" "core (s\<lparr>cs_warned := wd\<rparr>) = core s"
  "core (s\<lparr>cs_warnings := wn\<rparr>) = core s" "core (s\<lparr>cs_works_done := wk\<rparr>) = core s"
  "core (s\<lparr>cs_callbacks := cb\<rparr>) = core s"
  by (simp_all add: core_def ledger_def fun_eq_iff)

lemma core_upd_waiter [simp]: "core (upd_waiter n f s) = core s"
  by (simp add: upd_waiter_def)

lemma core_drop_waiter [simp]: "core (drop_waiter n s) = core s"
  by (simp add: drop_waiter_def)

lemma core_emit [simp]: "core (emit now e s) = core s"
  by (simp add: emit_def split: option.splits)

lemma core_warn_request [simp]: "core (warn_request now r g s) = core s"
  by (simp add: warn_request_def split: option.splits)

lemma core_warn_exclusive [simp]: "core (warn_exclusive now r g s) = core s"
  by (simp add: warn_exclusive_def split: option.splits)

lemma core_rebase [simp]: "core (rebase n s) = core s"
  by (simp add: rebase_def Let_def split: option.splits)

lemma core_set_mode [simp]: "core (set_mode m s) = core s"
  by (simp add: set_mode_def)

lemma core_signal_drained [simp]: "core (signal_drained s) = core s"
  by (simp add: signal_drained_def)

lemma core_note_refused [simp]: "core (note_refused r p x s) = core s"
  by (simp add: note_refused_def split: option.splits)

lemma core_forget_refused [simp]: "core (forget_refused s) = core s"
  by (simp add: forget_refused_def)

lemma core_enter_line [simp]: "core (enter_line r x s) = core s"
  by (simp add: enter_line_def)

lemma core_set_relief [simp]: "core (set_relief r s) = core s"
  by (simp add: set_relief_def)

lemma core_lose_sample [simp]: "core (lose_sample s) = core s"
  by (simp add: lose_sample_def)

lemma core_upd_entry: "(\<And>d. bk (f d) = bk d) \<Longrightarrow> core (upd_entry name f s) = core s"
  by (auto simp: upd_entry_def core_def ledger_def fun_eq_iff comp_def)

lemma core_upd_lease: "(\<And>x. erase (f x) = erase x) \<Longrightarrow> core (upd_lease l f s) = core s"
  by (auto simp: upd_lease_def core_def ledger_def fun_eq_iff option.map_comp comp_def)

lemma core_revoke_all [simp]: "core (revoke_all ls s) = core s"
  by (auto simp: revoke_all_def core_def ledger_def fun_eq_iff option.map_comp comp_def)

lemma core_entries_map: "(\<And>d. bk (f d) = bk d) \<Longrightarrow> core (s\<lparr>cs_entries := map f (cs_entries s)\<rparr>) = core s"
  by (auto simp: core_def ledger_def fun_eq_iff comp_def)

lemma bk_updates [simp]:
  "bk (d\<lparr>dp_state := st\<rparr>) = bk d" "bk (d\<lparr>dp_pids := ps\<rparr>) = bk d" "bk (d\<lparr>dp_observed := ob\<rparr>) = bk d"
  "bk (d\<lparr>dp_draining := dr\<rparr>) = bk d" "bk (d\<lparr>dp_busy := bs\<rparr>) = bk d" "bk (d\<lparr>dp_displaced := di\<rparr>) = bk d"
  "bk (d\<lparr>dp_retry_at := ra\<rparr>) = bk d" "bk (d\<lparr>dp_seen_on_gpu := so\<rparr>) = bk d"
  "bk (d\<lparr>dp_unit_end := ue\<rparr>) = bk d" "bk (d\<lparr>dp_oom_ends := oe\<rparr>) = bk d"
  by (simp_all add: bk_def)

lemma bk_update_funs [simp]:
  "bk (dp_draining_update f1 d) = bk d" "bk (dp_busy_update f2 d) = bk d" "bk (dp_displaced_update f3 d) = bk d"
  by (cases d; simp add: bk_def)+

lemma bk_functions [simp]:
  "bk (note_unit_end rnd now u d) = bk d" "bk (action_failed t d) = bk d" "bk (action_done st d) = bk d"
  "bk (reconcile d) = bk d" "bk (publish_entry m d) = bk d"
  by (simp_all add: note_unit_end_def action_failed_def action_done_def reconcile_def publish_entry_def Let_def
      split: option.splits)

lemma core_observe_unit [simp]: "core (snd (observe_unit now name a s)) = core s"
  by (simp add: observe_unit_def core_upd_entry split: option.splits)

lemma core_prune_all [simp]: "core (prune_all now s) = core s"
  by (simp add: prune_all_def core_entries_map)

lemma core_run_after [simp]: "core (run_after a s) = core s"
  by (simp add: run_after_def core_upd_entry Let_def split: after.splits)

lemma core_perform_begin [simp]: "core (perform_begin a s) = core s"
  by (simp add: perform_begin_def core_upd_entry)

lemma core_perform_end [simp]: "core (perform_end now a out s) = core s"
  by (simp add: perform_end_def core_upd_entry Let_def split: outcome.splits)

lemma core_sample_publish [simp]: "core (sample_publish m s) = core s"
  using core_entries_map [of "publish_entry m"
      "s\<lparr>cs_probe_failing := False, cs_device := Some (sm_device m), cs_processes := sm_processes m,
         cs_sampled_at := Some (sm_at m)\<rparr>"]
  by (simp add: sample_publish_def Let_def)

lemma core_smp_next [simp]: "smp_next now i m s = (m', s') \<Longrightarrow> core s' = core s"
  by (auto simp: smp_next_def sample_read_def sample_inspect_def Let_def
      split: smp.splits option.splits if_splits prod.splits list.splits)

lemma core_start_draining [simp]: "core (start_draining d s) = core s"
  by (simp add: start_draining_def core_upd_entry)

lemma core_fold_draining [simp]: "core (fold start_draining ds s) = core s"
  by (induction ds arbitrary: s) simp_all

lemma core_displace [simp]: "core (snd (displace roles r s)) = core s"
  by (simp add: displace_def Let_def split: list.splits)

lemma core_relieve [simp]: "core (snd (relieve s)) = core s"
  by (simp add: relieve_def Let_def split: Relief.splits)

lemma core_restore [simp]: "core (snd (restore dev v s)) = core s"
  by (simp add: restore_def bring_back_def split: list.splits)

lemma core_fill_loop [simp]: "core (snd (fill_loop now dev v ds s)) = core s"
  by (induction now dev v ds s rule: fill_loop.induct) (auto simp: Let_def core_upd_entry)

lemma core_stop_draining [simp]: "core (stop_draining s) = core s"
  by (simp add: stop_draining_def core_entries_map)

lemma core_decide [simp]: "core (snd (sched_decide now s)) = core s"
  by (simp add: sched_decide_def fill_def Let_def split: option.splits)

section \<open>What changes the books\<close>

lemma sum_tokens_cong:
  assumes "\<And>l. l \<in> set ls \<Longrightarrow> h l = h' l"
  shows "sum_list (map (tokens_in h) ls) = sum_list (map (tokens_in h') ls)"
    and "class_tokens h c ls = class_tokens h' c ls"
proof -
  have eq: "sum_list (map (tokens_in h) xs) = sum_list (map (tokens_in h') xs)" if "set xs \<subseteq> set ls" for xs
    by (rule arg_cong [where f = sum_list], rule map_cong) (use assms that in \<open>auto simp: tokens_in_def\<close>)
  then show "sum_list (map (tokens_in h) ls) = sum_list (map (tokens_in h') ls)" by blast
  have "filter (has_class h c) ls = filter (has_class h' c) ls"
    using assms by (simp add: has_class_def cong: filter_cong)
  then show "class_tokens h c ls = class_tokens h' c ls"
    unfolding class_tokens_def by (simp add: eq)
qed

lemma book_ok_cong:
  assumes "\<And>l. l \<in> set (fst (snd b)) \<Longrightarrow> h l = h' l"
  shows "book_ok h b = book_ok h' b"
  using assms sum_tokens_cong [of "fst (snd b)" h h'] by (auto simp: book_ok_def split: prod.splits)

text \<open>A lease of one deployment is in no other.\<close>

lemma book_member:
  assumes "books_of (bs, h, nx, ex, cl)" and "b \<in> set bs" and "l \<in> set (fst (snd b))"
  shows "\<exists>x. h l = Some x \<and> shared_lease (fst b) x \<and> l < nx"
proof -
  have "book_ok h b" and below: "\<And>x. h l = Some x \<Longrightarrow> l < nx" using assms(1,2) by (auto simp: books_of_def)
  with assms(3) show ?thesis by (cases b) (auto simp: book_ok_def)
qed

lemma book_unique:
  assumes "books_of (bs, h, nx, ex, cl)" and "b \<in> set bs" "b' \<in> set bs"
    and "l \<in> set (fst (snd b))" "l \<in> set (fst (snd b'))"
  shows "b = b'"
proof -
  from book_member [OF assms(1,2,4)] book_member [OF assms(1,3,5)] have "fst b = fst b'"
    by (auto simp: shared_lease_def)
  with assms(1-3) show ?thesis by (auto simp: books_of_def distinct_map dest: inj_onD)
qed

definition book_upd :: "pystr \<Rightarrow> (lid list \<Rightarrow> lid list) \<Rightarrow> ResourceClass \<Rightarrow> int \<Rightarrow> book \<Rightarrow> book" where
  "book_upd name f cls t b =
     (case b of (n, ls, res, by) \<Rightarrow>
        if n = name then (n, f ls, res + t, by(cls := map_option (\<lambda>k. k + t) (by cls))) else b)"

lemma fst_book_upd [simp]: "fst (book_upd name f cls t b) = fst b"
  by (simp add: book_upd_def split: prod.splits)

lemma leases_book_upd [simp]:
  "fst (snd (book_upd name f cls t b)) = (if fst b = name then f (fst (snd b)) else fst (snd b))"
  by (simp add: book_upd_def split: prod.splits)

lemma map_fst_book_upd [simp]: "map fst (map (book_upd name f cls t) bs) = map fst bs"
  by simp

lemma core_reserve: "core (reserve name cls t s) = (let (bs, k) = core s in (map (book_upd name id cls t) bs, k))"
  by (simp add: reserve_def upd_entry_def core_def ledger_def bk_def book_upd_def fun_eq_iff comp_def)

lemma core_reserve_leases:
  "core (reserve name cls t (upd_entry name (\<lambda>e. e\<lparr>dp_leases := f (dp_leases e)\<rparr>) s)) =
     (let (bs, k) = core s in (map (book_upd name f cls t) bs, k))"
  by (simp add: reserve_def upd_entry_def core_def ledger_def bk_def book_upd_def fun_eq_iff comp_def)

lemma core_alloc: "core (alloc_lease x s) = (let (bs, h, nx, k) = core s in (bs, h(nx \<mapsto> erase x), Suc nx, k))"
  by (auto simp: alloc_lease_def core_def ledger_def fun_eq_iff)

lemma class_tokens_snoc:
  "class_tokens h c (ls @ [l]) = class_tokens h c ls + (if has_class h c l then tokens_in h l else 0)"
  by (simp add: class_tokens_def)

lemma books_add_lease:
  assumes k: "books_of (bs, h, nx, ex, cl)" and x: "shared_lease name x" and name: "name \<in> fst ` set bs"
  shows "books_of (map (book_upd name (\<lambda>ls. ls @ [nx]) (cl_class x) (cl_tokens x)) bs, h(nx \<mapsto> x), Suc nx, ex, cl)"
proof -
  let ?u = "book_upd name (\<lambda>ls. ls @ [nx]) (cl_class x) (cl_tokens x)" and ?h = "h(nx \<mapsto> x)"
  have ok: "book_ok ?h (?u b)" if b: "b \<in> set bs" for b
  proof -
    have old: "book_ok h b" using k b by (auto simp: books_of_def)
    have below: "l < nx" if "l \<in> set (fst (snd b))" for l using book_member [OF k b that] by blast
    have new: "book_ok ?h b" using old book_ok_cong [of b h ?h] below by fastforce
    show ?thesis
    proof (cases "fst b = name")
      case True
      obtain ls res bc where [simp]: "b = (name, ls, res, bc)" using True by (cases b) auto
      from new below x show ?thesis
        by (auto simp: book_ok_def book_upd_def class_tokens_snoc tokens_in_def has_class_def
            simp del: fun_upd_apply; auto)
    next
      case False
      with new show ?thesis by (cases b) (simp add: book_upd_def)
    qed
  qed
  have at: "placed (map ?u bs) ex cl l" if "placed bs ex cl l" for l
    using that by (auto simp: placed_def)
  have "placed (map ?u bs) ex cl nx" using name by (auto simp: placed_def)
  moreover have fresh: "h nx = None" using k by (auto simp: books_of_def intro: ccontr)
  have old: "l \<noteq> nx" if "l \<in> set cl \<or> ex = Some l" for l
    using that k fresh by (auto simp: books_of_def)
  ultimately show ?thesis
    using k ok at old unfolding books_of_def
    by (simp add: comp_def) (auto simp: less_Suc_eq)
qed

lemma sum_list_removeAll:
  fixes f :: "'a \<Rightarrow> int"
  shows "distinct ls \<Longrightarrow> l \<in> set ls \<Longrightarrow> sum_list (map f (removeAll l ls)) = sum_list (map f ls) - f l"
  by (induction ls) auto

lemma class_tokens_alt:
  "class_tokens h c ls = sum_list (map (\<lambda>l. if has_class h c l then tokens_in h l else 0) ls)"
  by (simp add: class_tokens_def sum_list_map_filter')

text \<open>The sums of a deployment after one of its leases is taken out, or changes its tokens.\<close>

lemma sums_without:
  assumes "distinct ls" and "l \<in> set ls" and "h l = Some x"
  shows "sum_list (map (tokens_in (h(l \<mapsto> y))) (removeAll l ls)) = sum_list (map (tokens_in h) ls) - cl_tokens x"
    and "class_tokens (h(l \<mapsto> y)) c (removeAll l ls)
      = class_tokens h c ls - (if cl_class x = c then cl_tokens x else 0)"
proof -
  have "sum_list (map (tokens_in (h(l \<mapsto> y))) (removeAll l ls)) = sum_list (map (tokens_in h) (removeAll l ls))"
    by (rule sum_tokens_cong(1)) simp
  also have "\<dots> = sum_list (map (tokens_in h) ls) - cl_tokens x"
    by (simp add: sum_list_removeAll [OF assms(1,2)] tokens_in_def assms(3))
  finally show "sum_list (map (tokens_in (h(l \<mapsto> y))) (removeAll l ls)) = sum_list (map (tokens_in h) ls) - cl_tokens x" .
  have "class_tokens (h(l \<mapsto> y)) c (removeAll l ls) = class_tokens h c (removeAll l ls)"
    by (rule sum_tokens_cong(2)) simp
  also have "\<dots> = class_tokens h c ls - (if cl_class x = c then cl_tokens x else 0)"
    by (simp add: class_tokens_alt sum_list_removeAll [OF assms(1,2)] tokens_in_def has_class_def assms(3))
  finally show "class_tokens (h(l \<mapsto> y)) c (removeAll l ls)
      = class_tokens h c ls - (if cl_class x = c then cl_tokens x else 0)" .
qed

lemma sums_resized:
  assumes "distinct ls" and "l \<in> set ls" and "h l = Some x" and "cl_class y = cl_class x"
  shows "sum_list (map (tokens_in (h(l \<mapsto> y))) ls) = sum_list (map (tokens_in h) ls) + (cl_tokens y - cl_tokens x)"
    and "class_tokens (h(l \<mapsto> y)) c ls
      = class_tokens h c ls + (if cl_class x = c then cl_tokens y - cl_tokens x else 0)"
proof -
  have "sum_list (map (tokens_in (h(l \<mapsto> y))) (removeAll l ls))
      = sum_list (map (tokens_in (h(l \<mapsto> y))) ls) - cl_tokens y"
    unfolding sum_list_removeAll [OF assms(1,2)] by (simp add: tokens_in_def)
  with sums_without(1) [where h = h and l = l and y = y, OF assms(1-3)]
  show "sum_list (map (tokens_in (h(l \<mapsto> y))) ls) = sum_list (map (tokens_in h) ls) + (cl_tokens y - cl_tokens x)" by simp
  have "class_tokens (h(l \<mapsto> y)) c (removeAll l ls)
      = class_tokens (h(l \<mapsto> y)) c ls - (if cl_class y = c then cl_tokens y else 0)"
    unfolding class_tokens_alt sum_list_removeAll [OF assms(1,2)] by (simp add: tokens_in_def has_class_def)
  with sums_without(2) [where h = h and l = l and y = y and c = c, OF assms(1-3)] assms(4)
  show "class_tokens (h(l \<mapsto> y)) c ls = class_tokens h c ls + (if cl_class x = c then cl_tokens y - cl_tokens x else 0)"
    by (auto split: if_splits)
qed

lemma book_ok_without:
  assumes "book_ok h b" and "l \<in> set (fst (snd b))" and "h l = Some x"
  shows "book_ok (h(l \<mapsto> y)) (book_upd (fst b) (removeAll l) (cl_class x) (- cl_tokens x) b)"
proof -
  obtain n ls res bc where b [simp]: "b = (n, ls, res, bc)" by (cases b)
  from assms have "distinct ls" "l \<in> set ls" by (simp_all add: book_ok_def)
  with assms sums_without [where h = h and y = y, OF this assms(3)] show ?thesis
    by (auto simp: book_ok_def book_upd_def distinct_removeAll)
qed

lemma book_ok_resized:
  assumes "book_ok h b" and "l \<in> set (fst (snd b))" and "h l = Some x" and "shared_lease (fst b) y"
    and "cl_class y = cl_class x"
  shows "book_ok (h(l \<mapsto> y)) (book_upd (fst b) id (cl_class x) (cl_tokens y - cl_tokens x) b)"
proof -
  obtain n ls res bc where b [simp]: "b = (n, ls, res, bc)" by (cases b)
  from assms have "distinct ls" "l \<in> set ls" by (simp_all add: book_ok_def)
  with assms sums_resized [where h = h and y = y, OF this assms(3,5)] show ?thesis
    by (auto simp: book_ok_def book_upd_def)
qed

text \<open>One deployment's book changes with one of its leases; the others stay as they are.\<close>

lemma books_change:
  assumes k: "books_of (bs, h, nx, ex, cl)" and b: "b \<in> set bs" "l \<in> set (fst (snd b))"
    and new: "book_ok (h(l \<mapsto> y)) (book_upd (fst b) f cls t b)"
    and keep: "\<And>k. k \<in> set (fst (snd b)) \<Longrightarrow> k \<noteq> l \<Longrightarrow> k \<in> set (f (fst (snd b)))"
    and out: "\<not> cl_released y \<Longrightarrow> l \<in> set (f (fst (snd b)))"
  shows "books_of (map (book_upd (fst b) f cls t) bs, h(l \<mapsto> y), nx, ex, cl)"
proof -
  let ?u = "book_upd (fst b) f cls t" and ?h = "h(l \<mapsto> y)"
  obtain x where x: "h l = Some x" "shared_lease (fst b) x" "l < nx" using book_member [OF k b] by blast
  have ok: "book_ok ?h (?u b')" if b': "b' \<in> set bs" for b'
  proof (cases "b' = b")
    case False
    with k b(1) b' have other: "fst b' \<noteq> fst b" by (auto simp: books_of_def distinct_map dest: inj_onD)
    have "l \<notin> set (fst (snd b'))" using book_unique [OF k b(1) b' b(2)] False by blast
    then have "book_ok h b' = book_ok ?h b'" by (intro book_ok_cong) auto
    with k b' have "book_ok ?h b'" by (auto simp: books_of_def)
    with other show ?thesis by (cases b') (simp add: book_upd_def)
  qed (simp add: new)
  have at: "placed (map ?u bs) ex cl l'" if p: "placed bs ex cl l'" and "l' \<noteq> l \<or> \<not> cl_released y" for l'
  proof -
    have "\<exists>b'' \<in> set bs. l' \<in> set (fst (snd (?u b'')))" if b': "b' \<in> set bs" "l' \<in> set (fst (snd b'))" for b'
    proof (cases "fst b' = fst b")
      case True
      with k b(1) b' have "b' = b" by (auto simp: books_of_def distinct_map dest: inj_onD)
      with b' b(1) keep out \<open>l' \<noteq> l \<or> \<not> cl_released y\<close> show ?thesis by (intro bexI [of _ b]) auto
    qed (use b' in \<open>auto intro!: bexI [of _ b']\<close>)
    with p show ?thesis by (fastforce simp: placed_def)
  qed
  have self: "placed bs ex cl l" using b by (auto simp: placed_def)
  have notcl: "l \<notin> set cl" and notex: "ex \<noteq> Some l" using k x by (auto simp: books_of_def shared_lease_def)
  show ?thesis
    using k ok at at [OF self] notcl notex x(3) unfolding books_of_def by (simp add: comp_def)
qed


section \<open>Every operation keeps the books\<close>

lemma entry_of_Some: "entry_of s n = Some d \<Longrightarrow> d \<in> set (cs_entries s) \<and> dp_name d = n"
  by (auto simp: entry_of_def find_Some_iff)

lemma find_distinct:
  "distinct (map f xs) \<Longrightarrow> x \<in> set xs \<Longrightarrow> find (\<lambda>z. f z = f x) xs = Some x"
  by (induction xs) auto

lemma books_entry_of: "books s \<Longrightarrow> d \<in> set (cs_entries s) \<Longrightarrow> entry_of s (dp_name d) = Some d"
  by (auto simp: entry_of_def books_def books_of_def core_def bk_def comp_def intro!: find_distinct [where f = dp_name])

lemma books_core: "core s = core s' \<Longrightarrow> books s = books s'"
  by (simp add: books_def)

lemma books_ledger: "books s \<Longrightarrow> books_of (map bk (cs_entries s), ledger s, cs_next_lease s, cs_exclusive s, cs_cloud s)"
  by (simp add: books_def core_def)

lemma books_grant_local:
  assumes "books s" and "d \<in> set (cs_entries s)" and "request_ok r" and "cr_class r \<noteq> EXCLUSIVE"
    and "cr_deployment r = Some (dp_name d)" and "p \<noteq> CLOUD"
  shows "books (grant_local now r p d s)"
proof -
  define t where "t = (if p = LOCAL_GPU \<and> kv_capacity_tokens (dp_spec d) \<noteq> 0 then cr_tokens r else 0)"
  define x where "x = new_lease now r p t"
  define s1 where "s1 = (if cl_vram x \<noteq> 0 then rebase 0 s else s)"
  have s1: "core s1 = core s" "cs_next_lease s1 = cs_next_lease s"
    by (simp_all add: s1_def rebase_def Let_def split: option.splits)
  have x: "shared_lease (dp_name d) (erase x)"
    using assms(3-6) by (cases p) (auto simp: x_def t_def shared_lease_def new_lease_def request_ok_def)
  have "core (grant_local now r p d s) = (let (bs, h, nx, k) = core s in
      (map (book_upd (dp_name d) (\<lambda>ls. ls @ [nx]) (cl_class x) (cl_tokens x)) bs, h(nx \<mapsto> erase x), Suc nx, k))"
    using s1 core_reserve_leases [of "dp_name d" "cr_class r" t "\<lambda>ls. ls @ [cs_next_lease s]" "alloc_lease x s1"]
    by (simp add: grant_local_def Let_def t_def [symmetric] x_def [symmetric] s1_def [symmetric] core_alloc)
      (simp add: core_def x_def new_lease_def)
  moreover have "dp_name d \<in> fst ` set (map bk (cs_entries s))" using assms(2) by (force simp: bk_def)
  ultimately show ?thesis
    using books_add_lease [OF books_ledger [OF assms(1)] x] by (simp add: books_def core_def)
qed

lemma books_drop:
  assumes k: "books_of (bs, h, nx, ex, cl)" and x: "h l = Some x" "cl_released y"
    and out: "\<forall>b \<in> set bs. l \<notin> set (fst (snd b))"
  shows "books_of (bs, h(l \<mapsto> y), nx, if ex = Some l then None else ex, removeAll l cl)"
proof -
  have "book_ok (h(l \<mapsto> y)) b" if "b \<in> set bs" for b
  proof -
    have "book_ok h b = book_ok (h(l \<mapsto> y)) b" by (rule book_ok_cong) (use out that in auto)
    with k that show ?thesis by (auto simp: books_of_def)
  qed
  with k x show ?thesis by (auto simp: books_of_def placed_def)
qed

lemma books_give_back:
  assumes "books s" and x: "cs_heap s l = Some x" "\<not> cl_released x"
  shows "books (give_back l x (upd_lease l (cl_released_update (\<lambda>_. True)) s))"
proof -
  define s1 where "s1 = upd_lease l (cl_released_update (\<lambda>_. True)) s"
  define y where "y = (erase x)\<lparr>cl_released := True\<rparr>"
  note k = books_ledger [OF assms(1)]
  have led: "ledger s l = Some (erase x)" using x by (simp add: ledger_def)
  have core1: "core s1 = (map bk (cs_entries s), (ledger s)(l \<mapsto> y), cs_next_lease s, cs_exclusive s, cs_cloud s)"
    and s1: "cs_exclusive s1 = cs_exclusive s" "cs_entries s1 = cs_entries s"
    using x by (auto simp: s1_def y_def upd_lease_def core_def ledger_def fun_eq_iff)
  have drop: "(\<forall>b \<in> set (map bk (cs_entries s)). l \<notin> set (fst (snd b))) \<Longrightarrow>
      books_of (map bk (cs_entries s), (ledger s)(l \<mapsto> y), cs_next_lease s,
        if cs_exclusive s = Some l then None else cs_exclusive s, removeAll l (cs_cloud s))"
    by (rule books_drop [OF k led]) (simp_all add: y_def)
  have books1: "books (give_back l x s1)"
  proof (cases "\<exists>d \<in> set (cs_entries s). l \<in> set (dp_leases d)")
    case True
    then obtain d where d: "d \<in> set (cs_entries s)" "l \<in> set (dp_leases d)" by blast
    then have mem: "bk d \<in> set (map bk (cs_entries s))" "l \<in> set (fst (snd (bk d)))" by (auto simp: bk_def)
    from book_member [OF k mem] led have sh: "shared_lease (dp_name d) (erase x)" by (simp add: bk_def)
    have "entry_of s1 (dp_name d) = Some d"
      using books_entry_of [OF assms(1) d(1)] by (simp add: entry_of_def s1)
    with sh d k led have gb: "give_back l x s1 = reserve (dp_name d) (cl_class x) (- cl_tokens x)
        (upd_entry (dp_name d) (\<lambda>e. e\<lparr>dp_leases := removeAll l (dp_leases e)\<rparr>)
          (if cl_vram x \<noteq> 0 then rebase (cl_vram x) s1 else s1))"
      by (auto simp: give_back_def Let_def shared_lease_def books_of_def s1)
    have "book_ok ((ledger s)(l \<mapsto> y)) (book_upd (dp_name d) (removeAll l) (cl_class x) (- cl_tokens x) (bk d))"
      using k book_ok_without [where h = "ledger s" and y = y, OF _ mem(2) led] d(1) by (simp add: books_of_def bk_def)
    then have "books_of (map (book_upd (dp_name d) (removeAll l) (cl_class x) (- cl_tokens x)) (map bk (cs_entries s)),
        (ledger s)(l \<mapsto> y), cs_next_lease s, cs_exclusive s, cs_cloud s)"
      using books_change [OF k mem, of y "removeAll l" "cl_class x" "- cl_tokens x"]
      by (simp add: bk_def y_def)
    then show ?thesis
      using core_reserve_leases [of "dp_name d" "cl_class x" "- cl_tokens x" "removeAll l"
          "if cl_vram x \<noteq> 0 then rebase (cl_vram x) s1 else s1"] core1
      unfolding gb books_def by (auto split: if_splits)
  next
    case False
    then have out: "\<forall>b \<in> set (map bk (cs_entries s)). l \<notin> set (fst (snd b))" by (auto simp: bk_def)
    with k led x(2) have at: "l \<in> set (cs_cloud s) \<or> cs_exclusive s = Some l"
      by (auto simp: books_of_def placed_def) (metis erase_fields(7))
    show ?thesis
    proof (cases "cl_placement x = CLOUD")
      case True
      with k led have "cs_exclusive s \<noteq> Some l" by (auto simp: books_of_def)
      with True drop [OF out] core1 show ?thesis by (simp add: give_back_def books_def core_def)
    next
      case False
      with k led have "l \<notin> set (cs_cloud s)" by (auto simp: books_of_def)
      with False at drop [OF out] core1 s1 show ?thesis
        by (simp add: give_back_def books_def core_def set_mode_def)
    qed
  qed
  then show ?thesis by (simp add: s1_def)
qed


section \<open>The waiting line\<close>

definition waiter_ok :: "Waiter \<Rightarrow> bool" where
  "waiter_ok w \<longleftrightarrow> request_ok (wt_request w) \<and> cr_class (wt_request w) \<noteq> EXCLUSIVE"

definition line :: "scheduler \<Rightarrow> Waiter list \<times> (nat \<Rightarrow> fut) \<times> nat" where
  "line s = (cs_waiters s, cs_futures s, cs_sequence s)"

definition line_of :: "Waiter list \<times> (nat \<Rightarrow> fut) \<times> nat \<Rightarrow> bool" where
  "line_of k \<longleftrightarrow> (case k of (ws, fs, sq) \<Rightarrow>
     distinct (map wt_seq ws) \<and> (\<forall>w \<in> set ws. fs (wt_seq w) = Pending \<and> wt_seq w < sq \<and> waiter_ok w))"

definition line_ok :: "scheduler \<Rightarrow> bool" where
  "line_ok s \<longleftrightarrow> line_of (line s)"

lemma line_simps [simp]:
  "line (s\<lparr>cs_device := dv\<rparr>) = line s" "line (s\<lparr>cs_processes := ps\<rparr>) = line s"
  "line (s\<lparr>cs_sampled_at := sa\<rparr>) = line s" "line (s\<lparr>cs_probe_failing := pf\<rparr>) = line s"
  "line (s\<lparr>cs_relief := re\<rparr>) = line s" "line (s\<lparr>cs_mode := md\<rparr>) = line s"
  "line (s\<lparr>cs_mode_changes := mc\<rparr>) = line s" "line (s\<lparr>cs_extra_baseline := eb\<rparr>) = line s"
  "line (s\<lparr>cs_pending_release := pr\<rparr>) = line s" "line (s\<lparr>cs_last_view := lv\<rparr>) = line s"
  "line (s\<lparr>cs_exclusive_pending := ep\<rparr>) = line s" "line (s\<lparr>cs_exclusive_waits := ew\<rparr>) = line s"
  "line (s\<lparr>cs_drained := dr\<rparr>) = line s" "line (s\<lparr>cs_refused_tasks := rt\<rparr>) = line s"
  "line (s\<lparr>cs_warned := wd\<rparr>) = line s" "line (s\<lparr>cs_warnings := wn\<rparr>) = line s"
  "line (s\<lparr>cs_works_done := wk\<rparr>) = line s" "line (s\<lparr>cs_callbacks := cb\<rparr>) = line s"
  "line (s\<lparr>cs_entries := es\<rparr>) = line s" "line (s\<lparr>cs_heap := hp\<rparr>) = line s"
  "line (s\<lparr>cs_next_lease := nl\<rparr>) = line s" "line (s\<lparr>cs_exclusive := ex\<rparr>) = line s"
  "line (s\<lparr>cs_cloud := cl\<rparr>) = line s"
  by (simp_all add: line_def)

lemma line_ops [simp]:
  "line (emit now e s) = line s" "line (warn_request now r g s) = line s"
  "line (warn_exclusive now r g s) = line s" "line (rebase n s) = line s" "line (set_mode m s) = line s"
  "line (signal_drained s) = line s" "line (note_refused r p x s) = line s" "line (forget_refused s) = line s"
  "line (set_relief rf s) = line s" "line (lose_sample s) = line s" "line (upd_entry nm f s) = line s"
  "line (upd_lease l g' s) = line s" "line (revoke_all ls s) = line s" "line (reserve nm c t s) = line s"
  "line (alloc_lease y s) = line s" "line (prune_all now s) = line s" "line (stop_draining s) = line s"
  "line (snd (observe_unit now nm a s)) = line s" "line (run_after af s) = line s" "line (perform_begin ac s) = line s"
  "line (sample_publish m' s) = line s" "line (start_draining d s) = line s" "line (give_back l x' s) = line s"
  "line (grant_local now r p d s) = line s" "line (grant_cloud now r s) = line s" "line (grant_exclusive now r s) = line s"
  by (simp_all add: emit_def warn_request_def warn_exclusive_def rebase_def set_mode_def signal_drained_def
      note_refused_def forget_refused_def set_relief_def lose_sample_def upd_entry_def upd_lease_def revoke_all_def
      reserve_def alloc_lease_def prune_all_def stop_draining_def observe_unit_def run_after_def perform_begin_def
      sample_publish_def start_draining_def give_back_def grant_local_def grant_cloud_def grant_exclusive_def Let_def
      split: option.splits after.splits)

lemma line_perform_end [simp]: "line (perform_end now a out s) = line s"
  by (simp add: perform_end_def Let_def)

lemma line_smp_next [simp]: "smp_next now i m s = (m', s') \<Longrightarrow> line s' = line s"
  by (auto simp: smp_next_def sample_read_def sample_inspect_def Let_def
      split: smp.splits option.splits if_splits prod.splits list.splits)

lemma line_fold_draining [simp]: "line (fold start_draining ds s) = line s"
  by (induction ds arbitrary: s) simp_all

lemma line_fill_loop [simp]: "line (snd (fill_loop now dev v ds s)) = line s"
  by (induction now dev v ds s rule: fill_loop.induct) (auto simp: Let_def)

lemma line_displace [simp]: "line (snd (displace roles r s)) = line s"
  by (simp add: displace_def Let_def split: list.splits)

lemma line_relieve [simp]: "line (snd (relieve s)) = line s"
  by (simp add: relieve_def Let_def split: Relief.splits)

lemma line_restore [simp]: "line (snd (restore dev v s)) = line s"
  by (simp add: restore_def bring_back_def split: list.splits)

lemma line_decide [simp]: "line (snd (sched_decide now s)) = line s"
  by (simp add: sched_decide_def fill_def Let_def split: option.splits)

lemma note_refusal_fields [simp]:
  "wt_seq (note_refusal x w) = wt_seq w" "wt_request (note_refusal x w) = wt_request w"
  "wt_last (note_refusal x w) = x"
  by (simp_all add: note_refusal_def)

lemma line_of_note: "line_ok s \<Longrightarrow> line_ok (upd_waiter n (note_refusal x) s)"
proof -
  have "map wt_seq (map (\<lambda>w. if wt_seq w = n then note_refusal x w else w) ws) = map wt_seq ws" for ws
    by simp
  moreover assume "line_ok s"
  ultimately show ?thesis by (auto simp: line_ok_def line_of_def line_def upd_waiter_def waiter_ok_def simp del: map_map)
qed

lemma line_drop: "line_ok s \<Longrightarrow> line_ok ((drop_waiter n s)\<lparr>cs_futures := (cs_futures s)(n := f)\<rparr>)"
  by (auto simp: line_ok_def line_of_def line_def drop_waiter_def distinct_map_filter)

lemma line_ok_drop: "line_ok s \<Longrightarrow> line_ok (drop_waiter n s)"
  by (auto simp: line_ok_def line_of_def line_def drop_waiter_def distinct_map_filter)


section \<open>Admission keeps books and line\<close>

definition sched_ok :: "scheduler \<Rightarrow> bool" where
  "sched_ok s \<longleftrightarrow> books s \<and> line_ok s"

lemma sched_ok_frame: "core s = core s' \<Longrightarrow> line s = line s' \<Longrightarrow> sched_ok s = sched_ok s'"
  by (simp add: sched_ok_def books_def line_ok_def)

lemma judge_not_cloud: "judge now r q d s = (x, p) \<Longrightarrow> p \<noteq> CLOUD"
  by (auto simp: judge_def Let_def split: if_splits option.splits)

lemma sched_ok_grant_local:
  assumes "sched_ok s" and "entry_of s n = Some d" and "request_ok r" and "cr_class r \<noteq> EXCLUSIVE"
    and "cr_deployment r = Some n" and "p \<noteq> CLOUD"
  shows "sched_ok (grant_local now r p d s)"
  using assms entry_of_Some [OF assms(2)] books_grant_local [of s d r p now]
  by (auto simp: sched_ok_def line_ok_def)

lemma entry_of_drop [simp]: "entry_of (drop_waiter n s) = entry_of s"
  by (simp add: drop_waiter_def entry_of_def fun_eq_iff)

lemma sched_ok_pump_one:
  assumes "sched_ok s" and w: "waiter_ok w"
  shows "sched_ok (fst (pump_one now w (s, blocked, vb)))"
proof -
  have noted: "sched_ok (upd_waiter n (note_refusal x) s)" for n x
    using assms(1) line_of_note [of s n x] by (simp add: sched_ok_def books_def)
  have warn: "sched_ok (warn_request now r False (upd_waiter n (note_refusal x) s))" for n x r
    using noted [of n x] sched_ok_frame by (metis core_warn_request line_ops(2))
  have grant: "sched_ok ((grant_local now (wt_request w) p d (drop_waiter (wt_seq w) s))
      \<lparr>cs_futures := (cs_futures s)(wt_seq w := f)\<rparr>)"
    if "entry_of s n = Some d" "cr_deployment (wt_request w) = Some n" "p \<noteq> CLOUD" for p d n f
  proof -
    have "sched_ok ((drop_waiter (wt_seq w) s)\<lparr>cs_futures := (cs_futures s)(wt_seq w := f)\<rparr>)"
      using assms(1) line_drop [of s "wt_seq w" f] by (simp add: sched_ok_def books_def)
    moreover have "sched_ok (grant_local now (wt_request w) p d (drop_waiter (wt_seq w) s))"
      using assms line_ok_drop [of s "wt_seq w"] that
      by (intro sched_ok_grant_local) (auto simp: sched_ok_def books_def waiter_ok_def)
    ultimately show ?thesis
      using line_ops(24) [of now "wt_request w" p d "drop_waiter (wt_seq w) s"]
      by (auto simp: sched_ok_def line_ok_def line_def books_def)
  qed
  have fs: "cs_futures (grant_local now (wt_request w) p d (drop_waiter (wt_seq w) s)) = cs_futures s" for p d
    using line_ops(24) [of now "wt_request w" p d "drop_waiter (wt_seq w) s"] by (simp add: line_def drop_waiter_def)
  show ?thesis
    using assms(1) noted warn grant judge_not_cloud
    by (auto simp: pump_one_def Let_def fs split: option.splits prod.splits)
qed

lemma sched_ok_pump_fold:
  "sched_ok s \<Longrightarrow> \<forall>w \<in> set ws. waiter_ok w \<Longrightarrow> sched_ok (fst (fold (pump_one now) ws (s, b, v)))"
proof (induction ws arbitrary: s b v)
  case (Cons w ws)
  obtain s' b' v' where st: "pump_one now w (s, b, v) = (s', b', v')" by (cases "pump_one now w (s, b, v)")
  with sched_ok_pump_one [of s w now b v] Cons show ?case by simp
qed simp

lemma sched_ok_pump: "sched_ok s \<Longrightarrow> sched_ok (pump now s)"
  unfolding pump_def
  by (rule sched_ok_pump_fold) (auto simp: sched_ok_def line_ok_def line_of_def line_def)

lemma sched_ok_release: "sched_ok s \<Longrightarrow> sched_ok (release_lease now l s)"
proof (cases "cs_heap s l")
  case (Some x)
  assume ok: "sched_ok s"
  show ?thesis
  proof (cases "cl_released x")
    case False
    let ?s = "give_back l x (upd_lease l (cl_released_update (\<lambda>_. True)) s)"
    have "books ?s" using ok books_give_back [OF _ Some False] by (simp add: sched_ok_def)
    then have "sched_ok (signal_drained ?s)" using ok by (simp add: sched_ok_def books_def line_ok_def)
    with sched_ok_pump Some False show ?thesis by (simp add: release_lease_def)
  qed (use ok Some in \<open>simp add: release_lease_def\<close>)
qed (simp add: release_lease_def)


lemma sched_ok_retoken:
  assumes ok: "sched_ok s" and x: "cs_heap s l = Some x" and d: "d \<in> set (cs_entries s)" "l \<in> set (dp_leases d)"
    and "cl_placement x = LOCAL_GPU" "0 \<le> n"
  shows "sched_ok (reserve (dp_name d) (cl_class x) (n - cl_tokens x) (upd_lease l (cl_tokens_update (\<lambda>_. n)) s))"
proof -
  let ?y = "(erase x)\<lparr>cl_tokens := n\<rparr>"
  have k: "books_of (map bk (cs_entries s), ledger s, cs_next_lease s, cs_exclusive s, cs_cloud s)"
    using ok books_ledger by (simp add: sched_ok_def)
  have led: "ledger s l = Some (erase x)" using x by (simp add: ledger_def)
  have mem: "bk d \<in> set (map bk (cs_entries s))" "l \<in> set (fst (snd (bk d)))" using d by (auto simp: bk_def)
  have y: "shared_lease (fst (bk d)) ?y"
    using book_member [OF k mem] led assms(5,6) by (auto simp: shared_lease_def)
  have "book_ok ((ledger s)(l \<mapsto> ?y)) (book_upd (fst (bk d)) id (cl_class (erase x)) (cl_tokens ?y - cl_tokens (erase x)) (bk d))"
    by (rule book_ok_resized [where h = "ledger s", OF _ mem(2) led y]) (use k mem in \<open>auto simp: books_of_def\<close>)
  then have "books_of (map (book_upd (dp_name d) id (cl_class x) (n - cl_tokens x)) (map bk (cs_entries s)),
      (ledger s)(l \<mapsto> ?y), cs_next_lease s, cs_exclusive s, cs_cloud s)"
    using books_change [OF k mem, of ?y id "cl_class x" "n - cl_tokens x"] mem(2) by (simp add: bk_def)
  moreover have "core (upd_lease l (cl_tokens_update (\<lambda>_. n)) s) =
      (map bk (cs_entries s), (ledger s)(l \<mapsto> ?y), cs_next_lease s, cs_exclusive s, cs_cloud s)"
    using x by (auto simp: upd_lease_def core_def ledger_def fun_eq_iff)
  ultimately show ?thesis
    using ok by (simp add: sched_ok_def books_def core_reserve line_ok_def)
qed

text \<open>The three ways a resize ends: nothing changes, the tokens change, and then the line is looked at.\<close>

lemma resize_cases:
  obtains "snd (resize_lease now l v s) = s"
  | x d n where "cs_heap s l = Some x" "d \<in> set (cs_entries s)" "l \<in> set (dp_leases d)" "cl_placement x = LOCAL_GPU"
    "0 \<le> n" "snd (resize_lease now l v s) \<in>
      (let t = reserve (dp_name d) (cl_class x) (n - cl_tokens x) (upd_lease l (cl_tokens_update (\<lambda>_. n)) s)
       in {t, pump now t})"
  by (fastforce simp: resize_lease_def Let_def compute_check_int_Inr bind_eq_Some_conv
      split: option.splits sum.splits if_splits dest!: entry_of_Some)

lemma sched_ok_resize: "sched_ok s \<Longrightarrow> sched_ok (snd (resize_lease now l v s))"
  by (rule resize_cases [of now l v s]) (auto simp: Let_def intro!: sched_ok_retoken sched_ok_pump)

text \<open>A new lease outside the deployments: a cloud lease, or the Exclusive one.\<close>

lemma ledger_alloc [simp]: "ledger (alloc_lease x s) = (ledger s)(cs_next_lease s \<mapsto> erase x)"
  by (auto simp: alloc_lease_def ledger_def fun_eq_iff)

lemma alloc_fields [simp]:
  "cs_entries (alloc_lease x s) = cs_entries s" "cs_next_lease (alloc_lease x s) = Suc (cs_next_lease s)"
  "cs_exclusive (alloc_lease x s) = cs_exclusive s" "cs_cloud (alloc_lease x s) = cs_cloud s"
  by (simp_all add: alloc_lease_def)

lemma books_new_lease:
  assumes k: "books_of (bs, h, nx, ex, cl)"
  shows "\<forall>b \<in> set bs. book_ok (h(nx \<mapsto> y)) b" and "h nx = None"
proof -
  show "h nx = None" using k by (auto simp: books_of_def intro: ccontr)
  show "\<forall>b \<in> set bs. book_ok (h(nx \<mapsto> y)) b"
  proof
    fix b assume b: "b \<in> set bs"
    have "book_ok h b = book_ok (h(nx \<mapsto> y)) b"
      by (rule book_ok_cong) (use book_member [OF k b] in fastforce)
    with k b show "book_ok (h(nx \<mapsto> y)) b" by (auto simp: books_of_def)
  qed
qed

lemma sched_ok_grant_cloud: "sched_ok s \<Longrightarrow> sched_ok (grant_cloud now r s)"
proof -
  assume ok: "sched_ok s"
  then have k: "books_of (map bk (cs_entries s), ledger s, cs_next_lease s, cs_exclusive s, cs_cloud s)"
    using books_ledger by (simp add: sched_ok_def)
  let ?y = "erase (new_lease now r CLOUD 0)"
  from k books_new_lease(1) [OF k, of ?y] books_new_lease(2) [OF k]
  have "books_of (map bk (cs_entries s), (ledger s)(cs_next_lease s \<mapsto> ?y),
      Suc (cs_next_lease s), cs_exclusive s, cs_cloud s @ [cs_next_lease s])"
    by (auto simp: books_of_def placed_def new_lease_def less_Suc_eq)
  with ok show ?thesis by (simp add: sched_ok_def grant_cloud_def books_def line_ok_def core_def)
qed

lemma sched_ok_grant_exclusive:
  assumes ok: "sched_ok s" and "cs_exclusive s = None" and "request_ok r" and "cr_class r = EXCLUSIVE"
  shows "sched_ok (grant_exclusive now r s)"
proof -
  have k: "books_of (map bk (cs_entries s), ledger s, cs_next_lease s, cs_exclusive s, cs_cloud s)"
    using ok books_ledger by (simp add: sched_ok_def)
  let ?y = "erase (new_lease now r LOCAL_GPU 0)"
  from k books_new_lease(1) [OF k, of ?y] books_new_lease(2) [OF k] assms(2-4)
  have "books_of (map bk (cs_entries s), (ledger s)(cs_next_lease s \<mapsto> ?y),
      Suc (cs_next_lease s), Some (cs_next_lease s), cs_cloud s)"
    by (auto simp: books_of_def placed_def new_lease_def less_Suc_eq request_ok_def)
  with ok show ?thesis by (simp add: sched_ok_def grant_exclusive_def books_def line_ok_def core_def)
qed

section \<open>Every step keeps books and line\<close>

lemma sched_ok_keep: "sched_ok s \<Longrightarrow> core s' = core s \<Longrightarrow> line s' = line s \<Longrightarrow> sched_ok s'"
  using sched_ok_frame by blast

lemma ok_warn [simp]: "sched_ok (warn_request now r g s) = sched_ok s"
  and ok_refused [simp]: "sched_ok (note_refused r p x s) = sched_ok s"
  by (rule sched_ok_frame; simp)+

lemma check_request_Inr: "sched_check_request (Inst r) s = Inr r' \<Longrightarrow> r' = r"
  by (auto simp: sched_check_request_def split: option.splits if_splits)

lemma sched_ok_try: "request_ok r \<Longrightarrow> sched_ok s \<Longrightarrow> sched_ok (snd (try_acquire now (Inst r) s))"
  by (auto simp: try_acquire_def bind_eq_Some_conv intro!: sched_ok_grant_local
      dest: judge_not_cloud dest!: check_request_Inr split: sum.splits option.splits prod.splits)

lemma sched_ok_enter:
  assumes "sched_ok s" and "request_ok r" and "cr_class r \<noteq> EXCLUSIVE"
  shows "sched_ok (enter_line r x s)"
proof -
  let ?w = "new_waiter r (cs_sequence s) (queued_reason r x s)"
  have "wt_seq ?w = cs_sequence s" "waiter_ok ?w" using assms by (simp_all add: new_waiter_def waiter_ok_def)
  moreover have "line_of (cs_waiters s, cs_futures s, cs_sequence s)"
    using assms(1) by (simp add: sched_ok_def line_ok_def line_def)
  ultimately have "line_ok (enter_line r x s)"
    by (auto simp: line_ok_def line_def line_of_def enter_line_def less_Suc_eq)
  with assms(1) show ?thesis by (simp add: sched_ok_def books_def)
qed

lemma sched_ok_acquire:
  assumes "sched_ok s" and "request_ok r" and "cr_class r \<noteq> EXCLUSIVE"
    and "Option.bind (cr_deployment r) (entry_of s) = Some d"
  shows "sched_ok (snd (acquire_shared now r t ca d s))"
  using assms
  by (auto simp: acquire_shared_def Let_def bind_eq_Some_conv
      intro!: sched_ok_grant_local sched_ok_grant_cloud sched_ok_enter
      dest: judge_not_cloud split: option.splits prod.splits)

lemma sched_ok_drop: "sched_ok s \<Longrightarrow> sched_ok (drop_waiter n s)"
  using line_ok_drop [of s n] by (simp add: sched_ok_def books_def)

lemma sched_ok_resume: "sched_ok s \<Longrightarrow> sched_ok (snd (acquire_resume now n r p s))"
proof -
  assume ok: "sched_ok s"
  have "sched_ok ((drop_waiter n s)\<lparr>cs_futures := (cs_futures (drop_waiter n s))(n := Cancelled)\<rparr>)"
    using ok line_drop [of s n Cancelled] by (simp add: sched_ok_def books_def drop_waiter_def)
  with sched_ok_drop [OF ok, of n] show ?thesis
    by (auto simp: acquire_resume_def Let_def intro!: sched_ok_grant_cloud split: fut.splits option.splits)
qed

lemma sched_ok_cancel: "sched_ok s \<Longrightarrow> sched_ok (acquire_cancel now n s)"
  by (auto simp: acquire_cancel_def Let_def intro!: sched_ok_release sched_ok_drop split: fut.splits)

lemma sched_ok_public: "public_step s s' \<Longrightarrow> sched_ok s \<Longrightarrow> sched_ok s'"
proof (induction rule: public_step.induct)
  case (ps_try r s now)
  then show ?case by (simp add: sched_ok_try)
next
  case ps_acquire
  then show ?case by (simp add: sched_ok_acquire)
next
  case ps_resume
  then show ?case by (simp add: sched_ok_resume)
next
  case ps_cancel
  then show ?case by (simp add: sched_ok_cancel)
next
  case (ps_release s now l)
  then show ?case using sched_ok_release [of s now l] by (simp add: lease_release_def split: option.splits)
next
  case (ps_callback cb s now)
  then show ?case unfolding run_callback_def by (intro sched_ok_release) (erule sched_ok_keep; simp)
next
  case (ps_force s now)
  then have "sched_ok (revoke_all ls s)" for ls by (rule sched_ok_keep) simp_all
  then show ?case using ps_force
    by (auto simp: force_release_exclusive_def intro!: sched_ok_release split: option.splits)
next
  case ps_resize
  then show ?case by (simp add: sched_ok_resize)
qed (erule sched_ok_keep; simp add: hold_until_def core_upd_lease work_ends_def revoke_local_gpu_def Let_def)+

end
