(* ===== verification/Compute_Control_Facts.thy ===== *)
theory Compute_Control_Facts
  imports Compute_Books
begin

text \<open>
  The invariant of the compute scheduler's coroutines: who holds the control lock, when the mode
  changes, and why nothing of the workspace is on the GPU while an Exclusive job holds it.
  \<open>shell\<close> is the part of the state that only the coroutines change.
\<close>

section \<open>The part of the state the coroutines change\<close>

definition dp_res :: "Deployment \<Rightarrow> DeploymentSpec \<times> DeploymentState \<times> bool" where
  "dp_res d = (dp_spec d, dp_state d, dp_busy d)"

definition shell ::
  "scheduler \<Rightarrow> SchedulerMode \<times> lid option \<times> bool \<times> bool option
     \<times> (DeploymentSpec \<times> DeploymentState \<times> bool) list \<times> bool" where
  "shell s = (cs_mode s, cs_exclusive s, cs_exclusive_pending s, cs_drained s, map dp_res (cs_entries s), cs_control s)"

lemma shell_simps [simp]:
  "shell (s\<lparr>cs_device := dv\<rparr>) = shell s" "shell (s\<lparr>cs_processes := ps\<rparr>) = shell s"
  "shell (s\<lparr>cs_sampled_at := sa\<rparr>) = shell s" "shell (s\<lparr>cs_probe_failing := pf\<rparr>) = shell s"
  "shell (s\<lparr>cs_relief := re\<rparr>) = shell s" "shell (s\<lparr>cs_extra_baseline := eb\<rparr>) = shell s"
  "shell (s\<lparr>cs_pending_release := pr\<rparr>) = shell s" "shell (s\<lparr>cs_last_view := lv\<rparr>) = shell s"
  "shell (s\<lparr>cs_exclusive_waits := ew\<rparr>) = shell s" "shell (s\<lparr>cs_refused_tasks := rt\<rparr>) = shell s"
  "shell (s\<lparr>cs_warned := wd\<rparr>) = shell s" "shell (s\<lparr>cs_warnings := wn\<rparr>) = shell s"
  "shell (s\<lparr>cs_works_done := wk\<rparr>) = shell s" "shell (s\<lparr>cs_callbacks := cb\<rparr>) = shell s"
  "shell (s\<lparr>cs_heap := hp\<rparr>) = shell s" "shell (s\<lparr>cs_next_lease := nl\<rparr>) = shell s"
  "shell (s\<lparr>cs_cloud := cl\<rparr>) = shell s" "shell (s\<lparr>cs_waiters := ws\<rparr>) = shell s"
  "shell (s\<lparr>cs_futures := fs\<rparr>) = shell s" "shell (s\<lparr>cs_sequence := sq\<rparr>) = shell s"
  by (simp_all add: shell_def)

lemma shell_upd_entry: "(\<And>d. dp_res (f d) = dp_res d) \<Longrightarrow> shell (upd_entry name f s) = shell s"
  by (auto simp: upd_entry_def shell_def)

lemma shell_entries_map: "(\<And>d. dp_res (f d) = dp_res d) \<Longrightarrow> shell (s\<lparr>cs_entries := map f (cs_entries s)\<rparr>) = shell s"
  by (auto simp: shell_def)

lemma dp_res_updates [simp]:
  "dp_res (d\<lparr>dp_leases := ls\<rparr>) = dp_res d" "dp_res (d\<lparr>dp_reserved := n, dp_by_class := m\<rparr>) = dp_res d"
  "dp_res (d\<lparr>dp_oom_ends := oe\<rparr>) = dp_res d" "dp_res (d\<lparr>dp_unit_end := ue\<rparr>) = dp_res d"
  "dp_res (d\<lparr>dp_draining := dr\<rparr>) = dp_res d" "dp_res (d\<lparr>dp_displaced := di\<rparr>) = dp_res d"
  "dp_res (dp_draining_update f1 d) = dp_res d" "dp_res (dp_displaced_update f2 d) = dp_res d"
  "dp_res (note_unit_end rnd now u d) = dp_res d"
  by (simp_all add: dp_res_def note_unit_end_def Let_def)

lemma shell_ops [simp]:
  "shell (emit now e s) = shell s" "shell (warn_request now r g s) = shell s"
  "shell (warn_exclusive now r g s) = shell s" "shell (rebase n s) = shell s"
  "shell (note_refused r p x s) = shell s" "shell (forget_refused s) = shell s"
  "shell (set_relief rf s) = shell s" "shell (lose_sample s) = shell s" "shell (upd_waiter k fw s) = shell s"
  "shell (drop_waiter k s) = shell s" "shell (enter_line r x s) = shell s"
  "shell (upd_lease l g' s) = shell s" "shell (revoke_all ls s) = shell s" "shell (reserve nm c t s) = shell s"
  "shell (alloc_lease y s) = shell s" "shell (prune_all now s) = shell s" "shell (stop_draining s) = shell s"
  "shell (snd (observe_unit now nm a s)) = shell s" "shell (start_draining d s) = shell s"
  "shell (grant_local now r p d s) = shell s" "shell (grant_cloud now r s) = shell s"
  "shell (work_ends w s) = shell s" "shell (hold_until l w s) = shell s"
  by (simp_all add: emit_def warn_request_def warn_exclusive_def rebase_def
      note_refused_def forget_refused_def set_relief_def lose_sample_def upd_waiter_def drop_waiter_def enter_line_def
      upd_lease_def revoke_all_def reserve_def alloc_lease_def prune_all_def stop_draining_def observe_unit_def
      start_draining_def grant_local_def grant_cloud_def work_ends_def hold_until_def Let_def
      shell_upd_entry shell_entries_map split: option.splits)

lemma shell_run_after [simp]: "shell (run_after a s) = shell s"
  by (simp add: run_after_def shell_upd_entry Let_def split: after.splits)

lemma shell_fold_draining [simp]: "shell (fold start_draining ds s) = shell s"
  by (induction ds arbitrary: s) simp_all

lemma shell_fill_loop [simp]: "shell (snd (fill_loop now dev v ds s)) = shell s"
  by (induction now dev v ds s rule: fill_loop.induct) (auto simp: Let_def shell_upd_entry)

lemma shell_displace [simp]: "shell (snd (displace roles r s)) = shell s"
  by (simp add: displace_def Let_def split: list.splits)

lemma shell_relieve [simp]: "shell (snd (relieve s)) = shell s"
  by (simp add: relieve_def Let_def split: Relief.splits)

lemma shell_restore [simp]: "shell (snd (restore dev v s)) = shell s"
  by (simp add: restore_def bring_back_def split: list.splits)

lemma shell_decide [simp]: "shell (snd (sched_decide now s)) = shell s"
  by (simp add: sched_decide_def fill_def Let_def split: option.splits)

lemma shell_pump_one: "shell (fst (pump_one now w (s, b, v))) = shell s"
  by (auto simp: pump_one_def Let_def split: option.splits prod.splits)

lemma shell_pump_fold: "shell (fst (fold (pump_one now) ws (s, b, v))) = shell s"
proof (induction ws arbitrary: s b v)
  case (Cons w ws)
  obtain s' b' v' where "pump_one now w (s, b, v) = (s', b', v')" by (cases "pump_one now w (s, b, v)")
  with shell_pump_one [of now w s b v] Cons [of s' b' v'] show ?case by simp
qed simp

lemma shell_pump [simp]: "shell (pump now s) = shell s"
  by (simp add: pump_def shell_pump_fold)

section \<open>The local GPU leases\<close>

definition gpu_of :: "book list \<times> (lid \<Rightarrow> ComputeLease option) \<times> 'k \<Rightarrow> lid set" where
  "gpu_of k = (case k of (bs, h, _) \<Rightarrow>
     {l. (\<exists>b \<in> set bs. l \<in> set (fst (snd b))) \<and> (\<exists>x. h l = Some x \<and> cl_placement x = LOCAL_GPU)})"

lemma gpu_core: "set (local_gpu_leases s) = gpu_of (core s)"
  by (auto simp: local_gpu_leases_def shared_leases_def gpu_of_def core_def bk_def lease_at_def ledger_def
      split: option.splits)

lemma gpu_frame: "core s = core s' \<Longrightarrow> local_gpu_leases s = [] \<longleftrightarrow> local_gpu_leases s' = []"
  using gpu_core [of s] gpu_core [of s'] by (metis set_empty)

lemma judge_gpu_mode: "judge now r q d s = (None, LOCAL_GPU) \<Longrightarrow> cs_mode s = SchedulerMode_NORMAL"
  by (auto simp: judge_def Let_def split: if_splits)

lemma gpu_grant_cpu:
  assumes "books s"
  shows "set (local_gpu_leases (grant_local now r LOCAL_CPU d s)) = set (local_gpu_leases s)"
proof -
  let ?x = "new_lease now r LOCAL_CPU 0"
  have core: "core (grant_local now r LOCAL_CPU d s) = (let (bs, h, nx, k) = core s in
      (map (book_upd (dp_name d) (\<lambda>ls. ls @ [nx]) (cr_class r) 0) bs, h(nx \<mapsto> erase ?x), Suc nx, k))"
    using core_reserve_leases [of "dp_name d" "cr_class r" 0 "\<lambda>ls. ls @ [cs_next_lease s]" "alloc_lease ?x s"]
    by (simp add: grant_local_def Let_def core_alloc) (simp add: core_def new_lease_def)
  note k = books_ledger [OF assms]
  from books_new_lease(2) [OF k] have "ledger s (cs_next_lease s) = None" .
  then show ?thesis
    unfolding gpu_core core by (auto simp: core_def gpu_of_def new_lease_def split: if_splits)
qed


lemma shell_mode: "shell s = shell s' \<Longrightarrow> cs_mode s = cs_mode s'"
  by (simp add: shell_def)

lemma gpu_pump_one:
  assumes "sched_ok s" and "cs_mode s \<noteq> SchedulerMode_NORMAL"
  shows "set (local_gpu_leases (fst (pump_one now w (s, b, v)))) = set (local_gpu_leases s)"
proof -
  have grant: "set (local_gpu_leases ((grant_local now r p d (drop_waiter n s))\<lparr>cs_futures := f\<rparr>)) = set (local_gpu_leases s)"
    if "judge now r' q d s = (None, p)" for r p d n f r' q
  proof -
    have "p = LOCAL_CPU" using that assms(2) judge_gpu_mode judge_not_cloud by (cases p) blast+
    moreover have "books (drop_waiter n s)" using assms(1) by (simp add: sched_ok_def books_def)
    ultimately show ?thesis
      using gpu_grant_cpu [of "drop_waiter n s" now r d] by (simp add: gpu_core)
  qed
  show ?thesis
    using grant by (auto simp: pump_one_def Let_def gpu_core split: option.splits prod.splits)
qed

lemma gpu_pump_fold:
  assumes "sched_ok s" and "cs_mode s \<noteq> SchedulerMode_NORMAL" and "\<forall>w \<in> set ws. waiter_ok w"
  shows "set (local_gpu_leases (fst (fold (pump_one now) ws (s, b, v)))) = set (local_gpu_leases s)"
  using assms
proof (induction ws arbitrary: s b v)
  case (Cons w ws)
  obtain s' b' v' where st: "pump_one now w (s, b, v) = (s', b', v')" by (cases "pump_one now w (s, b, v)")
  have "sched_ok s'" "cs_mode s' \<noteq> SchedulerMode_NORMAL" "set (local_gpu_leases s') = set (local_gpu_leases s)"
    using sched_ok_pump_one [of s w now b v] shell_mode [OF shell_pump_one [of now w s b v]]
      gpu_pump_one [of s now w b v] Cons.prems st by auto
  with Cons.IH [of s' b' v'] Cons.prems st show ?case by simp
qed simp

lemma gpu_pump:
  "sched_ok s \<Longrightarrow> cs_mode s \<noteq> SchedulerMode_NORMAL \<Longrightarrow> set (local_gpu_leases (pump now s)) = set (local_gpu_leases s)"
  unfolding pump_def
  by (rule gpu_pump_fold) (auto simp: sched_ok_def line_ok_def line_of_def line_def)

section \<open>What the public operations do to the coroutines' part\<close>

text \<open>
  Either nothing, except that outside the normal mode local GPU leases may end and the drain's
  event is set when none is left; or the Exclusive lease ended.
\<close>

definition quiet :: "scheduler \<Rightarrow> scheduler \<Rightarrow> bool" where
  "quiet s s' \<longleftrightarrow> cs_mode s' = cs_mode s \<and> cs_exclusive s' = cs_exclusive s
     \<and> cs_exclusive_pending s' = cs_exclusive_pending s \<and> map dp_res (cs_entries s') = map dp_res (cs_entries s)
     \<and> cs_control s' = cs_control s
     \<and> (cs_mode s \<noteq> SchedulerMode_NORMAL \<longrightarrow> set (local_gpu_leases s') \<subseteq> set (local_gpu_leases s))
     \<and> (cs_drained s' = cs_drained s \<or> cs_drained s \<noteq> None \<and> cs_drained s' = Some True
        \<and> (cs_mode s \<noteq> SchedulerMode_NORMAL \<longrightarrow> local_gpu_leases s' = []))"

definition ended :: "scheduler \<Rightarrow> scheduler \<Rightarrow> bool" where
  "ended s s' \<longleftrightarrow> cs_exclusive s \<noteq> None \<and> cs_exclusive s' = None \<and> cs_mode s' = SchedulerMode_NORMAL
     \<and> cs_exclusive_pending s' = cs_exclusive_pending s \<and> map dp_res (cs_entries s') = map dp_res (cs_entries s)
     \<and> cs_control s' = cs_control s \<and> (cs_drained s' = cs_drained s \<or> cs_drained s \<noteq> None \<and> cs_drained s' \<noteq> None)"

lemma quiet_frame: "core s' = core s \<Longrightarrow> shell s' = shell s \<Longrightarrow> quiet s s'"
  by (simp add: quiet_def gpu_core shell_def)

lemma quiet_gpu:
  "shell s' = shell s \<Longrightarrow> (cs_mode s \<noteq> SchedulerMode_NORMAL \<Longrightarrow> set (local_gpu_leases s') = set (local_gpu_leases s)) \<Longrightarrow> quiet s s'"
  by (auto simp: quiet_def shell_def)

lemma gpu_give_back:
  assumes "books s" and x: "cs_heap s l = Some x" "\<not> cl_released x"
  shows "set (local_gpu_leases (give_back l x (upd_lease l (cl_released_update (\<lambda>_. True)) s))) \<subseteq> set (local_gpu_leases s)"
proof -
  let ?s = "upd_lease l (cl_released_update (\<lambda>_. True)) s"
  have s1: "set (local_gpu_leases ?s) = set (local_gpu_leases s)"
    using x by (auto simp: local_gpu_leases_def shared_leases_def lease_at_def upd_lease_def split: option.splits)
  have led: "ledger (reserve n c t (upd_entry n f z)) = ledger z" for n c t f z
    by (simp add: reserve_def upd_entry_def ledger_def fun_eq_iff)
  have rem: "set (local_gpu_leases (reserve n c t (upd_entry n (\<lambda>e. e\<lparr>dp_leases := removeAll l (dp_leases e)\<rparr>) z)))
      \<subseteq> set (local_gpu_leases z)" for n c t z
    unfolding gpu_core core_reserve_leases by (auto simp: core_def gpu_of_def split: if_splits)
  have reb: "set (local_gpu_leases (rebase k z)) = set (local_gpu_leases z)" for k z by (simp add: gpu_core)
  have "set (local_gpu_leases (give_back l x ?s)) \<subseteq> set (local_gpu_leases ?s)"
  proof -
    have "set (local_gpu_leases ((set_mode m (z\<lparr>cs_exclusive := None\<rparr>))\<lparr>cs_refused_tasks := []\<rparr>)) = set (local_gpu_leases z)" for m z
      by (simp add: gpu_core) (simp add: core_def gpu_of_def)
    moreover have "set (local_gpu_leases (z\<lparr>cs_cloud := k\<rparr>)) = set (local_gpu_leases z)" for z k
      by (simp add: gpu_core) (simp add: core_def gpu_of_def)
    ultimately show ?thesis
      using rem [of _ _ _ ?s] rem [of _ _ _ "rebase (cl_vram x) ?s"] reb
      by (auto simp: give_back_def Let_def split: option.splits)
  qed
  with s1 show ?thesis by simp
qed

lemma release_quiet:
  assumes ok: "sched_ok s"
  shows "quiet s (release_lease now l s) \<or> ended s (release_lease now l s)"
proof (cases "\<exists>x. cs_heap s l = Some x \<and> \<not> cl_released x")
  case False
  then have "release_lease now l s = s" by (auto simp: release_lease_def split: option.splits)
  then show ?thesis by (simp add: quiet_def)
next
  case True
  then obtain x where x: "cs_heap s l = Some x" "\<not> cl_released x" by blast
  define g where "g = give_back l x (upd_lease l (cl_released_update (\<lambda>_. True)) s)"
  have r: "release_lease now l s = pump now (signal_drained g)" using x by (simp add: release_lease_def g_def)
  have gok: "sched_ok g" using ok books_give_back [OF _ x] by (simp add: g_def sched_ok_def line_ok_def)
  have gpu: "set (local_gpu_leases g) \<subseteq> set (local_gpu_leases s)"
    using gpu_give_back [OF _ x] ok by (simp add: g_def sched_ok_def)
  have pok: "sched_ok (signal_drained g)" using gok by (rule sched_ok_keep) simp_all
  have sd: "cs_mode (signal_drained g) = cs_mode g" "cs_exclusive (signal_drained g) = cs_exclusive g"
    "cs_exclusive_pending (signal_drained g) = cs_exclusive_pending g" "cs_entries (signal_drained g) = cs_entries g"
    "cs_control (signal_drained g) = cs_control g"
    "cs_drained (signal_drained g) = (if cs_drained g \<noteq> None \<and> local_gpu_leases g = [] then Some True else cs_drained g)"
    by (simp_all add: signal_drained_def)
  have pm: "shell (release_lease now l s) = shell (signal_drained g)" by (simp add: r)
  have pg: "cs_mode g \<noteq> SchedulerMode_NORMAL \<Longrightarrow> set (local_gpu_leases (release_lease now l s)) = set (local_gpu_leases g)"
    using gpu_pump [OF pok] by (simp add: r sd gpu_core)
  show ?thesis
  proof (cases "cs_exclusive s = Some l \<and> cl_placement x \<noteq> CLOUD")
    case True
    then have "ended s (release_lease now l s)"
      using pm sd by (auto simp: ended_def shell_def g_def give_back_def set_mode_def upd_lease_def)
    then show ?thesis ..
  next
    case False
    have "shell g = shell s"
      using False by (auto simp: g_def give_back_def Let_def upd_lease_def shell_upd_entry split: option.splits)
    then have "quiet s (release_lease now l s)"
      using pm sd pg gpu by (auto simp: quiet_def shell_def)
    then show ?thesis ..
  qed
qed


lemma grant_quiet:
  assumes "sched_ok s" and "judge now r q d s = (None, p)"
  shows "quiet s (grant_local now r p d s)"
proof (rule quiet_gpu)
  assume "cs_mode s \<noteq> SchedulerMode_NORMAL"
  then have "p = LOCAL_CPU" using assms(2) judge_gpu_mode judge_not_cloud by (cases p) blast+
  with gpu_grant_cpu assms(1) show "set (local_gpu_leases (grant_local now r p d s)) = set (local_gpu_leases s)"
    by (simp add: sched_ok_def)
qed simp

lemma cloud_quiet: "sched_ok s \<Longrightarrow> quiet s (grant_cloud now r s)"
proof (rule quiet_gpu)
  assume "sched_ok s"
  then have "ledger s (cs_next_lease s) = None"
    using books_new_lease(2) [OF books_ledger] by (simp add: sched_ok_def)
  then show "set (local_gpu_leases (grant_cloud now r s)) = set (local_gpu_leases s)"
    by (auto simp: gpu_core grant_cloud_def core_def gpu_of_def new_lease_def split: if_splits)
qed simp

lemma quiet_refl [simp]: "quiet s s"
  by (simp add: quiet_def)

lemma quiet_before: "core t = core s \<Longrightarrow> shell t = shell s \<Longrightarrow> quiet t s' \<Longrightarrow> quiet s s'"
  using gpu_frame [of t s] by (simp add: quiet_def gpu_core shell_def)

lemma quiet_after: "core t = core s' \<Longrightarrow> shell t = shell s' \<Longrightarrow> quiet s t \<Longrightarrow> quiet s s'"
  using gpu_frame [of t s'] by (simp add: quiet_def gpu_core shell_def)

lemma try_quiet: "sched_ok s \<Longrightarrow> quiet s (snd (try_acquire now v s))"
  by (auto simp: try_acquire_def intro: grant_quiet quiet_frame dest!: check_request_Inr
      split: sum.splits option.splits prod.splits)

lemma acquire_quiet: "sched_ok s \<Longrightarrow> quiet s (snd (acquire_shared now r t ca d s))"
proof -
  assume ok: "sched_ok s"
  have "quiet s (grant_cloud now r s)" by (rule cloud_quiet [OF ok])
  moreover have "quiet s (grant_cloud now r (warn_request now r g s))" for g
    by (rule quiet_before [OF _ _ cloud_quiet]) (simp_all add: ok)
  ultimately show ?thesis
    using ok by (auto simp: acquire_shared_def Let_def intro: grant_quiet quiet_frame split: option.splits prod.splits)
qed

lemma resume_quiet: "sched_ok s \<Longrightarrow> quiet s (snd (acquire_resume now n r p s))"
proof -
  assume ok: "sched_ok s"
  let ?s = "(drop_waiter n s)\<lparr>cs_futures := (cs_futures (drop_waiter n s))(n := Cancelled)\<rparr>"
  have "sched_ok ?s" using ok line_drop [of s n Cancelled] by (simp add: sched_ok_def books_def drop_waiter_def)
  then have "quiet s (grant_cloud now r ?s)" by (intro quiet_before [OF _ _ cloud_quiet]) simp_all
  then show ?thesis
    by (auto simp: acquire_resume_def Let_def intro!: quiet_frame split: fut.splits option.splits)
qed

lemma ended_before: "core t = core s \<Longrightarrow> shell t = shell s \<Longrightarrow> ended t s' \<Longrightarrow> ended s s'"
  by (simp add: ended_def shell_def)

lemma release_quiet_before:
  "sched_ok t \<Longrightarrow> core t = core s \<Longrightarrow> shell t = shell s \<Longrightarrow> quiet s (release_lease now l t) \<or> ended s (release_lease now l t)"
  using release_quiet [of t now l] quiet_before ended_before by blast

lemma gpu_retoken:
  "set (local_gpu_leases (reserve nm c t (upd_lease l (cl_tokens_update (\<lambda>_. n)) s))) = set (local_gpu_leases s)"
proof -
  have "ledger (upd_lease l (cl_tokens_update (\<lambda>_. n)) s) k =
      (if k = l then map_option (cl_tokens_update (\<lambda>_. n)) (ledger s l) else ledger s k)" for k
    by (cases "cs_heap s l") (auto simp: upd_lease_def ledger_def)
  then show ?thesis
    unfolding gpu_core core_reserve by (auto simp: core_def gpu_of_def upd_lease_def split: if_splits)
qed

lemma resize_quiet:
  assumes ok: "sched_ok s"
  shows "quiet s (snd (resize_lease now l v s))"
proof (rule resize_cases [of now l v s])
  fix x :: ComputeLease and d :: Deployment and n :: int
  define t where "t = reserve (dp_name d) (cl_class x) (n - cl_tokens x) (upd_lease l (cl_tokens_update (\<lambda>_. n)) s)"
  assume a: "cs_heap s l = Some x" "d \<in> set (cs_entries s)" "l \<in> set (dp_leases d)" "cl_placement x = LOCAL_GPU" "0 \<le> n"
  assume "snd (resize_lease now l v s) \<in> (let t = reserve (dp_name d) (cl_class x) (n - cl_tokens x)
      (upd_lease l (cl_tokens_update (\<lambda>_. n)) s) in {t, pump now t})"
  then have r: "snd (resize_lease now l v s) = t \<or> snd (resize_lease now l v s) = pump now t" by (simp add: t_def Let_def)
  have tok: "sched_ok t" using sched_ok_retoken [OF ok a] by (simp add: t_def)
  have sh: "shell t = shell s" and gpu: "set (local_gpu_leases t) = set (local_gpu_leases s)"
    by (simp_all add: t_def gpu_retoken)
  from sh gpu gpu_pump [OF tok] shell_mode [OF sh] r show ?thesis by (intro quiet_gpu) auto
qed simp

lemma public_quiet: "public_step s s' \<Longrightarrow> sched_ok s \<Longrightarrow> quiet s s' \<or> ended s s'"
proof (induction rule: public_step.induct)
  case (ps_release s now l)
  then show ?case using release_quiet [of s now l] by (auto simp: lease_release_def split: option.splits)
next
  case (ps_cancel s now n)
  then show ?case using release_quiet_before [OF sched_ok_drop [of s n]]
    by (auto simp: acquire_cancel_def Let_def quiet_frame split: fut.splits)
next
  case (ps_callback cb s now)
  have "sched_ok (s\<lparr>cs_callbacks := remove1 cb (cs_callbacks s)\<rparr>)" by (rule sched_ok_keep [OF ps_callback(3)]) simp_all
  then show ?case unfolding run_callback_def by (rule release_quiet_before) simp_all
next
  case (ps_force s now)
  then have "sched_ok (revoke_all ls s)" for ls by (rule sched_ok_keep) simp_all
  then show ?case using release_quiet_before [of "revoke_all _ s" s]
    by (auto simp: force_release_exclusive_def split: option.splits)
next
  case ps_acquire
  then show ?case using acquire_quiet by blast
qed (use try_quiet resume_quiet resize_quiet in \<open>auto intro: quiet_frame simp: core_upd_lease hold_until_def work_ends_def revoke_local_gpu_def Let_def\<close>)


section \<open>The invariant of the coroutines\<close>

definition x_draining :: "xpc \<Rightarrow> bool" where
  "x_draining x = (case x of X_off \<Rightarrow> False | X_first _ \<Rightarrow> False | X_room \<Rightarrow> False | X_room_sample _ \<Rightarrow> False | _ \<Rightarrow> True)"

definition x_verifying :: "xpc \<Rightarrow> bool" where
  "x_verifying x = (case x of X_verify _ _ _ \<Rightarrow> True | X_freed _ _ _ _ \<Rightarrow> True | X_verify_sleep _ _ \<Rightarrow> True | _ \<Rightarrow> False)"

definition x_locked :: "xpc \<Rightarrow> bool" where
  "x_locked x \<longleftrightarrow> x_smp x \<noteq> None \<or> x_verifying x \<or> (case x of X_empty _ _ _ \<Rightarrow> True | _ \<Rightarrow> False)"

text \<open>The names of the models that count as on the GPU.\<close>

definition gpu_models_of :: "(DeploymentSpec \<times> DeploymentState \<times> bool) list \<Rightarrow> pystr set" where
  "gpu_models_of rs = {n. \<exists>(spec, st, busy) \<in> set rs. n = ds_name spec
     \<and> (busy \<or> st = DeploymentState_GPU \<or> st = DeploymentState_FAILED)}"

definition gpu_models :: "scheduler \<Rightarrow> pystr set" where
  "gpu_models s = gpu_models_of (map dp_res (cs_entries s))"

lemma gpu_models_iff: "n \<in> gpu_models s \<longleftrightarrow> (\<exists>d \<in> set (cs_entries s). n = dp_name d \<and> counts_on_gpu d)"
  by (auto simp: gpu_models_def gpu_models_of_def dp_res_def counts_on_gpu_def)

fun is_perform :: "rpc \<Rightarrow> bool" where
  "is_perform (R_perform a sm) = True"
| "is_perform _ = False"

fun x_covers :: "xpc \<Rightarrow> pystr set \<Rightarrow> bool" where
  "x_covers (X_empty a todo moved) gm = (ac_operation a \<noteq> Op_gpu \<and> gm \<subseteq> insert (ac_deployment a) (set todo))"
| "x_covers _ gm = True"

definition modes :: "scheduler \<Rightarrow> SchedulerMode \<times> lid option \<times> bool \<times> bool option" where
  "modes s = (cs_mode s, cs_exclusive s, cs_exclusive_pending s, cs_drained s)"

text \<open>
  The relation between the lock, the two program counters, the request, the modes of the state,
  whether no local GPU lease is left, and the models on the GPU.
\<close>

definition ctl_rel ::
  "lock_holder \<Rightarrow> rpc \<Rightarrow> xpc \<Rightarrow> xdata \<Rightarrow> SchedulerMode \<times> lid option \<times> bool \<times> bool option
     \<Rightarrow> bool \<Rightarrow> pystr set \<Rightarrow> bool" where
  "ctl_rel lk r x q md no_gpu gm \<longleftrightarrow> (case md of (mode, ex, pending, drained) \<Rightarrow>
     (lk = Lock_refresh \<longleftrightarrow> r \<noteq> R_idle) \<and> (lk = Lock_exclusive \<longleftrightarrow> x_locked x)
     \<and> (x \<noteq> X_off \<longrightarrow> ex = None \<and> request_ok (x_request q) \<and> cr_class (x_request q) = EXCLUSIVE)
     \<and> (pending \<longleftrightarrow> x \<noteq> X_off)
     \<and> (mode \<noteq> SchedulerMode_EXCLUSIVE \<longleftrightarrow> ex = None) \<and> (mode = SchedulerMode_DRAINING \<longleftrightarrow> x_draining x)
     \<and> (drained = None \<longleftrightarrow> x \<noteq> X_drain)
     \<and> (no_gpu \<or> ex = None \<and> (x_draining x \<longrightarrow> x = X_drain \<and> drained \<noteq> Some True))
     \<and> (ex = None \<or> \<not> is_perform r)
     \<and> (gm = {} \<or> ex = None \<and> \<not> x_verifying x)
     \<and> x_covers x gm)"

definition ctl_ok :: "control \<Rightarrow> bool" where
  "ctl_ok c \<longleftrightarrow> sched_ok (ct_s c)
     \<and> ctl_rel (ct_lock c) (ct_r c) (ct_x c) (ct_req c) (modes (ct_s c)) (local_gpu_leases (ct_s c) = [])
         (gpu_models (ct_s c))"

lemma shell_modes: "shell s' = shell s \<Longrightarrow> modes s' = modes s \<and> gpu_models s' = gpu_models s"
  by (simp add: shell_def modes_def gpu_models_def)

lemma x_drain_pc [simp]: "\<not> x_locked X_drain" "x_draining X_drain" "\<not> x_verifying X_drain"
  by (simp_all add: x_locked_def x_draining_def x_verifying_def)

lemma x_off_pc [simp]: "\<not> x_locked X_off" "\<not> x_draining X_off" "\<not> x_verifying X_off"
  by (simp_all add: x_locked_def x_draining_def x_verifying_def)

lemma x_pc [simp]:
  "x_locked (X_first m) \<longleftrightarrow> m \<noteq> None" "\<not> x_draining (X_first m)" "\<not> x_verifying (X_first m)"
  "\<not> x_locked X_room" "\<not> x_draining X_room" "\<not> x_verifying X_room"
  "x_locked (X_room_sample m) \<longleftrightarrow> m \<noteq> None" "\<not> x_draining (X_room_sample m)" "\<not> x_verifying (X_room_sample m)"
  "x_locked (X_drained b m) \<longleftrightarrow> m \<noteq> None" "x_draining (X_drained b m)" "\<not> x_verifying (X_drained b m)"
  "x_locked (X_empty a todo moved)" "x_draining (X_empty a todo moved)" "\<not> x_verifying (X_empty a todo moved)"
  "x_locked (X_verify moved dl sm)" "x_draining (X_verify moved dl sm)" "x_verifying (X_verify moved dl sm)"
  "x_locked (X_freed moved dl g todo)" "x_draining (X_freed moved dl g todo)" "x_verifying (X_freed moved dl g todo)"
  "x_locked (X_verify_sleep moved dl)" "x_draining (X_verify_sleep moved dl)" "x_verifying (X_verify_sleep moved dl)"
  by (simp_all add: x_locked_def x_draining_def x_verifying_def)

lemma ctl_rel_models: "ctl_rel lk r x q md g gm \<Longrightarrow> gm' \<subseteq> gm \<Longrightarrow> ctl_rel lk r x q md g gm'"
  by (cases x) (auto simp: ctl_rel_def split: prod.splits)

lemma ctl_rel_unlocked:
  "ctl_rel lk r x q (mode, None, k) g gm \<Longrightarrow> lk \<noteq> Lock_exclusive \<Longrightarrow> ctl_rel lk r x q (mode, None, k) g gm'"
  by (cases x) (auto simp: ctl_rel_def split: prod.splits)

lemma ctl_ok_public:
  assumes "ctl_ok c" and "public_step (ct_s c) s"
  shows "ctl_ok (c\<lparr>ct_s := s\<rparr>)"
proof -
  let ?s = "ct_s c"
  have ok: "sched_ok ?s" using assms(1) by (simp add: ctl_ok_def)
  note rel = assms(1) [unfolded ctl_ok_def, THEN conjunct2, unfolded ctl_rel_def modes_def, simplified]
  have sok: "sched_ok s" using sched_ok_public [OF assms(2) ok] .
  from public_quiet [OF assms(2) ok] show ?thesis
  proof
    assume q: "quiet ?s s"
    then have eqs: "cs_mode s = cs_mode ?s" "cs_exclusive s = cs_exclusive ?s"
      "cs_exclusive_pending s = cs_exclusive_pending ?s" "gpu_models s = gpu_models ?s"
      by (simp_all add: quiet_def gpu_models_def)
    have dr: "cs_drained s = None \<longleftrightarrow> cs_drained ?s = None"
      using q unfolding quiet_def by (metis option.distinct(1))
    have sub: "local_gpu_leases s = []" if "local_gpu_leases ?s = []" "cs_mode ?s \<noteq> SchedulerMode_NORMAL"
      using q that by (auto simp: quiet_def)
    have set: "cs_drained s = cs_drained ?s \<or> local_gpu_leases s = []" if "cs_mode ?s \<noteq> SchedulerMode_NORMAL"
      using q that by (auto simp: quiet_def)
    have "local_gpu_leases s = [] \<or> cs_exclusive ?s = None \<and>
        (x_draining (ct_x c) \<longrightarrow> ct_x c = X_drain \<and> cs_drained s \<noteq> Some True)"
    proof (cases "cs_mode ?s")
      case SchedulerMode_NORMAL
      with rel show ?thesis by auto
    next
      case SchedulerMode_DRAINING
      with rel sub set show ?thesis by auto
    next
      case SchedulerMode_EXCLUSIVE
      with rel sub set show ?thesis by auto
    qed
    with rel sok show ?thesis by (simp add: ctl_ok_def ctl_rel_def modes_def eqs dr)
  next
    assume e: "ended ?s s"
    then have "ct_x c = X_off" using rel by (auto simp: ended_def)
    moreover from e have "cs_drained s = None \<longleftrightarrow> cs_drained ?s = None" by (auto simp: ended_def)
    ultimately show ?thesis
      using e sok rel by (simp add: ctl_ok_def ctl_rel_def modes_def ended_def)
  qed
qed


section \<open>Refresh keeps the invariant\<close>

text \<open>The state changes, but not its books, line and modes; on the GPU there are no more models than before.\<close>

lemma ctl_ok_same:
  assumes "ctl_ok c" and "core s = core (ct_s c)" "line s = line (ct_s c)" "modes s = modes (ct_s c)"
    and "gpu_models s \<subseteq> gpu_models (ct_s c)"
  shows "ctl_ok (c\<lparr>ct_s := s\<rparr>)"
  using assms sched_ok_keep [of "ct_s c" s] gpu_frame [OF assms(2)]
  by (simp add: ctl_ok_def) (blast intro: ctl_rel_models)

lemma gpu_models_publish: "gpu_models (sample_publish m s) \<subseteq> gpu_models s"
proof
  fix n assume "n \<in> gpu_models (sample_publish m s)"
  moreover have "cs_entries (sample_publish m s) = map (publish_entry m) (cs_entries s)"
    by (simp add: sample_publish_def Let_def)
  ultimately obtain d where "d \<in> set (cs_entries s)" "n = dp_name (publish_entry m d)" "counts_on_gpu (publish_entry m d)"
    by (auto simp: gpu_models_iff)
  then show "n \<in> gpu_models s"
    by (auto simp: gpu_models_iff publish_entry_def reconcile_def counts_on_gpu_def
        split: if_splits option.splits prod.splits)
qed

lemma smp_next_modes:
  assumes "smp_next now i m s = (m', s')"
  shows "modes s' = modes s" "gpu_models s' \<subseteq> gpu_models s"
proof -
  have "modes (sample_publish p s) = modes s" for p by (simp add: sample_publish_def modes_def Let_def)
  moreover have "modes (lose_sample s) = modes s \<and> gpu_models (lose_sample s) = gpu_models s"
    by (rule shell_modes) simp
  moreover have "modes (snd (observe_unit now n a s)) = modes s \<and> gpu_models (snd (observe_unit now n a s)) = gpu_models s" for n a
    by (rule shell_modes) simp
  ultimately have "modes s' = modes s \<and> gpu_models s' \<subseteq> gpu_models s"
    using assms gpu_models_publish [of _ s]
    by (auto simp: smp_next_def sample_read_def sample_inspect_def Let_def
        split: smp.splits option.splits if_splits prod.splits list.splits)
  then show "modes s' = modes s" "gpu_models s' \<subseteq> gpu_models s" by simp_all
qed

lemma ctl_ok_smp: "ctl_ok c \<Longrightarrow> smp_next now i m (ct_s c) = (m', s) \<Longrightarrow> ctl_ok (c\<lparr>ct_s := s\<rparr>)"
  using smp_next_modes [of now i m "ct_s c" m' s] by (intro ctl_ok_same) auto

lemma ctl_ok_shell:
  "ctl_ok c \<Longrightarrow> core s = core (ct_s c) \<Longrightarrow> line s = line (ct_s c) \<Longrightarrow> shell s = shell (ct_s c) \<Longrightarrow> ctl_ok (c\<lparr>ct_s := s\<rparr>)"
  using shell_modes [of s "ct_s c"] by (intro ctl_ok_same) auto

lemma ctl_ok_lock: "ctl_ok c \<Longrightarrow> ct_r c \<noteq> R_idle \<Longrightarrow> ct_lock c = Lock_refresh"
  by (auto simp: ctl_ok_def ctl_rel_def split: prod.splits)

lemma ctl_ok_pc:
  "ctl_ok c \<Longrightarrow> ct_r c \<noteq> R_idle \<Longrightarrow> r \<noteq> R_idle \<Longrightarrow> cs_exclusive (ct_s c) = None \<or> \<not> is_perform r
    \<Longrightarrow> ctl_ok (c\<lparr>ct_r := r\<rparr>)"
  by (auto simp: ctl_ok_def ctl_rel_def modes_def)

lemma pump_modes [simp]: "modes (pump now s) = modes s" "gpu_models (pump now s) = gpu_models s"
  using shell_modes [of "pump now s" s] by simp_all

lemma ctl_ok_pump: "ctl_ok c \<Longrightarrow> ctl_ok (c\<lparr>ct_s := pump now (ct_s c)\<rparr>)"
proof -
  assume ok: "ctl_ok c"
  then have s: "sched_ok (ct_s c)"
    and rel: "ctl_rel (ct_lock c) (ct_r c) (ct_x c) (ct_req c) (modes (ct_s c)) (local_gpu_leases (ct_s c) = []) (gpu_models (ct_s c))"
    by (simp_all add: ctl_ok_def)
  have "ctl_rel (ct_lock c) (ct_r c) (ct_x c) (ct_req c) (modes (ct_s c)) (local_gpu_leases (pump now (ct_s c)) = []) (gpu_models (ct_s c))"
  proof (cases "cs_mode (ct_s c) = SchedulerMode_NORMAL")
    case True
    with rel show ?thesis by (auto simp: ctl_rel_def modes_def)
  next
    case False
    from gpu_pump [OF s False, of now] have "local_gpu_leases (pump now (ct_s c)) = [] \<longleftrightarrow> local_gpu_leases (ct_s c) = []"
      by (metis set_empty)
    with rel show ?thesis by simp
  qed
  with sched_ok_pump [OF s] show ?thesis by (simp add: ctl_ok_def)
qed

lemma ctl_ok_unlock_refresh: "ctl_ok c \<Longrightarrow> ct_r c \<noteq> R_idle \<Longrightarrow> ctl_ok (c\<lparr>ct_lock := Lock_free, ct_r := R_idle\<rparr>)"
  by (auto simp: ctl_ok_def ctl_rel_def modes_def)

lemma ctl_ok_done: "ctl_ok c \<Longrightarrow> ct_r c \<noteq> R_idle \<Longrightarrow> ctl_ok (refresh_done now c)"
  using ctl_ok_unlock_refresh [OF ctl_ok_pump [of c now]] by (simp add: refresh_done_def)

text \<open>A model action of \<^verbatim>\<open>refresh\<close>: the lock keeps the Exclusive coroutine out.\<close>

lemma ctl_ok_act:
  assumes "ctl_ok c" and "ct_r c \<noteq> R_idle" and "cs_exclusive (ct_s c) = None"
    and "core s = core (ct_s c)" "line s = line (ct_s c)" "modes s = modes (ct_s c)"
  shows "ctl_ok (c\<lparr>ct_s := s\<rparr>)"
proof -
  have "sched_ok s" using assms(1) sched_ok_keep assms(4,5) by (auto simp: ctl_ok_def)
  moreover have "ctl_rel (ct_lock c) (ct_r c) (ct_x c) (ct_req c) (modes (ct_s c)) (local_gpu_leases (ct_s c) = []) (gpu_models s)"
    using assms(1,3) ctl_ok_lock [OF assms(1,2)]
      ctl_rel_unlocked [of "ct_lock c" "ct_r c" "ct_x c" "ct_req c" "cs_mode (ct_s c)"]
    by (auto simp: ctl_ok_def modes_def)
  ultimately show ?thesis using assms(6) gpu_frame [OF assms(4)] by (simp add: ctl_ok_def)
qed

lemma modes_perform [simp]:
  "modes (perform_begin a s) = modes s" "modes (perform_end now a out s) = modes s"
proof -
  have u: "modes (upd_entry n f s) = modes s" for n f s by (simp add: upd_entry_def modes_def)
  show "modes (perform_begin a s) = modes s" by (simp add: perform_begin_def u)
  have "modes (run_after af s) = modes s" for af s using shell_modes [of "run_after af s" s] by simp
  then show "modes (perform_end now a out s) = modes s" by (simp add: perform_end_def u Let_def)
qed

lemma ctl_ok_perform_end:
  assumes "ctl_ok c" and "ct_r c = R_perform a sm"
  shows "ctl_ok (c\<lparr>ct_s := perform_end now ac out (ct_s c)\<rparr>)"
proof -
  have "cs_exclusive (ct_s c) = None" using assms by (simp add: ctl_ok_def ctl_rel_def modes_def)
  then show ?thesis using assms(2) by (intro ctl_ok_act [OF assms(1)]) simp_all
qed

lemma ctl_ok_refresh_sampled:
  assumes "ctl_ok c" and "ct_r c \<noteq> R_idle"
  shows "ctl_ok (refresh_sampled now c)"
proof (cases "cs_mode (ct_s c) = SchedulerMode_NORMAL \<and> fresh now (ct_s c)")
  case True
  obtain a s1 where d: "sched_decide now (ct_s c) = (a, s1)" by (cases "sched_decide now (ct_s c)")
  then have s1: "core s1 = core (ct_s c)" "line s1 = line (ct_s c)" "shell s1 = shell (ct_s c)"
    using core_decide [of now "ct_s c"] line_decide [of now "ct_s c"] shell_decide [of now "ct_s c"] by simp_all
  have c1: "ctl_ok (c\<lparr>ct_s := s1\<rparr>)" using s1 by (intro ctl_ok_shell [OF assms(1)]) simp_all
  show ?thesis
  proof (cases a)
    case None
    with True d c1 assms(2) show ?thesis by (simp add: refresh_sampled_def Let_def ctl_ok_done)
  next
    case (Some ac)
    have "cs_exclusive (ct_s c) = None" using assms(1) True by (auto simp: ctl_ok_def ctl_rel_def modes_def)
    then have ex1: "cs_exclusive s1 = None" using s1(3) by (simp add: shell_def)
    have "ctl_ok ((c\<lparr>ct_s := s1\<rparr>)\<lparr>ct_s := perform_begin ac s1\<rparr>)"
      using assms(2) ex1 by (intro ctl_ok_act [OF c1]) simp_all
    then have "ctl_ok (((c\<lparr>ct_s := s1\<rparr>)\<lparr>ct_s := perform_begin ac s1\<rparr>)\<lparr>ct_r := R_perform ac None\<rparr>)"
      using assms(2) ex1 modes_perform(1) [of ac s1] by (intro ctl_ok_pc) (simp_all add: modes_def)
    with True d Some show ?thesis by (simp add: refresh_sampled_def Let_def)
  qed
qed (use assms in \<open>auto simp: refresh_sampled_def Let_def ctl_ok_done\<close>)


section \<open>The Exclusive coroutine keeps the invariant\<close>

text \<open>What holds of a running Exclusive request between two program counters.\<close>

definition asking :: "control \<Rightarrow> bool" where
  "asking c \<longleftrightarrow> sched_ok (ct_s c) \<and> (ct_lock c = Lock_refresh \<longleftrightarrow> ct_r c \<noteq> R_idle)
     \<and> cs_exclusive (ct_s c) = None \<and> cs_drained (ct_s c) = None \<and> cs_exclusive_pending (ct_s c)
     \<and> request_ok (x_request (ct_req c)) \<and> cr_class (x_request (ct_req c)) = EXCLUSIVE"

lemma ctl_asking: "ctl_ok c \<Longrightarrow> ct_x c \<noteq> X_off \<Longrightarrow> ct_x c \<noteq> X_drain \<Longrightarrow> asking c"
  by (simp add: ctl_ok_def ctl_rel_def asking_def modes_def)

lemma sched_ok_mode: "sched_ok s \<Longrightarrow> sched_ok (set_mode m s)"
  by (erule sched_ok_keep) simp_all

lemma modes_set_mode [simp]: "modes (set_mode m s) = (m, snd (modes s))"
  by (simp add: set_mode_def modes_def)

lemma ctl_ok_fail:
  assumes "sched_ok (ct_s c)" and "ct_lock c = Lock_refresh \<longleftrightarrow> ct_r c \<noteq> R_idle"
    and "cs_exclusive (ct_s c) = None" and "cs_drained (ct_s c) = None"
  shows "ctl_ok (excl_fail now c)"
proof -
  let ?p = "pump now (set_mode SchedulerMode_NORMAL (ct_s c))"
  let ?q = "?p\<lparr>cs_exclusive_pending := False, cs_exclusive_waits := False\<rparr>"
  have "sched_ok ?p" using assms(1) by (intro sched_ok_pump sched_ok_mode)
  then have ok: "sched_ok ?q" by (rule sched_ok_keep) simp_all
  have "modes ?p = (SchedulerMode_NORMAL, None, cs_exclusive_pending (ct_s c), None)"
    using assms(3,4) by (simp add: modes_def [of "ct_s c"])
  then have "modes ?q = (SchedulerMode_NORMAL, None, False, None)" by (simp add: modes_def)
  with ok assms(2) show ?thesis
    by (auto simp: ctl_ok_def ctl_rel_def excl_fail_def unlock_def)
qed

lemma asking_fail: "asking c \<Longrightarrow> ctl_ok (excl_fail now c)"
  by (rule ctl_ok_fail) (auto simp: asking_def)

lemma asking_state:
  assumes "asking c" and "core s = core (ct_s c)" "line s = line (ct_s c)" "snd (modes s) = snd (modes (ct_s c))"
  shows "asking (c\<lparr>ct_s := s\<rparr>)"
  using assms sched_ok_keep [of "ct_s c" s] by (simp add: asking_def modes_def)

lemma asking_unlock:
  assumes "asking c" and "ct_lock c = Lock_exclusive \<longrightarrow> ct_r c = R_idle"
  shows "asking (unlock c)" "ct_lock (unlock c) \<noteq> Lock_exclusive" "ct_s (unlock c) = ct_s c" "ct_req (unlock c) = ct_req c"
  using assms by (simp_all add: asking_def unlock_def)

lemma modes_emit [simp]: "modes (warn_exclusive now r g s) = modes s"
  using shell_modes [of "warn_exclusive now r g s" s] by simp

lemma modes_waits [simp]: "modes (s\<lparr>cs_exclusive_waits := b\<rparr>) = modes s"
  by (simp add: modes_def)

lemma ctl_ok_begin_drain:
  assumes "asking c" and "ct_lock c \<noteq> Lock_exclusive"
  shows "ctl_ok (excl_begin_drain now c)"
proof -
  let ?s = "set_mode SchedulerMode_DRAINING ((ct_s c)\<lparr>cs_exclusive_waits := False\<rparr>)"
  have s0: "sched_ok (ct_s c)" using assms(1) by (simp add: asking_def)
  have ok: "sched_ok ?s" by (rule sched_ok_keep [OF s0]) simp_all
  have ok': "sched_ok (?s\<lparr>cs_drained := Some False\<rparr>)" by (rule sched_ok_keep [OF s0]) simp_all
  have md: "modes ?s = (SchedulerMode_DRAINING, None, True, None)"
    using assms(1) by (simp add: asking_def modes_def [of "ct_s c"])
  then have md': "modes (?s\<lparr>cs_drained := Some False\<rparr>) = (SchedulerMode_DRAINING, None, True, Some False)"
    by (simp add: modes_def)
  show ?thesis
    using assms ok ok' md md'
    by (auto simp: excl_begin_drain_def Let_def ctl_ok_def ctl_rel_def asking_def)
qed

lemma ctl_ok_room:
  assumes "asking c" and "ct_lock c \<noteq> Lock_exclusive" and "cs_mode (ct_s c) = SchedulerMode_NORMAL"
  shows "ctl_ok (snd (excl_room now c))"
proof -
  have wait: "ctl_ok (c\<lparr>ct_s := s, ct_x := X_room\<rparr>)" "ctl_ok (excl_fail now (c\<lparr>ct_s := s\<rparr>))"
    if "core s = core (ct_s c)" "line s = line (ct_s c)" "modes s = modes (ct_s c)" for s
  proof -
    have a: "asking (c\<lparr>ct_s := s\<rparr>)" using that by (intro asking_state [OF assms(1)]) simp_all
    then show "ctl_ok (excl_fail now (c\<lparr>ct_s := s\<rparr>))" by (rule asking_fail)
    have "modes s = (SchedulerMode_NORMAL, None, True, None)"
      using that(3) assms(1,3) by (simp add: asking_def modes_def)
    with a assms(2) show "ctl_ok (c\<lparr>ct_s := s, ct_x := X_room\<rparr>)"
      by (simp add: ctl_ok_def ctl_rel_def asking_def)
  qed
  show ?thesis
    using assms ctl_ok_begin_drain wait by (simp add: excl_room_def Let_def)
qed

lemma ctl_ok_first_sampled:
  assumes "asking c" and "ct_lock c = Lock_exclusive \<longrightarrow> ct_r c = R_idle" and "cs_mode (ct_s c) = SchedulerMode_NORMAL"
  shows "ctl_ok (snd (excl_first_sampled now c))" "ctl_ok (snd (excl_room_sampled now c))"
proof -
  note u = asking_unlock [OF assms(1,2)]
  have room: "ctl_ok (snd (excl_room now (unlock c)))" using u assms(3) by (intro ctl_ok_room) simp_all
  then show "ctl_ok (snd (excl_first_sampled now c))"
    using asking_fail [OF u(1)] by (simp add: excl_first_sampled_def Let_def)
  have "asking ((unlock c)\<lparr>ct_s := warn_exclusive now r True (ct_s c)\<rparr>)" for r
    using u by (intro asking_state [OF u(1)]) simp_all
  with room asking_fail show "ctl_ok (snd (excl_room_sampled now c))"
    by (simp add: excl_room_sampled_def Let_def)
qed


text \<open>The Exclusive request has the lock and the GPU has drained.\<close>

definition emptying :: "control \<Rightarrow> bool" where
  "emptying c \<longleftrightarrow> asking c \<and> ct_lock c = Lock_exclusive \<and> ct_r c = R_idle
     \<and> cs_mode (ct_s c) = SchedulerMode_DRAINING \<and> local_gpu_leases (ct_s c) = []"

lemma emptying_rel:
  assumes "emptying c" and "x_locked x" "x_draining x" "x \<noteq> X_drain" "x \<noteq> X_off"
    and "x_verifying x \<Longrightarrow> gpu_models (ct_s c) = {}" and "x_covers x (gpu_models (ct_s c))"
  shows "ctl_ok (c\<lparr>ct_x := x\<rparr>)"
  using assms by (auto simp: emptying_def asking_def ctl_ok_def ctl_rel_def modes_def)

lemma emptying_state:
  assumes "emptying c" and "core s = core (ct_s c)" "line s = line (ct_s c)" "modes s = modes (ct_s c)"
  shows "emptying (c\<lparr>ct_s := s\<rparr>)"
  using assms asking_state [of c s] gpu_frame [OF assms(2)] by (simp add: emptying_def modes_def)

lemma emptying_asking: "emptying c \<Longrightarrow> asking c"
  by (simp add: emptying_def)

lemma gpu_models_perform_begin: "gpu_models (perform_begin a s) \<subseteq> insert (ac_deployment a) (gpu_models s)"
  by (auto simp: gpu_models_iff perform_begin_def upd_entry_def split: if_splits)

lemma gpu_models_performed:
  assumes "op_state (ac_operation a) \<noteq> DeploymentState_GPU"
  shows "gpu_models (perform_end now a Done s) \<subseteq> gpu_models s - {ac_deployment a}"
proof -
  have "gpu_models (run_after af z) = gpu_models z" for af z using shell_modes [of "run_after af z" z] by simp
  moreover have "op_state (ac_operation a) \<noteq> DeploymentState_FAILED" by (cases "ac_operation a") simp_all
  ultimately show ?thesis
    using assms by (auto simp: perform_end_def Let_def gpu_models_iff upd_entry_def action_done_def counts_on_gpu_def
        split: if_splits)
qed

lemma modes_displaced: "modes (upd_entry n (dp_displaced_update f) s) = modes s"
  "gpu_models (upd_entry n (dp_displaced_update f) s) = gpu_models s"
  using shell_modes [of "upd_entry n (dp_displaced_update f) s" s] by (simp_all add: shell_upd_entry)

lemma ctl_ok_empty:
  assumes "emptying c" and "gpu_models (ct_s c) \<subseteq> set todo"
  shows "ctl_ok (excl_empty now todo moved c)"
  using assms
proof (induction now todo moved c rule: excl_empty.induct)
  case (1 now moved c)
  then show ?case by (auto intro!: emptying_rel)
next
  case (2 now name rest moved c)
  show ?case
  proof (cases "entry_of (ct_s c) name")
    case None
    then have "name \<notin> gpu_models (ct_s c)" by (auto simp: gpu_models_iff entry_of_def find_None_iff)
    with 2 None show ?thesis by auto
  next
    case (Some d)
    have books: "books (ct_s c)" using 2(3) by (simp add: emptying_def asking_def sched_ok_def)
    show ?thesis
    proof (cases "counts_on_gpu d")
      case False
      have "name \<notin> gpu_models (ct_s c)"
      proof
        assume "name \<in> gpu_models (ct_s c)"
        then obtain d' where "d' \<in> set (cs_entries (ct_s c))" "name = dp_name d'" "counts_on_gpu d'"
          by (auto simp: gpu_models_iff)
        with books_entry_of [OF books, of d'] Some False show False by simp
      qed
      with 2 Some False show ?thesis by auto
    next
      case True
      define a where "a = \<lparr>ac_deployment = name, ac_operation = move_off (dp_spec d), ac_then = After_none\<rparr>"
      define s where "s = perform_begin a (upd_entry name (dp_displaced_update (\<lambda>_. False)) (ct_s c))"
      have "emptying (c\<lparr>ct_s := s\<rparr>)"
        by (rule emptying_state [OF 2(3)]) (simp_all add: s_def core_upd_entry modes_displaced)
      moreover have "gpu_models s \<subseteq> insert name (set rest)"
        using gpu_models_perform_begin [of a "upd_entry name (dp_displaced_update (\<lambda>_. False)) (ct_s c)"] 2(4)
        by (simp add: s_def modes_displaced) (auto simp: a_def)
      ultimately have "ctl_ok ((c\<lparr>ct_s := s\<rparr>)\<lparr>ct_x := X_empty a rest (moved @ [name])\<rparr>)"
        by (intro emptying_rel) (auto simp: a_def move_off_def)
      with Some True show ?thesis by (simp add: s_def a_def Let_def)
    qed
  qed
qed

lemma exclusive_order_all: "gpu_models s \<subseteq> set (exclusive_order s)"
  by (auto simp: gpu_models_iff exclusive_order_def ordered_def)

lemma ctl_ok_drained_sampled:
  assumes "emptying c"
  shows "ctl_ok (snd (excl_drained_sampled now b c))"
proof -
  have ask: "asking c" and idle: "ct_r c = R_idle" using assms by (simp_all add: emptying_def)
  note u = asking_unlock [OF ask] idle
  have warn: "asking (c\<lparr>ct_s := warn_exclusive now r True (ct_s c)\<rparr>)" for r
    by (rule asking_state [OF ask]) simp_all
  have again: "ctl_ok (snd (excl_room now ((unlock c)\<lparr>ct_req := x, ct_s := pump now (set_mode SchedulerMode_NORMAL (ct_s c))\<rparr>)))"
    if "x_request x = x_request (ct_req c)" for x
  proof (rule ctl_ok_room)
    let ?p = "pump now (set_mode SchedulerMode_NORMAL (ct_s c))"
    have "sched_ok ?p" using ask by (intro sched_ok_pump sched_ok_mode) (simp add: asking_def)
    moreover have "modes ?p = (SchedulerMode_NORMAL, None, True, None)"
      using ask by (simp add: asking_def modes_def [of "ct_s c"])
    ultimately show "asking ((unlock c)\<lparr>ct_req := x, ct_s := ?p\<rparr>)"
      "cs_mode (ct_s ((unlock c)\<lparr>ct_req := x, ct_s := ?p\<rparr>)) = SchedulerMode_NORMAL"
      using ask that u by (simp_all add: asking_def modes_def)
    show "ct_lock ((unlock c)\<lparr>ct_req := x, ct_s := ?p\<rparr>) \<noteq> Lock_exclusive" by (simp add: unlock_def)
  qed
  show ?thesis
    using ctl_ok_empty [OF assms exclusive_order_all] asking_fail [OF ask] asking_fail [OF warn] again
    by (auto simp: excl_drained_sampled_def Let_def split: option.splits)
qed

lemma ctl_ok_not_freed:
  "emptying c \<Longrightarrow> gpu_models (ct_s c) = {} \<Longrightarrow> ctl_ok (snd (excl_not_freed now moved deadline c))"
  by (auto simp: excl_not_freed_def intro!: asking_fail emptying_asking emptying_rel)

lemma ctl_ok_grant:
  assumes "emptying c" and "gpu_models (ct_s c) = {}"
  shows "ctl_ok (excl_grant now c)"
proof -
  let ?g = "grant_exclusive now (x_request (ct_req c)) (ct_s c)"
  let ?s = "(set_mode SchedulerMode_EXCLUSIVE ?g)\<lparr>cs_exclusive_pending := False, cs_exclusive_waits := False\<rparr>"
  have "sched_ok ?g" using assms(1) by (intro sched_ok_grant_exclusive) (simp_all add: emptying_def asking_def)
  then have ok: "sched_ok ?s" by (rule sched_ok_keep) simp_all
  have md: "modes ?s = (SchedulerMode_EXCLUSIVE, Some (cs_next_lease (ct_s c)), False, None)"
    using assms(1) by (simp add: modes_def set_mode_def grant_exclusive_def alloc_lease_def emptying_def asking_def)
  have "set (local_gpu_leases ?s) = set (local_gpu_leases (ct_s c))"
  proof -
    let ?y = "erase (new_lease now (x_request (ct_req c)) LOCAL_GPU 0)"
    have core: "core ?s = (map bk (cs_entries (ct_s c)), (ledger (ct_s c))(cs_next_lease (ct_s c) \<mapsto> ?y),
        Suc (cs_next_lease (ct_s c)), Some (cs_next_lease (ct_s c)), cs_cloud (ct_s c))"
      by simp (simp add: core_def grant_exclusive_def)
    have k: "books_of (core (ct_s c))" using assms(1) by (simp add: emptying_def asking_def sched_ok_def books_def)
    have "cs_next_lease (ct_s c) \<notin> set (fst (snd (bk d)))" if "d \<in> set (cs_entries (ct_s c))" for d
      using book_member [OF k [unfolded core_def], of "bk d"] that by auto
    then show ?thesis unfolding gpu_core core by (auto simp: gpu_of_def core_def split: if_splits)
  qed
  then have "local_gpu_leases ?s = []" using assms(1) by (simp add: emptying_def)
  moreover have "gpu_models ?s = {}"
    using assms(2) by (simp add: gpu_models_def set_mode_def grant_exclusive_def alloc_lease_def)
  ultimately show ?thesis
    using ok md assms(1) by (simp add: excl_grant_def unlock_def emptying_def ctl_ok_def ctl_rel_def)
qed


lemma ctl_ok_freed_end:
  "emptying c \<Longrightarrow> gpu_models (ct_s c) = {} \<Longrightarrow> ctl_ok (snd (excl_freed_end now moved deadline c))"
  by (simp add: excl_freed_end_def ctl_ok_grant ctl_ok_not_freed)

lemma ctl_ok_verify_sampled:
  "emptying c \<Longrightarrow> gpu_models (ct_s c) = {} \<Longrightarrow> ctl_ok (snd (excl_verify_sampled now moved deadline c))"
  by (auto simp: excl_verify_sampled_def Let_def ctl_ok_freed_end ctl_ok_not_freed intro!: emptying_rel)

lemma ctl_ok_asked:
  "emptying c \<Longrightarrow> gpu_models (ct_s c) = {} \<Longrightarrow> ctl_ok (snd (excl_asked now moved deadline g n rest answer c))"
  by (auto simp: excl_asked_def ctl_ok_not_freed intro!: emptying_rel split: option.splits)

lemma ctl_ok_performed:
  assumes "emptying c" and "gpu_models (ct_s c) \<subseteq> insert (ac_deployment a) (set todo)" and "ac_operation a \<noteq> Op_gpu"
  shows "ctl_ok (snd (excl_performed now a todo moved out c))"
proof -
  let ?c = "c\<lparr>ct_s := perform_end now a out (ct_s c)\<rparr>"
  have e: "emptying ?c" by (rule emptying_state [OF assms(1)]) simp_all
  show ?thesis
  proof (cases "out = Done")
    case True
    have "op_state (ac_operation a) \<noteq> DeploymentState_GPU" using assms(3) by (cases "ac_operation a") simp_all
    from gpu_models_performed [OF this, of now "ct_s c"] assms(2) True have "gpu_models (ct_s ?c) \<subseteq> set todo" by auto
    with ctl_ok_empty [OF e] True show ?thesis by (simp add: excl_performed_def)
  next
    case False
    with asking_fail [OF emptying_asking [OF e]] show ?thesis by (simp add: excl_performed_def)
  qed
qed

lemma ctl_ok_drain_ended:
  assumes "ctl_ok c" and "ct_x c = X_drain" and "b \<Longrightarrow> cs_drained (ct_s c) = Some True"
  shows "ctl_ok (snd (excl_drain_ended now b c))"
proof -
  let ?c = "c\<lparr>ct_s := (ct_s c)\<lparr>cs_drained := None\<rparr>\<rparr>"
  have s: "sched_ok (ct_s c)"
    and rel: "ctl_rel (ct_lock c) (ct_r c) X_drain (ct_req c) (modes (ct_s c)) (local_gpu_leases (ct_s c) = []) (gpu_models (ct_s c))"
    using assms(1,2) by (simp_all add: ctl_ok_def)
  have ok: "sched_ok ((ct_s c)\<lparr>cs_drained := None\<rparr>)" by (rule sched_ok_keep [OF s]) simp_all
  have lg: "local_gpu_leases ((ct_s c)\<lparr>cs_drained := None\<rparr>) = [] \<longleftrightarrow> local_gpu_leases (ct_s c) = []"
    by (rule gpu_frame) simp
  show ?thesis
  proof (cases b)
    case True
    with assms(3) rel have "local_gpu_leases (ct_s c) = []" by (simp add: ctl_rel_def modes_def)
    with rel ok lg True show ?thesis
      by (simp add: excl_drain_ended_def ctl_ok_def ctl_rel_def modes_def)
  next
    case False
    have "ctl_ok (excl_fail now ?c)"
      using rel ok by (intro ctl_ok_fail) (simp_all add: ctl_rel_def modes_def)
    with False show ?thesis by (simp add: excl_drain_ended_def)
  qed
qed

lemma ctl_emptying:
  "ctl_ok c \<Longrightarrow> x_locked (ct_x c) \<Longrightarrow> x_draining (ct_x c) \<Longrightarrow> emptying c \<and> x_covers (ct_x c) (gpu_models (ct_s c))
    \<and> (x_verifying (ct_x c) \<longrightarrow> gpu_models (ct_s c) = {})"
  by (cases "ct_x c = X_drain"; cases "ct_x c = X_off") (auto simp: emptying_def asking_def ctl_ok_def ctl_rel_def modes_def)

lemma ctl_ok_sampled:
  assumes "ctl_ok c" and "x_smp (ct_x c) = Some m"
  shows "ctl_ok (snd (x_sampled now c))"
proof -
  have idle: "ct_lock c = Lock_exclusive" "ct_r c = R_idle" "ct_x c \<noteq> X_off" "ct_x c \<noteq> X_drain"
    using assms by (auto simp: ctl_ok_def ctl_rel_def x_locked_def modes_def)
  have ask: "asking c" using ctl_asking [OF assms(1)] idle by blast
  have locked: "x_locked (ct_x c)" using assms(2) by (simp add: x_locked_def)
  have normal: "cs_mode (ct_s c) = SchedulerMode_NORMAL" if "\<not> x_draining (ct_x c)"
  proof (cases "cs_mode (ct_s c)")
    case SchedulerMode_EXCLUSIVE
    with assms(1) idle(3) show ?thesis by (auto simp: ctl_ok_def ctl_rel_def modes_def)
  next
    case SchedulerMode_DRAINING
    with assms(1) that show ?thesis by (simp add: ctl_ok_def ctl_rel_def modes_def)
  qed
  show ?thesis
  proof (cases "ct_x c")
    case (X_first x)
    with ctl_ok_first_sampled [OF ask] idle normal show ?thesis by (simp add: x_sampled_def)
  next
    case (X_room_sample x)
    with ctl_ok_first_sampled [OF ask] idle normal show ?thesis by (simp add: x_sampled_def)
  next
    case (X_drained b x)
    with ctl_emptying [OF assms(1) locked] ctl_ok_drained_sampled show ?thesis by (simp add: x_sampled_def)
  next
    case (X_verify moved dl x)
    with ctl_emptying [OF assms(1) locked] ctl_ok_verify_sampled show ?thesis by (simp add: x_sampled_def)
  qed (use assms(2) in auto)
qed


lemma ctl_ok_x_with:
  assumes "ctl_ok c" and "x_smp (ct_x c) = Some m"
  shows "ctl_ok (c\<lparr>ct_x := x_with m' (ct_x c)\<rparr>)"
  using assms by (cases "ct_x c") (auto simp: ctl_ok_def ctl_rel_def modes_def)

lemma ctl_ok_x_lock:
  assumes "ctl_ok c" and "x_wants_lock (ct_x c)" and "ct_lock c = Lock_free"
  shows "ctl_ok (c\<lparr>ct_lock := Lock_exclusive, ct_x := x_with m (ct_x c)\<rparr>)"
  using assms(2,1,3) unfolding x_wants_lock_def
  by (elim disjE) (simp_all add: ctl_ok_def ctl_rel_def modes_def)

lemma ctl_ok_start:
  assumes "ctl_ok c" and "request_ok r" "cr_class r = EXCLUSIVE" and "excl_start now r wait drain c = (Inr (), c')"
  shows "ctl_ok c'"
proof -
  have start: "cs_mode (ct_s c) = SchedulerMode_NORMAL" "\<not> cs_exclusive_pending (ct_s c)"
    and c': "c' = c\<lparr>ct_s := (ct_s c)\<lparr>cs_exclusive_pending := True\<rparr>, ct_x := X_first None, ct_req := ct_req c'\<rparr>"
      "x_request (ct_req c') = r"
    using assms(4) by (auto simp: excl_start_def Let_def split: if_splits)
  let ?s = "(ct_s c)\<lparr>cs_exclusive_pending := True\<rparr>"
  have sok: "sched_ok (ct_s c)"
    and rel: "ctl_rel (ct_lock c) (ct_r c) (ct_x c) (ct_req c) (modes (ct_s c)) (local_gpu_leases (ct_s c) = []) (gpu_models (ct_s c))"
    using assms(1) by (simp_all add: ctl_ok_def)
  have ok: "sched_ok ?s" by (rule sched_ok_keep [OF sok]) simp_all
  from rel start have off: "ct_x c = X_off" "cs_exclusive (ct_s c) = None" by (auto simp: ctl_rel_def modes_def)
  from rel off have lk: "ct_lock c = Lock_refresh \<longleftrightarrow> ct_r c \<noteq> R_idle" "ct_lock c \<noteq> Lock_exclusive"
    "cs_drained (ct_s c) = None" by (simp_all add: ctl_rel_def modes_def)
  have "ctl_ok (c\<lparr>ct_s := ?s, ct_x := X_first None, ct_req := ct_req c'\<rparr>)"
    using ok lk off start c'(2) assms(2,3) by (simp add: ctl_ok_def ctl_rel_def modes_def)
  then show ?thesis by (subst c'(1))
qed

lemma ctl_ok_x_cancel:
  assumes "ctl_ok c" and "ct_x c \<noteq> X_off"
  shows "ctl_ok (excl_cancel now c)"
proof (cases "ct_x c = X_drain")
  case True
  from ctl_ok_drain_ended [OF assms(1) True, of False now] True show ?thesis
    by (simp add: excl_cancel_def excl_drain_ended_def)
next
  case False
  have ask: "asking c" by (rule ctl_asking [OF assms False])
  have "asking (c\<lparr>ct_s := perform_end now a Aborted (ct_s c)\<rparr>)" for a
    by (rule asking_state [OF ask]) simp_all
  with ask False show ?thesis by (auto simp: excl_cancel_def intro!: asking_fail split: xpc.splits)
qed

lemma ctl_ok_step: "cstep c c' \<Longrightarrow> ctl_ok c \<Longrightarrow> ctl_ok c'"
proof (induction rule: cstep.induct)
  case (public c s)
  then show ?case by (blast intro: ctl_ok_public)
next
  case (r_begin c)
  then show ?case by (auto simp: ctl_ok_def ctl_rel_def modes_def)
next
  case (r_sample c m now i m' s)
  then have "ctl_ok ((c\<lparr>ct_s := s\<rparr>)\<lparr>ct_r := R_sample m'\<rparr>)" by (intro ctl_ok_pc ctl_ok_smp) auto
  then show ?case by simp
next
  case (r_sampled c m now i s now')
  then show ?case by (intro ctl_ok_refresh_sampled ctl_ok_smp) auto
next
  case (p_observe c a sm now answer)
  show ?case by (rule ctl_ok_shell [OF p_observe(3)]) simp_all
next
  case (p_again c a)
  then have "cs_exclusive (ct_s c) = None" by (simp add: ctl_ok_def ctl_rel_def modes_def)
  with p_again show ?case by (intro ctl_ok_pc) simp_all
next
  case (p_sample c a m now i m' s)
  then have "cs_exclusive (ct_s c) = None" by (simp add: ctl_ok_def ctl_rel_def modes_def)
  with smp_next_modes(1) [OF p_sample(2)] have "cs_exclusive s = None" by (simp add: modes_def)
  with p_sample have "ctl_ok ((c\<lparr>ct_s := s\<rparr>)\<lparr>ct_r := R_perform a (Some m')\<rparr>)" by (intro ctl_ok_pc ctl_ok_smp) auto
  then show ?case by simp
next
  case (p_sampled c a m now i s now')
  then have "cs_exclusive (ct_s c) = None" by (simp add: ctl_ok_def ctl_rel_def modes_def)
  with smp_next_modes(1) [OF p_sampled(2)] pump_modes(1) [of now' s] have "cs_exclusive (pump now' s) = None"
    by (simp add: modes_def)
  moreover have "ctl_ok ((c\<lparr>ct_s := s\<rparr>)\<lparr>ct_s := pump now' (ct_s (c\<lparr>ct_s := s\<rparr>))\<rparr>)"
    using p_sampled by (intro ctl_ok_pump ctl_ok_smp)
  ultimately have "ctl_ok (((c\<lparr>ct_s := s\<rparr>)\<lparr>ct_s := pump now' s\<rparr>)\<lparr>ct_r := R_perform a None\<rparr>)"
    using p_sampled(1) by (intro ctl_ok_pc) simp_all
  then show ?case by simp
next
  case (p_end c a out now' now)
  then show ?case by (intro ctl_ok_done ctl_ok_perform_end) auto
next
  case (p_end_sampling c a m out now)
  then have "ctl_ok ((c\<lparr>ct_s := perform_end now a out (ct_s c)\<rparr>)\<lparr>ct_r := R_finish m\<rparr>)"
    by (intro ctl_ok_pc ctl_ok_perform_end) auto
  then show ?case by simp
next
  case (f_sample c m now i m' s)
  then have "ctl_ok ((c\<lparr>ct_s := s\<rparr>)\<lparr>ct_r := R_finish m'\<rparr>)" by (intro ctl_ok_pc ctl_ok_smp) auto
  then show ?case by simp
next
  case (f_sampled c m now i s now'' now')
  then have "ctl_ok ((c\<lparr>ct_s := s\<rparr>)\<lparr>ct_s := pump now' (ct_s (c\<lparr>ct_s := s\<rparr>))\<rparr>)" by (intro ctl_ok_pump ctl_ok_smp)
  then have "ctl_ok (refresh_done now'' ((c\<lparr>ct_s := s\<rparr>)\<lparr>ct_s := pump now' (ct_s (c\<lparr>ct_s := s\<rparr>))\<rparr>))"
    using f_sampled(1) by (intro ctl_ok_done) simp_all
  then show ?case by simp
next
  case (r_cancel c m)
  then show ?case by (intro ctl_ok_unlock_refresh) auto
next
  case (p_cancel c a sm now out)
  then have "ctl_ok ((c\<lparr>ct_s := perform_end now a out (ct_s c)\<rparr>)\<lparr>ct_lock := Lock_free, ct_r := R_idle\<rparr>)"
    by (intro ctl_ok_unlock_refresh ctl_ok_perform_end) auto
  then show ?case by simp
next
  case (x_start r now wait drain c c')
  then show ?case by (blast intro: ctl_ok_start)
next
  case (x_lock c)
  then show ?case by (intro ctl_ok_x_lock)
next
  case (x_sample c m now i m' s)
  then have "ctl_ok ((c\<lparr>ct_s := s\<rparr>)\<lparr>ct_x := x_with m' (ct_x (c\<lparr>ct_s := s\<rparr>))\<rparr>)"
    by (intro ctl_ok_x_with ctl_ok_smp) auto
  then show ?case by simp
next
  case (x_sampled c m now i s now')
  then show ?case by (intro ctl_ok_sampled ctl_ok_smp) auto
next
  case (x_room c)
  then show ?case by (simp add: ctl_ok_def ctl_rel_def modes_def)
next
  case (x_drain_set c now)
  then show ?case by (intro ctl_ok_drain_ended) simp_all
next
  case (x_drain_timeout c now)
  then show ?case by (intro ctl_ok_drain_ended) simp_all
next
  case (x_performed c a todo moved out now)
  with ctl_emptying [OF x_performed(3)] show ?case by (intro ctl_ok_performed) simp_all
next
  case (x_asked c moved dl g name rest now answer)
  with ctl_emptying [OF x_asked(2)] show ?case by (intro ctl_ok_asked) simp_all
next
  case (x_freed c moved dl g now)
  with ctl_emptying [OF x_freed(2)] show ?case by (intro ctl_ok_freed_end) simp_all
next
  case (x_again c moved dl)
  with ctl_emptying [OF x_again(2)] show ?case by (intro emptying_rel) simp_all
next
  case (x_cancel c now)
  then show ?case by (intro ctl_ok_x_cancel)
qed

interpretation coroutines: preserved cstep ctl_ok
  by unfold_locales (rule ctl_ok_step)

lemma ctl_ok_boot: "config_ok config \<Longrightarrow> ctl_ok (boot config control units rnd x)"
proof -
  assume "config_ok config"
  then have "distinct (map ds_name (deployments config))" by (simp add: config_ok_def)
  then have "books (new_scheduler config control units rnd)"
    by (auto simp: books_def books_of_def core_def new_scheduler_def ledger_def bk_def new_deployment_def book_ok_def
        class_tokens_def no_reservations_def comp_def)
  then show ?thesis
    by (simp add: ctl_ok_def ctl_rel_def boot_def sched_ok_def line_ok_def line_of_def line_def modes_def new_scheduler_def)
qed

lemma reachable_ctl_ok: "reachable c \<Longrightarrow> ctl_ok c"
  unfolding reachable_def using ComputeConfig_init_ok ctl_ok_boot coroutines.run_inv by blast

end
