(* ===== verification/Compute_Vram.thy ===== *)
theory Compute_Vram
  imports Compute_Control_Facts
begin

text \<open>
  What grants and releases do to the VRAM accounting of the compute scheduler: a grant takes
  what it was admitted with, a release gives nothing back before the next reading.
\<close>

section \<open>The accounting with another extra reservation\<close>

text \<open>The view as a function of what does not depend on the extra reservation.\<close>

definition add_need :: "int \<Rightarrow> vram_sums \<Rightarrow> vram_sums" where
  "add_need n s = s\<lparr>s_reserved := s_reserved s + n, committed_own := committed_own s + n\<rparr>"

lemma add_deployment_need: "add_deployment used unknown u (add_need n s) = add_need n (add_deployment used unknown u s)"
  by (simp add: add_deployment_def add_need_def Let_def)

lemma fold_deployments_need:
  "fold (add_deployment used unknown) deps (add_need n s) = add_need n (fold (add_deployment used unknown) deps s)"
  by (induction deps arbitrary: s) (simp_all add: add_deployment_need)

definition take_extra :: "int \<Rightarrow> int \<Rightarrow> int \<Rightarrow> int" where
  "take_extra rest extra base = min extra (max 0 (rest - max 0 base))"

lemma account_parts:
  obtains own rest where "0 \<le> rest"
    and "\<And>extra base. external (account dev procs deps h extra base) = rest - take_extra rest extra base"
    and "\<And>extra base. extra_use (account dev procs deps h extra base) = take_extra rest extra base"
    and "\<And>extra base. available (account dev procs deps h extra base) =
      total_bytes dev - h - (own + extra) - (rest - take_extra rest extra base)"
proof -
  obtain used unknown where t: "tally (d_uuid dev) procs (\<lambda>_. 0) {} = (used, unknown)" by fastforce
  define s where "s = fold (add_deployment used unknown) deps
      \<lparr>s_reserved = 0, committed_own = 0, s_own_actual = 0, unknown_reserved = 0\<rparr>"
  have s: "fold (add_deployment used unknown) deps
      \<lparr>s_reserved = e, committed_own = e, s_own_actual = 0, unknown_reserved = 0\<rparr> = add_need e s" for e
    using fold_deployments_need [of used unknown deps e
        "\<lparr>s_reserved = 0, committed_own = 0, s_own_actual = 0, unknown_reserved = 0\<rparr>"]
    by (simp add: s_def add_need_def)
  show thesis
    by (rule that [of "max 0 (used_bytes dev - s_own_actual s - unknown_reserved s)" "committed_own s"])
      (simp_all add: account_def t Let_def s take_extra_def add_need_def)
qed

lemma take_extra_bounds:
  assumes "0 \<le> extra"
  shows "0 \<le> take_extra rest extra base" "take_extra rest extra base \<le> extra"
    "0 \<le> rest \<Longrightarrow> take_extra rest extra base \<le> rest"
  using assms by (auto simp: take_extra_def)

lemma take_extra_more:
  assumes "0 \<le> extra" "0 \<le> need" "0 \<le> rest"
  shows "take_extra rest (extra + need) (rest - take_extra rest extra base) = take_extra rest extra base"
proof -
  have "0 \<le> take_extra rest extra base" "take_extra rest extra base \<le> extra" "take_extra rest extra base \<le> rest"
    using assms by (auto intro: take_extra_bounds)
  then show ?thesis using assms by (simp add: take_extra_def [of rest "extra + need"])
qed

lemma take_extra_less:
  assumes "0 \<le> extra" "0 \<le> need" "0 \<le> rest"
  shows "take_extra rest extra (rest - take_extra rest extra base + min need (take_extra rest extra base)) =
    take_extra rest extra base - min need (take_extra rest extra base)"
proof -
  define x where "x = take_extra rest extra base"
  have "0 \<le> x" "x \<le> extra" "x \<le> rest" using assms by (auto simp: x_def intro: take_extra_bounds)
  then show ?thesis using assms unfolding x_def [symmetric] by (auto simp: take_extra_def min_def max_def)
qed

lemma account_extra:
  assumes "0 \<le> extra" and "0 \<le> need"
  shows "available (account dev procs deps h (extra + need) (external (account dev procs deps h extra base))) =
      available (account dev procs deps h extra base) - need"
    and "0 \<le> extra_use (account dev procs deps h extra base)"
    and "available (account dev procs deps h extra (external (account dev procs deps h extra base)
        + min need (extra_use (account dev procs deps h extra base)))) =
      available (account dev procs deps h extra base) - min need (extra_use (account dev procs deps h extra base))"
proof -
  obtain own rest where v: "0 \<le> rest"
    "\<And>extra base. external (account dev procs deps h extra base) = rest - take_extra rest extra base"
    "\<And>extra base. extra_use (account dev procs deps h extra base) = take_extra rest extra base"
    "\<And>extra base. available (account dev procs deps h extra base) =
      total_bytes dev - h - (own + extra) - (rest - take_extra rest extra base)"
    using account_parts [of dev procs deps h] by metis
  show "available (account dev procs deps h (extra + need) (external (account dev procs deps h extra base))) =
      available (account dev procs deps h extra base) - need"
    and "0 \<le> extra_use (account dev procs deps h extra base)"
    and "available (account dev procs deps h extra (external (account dev procs deps h extra base)
        + min need (extra_use (account dev procs deps h extra base)))) =
      available (account dev procs deps h extra base) - min need (extra_use (account dev procs deps h extra base))"
    using assms v(1) take_extra_bounds(1) [OF assms(1)] by (simp_all add: v(2-4) take_extra_more take_extra_less)
qed

section \<open>What the view is made of\<close>

definition usages :: "scheduler \<Rightarrow> DeploymentUsage list" where
  "usages s = map (\<lambda>d. \<lparr>reserved_bytes = gpu_bytes (dp_spec d), pids = dp_pids d\<rparr>) (filter counts_on_gpu (ordered s))"

lemma vram_of_account:
  "vram_of dev s = account dev (cs_processes s) (usages s) (sched_headroom dev s) (extra_reserved s) (cs_extra_baseline s)"
  by (simp add: vram_of_def usages_def)

lemma insort_key_map: "insort_key k (g x) (map g xs) = map g (insort_key (\<lambda>y. k (g y)) x xs)"
  by (induction xs) simp_all

lemma sort_key_map: "sort_key k (map g xs) = map g (sort_key (\<lambda>y. k (g y)) xs)"
  by (induction xs) (simp_all add: insort_key_map)

text \<open>What a change of the entries leaves of the view.\<close>

definition seen :: "Deployment \<Rightarrow> DeploymentSpec \<times> DeploymentState \<times> bool \<times> int set option" where
  "seen d = (dp_spec d, dp_state d, dp_busy d, dp_pids d)"

lemma usages_map:
  assumes "\<And>d. seen (g d) = seen d"
  shows "usages (s\<lparr>cs_entries := map g (cs_entries s)\<rparr>) = usages s"
proof -
  have same: "dp_order (g d) = dp_order d" "counts_on_gpu (g d) = counts_on_gpu d"
      "dp_spec (g d) = dp_spec d" "dp_pids (g d) = dp_pids d" for d
    using assms [of d] by (simp_all add: seen_def dp_order_def counts_on_gpu_def)
  then show ?thesis
    by (simp add: usages_def ordered_def sort_key_map filter_map comp_def)
qed

lemma usages_upd_entry: "(\<And>d. seen (f d) = seen d) \<Longrightarrow> usages (upd_entry n f s) = usages s"
  unfolding upd_entry_def by (rule usages_map) simp

lemma usages_simps [simp]:
  "usages (s\<lparr>cs_heap := hp\<rparr>) = usages s" "usages (s\<lparr>cs_next_lease := nl\<rparr>) = usages s"
  "usages (s\<lparr>cs_extra_baseline := eb\<rparr>) = usages s" "usages (s\<lparr>cs_pending_release := pr\<rparr>) = usages s"
  "usages (s\<lparr>cs_exclusive := ex\<rparr>) = usages s"
  by (simp_all add: usages_def ordered_def)

section \<open>The extra reservation\<close>

definition vram_in :: "(lid \<Rightarrow> ComputeLease option) \<Rightarrow> lid \<Rightarrow> int" where
  "vram_in h l = (case h l of Some x \<Rightarrow> cl_vram x | None \<Rightarrow> 0)"

definition lease_vram :: "scheduler \<Rightarrow> int" where
  "lease_vram s = (case cs_exclusive s of Some l \<Rightarrow> vram_in (ledger s) l
     | None \<Rightarrow> sum_list (map (vram_in (ledger s)) (shared_leases s)))"

lemma vram_ledger: "cl_vram (lease_at s l) = vram_in (ledger s) l"
  by (simp add: lease_at_def vram_in_def ledger_def split: option.split)

lemma extra_reserved_split: "extra_reserved s = cs_pending_release s + lease_vram s"
  by (simp add: extra_reserved_def lease_vram_def vram_ledger split: option.split)

lemma shared_leases_bk: "shared_leases s = concat (map (\<lambda>b. fst (snd b)) (map bk (cs_entries s)))"
  by (simp add: shared_leases_def bk_def comp_def)

lemma shared_lease_of:
  assumes "books s" and "l \<in> set (shared_leases s)"
  shows "\<exists>x n. ledger s l = Some x \<and> shared_lease n x \<and> l < cs_next_lease s"
proof -
  from assms(2) obtain d where "d \<in> set (cs_entries s)" "l \<in> set (dp_leases d)"
    by (auto simp: shared_leases_def)
  then have "bk d \<in> set (map bk (cs_entries s))" "l \<in> set (fst (snd (bk d)))" by (simp_all add: bk_def)
  from book_member [OF books_ledger [OF assms(1)] this] show ?thesis by blast
qed

lemma distinct_concat_books:
  "distinct bs \<Longrightarrow> (\<And>b. b \<in> set bs \<Longrightarrow> distinct (fst (snd b))) \<Longrightarrow>
   (\<And>b b' l. b \<in> set bs \<Longrightarrow> b' \<in> set bs \<Longrightarrow> l \<in> set (fst (snd b)) \<Longrightarrow> l \<in> set (fst (snd b')) \<Longrightarrow> b = b') \<Longrightarrow>
   distinct (concat (map (\<lambda>b. fst (snd b)) bs))"
proof (induction bs)
  case (Cons a bs)
  have "set (fst (snd a)) \<inter> set (concat (map (\<lambda>b. fst (snd b)) bs)) = {}"
  proof (rule ccontr)
    assume "\<not> ?thesis"
    then obtain l b where "l \<in> set (fst (snd a))" "b \<in> set bs" "l \<in> set (fst (snd b))"
      by (auto simp del: split_paired_Ex)
    with Cons.prems(3) [of a b l] Cons.prems(1) show False by auto
  qed
  moreover have "distinct (concat (map (\<lambda>b. fst (snd b)) bs))"
    by (rule Cons.IH) (use Cons.prems in \<open>auto simp del: split_paired_All\<close>)
  ultimately show ?case using Cons.prems(2) [of a] by simp
qed simp

lemma distinct_shared: "books s \<Longrightarrow> distinct (shared_leases s)"
proof -
  assume "books s"
  note k = books_ledger [OF this]
  show ?thesis
    unfolding shared_leases_bk
    by (rule distinct_concat_books)
      (use k book_unique [OF k] in \<open>auto simp: books_of_def book_ok_def distinct_map\<close>)
qed

lemma lease_vram_nonneg:
  assumes "books s"
  shows "0 \<le> lease_vram s"
proof (cases "cs_exclusive s")
  case None
  have "0 \<le> vram_in (ledger s) l" if "l \<in> set (shared_leases s)" for l
    using shared_lease_of [OF assms that] by (auto simp: vram_in_def shared_lease_def)
  with None show ?thesis by (auto simp: lease_vram_def intro!: sum_list_nonneg)
next
  case (Some l)
  with books_ledger [OF assms] show ?thesis by (auto simp: lease_vram_def vram_in_def books_of_def)
qed

section \<open>Grants and releases\<close>

lemma rebase_fields [simp]:
  "cs_device (rebase n s) = cs_device s" "cs_processes (rebase n s) = cs_processes s" "usages (rebase n s) = usages s"
  "cs_config (rebase n s) = cs_config s" "cs_rnd (rebase n s) = cs_rnd s" "ledger (rebase n s) = ledger s"
  "cs_exclusive (rebase n s) = cs_exclusive s" "cs_entries (rebase n s) = cs_entries s"
  "cs_next_lease (rebase n s) = cs_next_lease s" "cs_pending_release (rebase n s) = cs_pending_release s + n"
  by (auto simp: rebase_def Let_def ledger_def fun_eq_iff split: option.split)

lemma rebase_baseline:
  "cs_device s = Some dev \<Longrightarrow> cs_extra_baseline (rebase n s) = external (vram_of dev s) + min n (extra_use (vram_of dev s))"
  by (simp add: rebase_def vram_def)

lemma upd_entry_fields [simp]:
  "cs_device (upd_entry n f s) = cs_device s" "cs_processes (upd_entry n f s) = cs_processes s"
  "cs_config (upd_entry n f s) = cs_config s" "cs_rnd (upd_entry n f s) = cs_rnd s"
  "ledger (upd_entry n f s) = ledger s" "cs_exclusive (upd_entry n f s) = cs_exclusive s"
  "cs_pending_release (upd_entry n f s) = cs_pending_release s"
  "cs_extra_baseline (upd_entry n f s) = cs_extra_baseline s"
  by (simp_all add: upd_entry_def ledger_def fun_eq_iff)

lemma seen_updates [simp]:
  "seen (d\<lparr>dp_leases := ls\<rparr>) = seen d" "seen (d\<lparr>dp_reserved := n, dp_by_class := m\<rparr>) = seen d"
  by (simp_all add: seen_def)

lemma headroom_same: "cs_config s' = cs_config s \<Longrightarrow> cs_rnd s' = cs_rnd s \<Longrightarrow> sched_headroom dev s' = sched_headroom dev s"
  by (simp add: sched_headroom_def)

lemma lease_at_ledger: "cl_vram (lease_at s l) = vram_in (ledger s) l"
  by (rule vram_ledger)

text \<open>One of the books changes its sum.\<close>

lemma sum_one_change:
  fixes F G :: "'a \<Rightarrow> int"
  assumes "distinct bs" and "b \<in> set bs" and "F b = G b + c" and "\<And>b'. b' \<in> set bs \<Longrightarrow> b' \<noteq> b \<Longrightarrow> F b' = G b'"
  shows "sum_list (map F bs) = sum_list (map G bs) + c"
  using assms
proof (induction bs)
  case (Cons a bs)
  show ?case
  proof (cases "b = a")
    case True
    with Cons.prems have "map F bs = map G bs" by (intro map_cong) auto
    with True Cons.prems(3) show ?thesis by (simp del: map_eq_conv)
  next
    case False
    have "sum_list (map F bs) = sum_list (map G bs) + c"
      by (rule Cons.IH) (use False Cons.prems in auto)
    with False Cons.prems(4) [of a] show ?thesis by simp
  qed
qed simp

definition book_sum :: "(lid \<Rightarrow> int) \<Rightarrow> book list \<Rightarrow> int" where
  "book_sum f bs = sum_list (map (\<lambda>b. sum_list (map f (fst (snd b)))) bs)"

lemma book_sum_concat: "sum_list (map f (concat (map (\<lambda>b. fst (snd b)) bs))) = book_sum f bs"
  by (induction bs) (simp_all add: book_sum_def)

lemma sum_add_lease:
  assumes k: "books_of (bs, h, n, ex, cl)" and b: "b \<in> set bs"
  shows "book_sum (vram_in (h(n \<mapsto> x))) (map (book_upd (fst b) (\<lambda>ls. ls @ [n]) c t) bs) = book_sum (vram_in h) bs + cl_vram x"
proof -
  have old: "map (vram_in (h(n \<mapsto> x))) (fst (snd b')) = map (vram_in h) (fst (snd b'))" if "b' \<in> set bs" for b'
    using book_member [OF k that] by (intro map_cong) (auto simp: vram_in_def)
  have d: "distinct (map fst bs)" using k by (simp add: books_of_def)
  show ?thesis
    unfolding book_sum_def map_map comp_def
  proof (rule sum_one_change [OF _ b])
    show "distinct bs" using d by (simp add: distinct_map)
    fix b'
    assume b': "b' \<in> set bs" "b' \<noteq> b"
    with d b have "fst b' \<noteq> fst b" by (auto simp: distinct_map dest: inj_onD)
    with old [OF b'(1)] show "sum_list (map (vram_in (h(n \<mapsto> x))) (fst (snd (book_upd (fst b) (\<lambda>ls. ls @ [n]) c t b')))) =
        sum_list (map (vram_in h) (fst (snd b')))"
      by (simp del: map_eq_conv)
  qed (use old [OF b] in \<open>simp add: vram_in_def del: map_eq_conv\<close>)
qed

lemma sum_drop_lease:
  assumes k: "books_of (bs, h, nx, ex, cl)" and b: "b \<in> set bs" "l \<in> set (fst (snd b))"
  shows "book_sum (vram_in h) (map (book_upd (fst b) (removeAll l) c t) bs) = book_sum (vram_in h) bs - vram_in h l"
proof -
  have d: "distinct (map fst bs)" "distinct (fst (snd b))" using k b by (auto simp: books_of_def book_ok_def)
  have "book_sum (vram_in h) (map (book_upd (fst b) (removeAll l) c t) bs) = book_sum (vram_in h) bs + - vram_in h l"
    unfolding book_sum_def map_map comp_def
  proof (rule sum_one_change [OF _ b(1)])
    show "distinct bs" using d by (simp add: distinct_map)
    fix b'
    assume b': "b' \<in> set bs" "b' \<noteq> b"
    with d b have "fst b' \<noteq> fst b" by (auto simp: distinct_map dest: inj_onD)
    then show "sum_list (map (vram_in h) (fst (snd (book_upd (fst b) (removeAll l) c t b')))) =
        sum_list (map (vram_in h) (fst (snd b')))"
      by simp
  qed (use d b sum_list_removeAll [of "fst (snd b)" l "vram_in h"] in simp)
  then show ?thesis by simp
qed

lemma core_grant_local:
  "core (grant_local now r p d s) =
     (let x = new_lease now r p (if p = LOCAL_GPU \<and> kv_capacity_tokens (dp_spec d) \<noteq> 0 then cr_tokens r else 0)
      in (map (book_upd (dp_name d) (\<lambda>ls. ls @ [cs_next_lease s]) (cr_class r) (cl_tokens x)) (map bk (cs_entries s)),
          (ledger s)(cs_next_lease s \<mapsto> erase x), Suc (cs_next_lease s), cs_exclusive s, cs_cloud s))"
proof -
  let ?x = "new_lease now r p (if p = LOCAL_GPU \<and> kv_capacity_tokens (dp_spec d) \<noteq> 0 then cr_tokens r else 0)"
  let ?s = "if cl_vram ?x \<noteq> 0 then rebase 0 s else s"
  have "core ?s = core s" by simp
  moreover have "cl_tokens ?x = (if p = LOCAL_GPU \<and> kv_capacity_tokens (dp_spec d) \<noteq> 0 then cr_tokens r else 0)"
    by (simp add: new_lease_def)
  ultimately show ?thesis
    using core_reserve_leases [of "dp_name d" "cr_class r" "cl_tokens ?x" "\<lambda>ls. ls @ [cs_next_lease s]" "alloc_lease ?x ?s"]
    unfolding grant_local_def Let_def core_alloc by (simp only:) (simp add: core_def [of s])
qed

lemma lease_vram_core:
  "lease_vram s = (case core s of (bs, h, nx, ex, cl) \<Rightarrow>
     (case ex of Some l \<Rightarrow> vram_in h l | None \<Rightarrow> book_sum (vram_in h) bs))"
  unfolding lease_vram_def core_def shared_leases_bk book_sum_concat by simp

lemma lease_vram_grant:
  assumes "books s" and d: "d \<in> set (cs_entries s)" and "cs_exclusive s = None"
  shows "lease_vram (grant_local now r p d s) = lease_vram s + (if p = LOCAL_GPU then cr_vram r else 0)"
proof -
  note k = books_ledger [OF assms(1)]
  let ?x = "new_lease now r p (if p = LOCAL_GPU \<and> kv_capacity_tokens (dp_spec d) \<noteq> 0 then cr_tokens r else 0)"
  let ?h = "(ledger s)(cs_next_lease s \<mapsto> erase ?x)"
  have mem: "bk d \<in> set (map bk (cs_entries s))" using d by simp
  from sum_add_lease [OF k mem, of "erase ?x" "cr_class r" "cl_tokens ?x"]
  show ?thesis
    unfolding lease_vram_core core_grant_local Let_def
    by (simp add: assms(3) core_def bk_def new_lease_def)
qed

lemma grant_view [simp]:
  "cs_device (grant_local now r p d s) = cs_device s" "cs_processes (grant_local now r p d s) = cs_processes s"
  "cs_config (grant_local now r p d s) = cs_config s" "cs_rnd (grant_local now r p d s) = cs_rnd s"
  "usages (grant_local now r p d s) = usages s" "cs_pending_release (grant_local now r p d s) = cs_pending_release s"
  by (simp_all add: grant_local_def reserve_def alloc_lease_def Let_def usages_upd_entry)

lemma grant_baseline:
  "p = LOCAL_GPU \<Longrightarrow> cr_vram r > 0 \<Longrightarrow> cs_device s = Some dev \<Longrightarrow>
   cs_extra_baseline (grant_local now r p d s) = external (vram_of dev s) + min 0 (extra_use (vram_of dev s))"
  by (simp add: grant_local_def reserve_def alloc_lease_def Let_def new_lease_def rebase_baseline)

text \<open>A grant takes exactly the VRAM it was admitted with.\<close>

lemma grant_takes:
  assumes "books s" and d: "d \<in> set (cs_entries s)" and ex: "cs_exclusive s = None" and pend: "0 \<le> cs_pending_release s"
    and dev: "cs_device s = Some dev" and need: "cr_vram r > 0"
  shows "available (vram_of dev (grant_local now r LOCAL_GPU d s)) = available (vram_of dev s) - cr_vram r"
proof -
  have e: "0 \<le> extra_reserved s" using lease_vram_nonneg [OF assms(1)] pend by (simp add: extra_reserved_split)
  have "extra_reserved (grant_local now r LOCAL_GPU d s) = extra_reserved s + cr_vram r"
    using lease_vram_grant [OF assms(1) d ex, of now r LOCAL_GPU] by (simp add: extra_reserved_split)
  moreover have "cs_extra_baseline (grant_local now r LOCAL_GPU d s) = external (vram_of dev s)"
    using grant_baseline [OF refl need dev] account_extra(2) [OF e, of 0] by (simp add: vram_of_account)
  ultimately show ?thesis
    using account_extra(1) [OF e, of "cr_vram r" dev "cs_processes s" "usages s" "sched_headroom dev s" "cs_extra_baseline s"] need
    by (simp add: vram_of_account headroom_same [of "grant_local now r LOCAL_GPU d s" s])
qed

text \<open>A release of a shared lease gives nothing back: its VRAM is carried to the next reading.\<close>

lemma seen_release: "usages (upd_lease l f s) = usages s"
  by (simp add: upd_lease_def)

lemma release_gives_nothing:
  assumes "books s" and x: "cs_heap s l = Some x" "\<not> cl_released x" and ex: "cs_exclusive s = None"
    and pend: "0 \<le> cs_pending_release s" and dev: "cs_device s = Some dev"
  shows "available (vram_of dev (give_back l x (upd_lease l (cl_released_update (\<lambda>_. True)) s))) \<le> available (vram_of dev s)"
proof -
  define s1 where "s1 = upd_lease l (cl_released_update (\<lambda>_. True)) s"
  note k = books_ledger [OF assms(1)]
  have led: "ledger s l = Some (erase x)" using x by (simp add: ledger_def)
  have led1: "vram_in (ledger s1) = vram_in (ledger s)"
    using x by (auto simp: s1_def vram_in_def ledger_def upd_lease_def fun_eq_iff)
  have s1: "cs_exclusive s1 = cs_exclusive s" "cs_entries s1 = cs_entries s" "usages s1 = usages s"
    "cs_device s1 = cs_device s" "cs_processes s1 = cs_processes s" "cs_config s1 = cs_config s" "cs_rnd s1 = cs_rnd s"
    "cs_pending_release s1 = cs_pending_release s" "cs_extra_baseline s1 = cs_extra_baseline s"
    by (simp_all add: s1_def upd_lease_def)
  have lv: "lease_vram s1 = lease_vram s" by (simp add: lease_vram_def led1 s1 shared_leases_def split: option.split)
  then have same: "vram_of dev s1 = vram_of dev s"
    by (simp add: vram_of_account s1 headroom_same [of s1 s] extra_reserved_split)
  have e: "0 \<le> extra_reserved s" using lease_vram_nonneg [OF assms(1)] pend by (simp add: extra_reserved_split)
  show ?thesis
  proof (cases "\<exists>d \<in> set (cs_entries s). l \<in> set (dp_leases d)")
    case False
    then have out: "l \<notin> set (shared_leases s)" by (auto simp: shared_leases_def)
    then have "vram_of dev (give_back l x s1) = vram_of dev s1"
      using ex entry_of_Some [of s1] False
      by (auto simp: give_back_def s1 vram_of_account usages_def ordered_def sched_headroom_def extra_reserved_def
          shared_leases_def lease_at_def split: option.splits)
    then show ?thesis by (simp add: s1_def [symmetric] same)
  next
    case True
    then obtain d where d: "d \<in> set (cs_entries s)" "l \<in> set (dp_leases d)" by blast
    then have mem: "bk d \<in> set (map bk (cs_entries s))" "l \<in> set (fst (snd (bk d)))" by (auto simp: bk_def)
    from book_member [OF k mem] led have sh: "shared_lease (dp_name d) (erase x)" by (simp add: bk_def)
    have "entry_of s1 (dp_name d) = Some d"
      using books_entry_of [OF assms(1) d(1)] by (simp add: entry_of_def s1)
    with sh d ex have gb: "give_back l x s1 = reserve (dp_name d) (cl_class x) (- cl_tokens x)
        (upd_entry (dp_name d) (\<lambda>e. e\<lparr>dp_leases := removeAll l (dp_leases e)\<rparr>)
          (if cl_vram x \<noteq> 0 then rebase (cl_vram x) s1 else s1))"
      by (auto simp: give_back_def Let_def shared_lease_def s1)
    let ?r = "if cl_vram x \<noteq> 0 then rebase (cl_vram x) s1 else s1"
    have "core (give_back l x s1) = (let (bs, k) = core ?r in (map (book_upd (dp_name d) (removeAll l) (cl_class x) (- cl_tokens x)) bs, k))"
      unfolding gb by (rule core_reserve_leases)
    moreover have "core ?r = core s1" by simp
    moreover have "vram_in (ledger s) l = cl_vram x" by (simp add: vram_in_def led)
    ultimately have lv2: "lease_vram (give_back l x s1) = lease_vram s1 - cl_vram x"
      using sum_drop_lease [OF k mem, of "cl_class x" "- cl_tokens x"]
      by (simp add: lease_vram_core core_def s1 ex led1) (simp add: bk_def)
    have view: "sched_headroom dev (give_back l x s1) = sched_headroom dev s" "usages (give_back l x s1) = usages s"
        "cs_processes (give_back l x s1) = cs_processes s"
      by (simp_all add: gb reserve_def sched_headroom_def s1 usages_upd_entry)
    show ?thesis
    proof (cases "cl_vram x = 0")
      case True
      then show ?thesis
        using lv2 lv unfolding s1_def [symmetric] vram_of_account view extra_reserved_split
        by (simp add: gb reserve_def s1)
    next
      case False
      then have "0 \<le> cl_vram x" using sh by (simp add: shared_lease_def)
      have "cs_extra_baseline (give_back l x s1) = external (vram_of dev s) + min (cl_vram x) (extra_use (vram_of dev s))"
        using False dev rebase_baseline [of s1 dev "cl_vram x"] by (simp add: gb reserve_def s1 same)
      moreover have "extra_reserved (give_back l x s1) = extra_reserved s"
        using False lv2 lv by (simp add: extra_reserved_split gb reserve_def s1)
      ultimately show ?thesis
        using account_extra(2,3) [OF e \<open>0 \<le> cl_vram x\<close>, of dev "cs_processes s" "usages s" "sched_headroom dev s" "cs_extra_baseline s"]
          \<open>0 \<le> cl_vram x\<close>
        unfolding s1_def [symmetric] vram_of_account view by simp
    qed
  qed
qed

section \<open>What is carried to the next reading\<close>

text \<open>The pending release never shrinks between two readings, and a reading takes at most what it saw.\<close>

abbreviation pend :: "scheduler \<Rightarrow> int" where
  "pend \<equiv> cs_pending_release"

lemma pend_ops [simp]:
  "pend (emit now e s) = pend s" "pend (warn_request now r g s) = pend s"
  "pend (warn_exclusive now r g s) = pend s" "pend (set_mode m s) = pend s"
  "pend (signal_drained s) = pend s" "pend (note_refused r p x s) = pend s" "pend (forget_refused s) = pend s"
  "pend (set_relief rf s) = pend s" "pend (lose_sample s) = pend s" "pend (upd_waiter k fw s) = pend s"
  "pend (drop_waiter k s) = pend s" "pend (enter_line r x s) = pend s"
  "pend (upd_lease l g' s) = pend s" "pend (revoke_all ls s) = pend s" "pend (reserve nm c t s) = pend s"
  "pend (alloc_lease y s) = pend s" "pend (prune_all now s) = pend s" "pend (stop_draining s) = pend s"
  "pend (snd (observe_unit now nm a s)) = pend s" "pend (start_draining d s) = pend s"
  "pend (grant_cloud now r s) = pend s" "pend (grant_exclusive now r s) = pend s"
  "pend (work_ends w s) = pend s" "pend (hold_until l w s) = pend s" "pend (perform_begin ac s) = pend s"
  "pend (run_after af s) = pend s"
  by (simp_all add: emit_def warn_request_def warn_exclusive_def set_mode_def signal_drained_def
      note_refused_def forget_refused_def set_relief_def lose_sample_def upd_waiter_def drop_waiter_def enter_line_def
      upd_lease_def revoke_all_def reserve_def alloc_lease_def prune_all_def stop_draining_def observe_unit_def
      start_draining_def grant_cloud_def grant_exclusive_def work_ends_def hold_until_def perform_begin_def run_after_def
      upd_entry_def Let_def split: option.splits after.splits)

lemma pend_perform_end [simp]: "pend (perform_end now a out s) = pend s"
  by (simp add: perform_end_def Let_def)

lemma pend_fold_draining [simp]: "pend (fold start_draining ds s) = pend s"
  by (induction ds arbitrary: s) simp_all

lemma pend_fill_loop [simp]: "pend (snd (fill_loop now dev v ds s)) = pend s"
  by (induction now dev v ds s rule: fill_loop.induct) (auto simp: Let_def)

lemma pend_decide [simp]: "pend (snd (sched_decide now s)) = pend s"
  by (simp add: sched_decide_def fill_def relieve_def restore_def bring_back_def displace_def Let_def
      split: option.splits Relief.splits list.splits)

lemma pend_pump_one: "pend (fst (pump_one now w (s, b, v))) = pend s"
  by (auto simp: pump_one_def Let_def split: option.splits prod.splits)

lemma pend_pump_fold: "pend (fst (fold (pump_one now) ws (s, b, v))) = pend s"
proof (induction ws arbitrary: s b v)
  case (Cons w ws)
  obtain s' b' v' where "pump_one now w (s, b, v) = (s', b', v')" by (cases "pump_one now w (s, b, v)")
  with pend_pump_one [of now w s b v] Cons [of s' b' v'] show ?case by simp
qed simp

lemma pend_pump [simp]: "pend (pump now s) = pend s"
  by (simp add: pump_def pend_pump_fold)

lemma pend_release: 
  assumes "books s"
  shows "pend s \<le> pend (release_lease now l s)"
proof -
  have "0 \<le> cl_vram x" if x: "cs_heap s l = Some x" "\<not> cl_released x" "cl_placement x \<noteq> CLOUD" for x
  proof -
    note k = books_ledger [OF assms]
    have led: "ledger s l = Some (erase x)" using x by (simp add: ledger_def)
    with x(2) k have "placed (map bk (cs_entries s)) (cs_exclusive s) (cs_cloud s) l" by (auto simp: books_of_def)
    with k led x(3) book_member [OF k, of _ l] show ?thesis
      unfolding placed_def by (fastforce simp: books_of_def shared_lease_def)
  qed
  then show ?thesis
    by (auto simp: release_lease_def give_back_def Let_def split: option.split)
qed

lemma pend_public: "public_step s s' \<Longrightarrow> sched_ok s \<Longrightarrow> pend s \<le> pend s'"
proof (induction rule: public_step.induct)
  case (ps_try r s now)
  then show ?case by (auto simp: try_acquire_def split: sum.splits option.splits prod.splits)
next
  case ps_acquire
  then show ?case by (auto simp: acquire_shared_def Let_def split: option.splits prod.splits)
next
  case ps_resume
  then show ?case by (auto simp: acquire_resume_def Let_def split: option.splits fut.splits)
next
  case (ps_cancel s now n)
  then have "books (drop_waiter n s)" by (simp add: sched_ok_def books_def)
  from pend_release [OF this] show ?case by (auto simp: acquire_cancel_def Let_def split: fut.splits)
next
  case (ps_release s now l)
  then show ?case using pend_release [of s now l] by (auto simp: lease_release_def sched_ok_def split: option.splits)
next
  case (ps_callback cb s now)
  then have "books (s\<lparr>cs_callbacks := remove1 cb (cs_callbacks s)\<rparr>)" by (simp add: sched_ok_def books_def)
  from pend_release [OF this] show ?case by (auto simp: run_callback_def)
next
  case (ps_force s now)
  then have "books (revoke_all ls s)" for ls by (simp add: sched_ok_def books_def)
  from pend_release [OF this] show ?case
    by (auto simp: force_release_exclusive_def split: option.splits)
next
  case ps_resize
  then show ?case by (auto simp: resize_lease_def Let_def split: sum.splits option.splits)
qed (simp_all add: revoke_local_gpu_def Let_def)


fun carried :: "smp \<Rightarrow> int" where
  "carried (Reading n) = n"
| "carried (Inspecting p) = sm_carried p"

fun r_smp :: "rpc \<Rightarrow> smp option" where
  "r_smp R_idle = None"
| "r_smp (R_sample m) = Some m"
| "r_smp (R_perform a m) = m"
| "r_smp (R_finish m) = Some m"

definition carries :: "int \<Rightarrow> smp option \<Rightarrow> bool" where
  "carries n m = (case m of None \<Rightarrow> True | Some k \<Rightarrow> 0 \<le> carried k \<and> carried k \<le> n)"

definition pend_ok :: "control \<Rightarrow> bool" where
  "pend_ok c \<longleftrightarrow> 0 \<le> pend (ct_s c) \<and> carries (pend (ct_s c)) (r_smp (ct_r c)) \<and> carries (pend (ct_s c)) (x_smp (ct_x c))"

lemma carries_simps [simp]:
  "carries n None" "carries n (Some m) \<longleftrightarrow> 0 \<le> carried m \<and> carried m \<le> n"
  by (simp_all add: carries_def)

lemma carries_mono: "carries n m \<Longrightarrow> n \<le> k \<Longrightarrow> carries k m"
  by (auto simp: carries_def split: option.splits)

lemma smp_next_pend:
  assumes "smp_next now i m s = (r, s')"
  shows "case r of Some m' \<Rightarrow> carried m' = carried m \<and> pend s' = pend s
    | None \<Rightarrow> pend s' = pend s \<or> pend s' = pend s - carried m"
  using assms
  by (auto simp: smp_next_def sample_read_def sample_inspect_def sample_publish_def Let_def
      split: smp.splits option.splits if_splits prod.splits list.splits)

text \<open>The stretches of the Exclusive request leave the pending release and the other coroutine alone.\<close>

definition x_keeps :: "control \<Rightarrow> control \<Rightarrow> bool" where
  "x_keeps c c' \<longleftrightarrow> ct_r c' = ct_r c \<and> pend (ct_s c') = pend (ct_s c)
     \<and> (x_smp (ct_x c') = None \<or> x_smp (ct_x c') = Some (Reading (pend (ct_s c))))"

lemma x_keeps_ok: "x_keeps c c' \<Longrightarrow> pend_ok c \<Longrightarrow> pend_ok c'"
  by (auto simp: x_keeps_def pend_ok_def)

lemma unlock_fields [simp]: "ct_s (unlock c) = ct_s c" "ct_r (unlock c) = ct_r c" "ct_x (unlock c) = ct_x c" "ct_req (unlock c) = ct_req c"
  by (simp_all add: unlock_def)

lemma x_keeps_fail: "ct_r c' = ct_r c \<Longrightarrow> pend (ct_s c') = pend (ct_s c) \<Longrightarrow> x_keeps c (excl_fail now c')"
  by (simp add: x_keeps_def excl_fail_def)

lemma x_keeps_room: "ct_r c' = ct_r c \<Longrightarrow> pend (ct_s c') = pend (ct_s c) \<Longrightarrow> x_keeps c (snd (excl_room now c'))"
  by (auto simp: x_keeps_def excl_room_def excl_begin_drain_def excl_fail_def Let_def)

lemma x_keeps_empty:
  "ct_r c' = ct_r c \<Longrightarrow> pend (ct_s c') = pend (ct_s c) \<Longrightarrow> x_keeps c (excl_empty now ns moved c')"
  by (induction now ns moved c' rule: excl_empty.induct) (auto simp: x_keeps_def Let_def upd_entry_def split: option.splits)

lemma x_keeps_not_freed:
  "ct_r c' = ct_r c \<Longrightarrow> pend (ct_s c') = pend (ct_s c) \<Longrightarrow> x_keeps c (snd (excl_not_freed now moved dl c'))"
  by (simp add: excl_not_freed_def x_keeps_fail) (simp add: x_keeps_def)

lemma x_keeps_freed_end: "x_keeps c (snd (excl_freed_end now moved dl c))"
  by (simp add: excl_freed_end_def x_keeps_not_freed) (simp add: x_keeps_def excl_grant_def)

lemma x_keeps_sampled: "x_smp (ct_x c) \<noteq> None \<Longrightarrow> x_keeps c (snd (x_sampled now c))"
  by (cases "ct_x c")
    (auto simp: x_sampled_def excl_first_sampled_def excl_room_sampled_def excl_drained_sampled_def excl_verify_sampled_def
      Let_def intro!: x_keeps_fail x_keeps_room x_keeps_empty x_keeps_not_freed x_keeps_freed_end, simp_all add: x_keeps_def)


lemma x_with_smp: "x_smp x \<noteq> None \<Longrightarrow> x_smp (x_with m x) = Some m"
  by (cases x) simp_all

lemma x_keeps_performed: "x_keeps c (snd (excl_performed now a todo moved out c))"
  by (simp add: excl_performed_def Let_def x_keeps_empty x_keeps_fail)

lemma x_keeps_asked: "x_keeps c (snd (excl_asked now moved dl g n rest ans c))"
  by (auto simp: excl_asked_def intro!: x_keeps_not_freed split: option.split) (simp_all add: x_keeps_def)

lemma x_keeps_drain_ended: "x_keeps c (snd (excl_drain_ended now b c))"
  by (simp add: excl_drain_ended_def Let_def x_keeps_fail) (simp add: x_keeps_def)

lemma x_keeps_cancel: "x_keeps c (excl_cancel now c)"
  unfolding excl_cancel_def by (rule x_keeps_fail) (simp_all split: xpc.split)

lemma refresh_sampled_keeps:
  "pend (ct_s (refresh_sampled now c)) = pend (ct_s c)" "r_smp (ct_r (refresh_sampled now c)) = None"
  "ct_x (refresh_sampled now c) = ct_x c"
proof -
  obtain act s1 where dec: "sched_decide now (ct_s c) = (act, s1)" by fastforce
  then have "pend s1 = pend (ct_s c)" using pend_decide [of now "ct_s c"] by (simp del: pend_decide)
  then show "pend (ct_s (refresh_sampled now c)) = pend (ct_s c)" "r_smp (ct_r (refresh_sampled now c)) = None"
    "ct_x (refresh_sampled now c) = ct_x c"
    by (auto simp: refresh_sampled_def refresh_done_def Let_def dec split: option.split)
qed

lemma r_lock: "ctl_ok c \<Longrightarrow> ct_r c \<noteq> R_idle \<Longrightarrow> x_smp (ct_x c) = None"
  by (auto simp: ctl_ok_def ctl_rel_def x_locked_def split: prod.splits)

lemma x_lock: "ctl_ok c \<Longrightarrow> x_smp (ct_x c) = Some m \<Longrightarrow> ct_r c = R_idle"
  by (auto simp: ctl_ok_def ctl_rel_def x_locked_def split: prod.splits)

lemma pend_ok_r:
  "pend_ok c \<Longrightarrow> 0 \<le> pend s \<Longrightarrow> carries (pend s) (r_smp r) \<Longrightarrow> x_smp (ct_x c) = None
    \<Longrightarrow> pend_ok (c\<lparr>ct_s := s, ct_lock := lk, ct_r := r\<rparr>)"
  by (simp add: pend_ok_def)

lemma smp_next_ok:
  assumes "pend_ok c" and "r_smp (ct_r c) = Some m \<or> x_smp (ct_x c) = Some m" and "smp_next now i m (ct_s c) = (r, s)"
  shows "0 \<le> pend s" and "carries (pend s) r"
  using assms smp_next_pend [OF assms(3)] by (auto simp: pend_ok_def split: option.splits)

lemma pend_ok_step: "cstep c c' \<Longrightarrow> ctl_ok c \<and> pend_ok c \<Longrightarrow> ctl_ok c' \<and> pend_ok c'"
proof (rule conjI, rule ctl_ok_step, assumption, blast)
  show "pend_ok c'" if "cstep c c'" and "ctl_ok c \<and> pend_ok c"
    using that
  proof (induction rule: cstep.induct)
    case (public c s)
    then show ?case using pend_public [OF public(1)] carries_mono by (auto simp: pend_ok_def ctl_ok_def)
  next
    case (r_sampled c m now i s now')
    with smp_next_ok [of c m now i None s] r_lock [of c] show ?case by (simp add: pend_ok_def refresh_sampled_keeps)
  next
    case (x_sampled c m now i s now')
    with smp_next_ok [of c m now i None s] x_lock [of c m] x_keeps_sampled [of "c\<lparr>ct_s := s\<rparr>" now'] show ?case
      by (auto simp: pend_ok_def x_keeps_def)
  next
    case (x_sample c m now i m' s)
    with smp_next_ok [of c m now i "Some m'" s] x_lock [of c m] show ?case by (simp add: pend_ok_def x_with_smp)
  next
    case (x_start r now wait drain c c')
    then show ?case by (auto simp: excl_start_def Let_def pend_ok_def split: if_splits)
  next
    case (x_lock c)
    then have "x_smp (x_with m (ct_x c)) = Some m" for m by (cases "ct_x c") (auto simp: x_wants_lock_def)
    with x_lock show ?case by (simp add: pend_ok_def smp_begin_def)
  next
    case (r_sample c m now i m' s)
    with smp_next_ok [of c m now i "Some m'" s] r_lock [of c] show ?case by (simp add: pend_ok_def)
  next
    case (p_sample c a m now i m' s)
    with smp_next_ok [of c m now i "Some m'" s] r_lock [of c] show ?case by (simp add: pend_ok_def)
  next
    case (p_sampled c a m now i s now')
    with smp_next_ok [of c m now i None s] r_lock [of c] show ?case by (simp add: pend_ok_def)
  next
    case (f_sample c m now i m' s)
    with smp_next_ok [of c m now i "Some m'" s] r_lock [of c] show ?case by (simp add: pend_ok_def)
  next
    case (f_sampled c m now i s now'' now')
    with smp_next_ok [of c m now i None s] r_lock [of c] show ?case by (simp add: pend_ok_def refresh_done_def)
  next
    case (x_asked c moved deadline on_gpu name rest now answer)
    then show ?case using x_keeps_ok x_keeps_asked by blast
  next
    case (x_freed c moved deadline on_gpu now)
    then show ?case using x_keeps_ok x_keeps_freed_end by blast
  next
    case (x_performed c a todo moved out now)
    then show ?case using x_keeps_ok x_keeps_performed by blast
  next
    case (x_drain_set c now)
    then show ?case using x_keeps_ok x_keeps_drain_ended by blast
  next
    case (x_drain_timeout c now)
    then show ?case using x_keeps_ok x_keeps_drain_ended by blast
  next
    case (x_cancel c now)
    then show ?case using x_keeps_ok x_keeps_cancel by blast
  qed (auto simp: pend_ok_def smp_begin_def refresh_done_def)
qed

interpretation releases: preserved cstep "\<lambda>c. ctl_ok c \<and> pend_ok c"
  by unfold_locales (rule pend_ok_step)

lemma reachable_inv: "reachable c \<Longrightarrow> ctl_ok c \<and> pend_ok c"
proof -
  assume "reachable c"
  then obtain a config control units rnd x where a: "ComputeConfig_init a = Inr config"
    and run: "cstep\<^sup>*\<^sup>* (boot config control units rnd x) c"
    by (auto simp: reachable_def)
  have "reachable (boot config control units rnd x)" using a unfolding reachable_def by blast
  then have "ctl_ok (boot config control units rnd x) \<and> pend_ok (boot config control units rnd x)"
    using reachable_ctl_ok by (simp add: pend_ok_def boot_def new_scheduler_def)
  from releases.run_inv [OF run this] show ?thesis .
qed

lemma reachable_pend: "reachable c \<Longrightarrow> 0 \<le> pend (ct_s c)"
  using reachable_inv by (auto simp: pend_ok_def)

section \<open>The Exclusive grant\<close>

lemma no_gpu_vram:
  assumes "books s" and "local_gpu_leases s = []" and "cs_exclusive s = None"
  shows "lease_vram s = 0"
proof -
  have "vram_in (ledger s) l = 0" if l: "l \<in> set (shared_leases s)" for l
  proof -
    from shared_lease_of [OF assms(1) l] obtain x n where x: "ledger s l = Some x" "shared_lease n x" by blast
    then have "cl_placement (lease_at s l) = cl_placement x" by (auto simp: ledger_def lease_at_def)
    with l assms(2) have "cl_placement x \<noteq> LOCAL_GPU" by (auto simp: local_gpu_leases_def filter_empty_conv)
    with x show ?thesis by (cases "cl_placement x") (auto simp: vram_in_def shared_lease_def)
  qed
  then have "map (vram_in (ledger s)) (shared_leases s) = map (\<lambda>_. 0) (shared_leases s)" by (intro map_cong) auto
  then have "sum_list (map (vram_in (ledger s)) (shared_leases s)) = 0" by (simp only: sum_list_0)
  then show ?thesis by (simp add: lease_vram_def assms(3))
qed

lemma exclusive_takes:
  assumes "books s" and "local_gpu_leases s = []" and "cs_exclusive s = None" and pend: "0 \<le> pend s"
    and dev: "cs_device s = Some dev" and need: "0 \<le> cr_vram r"
  shows "available (vram_of dev (grant_exclusive now r s)) = available (vram_of dev s) - cr_vram r"
proof -
  have e: "extra_reserved s = pend s" using no_gpu_vram [OF assms(1-3)] by (simp add: extra_reserved_split)
  have "extra_reserved (grant_exclusive now r s) = pend s + cr_vram r"
    by (simp add: extra_reserved_def grant_exclusive_def alloc_lease_def lease_at_def new_lease_def)
  moreover have "sched_headroom dev (grant_exclusive now r s) = sched_headroom dev s"
    "usages (grant_exclusive now r s) = usages s" "cs_processes (grant_exclusive now r s) = cs_processes s"
    "cs_extra_baseline (grant_exclusive now r s) = external (vram_of dev s)"
    using dev by (simp_all add: grant_exclusive_def alloc_lease_def sched_headroom_def vram_def)
  ultimately show ?thesis
    using account_extra(1) [OF pend need, of dev "cs_processes s" "usages s" "sched_headroom dev s" "cs_extra_baseline s"]
    by (simp add: vram_of_account e)
qed

end
