(* ===== verification/Compute_Line.thy ===== *)
theory Compute_Line
  imports Compute_Control_Facts
begin

text \<open>
  The waiting line of the compute scheduler: what one pass over it (\<open>pump\<close>) does to each waiter,
  and that nobody overtakes a waiter that waits for the same resource.
\<close>

section \<open>One waiter\<close>

lemma find_map_other:
  "(\<And>w. P (f w) = P w) \<Longrightarrow> (\<And>w. P w \<Longrightarrow> f w = w) \<Longrightarrow> find P (map f ws) = find P ws"
  by (induction ws) auto

lemma waiter_at_upd_other [simp]: "(\<And>w. wt_seq (f w) = wt_seq w) \<Longrightarrow> n \<noteq> k \<Longrightarrow> waiter_at n (upd_waiter k f s) = waiter_at n s"
  by (simp add: waiter_at_def upd_waiter_def find_map_other)

lemma waiter_at_upd_same:
  assumes "\<And>w. wt_seq (f w) = wt_seq w"
  shows "waiter_at n (upd_waiter n f s) = map_option f (waiter_at n s)"
proof -
  have "find (\<lambda>w. wt_seq w = n) (map (\<lambda>w. if wt_seq w = n then f w else w) ws) = map_option f (find (\<lambda>w. wt_seq w = n) ws)" for ws
    using assms by (induction ws) auto
  then show ?thesis by (simp add: waiter_at_def upd_waiter_def)
qed

lemma waiter_at_drop [simp]: "waiter_at n (drop_waiter k s) = (if n = k then None else waiter_at n s)"
proof -
  have "find (\<lambda>w. wt_seq w = n) (filter (\<lambda>w. wt_seq w \<noteq> k) ws) = (if n = k then None else find (\<lambda>w. wt_seq w = n) ws)" for ws
    by (induction ws) auto
  from this [of "cs_waiters s"] show ?thesis by (simp only: waiter_at_def drop_waiter_def) simp
qed

lemma waiter_at_line: "line s' = line s \<Longrightarrow> waiter_at n s' = waiter_at n s \<and> cs_futures s' = cs_futures s"
  by (simp add: line_def waiter_at_def)

lemma futures_simps [simp]:
  "cs_futures (upd_waiter k f s) = cs_futures s" "cs_futures (drop_waiter k s) = cs_futures s"
  by (simp_all add: upd_waiter_def drop_waiter_def)

lemma granted_line [simp]:
  "waiter_at n (grant_local now r p d s) = waiter_at n s" "cs_futures (grant_local now r p d s) = cs_futures s"
  "waiter_at n (warn_request now r g s) = waiter_at n s" "cs_futures (warn_request now r g s) = cs_futures s"
  using waiter_at_line [of "grant_local now r p d s" s n] waiter_at_line [of "warn_request now r g s" s n] by simp_all

lemma waiter_at_futures [simp]: "waiter_at n (s\<lparr>cs_futures := f\<rparr>) = waiter_at n s"
  by (simp add: waiter_at_def)

text \<open>The other waiters are left alone; a resource that is blocked stays blocked.\<close>

lemma pump_one_other:
  "pump_one now w (s, b, v) = (s', b', v') \<Longrightarrow> n \<noteq> wt_seq w \<Longrightarrow> waiter_at n s' = waiter_at n s \<and> cs_futures s' n = cs_futures s n"
  by (auto simp: pump_one_def Let_def split: if_splits option.splits prod.splits)

lemma pump_one_blocks:
  "pump_one now w (s, b, v) = (s', b', v') \<Longrightarrow> (b name \<noteq> None \<longrightarrow> b' name \<noteq> None) \<and> (v \<longrightarrow> v')"
  by (auto simp: pump_one_def Let_def split: if_splits option.splits prod.splits)

lemma pump_one_capacity:
  "pump_one now w (s, b, v) = (s', b', v') \<Longrightarrow> (\<And>n x. b n = Some x \<Longrightarrow> x \<in> CAPACITY_REFUSALS)
    \<Longrightarrow> b' n = Some x \<Longrightarrow> x \<in> CAPACITY_REFUSALS"
  by (auto simp: pump_one_def Let_def split: if_splits option.splits prod.splits)

definition cpus :: "scheduler \<Rightarrow> (pystr \<times> bool) list" where
  "cpus s = map (\<lambda>d. (dp_name d, on_cpu d)) (cs_entries s)"

lemma cpus_upd_entry: "(\<And>d. dp_name (f d) = dp_name d \<and> on_cpu (f d) = on_cpu d) \<Longrightarrow> cpus (upd_entry n f s) = cpus s"
  by (auto simp: cpus_def upd_entry_def)

lemma cpus_ops [simp]:
  "cpus (upd_waiter k f s) = cpus s" "cpus (drop_waiter k s) = cpus s" "cpus (s\<lparr>cs_futures := fs\<rparr>) = cpus s"
  "cpus (warn_request now r g s) = cpus s" "cpus (grant_local now r p d s) = cpus s"
proof -
  have "cpus (rebase n t) = cpus t" "cpus (alloc_lease x t) = cpus t" for n t x
    by (simp_all add: cpus_def rebase_def alloc_lease_def Let_def split: option.split)
  then show "cpus (grant_local now r p d s) = cpus s"
    by (simp add: grant_local_def reserve_def Let_def cpus_upd_entry on_cpu_def)
qed (simp_all add: cpus_def upd_waiter_def drop_waiter_def warn_request_def emit_def split: option.split)

lemma pump_one_cpus: "pump_one now w (s, b, v) = (s', b', v') \<Longrightarrow> cpus s' = cpus s"
  by (auto simp: pump_one_def Let_def split: if_splits option.splits prod.splits)

lemma cpus_entry:
  assumes "cpus s' = cpus s"
  shows "map_option on_cpu (entry_of s' n) = map_option on_cpu (entry_of s n)"
proof -
  have "map_option on_cpu (find (\<lambda>d. dp_name d = n) ds) = map_option snd (find (\<lambda>p. fst p = n) (map (\<lambda>d. (dp_name d, on_cpu d)) ds))" for ds
    by (induction ds) auto
  with assms show ?thesis by (simp add: entry_of_def cpus_def)
qed

text \<open>A waiter that is looked at gets its lease, or stays with the reason of this pass.\<close>

lemma pump_one_self:
  assumes "pump_one now w (s, b, v) = (s', b', v')" and "cs_futures s (wt_seq w) = Pending"
    and "cr_deployment (wt_request w) = Some name" and "entry_of s name = Some d" and "\<And>n x. b n = Some x \<Longrightarrow> x \<in> CAPACITY_REFUSALS"
  shows "waiter_at (wt_seq w) s' = None
    \<or> cs_futures s' (wt_seq w) = Pending
      \<and> (\<exists>x. waiter_at (wt_seq w) s' = map_option (note_refusal x) (waiter_at (wt_seq w) s)
          \<and> (x \<in> CAPACITY_REFUSALS \<longrightarrow> b' name \<noteq> None) \<and> (x = INSUFFICIENT_FREE_VRAM \<longrightarrow> v'))"
proof -
  have "INSUFFICIENT_FREE_VRAM \<notin> CAPACITY_REFUSALS" by (simp add: CAPACITY_REFUSALS_def)
  with assms show ?thesis
    by (auto simp: pump_one_def Let_def waiter_at_upd_same split: if_splits option.splits prod.splits)
qed

text \<open>A waiter of a blocked resource stays.\<close>

lemma pump_one_blocked:
  assumes "pump_one now w (s, b, v) = (s', b', v')" and "cs_futures s (wt_seq w) = Pending"
    and "cr_deployment (wt_request w) = Some name"
    and "b name \<noteq> None \<or> v \<and> cr_vram (wt_request w) > 0 \<and> map_option on_cpu (entry_of s name) = Some False"
  shows "cs_futures s' (wt_seq w) = Pending"
  using assms by (auto simp: pump_one_def Let_def split: if_splits option.splits prod.splits)

section \<open>The whole line\<close>

lemma pump_fold_other:
  "fold (pump_one now) ws (s, b, v) = (s', b', v') \<Longrightarrow> n \<notin> wt_seq ` set ws
    \<Longrightarrow> waiter_at n s' = waiter_at n s \<and> cs_futures s' n = cs_futures s n"
proof (induction ws arbitrary: s b v)
  case (Cons w ws)
  obtain s1 b1 v1 where st: "pump_one now w (s, b, v) = (s1, b1, v1)" by (cases "pump_one now w (s, b, v)")
  with Cons.IH [of s1 b1 v1] pump_one_other [OF st, of n] Cons.prems show ?case by simp
qed simp

lemma pump_fold_keeps:
  "fold (pump_one now) ws (s, b, v) = (s', b', v') \<Longrightarrow> (\<And>n x. b n = Some x \<Longrightarrow> x \<in> CAPACITY_REFUSALS)
    \<Longrightarrow> (b name \<noteq> None \<longrightarrow> b' name \<noteq> None) \<and> (v \<longrightarrow> v') \<and> cpus s' = cpus s \<and> (\<forall>n x. b' n = Some x \<longrightarrow> x \<in> CAPACITY_REFUSALS)"
proof (induction ws arbitrary: s b v)
  case (Cons w ws)
  obtain s1 b1 v1 where st: "pump_one now w (s, b, v) = (s1, b1, v1)" by (cases "pump_one now w (s, b, v)")
  have "\<And>n x. b1 n = Some x \<Longrightarrow> x \<in> CAPACITY_REFUSALS" using pump_one_capacity [OF st] Cons.prems(2) by blast
  with Cons.IH [of s1 b1 v1] pump_one_blocks [OF st, of name] pump_one_cpus [OF st] Cons.prems st show ?case by simp
qed simp

lemma split_two:
  assumes "sorted (map f ws)" and "distinct ws" and "x \<in> set ws" "y \<in> set ws" and "f x < (f y :: 'k :: linorder)"
  shows "\<exists>xs ys zs. ws = xs @ x # ys @ y # zs"
proof -
  from split_list [OF assms(3)] obtain xs rest where ws: "ws = xs @ x # rest" by blast
  have "y \<notin> set xs" using assms(1,5) by (auto simp: ws sorted_append)
  moreover have "y \<noteq> x" using assms(5) by auto
  ultimately have "y \<in> set rest" using assms(4) ws by auto
  from split_list [OF this] ws show ?thesis by blast
qed

text \<open>
  What a pass does to two waiters, the second behind the first: while the first waits for
  capacity of the model they share, or for VRAM that both need, the second is not served.
\<close>

lemma pump_fold_two:
  assumes ws: "ws = xs @ x # ys @ y # zs" and dist: "distinct (map wt_seq ws)"
    and run: "fold (pump_one now) ws (s, (\<lambda>_. None), False) = (s', b', v')"
    and pending: "cs_futures s (wt_seq x) = Pending" "cs_futures s (wt_seq y) = Pending"
    and x: "cr_deployment (wt_request x) = Some nx" "entry_of s nx \<noteq> None"
    and y: "cr_deployment (wt_request y) = Some ny"
    and waits: "waiter_at (wt_seq x) s' = Some u"
    and why: "wt_last u \<in> CAPACITY_REFUSALS \<and> nx = ny
      \<or> wt_last u = INSUFFICIENT_FREE_VRAM \<and> cr_vram (wt_request y) > 0 \<and> map_option on_cpu (entry_of s ny) = Some False"
  shows "cs_futures s' (wt_seq y) = Pending"
proof -
  obtain s1 b1 v1 where 1: "fold (pump_one now) xs (s, (\<lambda>_. None), False) = (s1, b1, v1)" by (metis prod_cases3)
  obtain s2 b2 v2 where 2: "pump_one now x (s1, b1, v1) = (s2, b2, v2)" by (metis prod_cases3)
  obtain s3 b3 v3 where 3: "fold (pump_one now) ys (s2, b2, v2) = (s3, b3, v3)" by (metis prod_cases3)
  obtain s4 b4 v4 where 4: "pump_one now y (s3, b3, v3) = (s4, b4, v4)" by (metis prod_cases3)
  have 5: "fold (pump_one now) zs (s4, b4, v4) = (s', b', v')" using run by (simp add: ws 1 2 3 4)
  have seqs: "wt_seq x \<notin> wt_seq ` set xs" "wt_seq y \<notin> wt_seq ` set xs" "wt_seq x \<notin> wt_seq ` set (ys @ y # zs)"
      "wt_seq y \<notin> wt_seq ` set ys" "wt_seq y \<noteq> wt_seq x" "wt_seq y \<notin> wt_seq ` set zs"
    using dist by (auto simp: ws)
  have cap1: "b1 n = Some r \<Longrightarrow> r \<in> CAPACITY_REFUSALS" and cpu1: "cpus s1 = cpus s" for n r
    using pump_fold_keeps [OF 1] by auto
  have cap2: "b2 n = Some r \<Longrightarrow> r \<in> CAPACITY_REFUSALS" for n r using pump_one_capacity [OF 2 cap1] .
  have cpu3: "cpus s3 = cpus s" using pump_fold_keeps [OF 3 cap2] pump_one_cpus [OF 2] cpu1 by simp
  have "map_option on_cpu (entry_of s1 nx) = map_option on_cpu (entry_of s nx)" by (rule cpus_entry [OF cpu1])
  with x(2) obtain d where d: "entry_of s1 nx = Some d" by (cases "entry_of s1 nx") auto
  have "fold (pump_one now) (ys @ y # zs) (s2, b2, v2) = (s', b', v')" by (simp add: 3 4 5)
  from pump_fold_other [OF this seqs(3)] waits have "waiter_at (wt_seq x) s2 = Some u" by simp
  moreover have "cs_futures s1 (wt_seq x) = Pending" using pump_fold_other [OF 1 seqs(1)] pending(1) by simp
  ultimately have refused: "(wt_last u \<in> CAPACITY_REFUSALS \<longrightarrow> b2 nx \<noteq> None) \<and> (wt_last u = INSUFFICIENT_FREE_VRAM \<longrightarrow> v2)"
    using pump_one_self [OF 2 _ x(1) d] cap1 by fastforce
  have "cs_futures s3 (wt_seq y) = Pending"
    using pump_fold_other [OF 3 seqs(4)] pump_one_other [OF 2 seqs(5)] pump_fold_other [OF 1 seqs(2)] pending(2) by simp
  moreover have "b3 ny \<noteq> None \<or> v3 \<and> cr_vram (wt_request y) > 0 \<and> map_option on_cpu (entry_of s3 ny) = Some False"
    using why refused pump_fold_keeps [OF 3 cap2] cpus_entry [OF cpu3, of ny] by auto
  ultimately have "cs_futures s4 (wt_seq y) = Pending" using pump_one_blocked [OF 4 _ y] by blast
  then show ?thesis using pump_fold_other [OF 5 seqs(6)] by simp
qed

end
