(* ===== verification/Compute_Scheduler_Runs.thy ===== *)
theory Compute_Scheduler_Runs
  imports Compute_Control_Facts
begin

text \<open>
  Two concrete runs of the compute scheduler, on which its properties are shown to apply.
\<close>

section \<open>A run\<close>

text \<open>A workspace with one model that is not loaded; an Exclusive job asks for the GPU and gets it.\<close>

definition demo_spec :: DeploymentSpec where
  "demo_spec = \<lparr>ds_name = cp ''main'', ds_role = MAIN, weights_bytes = 40, kv_pool_bytes = 20, runtime_bytes = 0,
     workspace_bytes = 0, kv_bytes_per_token = 1, ds_max_sequences = 4, max_context_tokens = 16, residency = ALWAYS,
     cpu_fallback = False, initial = DeploymentState_UNLOADED\<rparr>"

definition demo_args :: config_args where
  "demo_args = \<lparr>c_deployments = Inst [Inst demo_spec], c_gpu_index = PyInt 0, c_headroom_min = PyInt 4,
     c_headroom_fraction = NumFloat 0, c_kv_safety = NumInt 1,
     c_class_ceilings = Inst [INTERACTIVE \<mapsto> NumInt 1, CODING \<mapsto> NumInt 1, SUPPORT \<mapsto> NumInt 1, BACKGROUND \<mapsto> NumInt 1],
     c_probe_max_age = NumInt 15, c_restore_margin = None, c_pressure_fraction = NumInt 1, c_max_waiters = PyInt 8,
     c_verify_timeout = NumInt 60, c_verify_poll = NumInt 2, c_failed_retry = NumInt 60, c_warning_interval = NumInt 300\<rparr>"

definition demo_config :: ComputeConfig where
  "demo_config = \<lparr>deployments = [demo_spec], gpu_index = 0, headroom_min_bytes = 4, headroom_fraction = 0, kv_safety = 1,
     class_ceilings = [INTERACTIVE \<mapsto> 1, CODING \<mapsto> 1, SUPPORT \<mapsto> 1, BACKGROUND \<mapsto> 1], probe_max_age_seconds = 15,
     restore_margin_bytes = None, pressure_context_fraction = 1, max_waiters = 8, verify_timeout_seconds = 60,
     verify_poll_seconds = 2, failed_retry_seconds = 60, vram_warning_interval_seconds = 300\<rparr>"

lemma demo_config_accepted: "ComputeConfig_init demo_args = Inr demo_config"
  by (simp add: ComputeConfig_init_def demo_args_def demo_config_def check_deployments_def compute_check_int_def
      check_number_def num_value_def check_ceilings_def ceiling_of_def SHARED_CLASSES_def rbind_def MAX_BYTES_def
      MAX_HEADROOM_FRACTION_def)

definition demo_device :: GpuDevice where
  "demo_device = \<lparr>d_index = 0, d_uuid = cp ''GPU'', d_name = cp ''gpu'', total_bytes = 100, used_bytes = 0,
     utilization_percent = None\<rparr>"

definition demo_request :: ComputeRequest where
  "demo_request = \<lparr>cr_class = EXCLUSIVE, cr_deployment = None, cr_tokens = 0, cr_vram = 90, cr_cloud = False,
     cr_task = None\<rparr>"

definition demo_answers :: answers where
  "demo_answers = \<lparr>an_probe = Some \<lparr>gs_devices = [demo_device], gs_processes = []\<rparr>, an_pids = None,
     an_kv = NotANumber, an_unit = None\<rparr>"

definition demo_xdata :: xdata where
  "demo_xdata = \<lparr>x_request = demo_request, x_deadline = 10, x_drain = None, x_drain_started = 0, x_drain_deadline = 0\<rparr>"

definition demo_boot :: control where
  "demo_boot = boot demo_config False False (\<lambda>x. x) demo_xdata"

text \<open>The three readings of the run, each published at once, as one function.\<close>

definition demo_read :: "control \<Rightarrow> control" where
  "demo_read c =
     (let p = \<lparr>sm_carried = 0, sm_device = demo_device, sm_processes = [], sm_at = 0, sm_todo = [],
               sm_inspected = (\<lambda>_. None)\<rparr>
      in c\<lparr>ct_s := sample_publish p (ct_s c)\<rparr>)"

text \<open>A reading of a scheduler with the one model off the GPU takes three steps.\<close>

definition demo_asked :: "control \<Rightarrow> control" where
  "demo_asked c = c\<lparr>ct_x := x_with (Inspecting \<lparr>sm_carried = 0, sm_device = demo_device, sm_processes = [], sm_at = 0,
     sm_todo = [], sm_inspected = (\<lambda>_. None)\<rparr>) (ct_x c)\<rparr>"

lemma demo_reading_steps:
  assumes "x_smp (ct_x c) = Some (Reading 0)" and "cs_entries (ct_s c) = [d]" and "dp_name d = cp ''main''"
    and "\<not> counts_on_gpu d" and "gpu_index (cs_config (ct_s c)) = 0"
  shows "cstep\<^sup>*\<^sup>* c (demo_asked c) \<and> cstep (demo_asked c) (snd (x_sampled 0 ((demo_read c)\<lparr>ct_x := x_with (Inspecting
      \<lparr>sm_carried = 0, sm_device = demo_device, sm_processes = [], sm_at = 0, sm_todo = [], sm_inspected = (\<lambda>_. None)\<rparr>) (ct_x c)\<rparr>)))"
proof -
  let ?p = "\<lambda>todo. \<lparr>sm_carried = 0, sm_device = demo_device, sm_processes = [], sm_at = 0, sm_todo = todo,
    sm_inspected = (\<lambda>_. None)\<rparr>"
  let ?c = "\<lambda>todo. c\<lparr>ct_x := x_with (Inspecting (?p todo)) (ct_x c)\<rparr>"
  have smp: "x_smp (x_with m (ct_x c)) = Some m" "x_with m' (x_with m (ct_x c)) = x_with m' (ct_x c)" for m m'
    using assms(1) by (cases "ct_x c"; simp)+
  have "smp_next 0 demo_answers (Reading 0) (ct_s c) = (Some (Inspecting (?p [cp ''main''])), ct_s c)"
    using assms by (simp add: smp_next_def sample_read_def demo_answers_def sample_device_def demo_device_def
        processes_on_def ordered_def)
  from cstep.x_sample [OF assms(1) this] have 1: "cstep c (?c [cp ''main''])" by simp
  have "smp_next 0 demo_answers (Inspecting (?p [cp ''main''])) (ct_s (?c [cp ''main''])) = (Some (Inspecting (?p [])), ct_s c)"
    using assms by (simp add: smp_next_def sample_inspect_def entry_of_def)
  from cstep.x_sample [OF _ this] have 2: "cstep (?c [cp ''main'']) (?c [])" by (simp add: smp)
  have "smp_next 0 demo_answers (Inspecting (?p [])) (ct_s (?c [])) = (None, sample_publish (?p []) (ct_s c))"
    by (simp add: smp_next_def)
  from cstep.x_sampled [OF _ this, of 0]
  have 3: "cstep (?c []) (snd (x_sampled 0 ((?c [])\<lparr>ct_s := sample_publish (?p []) (ct_s c)\<rparr>)))" by (simp add: smp)
  have "(?c [])\<lparr>ct_s := sample_publish (?p []) (ct_s c)\<rparr> = (demo_read c)\<lparr>ct_x := x_with (Inspecting (?p [])) (ct_x c)\<rparr>"
    by (simp add: demo_read_def)
  moreover have "demo_asked c = ?c []" by (simp add: demo_asked_def)
  ultimately show ?thesis using 1 2 3
    by (metis (no_types, lifting) converse_rtranclp_into_rtranclp rtranclp.rtrancl_refl)
qed

lemma demo_reading:
  assumes "x_smp (ct_x c) = Some (Reading 0)" and "cs_entries (ct_s c) = [d]" and "dp_name d = cp ''main''"
    and "\<not> counts_on_gpu d" and "gpu_index (cs_config (ct_s c)) = 0"
  shows "cstep\<^sup>*\<^sup>* c (snd (x_sampled 0 ((demo_read c)\<lparr>ct_x := x_with (Inspecting
      \<lparr>sm_carried = 0, sm_device = demo_device, sm_processes = [], sm_at = 0, sm_todo = [], sm_inspected = (\<lambda>_. None)\<rparr>) (ct_x c)\<rparr>)))"
  using demo_reading_steps [OF assms] by (meson rtranclp.rtrancl_into_rtrancl)

definition demo_entry :: Deployment where
  "demo_entry = (new_deployment demo_spec)\<lparr>dp_pids := Some {}\<rparr>"

definition demo_sched :: "SchedulerMode \<Rightarrow> nat \<Rightarrow> scheduler" where
  "demo_sched mode n = (new_scheduler demo_config False False (\<lambda>x. x))
     \<lparr>cs_entries := [demo_entry], cs_device := Some demo_device, cs_sampled_at := Some 0, cs_mode := mode,
      cs_mode_changes := n, cs_exclusive_pending := True\<rparr>"

text \<open>The state in which the job holds the GPU.\<close>

definition demo_held :: control where
  "demo_held = \<lparr>ct_s = (demo_sched SchedulerMode_EXCLUSIVE 2)
       \<lparr>cs_exclusive_pending := False, cs_exclusive := Some 0, cs_next_lease := 1,
        cs_heap := [0 \<mapsto> new_lease 0 demo_request LOCAL_GPU 0]\<rparr>,
     ct_lock = Lock_free, ct_r = R_idle, ct_x = X_off, ct_req = demo_xdata\<lparr>x_drain_deadline := 10\<rparr>\<rparr>"

lemmas demo_simps = demo_entry_def demo_sched_def new_scheduler_def demo_config_def new_deployment_def demo_spec_def
  demo_device_def demo_request_def demo_xdata_def

lemma demo_published:
  "sample_publish \<lparr>sm_carried = 0, sm_device = demo_device, sm_processes = [], sm_at = 0, sm_todo = [],
     sm_inspected = (\<lambda>_. None)\<rparr> (demo_sched m n) = demo_sched m n"
  by (simp add: sample_publish_def Let_def publish_entry_def counts_on_gpu_def demo_simps)

lemma demo_vram: "vram (demo_sched m n) = Some \<lparr>vv_total = 100, actual = 0, reserved = 0, own_actual = 0, external = 0,
    committed = 0, headroom = 4, available = 96, extra_use = 0\<rparr>"
  by (simp add: vram_def vram_of_def account_def ordered_def counts_on_gpu_def sched_headroom_def headroom_bytes_def
      extra_reserved_def shared_leases_def Let_def demo_simps)

lemma demo_facts [simp]:
  "fresh 0 (demo_sched m n)" "\<not> cs_control (demo_sched m n)" "cs_entries (demo_sched m n) = [demo_entry]"
  "\<not> counts_on_gpu demo_entry" "ordered (demo_sched m n) = [demo_entry]" "dp_name demo_entry = cp ''main''"
  "external_room demo_request (demo_sched m n)" "local_gpu_leases (demo_sched m n) = []"
  "cs_pending_release (demo_sched m n) = 0" "cs_config (demo_sched m n) = demo_config" "gpu_index demo_config = 0"
  "cs_mode (demo_sched m n) = m" "(demo_sched m n)\<lparr>cs_exclusive_waits := False\<rparr> = demo_sched m n"
  "entry_of (demo_sched m n) (cp ''main'') = Some demo_entry" "cs_rnd (demo_sched m n) = (\<lambda>x. x)"
  "set_mode m' (demo_sched m n) = (if m' = m then demo_sched m n else demo_sched m' (Suc n))"
  by (simp_all add: fresh_def counts_on_gpu_def ordered_def external_room_def demo_vram free_vram_after_emptying_def
      local_gpu_leases_def shared_leases_def entry_of_def set_mode_def) (simp_all add: demo_simps)

definition demo_asks :: control where
  "demo_asks = \<lparr>ct_s = (new_scheduler demo_config False False (\<lambda>x. x))\<lparr>cs_exclusive_pending := True\<rparr>,
     ct_lock = Lock_free, ct_r = R_idle, ct_x = X_first None, ct_req = demo_xdata\<rparr>"

definition demo_drains :: "lock_holder \<Rightarrow> xpc \<Rightarrow> control" where
  "demo_drains lk x = \<lparr>ct_s = demo_sched SchedulerMode_DRAINING 1, ct_lock = lk, ct_r = R_idle, ct_x = x,
     ct_req = demo_xdata\<lparr>x_drain_deadline := 10\<rparr>\<rparr>"

lemma demo_start: "cstep demo_boot demo_asks"
proof (rule cstep.x_start [of demo_request 0 10 None])
  show "excl_start 0 demo_request 10 None demo_boot = (Inr (), demo_asks)"
    by (simp add: excl_start_def demo_boot_def boot_def demo_asks_def demo_xdata_def new_scheduler_def)
qed (simp_all add: request_ok_def demo_request_def)

lemma demo_first: "cstep\<^sup>*\<^sup>* demo_asks (demo_drains Lock_free (X_drained False None))"
proof -
  let ?c = "demo_asks\<lparr>ct_lock := Lock_exclusive, ct_x := X_first (Some (Reading 0))\<rparr>"
  have "cstep demo_asks ?c"
    using cstep.x_lock [of demo_asks] by (simp add: demo_asks_def x_wants_lock_def smp_begin_def new_scheduler_def)
  also have "cstep\<^sup>*\<^sup>* ?c (snd (x_sampled 0 ((demo_read ?c)\<lparr>ct_x := x_with (Inspecting \<lparr>sm_carried = 0,
      sm_device = demo_device, sm_processes = [], sm_at = 0, sm_todo = [], sm_inspected = (\<lambda>_. None)\<rparr>) (ct_x ?c)\<rparr>)))"
    by (rule demo_reading [where d = "new_deployment demo_spec"])
      (simp_all add: demo_asks_def new_scheduler_def demo_config_def new_deployment_def demo_spec_def counts_on_gpu_def)
  also have "ct_s (demo_read ?c) = demo_sched SchedulerMode_NORMAL 0"
    by (simp add: demo_read_def demo_asks_def sample_publish_def publish_entry_def counts_on_gpu_def Let_def demo_simps)
  then have "snd (x_sampled 0 ((demo_read ?c)\<lparr>ct_x := x_with (Inspecting \<lparr>sm_carried = 0,
      sm_device = demo_device, sm_processes = [], sm_at = 0, sm_todo = [], sm_inspected = (\<lambda>_. None)\<rparr>) (ct_x ?c)\<rparr>))
      = demo_drains Lock_free (X_drained False None)"
    by (simp add: x_sampled_def excl_first_sampled_def excl_room_def excl_begin_drain_def demo_read_def demo_drains_def
        demo_asks_def unlock_def demo_xdata_def Let_def)
  finally show ?thesis .
qed

lemma demo_second: "cstep\<^sup>*\<^sup>* (demo_drains Lock_free (X_drained False None)) (demo_drains Lock_exclusive (X_verify [] 60 (Reading 0)))"
proof -
  let ?c = "demo_drains Lock_exclusive (X_drained False (Some (Reading 0)))"
  have "cstep (demo_drains Lock_free (X_drained False None)) ?c"
    using cstep.x_lock [of "demo_drains Lock_free (X_drained False None)"]
    by (simp add: demo_drains_def x_wants_lock_def smp_begin_def)
  also have "cstep\<^sup>*\<^sup>* ?c (snd (x_sampled 0 ((demo_read ?c)\<lparr>ct_x := x_with (Inspecting \<lparr>sm_carried = 0,
      sm_device = demo_device, sm_processes = [], sm_at = 0, sm_todo = [], sm_inspected = (\<lambda>_. None)\<rparr>) (ct_x ?c)\<rparr>)))"
    by (rule demo_reading [where d = demo_entry]) (simp_all add: demo_drains_def)
  also have "snd (x_sampled 0 ((demo_read ?c)\<lparr>ct_x := x_with (Inspecting \<lparr>sm_carried = 0,
      sm_device = demo_device, sm_processes = [], sm_at = 0, sm_todo = [], sm_inspected = (\<lambda>_. None)\<rparr>) (ct_x ?c)\<rparr>))
      = demo_drains Lock_exclusive (X_verify [] 60 (Reading 0))"
    by (simp add: x_sampled_def excl_drained_sampled_def exclusive_order_def demo_read_def demo_drains_def demo_published Let_def)
      (simp add: demo_xdata_def demo_config_def)
  finally show ?thesis .
qed

definition demo_last :: control where
  "demo_last = demo_asked (demo_drains Lock_exclusive (X_verify [] 60 (Reading 0)))"

lemma demo_third:
  "cstep\<^sup>*\<^sup>* (demo_drains Lock_exclusive (X_verify [] 60 (Reading 0))) demo_last" "cstep demo_last demo_held"
proof -
  let ?c = "demo_drains Lock_exclusive (X_verify [] 60 (Reading 0))"
  have "cstep\<^sup>*\<^sup>* ?c demo_last \<and> cstep demo_last (snd (x_sampled 0 ((demo_read ?c)\<lparr>ct_x := x_with (Inspecting \<lparr>sm_carried = 0,
      sm_device = demo_device, sm_processes = [], sm_at = 0, sm_todo = [], sm_inspected = (\<lambda>_. None)\<rparr>) (ct_x ?c)\<rparr>)))"
    unfolding demo_last_def by (rule demo_reading_steps [where d = demo_entry]) (simp_all add: demo_drains_def)
  moreover have "snd (x_sampled 0 ((demo_read ?c)\<lparr>ct_x := x_with (Inspecting \<lparr>sm_carried = 0,
      sm_device = demo_device, sm_processes = [], sm_at = 0, sm_todo = [], sm_inspected = (\<lambda>_. None)\<rparr>) (ct_x ?c)\<rparr>))
      = demo_held"
    by (simp add: x_sampled_def excl_verify_sampled_def excl_freed_end_def demo_read_def demo_drains_def demo_published
        demo_vram excl_grant_def grant_exclusive_def alloc_lease_def unlock_def set_mode_def Let_def)
      (simp add: demo_held_def demo_sched_def demo_xdata_def demo_request_def new_scheduler_def)
  ultimately show "cstep\<^sup>*\<^sup>* ?c demo_last" "cstep demo_last demo_held" by simp_all
qed

lemma demo_last_reachable: "reachable demo_last"
  unfolding reachable_def
  using demo_config_accepted demo_start demo_first demo_second demo_third(1) demo_boot_def
  by (metis (no_types, lifting) converse_rtranclp_into_rtranclp rtranclp_trans)

lemma reachable_step: "reachable c \<Longrightarrow> cstep c c' \<Longrightarrow> reachable c'"
  unfolding reachable_def by (meson rtranclp.rtrancl_into_rtrancl)

lemma demo_held_reachable: "reachable demo_held"
  using demo_last_reachable demo_third(2) by (rule reachable_step)

section \<open>A second run\<close>

text \<open>
  The model is loaded; its server takes one request at a time. Three requests arrive: the
  first gets a lease, the others wait; then an Exclusive job asks for the GPU and the drain
  begins.
\<close>

definition demo_refresh :: "answers \<Rightarrow> control \<Rightarrow> control" where
  "demo_refresh i c =
     (case ct_r c of
        R_idle \<Rightarrow> if ct_lock c = Lock_free then c\<lparr>ct_lock := Lock_refresh, ct_r := R_sample (smp_begin c)\<rparr> else c
      | R_sample m \<Rightarrow>
          (case smp_next 0 i m (ct_s c) of
             (Some m', s) \<Rightarrow> c\<lparr>ct_s := s, ct_r := R_sample m'\<rparr>
           | (None, s) \<Rightarrow> refresh_sampled 0 (c\<lparr>ct_s := s\<rparr>))
      | _ \<Rightarrow> c)"

lemma demo_refresh_steps: "cstep\<^sup>*\<^sup>* c (demo_refresh i c)"
  by (auto simp: demo_refresh_def split: rpc.split prod.split option.split
      intro!: r_into_rtranclp cstep.r_begin cstep.r_sample cstep.r_sampled)

definition demo_exclusive :: "answers \<Rightarrow> control \<Rightarrow> control" where
  "demo_exclusive i c =
     (case x_smp (ct_x c) of
        Some m \<Rightarrow>
          (case smp_next 0 i m (ct_s c) of
             (Some m', s) \<Rightarrow> c\<lparr>ct_s := s, ct_x := x_with m' (ct_x c)\<rparr>
           | (None, s) \<Rightarrow> snd (x_sampled 0 (c\<lparr>ct_s := s\<rparr>)))
      | None \<Rightarrow>
          if x_wants_lock (ct_x c) \<and> ct_lock c = Lock_free
          then c\<lparr>ct_lock := Lock_exclusive, ct_x := x_with (smp_begin c) (ct_x c)\<rparr> else c)"

lemma demo_exclusive_steps: "cstep\<^sup>*\<^sup>* c (demo_exclusive i c)"
  by (auto simp: demo_exclusive_def split: prod.split option.split
      intro!: r_into_rtranclp cstep.x_lock cstep.x_sample cstep.x_sampled)

definition demo_spec1 :: DeploymentSpec where
  "demo_spec1 = demo_spec\<lparr>ds_max_sequences := 1, initial := DeploymentState_GPU\<rparr>"

definition demo_config1 :: ComputeConfig where
  "demo_config1 = demo_config\<lparr>deployments := [demo_spec1]\<rparr>"

definition demo_answers1 :: answers where
  "demo_answers1 = demo_answers\<lparr>an_probe := Some \<lparr>gs_devices = [demo_device\<lparr>used_bytes := 60\<rparr>], gs_processes = []\<rparr>\<rparr>"

definition demo_ready :: control where
  "demo_ready = (demo_refresh demo_answers1 ^^ 4) (boot demo_config1 True False (\<lambda>x. x) demo_xdata)"

definition demo_ask :: ComputeRequest where
  "demo_ask = \<lparr>cr_class = INTERACTIVE, cr_deployment = Some (cp ''main''), cr_tokens = 4, cr_vram = 10, cr_cloud = False,
     cr_task = None\<rparr>"

lemma x_wants_lock_code [code]:
  "x_wants_lock x = (case x of X_first m \<Rightarrow> m = None | X_room_sample m \<Rightarrow> m = None | X_drained b m \<Rightarrow> m = None | _ \<Rightarrow> False)"
  by (auto simp: x_wants_lock_def split: xpc.split)

lemma is_none_smp [code_unfold]: "(m :: smp option) = None \<longleftrightarrow> Option.is_none m"
  by (cases m) simp_all

text \<open>The first request is granted, the next two wait.\<close>

definition demo_granted :: control where
  "demo_granted = demo_ready\<lparr>ct_s := snd (try_acquire 0 (Inst demo_ask) (ct_s demo_ready))\<rparr>"

definition demo_waits :: "control \<Rightarrow> control" where
  "demo_waits c = c\<lparr>ct_s := snd (acquire_shared 0 demo_ask 5 5 (hd (cs_entries (ct_s c))) (ct_s c))\<rparr>"

definition demo_queued :: control where
  "demo_queued = demo_waits (demo_waits demo_granted)"

definition demo_draining :: control where
  "demo_draining = (demo_exclusive demo_answers1 ^^ 4) (snd (excl_start 0 demo_request 10 None demo_queued))"

lemma reachable_steps: "reachable c \<Longrightarrow> cstep\<^sup>*\<^sup>* c c' \<Longrightarrow> reachable c'"
  unfolding reachable_def by (meson rtranclp_trans)

lemma demo_repeat: "(\<And>c. cstep\<^sup>*\<^sup>* c (f c)) \<Longrightarrow> cstep\<^sup>*\<^sup>* c ((f ^^ n) c)"
  by (induction n) (auto intro: rtranclp_trans)

definition demo_args1 :: config_args where
  "demo_args1 = demo_args\<lparr>c_deployments := Inst [Inst demo_spec1]\<rparr>"

lemma demo_ready_reachable: "reachable demo_ready"
proof -
  have "ComputeConfig_init demo_args1 = Inr demo_config1"
    by (simp add: ComputeConfig_init_def demo_args1_def demo_args_def demo_config1_def demo_config_def check_deployments_def
        compute_check_int_def check_number_def num_value_def check_ceilings_def ceiling_of_def SHARED_CLASSES_def rbind_def
        MAX_BYTES_def MAX_HEADROOM_FRACTION_def)
  then have "reachable (boot demo_config1 True False (\<lambda>x. x) demo_xdata)" unfolding reachable_def by blast
  from reachable_steps [OF this demo_repeat] demo_refresh_steps show ?thesis unfolding demo_ready_def by blast
qed

lemma demo_ask_ok [simp]: "request_ok demo_ask" "cr_class demo_ask = INTERACTIVE" "cr_deployment demo_ask = Some (cp ''main'')"
  by (simp_all add: request_ok_def demo_ask_def)

lemma demo_granted_reachable: "reachable demo_granted"
  unfolding demo_granted_def
  by (rule reachable_step [OF demo_ready_reachable]) (rule cstep.public, rule public_step.ps_try, simp)

lemma demo_waits_reachable:
  assumes "reachable c" and "entry_of (ct_s c) (cp ''main'') = Some (hd (cs_entries (ct_s c)))"
  shows "reachable (demo_waits c)"
proof -
  have "acquire_checks (Inst demo_ask) (NumInt 5) (NumInt 5) None (ct_s c) = Inr (demo_ask, 5, 5, None)"
    using assms(2) by (simp add: acquire_checks_def sched_check_request_def check_seconds_def check_number_def num_value_def rbind_def)
  from public_step.ps_acquire [OF this, of "hd (cs_entries (ct_s c))" 0] assms(2)
  show ?thesis unfolding demo_waits_def
    by (intro reachable_step [OF assms(1)] cstep.public) simp
qed

lemma demo_granted_main: "map dp_name (cs_entries (ct_s demo_granted)) = [cp ''main'']"
  by code_simp

lemma demo_granted_books:
  "let s = ct_s demo_granted in dp_reserved (hd (cs_entries s)) = 4 \<and> dp_leases (hd (cs_entries s)) = [0]"
  by code_simp

lemma demo_granted_view:
  "let s = ct_s demo_granted in (case (cs_heap s 0, cs_exclusive s, vram s) of
     (Some x, None, Some v) \<Rightarrow> \<not> cl_released x | _ \<Rightarrow> False)"
  by code_simp

lemma demo_queued_reachable: "reachable demo_queued"
proof -
  have main: "map dp_name (cs_entries (ct_s c)) = [cp ''main''] \<Longrightarrow> entry_of (ct_s c) (cp ''main'') = Some (hd (cs_entries (ct_s c)))" for c
    by (cases "cs_entries (ct_s c)") (auto simp: entry_of_def)
  have 2: "map dp_name (cs_entries (ct_s (demo_waits demo_granted))) = [cp ''main'']" by code_simp
  show ?thesis
    unfolding demo_queued_def
    by (intro demo_waits_reachable demo_granted_reachable main demo_granted_main 2)
qed

lemma demo_draining_reachable: "reachable demo_draining"
proof -
  have "reachable (snd (excl_start 0 demo_request 10 None demo_queued))"
  proof (cases "excl_start 0 demo_request 10 None demo_queued")
    case (Pair r c')
    show ?thesis
    proof (cases r)
      case (Inl e)
      with Pair have "c' = demo_queued" by (auto simp: excl_start_def Let_def split: if_splits)
      with Pair show ?thesis using demo_queued_reachable by simp
    next
      case (Inr u)
      have "cstep demo_queued c'"
        by (rule cstep.x_start [of demo_request 0 10 None]) (use Pair Inr in \<open>simp_all add: request_ok_def demo_request_def\<close>)
      with Pair show ?thesis using demo_queued_reachable reachable_step by simp
    qed
  qed
  from reachable_steps [OF this demo_repeat] demo_exclusive_steps show ?thesis unfolding demo_draining_def by blast
qed

lemma demo_admits: "judge 0 demo_ask True (hd (cs_entries (ct_s demo_ready))) (ct_s demo_ready) = (None, LOCAL_GPU)"
  by code_simp

lemma demo_ready_main: "map dp_name (cs_entries (ct_s demo_ready)) = [cp ''main'']"
  by code_simp

lemma demo_line: "map (\<lambda>w. (wt_seq w, wt_last w)) (cs_waiters (ct_s demo_queued)) = [(0, SEQUENCES_FULL), (1, SEQUENCES_FULL)]"
  by code_simp

lemma demo_line_requests: "list_all (\<lambda>w. wt_request w = demo_ask) (cs_waiters (ct_s demo_queued))"
  by code_simp

lemma demo_queued_main: "entry_of (ct_s demo_queued) (cp ''main'') = Some (hd (cs_entries (ct_s demo_queued)))"
proof -
  have "map dp_name (cs_entries (ct_s demo_queued)) = [cp ''main'']" by code_simp
  then show ?thesis by (cases "cs_entries (ct_s demo_queued)") (auto simp: entry_of_def)
qed

lemma demo_pumped: "map_option wt_last (waiter_at 0 (pump 0 (ct_s demo_queued))) = Some SEQUENCES_FULL"
  by code_simp

lemma demo_draining_pc: "case ct_x demo_draining of X_drain \<Rightarrow> True | _ \<Rightarrow> False"
  by code_simp

lemma demo_draining_lease:
  "let s = ct_s demo_draining in local_gpu_leases s = [0] \<and> cl_held (lease_at s 0) = None"
  by code_simp

end
