(* ===== verification/Compute_Scheduler_Properties.thy ===== *)
theory Compute_Scheduler_Properties
  imports Compute_Vram Compute_Line Compute_Scheduler_Runs
begin

text \<open>
  The properties of the compute scheduler, over the states its coroutines and its callers can
  reach (\<open>reachable\<close>), and of its decisions.
\<close>

section \<open>The Exclusive job\<close>

lemma lease_at_cases: "ledger s l = Some x \<Longrightarrow> erase (lease_at s l) = x"
  by (auto simp: ledger_def lease_at_def)

lemma lease_at_field:
  assumes "ledger s l = Some x"
  shows "cl_released (lease_at s l) = cl_released x" "cl_class (lease_at s l) = cl_class x"
    "cl_placement (lease_at s l) = cl_placement x" "cl_deployment (lease_at s l) = cl_deployment x"
    "cl_tokens (lease_at s l) = cl_tokens x" "cl_vram (lease_at s l) = cl_vram x"
  using assms by (auto simp: ledger_def lease_at_def)

lemma reachable_books: "reachable c \<Longrightarrow> books (ct_s c)"
  by (drule reachable_ctl_ok) (simp add: ctl_ok_def sched_ok_def)

text \<open>
  C8: while an Exclusive job holds its lease, in every state that the callers, the refresh loop and
  the Exclusive request can reach in any interleaving, the mode is EXCLUSIVE, the lease is live and for the local GPU, no
  other work has a lease on the local GPU, no model of the workspace counts as on the GPU (loaded, failed or busy), and
  no second Exclusive request is under way.
\<close>

theorem exclusive_has_gpu:
  assumes "reachable c" and "cs_exclusive (ct_s c) = Some l"
  shows "cs_mode (ct_s c) = SchedulerMode_EXCLUSIVE
    \<and> \<not> cl_released (lease_at (ct_s c) l) \<and> cl_class (lease_at (ct_s c) l) = EXCLUSIVE
    \<and> cl_placement (lease_at (ct_s c) l) = LOCAL_GPU
    \<and> local_gpu_leases (ct_s c) = []
    \<and> (\<forall>d \<in> set (cs_entries (ct_s c)). \<not> counts_on_gpu d)
    \<and> \<not> cs_exclusive_pending (ct_s c)"
proof -
  have ok: "ctl_ok c" using assms(1) by (rule reachable_ctl_ok)
  from books_ledger [OF reachable_books [OF assms(1)]] assms(2)
  obtain x where x: "ledger (ct_s c) l = Some x" "\<not> cl_released x" "cl_class x = EXCLUSIVE" "cl_placement x = LOCAL_GPU"
    by (auto simp: books_of_def)
  moreover have "cs_mode (ct_s c) = SchedulerMode_EXCLUSIVE" "local_gpu_leases (ct_s c) = []" "gpu_models (ct_s c) = {}"
      "\<not> cs_exclusive_pending (ct_s c)"
    using ok assms(2) by (auto simp: ctl_ok_def ctl_rel_def modes_def)
  ultimately show ?thesis using gpu_models_iff [of _ "ct_s c"] by (auto simp: lease_at_field)
qed

theorem exclusive_has_gpu_witness:
  "reachable demo_held \<and> cs_exclusive (ct_s demo_held) = Some 0 \<and> cs_mode (ct_s demo_held) = SchedulerMode_EXCLUSIVE
    \<and> local_gpu_leases (ct_s demo_held) = []"
proof -
  have "cs_exclusive (ct_s demo_held) = Some 0" by (simp add: demo_held_def)
  with exclusive_has_gpu [OF demo_held_reachable this] demo_held_reachable show ?thesis by blast
qed

text \<open>The stretches of the Exclusive request but the last leave the Exclusive lease alone.\<close>

abbreviation holder :: "control \<Rightarrow> lid option" where
  "holder c \<equiv> cs_exclusive (ct_s c)"

lemma holder_modes: "modes s' = modes s \<Longrightarrow> cs_exclusive s' = cs_exclusive s"
  by (simp add: modes_def)

lemma holder_shell: "shell s' = shell s \<Longrightarrow> cs_exclusive s' = cs_exclusive s"
  by (simp add: shell_def)

lemma holder_ops [simp]:
  "cs_exclusive (pump now s) = cs_exclusive s" "cs_exclusive (set_mode m s) = cs_exclusive s"
  "cs_exclusive (warn_exclusive now r g s) = cs_exclusive s" "cs_exclusive (perform_begin a s) = cs_exclusive s"
  "cs_exclusive (perform_end now a out s) = cs_exclusive s" "cs_exclusive (snd (sched_decide now s)) = cs_exclusive s"
  "cs_exclusive (snd (observe_unit now n ans s)) = cs_exclusive s" "cs_exclusive (upd_entry n f s) = cs_exclusive s"
  by (rule holder_shell, simp) (simp add: set_mode_def, (rule holder_shell holder_modes, simp)+, simp add: upd_entry_def)

lemma holder_fail [simp]: "holder (excl_fail now c) = holder c"
  by (simp add: excl_fail_def)

lemma holder_room [simp]: "holder (snd (excl_room now c)) = holder c"
  by (simp add: excl_room_def excl_begin_drain_def Let_def)

lemma holder_empty [simp]: "holder (excl_empty now ns moved c) = holder c"
  by (induction now ns moved c rule: excl_empty.induct) (auto simp: Let_def split: option.splits)

lemma holder_not_freed [simp]: "holder (snd (excl_not_freed now moved dl c)) = holder c"
  by (simp add: excl_not_freed_def)

lemma holder_smp: "smp_next now i m s = (m', s') \<Longrightarrow> cs_exclusive s' = cs_exclusive s"
  by (rule holder_modes) (use smp_next_modes in blast)

lemma holder_refresh_sampled [simp]: "holder (refresh_sampled now c) = holder c"
proof -
  obtain act s1 where dec: "sched_decide now (ct_s c) = (act, s1)" by fastforce
  then have "cs_exclusive s1 = holder c" using holder_ops(6) [of now "ct_s c"] by (simp del: holder_ops)
  then show ?thesis by (auto simp: refresh_sampled_def refresh_done_def Let_def dec split: option.split)
qed

text \<open>The grant: the GPU was verified empty and the view has room.\<close>

lemma freed_end_fits:
  assumes ok: "ctl_ok c" "0 \<le> pend (ct_s c)" and x: "x_verifying (ct_x c)"
    and got: "holder c = None" "holder (snd (excl_freed_end now moved dl c)) = Some l"
  shows "\<exists>v. vram (ct_s (snd (excl_freed_end now moved dl c))) = Some v \<and> \<not> under_pressure v"
proof -
  let ?r = "x_request (ct_req c)"
  from got obtain v where v: "vram (ct_s c) = Some v" "available v \<ge> cr_vram ?r"
    and c': "snd (excl_freed_end now moved dl c) = excl_grant now c"
    by (auto simp: excl_freed_end_def split: option.splits if_splits)
  from v obtain dev where dev: "cs_device (ct_s c) = Some dev" "v = vram_of dev (ct_s c)" by (auto simp: vram_def)
  have "books (ct_s c)" "local_gpu_leases (ct_s c) = []" "0 \<le> cr_vram ?r"
    using ok x got(1) by (auto simp: ctl_ok_def ctl_rel_def sched_ok_def modes_def request_ok_def x_verifying_def x_draining_def
        split: xpc.splits)
  from exclusive_takes [OF this(1,2) got(1) ok(2) dev(1) this(3), of now] v(2)
  have "available (vram_of dev (grant_exclusive now ?r (ct_s c))) \<ge> 0" by (simp add: dev(2))
  moreover have "vram (ct_s (excl_grant now c)) = Some (vram_of dev (grant_exclusive now ?r (ct_s c)))"
    using dev(1) by (simp add: excl_grant_def vram_def grant_exclusive_def alloc_lease_def set_mode_def vram_of_account
        usages_def ordered_def sched_headroom_def extra_reserved_def shared_leases_def lease_at_def)
  ultimately show ?thesis using c' by (simp add: under_pressure_def)
qed

lemma sampled_holder:
  assumes "x_smp (ct_x c) \<noteq> None"
  shows "holder (snd (x_sampled now c)) = holder c
    \<or> (\<exists>moved dl. x_verifying (ct_x c) \<and> snd (x_sampled now c) = snd (excl_freed_end now moved dl c))"
  using assms
  by (cases "ct_x c")
    (auto simp: x_sampled_def excl_first_sampled_def excl_room_sampled_def excl_drained_sampled_def excl_verify_sampled_def
      Let_def)

text \<open>
  The step that gives the GPU to an Exclusive job does so only when the reading it acts on
  leaves room: with the job's reservation counted, the accounting is not under pressure.
\<close>

theorem exclusive_grant_fits:
  assumes "reachable c" and "cstep c c'" and "cs_exclusive (ct_s c) = None" and "cs_exclusive (ct_s c') = Some l"
  shows "\<exists>v. vram (ct_s c') = Some v \<and> \<not> under_pressure v"
proof -
  have "ctl_ok c" "pend_ok c" using assms(1) reachable_inv by blast+
  with assms(2-4) show ?thesis
  proof (induction rule: cstep.induct)
    case (public c s)
    then show ?case using public_quiet [OF public(1)] by (auto simp: ctl_ok_def quiet_def ended_def)
  next
    case (x_sampled c m now i s now')
    let ?c = "c\<lparr>ct_s := s\<rparr>"
    have ok: "ctl_ok ?c" using x_sampled by (blast intro: ctl_ok_smp)
    have p: "0 \<le> pend (ct_s ?c)" using smp_next_ok [of c m now i None s] x_sampled by simp
    have none: "holder ?c = None" using holder_smp x_sampled by fastforce
    from sampled_holder [of ?c now'] x_sampled(1,4) none show ?case
      using freed_end_fits [OF ok p _ none] x_sampled.prems by auto
  next
    case (x_freed c moved deadline on_gpu now)
    then show ?case using freed_end_fits [of c now moved deadline l] by (simp add: pend_ok_def)
  next
    case (x_start r now wait drain c c')
    then show ?case by (auto simp: excl_start_def Let_def split: if_splits)
  next
    case (x_cancel c now)
    then show ?case by (auto simp: excl_cancel_def split: xpc.splits)
  next
    case (x_asked c moved deadline on_gpu name rest now answer)
    then show ?case by (auto simp: excl_asked_def split: option.splits if_splits)
  qed (auto simp: refresh_done_def excl_performed_def excl_drain_ended_def Let_def dest: holder_smp split: if_splits)
qed

theorem exclusive_grant_fits_witness:
  "reachable demo_last \<and> cstep demo_last demo_held \<and> cs_exclusive (ct_s demo_last) = None
    \<and> cs_exclusive (ct_s demo_held) = Some 0 \<and> (\<exists>v. vram (ct_s demo_held) = Some v \<and> \<not> under_pressure v)"
proof -
  have "cs_exclusive (ct_s demo_last) = None" "cs_exclusive (ct_s demo_held) = Some 0"
    by (simp_all add: demo_last_def demo_asked_def demo_drains_def demo_sched_def new_scheduler_def demo_held_def)
  with exclusive_grant_fits [OF demo_last_reachable demo_third(2) this] show ?thesis
    using demo_last_reachable demo_third(2) by simp
qed

section \<open>The books\<close>

lemma ledger_tokens: "tokens_in (ledger s) = (\<lambda>l. cl_tokens (lease_at s l))"
  by (auto simp: fun_eq_iff tokens_in_def ledger_def lease_at_def split: option.split)

lemma ledger_class:
  "books s \<Longrightarrow> l \<in> set (shared_leases s) \<Longrightarrow> has_class (ledger s) c l = (cl_class (lease_at s l) = c)"
  using shared_lease_of [of s l] by (auto simp: has_class_def lease_at_field)

text \<open>
  C9: in every reachable state, what a model has reserved is the sum of the tokens of its
  leases, in total and for every class (so the KV admission, which reads only these sums, judges the real leases); every
  such lease is live, is of this model, is not for the cloud, and reserves nothing when it runs on the CPU.
\<close>

theorem reservations_match_leases:
  assumes "reachable c" and d: "d \<in> set (cs_entries (ct_s c))"
  shows "dp_reserved d = (\<Sum>l \<leftarrow> dp_leases d. cl_tokens (lease_at (ct_s c) l))
    \<and> (\<forall>cls. cls \<noteq> EXCLUSIVE \<longrightarrow> dp_by_class d cls =
         Some (\<Sum>l \<leftarrow> filter (\<lambda>l. cl_class (lease_at (ct_s c) l) = cls) (dp_leases d). cl_tokens (lease_at (ct_s c) l)))
    \<and> (\<forall>l \<in> set (dp_leases d). let x = lease_at (ct_s c) l in
         \<not> cl_released x \<and> cl_deployment x = Some (dp_name d) \<and> cl_placement x \<noteq> CLOUD \<and> 0 \<le> cl_tokens x
         \<and> (cl_placement x = LOCAL_CPU \<longrightarrow> cl_tokens x = 0 \<and> cl_vram x = 0))"
proof -
  let ?s = "ct_s c"
  have books: "books ?s" using assms(1) by (rule reachable_books)
  have mem: "bk d \<in> set (map bk (cs_entries ?s))" using d by simp
  have ok: "book_ok (ledger ?s) (bk d)" using books_ledger [OF books] mem by (auto simp: books_of_def)
  have in_shared: "l \<in> set (shared_leases ?s)" if "l \<in> set (dp_leases d)" for l
    using that d by (auto simp: shared_leases_def)
  have cls: "filter (has_class (ledger ?s) k) (dp_leases d) = filter (\<lambda>l. cl_class (lease_at ?s l) = k) (dp_leases d)" for k
    using ledger_class [OF books in_shared] by (auto intro: filter_cong)
  have "k \<noteq> EXCLUSIVE \<Longrightarrow> k \<in> set SHARED_CLASSES" for k by (cases k) (simp_all add: SHARED_CLASSES_def)
  with ok have sums: "dp_reserved d = (\<Sum>l \<leftarrow> dp_leases d. cl_tokens (lease_at ?s l))"
      "\<And>k. k \<noteq> EXCLUSIVE \<Longrightarrow> dp_by_class d k = Some (class_tokens (ledger ?s) k (dp_leases d))"
      "\<And>l. l \<in> set (dp_leases d) \<Longrightarrow> \<exists>x. ledger ?s l = Some x \<and> shared_lease (dp_name d) x"
    by (auto simp: book_ok_def bk_def ledger_tokens)
  then show ?thesis
    by (auto simp: class_tokens_def cls ledger_tokens Let_def shared_lease_def lease_at_field dest!: sums(3))
qed

theorem reservations_match_leases_witness:
  "let s = ct_s demo_granted; d = hd (cs_entries s) in d \<in> set (cs_entries s) \<and> dp_leases d = [0] \<and> dp_reserved d = 4
    \<and> dp_reserved d = (\<Sum>l \<leftarrow> dp_leases d. cl_tokens (lease_at s l))"
proof -
  have "hd (cs_entries (ct_s demo_granted)) \<in> set (cs_entries (ct_s demo_granted))"
    using demo_granted_main by (auto intro: hd_in_set)
  moreover note conjunct1 [OF reservations_match_leases [OF demo_granted_reachable this]]
  ultimately show ?thesis using demo_granted_books unfolding Let_def by blast
qed

text \<open>
  C16: in every reachable state the leases that were granted and not released are exactly those kept with
  a model, in the cloud set or as the Exclusive lease, each in one of these places only and with one model only.
\<close>

theorem no_lease_lost:
  assumes "reachable c"
  shows "{l. cs_heap (ct_s c) l \<noteq> None \<and> \<not> cl_released (lease_at (ct_s c) l)} =
      set (shared_leases (ct_s c)) \<union> set (cs_cloud (ct_s c)) \<union> set_option (cs_exclusive (ct_s c))
    \<and> distinct (shared_leases (ct_s c))
    \<and> set (shared_leases (ct_s c)) \<inter> set (cs_cloud (ct_s c)) = {}
    \<and> (set (shared_leases (ct_s c)) \<union> set (cs_cloud (ct_s c))) \<inter> set_option (cs_exclusive (ct_s c)) = {}"
proof -
  let ?s = "ct_s c"
  have books: "books ?s" using assms by (rule reachable_books)
  note k = books_ledger [OF books]
  have live: "cs_heap ?s l \<noteq> None \<and> \<not> cl_released (lease_at ?s l) \<longleftrightarrow> (\<exists>x. ledger ?s l = Some x \<and> \<not> cl_released x)" for l
    by (auto simp: ledger_def lease_at_def)
  have shared: "\<exists>x. ledger ?s l = Some x \<and> \<not> cl_released x \<and> cl_placement x \<noteq> CLOUD \<and> cl_class x \<noteq> EXCLUSIVE"
    if "l \<in> set (shared_leases ?s)" for l
    using shared_lease_of [OF books that] by (auto simp: shared_lease_def)
  have cloud: "\<exists>x. ledger ?s l = Some x \<and> \<not> cl_released x \<and> cl_placement x = CLOUD" if "l \<in> set (cs_cloud ?s)" for l
    using k that by (auto simp: books_of_def)
  have excl: "\<exists>x. ledger ?s l = Some x \<and> \<not> cl_released x \<and> cl_placement x = LOCAL_GPU \<and> cl_class x = EXCLUSIVE"
    if "cs_exclusive ?s = Some l" for l
    using k that by (auto simp: books_of_def)
  have "l \<in> set (shared_leases ?s) \<or> l \<in> set (cs_cloud ?s) \<or> cs_exclusive ?s = Some l"
    if "ledger ?s l = Some x" "\<not> cl_released x" for l x
  proof -
    have "placed (map bk (cs_entries ?s)) (cs_exclusive ?s) (cs_cloud ?s) l" using k that by (auto simp: books_of_def)
    then show ?thesis by (auto simp: placed_def bk_def shared_leases_def)
  qed
  with shared cloud excl
  have "{l. cs_heap ?s l \<noteq> None \<and> \<not> cl_released (lease_at ?s l)} =
      set (shared_leases ?s) \<union> set (cs_cloud ?s) \<union> set_option (cs_exclusive ?s)"
    unfolding live by (fastforce simp: elem_set)
  moreover have "set (shared_leases ?s) \<inter> set (cs_cloud ?s) = {}"
      "(set (shared_leases ?s) \<union> set (cs_cloud ?s)) \<inter> set_option (cs_exclusive ?s) = {}"
    using shared cloud excl by (fastforce simp: elem_set)+
  ultimately show ?thesis using distinct_shared [OF books] by blast
qed

theorem no_lease_lost_witness:
  "0 \<in> set (shared_leases (ct_s demo_granted)) \<and> \<not> cl_released (lease_at (ct_s demo_granted) 0)"
proof -
  have "cs_entries (ct_s demo_granted) \<noteq> []" using demo_granted_main by auto
  then have "0 \<in> set (shared_leases (ct_s demo_granted))"
    using demo_granted_books by (cases "cs_entries (ct_s demo_granted)") (auto simp: shared_leases_def Let_def)
  with no_lease_lost [OF demo_granted_reachable] show ?thesis by blast
qed

section \<open>VRAM\<close>

lemma reachable_normal: "reachable c \<Longrightarrow> cs_mode (ct_s c) = SchedulerMode_NORMAL \<Longrightarrow> cs_exclusive (ct_s c) = None"
  by (drule reachable_ctl_ok) (auto simp: ctl_ok_def ctl_rel_def modes_def)

lemma judge_vram:
  "judge now r q d s = (None, LOCAL_GPU) \<Longrightarrow> \<exists>dev. cs_device s = Some dev \<and> free_vram_admits (vram_of dev s) (cr_vram r)"
  by (auto simp: judge_def vram_def Let_def split: if_splits option.splits)

lemma admits_available: "free_vram_admits (vram_of dev s) need \<Longrightarrow> 0 < need \<Longrightarrow> need \<le> available (vram_of dev s)"
  using account_bounds(1) [of dev "cs_processes s" "usages s" "sched_headroom dev s" "extra_reserved s" "cs_extra_baseline s"]
  by (simp add: free_vram_admits_def observed_free_def unseen_reserved_def vram_of_account account_view)

text \<open>
  C11: in every reachable state, a request that needs VRAM and is admitted to the GPU finds at least
  that much available, and its grant lowers the available VRAM by exactly what it asked for: however many requests are
  admitted on one reading, together they never promise more than was available.
\<close>

theorem grant_takes_vram:
  assumes "reachable c" and "d \<in> set (cs_entries (ct_s c))" and "0 < cr_vram r"
    and "judge now r q d (ct_s c) = (None, LOCAL_GPU)"
  shows "\<exists>v v'. vram (ct_s c) = Some v \<and> vram (grant_local now r LOCAL_GPU d (ct_s c)) = Some v'
    \<and> cr_vram r \<le> available v \<and> available v' = available v - cr_vram r"
proof -
  obtain dev where dev: "cs_device (ct_s c) = Some dev" "free_vram_admits (vram_of dev (ct_s c)) (cr_vram r)"
    using judge_vram [OF assms(4)] by blast
  have "cs_exclusive (ct_s c) = None" using reachable_normal [OF assms(1) judge_gpu_mode [OF assms(4)]] .
  from grant_takes [OF reachable_books [OF assms(1)] assms(2) this reachable_pend [OF assms(1)] dev(1) assms(3)]
  show ?thesis using dev admits_available [OF dev(2) assms(3)] by (auto simp: vram_def)
qed

theorem grant_takes_vram_witness:
  "judge 0 demo_ask True (hd (cs_entries (ct_s demo_ready))) (ct_s demo_ready) = (None, LOCAL_GPU)
    \<and> (\<exists>v v'. vram (ct_s demo_ready) = Some v
      \<and> vram (grant_local 0 demo_ask LOCAL_GPU (hd (cs_entries (ct_s demo_ready))) (ct_s demo_ready)) = Some v'
      \<and> 10 \<le> available v \<and> available v' = available v - 10)"
proof -
  have "hd (cs_entries (ct_s demo_ready)) \<in> set (cs_entries (ct_s demo_ready))" using demo_ready_main by (auto intro: hd_in_set)
  moreover have "cr_vram demo_ask = 10" by (simp add: demo_ask_def)
  ultimately show ?thesis
    using grant_takes_vram [OF demo_ready_reachable _ _ demo_admits] demo_admits by simp
qed

text \<open>
  Releasing a lease of a model never raises the available VRAM by itself: what it held
  stays reserved (as a pending release) until the next reading shows what is really free.
\<close>

theorem release_frees_after_reading:
  assumes "reachable c" and "cs_heap (ct_s c) l = Some x" and "\<not> cl_released x" and "cs_exclusive (ct_s c) = None"
    and "vram (ct_s c) = Some v"
  shows "\<exists>v'. vram (give_back l x (upd_lease l (cl_released_update (\<lambda>_. True)) (ct_s c))) = Some v'
    \<and> available v' \<le> available v"
proof -
  obtain dev where dev: "cs_device (ct_s c) = Some dev" "v = vram_of dev (ct_s c)" using assms(5) by (auto simp: vram_def)
  let ?s = "give_back l x (upd_lease l (cl_released_update (\<lambda>_. True)) (ct_s c))"
  have "cs_device ?s = Some dev"
    using dev(1) by (simp add: give_back_def reserve_def upd_lease_def set_mode_def Let_def split: option.split)
  moreover have "available (vram_of dev ?s) \<le> available (vram_of dev (ct_s c))"
    by (rule release_gives_nothing [OF reachable_books [OF assms(1)] assms(2-4) reachable_pend [OF assms(1)] dev(1)])
  ultimately show ?thesis by (simp add: vram_def dev(2))
qed

theorem release_frees_after_reading_witness:
  "\<exists>x v v'. cs_heap (ct_s demo_granted) 0 = Some x \<and> vram (ct_s demo_granted) = Some v
    \<and> vram (give_back 0 x (upd_lease 0 (cl_released_update (\<lambda>_. True)) (ct_s demo_granted))) = Some v'
    \<and> available v' \<le> available v"
proof -
  from demo_granted_view obtain x v where "cs_heap (ct_s demo_granted) 0 = Some x" "\<not> cl_released x"
      "cs_exclusive (ct_s demo_granted) = None" "vram (ct_s demo_granted) = Some v"
    by (auto simp: Let_def split: option.splits)
  with release_frees_after_reading [OF demo_granted_reachable this] show ?thesis by blast
qed

section \<open>The waiting line\<close>

lemma reachable_line: "reachable c \<Longrightarrow> line_of (line (ct_s c))"
  by (drule reachable_ctl_ok) (simp add: ctl_ok_def sched_ok_def line_ok_def)

text \<open>
  C10: when the waiting line of a reachable scheduler is served, a waiter behind another one (a lower
  class, or the same class and later) is not served while the one ahead still waits for capacity of the model they
  share, nor, if it needs VRAM on the GPU itself, while the one ahead waits for VRAM.
\<close>

theorem no_overtaking:
  assumes "reachable c" and "w \<in> set (cs_waiters (ct_s c))" and "w' \<in> set (cs_waiters (ct_s c))"
    and "wt_key w < wt_key w'"
    and "Option.bind (cr_deployment (wt_request w)) (entry_of (ct_s c)) \<noteq> None"
    and "Option.bind (cr_deployment (wt_request w')) (entry_of (ct_s c)) = Some d"
    and "waiter_at (wt_seq w) (pump now (ct_s c)) = Some u"
    and "wt_last u \<in> CAPACITY_REFUSALS \<and> cr_deployment (wt_request w) = cr_deployment (wt_request w')
      \<or> wt_last u = INSUFFICIENT_FREE_VRAM \<and> 0 < cr_vram (wt_request w') \<and> \<not> on_cpu d"
  shows "cs_futures (pump now (ct_s c)) (wt_seq w') = Pending"
proof -
  let ?s = "ct_s c" and ?ws = "sort_key wt_key (cs_waiters (ct_s c))"
  have l: "distinct (map wt_seq (cs_waiters ?s))" "\<And>w. w \<in> set (cs_waiters ?s) \<Longrightarrow> cs_futures ?s (wt_seq w) = Pending"
    using reachable_line [OF assms(1)] by (auto simp: line_of_def line_def)
  have dist: "distinct (map wt_seq ?ws)"
    using l(1) by (simp add: distinct_map)
  then have "distinct ?ws" by (simp add: distinct_map)
  then obtain xs ys zs where split: "?ws = xs @ w # ys @ w' # zs"
    using split_two [of wt_key ?ws w w'] assms(2-4) by auto
  obtain s' b' v' where run: "fold (pump_one now) ?ws (?s, (\<lambda>_. None), False) = (s', b', v')" by (metis prod_cases3)
  have s': "pump now ?s = s'" by (simp add: pump_def run)
  from assms(5,6) obtain nx ny where n: "cr_deployment (wt_request w) = Some nx" "entry_of ?s nx \<noteq> None"
      "cr_deployment (wt_request w') = Some ny" "entry_of ?s ny = Some d"
    by (auto simp: bind_eq_Some_conv)
  have "cs_futures s' (wt_seq w') = Pending"
    by (rule pump_fold_two [OF split dist run l(2) [OF assms(2)] l(2) [OF assms(3)] n(1-3)])
      (use assms(7,8) n s' in auto)
  then show ?thesis using s' by simp
qed

theorem no_overtaking_witness:
  "\<exists>w w'. wt_seq w = 0 \<and> wt_seq w' = 1 \<and> w \<in> set (cs_waiters (ct_s demo_queued)) \<and> w' \<in> set (cs_waiters (ct_s demo_queued))
    \<and> cs_futures (pump 0 (ct_s demo_queued)) 1 = Pending"
proof -
  let ?s = "ct_s demo_queued"
  from demo_line obtain w w' where ws: "cs_waiters ?s = [w, w']" "wt_seq w = 0" "wt_seq w' = 1" by auto
  have "list_all (\<lambda>w. wt_request w = demo_ask) (cs_waiters ?s)" by (rule demo_line_requests)
  then have r: "wt_request w = demo_ask" "wt_request w' = demo_ask" by (simp_all add: ws)
  have e: "entry_of ?s (cp ''main'') = Some (hd (cs_entries ?s))" by (rule demo_queued_main)
  from demo_pumped obtain u where u: "waiter_at 0 (pump 0 ?s) = Some u" "wt_last u = SEQUENCES_FULL" by auto
  have "cs_futures (pump 0 ?s) (wt_seq w') = Pending"
    by (rule no_overtaking [OF demo_queued_reachable, where w = w and u = u and d = "hd (cs_entries ?s)"])
      (simp_all add: ws r wt_key_def e u CAPACITY_REFUSALS_def)
  then show ?thesis using ws by auto
qed

section \<open>Draining\<close>

lemma heap_give_back [simp]: "cs_heap (give_back l x s) = cs_heap s"
  by (simp add: give_back_def set_mode_def reserve_def upd_entry_def rebase_def Let_def split: option.split)

lemma drained_give_back: "cs_drained (give_back l x s) = cs_drained s"
  by (simp add: give_back_def set_mode_def reserve_def upd_entry_def rebase_def Let_def split: option.split)

lemma released_not_shared:
  assumes "books s" and "cs_heap s l = Some x" and "\<not> cl_released x"
  shows "l \<notin> set (shared_leases (give_back l x (upd_lease l (cl_released_update (\<lambda>_. True)) s)))"
proof
  let ?g = "give_back l x (upd_lease l (cl_released_update (\<lambda>_. True)) s)"
  assume "l \<in> set (shared_leases ?g)"
  from shared_lease_of [OF books_give_back [OF assms] this] obtain y where "ledger ?g l = Some y" "\<not> cl_released y"
    by (auto simp: shared_lease_def)
  with assms(2) show False by (auto simp: ledger_def upd_lease_def)
qed

lemma last_release:
  assumes ok: "sched_ok s" and l: "set (local_gpu_leases s) = {l}" and mode: "cs_mode s \<noteq> SchedulerMode_NORMAL"
    and ex: "cs_exclusive s = None" and dr: "cs_drained s \<noteq> None"
  shows "local_gpu_leases (release_lease now l s) = [] \<and> cs_drained (release_lease now l s) = Some True"
proof -
  have books: "books s" using ok by (simp add: sched_ok_def)
  have "l \<in> set (shared_leases s)" using l by (auto simp: local_gpu_leases_def)
  from shared_lease_of [OF books this] obtain x where x: "cs_heap s l = Some x" "\<not> cl_released x"
    by (auto simp: shared_lease_def ledger_def)
  define g where "g = give_back l x (upd_lease l (cl_released_update (\<lambda>_. True)) s)"
  have r: "release_lease now l s = pump now (signal_drained g)" using x by (simp add: release_lease_def g_def)
  have gok: "sched_ok g" using ok books_give_back [OF books x] by (simp add: g_def sched_ok_def line_ok_def)
  have "set (local_gpu_leases g) \<subseteq> {l}" using gpu_give_back [OF books x] l by (simp add: g_def)
  moreover have "l \<notin> set (local_gpu_leases g)" using released_not_shared [OF books x] by (auto simp: g_def local_gpu_leases_def)
  ultimately have "x \<notin> set (local_gpu_leases g)" for x by auto
  then have gpu: "local_gpu_leases g = []" by (metis list.set_intros(1) neq_Nil_conv)
  have drg: "cs_drained g \<noteq> None" using dr by (simp add: g_def drained_give_back upd_lease_def)
  have gm: "cs_mode g = cs_mode s"
    using ex by (simp add: g_def give_back_def reserve_def upd_entry_def rebase_def upd_lease_def Let_def split: option.split)
  have sd: "signal_drained g = g\<lparr>cs_drained := Some True\<rparr>" using drg gpu by (simp add: signal_drained_def)
  have pok: "sched_ok (signal_drained g)" using gok by (rule sched_ok_keep) simp_all
  have "set (local_gpu_leases (pump now (signal_drained g))) = set (local_gpu_leases (signal_drained g))"
    by (rule gpu_pump [OF pok]) (simp add: sd gm mode)
  also have "\<dots> = set (local_gpu_leases g)" by (simp add: gpu_core)
  finally have "local_gpu_leases (release_lease now l s) = []" using gpu r by simp
  moreover have "cs_drained (pump now (signal_drained g)) = cs_drained (signal_drained g)"
    using shell_pump [of now "signal_drained g"] by (simp add: shell_def)
  ultimately show ?thesis by (simp add: r sd)
qed

text \<open>
  C17: while an Exclusive request drains the GPU, the release of the last local GPU lease
  (whose work is not held) leaves no local GPU lease and sets the drain's event, and the next step of the request
  leaves its wait for the drain.
\<close>

theorem drain_ends_with_last_lease:
  assumes "reachable c" and "ct_x c = X_drain" and "set (local_gpu_leases (ct_s c)) = {l}"
    and "cl_held (lease_at (ct_s c) l) = None"
  shows "\<exists>c1 c2. cstep c c1 \<and> ct_s c1 = lease_release now l (ct_s c) \<and> local_gpu_leases (ct_s c1) = []
    \<and> cstep c1 c2 \<and> ct_x c2 = X_drained True None"
proof -
  have ok: "ctl_ok c" using assms(1) by (rule reachable_ctl_ok)
  let ?s = "lease_release now l (ct_s c)"
  have "?s = release_lease now l (ct_s c)" using assms(4) by (simp add: lease_release_def)
  moreover have "sched_ok (ct_s c)" "cs_mode (ct_s c) \<noteq> SchedulerMode_NORMAL" "cs_exclusive (ct_s c) = None"
      "cs_drained (ct_s c) \<noteq> None"
    using ok assms(2) by (auto simp: ctl_ok_def ctl_rel_def modes_def)
  ultimately have fin: "local_gpu_leases ?s = []" "cs_drained ?s = Some True"
    using last_release [OF _ assms(3), of now] by auto
  let ?c1 = "c\<lparr>ct_s := ?s\<rparr>"
  have "cstep c ?c1" by (intro cstep.public public_step.ps_release)
  moreover have "cstep ?c1 (snd (excl_drain_ended now True ?c1))"
    using assms(2) fin by (intro cstep.x_drain_set) simp_all
  moreover have "ct_x (snd (excl_drain_ended now True ?c1)) = X_drained True None"
    by (simp add: excl_drain_ended_def Let_def)
  ultimately show ?thesis using fin(1) by (intro exI conjI) simp_all
qed

theorem drain_ends_with_last_lease_witness:
  "\<exists>c1 c2. cstep demo_draining c1 \<and> ct_s c1 = lease_release 0 0 (ct_s demo_draining) \<and> local_gpu_leases (ct_s c1) = []
    \<and> cstep c1 c2 \<and> ct_x c2 = X_drained True None"
proof -
  have "ct_x demo_draining = X_drain" using demo_draining_pc by (auto split: xpc.splits)
  moreover have "set (local_gpu_leases (ct_s demo_draining)) = {0}" "cl_held (lease_at (ct_s demo_draining) 0) = None"
    using demo_draining_lease by (simp_all add: Let_def)
  ultimately show ?thesis by (rule drain_ends_with_last_lease [OF demo_draining_reachable])
qed

section \<open>Relief\<close>

lemma relief_of_ops [simp]:
  "cs_relief (stop_draining s) = cs_relief s" "cs_relief (set_relief r s) = r" "cs_relief (revoke_all ls s) = cs_relief s"
  "cs_relief (upd_entry n f s) = cs_relief s" "cs_relief (emit now e s) = cs_relief s"
  "cs_relief (start_draining d s) = cs_relief s"
  by (simp_all add: stop_draining_def set_relief_def revoke_all_def upd_entry_def emit_def start_draining_def split: option.split)

lemma relief_fold_draining [simp]: "cs_relief (fold start_draining ds s) = cs_relief s"
  by (induction ds arbitrary: s) simp_all

text \<open>A model that may be loaded on a view: what it needs fits, up to the margin.\<close>

definition loadable :: "GpuDevice \<Rightarrow> VramView \<Rightarrow> scheduler \<Rightarrow> Deployment \<Rightarrow> bool" where
  "loadable dev v s d \<longleftrightarrow> \<not> dp_busy d \<and> dp_state d \<noteq> DeploymentState_GPU
     \<and> min 0 (sched_margin dev s) \<le> available v + (if counts_on_gpu d then gpu_bytes (dp_spec d) else 0) - gpu_bytes (dp_spec d)"

lemma margin_ops [simp]:
  "sched_margin dev (emit now e s) = sched_margin dev s" "sched_margin dev (stop_draining s) = sched_margin dev s"
  by (simp_all add: sched_margin_def sched_headroom_def emit_def stop_draining_def split: option.split)

definition loads :: "GpuDevice \<Rightarrow> VramView \<Rightarrow> scheduler \<Rightarrow> Deployment list \<Rightarrow> Action option \<Rightarrow> bool" where
  "loads dev v s ds act \<longleftrightarrow> (case act of None \<Rightarrow> True | Some a \<Rightarrow> ac_operation a = Op_gpu
     \<and> (\<exists>d \<in> set ds. ac_deployment a = dp_name d \<and> loadable dev v s d))"

lemma loads_Cons: "loads dev v s ds act \<Longrightarrow> loads dev v s (d # ds) act"
  by (auto simp: loads_def split: option.splits)

lemma loads_emit: "loads dev v (emit now e s) = loads dev v s"
proof -
  have "loadable dev v (emit now e s) = loadable dev v s" by (intro ext) (simp add: loadable_def)
  then show ?thesis by (intro ext) (simp add: loads_def split: option.split)
qed

lemma fill_loop_loads:
  "fill_loop now dev v ds s = (act, s') \<Longrightarrow> cs_relief s' = cs_relief s \<and> loads dev v s ds act"
proof (induction ds arbitrary: s)
  case Nil
  then show ?case by (simp add: loads_def)
next
  case (Cons d ds)
  let ?need = "gpu_bytes (dp_spec d)"
  let ?room = "available v + (if counts_on_gpu d then ?need else 0)"
  let ?always = "residency (dp_spec d) = ALWAYS"
  let ?floor = "if ?always then 0 else sched_margin dev s"
  define s1 where "s1 = (if ?room + external v - ?need \<ge> ?floor then emit now (deferral Deferred_MODEL_LOAD None ?need v False) s else s)"
  let ?skip = "dp_busy d \<or> dp_state d = DeploymentState_GPU
    \<or> dp_state d = DeploymentState_FAILED \<and> (case dp_retry_at d of None \<Rightarrow> False | Some t \<Rightarrow> now < t)"
  have kept: "cs_relief s1 = cs_relief s" "loads dev v s1 = loads dev v s"
    by (simp_all add: s1_def loads_emit)
  have eq: "fill_loop now dev v (d # ds) s =
     (if ?skip then fill_loop now dev v ds s
      else if ?room - ?need \<ge> ?floor
      then (Some \<lparr>ac_deployment = dp_name d, ac_operation = Op_gpu, ac_then = After_none\<rparr>,
            upd_entry (dp_name d) (dp_displaced_update (\<lambda>_. False)) s)
      else if ?always then (None, s1) else fill_loop now dev v ds s1)"
    unfolding fill_loop.simps Let_def s1_def by auto
  consider "?skip" | "\<not> ?skip" "?room - ?need \<ge> ?floor" | "\<not> ?skip" "\<not> ?room - ?need \<ge> ?floor" "?always"
    | "\<not> ?skip" "\<not> ?room - ?need \<ge> ?floor" "\<not> ?always" by blast
  then show ?case
  proof cases
    case 1
    then have "fill_loop now dev v ds s = (act, s')" using Cons.prems eq by (simp only: if_True)
    from Cons.IH [OF this] show ?thesis using loads_Cons by blast
  next
    case 2
    then have "loadable dev v s d" by (auto simp: loadable_def min_def split: if_splits)
    moreover have "fill_loop now dev v (d # ds) s = (Some \<lparr>ac_deployment = dp_name d, ac_operation = Op_gpu, ac_then = After_none\<rparr>,
        upd_entry (dp_name d) (dp_displaced_update (\<lambda>_. False)) s)"
      using 2 unfolding eq by auto
    from trans [OF sym [OF this] Cons.prems]
    have "act = Some \<lparr>ac_deployment = dp_name d, ac_operation = Op_gpu, ac_then = After_none\<rparr>"
        "s' = upd_entry (dp_name d) (dp_displaced_update (\<lambda>_. False)) s" by (metis prod.inject)+
    ultimately show ?thesis by (auto simp: loads_def)
  next
    case 3
    then have "fill_loop now dev v (d # ds) s = (None, s1)" unfolding eq by auto
    from trans [OF sym [OF this] Cons.prems] have "act = None" "s' = s1" by simp_all
    then show ?thesis using kept(1) by (simp add: loads_def)
  next
    case 4
    then have "fill_loop now dev v ds s1 = (act, s')" using Cons.prems eq by (simp only: if_False)
    from Cons.IH [OF this] show ?thesis using loads_Cons kept by metis
  qed
qed

lemma displace_moves:
  "displace roles next s = (act, s') \<Longrightarrow> (cs_relief s' = cs_relief s \<or> cs_relief s' = next)
    \<and> (\<forall>a. act = Some a \<longrightarrow> ac_operation a \<noteq> Op_gpu)"
  by (auto simp: displace_def move_off_def Let_def split: if_splits list.splits)

lemma bring_back_loads:
  "bring_back roles dev v next s = (act, s') \<Longrightarrow> (cs_relief s' = cs_relief s \<or> cs_relief s' = next)
    \<and> loads dev v s (cs_entries s) act"
proof -
  assume b: "bring_back roles dev v next s = (act, s')"
  have "d \<in> set (cs_entries s) \<and> loadable dev v s d"
    if "back_candidates roles s = d # ds" "\<not> available v - gpu_bytes (dp_spec d) < sched_margin dev s" for d ds
  proof -
    have "d \<in> set (back_candidates roles s)" using that by simp
    then have "d \<in> set (cs_entries s)" "\<not> dp_busy d" "dp_state d = DeploymentState_CPU \<or> dp_state d = DeploymentState_UNLOADED"
      by (auto simp: back_candidates_def ordered_def)
    with that(2) show ?thesis by (auto simp: loadable_def counts_on_gpu_def)
  qed
  with b show ?thesis
    by (auto simp: bring_back_def loads_def split: if_splits list.splits)
qed

text \<open>
  One decision moves the relief by at most one step: up and never loading a model while the
  available VRAM is negative; otherwise down and never taking a model off the GPU. A model is loaded only when it is
  not on the GPU and what it needs fits the view (up to the restore margin).
\<close>

theorem relief_follows_pressure:
  assumes "cs_device s = Some dev" and "sched_decide now s = (act, s')"
  shows "if under_pressure (vram_of dev s)
    then (cs_relief s' = cs_relief s \<or> cs_relief s' = relief_up (cs_relief s))
      \<and> (\<forall>a. act = Some a \<longrightarrow> ac_operation a \<noteq> Op_gpu)
    else (cs_relief s' = cs_relief s \<or> cs_relief s' = relief_down (cs_relief s))
      \<and> (\<forall>a. act = Some a \<longrightarrow> ac_operation a = Op_gpu
           \<and> (\<exists>d \<in> set (cs_entries s). ac_deployment a = dp_name d \<and> loadable dev (vram_of dev s) s d))"
proof (cases "under_pressure (vram_of dev s)")
  case True
  then have "relieve s = (act, s')" using assms by (simp add: sched_decide_def)
  with True show ?thesis
    by (auto simp: relieve_def Let_def split: Relief.splits if_splits dest!: displace_moves)
next
  case False
  let ?v = "vram_of dev s" and ?s = "stop_draining s"
  have same_model: "loads dev ?v s (cs_entries s) act" if "loads dev ?v ?s (cs_entries ?s) act" for act
    using that by (auto simp: loads_def stop_draining_def loadable_def counts_on_gpu_def sched_margin_def sched_headroom_def
        split: if_splits option.splits)
  have run: "(if cs_relief s \<noteq> Relief_NONE then restore dev ?v ?s else fill now dev ?v ?s) = (act, s')"
    using assms False by (simp add: sched_decide_def Let_def)
  have "(cs_relief s' = cs_relief s \<or> cs_relief s' = relief_down (cs_relief s)) \<and> loads dev ?v ?s (cs_entries ?s) act"
  proof (cases "cs_relief s = Relief_NONE")
    case True
    with run have "fill now dev ?v ?s = (act, s')" by simp
    then show ?thesis
      using fill_loop_loads [of now dev ?v "ordered ?s" ?s act s'] by (auto simp: fill_def loads_def ordered_def split: if_splits option.splits)
  next
    case False
    with run have "restore dev ?v ?s = (act, s')" by simp
    then show ?thesis
      using False bring_back_loads [of _ dev ?v _ ?s act s']
      by (cases "cs_relief s") (auto simp: restore_def loads_def less_eq_Relief_def split: if_splits)
  qed
  with same_model [of act] False show ?thesis by (auto simp: loads_def split: option.splits)
qed

text \<open>A decision under pressure: the first step stops background work.\<close>

theorem relief_follows_pressure_witness:
  "let s = (demo_sched SchedulerMode_NORMAL 0)\<lparr>cs_device := Some (demo_device\<lparr>used_bytes := 100\<rparr>)\<rparr> in
     under_pressure (vram_of (demo_device\<lparr>used_bytes := 100\<rparr>) s)
     \<and> (let r = cs_relief (snd (sched_decide 0 s)) in r = Relief_NONE \<or> r = Relief_BACKGROUND_STOPPED)"
proof -
  let ?dev = "demo_device\<lparr>used_bytes := 100\<rparr>"
  let ?s = "(demo_sched SchedulerMode_NORMAL 0)\<lparr>cs_device := Some ?dev\<rparr>"
  obtain act s' where d: "sched_decide 0 ?s = (act, s')" by fastforce
  have p: "under_pressure (vram_of ?dev ?s)" by code_simp
  have "cs_relief ?s = Relief_NONE" by (simp add: demo_sched_def new_scheduler_def)
  with relief_follows_pressure [OF _ d, of ?dev] p show ?thesis by (simp add: d Let_def)
qed

end
