(* ===== verification/Json_Value.thy ===== *)
theory Json_Value
  imports Queue_Validation Authz_Subjects "HOL-Library.Word"
begin

text \<open>
  Bounded JSON values (\<^verbatim>\<open>paw_backend/orchestrator/jsonvalue.py\<close>): the checker that copies a
  planner's or an agent's value while it walks it, its frozen form, and the size of the
  encoding.

  A Python object is a \<open>pyo\<close>: the classes the code tells apart, and \<open>O_obj\<close> for instances of
  the backend's own classes (none of which is JSON). A float is its 64 bits; \<^verbatim>\<open>repr\<close> of a float
  is a parameter (\<open>frepr\<close>). A dictionary is its list of entries in insertion order. \<open>json\<close> is
  a checked value: plain dictionaries with text keys, lists and scalars.
\<close>

section \<open>Python objects and JSON values\<close>

datatype map_kind = Map_dict | Map_subclass | Map_proxy | Map_other
datatype pykey = Key_str pystr | Key_sub pystr | Key_other

datatype 'x pyo =
    O_none
  | O_bool bool
  | O_int int
  | O_float "64 word"
  | O_num_sub
  | O_str pystr
  | O_str_sub pystr
  | O_bytes
  | O_map map_kind "(pykey \<times> 'x pyo) list"
  | O_list "'x pyo list"
  | O_tuple "'x pyo list"
  | O_seq_sub "'x pyo list"
  | O_iter "'x pyo list"
  | O_uuid uuid
  | O_obj 'x

datatype json =
    J_null
  | J_bool bool
  | J_int int
  | J_float "64 word"
  | J_str pystr
  | J_list "json list"
  | J_dict "(pystr \<times> json) list"

text \<open>A JSON value as the Python object \<^verbatim>\<open>json\<close> works on.\<close>

fun plain :: "json \<Rightarrow> 'x pyo" where
  "plain J_null = O_none"
| "plain (J_bool b) = O_bool b"
| "plain (J_int n) = O_int n"
| "plain (J_float w) = O_float w"
| "plain (J_str s) = O_str s"
| "plain (J_list js) = O_list (map plain js)"
| "plain (J_dict es) = O_map Map_dict (map (\<lambda>(k, j). (Key_str k, plain j)) es)"

section \<open>Numbers and text\<close>

text \<open>An IEEE double whose exponent is all ones is an infinity or not a number.\<close>

definition is_finite_float :: "64 word \<Rightarrow> bool" where
  "is_finite_float w \<longleftrightarrow> unat (drop_bit 52 w) mod 2048 \<noteq> 2047"

definition MAX_INT :: int where "MAX_INT = 2 ^ 63 - 1"
definition MAX_KEY_CHARS :: nat where "MAX_KEY_CHARS = 200"

fun nat_text :: "nat \<Rightarrow> pystr" where
  "nat_text n = (if n < 10 then [48 + n] else nat_text (n div 10) @ [48 + n mod 10])"

definition int_text :: "int \<Rightarrow> pystr" where
  "int_text n = (if n < 0 then 45 # nat_text (nat (- n)) else nat_text (nat n))"

datatype JsonProblem = Problem_type | Problem_text | Problem_number | Problem_depth | Problem_size

section \<open>The walker\<close>

text \<open>The budget that is left is the walker's state.\<close>

definition spend :: "nat \<Rightarrow> int \<Rightarrow> JsonProblem + int" where
  "spend cost left = (if left - int cost < 0 then Inl Problem_size else Inr (left - int cost))"

definition bad_text :: "pystr \<Rightarrow> bool" where
  "bad_text s \<longleftrightarrow> list_ex (\<lambda>c. c = 0) s \<or> list_ex is_surrogate s"

definition walk_text :: "bool \<Rightarrow> pystr \<Rightarrow> int \<Rightarrow> JsonProblem + int" where
  "walk_text key s left =
     (if int (length s) > (if key then int MAX_KEY_CHARS else left)
      then Inl (if key then Problem_text else Problem_size)
      else if bad_text s then Inl Problem_text
      else spend (length s + 2) left)"

fun walk :: "(64 word \<Rightarrow> pystr) \<Rightarrow> nat \<Rightarrow> nat \<Rightarrow> 'x pyo \<Rightarrow> int \<Rightarrow> JsonProblem + json \<times> int"
  and walk_entries ::
    "(64 word \<Rightarrow> pystr) \<Rightarrow> nat \<Rightarrow> nat \<Rightarrow> (pykey \<times> 'x pyo) list \<Rightarrow> int \<Rightarrow> JsonProblem + (pystr \<times> json) list \<times> int"
  and walk_items :: "(64 word \<Rightarrow> pystr) \<Rightarrow> nat \<Rightarrow> nat \<Rightarrow> 'x pyo list \<Rightarrow> int \<Rightarrow> JsonProblem + json list \<times> int"
where
  "walk frepr md depth O_none left = rbind (spend 4 left) (\<lambda>l. Inr (J_null, l))"
| "walk frepr md depth (O_bool b) left = rbind (spend 5 left) (\<lambda>l. Inr (J_bool b, l))"
| "walk frepr md depth (O_int n) left =
     (if - MAX_INT \<le> n \<and> n \<le> MAX_INT then rbind (spend (length (int_text n)) left) (\<lambda>l. Inr (J_int n, l))
      else Inl Problem_number)"
| "walk frepr md depth (O_float w) left =
     (if is_finite_float w then rbind (spend (length (frepr w)) left) (\<lambda>l. Inr (J_float w, l))
      else Inl Problem_number)"
| "walk frepr md depth O_num_sub left = Inl Problem_number"
| "walk frepr md depth (O_str s) left = rbind (walk_text False s left) (\<lambda>l. Inr (J_str s, l))"
| "walk frepr md depth (O_map kind es) left =
     (if kind \<noteq> Map_dict then Inl Problem_type
      else if md \<le> depth then Inl Problem_depth
      else rbind (spend 2 left) (\<lambda>l.
           rbind (walk_entries frepr md (Suc depth) es l) (\<lambda>(js, l'). Inr (J_dict js, l'))))"
| "walk frepr md depth (O_list xs) left =
     (if md \<le> depth then Inl Problem_depth
      else rbind (spend 2 left) (\<lambda>l.
           rbind (walk_items frepr md (Suc depth) xs l) (\<lambda>(js, l'). Inr (J_list js, l'))))"
| "walk frepr md depth (O_tuple xs) left =
     (if md \<le> depth then Inl Problem_depth
      else rbind (spend 2 left) (\<lambda>l.
           rbind (walk_items frepr md (Suc depth) xs l) (\<lambda>(js, l'). Inr (J_list js, l'))))"
| "walk frepr md depth (O_str_sub s) left = Inl Problem_type"
| "walk frepr md depth O_bytes left = Inl Problem_type"
| "walk frepr md depth (O_seq_sub xs) left = Inl Problem_type"
| "walk frepr md depth (O_iter xs) left = Inl Problem_type"
| "walk frepr md depth (O_uuid u) left = Inl Problem_type"
| "walk frepr md depth (O_obj x) left = Inl Problem_type"
| "walk_entries frepr md depth [] left = Inr ([], left)"
| "walk_entries frepr md depth ((k, v) # es) left =
     (case k of
        Key_str s \<Rightarrow>
          rbind (walk_text True s left) (\<lambda>l.
          rbind (spend 1 l) (\<lambda>l1.
          rbind (walk frepr md depth v l1) (\<lambda>(j, l2).
          rbind (walk_entries frepr md depth es l2) (\<lambda>(js, l3). Inr ((s, j) # js, l3)))))
      | _ \<Rightarrow> Inl Problem_type)"
| "walk_items frepr md depth [] left = Inr ([], left)"
| "walk_items frepr md depth (x # xs) left =
     rbind (spend 1 left) (\<lambda>l1.
     rbind (walk frepr md depth x l1) (\<lambda>(j, l2).
     rbind (walk_items frepr md depth xs l2) (\<lambda>(js, l3). Inr (j # js, l3))))"

section \<open>The encoding\<close>

text \<open>
  \<^verbatim>\<open>json.dumps\<close> with \<^verbatim>\<open>ensure_ascii=False\<close> and compact separators: quotes, backslashes and
  control characters are escaped, everything else is itself.
\<close>

definition dump_char :: "nat \<Rightarrow> pystr" where
  "dump_char c =
     (if c = 34 then cp [CHR 0x5C, CHR 0x22]
      else if c = 92 then cp [CHR 0x5C, CHR 0x5C]
      else if c = 8 then cp (CHR 0x5C # ''b'')
      else if c = 9 then cp (CHR 0x5C # ''t'')
      else if c = 10 then cp (CHR 0x5C # ''n'')
      else if c = 12 then cp (CHR 0x5C # ''f'')
      else if c = 13 then cp (CHR 0x5C # ''r'')
      else if c < 32 then cp (CHR 0x5C # ''u00'') @ [hex_digit (c div 16), hex_digit (c mod 16)]
      else [c])"

definition dump_text :: "pystr \<Rightarrow> pystr" where
  "dump_text s = 34 # concat (map dump_char s) @ [34]"

fun commas :: "pystr list \<Rightarrow> pystr" where
  "commas [] = []"
| "commas [x] = x"
| "commas (x # y # ys) = x @ 44 # commas (y # ys)"

fun dumps :: "(64 word \<Rightarrow> pystr) \<Rightarrow> json \<Rightarrow> pystr" where
  "dumps frepr J_null = cp ''null''"
| "dumps frepr (J_bool b) = cp (if b then ''true'' else ''false'')"
| "dumps frepr (J_int n) = int_text n"
| "dumps frepr (J_float w) = frepr w"
| "dumps frepr (J_str s) = dump_text s"
| "dumps frepr (J_list js) = 91 # commas (map (dumps frepr) js) @ [93]"
| "dumps frepr (J_dict es) = 123 # commas (map (\<lambda>(k, j). dump_text k @ 58 # dumps frepr j) es) @ [125]"

definition utf8_char :: "nat \<Rightarrow> nat list" where
  "utf8_char c =
     (if c < 128 then [c]
      else if c < 2048 then [192 + c div 64, 128 + c mod 64]
      else if c < 65536 then [224 + c div 4096, 128 + c div 64 mod 64, 128 + c mod 64]
      else [240 + c div 262144, 128 + c div 4096 mod 64, 128 + c div 64 mod 64, 128 + c mod 64])"

definition utf8 :: "pystr \<Rightarrow> nat list" where
  "utf8 s = concat (map utf8_char s)"

definition encoded_size :: "(64 word \<Rightarrow> pystr) \<Rightarrow> json \<Rightarrow> nat" where
  "encoded_size frepr j = length (utf8 (dumps frepr j))"

section \<open>Checking, freezing and thawing\<close>

definition check_json_object :: "(64 word \<Rightarrow> pystr) \<Rightarrow> nat \<Rightarrow> nat \<Rightarrow> 'x pyo \<Rightarrow> JsonProblem + json" where
  "check_json_object frepr max_bytes max_depth v =
     (case v of
        O_map Map_dict _ \<Rightarrow>
          rbind (walk frepr max_depth 0 v (int max_bytes)) (\<lambda>(clean, _).
            if encoded_size frepr clean > max_bytes then Inl Problem_size else Inr clean)
      | _ \<Rightarrow> Inl Problem_type)"

fun freeze_json :: "json \<Rightarrow> 'x pyo" where
  "freeze_json (J_dict es) = O_map Map_proxy (map (\<lambda>(k, j). (Key_str k, freeze_json j)) es)"
| "freeze_json (J_list js) = O_tuple (map freeze_json js)"
| "freeze_json J_null = O_none"
| "freeze_json (J_bool b) = O_bool b"
| "freeze_json (J_int n) = O_int n"
| "freeze_json (J_float w) = O_float w"
| "freeze_json (J_str s) = O_str s"

fun thaw_json :: "'x pyo \<Rightarrow> 'x pyo" where
  "thaw_json (O_map kind es) =
     (if kind = Map_other then O_map kind es else O_map Map_dict (map (\<lambda>(k, v). (k, thaw_json v)) es))"
| "thaw_json (O_list xs) = O_list (map thaw_json xs)"
| "thaw_json (O_tuple xs) = O_list (map thaw_json xs)"
| "thaw_json (O_seq_sub xs) = O_list (map thaw_json xs)"
| "thaw_json v = v"

end
