(* ===== verification/Plan_Nodes.thy ===== *)
theory Plan_Nodes
  imports Json_Value "HOL-Library.List_Lexorder"
begin

text \<open>
  The nodes of a plan: the vocabulary of \<^verbatim>\<open>paw_backend/orchestrator/domain.py\<close> and
  \<^verbatim>\<open>limits.py\<close>, the reasons of \<^verbatim>\<open>errors.py\<close> and \<^verbatim>\<open>PlanNode\<close> of \<^verbatim>\<open>plan.py\<close> with the checks of its
  constructor, in the order the code makes them. Whether the redaction of results would
  change a text (\<^verbatim>\<open>tools/credentials.py\<close>, regular expressions over normalised Unicode) is the
  parameter \<open>redacts\<close>; \<^verbatim>\<open>repr\<close> of a float is \<open>frepr\<close>. Texts are ordered like Python's \<^verbatim>\<open>str\<close>, by
  code points.
\<close>

section \<open>Vocabulary\<close>

datatype NodeRole = NodeRole_PLANNER | NodeRole_WORKER | NodeRole_RESEARCHER | NodeRole_REVIEWER

fun NodeRole_value :: "NodeRole \<Rightarrow> string" where
  "NodeRole_value NodeRole_PLANNER = ''planner''"
| "NodeRole_value NodeRole_WORKER = ''worker''"
| "NodeRole_value NodeRole_RESEARCHER = ''researcher''"
| "NodeRole_value NodeRole_REVIEWER = ''reviewer''"

definition NodeRole_members :: "NodeRole list" where
  "NodeRole_members = [NodeRole_PLANNER, NodeRole_WORKER, NodeRole_RESEARCHER, NodeRole_REVIEWER]"

datatype PlanReason =
    NOT_A_MAPPING | UNKNOWN_FIELD | MISSING_FIELD | BAD_TYPE | BAD_TEXT | BAD_KEY | DUPLICATE_KEY | UNKNOWN_ROLE
  | EMPTY | TOO_MANY_NODES | TOO_MANY_DEPENDENCIES | TOO_MANY_EDGES | UNKNOWN_DEPENDENCY | SELF_DEPENDENCY
  | DUPLICATE_DEPENDENCY | CYCLE | TOO_DEEP | BAD_INPUT | TOO_LARGE | UNKNOWN_CAPABILITY | CAPABILITY_ABOVE_ROLE
  | BAD_REPOSITORY | NO_REQUIRED_NODE | WORKER_IN_READ_ONLY_TASK | CREDENTIAL_IN_PLAN | AGENT_NOT_ALLOWED
  | RESERVED_KEY

definition READ_ONLY :: "Capability set" where
  "READ_ONLY = {PROJECT_READ, PROJECT_MEMORY_USE, SHARED_MEMORY_READ}"

fun ROLE_CEILING :: "NodeRole \<Rightarrow> Capability set" where
  "ROLE_CEILING NodeRole_PLANNER = READ_ONLY"
| "ROLE_CEILING NodeRole_RESEARCHER = READ_ONLY"
| "ROLE_CEILING NodeRole_REVIEWER = READ_ONLY"
| "ROLE_CEILING NodeRole_WORKER = READ_ONLY \<union> {PROJECT_TASK_RUN, PROJECT_REPO_WRITE}"

definition READ_ONLY_TASK_CAPABILITIES :: "Capability set" where
  "READ_ONLY_TASK_CAPABILITIES = \<Union> (ROLE_CEILING ` set (filter (\<lambda>r. r \<noteq> NodeRole_WORKER) NodeRole_members))"

definition WRITING_CAPABILITIES :: "Capability set" where
  "WRITING_CAPABILITIES = {PROJECT_REPO_WRITE, PROJECT_PR_CREATE, PR_CREATE}"

definition MAX_NODES :: nat where "MAX_NODES = 32"
definition MAX_DEPENDENCIES :: nat where "MAX_DEPENDENCIES = 8"
definition MAX_EDGES :: nat where "MAX_EDGES = 96"
definition MAX_DEPTH :: nat where "MAX_DEPTH = 16"
definition MAX_TITLE_CHARS :: nat where "MAX_TITLE_CHARS = 100"
definition MAX_GOAL_CHARS :: nat where "MAX_GOAL_CHARS = 4000"
definition MAX_NODE_INPUT_BYTES :: nat where "MAX_NODE_INPUT_BYTES = 16 * 1024"
definition MAX_NODE_INPUT_DEPTH :: nat where "MAX_NODE_INPUT_DEPTH = 8"
definition MAX_PLAN_BYTES :: nat where "MAX_PLAN_BYTES = 128 * 1024"
definition MAX_NODE_CAPABILITIES :: nat where "MAX_NODE_CAPABILITIES = 16"
definition MAX_NODE_REPOSITORIES :: nat where "MAX_NODE_REPOSITORIES = 16"

section \<open>Nodes\<close>

record PlanNode =
  pn_key :: pystr
  pn_role :: NodeRole
  pn_title :: pystr
  pn_goal :: pystr
  pn_depends_on :: "pystr list"
  pn_required :: bool
  pn_input :: json
  pn_capabilities :: "Capability list option"
  pn_repositories :: "uuid list option"
  pn_agent :: "pystr option"

text \<open>The backend's own objects a plan may hold where it asks for a role, a capability or a node.\<close>

datatype plan_obj = Obj_role NodeRole | Obj_cap Capability | Obj_node PlanNode | Obj_other

type_synonym pobj = "plan_obj pyo"

record node_args =
  na_key :: pobj
  na_role :: pobj
  na_title :: pobj
  na_goal :: pobj
  na_depends_on :: pobj
  na_required :: pobj
  na_input :: pobj
  na_capabilities :: pobj
  na_repositories :: pobj
  na_agent :: pobj

section \<open>Checks of the fields\<close>

definition strip :: "pystr \<Rightarrow> pystr" where
  "strip s = rev (dropWhile is_space (rev (dropWhile is_space s)))"

text \<open>\<^verbatim>\<open>[\x00-\x08\x0b-\x1f\x7f]\<close> for a goal, \<^verbatim>\<open>[\x00-\x1f\x7f]\<close> for a title\<close>

definition text_forbidden :: "bool \<Rightarrow> nat \<Rightarrow> bool" where
  "text_forbidden multiline c \<longleftrightarrow> is_control c \<and> \<not> (multiline \<and> (c = 9 \<or> c = 10))"

definition plan_text :: "nat \<Rightarrow> bool \<Rightarrow> 'x pyo \<Rightarrow> PlanReason + pystr" where
  "plan_text limit multiline v =
     (case v of
        O_str s \<Rightarrow>
          if length s > limit * 4 then Inl BAD_TEXT
          else if list_ex (text_forbidden multiline) s \<or> list_ex is_surrogate s then Inl BAD_TEXT
          else if strip s = [] \<or> length (strip s) > limit then Inl BAD_TEXT
          else Inr (strip s)
      | _ \<Rightarrow> Inl BAD_TYPE)"

definition is_lower :: "nat \<Rightarrow> bool" where
  "is_lower c \<longleftrightarrow> 97 \<le> c \<and> c \<le> 122"

text \<open>\<^verbatim>\<open>[a-z][a-z0-9_-]{0,31}\<close>\<close>

definition key_ok :: "pystr \<Rightarrow> bool" where
  "key_ok s \<longleftrightarrow> (case s of [] \<Rightarrow> False
     | c # cs \<Rightarrow> is_lower c \<and> length cs \<le> 31
         \<and> list_all (\<lambda>d. is_lower d \<or> 48 \<le> d \<and> d \<le> 57 \<or> d = 95 \<or> d = 45) cs)"

definition plan_key :: "'x pyo \<Rightarrow> PlanReason + pystr" where
  "plan_key v = (case v of O_str s \<Rightarrow> if key_ok s then Inr s else Inl BAD_KEY | _ \<Rightarrow> Inl BAD_TYPE)"

definition collection :: "'x pyo \<Rightarrow> PlanReason + 'x pyo list" where
  "collection v =
     (case v of O_list xs \<Rightarrow> Inr xs | O_tuple xs \<Rightarrow> Inr xs | O_seq_sub xs \<Rightarrow> Inr xs | O_iter xs \<Rightarrow> Inr xs
      | _ \<Rightarrow> Inl BAD_TYPE)"

definition plan_role :: "pobj \<Rightarrow> PlanReason + NodeRole" where
  "plan_role v =
     (case v of
        O_obj (Obj_role r) \<Rightarrow> Inr r
      | O_str s \<Rightarrow> (case enum_lookup NodeRole_members NodeRole_value s of Some r \<Rightarrow> Inr r | None \<Rightarrow> Inl UNKNOWN_ROLE)
      | _ \<Rightarrow> Inl BAD_TYPE)"

definition capability_item :: "pobj \<Rightarrow> PlanReason + Capability" where
  "capability_item v =
     (case v of
        O_obj (Obj_cap c) \<Rightarrow> Inr c
      | O_str s \<Rightarrow>
          (case enum_lookup Capability_members Capability_value s of Some c \<Rightarrow> Inr c | None \<Rightarrow> Inl UNKNOWN_CAPABILITY)
      | _ \<Rightarrow> Inl BAD_TYPE)"

fun each :: "('a \<Rightarrow> 'e + 'b) \<Rightarrow> 'a list \<Rightarrow> 'e + 'b list" where
  "each f [] = Inr []"
| "each f (x # xs) = rbind (f x) (\<lambda>y. rbind (each f xs) (\<lambda>ys. Inr (y # ys)))"

definition capability_key :: "Capability \<Rightarrow> pystr" where
  "capability_key c = cp (Capability_value c)"

definition plan_capabilities :: "NodeRole \<Rightarrow> pobj \<Rightarrow> PlanReason + Capability list option" where
  "plan_capabilities role v =
     (if v = O_none then Inr None
      else
        rbind (collection v) (\<lambda>items.
        if length items > MAX_NODE_CAPABILITIES then Inl UNKNOWN_CAPABILITY
        else
          rbind (each capability_item items) (\<lambda>found.
          if set found \<subseteq> ROLE_CEILING role then Inr (Some (sort_key capability_key (remdups found)))
          else Inl CAPABILITY_ABOVE_ROLE)))"

text \<open>\<^verbatim>\<open>[a-z][a-z0-9._-]{0,63}\<close>\<close>

definition agent_label_ok :: "pystr \<Rightarrow> bool" where
  "agent_label_ok s \<longleftrightarrow> (case s of [] \<Rightarrow> False
     | c # cs \<Rightarrow> is_lower c \<and> length cs \<le> 63
         \<and> list_all (\<lambda>d. is_lower d \<or> 48 \<le> d \<and> d \<le> 57 \<or> d = 46 \<or> d = 95 \<or> d = 45) cs)"

definition plan_agent :: "'x pyo \<Rightarrow> PlanReason + pystr option" where
  "plan_agent v =
     (case v of
        O_none \<Rightarrow> Inr None
      | O_str s \<Rightarrow> if agent_label_ok s then Inr (Some s) else Inl AGENT_NOT_ALLOWED
      | _ \<Rightarrow> Inl BAD_TYPE)"

text \<open>A member of an enumeration is a \<^verbatim>\<open>str\<close>, though not an id.\<close>

definition repository_item :: "pobj \<Rightarrow> PlanReason + uuid" where
  "repository_item v =
     (let ask = (\<lambda>p. case to_uuid p of Inr u \<Rightarrow> Inr u | Inl _ \<Rightarrow> Inl BAD_REPOSITORY) in
      case v of
        O_uuid u \<Rightarrow> ask (PyUuid u)
      | O_str s \<Rightarrow> ask (PyStr s)
      | O_str_sub s \<Rightarrow> ask (PyStr s)
      | O_obj (Obj_role r) \<Rightarrow> ask (PyStr (cp (NodeRole_value r)))
      | O_obj (Obj_cap c) \<Rightarrow> ask (PyStr (cp (Capability_value c)))
      | _ \<Rightarrow> Inl BAD_TYPE)"

definition plan_repositories :: "pobj \<Rightarrow> PlanReason + uuid list option" where
  "plan_repositories v =
     (if v = O_none then Inr None
      else
        rbind (collection v) (\<lambda>items.
        if length items > MAX_NODE_REPOSITORIES then Inl BAD_REPOSITORY
        else rbind (each repository_item items) (\<lambda>found. Inr (Some (sort_key uuid_text (remdups found))))))"

definition plan_input :: "(64 word \<Rightarrow> pystr) \<Rightarrow> 'x pyo \<Rightarrow> PlanReason + json" where
  "plan_input frepr v =
     (let v' = (case v of O_map Map_proxy _ \<Rightarrow> thaw_json v | _ \<Rightarrow> v) in
      case v' of
        O_map kind _ \<Rightarrow>
          if kind = Map_dict \<or> kind = Map_subclass
          then
            (case check_json_object frepr MAX_NODE_INPUT_BYTES MAX_NODE_INPUT_DEPTH v' of
               Inr j \<Rightarrow> Inr j
             | Inl problem \<Rightarrow> Inl (if problem = Problem_size then TOO_LARGE else BAD_INPUT))
          else Inl BAD_TYPE
      | _ \<Rightarrow> Inl BAD_TYPE)"

section \<open>Building a node\<close>

definition PlanNode_init :: "(pystr \<Rightarrow> bool) \<Rightarrow> (64 word \<Rightarrow> pystr) \<Rightarrow> node_args \<Rightarrow> PlanReason + PlanNode" where
  "PlanNode_init redacts frepr a =
     rbind (plan_role (na_role a)) (\<lambda>role.
     rbind (plan_key (na_key a)) (\<lambda>key.
     rbind (plan_text MAX_TITLE_CHARS False (na_title a)) (\<lambda>title.
     rbind (plan_text MAX_GOAL_CHARS True (na_goal a)) (\<lambda>goal.
     if redacts key \<or> redacts title then Inl CREDENTIAL_IN_PLAN
     else
       rbind (collection (na_depends_on a)) (\<lambda>items.
       rbind (each plan_key items) (\<lambda>deps.
       if length deps > MAX_DEPENDENCIES then Inl TOO_MANY_DEPENDENCIES
       else if \<not> distinct deps then Inl DUPLICATE_DEPENDENCY
       else
         rbind (case na_required a of O_bool b \<Rightarrow> Inr b | _ \<Rightarrow> Inl BAD_TYPE) (\<lambda>required.
         rbind (plan_input frepr (na_input a)) (\<lambda>inp.
         rbind (plan_capabilities role (na_capabilities a)) (\<lambda>caps.
         rbind (plan_repositories (na_repositories a)) (\<lambda>repos.
         rbind (plan_agent (na_agent a)) (\<lambda>agent.
         Inr \<lparr>pn_key = key, pn_role = role, pn_title = title, pn_goal = goal, pn_depends_on = sort deps,
              pn_required = required, pn_input = inp, pn_capabilities = caps, pn_repositories = repos,
              pn_agent = agent\<rparr>)))))))))))"

definition NODE_FIELDS :: "pystr list" where
  "NODE_FIELDS = map cp [''key'', ''role'', ''title'', ''goal'', ''depends_on'', ''required'', ''input'',
     ''capabilities'', ''repositories'', ''agent'']"

definition REQUIRED_NODE_FIELDS :: "pystr list" where
  "REQUIRED_NODE_FIELDS = map cp [''key'', ''role'', ''title'', ''goal'']"

text \<open>A field of the mapping, or the default the class gives it.\<close>

definition field_of :: "(pykey \<times> pobj) list \<Rightarrow> string \<Rightarrow> pobj \<Rightarrow> pobj" where
  "field_of es name dflt = (case map_of es (Key_str (cp name)) of Some v \<Rightarrow> v | None \<Rightarrow> dflt)"

definition mapping_args :: "(pykey \<times> pobj) list \<Rightarrow> node_args" where
  "mapping_args es =
     \<lparr>na_key = field_of es ''key'' O_none, na_role = field_of es ''role'' O_none,
      na_title = field_of es ''title'' O_none, na_goal = field_of es ''goal'' O_none,
      na_depends_on = field_of es ''depends_on'' (O_tuple []), na_required = field_of es ''required'' (O_bool True),
      na_input = field_of es ''input'' (O_map Map_dict []), na_capabilities = field_of es ''capabilities'' O_none,
      na_repositories = field_of es ''repositories'' O_none, na_agent = field_of es ''agent'' O_none\<rparr>"

definition PlanNode_from_mapping :: "(pystr \<Rightarrow> bool) \<Rightarrow> (64 word \<Rightarrow> pystr) \<Rightarrow> pobj \<Rightarrow> PlanReason + PlanNode" where
  "PlanNode_from_mapping redacts frepr v =
     (case v of
        O_map _ es \<Rightarrow>
          if list_ex (\<lambda>(k, _). case k of Key_str s \<Rightarrow> s \<notin> set NODE_FIELDS | _ \<Rightarrow> True) es then Inl UNKNOWN_FIELD
          else if list_ex (\<lambda>name. Key_str name \<notin> fst ` set es) REQUIRED_NODE_FIELDS then Inl MISSING_FIELD
          else PlanNode_init redacts frepr (mapping_args es)
      | _ \<Rightarrow> Inl NOT_A_MAPPING)"

definition texts :: "pystr list \<Rightarrow> json" where
  "texts xs = J_list (map J_str xs)"

definition PlanNode_to_mapping :: "PlanNode \<Rightarrow> json" where
  "PlanNode_to_mapping n =
     J_dict ([(cp ''key'', J_str (pn_key n)),
       (cp ''role'', J_str (cp (NodeRole_value (pn_role n)))),
       (cp ''title'', J_str (pn_title n)),
       (cp ''goal'', J_str (pn_goal n)),
       (cp ''depends_on'', texts (pn_depends_on n)),
       (cp ''required'', J_bool (pn_required n)),
       (cp ''input'', pn_input n),
       (cp ''capabilities'',
          case pn_capabilities n of None \<Rightarrow> J_null | Some cs \<Rightarrow> texts (map capability_key cs)),
       (cp ''repositories'',
          case pn_repositories n of None \<Rightarrow> J_null | Some us \<Rightarrow> texts (map uuid_text us))]
      @ (case pn_agent n of None \<Rightarrow> [] | Some agent \<Rightarrow> [(cp ''agent'', J_str agent)]))"

end
