(* ===== verification/Plan_Order.thy ===== *)
theory Plan_Order
  imports Plan_Nodes
begin

text \<open>
  \<^verbatim>\<open>Plan\<close> of \<^verbatim>\<open>paw_backend/orchestrator/plan.py\<close>: the checks of the whole plan, Kahn's algorithm
  (\<open>topological_order\<close>; its heap is the list of the positions in it, of which the smallest is
  popped) and the depth. The dictionaries of the algorithm are functions of the key: \<open>Plan_init\<close>
  calls it only with distinct keys and with dependencies that are keys.
\<close>

section \<open>Kahn's algorithm\<close>

definition position :: "PlanNode list \<Rightarrow> pystr \<Rightarrow> nat" where
  "position nodes k = (case map_of (zip (map pn_key nodes) [0..<length nodes]) k of Some i \<Rightarrow> i | None \<Rightarrow> 0)"

definition waiting_start :: "PlanNode list \<Rightarrow> pystr \<Rightarrow> int" where
  "waiting_start nodes k = (case find (\<lambda>n. pn_key n = k) nodes of Some n \<Rightarrow> int (length (pn_depends_on n)) | None \<Rightarrow> 0)"

definition dependents :: "PlanNode list \<Rightarrow> pystr \<Rightarrow> pystr list" where
  "dependents nodes k = concat (map (\<lambda>n. map (\<lambda>_. pn_key n) (filter (\<lambda>d. d = k) (pn_depends_on n))) nodes)"

definition release_one ::
  "PlanNode list \<Rightarrow> pystr \<Rightarrow> (pystr \<Rightarrow> int) \<times> nat list \<Rightarrow> (pystr \<Rightarrow> int) \<times> nat list" where
  "release_one nodes k st =
     (case st of (waiting, ready) \<Rightarrow>
        let w = waiting(k := waiting k - 1)
        in (w, if w k = 0 then position nodes k # ready else ready))"

lemma dependents_keys: "set (dependents nodes k) \<subseteq> set (map pn_key nodes)"
  by (auto simp: dependents_def)

lemma release_one_simp: "release_one nodes k (w, r) = (w(k := w k - 1), if w k = 1 then position nodes k # r else r)"
  by (simp add: release_one_def)

lemma release_measure:
  assumes "fold (release_one nodes) ks (w, r) = (w', r')" and "set ks \<subseteq> K" and "finite K"
  shows "length r' + card {k \<in> K. 0 < w' k} \<le> length r + card {k \<in> K. 0 < w k}"
  using assms
proof (induction ks arbitrary: w r)
  case (Cons k ks)
  let ?w = "w(k := w k - 1)" and ?P = "\<lambda>w :: pystr \<Rightarrow> int. {k \<in> K. 0 < w k}"
  have sub: "?P ?w \<subseteq> ?P w" by auto
  have fin: "finite (?P w)" using Cons.prems(3) by simp
  show ?case
  proof (cases "w k = 1")
    case True
    have "k \<in> ?P w" "k \<notin> ?P ?w" using True Cons.prems(2) by auto
    with sub fin have "card (?P ?w) < card (?P w)" by (auto intro!: psubset_card_mono)
    moreover from Cons.prems(1) True have "fold (release_one nodes) ks (?w, position nodes k # r) = (w', r')"
      by (simp only: fold_simps o_apply release_one_simp if_True simp_thms)
    then have "length r' + card (?P w') \<le> length (position nodes k # r) + card (?P ?w)"
      by (rule Cons.IH) (use Cons.prems in simp_all)
    ultimately show ?thesis by simp
  next
    case False
    with Cons.prems(1) have "fold (release_one nodes) ks (?w, r) = (w', r')"
      by (simp only: fold_simps o_apply release_one_simp if_False simp_thms)
    then have "length r' + card (?P w') \<le> length r + card (?P ?w)"
      by (rule Cons.IH) (use Cons.prems in simp_all)
    with card_mono [OF fin sub] show ?thesis by simp
  qed
qed simp

function kahn_loop :: "PlanNode list \<Rightarrow> (pystr \<Rightarrow> int) \<Rightarrow> nat list \<Rightarrow> PlanNode list \<Rightarrow> PlanNode list" where
  "kahn_loop nodes waiting ready ordered =
     (if ready = [] then ordered
      else
        let i = Min (set ready);
            n = nodes ! i;
            st = fold (release_one nodes) (dependents nodes (pn_key n)) (waiting, remove1 i ready)
        in kahn_loop nodes (fst st) (snd st) (ordered @ [n]))"
  by pat_completeness auto

termination
proof (relation "measure (\<lambda>(nodes, w, r, _). length r + card {k \<in> set (map pn_key nodes). 0 < w k})")
  fix nodes ordered :: "PlanNode list" and waiting ready i st and n :: PlanNode
  assume r: "ready \<noteq> []" and i: "i = Min (set ready)"
    and st: "st = fold (release_one nodes) (dependents nodes (pn_key n)) (waiting, remove1 i ready)"
  have "i \<in> set ready" using r i by simp
  then have "length (remove1 i ready) < length ready" using length_pos_if_in_set [of i ready] by (simp add: length_remove1)
  with release_measure [of nodes "dependents nodes (pn_key n)" waiting "remove1 i ready" "fst st" "snd st"
      "set (map pn_key nodes)"] st dependents_keys
  show "((nodes, fst st, snd st, ordered @ [n]), (nodes, waiting, ready, ordered))
      \<in> measure (\<lambda>(nodes, w, r, _). length r + card {k \<in> set (map pn_key nodes). 0 < w k})"
    by fastforce
qed simp

declare kahn_loop.simps [simp del]

definition topological_order :: "PlanNode list \<Rightarrow> PlanReason + PlanNode list" where
  "topological_order nodes =
     (let ready = map (position nodes) (filter (\<lambda>k. waiting_start nodes k = 0) (map pn_key nodes));
          ordered = kahn_loop nodes (waiting_start nodes) ready []
      in if length ordered \<noteq> length nodes then Inl CYCLE else Inr ordered)"

section \<open>Plans\<close>

record Plan =
  plan_nodes :: "PlanNode list"

definition max_default :: "nat list \<Rightarrow> nat" where
  "max_default xs = fold max xs 0"

text \<open>The level of every node of a list in topological order: one above its dependencies.\<close>

fun levels :: "PlanNode list \<Rightarrow> (pystr \<Rightarrow> nat) \<Rightarrow> pystr \<Rightarrow> nat" where
  "levels [] lv = lv"
| "levels (n # ns) lv = levels ns (lv(pn_key n := 1 + max_default (map lv (pn_depends_on n))))"

definition nodes_depth :: "PlanNode list \<Rightarrow> nat" where
  "nodes_depth nodes = (let lv = levels nodes (\<lambda>_. 0) in max_default (map (\<lambda>n. lv (pn_key n)) nodes))"

definition Plan_depth :: "Plan \<Rightarrow> nat" where
  "Plan_depth p = nodes_depth (plan_nodes p)"

definition nodes_json :: "PlanNode list \<Rightarrow> json" where
  "nodes_json nodes = J_dict [(cp ''nodes'', J_list (map PlanNode_to_mapping nodes))]"

definition plan_bytes :: "(64 word \<Rightarrow> pystr) \<Rightarrow> PlanNode list \<Rightarrow> nat" where
  "plan_bytes frepr nodes = encoded_size frepr (nodes_json nodes)"

definition Plan_edges :: "Plan \<Rightarrow> (pystr \<times> pystr) list" where
  "Plan_edges p = concat (map (\<lambda>n. map (\<lambda>d. (pn_key n, d)) (pn_depends_on n)) (plan_nodes p))"

text \<open>\<open>None\<close> is the \<^verbatim>\<open>KeyError\<close>.\<close>

definition Plan_ordinal :: "Plan \<Rightarrow> pystr \<Rightarrow> nat option" where
  "Plan_ordinal p k = map_of (zip (map pn_key (plan_nodes p)) [0..<length (plan_nodes p)]) k"

text \<open>The two nested loops over the dependencies; the result is the number of edges.\<close>

fun check_dependencies :: "pystr list \<Rightarrow> pystr \<Rightarrow> pystr list \<Rightarrow> PlanReason + nat" where
  "check_dependencies keys k [] = Inr 0"
| "check_dependencies keys k (d # ds) =
     (if d = k then Inl SELF_DEPENDENCY
      else if d \<notin> set keys then Inl UNKNOWN_DEPENDENCY
      else rbind (check_dependencies keys k ds) (\<lambda>n. Inr (Suc n)))"

fun count_edges :: "pystr list \<Rightarrow> PlanNode list \<Rightarrow> PlanReason + nat" where
  "count_edges keys [] = Inr 0"
| "count_edges keys (n # ns) =
     rbind (check_dependencies keys (pn_key n) (pn_depends_on n)) (\<lambda>a.
     rbind (count_edges keys ns) (\<lambda>b. Inr (a + b)))"

definition plan_item :: "(pystr \<Rightarrow> bool) \<Rightarrow> (64 word \<Rightarrow> pystr) \<Rightarrow> pobj \<Rightarrow> PlanReason + PlanNode" where
  "plan_item redacts frepr v =
     (case v of O_obj (Obj_node n) \<Rightarrow> Inr n | _ \<Rightarrow> PlanNode_from_mapping redacts frepr v)"

definition Plan_init :: "(pystr \<Rightarrow> bool) \<Rightarrow> (64 word \<Rightarrow> pystr) \<Rightarrow> pobj \<Rightarrow> PlanReason + Plan" where
  "Plan_init redacts frepr v =
     rbind (collection v) (\<lambda>items.
     if items = [] then Inl EMPTY
     else if length items > MAX_NODES then Inl TOO_MANY_NODES
     else
       rbind (each (plan_item redacts frepr) items) (\<lambda>nodes.
       let keys = map pn_key nodes in
       if \<not> distinct keys then Inl DUPLICATE_KEY
       else
         rbind (count_edges keys nodes) (\<lambda>edges.
         if edges > MAX_EDGES then Inl TOO_MANY_EDGES
         else
           rbind (topological_order nodes) (\<lambda>ordered.
           if nodes_depth ordered > MAX_DEPTH then Inl TOO_DEEP
           else if plan_bytes frepr ordered > MAX_PLAN_BYTES then Inl TOO_LARGE
           else if \<not> list_ex pn_required ordered then Inl NO_REQUIRED_NODE
           else Inr \<lparr>plan_nodes = ordered\<rparr>))))"

definition key_text :: "pykey \<Rightarrow> pystr option" where
  "key_text k = (case k of Key_str s \<Rightarrow> Some s | Key_sub s \<Rightarrow> Some s | Key_other \<Rightarrow> None)"

definition Plan_from_mapping :: "(pystr \<Rightarrow> bool) \<Rightarrow> (64 word \<Rightarrow> pystr) \<Rightarrow> pobj \<Rightarrow> PlanReason + Plan" where
  "Plan_from_mapping redacts frepr v =
     (case v of
        O_map _ es \<Rightarrow>
          if list_ex (\<lambda>(k, _). key_text k \<noteq> Some (cp ''nodes'')) es then Inl UNKNOWN_FIELD
          else (case es of [] \<Rightarrow> Inl MISSING_FIELD | (_, nodes) # _ \<Rightarrow> Plan_init redacts frepr nodes)
      | _ \<Rightarrow> Inl NOT_A_MAPPING)"

definition Plan_to_mapping :: "Plan \<Rightarrow> json" where
  "Plan_to_mapping p = nodes_json (plan_nodes p)"

definition refuse_writers :: "Plan \<Rightarrow> PlanReason + Plan" where
  "refuse_writers p =
     (if list_ex (\<lambda>n. pn_role n = NodeRole_WORKER) (plan_nodes p) then Inl WORKER_IN_READ_ONLY_TASK else Inr p)"

end
