(* ===== verification/Plan_Order_Facts.thy ===== *)
theory Plan_Order_Facts
  imports Plan_Order
begin

text \<open>
  Kahn's algorithm against its reference: \<open>greedy\<close> takes, again and again, the first node of the
  proposal that was not taken and whose dependencies all were. The loop invariant \<open>kahn_inv\<close>
  ties the counters and the heap to the set of the taken keys.
\<close>

section \<open>Dependencies\<close>

definition nodes_ok :: "PlanNode list \<Rightarrow> bool" where
  "nodes_ok nodes \<longleftrightarrow> distinct (map pn_key nodes)
     \<and> (\<forall>n \<in> set nodes. distinct (pn_depends_on n) \<and> set (pn_depends_on n) \<subseteq> set (map pn_key nodes))"

definition dep_rel :: "PlanNode list \<Rightarrow> (pystr \<times> pystr) set" where
  "dep_rel nodes = {(d, pn_key n) | d n. n \<in> set nodes \<and> d \<in> set (pn_depends_on n)}"

definition free :: "pystr list \<Rightarrow> PlanNode \<Rightarrow> bool" where
  "free taken n \<longleftrightarrow> pn_key n \<notin> set taken \<and> set (pn_depends_on n) \<subseteq> set taken"

function greedy :: "PlanNode list \<Rightarrow> pystr list \<Rightarrow> PlanNode list" where
  "greedy nodes taken =
     (case find (free taken) nodes of None \<Rightarrow> [] | Some n \<Rightarrow> n # greedy nodes (taken @ [pn_key n]))"
  by pat_completeness auto

termination
proof (relation "measure (\<lambda>(nodes, taken). card (set (map pn_key nodes) - set taken))")
  fix nodes n and taken :: "pystr list"
  assume "find (free taken) nodes = Some n"
  then have "n \<in> set nodes" "pn_key n \<notin> set taken" by (auto simp: find_Some_iff free_def)
  then have "set (map pn_key nodes) - set (taken @ [pn_key n]) \<subset> set (map pn_key nodes) - set taken" by auto
  then show "((nodes, taken @ [pn_key n]), (nodes, taken))
      \<in> measure (\<lambda>(nodes, taken). card (set (map pn_key nodes) - set taken))"
    by (auto intro!: psubset_card_mono)
qed simp

declare greedy.simps [simp del]

text \<open>Every dependency stands before its dependent.\<close>

fun in_order :: "pystr list \<Rightarrow> PlanNode list \<Rightarrow> bool" where
  "in_order taken [] \<longleftrightarrow> True"
| "in_order taken (n # ns) \<longleftrightarrow> free taken n \<and> in_order (taken @ [pn_key n]) ns"

lemma find_member: "find P xs = Some x \<Longrightarrow> x \<in> set xs \<and> P x"
  by (auto simp: find_Some_iff)

lemma greedy_in_order: "in_order taken (greedy nodes taken) \<and> set (greedy nodes taken) \<subseteq> set nodes"
proof (induction nodes taken rule: greedy.induct)
  case (1 nodes taken)
  then show ?case by (subst (1 2) greedy.simps) (auto split: option.split dest: find_member)
qed

lemma in_order_keys: "in_order taken ns \<Longrightarrow> distinct (map pn_key ns) \<and> set taken \<inter> set (map pn_key ns) = {}"
  by (induction taken ns rule: in_order.induct) (auto simp: free_def)

lemma in_order_append:
  "in_order taken (xs @ ys) \<longleftrightarrow> in_order taken xs \<and> in_order (taken @ map pn_key xs) ys"
  by (induction xs arbitrary: taken) auto

lemma in_order_nth:
  assumes "in_order [] ns" and "i < length ns" and "d \<in> set (pn_depends_on (ns ! i))"
  shows "\<exists>j < i. pn_key (ns ! j) = d"
proof -
  have "in_order [] (take i ns @ ns ! i # drop (Suc i) ns)" using assms by (simp add: id_take_nth_drop [symmetric])
  then have "d \<in> set (map pn_key (take i ns))" using assms(3) by (auto simp: in_order_append free_def)
  then obtain j where "j < i" "pn_key (ns ! j) = d" using assms(2) by (auto simp: in_set_conv_nth)
  then show ?thesis by blast
qed

text \<open>A list in order leaves no cycle.\<close>

lemma in_order_acyclic:
  assumes "in_order [] ns"
  shows "acyclic (dep_rel ns)"
proof -
  have dist: "distinct (map pn_key ns)" using in_order_keys [OF assms] by simp
  define pos where "pos k = (THE i. i < length ns \<and> pn_key (ns ! i) = k)" for k
  have pos: "pos (pn_key (ns ! i)) = i" if "i < length ns" for i
    unfolding pos_def using that dist by (intro the_equality) (auto simp: distinct_conv_nth)
  have "pos d < pos k" if dk: "(d, k) \<in> dep_rel ns" for d k
  proof -
    from dk obtain n where "n \<in> set ns" "k = pn_key n" and d: "d \<in> set (pn_depends_on n)"
      unfolding dep_rel_def by blast
    then obtain i where i: "i < length ns" "k = pn_key (ns ! i)" "n = ns ! i" by (metis in_set_conv_nth)
    with in_order_nth [OF assms i(1)] d obtain j where "j < i" "d = pn_key (ns ! j)" by blast
    with i pos show ?thesis by simp
  qed
  then have "dep_rel ns \<subseteq> measure pos" by auto
  then show ?thesis by (meson wf_acyclic wf_measure wf_subset)
qed

lemma greedy_stuck:
  "find (free (taken @ map pn_key (greedy nodes taken))) nodes = None"
proof (induction nodes taken rule: greedy.induct)
  case (1 nodes taken)
  then show ?case by (subst greedy.simps) (auto split: option.split)
qed

lemma greedy_complete:
  assumes ok: "nodes_ok nodes" and "acyclic (dep_rel nodes)"
  shows "set (map pn_key (greedy nodes [])) = set (map pn_key nodes)"
proof (rule ccontr)
  let ?T = "set (map pn_key (greedy nodes []))" and ?K = "set (map pn_key nodes)"
  assume "?T \<noteq> ?K"
  moreover have "?T \<subseteq> ?K" using greedy_in_order [of "[]" nodes] by auto
  ultimately obtain k where k: "k \<in> ?K - ?T" by blast
  have "finite (dep_rel nodes)"
    by (rule finite_subset [of _ "(\<Union>n \<in> set nodes. set (pn_depends_on n)) \<times> ?K"]) (auto simp: dep_rel_def)
  then have "wf (dep_rel nodes)" using assms(2) by (rule finite_acyclic_wf)
  from wfE_min [OF this k] obtain m where m: "m \<in> ?K - ?T" "\<And>d. (d, m) \<in> dep_rel nodes \<Longrightarrow> d \<notin> ?K - ?T" by blast
  then obtain n where n: "n \<in> set nodes" "pn_key n = m" by auto
  have "set (pn_depends_on n) \<subseteq> ?T"
  proof
    fix d assume d: "d \<in> set (pn_depends_on n)"
    then have "(d, m) \<in> dep_rel nodes" "d \<in> ?K" using n ok by (auto simp: dep_rel_def nodes_ok_def)
    with m(2) show "d \<in> ?T" by blast
  qed
  with m(1) n have "free (map pn_key (greedy nodes [])) n" by (simp add: free_def)
  then show False using greedy_stuck [of "[]" nodes] n by (auto simp: find_None_iff)
qed

lemma greedy_length:
  assumes "nodes_ok nodes"
  shows "length (greedy nodes []) = length nodes \<longleftrightarrow> acyclic (dep_rel nodes)"
    and "length (greedy nodes []) = length nodes \<Longrightarrow> set (greedy nodes []) = set nodes"
proof -
  let ?G = "greedy nodes []"
  have g: "in_order [] ?G" "set ?G \<subseteq> set nodes" using greedy_in_order [of "[]" nodes] by auto
  have dist: "distinct ?G" using in_order_keys [OF g(1)] by (simp add: distinct_map)
  have dn: "distinct nodes" using assms by (simp add: nodes_ok_def distinct_map)
  show all: "set ?G = set nodes" if "length ?G = length nodes"
    using that g(2) dist dn by (intro card_subset_eq) (auto simp: distinct_card)
  show "length ?G = length nodes \<longleftrightarrow> acyclic (dep_rel nodes)"
  proof
    assume "length ?G = length nodes"
    from all [OF this] have "dep_rel ?G = dep_rel nodes" by (simp add: dep_rel_def)
    with in_order_acyclic [OF g(1)] show "acyclic (dep_rel nodes)" by simp
  next
    assume "acyclic (dep_rel nodes)"
    from greedy_complete [OF assms this] have "card (set (map pn_key ?G)) = card (set (map pn_key nodes))" by simp
    moreover have "distinct (map pn_key ?G)" "distinct (map pn_key nodes)"
      using in_order_keys [OF g(1)] assms by (auto simp: nodes_ok_def)
    ultimately show "length ?G = length nodes" by (metis distinct_card length_map)
  qed
qed

text \<open>A list that is in order already is taken as it is.\<close>

lemma greedy_of_ordered:
  assumes "in_order taken ns" and "\<And>n. n \<in> set pre \<Longrightarrow> pn_key n \<in> set taken"
  shows "greedy (pre @ ns) taken = ns"
  using assms
proof (induction ns arbitrary: pre taken)
  case Nil
  then have "find (free taken) pre = None" by (auto simp: find_None_iff free_def)
  then show ?case by (subst greedy.simps) simp
next
  case (Cons n ns)
  have "find (free taken) pre = None" using Cons.prems(2) by (auto simp: find_None_iff free_def)
  moreover have "find P (xs @ y # ys) = Some y" if "find P xs = None" "P y" for P and xs ys :: "PlanNode list" and y
    using that by (induction xs) (auto split: if_splits)
  ultimately have "find (free taken) (pre @ n # ns) = Some n" using Cons.prems(1) by simp
  moreover have "greedy ((pre @ [n]) @ ns) (taken @ [pn_key n]) = ns" using Cons.prems by (intro Cons.IH) auto
  ultimately show ?case by (subst greedy.simps) simp
qed

section \<open>The loop\<close>

lemma dependents_members: "k \<in> set (dependents nodes d) \<longleftrightarrow> (\<exists>n \<in> set nodes. pn_key n = k \<and> d \<in> set (pn_depends_on n))"
  by (auto simp: dependents_def)

lemma filter_eq_single: "distinct xs \<Longrightarrow> filter (\<lambda>x. x = d) xs = (if d \<in> set xs then [d] else [])"
  by (induction xs) auto

lemma dependents_distinct:
  assumes "distinct (map pn_key nodes)" and "\<forall>n \<in> set nodes. distinct (pn_depends_on n)"
  shows "distinct (dependents nodes d)"
  using assms
proof (induction nodes)
  case (Cons n ns)
  have "filter (\<lambda>x. x = d) (pn_depends_on n) = (if d \<in> set (pn_depends_on n) then [d] else [])"
    using Cons.prems(2) by (simp add: filter_eq_single)
  then show ?case using Cons by (auto simp: dependents_def)
qed (simp add: dependents_def)

lemma position_nth:
  assumes "distinct (map pn_key nodes)" and "i < length nodes"
  shows "position nodes (pn_key (nodes ! i)) = i"
proof -
  have "map_of (zip (map pn_key nodes) [0..<length nodes]) (map pn_key nodes ! i) = Some ([0..<length nodes] ! i)"
    using assms by (intro map_of_zip_nth) auto
  with assms(2) show ?thesis by (simp add: position_def)
qed

lemma fold_release:
  assumes "distinct ks"
  shows "fold (release_one nodes) ks (w, r) =
     (\<lambda>k. if k \<in> set ks then w k - 1 else w k, rev (map (position nodes) (filter (\<lambda>k. w k = 1) ks)) @ r)"
  using assms
proof (induction ks arbitrary: w r)
  case (Cons k ks)
  have eq: "filter (\<lambda>x. (w(k := w k - 1)) x = 1) ks = filter (\<lambda>x. w x = 1) ks"
    using Cons.prems by (intro filter_cong) auto
  show ?case using Cons.prems unfolding fold_simps release_one_simp Cons.IH [OF distinct.simps(2) [THEN iffD1, OF Cons.prems, THEN conjunct2]] eq
    by (auto simp: fun_eq_iff)
qed simp

definition kahn_inv :: "PlanNode list \<Rightarrow> pystr list \<Rightarrow> (pystr \<Rightarrow> int) \<Rightarrow> nat list \<Rightarrow> bool" where
  "kahn_inv nodes taken w r \<longleftrightarrow> distinct r \<and> set r = {i. i < length nodes \<and> free taken (nodes ! i)}
     \<and> (\<forall>n \<in> set nodes. if pn_key n \<in> set taken then set (pn_depends_on n) \<subseteq> set taken
          else w (pn_key n) = int (card (set (pn_depends_on n) - set taken)))"

lemma kahn_inv_start:
  assumes "nodes_ok nodes"
  shows "kahn_inv nodes [] (waiting_start nodes)
    (map (position nodes) (filter (\<lambda>k. waiting_start nodes k = 0) (map pn_key nodes)))"
proof -
  have dist: "distinct (map pn_key nodes)" using assms by (simp add: nodes_ok_def)
  have w: "waiting_start nodes (pn_key n) = int (length (pn_depends_on n))" if n: "n \<in> set nodes" for n
  proof -
    obtain m where m: "find (\<lambda>x. pn_key x = pn_key n) nodes = Some m"
      using n find_None_iff [of "\<lambda>x. pn_key x = pn_key n" nodes] by auto
    then have "m = n" using dist n by (auto simp: find_Some_iff distinct_map dest: inj_onD)
    with m show ?thesis by (simp add: waiting_start_def)
  qed
  let ?r = "map (position nodes) (filter (\<lambda>k. waiting_start nodes k = 0) (map pn_key nodes))"
  let ?I = "filter (\<lambda>i. pn_depends_on (nodes ! i) = []) [0..<length nodes]"
  have keys: "map pn_key nodes = map (\<lambda>i. pn_key (nodes ! i)) [0..<length nodes]"
    by (rule nth_equalityI) auto
  have "filter (\<lambda>k. waiting_start nodes k = 0) (map pn_key nodes) = map (\<lambda>i. pn_key (nodes ! i))
      (filter (\<lambda>i. waiting_start nodes (pn_key (nodes ! i)) = 0) [0..<length nodes])"
    by (subst keys) (simp only: filter_map comp_def)
  also have "filter (\<lambda>i. waiting_start nodes (pn_key (nodes ! i)) = 0) [0..<length nodes] = ?I"
    by (rule filter_cong) (auto simp: w)
  finally have "?r = map (\<lambda>i. position nodes (pn_key (nodes ! i))) ?I" by (simp only: map_map comp_def)
  also have "\<dots> = map (\<lambda>i. i) ?I" by (rule map_cong) (auto intro: position_nth [OF dist])
  finally have eq: "?r = ?I" by simp
  have "distinct (pn_depends_on n)" if "n \<in> set nodes" for n using assms that by (simp add: nodes_ok_def)
  then show ?thesis unfolding eq by (auto simp: kahn_inv_def free_def w distinct_card)
qed

lemma kahn_inv_step:
  assumes ok: "nodes_ok nodes" and inv: "kahn_inv nodes taken w r" and n: "find (free taken) nodes = Some n"
  defines "st \<equiv> fold (release_one nodes) (dependents nodes (pn_key n)) (w, remove1 (position nodes (pn_key n)) r)"
  shows "kahn_inv nodes (taken @ [pn_key n]) (fst st) (snd st)"
proof -
  have dist: "distinct (map pn_key nodes)" and dd: "\<And>m. m \<in> set nodes \<Longrightarrow> distinct (pn_depends_on m)"
    using ok by (auto simp: nodes_ok_def)
  have fr: "n \<in> set nodes" "free taken n" using find_member [OF n] by auto
  let ?D = "set (dependents nodes (pn_key n))" and ?T = "set taken"
  have D: "pn_key m \<in> ?D \<longleftrightarrow> pn_key n \<in> set (pn_depends_on m)" if "m \<in> set nodes" for m
    using that dist by (auto simp: dependents_members distinct_map dest: inj_onD)
  have wn: "w (pn_key m) = int (card (set (pn_depends_on m) - ?T))" if "m \<in> set nodes" "pn_key m \<notin> ?T" for m
    using inv that by (simp add: kahn_inv_def)
  have closed: "set (pn_depends_on m) \<subseteq> ?T" if "m \<in> set nodes" "pn_key m \<in> ?T" for m
    using inv that by (simp add: kahn_inv_def)
  have st: "fst st = (\<lambda>k. if k \<in> ?D then w k - 1 else w k)"
    "snd st = rev (map (position nodes) (filter (\<lambda>k. w k = 1) (dependents nodes (pn_key n))))
       @ remove1 (position nodes (pn_key n)) r"
    unfolding st_def using dependents_distinct [OF dist] dd by (simp_all add: fold_release)
  have one: "card (set (pn_depends_on m) - ?T) = 1 \<longleftrightarrow> set (pn_depends_on m) \<subseteq> insert (pn_key n) ?T"
    if "pn_key n \<in> set (pn_depends_on m)" for m
  proof -
    have "pn_key n \<in> set (pn_depends_on m) - ?T" using that fr(2) by (simp add: free_def)
    then have "card (set (pn_depends_on m) - ?T) = 1 \<longleftrightarrow> set (pn_depends_on m) - ?T = {pn_key n}"
      by (metis card_1_singletonE is_singletonI is_singleton_altdef singletonD)
    also have "\<dots> \<longleftrightarrow> set (pn_depends_on m) \<subseteq> insert (pn_key n) ?T"
      using \<open>pn_key n \<in> set (pn_depends_on m) - ?T\<close> by blast
    finally show ?thesis .
  qed
  define new where "new = {i. i < length nodes \<and> pn_key (nodes ! i) \<in> ?D \<and> w (pn_key (nodes ! i)) = 1}"
  have pos: "position nodes (pn_key n) \<in> {i. i < length nodes \<and> nodes ! i = n}"
    using fr(1) position_nth [OF dist] by (auto simp: in_set_conv_nth)
  have image: "position nodes ` {k \<in> ?D. w k = 1} = new"
  proof (intro equalityI subsetI)
    fix i assume "i \<in> position nodes ` {k \<in> ?D. w k = 1}"
    then obtain k where k: "k \<in> ?D" "w k = 1" "i = position nodes k" by blast
    then have "k \<in> set (map pn_key nodes)" using dependents_keys by blast
    then obtain j where "j < length nodes" "k = pn_key (nodes ! j)" by (auto simp: in_set_conv_nth)
    with k position_nth [OF dist] show "i \<in> new" by (simp add: new_def)
  next
    fix i assume "i \<in> new"
    then have "pn_key (nodes ! i) \<in> {k \<in> ?D. w k = 1}" "i = position nodes (pn_key (nodes ! i))"
      using position_nth [OF dist] by (simp_all add: new_def)
    then show "i \<in> position nodes ` {k \<in> ?D. w k = 1}" by blast
  qed
  then have set_st: "set (snd st) = new \<union> (set r - {position nodes (pn_key n)})"
    using inv by (auto simp: st(2) kahn_inv_def)
  have key_new: "pn_key (nodes ! i) \<notin> ?T \<and> free (taken @ [pn_key n]) (nodes ! i) \<and> \<not> free taken (nodes ! i)"
    if "i \<in> new" for i
  proof -
    have i: "nodes ! i \<in> set nodes" "pn_key n \<in> set (pn_depends_on (nodes ! i))" "w (pn_key (nodes ! i)) = 1"
      using that D by (auto simp: new_def)
    then have "pn_key (nodes ! i) \<notin> ?T" "nodes ! i \<noteq> n" using closed fr(2) by (auto simp: free_def)
    moreover from this i dist fr(1) have "pn_key (nodes ! i) \<noteq> pn_key n" by (auto simp: distinct_map dest: inj_onD)
    ultimately show ?thesis using wn [OF i(1)] one [OF i(2)] i fr(2) by (auto simp: free_def)
  qed
  have old: "free (taken @ [pn_key n]) (nodes ! i)" if "i \<in> set r" "i \<noteq> position nodes (pn_key n)" for i
  proof -
    have i: "i < length nodes" "free taken (nodes ! i)" using inv that(1) by (auto simp: kahn_inv_def)
    with that(2) have "pn_key (nodes ! i) \<noteq> pn_key n" using position_nth [OF dist i(1)] by auto
    with i(2) show ?thesis by (auto simp: free_def)
  qed
  have taken_up: "i \<in> new \<union> (set r - {position nodes (pn_key n)})"
    if i: "i < length nodes" "free (taken @ [pn_key n]) (nodes ! i)" for i
  proof (cases "pn_key n \<in> set (pn_depends_on (nodes ! i))")
    case True
    with i have "i \<in> new" using D [of "nodes ! i"] wn [of "nodes ! i"] one [OF True] by (auto simp: new_def free_def)
    then show ?thesis by simp
  next
    case False
    with i have "free taken (nodes ! i)" "nodes ! i \<noteq> n" by (auto simp: free_def)
    then show ?thesis using inv i(1) pos by (auto simp: kahn_inv_def)
  qed
  have "set (snd st) = {i. i < length nodes \<and> free (taken @ [pn_key n]) (nodes ! i)}"
    unfolding set_st using key_new old taken_up inv by (auto simp: kahn_inv_def new_def)
  moreover have "distinct (snd st)"
  proof -
    have "inj_on (position nodes) (set (map pn_key nodes))"
      using position_nth [OF dist] by (auto simp: inj_on_def in_set_conv_nth)
    then have "inj_on (position nodes) {k \<in> ?D. w k = 1}"
      by (rule inj_on_subset) (use dependents_keys [of nodes "pn_key n"] in blast)
    moreover have "new \<inter> set r = {}" using key_new inv by (auto simp: kahn_inv_def)
    ultimately show ?thesis using dependents_distinct [OF dist] dd inv image
      by (auto simp: st(2) kahn_inv_def distinct_map)
  qed
  moreover have "if pn_key m \<in> set (taken @ [pn_key n]) then set (pn_depends_on m) \<subseteq> set (taken @ [pn_key n])
      else fst st (pn_key m) = int (card (set (pn_depends_on m) - set (taken @ [pn_key n])))" if m: "m \<in> set nodes" for m
  proof (cases "pn_key m \<in> set (taken @ [pn_key n])")
    case True
    moreover have "m = n" if "pn_key m = pn_key n" using that m fr(1) dist by (auto simp: distinct_map dest: inj_onD)
    ultimately show ?thesis using closed [OF m] fr(2) by (auto simp: free_def)
  next
    case False
    have "set (pn_depends_on m) - set (taken @ [pn_key n]) = set (pn_depends_on m) - ?T - {pn_key n}" by auto
    moreover have "int (card (A - {k})) = (if k \<in> A then int (card A) - 1 else int (card A))"
      if "finite A" for A and k :: pystr
    proof (cases "k \<in> A")
      case True
      then have "0 < card A" using that by (auto simp: card_gt_0_iff)
      with True show ?thesis by (simp add: of_nat_diff)
    qed simp
    moreover have "pn_key n \<in> set (pn_depends_on m) - ?T \<longleftrightarrow> pn_key m \<in> ?D" using D [OF m] fr(2) by (auto simp: free_def)
    moreover have "pn_key m \<notin> ?T" using False by simp
    ultimately show ?thesis using False wn [OF m] by (simp add: st(1))
  qed
  ultimately show ?thesis unfolding kahn_inv_def by blast
qed

lemma Min_first:
  assumes "find P xs = Some x"
  shows "\<exists>i < length xs. xs ! i = x \<and> Min {j. j < length xs \<and> P (xs ! j)} = i"
proof -
  from assms obtain i where i: "i < length xs" "P (xs ! i)" "x = xs ! i" "\<forall>j < i. \<not> P (xs ! j)"
    by (auto simp: find_Some_iff)
  then have "Min {j. j < length xs \<and> P (xs ! j)} = i" by (intro Min_eqI) (auto simp: not_less [symmetric])
  with i show ?thesis by blast
qed

lemma kahn_loop_greedy:
  assumes "nodes_ok nodes" and "kahn_inv nodes taken w r"
  shows "kahn_loop nodes w r acc = acc @ greedy nodes taken"
  using assms
proof (induction nodes taken arbitrary: w r acc rule: greedy.induct)
  case (1 nodes taken)
  show ?case
  proof (cases "find (free taken) nodes")
    case None
    then have "set r = {}" using 1(3) by (auto simp: kahn_inv_def find_None_iff)
    with None show ?thesis by (subst kahn_loop.simps, subst greedy.simps) simp
  next
    case (Some n)
    from Min_first [OF this] obtain i where i: "i < length nodes" "nodes ! i = n" "Min (set r) = i"
      using 1(3) by (auto simp: kahn_inv_def)
    have dist: "distinct (map pn_key nodes)" using 1(2) by (simp add: nodes_ok_def)
    have pos: "position nodes (pn_key n) = i" using position_nth [OF dist i(1)] i(2) by simp
    have "set r \<noteq> {}" using Some 1(3) by (auto simp: kahn_inv_def dest!: find_member simp: in_set_conv_nth)
    then have "r \<noteq> []" by auto
    then have "kahn_loop nodes w r acc = (let st = fold (release_one nodes) (dependents nodes (pn_key n))
        (w, remove1 i r) in kahn_loop nodes (fst st) (snd st) (acc @ [n]))"
      using i by (subst kahn_loop.simps) (simp add: Let_def)
    also have "\<dots> = (acc @ [n]) @ greedy nodes (taken @ [pn_key n])"
      unfolding Let_def using kahn_inv_step [OF 1(2,3) Some] pos by (intro 1(1) [OF Some 1(2)]) simp
    also have "\<dots> = acc @ greedy nodes taken" by (subst (2) greedy.simps) (simp add: Some)
    finally show ?thesis .
  qed
qed

lemma topological_order_greedy:
  assumes "nodes_ok nodes"
  shows "topological_order nodes = (if acyclic (dep_rel nodes) then Inr (greedy nodes []) else Inl CYCLE)"
  using greedy_length(1) [OF assms]
  by (simp add: topological_order_def Let_def kahn_loop_greedy [OF assms kahn_inv_start [OF assms]])

end
