(* ===== verification/Json_Facts.thy ===== *)
theory Json_Facts
  imports Json_Value
begin

text \<open>
  What the JSON checker accepts, stated without the walk: \<open>copy_of\<close> is the deep copy of a value,
  \<open>json_ok\<close> and \<open>jdepth\<close> the rules for it, \<open>cost\<close> what the walk charges. \<open>check_json_object_iff\<close> is
  the reference definition of the checker; thawing a frozen value gives the value back, and a
  value that was accepted is accepted again.
\<close>

section \<open>The reference\<close>

fun copy_of :: "'x pyo \<Rightarrow> json option"
  and copy_entries :: "(pykey \<times> 'x pyo) list \<Rightarrow> (pystr \<times> json) list option"
  and copy_items :: "'x pyo list \<Rightarrow> json list option"
where
  "copy_of O_none = Some J_null"
| "copy_of (O_bool b) = Some (J_bool b)"
| "copy_of (O_int n) = Some (J_int n)"
| "copy_of (O_float w) = Some (J_float w)"
| "copy_of (O_str s) = Some (J_str s)"
| "copy_of (O_map Map_dict es) = map_option J_dict (copy_entries es)"
| "copy_of (O_list xs) = map_option J_list (copy_items xs)"
| "copy_of (O_tuple xs) = map_option J_list (copy_items xs)"
| "copy_of _ = None"
| "copy_entries [] = Some []"
| "copy_entries ((Key_str s, v) # es) =
     (case (copy_of v, copy_entries es) of (Some j, Some js) \<Rightarrow> Some ((s, j) # js) | _ \<Rightarrow> None)"
| "copy_entries (_ # es) = None"
| "copy_items [] = Some []"
| "copy_items (x # xs) = (case (copy_of x, copy_items xs) of (Some j, Some js) \<Rightarrow> Some (j # js) | _ \<Rightarrow> None)"

fun json_ok :: "json \<Rightarrow> bool" where
  "json_ok (J_int n) \<longleftrightarrow> - MAX_INT \<le> n \<and> n \<le> MAX_INT"
| "json_ok (J_float w) \<longleftrightarrow> is_finite_float w"
| "json_ok (J_str s) \<longleftrightarrow> \<not> bad_text s"
| "json_ok (J_list js) \<longleftrightarrow> (\<forall>j \<in> set js. json_ok j)"
| "json_ok (J_dict es) \<longleftrightarrow> (\<forall>(k, j) \<in> set es. length k \<le> MAX_KEY_CHARS \<and> \<not> bad_text k \<and> json_ok j)"
| "json_ok _ \<longleftrightarrow> True"

fun jdepth :: "json \<Rightarrow> nat" where
  "jdepth (J_list js) = Suc (fold max (map jdepth js) 0)"
| "jdepth (J_dict es) = Suc (fold max (map (\<lambda>(k, j). jdepth j) es) 0)"
| "jdepth _ = 0"

fun cost :: "(64 word \<Rightarrow> pystr) \<Rightarrow> json \<Rightarrow> nat" where
  "cost frepr J_null = 4"
| "cost frepr (J_bool b) = 5"
| "cost frepr (J_int n) = length (int_text n)"
| "cost frepr (J_float w) = length (frepr w)"
| "cost frepr (J_str s) = length s + 2"
| "cost frepr (J_list js) = 2 + sum_list (map (\<lambda>j. 1 + cost frepr j) js)"
| "cost frepr (J_dict es) = 2 + sum_list (map (\<lambda>(k, j). length k + 3 + cost frepr j) es)"

section \<open>The walk\<close>

lemma fold_max_le: "fold max xs a \<le> (m::nat) \<longleftrightarrow> a \<le> m \<and> (\<forall>x \<in> set xs. x \<le> m)"
  by (induction xs arbitrary: a) auto

lemma spend_iff: "spend c l = Inr l' \<longleftrightarrow> l' = l - int c \<and> int c \<le> l"
  by (auto simp: spend_def)

lemma walk_text_iff:
  "walk_text key s l = Inr l' \<longleftrightarrow> l' = l - int (length s + 2) \<and> int (length s + 2) \<le> l \<and> \<not> bad_text s
     \<and> (key \<longrightarrow> length s \<le> MAX_KEY_CHARS)"
  by (auto simp: walk_text_def spend_iff)

lemma jdepth_le:
  "jdepth (J_list js) \<le> m \<longleftrightarrow> 0 < m \<and> (\<forall>j \<in> set js. jdepth j \<le> m - 1)"
  "jdepth (J_dict es) \<le> m \<longleftrightarrow> 0 < m \<and> (\<forall>(k, j) \<in> set es. jdepth j \<le> m - 1)"
  by (cases m; auto simp: fold_max_le)+

lemmas walk_simps = rbind_eq_Inr_iff spend_iff walk_text_iff jdepth_le

lemma walk_iff:
  fixes v :: "'x pyo" and es :: "(pykey \<times> 'x pyo) list" and xs :: "'x pyo list"
  shows "walk frepr md d v l = Inr (j, l') \<longleftrightarrow>
     copy_of v = Some j \<and> json_ok j \<and> jdepth j \<le> md - d \<and> int (cost frepr j) \<le> l \<and> l' = l - int (cost frepr j)"
  and "walk_entries frepr md d es l = Inr (js, l') \<longleftrightarrow>
     copy_entries es = Some js \<and> json_ok (J_dict js) \<and> (\<forall>(k, j) \<in> set js. jdepth j \<le> md - d)
     \<and> (js = [] \<or> int (\<Sum>(k, j) \<leftarrow> js. length k + 3 + cost frepr j) \<le> l)
     \<and> l' = l - int (\<Sum>(k, j) \<leftarrow> js. length k + 3 + cost frepr j)"
  and "walk_items frepr md d xs l = Inr (ks, l') \<longleftrightarrow>
     copy_items xs = Some ks \<and> json_ok (J_list ks) \<and> (\<forall>j \<in> set ks. jdepth j \<le> md - d)
     \<and> (ks = [] \<or> int (\<Sum>j \<leftarrow> ks. 1 + cost frepr j) \<le> l) \<and> l' = l - int (\<Sum>j \<leftarrow> ks. 1 + cost frepr j)"
proof (induction frepr md d v l and frepr md d es l and frepr md d xs l
    arbitrary: j l' and js l' and ks l' rule: walk_walk_entries_walk_items.induct)
  case (7 frepr md d kind es l)
  show ?case
  proof (cases "kind = Map_dict \<and> d < md")
    case True
    with 7 show ?thesis
      by (auto simp: walk_simps simp del: jdepth.simps)
  qed (cases kind; auto)
next
  case (8 frepr md d xs l)
  then show ?case
    by (cases "d < md", auto simp: walk_simps simp del: jdepth.simps) simp_all
next
  case (9 frepr md d xs l)
  then show ?case
    by (cases "d < md", auto simp: walk_simps simp del: jdepth.simps) simp_all
next
  case (17 frepr md d k v es l)
  show ?case
  proof (cases k)
    case (Key_str s)
    with 17 show ?thesis
      by (auto simp: walk_simps split: option.splits)
  qed auto
next
  case (19 frepr md d x xs l)
  then show ?case by (auto simp: walk_simps split: option.splits)
qed (auto simp: walk_simps)

section \<open>The checker\<close>

lemma check_json_object_iff:
  "check_json_object frepr mb md v = Inr j \<longleftrightarrow>
     (\<exists>es. v = O_map Map_dict es) \<and> copy_of v = Some j \<and> json_ok j \<and> jdepth j \<le> md
     \<and> cost frepr j \<le> mb \<and> encoded_size frepr j \<le> mb"
proof (cases "\<exists>es. v = O_map Map_dict es")
  case True
  then have "check_json_object frepr mb md v = rbind (walk frepr md 0 v (int mb))
      (\<lambda>(clean, _). if encoded_size frepr clean > mb then Inl Problem_size else Inr clean)"
    by (auto simp: check_json_object_def)
  with True show ?thesis
    by (auto simp: rbind_eq_Inr_iff walk_iff simp del: walk.simps copy_of.simps intro: exI [of _ j] split: if_splits)
qed (auto simp: check_json_object_def split: pyo.split map_kind.split)

lemma check_json_object_shape: "check_json_object frepr mb md v = Inr j \<Longrightarrow> \<exists>es. j = J_dict es"
  by (auto simp: check_json_object_iff)

lemma copy_of_plain [simp]:
  "copy_of (plain j :: 'x pyo) = Some j"
proof (induction j)
  case (J_list js)
  then have "copy_items (map plain js :: 'x pyo list) = Some js" by (induction js) auto
  then show ?case by simp
next
  case (J_dict es)
  have "copy_entries (map (\<lambda>(k, j). (Key_str k, plain j :: 'x pyo)) es) = Some es"
    using J_dict by (induction es) (fastforce split: prod.splits)+
  then show ?case by simp
qed simp_all

lemma thaw_freeze [simp]: "thaw_json (freeze_json j) = plain j"
  by (induction j) auto

lemma plain_dict: "\<exists>es. plain (J_dict js) = O_map Map_dict es"
  by simp

lemma check_again:
  assumes "check_json_object frepr mb md v = Inr j"
  shows "check_json_object frepr mb md (plain j) = Inr j"
  using assms check_json_object_shape [OF assms] by (auto simp: check_json_object_iff simp del: plain.simps intro: plain_dict)

text \<open>
  The walker charges a \<^verbatim>\<open>bool\<close> five bytes and every list item a comma, so the budget can be used up
  by a value whose encoding fits: \<^verbatim>\<open>{"a":true}\<close> is ten bytes long and costs eleven.
\<close>

lemma fitting_value_refused:
  "encoded_size frepr (J_dict [(cp ''a'', J_bool True)]) = 10"
  "check_json_object frepr 10 1 (O_map Map_dict [(Key_str (cp ''a''), O_bool True)]) = Inl Problem_size"
  by (simp_all add: encoded_size_def utf8_def utf8_char_def dump_text_def dump_char_def cp_def check_json_object_def
      walk_text_def bad_text_def is_surrogate_def spend_def MAX_KEY_CHARS_def)

end
