(* ===== verification/Plan_Facts.thy ===== *)
theory Plan_Facts
  imports Plan_Order_Facts Json_Facts "HOL-Library.Multiset"
begin

text \<open>
  What an accepted node and an accepted plan satisfy: building a node again from its own
  mapping gives the node, the checks of \<open>Plan_init\<close> in closed form, and the depth as the length
  of the longest dependency chain.
\<close>

section \<open>Building a node again\<close>

lemma strip_set: "set (strip s) \<subseteq> set s"
  by (auto simp: strip_def dest!: set_dropWhileD)

lemma length_strip: "length (strip s) \<le> length s"
  unfolding strip_def by (simp add: length_dropWhile_le le_trans [OF length_dropWhile_le])

lemma dropWhile_rev_idem: "dropWhile P (rev (dropWhile P (rev (dropWhile P s)))) = rev (dropWhile P (rev (dropWhile P s)))"
proof (cases "dropWhile P s")
  case Nil
  then show ?thesis by (simp only: Nil rev.simps dropWhile.simps)
next
  case (Cons c cs)
  then have c: "\<not> P c" by (metis dropWhile_eq_Cons_conv)
  then have "dropWhile P (rev (c # cs)) = dropWhile P (rev cs) @ [c]"
    by (simp add: dropWhile_append)
  with Cons c show ?thesis by simp
qed

lemma strip_strip [simp]: "strip (strip s) = strip s"
  by (simp add: strip_def dropWhile_rev_idem)

lemma plan_text_again: "plan_text limit ml v = Inr t \<Longrightarrow> plan_text limit ml (O_str t) = Inr t"
  using strip_set by (auto simp: plan_text_def list_ex_iff split: pyo.splits if_splits)

lemma plan_key_Inr: "plan_key v = Inr k \<longleftrightarrow> v = O_str k \<and> key_ok k"
  by (auto simp: plan_key_def split: pyo.splits)

lemma each_Inr: "each f xs = Inr ys \<longleftrightarrow> list_all2 (\<lambda>x y. f x = Inr y) xs ys"
  by (induction xs arbitrary: ys) (auto simp: rbind_eq_Inr_iff list_all2_Cons1)

lemma each_map: "(\<And>y. y \<in> set ys \<Longrightarrow> f (g y) = Inr y) \<Longrightarrow> each f (map g ys) = Inr ys"
  by (induction ys) auto

interpretation node_role_enum: str_enum NodeRole_members NodeRole_value
  by unfold_locales (auto simp: NodeRole_members_def, metis NodeRole.exhaust)

definition node_ok :: "(pystr \<Rightarrow> bool) \<Rightarrow> (64 word \<Rightarrow> pystr) \<Rightarrow> PlanNode \<Rightarrow> bool" where
  "node_ok redacts frepr n \<longleftrightarrow> PlanNode_from_mapping redacts frepr (plain (PlanNode_to_mapping n)) = Inr n"

definition mapped_args :: "PlanNode \<Rightarrow> node_args" where
  "mapped_args n =
     \<lparr>na_key = O_str (pn_key n), na_role = O_str (cp (NodeRole_value (pn_role n))), na_title = O_str (pn_title n),
      na_goal = O_str (pn_goal n), na_depends_on = O_list (map O_str (pn_depends_on n)),
      na_required = O_bool (pn_required n), na_input = plain (pn_input n),
      na_capabilities = (case pn_capabilities n of None \<Rightarrow> O_none
        | Some cs \<Rightarrow> O_list (map (\<lambda>c. O_str (capability_key c)) cs)),
      na_repositories = (case pn_repositories n of None \<Rightarrow> O_none
        | Some us \<Rightarrow> O_list (map (\<lambda>u. O_str (uuid_text u)) us)),
      na_agent = (case pn_agent n of None \<Rightarrow> O_none | Some a \<Rightarrow> O_str a)\<rparr>"

lemma from_to_mapping:
  "PlanNode_from_mapping redacts frepr (plain (PlanNode_to_mapping n)) = PlanNode_init redacts frepr (mapped_args n)"
proof -
  obtain es :: "(pykey \<times> pobj) list" where es: "plain (PlanNode_to_mapping n) = O_map Map_dict es"
    "es = map (\<lambda>(k, j). (Key_str k, plain j)) (case PlanNode_to_mapping n of J_dict js \<Rightarrow> js)"
    by (simp add: PlanNode_to_mapping_def)
  have "mapping_args es = mapped_args n"
    unfolding es(2) by (simp add: mapping_args_def mapped_args_def field_of_def PlanNode_to_mapping_def texts_def comp_def
        split: option.split)
  moreover have "\<not> list_ex (\<lambda>(k, _). case k of Key_str s \<Rightarrow> s \<notin> set NODE_FIELDS | _ \<Rightarrow> True) es"
    unfolding es(2) by (simp add: PlanNode_to_mapping_def NODE_FIELDS_def split: option.split)
  moreover have "\<not> list_ex (\<lambda>name. Key_str name \<notin> fst ` set es) REQUIRED_NODE_FIELDS"
    unfolding es(2) by (simp add: PlanNode_to_mapping_def REQUIRED_NODE_FIELDS_def)
  ultimately show ?thesis unfolding es(1) by (simp add: PlanNode_from_mapping_def)
qed

lemma plan_input_again:
  fixes v :: "'x pyo"
  assumes "plan_input frepr v = Inr j"
  shows "plan_input frepr (plain j :: 'y pyo) = Inr j"
proof -
  from assms obtain v' :: "'x pyo" where "check_json_object frepr MAX_NODE_INPUT_BYTES MAX_NODE_INPUT_DEPTH v' = Inr j"
    by (auto simp: plan_input_def Let_def split: pyo.splits map_kind.splits sum.splits if_splits)
  then have "check_json_object frepr MAX_NODE_INPUT_BYTES MAX_NODE_INPUT_DEPTH (plain j :: 'y pyo) = Inr j"
    "\<exists>es. j = J_dict es" by (rule check_again, rule check_json_object_shape)
  then show ?thesis by (auto simp: plan_input_def Let_def)
qed

lemma sort_key_remdups_again: "sort_key f (remdups (sort_key f (remdups xs))) = sort_key f (remdups xs)"
  by (simp add: distinct_remdups_id sort_key_id_if_sorted)

lemma plan_input_frozen:
  fixes v :: "'x pyo"
  assumes "plan_input frepr v = Inr j"
  shows "plan_input frepr (freeze_json j :: 'y pyo) = Inr j"
proof -
  have again: "plan_input frepr (plain j :: 'y pyo) = Inr j" using assms by (rule plan_input_again)
  then obtain es where j: "j = J_dict es"
    by (cases j) (auto simp: plan_input_def)
  obtain fs where f: "(freeze_json j :: 'y pyo) = O_map Map_proxy fs" by (simp add: j)
  have "plan_input frepr (freeze_json j :: 'y pyo) = plan_input frepr (thaw_json (freeze_json j) :: 'y pyo)"
    unfolding f by (simp add: plan_input_def)
  with again show ?thesis by simp
qed

lemma plan_capabilities_again:
  assumes "plan_capabilities role v = Inr (Some cs)"
  shows "w \<noteq> O_none \<Longrightarrow> collection w = Inr (map g cs) \<Longrightarrow> (\<And>c. capability_item (g c) = Inr c)
      \<Longrightarrow> plan_capabilities role w = Inr (Some cs)"
    and "set cs \<subseteq> ROLE_CEILING role"
proof -
  from assms obtain items found where f: "each capability_item items = Inr found" "length items \<le> MAX_NODE_CAPABILITIES"
    "set found \<subseteq> ROLE_CEILING role" "cs = sort_key capability_key (remdups found)"
    by (auto simp: plan_capabilities_def rbind_eq_Inr_iff split: if_splits)
  have "length cs \<le> length items" using f by (auto simp: each_Inr dest!: list_all2_lengthD intro: le_trans [OF length_remdups_leq])
  with f(2-4) show "plan_capabilities role w = Inr (Some cs)"
    if "w \<noteq> O_none" "collection w = Inr (map g cs)" "\<And>c. capability_item (g c) = Inr c"
    using that each_map [of cs capability_item g] by (auto simp: plan_capabilities_def sort_key_remdups_again)
  show "set cs \<subseteq> ROLE_CEILING role" using f(3,4) by simp
qed

lemma plan_repositories_again:
  assumes "plan_repositories v = Inr (Some us)" and "w \<noteq> O_none" and "collection w = Inr (map g us)"
    and "\<And>u. u \<in> set us \<Longrightarrow> repository_item (g u) = Inr u"
  shows "plan_repositories w = Inr (Some us)"
proof -
  from assms(1) obtain items found where f: "each repository_item items = Inr found" "length items \<le> MAX_NODE_REPOSITORIES"
    "us = sort_key uuid_text (remdups found)"
    by (auto simp: plan_repositories_def rbind_eq_Inr_iff split: if_splits)
  have "length us \<le> length items" using f by (auto simp: each_Inr dest!: list_all2_lengthD intro: le_trans [OF length_remdups_leq])
  with f(2,3) show ?thesis
    using assms(2-4) each_map [of us repository_item g] by (auto simp: plan_repositories_def sort_key_remdups_again)
qed

lemma PlanNode_init_Inr:
  assumes "PlanNode_init redacts frepr a = Inr n"
  shows "plan_role (na_role a) = Inr (pn_role n)" "plan_key (na_key a) = Inr (pn_key n)"
    "plan_text MAX_TITLE_CHARS False (na_title a) = Inr (pn_title n)"
    "plan_text MAX_GOAL_CHARS True (na_goal a) = Inr (pn_goal n)"
    "\<not> redacts (pn_key n)" "\<not> redacts (pn_title n)"
    "\<exists>deps. (\<forall>d \<in> set deps. key_ok d) \<and> length deps \<le> MAX_DEPENDENCIES \<and> distinct deps \<and> pn_depends_on n = sort deps"
    "plan_input frepr (na_input a) = Inr (pn_input n)"
    "plan_capabilities (pn_role n) (na_capabilities a) = Inr (pn_capabilities n)"
    "plan_repositories (na_repositories a) = Inr (pn_repositories n)"
    "plan_agent (na_agent a) = Inr (pn_agent n)"
proof -
  have keys: "\<forall>d \<in> set ys. key_ok d" if "list_all2 (\<lambda>x y. plan_key x = Inr y) xs ys" for xs :: "pobj list" and ys
    using that by (auto simp: list_all2_conv_all_nth in_set_conv_nth plan_key_Inr)
  from assms obtain items deps where "list_all2 (\<lambda>x y. plan_key x = Inr y) (items :: pobj list) deps"
    "length deps \<le> MAX_DEPENDENCIES" "distinct deps" "pn_depends_on n = sort deps"
    by (auto simp: PlanNode_init_def rbind_eq_Inr_iff each_Inr split: if_splits)
  with keys show "\<exists>deps. (\<forall>d \<in> set deps. key_ok d) \<and> length deps \<le> MAX_DEPENDENCIES \<and> distinct deps
    \<and> pn_depends_on n = sort deps" by blast
qed (use assms in \<open>auto simp: PlanNode_init_def rbind_eq_Inr_iff split: if_splits\<close>)

lemma PlanNode_init_fields:
  assumes "PlanNode_init redacts frepr a = Inr n"
  shows "na_required a = O_bool (pn_required n)"
    and "collection (na_depends_on a) = Inr (map O_str ds) \<Longrightarrow> pn_depends_on n = sort ds"
proof -
  show "na_required a = O_bool (pn_required n)"
    using assms by (auto simp: PlanNode_init_def rbind_eq_Inr_iff split: if_splits pyo.splits)
  have keys: "ys = ds" if "list_all2 (\<lambda>x y. plan_key x = Inr y) (map O_str ds :: pobj list) ys" for ys
    using that by (induction ds arbitrary: ys) (auto simp: list_all2_Cons1 plan_key_Inr)
  show "pn_depends_on n = sort ds" if "collection (na_depends_on a) = Inr (map O_str ds)"
    using assms that by (auto simp: PlanNode_init_def rbind_eq_Inr_iff each_Inr dest!: keys split: if_splits)
qed

text \<open>Arguments that read as the fields of a node, with an agent of their own.\<close>

definition reads_as :: "(64 word \<Rightarrow> pystr) \<Rightarrow> node_args \<Rightarrow> PlanNode \<Rightarrow> bool" where
  "reads_as frepr b n \<longleftrightarrow> plan_role (na_role b) = Inr (pn_role n) \<and> na_key b = O_str (pn_key n)
     \<and> na_title b = O_str (pn_title n) \<and> na_goal b = O_str (pn_goal n)
     \<and> collection (na_depends_on b) = Inr (map O_str (pn_depends_on n)) \<and> na_required b = O_bool (pn_required n)
     \<and> plan_input frepr (na_input b) = Inr (pn_input n)
     \<and> plan_capabilities (pn_role n) (na_capabilities b) = Inr (pn_capabilities n)
     \<and> plan_repositories (na_repositories b) = Inr (pn_repositories n)"

lemma init_as:
  assumes "PlanNode_init redacts frepr a = Inr n" and "reads_as frepr b n" and "plan_agent (na_agent b) = Inr ag"
  shows "PlanNode_init redacts frepr b = Inr (n\<lparr>pn_agent := ag\<rparr>)"
proof -
  note i = PlanNode_init_Inr [OF assms(1)]
  from i(7) obtain deps where deps: "\<forall>d \<in> set deps. key_ok d" "length deps \<le> MAX_DEPENDENCIES" "distinct deps"
    "pn_depends_on n = sort deps" by blast
  then have same: "length (pn_depends_on n) \<le> MAX_DEPENDENCIES" "distinct (pn_depends_on n)"
    "sort (pn_depends_on n) = pn_depends_on n" by (simp_all add: sorted_sort_id)
  have "each plan_key (map O_str (pn_depends_on n) :: pobj list) = Inr (pn_depends_on n)"
    by (rule each_map) (use deps in \<open>simp add: plan_key_def\<close>)
  moreover have "plan_key (O_str (pn_key n) :: pobj) = Inr (pn_key n)" using i(2) by (simp add: plan_key_Inr)
  moreover have "plan_text MAX_TITLE_CHARS False (O_str (pn_title n) :: pobj) = Inr (pn_title n)"
    "plan_text MAX_GOAL_CHARS True (O_str (pn_goal n) :: pobj) = Inr (pn_goal n)"
    using plan_text_again i(3,4) by blast+
  ultimately show ?thesis
    using i(5,6) same assms(2,3) by (simp add: PlanNode_init_def reads_as_def)
qed

lemma node_init_again:
  assumes "PlanNode_init redacts frepr a = Inr n" and "\<forall>us. pn_repositories n = Some us \<longrightarrow> (\<forall>u \<in> set us. u < 2 ^ 128)"
  shows "node_ok redacts frepr n"
proof -
  note i = PlanNode_init_Inr [OF assms(1)]
  have "plan_capabilities (pn_role n) (na_capabilities (mapped_args n)) = Inr (pn_capabilities n)"
  proof (cases "pn_capabilities n")
    case (Some cs)
    then show ?thesis
      using plan_capabilities_again(1) [of "pn_role n" "na_capabilities a" cs "na_capabilities (mapped_args n)"
          "\<lambda>c. O_str (capability_key c)"] i(9)
      by (simp add: mapped_args_def collection_def capability_item_def capability_key_def)
  qed (simp add: mapped_args_def plan_capabilities_def)
  moreover have "plan_repositories (na_repositories (mapped_args n)) = Inr (pn_repositories n)"
  proof (cases "pn_repositories n")
    case (Some us)
    then show ?thesis
      using plan_repositories_again [of "na_repositories a" us "na_repositories (mapped_args n)" "\<lambda>u. O_str (uuid_text u)"]
        i(10) assms(2) parse_uuid_text_uuid_text
      by (simp add: mapped_args_def collection_def repository_item_def to_uuid_def)
  qed (simp add: mapped_args_def plan_repositories_def)
  moreover have "plan_agent (na_agent (mapped_args n)) = Inr (pn_agent n)"
    using i(11) by (cases "pn_agent n") (auto simp: mapped_args_def plan_agent_def split: pyo.splits if_splits)
  moreover have "plan_input frepr (plain (pn_input n) :: pobj) = Inr (pn_input n)"
    using plan_input_again i(8) by blast
  ultimately show ?thesis
    unfolding node_ok_def from_to_mapping using init_as [OF assms(1), of "mapped_args n" "pn_agent n"]
    by (simp add: reads_as_def mapped_args_def plan_role_def collection_def)
qed

section \<open>The depth\<close>

lemma max_default_le: "max_default xs \<le> m \<longleftrightarrow> (\<forall>x \<in> set xs. x \<le> m)"
  by (simp add: max_default_def fold_max_le)

lemma max_default_ge: "x \<in> set xs \<Longrightarrow> x \<le> max_default xs"
  using max_default_le [of xs "max_default xs"] by simp

lemma max_default_mem: "xs \<noteq> [] \<Longrightarrow> max_default xs \<in> set xs"
proof (cases xs)
  case (Cons y ys)
  have "fold max zs a \<in> insert a (set zs)" for a :: nat and zs
    by (induction zs arbitrary: a) (auto simp: max_def)
  from this [of ys y] show ?thesis by (simp add: max_default_def Cons)
qed simp

lemma levels_old: "in_order taken ns \<Longrightarrow> k \<in> set taken \<Longrightarrow> levels ns lv k = lv k"
  by (induction ns arbitrary: taken lv) (auto simp: free_def)

lemma levels_fix:
  "in_order taken ns \<Longrightarrow> n \<in> set ns \<Longrightarrow> levels ns lv (pn_key n) = 1 + max_default (map (levels ns lv) (pn_depends_on n))"
proof (induction ns arbitrary: taken lv)
  case (Cons m ns)
  let ?lv = "lv(pn_key m := 1 + max_default (map lv (pn_depends_on m)))"
  have rest: "in_order (taken @ [pn_key m]) ns" and fr: "free taken m" using Cons.prems(1) by auto
  show ?case
  proof (cases "n \<in> set ns")
    case True
    then show ?thesis using Cons.IH [OF rest] by simp
  next
    case False
    then have n: "n = m" using Cons.prems(2) by simp
    have "levels ns ?lv d = lv d" if "d \<in> set (pn_depends_on m)" for d
      using levels_old [OF rest, of d ?lv] that fr by (auto simp: free_def)
    then have eq: "map (levels ns ?lv) (pn_depends_on m) = map lv (pn_depends_on m)" by (rule map_cong [OF refl])
    show ?thesis unfolding n levels.simps eq using levels_old [OF rest, of "pn_key m" ?lv] by simp
  qed
qed simp

text \<open>A dependency chain: every node depends on the one after it.\<close>

fun chain :: "PlanNode list \<Rightarrow> PlanNode list \<Rightarrow> bool" where
  "chain nodes [] \<longleftrightarrow> True"
| "chain nodes [n] \<longleftrightarrow> n \<in> set nodes"
| "chain nodes (n # m # ns) \<longleftrightarrow> n \<in> set nodes \<and> pn_key m \<in> set (pn_depends_on n) \<and> chain nodes (m # ns)"

lemma chain_le:
  assumes "in_order [] nodes"
  shows "chain nodes (n # ns) \<Longrightarrow> length (n # ns) \<le> levels nodes (\<lambda>_. 0) (pn_key n)"
proof (induction ns arbitrary: n)
  case (Cons m ns)
  then have "levels nodes (\<lambda>_. 0) (pn_key m) \<le> max_default (map (levels nodes (\<lambda>_. 0)) (pn_depends_on n))"
    by (intro max_default_ge) auto
  moreover have "length (m # ns) \<le> levels nodes (\<lambda>_. 0) (pn_key m)" using Cons by auto
  ultimately show ?case using levels_fix [OF assms, of n "\<lambda>_. 0"] Cons.prems by simp
qed (simp add: levels_fix [OF assms])

lemma chain_exists:
  assumes "in_order [] nodes" and "i < length nodes"
  shows "\<exists>ns. chain nodes (nodes ! i # ns) \<and> length (nodes ! i # ns) = levels nodes (\<lambda>_. 0) (pn_key (nodes ! i))"
  using assms(2)
proof (induction i rule: less_induct)
  case (less i)
  let ?lv = "levels nodes (\<lambda>_. 0)" and ?n = "nodes ! i"
  have n: "?n \<in> set nodes" using less.prems by simp
  note lv = levels_fix [OF assms(1) n, of "\<lambda>_. 0"]
  show ?case
  proof (cases "pn_depends_on ?n")
    case Nil
    with n lv have "chain nodes [?n]" "length [?n] = ?lv (pn_key ?n)" by (simp_all add: max_default_def)
    then show ?thesis by blast
  next
    case (Cons d ds)
    then have "max_default (map ?lv (pn_depends_on ?n)) \<in> ?lv ` set (pn_depends_on ?n)"
      using max_default_mem [of "map ?lv (pn_depends_on ?n)"] by auto
    then obtain e where e: "e \<in> set (pn_depends_on ?n)" "max_default (map ?lv (pn_depends_on ?n)) = ?lv e" by blast
    from in_order_nth [OF assms(1) less.prems e(1)] obtain j where j: "j < i" "pn_key (nodes ! j) = e" by blast
    with less.IH [of j] less.prems obtain ns where
      "chain nodes (nodes ! j # ns)" "length (nodes ! j # ns) = ?lv e" by auto
    then have "chain nodes (?n # nodes ! j # ns)" "length (?n # nodes ! j # ns) = ?lv (pn_key ?n)"
      using n e lv j(2) by simp_all
    then show ?thesis by blast
  qed
qed

lemma depth_longest_chain:
  assumes "in_order [] nodes"
  shows "chain nodes ns \<Longrightarrow> length ns \<le> nodes_depth nodes"
    and "\<exists>ns. chain nodes ns \<and> length ns = nodes_depth nodes"
proof -
  let ?lv = "levels nodes (\<lambda>_. 0)"
  show "length ns \<le> nodes_depth nodes" if c: "chain nodes ns"
  proof (cases ns)
    case (Cons n rest)
    then have "n \<in> set nodes" using c by (cases rest) auto
    then have "?lv (pn_key n) \<le> nodes_depth nodes" unfolding nodes_depth_def Let_def by (intro max_default_ge) auto
    with chain_le [OF assms, of n rest] c Cons show ?thesis by simp
  qed simp
  show "\<exists>ns. chain nodes ns \<and> length ns = nodes_depth nodes"
  proof (cases "nodes = []")
    case True
    then have "chain nodes [] \<and> length [] = nodes_depth nodes" by (simp add: nodes_depth_def max_default_def)
    then show ?thesis by blast
  next
    case False
    then have "nodes_depth nodes \<in> (\<lambda>n. ?lv (pn_key n)) ` set nodes"
      using max_default_mem [of "map (\<lambda>n. ?lv (pn_key n)) nodes"] by (auto simp: nodes_depth_def Let_def)
    then obtain i where "i < length nodes" "nodes_depth nodes = ?lv (pn_key (nodes ! i))" by (auto simp: in_set_conv_nth)
    then show ?thesis using chain_exists [OF assms] by metis
  qed
qed

section \<open>The checks of a plan\<close>

lemma check_dependencies_Inr:
  "check_dependencies keys k ds = Inr e \<longleftrightarrow> k \<notin> set ds \<and> set ds \<subseteq> set keys \<and> e = length ds"
  by (induction ds arbitrary: e) (auto simp: rbind_eq_Inr_iff)

lemma count_edges_Inr:
  "count_edges keys ns = Inr e \<longleftrightarrow> (\<forall>n \<in> set ns. pn_key n \<notin> set (pn_depends_on n) \<and> set (pn_depends_on n) \<subseteq> set keys)
     \<and> e = (\<Sum>n \<leftarrow> ns. length (pn_depends_on n))"
  by (induction ns arbitrary: e) (auto simp: rbind_eq_Inr_iff check_dependencies_Inr)

text \<open>What the proposal must satisfy, without the algorithm.\<close>

definition proposal_ok :: "(64 word \<Rightarrow> pystr) \<Rightarrow> PlanNode list \<Rightarrow> bool" where
  "proposal_ok frepr nodes \<longleftrightarrow> nodes \<noteq> [] \<and> length nodes \<le> MAX_NODES \<and> distinct (map pn_key nodes)
     \<and> (\<forall>n \<in> set nodes. set (pn_depends_on n) \<subseteq> set (map pn_key nodes))
     \<and> (\<Sum>n \<leftarrow> nodes. length (pn_depends_on n)) \<le> MAX_EDGES
     \<and> acyclic (dep_rel nodes) \<and> (\<forall>ns. chain nodes ns \<longrightarrow> length ns \<le> MAX_DEPTH)
     \<and> plan_bytes frepr (greedy nodes []) \<le> MAX_PLAN_BYTES \<and> (\<exists>n \<in> set nodes. pn_required n)"

definition checked_nodes :: "(64 word \<Rightarrow> pystr) \<Rightarrow> PlanNode list \<Rightarrow> PlanReason + Plan" where
  "checked_nodes frepr nodes =
     (let keys = map pn_key nodes in
       if \<not> distinct keys then Inl DUPLICATE_KEY
       else
         rbind (count_edges keys nodes) (\<lambda>edges.
         if edges > MAX_EDGES then Inl TOO_MANY_EDGES
         else
           rbind (topological_order nodes) (\<lambda>ordered.
           if nodes_depth ordered > MAX_DEPTH then Inl TOO_DEEP
           else if plan_bytes frepr ordered > MAX_PLAN_BYTES then Inl TOO_LARGE
           else if \<not> list_ex pn_required ordered then Inl NO_REQUIRED_NODE
           else Inr \<lparr>plan_nodes = ordered\<rparr>)))"

lemma Plan_init_checked:
  "Plan_init redacts frepr v = rbind (collection v) (\<lambda>items.
     if items = [] then Inl EMPTY else if length items > MAX_NODES then Inl TOO_MANY_NODES
     else rbind (each (plan_item redacts frepr) items) (checked_nodes frepr))"
  unfolding Plan_init_def checked_nodes_def [abs_def] ..

lemma greedy_perm:
  assumes "nodes_ok nodes" and "acyclic (dep_rel nodes)"
  shows "mset (greedy nodes []) = mset nodes" and "in_order [] (greedy nodes [])"
proof -
  have "length (greedy nodes []) = length nodes" using greedy_length(1) [OF assms(1)] assms(2) by simp
  note s = greedy_length(2) [OF assms(1) this]
  show io: "in_order [] (greedy nodes [])" using greedy_in_order [of "[]" nodes] by simp
  have "distinct (greedy nodes [])" "distinct nodes"
    using in_order_keys [OF io] assms(1) by (simp_all add: distinct_map nodes_ok_def)
  with s show "mset (greedy nodes []) = mset nodes" by (simp add: set_eq_iff_mset_eq_distinct)
qed

lemma acyclic_no_self: "acyclic (dep_rel nodes) \<Longrightarrow> n \<in> set nodes \<Longrightarrow> pn_key n \<notin> set (pn_depends_on n)"
  by (auto simp: acyclic_def dep_rel_def)

lemma chain_set: "set ns = set ms \<Longrightarrow> chain ns cs = chain ms cs"
  by (induction ns cs rule: chain.induct) auto

lemma checked_nodes_Inr:
  assumes "\<forall>n \<in> set nodes. distinct (pn_depends_on n)" and "nodes \<noteq> []" and "length nodes \<le> MAX_NODES"
  shows "checked_nodes frepr nodes = Inr p \<longleftrightarrow> proposal_ok frepr nodes \<and> p = \<lparr>plan_nodes = greedy nodes []\<rparr>"
proof (cases "nodes_ok nodes \<and> acyclic (dep_rel nodes)")
  case True
  then have ok: "nodes_ok nodes" and ac: "acyclic (dep_rel nodes)" by auto
  note g = greedy_perm [OF ok ac]
  have set: "set (greedy nodes []) = set nodes" using g(1) by (metis set_mset_mset)
  have depth: "nodes_depth (greedy nodes []) \<le> MAX_DEPTH \<longleftrightarrow> (\<forall>ns. chain nodes ns \<longrightarrow> length ns \<le> MAX_DEPTH)"
    using depth_longest_chain [OF g(2)] chain_set [OF set] by (metis order_trans)
  show ?thesis
    using ok ac acyclic_no_self [OF ac] assms
    by (auto simp: checked_nodes_def rbind_eq_Inr_iff count_edges_Inr topological_order_greedy [OF ok] proposal_ok_def
        nodes_ok_def Let_def list_ex_iff set depth [symmetric] split: if_splits)
next
  case False
  then show ?thesis
    using assms(1) topological_order_greedy [of nodes]
    by (auto simp: checked_nodes_def rbind_eq_Inr_iff count_edges_Inr proposal_ok_def nodes_ok_def Let_def split: if_splits)
qed

end
