(* ===== verification/Plan_Assign.thy ===== *)
theory Plan_Assign
  imports Plan_Order Task_Loop Complex_Main
begin

text \<open>
  Accepting a plan: \<^verbatim>\<open>paw_backend/orchestrator/reviews.py\<close> (the backend's two required
  reviews), the ladders and assignments of \<^verbatim>\<open>config.py\<close>, and \<^verbatim>\<open>_accepted\<close> and \<^verbatim>\<open>_start_rungs\<close> of
  \<^verbatim>\<open>orchestrator.py\<close>. A number of seconds is a rational; the back-off only doubles, which is
  exact in floating point.
\<close>

section \<open>Validation\<close>

datatype orch_error = InvalidOrchestratorArgumentError string

datatype sec_arg = Sec rat | Sec_not_finite | Sec_other

definition orch_check_int :: "string \<Rightarrow> pyval \<Rightarrow> int \<Rightarrow> int \<Rightarrow> orch_error + int" where
  "orch_check_int name v minimum maximum =
     (case v of
        PyInt n \<Rightarrow> if minimum \<le> n \<and> n \<le> maximum then Inr n else Inl (InvalidOrchestratorArgumentError name)
      | _ \<Rightarrow> Inl (InvalidOrchestratorArgumentError name))"

definition orch_check_seconds :: "string \<Rightarrow> sec_arg \<Rightarrow> rat \<Rightarrow> rat \<Rightarrow> bool \<Rightarrow> orch_error + rat" where
  "orch_check_seconds name v minimum maximum allow_zero =
     (case v of
        Sec x \<Rightarrow> if minimum \<le> x \<and> x \<le> maximum \<or> allow_zero \<and> x = 0 then Inr x
                 else Inl (InvalidOrchestratorArgumentError name)
      | _ \<Rightarrow> Inl (InvalidOrchestratorArgumentError name))"

definition check_agent_label :: "string \<Rightarrow> 'x pyo \<Rightarrow> orch_error + pystr" where
  "check_agent_label name v =
     (case v of O_str s \<Rightarrow> if agent_label_ok s then Inr s else Inl (InvalidOrchestratorArgumentError name)
      | _ \<Rightarrow> Inl (InvalidOrchestratorArgumentError name))"

definition sequence_of :: "string \<Rightarrow> 'x pyo \<Rightarrow> orch_error + 'x pyo list" where
  "sequence_of name v =
     (case v of O_list xs \<Rightarrow> Inr xs | O_tuple xs \<Rightarrow> Inr xs | O_seq_sub xs \<Rightarrow> Inr xs
      | _ \<Rightarrow> Inl (InvalidOrchestratorArgumentError name))"

section \<open>Required reviews\<close>

definition RESERVED_KEY_PREFIX :: pystr where "RESERVED_KEY_PREFIX = cp ''paw-''"
definition CLAUDE_REVIEW :: pystr where "CLAUDE_REVIEW = cp ''paw-review-claude''"
definition CODEX_REVIEW :: pystr where "CODEX_REVIEW = cp ''paw-review-codex''"

definition REQUIRED_REVIEWS :: "(pystr \<times> pystr) list" where
  "REQUIRED_REVIEWS = [(CLAUDE_REVIEW, cp ''claude''), (CODEX_REVIEW, cp ''codex'')]"

definition REVIEW_AGENTS :: "pystr set" where "REVIEW_AGENTS = snd ` set REQUIRED_REVIEWS"

definition review_title :: "pystr \<Rightarrow> pystr" where
  "review_title k = (if k = CLAUDE_REVIEW then cp ''Independent review by Claude'' else cp ''Independent review by Codex'')"

definition is_reserved_key :: "pystr \<Rightarrow> bool" where
  "is_reserved_key k \<longleftrightarrow> take (length RESERVED_KEY_PREFIX) k = RESERVED_KEY_PREFIX"

definition is_required_review :: "pystr \<Rightarrow> bool" where
  "is_required_review k \<longleftrightarrow> k \<in> fst ` set REQUIRED_REVIEWS"

definition adds_required_reviews :: "pystr list \<Rightarrow> bool" where
  "adds_required_reviews allowed \<longleftrightarrow> REVIEW_AGENTS \<subseteq> set allowed"

definition refuse_reserved_keys :: "Plan \<Rightarrow> PlanReason + Plan" where
  "refuse_reserved_keys p =
     (if list_ex (\<lambda>n. is_reserved_key (pn_key n)) (plan_nodes p) then Inl RESERVED_KEY else Inr p)"

fun join :: "pystr \<Rightarrow> pystr list \<Rightarrow> pystr" where
  "join sep [] = []"
| "join sep [x] = x"
| "join sep (x # y # ys) = x @ sep @ join sep (y # ys)"

definition QUOTED_TITLE_CHARS :: nat where "QUOTED_TITLE_CHARS = 200"

definition quoted :: "pystr \<Rightarrow> pystr" where
  "quoted title =
     (let cleaned = map (\<lambda>c. if is_control c \<or> is_surrogate c then 32 else c) title;
          text = join_words (split_words cleaned);
          cut = (if length text > QUOTED_TITLE_CHARS then take (QUOTED_TITLE_CHARS - 3) text @ cp ''...'' else text)
      in map (\<lambda>c. if c = 34 then 39 else c) cut)"

definition goal_text :: "pystr \<Rightarrow> pystr \<Rightarrow> pystr" where
  "goal_text workers title =
     cp ''Review, on your own, the changes the worker nodes '' @ workers
     @ cp '' made for the task '' @ [34] @ title @ [34]
     @ cp ''. Their work is merged into your read-only checkout of each repository; read the change with git from the review base to HEAD (the base is named with the repository, for example '' @ [96]
     @ cp ''git log -p <review base>..HEAD'' @ [96] @ cp '' or '' @ [96] @ cp ''git diff <review base> HEAD'' @ [96]
     @ cp ''). Check that the change does what the task asks, that it is correct and tested, and that it adds no security problem. You cannot change anything. Submit a summary of your review, and put every problem you found in unresolved_questions.''"

definition review_node ::
  "(pystr \<Rightarrow> bool) \<Rightarrow> (64 word \<Rightarrow> pystr) \<Rightarrow> pystr \<times> pystr \<Rightarrow> pystr list \<Rightarrow> pystr \<Rightarrow> PlanReason + PlanNode" where
  "review_node redacts frepr r workers task_title =
     PlanNode_init redacts frepr
       \<lparr>na_key = O_str (fst r), na_role = O_obj (Obj_role NodeRole_REVIEWER), na_title = O_str (review_title (fst r)),
        na_goal = O_str (goal_text (join (cp '', '') workers) (quoted task_title)),
        na_depends_on = O_tuple (map O_str workers), na_required = O_bool True, na_input = O_map Map_dict [],
        na_capabilities = O_none, na_repositories = O_none, na_agent = O_str (snd r)\<rparr>"

definition worker_keys :: "PlanNode list \<Rightarrow> pystr list" where
  "worker_keys nodes = map pn_key (filter (\<lambda>n. pn_role n = NodeRole_WORKER) nodes)"

definition plan_of_nodes :: "(pystr \<Rightarrow> bool) \<Rightarrow> (64 word \<Rightarrow> pystr) \<Rightarrow> PlanNode list \<Rightarrow> PlanReason + Plan" where
  "plan_of_nodes redacts frepr nodes = Plan_init redacts frepr (O_tuple (map (\<lambda>n. O_obj (Obj_node n)) nodes))"

definition add_required_reviews ::
  "(pystr \<Rightarrow> bool) \<Rightarrow> (64 word \<Rightarrow> pystr) \<Rightarrow> Plan \<Rightarrow> pystr \<Rightarrow> PlanReason + Plan" where
  "add_required_reviews redacts frepr p task_title =
     (let workers = worker_keys (plan_nodes p) in
      if workers = [] then Inr p
      else
        rbind (refuse_reserved_keys p) (\<lambda>_.
        rbind (each (\<lambda>r. review_node redacts frepr r workers task_title) REQUIRED_REVIEWS) (\<lambda>reviews.
        plan_of_nodes redacts frepr (plan_nodes p @ reviews))))"

definition forbidden_agents :: "pystr \<Rightarrow> pystr set \<Rightarrow> pystr set" where
  "forbidden_agents k worker_agents =
     {a \<in> REVIEW_AGENTS. map_of REQUIRED_REVIEWS k \<noteq> Some a} \<union> worker_agents"

section \<open>Ladders and assignments\<close>

definition MAX_PARALLEL_NODES :: int where "MAX_PARALLEL_NODES = 16"
definition MAX_ATTEMPTS_PER_RUNG :: int where "MAX_ATTEMPTS_PER_RUNG = 20"
definition MAX_LADDER_LENGTH :: nat where "MAX_LADDER_LENGTH = 4"
definition MAX_NODE_TIMEOUT_SECONDS :: rat where "MAX_NODE_TIMEOUT_SECONDS = 86400"
definition MAX_RETRY_BACKOFF_SECONDS :: rat where "MAX_RETRY_BACKOFF_SECONDS = 60"
definition MAX_PLAN_ATTEMPTS :: int where "MAX_PLAN_ATTEMPTS = 5"

record RoleAssignment =
  ra_allowed :: "pystr list"
  ra_default :: "pystr option"

definition RoleAssignment_init :: "'x pyo \<Rightarrow> pystr option \<Rightarrow> orch_error + RoleAssignment" where
  "RoleAssignment_init allowed dflt =
     rbind (sequence_of ''assignment'' allowed) (\<lambda>items.
     rbind (each (check_agent_label ''assignment'') items) (\<lambda>labels.
     if labels = [] \<or> \<not> distinct labels then Inl (InvalidOrchestratorArgumentError ''assignment'')
     else if \<not> (case dflt of None \<Rightarrow> True | Some a \<Rightarrow> a \<in> set labels)
     then Inl (InvalidOrchestratorArgumentError ''assignment'')
     else Inr \<lparr>ra_allowed = labels, ra_default = dflt\<rparr>))"

record OrchestratorConfig =
  oc_ladders :: "NodeRole \<Rightarrow> pystr list"
  oc_max_parallel_nodes :: int
  oc_node_timeout :: rat
  oc_poll :: rat
  oc_heartbeat :: "rat option"
  oc_retry_backoff :: rat
  oc_max_attempts_per_rung :: int
  oc_max_plan_attempts :: int
  oc_assigned :: "NodeRole \<Rightarrow> RoleAssignment"

text \<open>The arguments: a mapping from the roles (\<open>None\<close> is any other key), or another object.\<close>

record oc_args =
  xa_ladders :: "(NodeRole option \<times> pobj) list arg"
  xa_max_parallel_nodes :: pyval
  xa_node_timeout :: sec_arg
  xa_poll :: sec_arg
  xa_heartbeat :: "sec_arg option"
  xa_retry_backoff :: sec_arg
  xa_max_attempts_per_rung :: pyval
  xa_max_plan_attempts :: pyval
  xa_assignment :: "(NodeRole option \<times> RoleAssignment arg) list arg option"

definition all_roles :: "(NodeRole option \<times> 'a) list \<Rightarrow> bool" where
  "all_roles es \<longleftrightarrow> fst ` set es = Some ` set NodeRole_members"

definition check_ladder :: "(NodeRole option \<times> pobj) list \<Rightarrow> NodeRole \<Rightarrow> orch_error + pystr list" where
  "check_ladder es role =
     rbind (sequence_of ''ladders'' (case map_of es (Some role) of Some v \<Rightarrow> v | None \<Rightarrow> O_none)) (\<lambda>items.
     rbind (each (check_agent_label ''ladders'') items) (\<lambda>labels.
     if 1 \<le> length labels \<and> length labels \<le> MAX_LADDER_LENGTH \<and> distinct labels then Inr labels
     else Inl (InvalidOrchestratorArgumentError ''ladders'')))"

definition role_map :: "'a list \<Rightarrow> NodeRole \<Rightarrow> 'a" where
  "role_map xs role = (case map_of (zip NodeRole_members xs) role of Some x \<Rightarrow> x | None \<Rightarrow> hd xs)"

definition check_entry ::
  "(NodeRole \<Rightarrow> pystr list) \<Rightarrow> (NodeRole option \<times> RoleAssignment arg) list \<Rightarrow> NodeRole \<Rightarrow> orch_error + RoleAssignment" where
  "check_entry ladders es role =
     (case map_of es (Some role) of
        Some (Inst entry) \<Rightarrow>
          if set (ra_allowed entry) \<subseteq> set (ladders role) then Inr entry
          else Inl (InvalidOrchestratorArgumentError ''assignment'')
      | _ \<Rightarrow> Inl (InvalidOrchestratorArgumentError ''assignment''))"

definition check_assignment ::
  "(NodeRole \<Rightarrow> pystr list) \<Rightarrow> (NodeRole option \<times> RoleAssignment arg) list arg option
    \<Rightarrow> orch_error + (NodeRole \<Rightarrow> RoleAssignment)" where
  "check_assignment ladders a =
     (case a of
        None \<Rightarrow> Inr (\<lambda>role. \<lparr>ra_allowed = [hd (ladders role)], ra_default = Some (hd (ladders role))\<rparr>)
      | Some Other \<Rightarrow> Inl (InvalidOrchestratorArgumentError ''assignment'')
      | Some (Inst es) \<Rightarrow>
          if \<not> all_roles es then Inl (InvalidOrchestratorArgumentError ''assignment'')
          else rbind (each (check_entry ladders es) NodeRole_members) (\<lambda>entries. Inr (role_map entries)))"

definition OrchestratorConfig_init :: "oc_args \<Rightarrow> orch_error + OrchestratorConfig" where
  "OrchestratorConfig_init a =
     (case xa_ladders a of
        Other \<Rightarrow> Inl (InvalidOrchestratorArgumentError ''ladders'')
      | Inst es \<Rightarrow>
          if \<not> all_roles es then Inl (InvalidOrchestratorArgumentError ''ladders'')
          else
            rbind (each (check_ladder es) NodeRole_members) (\<lambda>lists.
            rbind (orch_check_int ''max_parallel_nodes'' (xa_max_parallel_nodes a) 1 MAX_PARALLEL_NODES) (\<lambda>par.
            rbind (orch_check_seconds ''node_timeout_seconds'' (xa_node_timeout a) (1/1000) MAX_NODE_TIMEOUT_SECONDS False)
              (\<lambda>timeout.
            rbind (orch_check_seconds ''poll_seconds'' (xa_poll a) (1/1000) 3600 False) (\<lambda>poll.
            rbind (case xa_heartbeat a of None \<Rightarrow> Inr None
                   | Some h \<Rightarrow> rbind (orch_check_seconds ''heartbeat_seconds'' h (1/1000) 3600 False) (\<lambda>x. Inr (Some x)))
              (\<lambda>heartbeat.
            rbind (orch_check_seconds ''retry_backoff_seconds'' (xa_retry_backoff a) (1/1000) MAX_RETRY_BACKOFF_SECONDS True)
              (\<lambda>backoff.
            rbind (orch_check_int ''max_attempts_per_rung'' (xa_max_attempts_per_rung a) 1 MAX_ATTEMPTS_PER_RUNG) (\<lambda>rung.
            rbind (orch_check_int ''max_plan_attempts'' (xa_max_plan_attempts a) 1 MAX_PLAN_ATTEMPTS) (\<lambda>plans.
            rbind (check_assignment (role_map lists) (xa_assignment a)) (\<lambda>assigned.
            Inr \<lparr>oc_ladders = role_map lists, oc_max_parallel_nodes = par, oc_node_timeout = timeout, oc_poll = poll,
                 oc_heartbeat = heartbeat, oc_retry_backoff = backoff, oc_max_attempts_per_rung = rung,
                 oc_max_plan_attempts = plans, oc_assigned = assigned\<rparr>))))))))))"

text \<open>\<open>None\<close> would be the \<^verbatim>\<open>StopIteration\<close> of a role with no allowed rung.\<close>

definition allowed_agents :: "OrchestratorConfig \<Rightarrow> NodeRole \<Rightarrow> (pystr list \<times> pystr) option" where
  "allowed_agents c role =
     (let entry = oc_assigned c role in
      case ra_default entry of
        Some d \<Rightarrow> Some (ra_allowed entry, d)
      | None \<Rightarrow> map_option (Pair (ra_allowed entry)) (find (\<lambda>l. l \<in> set (ra_allowed entry)) (oc_ladders c role)))"

text \<open>The fields of a node as Python objects, with the agent replaced (\<^verbatim>\<open>dataclasses.replace\<close>).\<close>

definition replace_agent ::
  "(pystr \<Rightarrow> bool) \<Rightarrow> (64 word \<Rightarrow> pystr) \<Rightarrow> PlanNode \<Rightarrow> pystr \<Rightarrow> PlanReason + PlanNode" where
  "replace_agent redacts frepr n agent =
     PlanNode_init redacts frepr
       \<lparr>na_key = O_str (pn_key n), na_role = O_obj (Obj_role (pn_role n)), na_title = O_str (pn_title n),
        na_goal = O_str (pn_goal n), na_depends_on = O_tuple (map O_str (pn_depends_on n)),
        na_required = O_bool (pn_required n), na_input = freeze_json (pn_input n),
        na_capabilities = (case pn_capabilities n of None \<Rightarrow> O_none
          | Some cs \<Rightarrow> O_tuple (map (\<lambda>c. O_obj (Obj_cap c)) cs)),
        na_repositories = (case pn_repositories n of None \<Rightarrow> O_none | Some us \<Rightarrow> O_tuple (map O_uuid us)),
        na_agent = O_str agent\<rparr>"

definition assign_node ::
  "(pystr \<Rightarrow> bool) \<Rightarrow> (64 word \<Rightarrow> pystr) \<Rightarrow> OrchestratorConfig \<Rightarrow> PlanNode \<Rightarrow> PlanReason + PlanNode" where
  "assign_node redacts frepr c n =
     (case allowed_agents c (pn_role n) of
        None \<Rightarrow> Inl AGENT_NOT_ALLOWED
      | Some (allowed, dflt) \<Rightarrow>
          (case pn_agent n of
             None \<Rightarrow> replace_agent redacts frepr n dflt
           | Some a \<Rightarrow> if a \<notin> set allowed then Inl AGENT_NOT_ALLOWED else Inr n))"

definition assign :: "(pystr \<Rightarrow> bool) \<Rightarrow> (64 word \<Rightarrow> pystr) \<Rightarrow> OrchestratorConfig \<Rightarrow> Plan \<Rightarrow> PlanReason + Plan" where
  "assign redacts frepr c p =
     rbind (each (assign_node redacts frepr c) (plan_nodes p)) (\<lambda>nodes. plan_of_nodes redacts frepr nodes)"

fun index_of :: "pystr list \<Rightarrow> pystr \<Rightarrow> nat option" where
  "index_of [] a = None"
| "index_of (x # xs) a = (if x = a then Some 0 else map_option Suc (index_of xs a))"

text \<open>\<open>None\<close> is the \<^verbatim>\<open>ValueError\<close> of \<^verbatim>\<open>tuple.index\<close>.\<close>

definition start_rung :: "OrchestratorConfig \<Rightarrow> NodeRole \<Rightarrow> pystr \<Rightarrow> nat option" where
  "start_rung c role agent = index_of (oc_ladders c role) agent"

definition next_rung :: "OrchestratorConfig \<Rightarrow> NodeRole \<Rightarrow> nat \<Rightarrow> pystr set \<Rightarrow> nat option" where
  "next_rung c role rung skip =
     find (\<lambda>i. oc_ladders c role ! i \<notin> skip) [rung + 1..<length (oc_ladders c role)]"

definition backoff :: "OrchestratorConfig \<Rightarrow> nat \<Rightarrow> rat" where
  "backoff c rung_attempts =
     (if oc_retry_backoff c = 0 \<or> rung_attempts < 1 then 0
      else min (oc_retry_backoff c * 2 ^ (rung_attempts - 1)) MAX_RETRY_BACKOFF_SECONDS)"

section \<open>The accepted plan\<close>

definition accepted ::
  "(pystr \<Rightarrow> bool) \<Rightarrow> (64 word \<Rightarrow> pystr) \<Rightarrow> OrchestratorConfig \<Rightarrow> bool \<Rightarrow> pystr \<Rightarrow> Plan \<Rightarrow> PlanReason + Plan" where
  "accepted redacts frepr c read_only title p =
     rbind (refuse_reserved_keys p) (\<lambda>_.
     rbind (if read_only then refuse_writers p
            else if adds_required_reviews (ra_allowed (oc_assigned c NodeRole_REVIEWER))
            then add_required_reviews redacts frepr p title
            else Inr p) (\<lambda>p'.
     assign redacts frepr c p'))"

definition start_rungs :: "OrchestratorConfig \<Rightarrow> Plan \<Rightarrow> (pystr \<times> nat option) list" where
  "start_rungs c p =
     concat (map (\<lambda>n. case pn_agent n of Some a \<Rightarrow> [(pn_key n, start_rung c (pn_role n) a)] | None \<Rightarrow> []) (plan_nodes p))"

end
