(* ===== verification/Plan_Properties.thy ===== *)
theory Plan_Properties
  imports Plan_Facts Plan_Assign
begin

text \<open>
  Properties of plans: what is accepted and in which order, the round trip through the
  planner's mapping, what a read-only task may hold, the required reviews and the agents.
\<close>

section \<open>Accepted plans\<close>

definition built :: "(pystr \<Rightarrow> bool) \<Rightarrow> (64 word \<Rightarrow> pystr) \<Rightarrow> PlanNode \<Rightarrow> bool" where
  "built redacts frepr n \<longleftrightarrow> (\<exists>a. PlanNode_init redacts frepr a = Inr n)"

text \<open>The nodes among the objects of a proposal were built by the class.\<close>

definition proposal_built :: "(pystr \<Rightarrow> bool) \<Rightarrow> (64 word \<Rightarrow> pystr) \<Rightarrow> pobj \<Rightarrow> bool" where
  "proposal_built redacts frepr v \<longleftrightarrow> (case collection v of Inl _ \<Rightarrow> True
     | Inr items \<Rightarrow> \<forall>n. O_obj (Obj_node n) \<in> set items \<longrightarrow> built redacts frepr n)"

lemma built_deps: "built redacts frepr n \<Longrightarrow> distinct (pn_depends_on n)"
  using PlanNode_init_Inr(7) by (fastforce simp: built_def)

lemma built_all: "\<forall>n \<in> set nodes. built redacts frepr n \<Longrightarrow> \<forall>n \<in> set nodes. distinct (pn_depends_on n)"
  using built_deps by blast

lemma plan_item_built:
  assumes "plan_item redacts frepr v = Inr n" and "\<And>m. v = O_obj (Obj_node m) \<Longrightarrow> built redacts frepr m"
  shows "built redacts frepr n"
proof (cases "\<exists>m. v = O_obj (Obj_node m)")
  case True
  then show ?thesis using assms by (auto simp: plan_item_def)
next
  case False
  then have "PlanNode_from_mapping redacts frepr v = Inr n"
    using assms(1) by (auto simp: plan_item_def split: pyo.splits plan_obj.splits)
  then show ?thesis by (auto simp: PlanNode_from_mapping_def built_def split: pyo.splits if_splits)
qed

lemma Plan_init_Inr:
  assumes "Plan_init redacts frepr v = Inr p" and "proposal_built redacts frepr v"
  shows "\<exists>nodes. (\<forall>n \<in> set nodes. built redacts frepr n) \<and> proposal_ok frepr nodes
    \<and> plan_nodes p = greedy nodes [] \<and> mset (plan_nodes p) = mset nodes \<and> in_order [] (plan_nodes p)"
proof -
  from assms(1) obtain items nodes where i: "collection v = Inr items" "items \<noteq> []" "length items \<le> MAX_NODES"
    "list_all2 (\<lambda>x y. plan_item redacts frepr x = Inr y) items nodes" "checked_nodes frepr nodes = Inr p"
    by (auto simp: Plan_init_checked rbind_eq_Inr_iff each_Inr split: if_splits)
  have b: "\<forall>n \<in> set nodes. built redacts frepr n"
  proof
    fix n assume "n \<in> set nodes"
    then obtain k where "k < length nodes" "nodes ! k = n" by (auto simp: in_set_conv_nth)
    then have "items ! k \<in> set items" "plan_item redacts frepr (items ! k) = Inr n"
      using i(4) by (auto simp: list_all2_conv_all_nth)
    moreover have "built redacts frepr m" if "items ! k = O_obj (Obj_node m)" for m
      using that \<open>items ! k \<in> set items\<close> assms(2) i(1) by (auto simp: proposal_built_def)
    ultimately show "built redacts frepr n" using plan_item_built by blast
  qed
  have len: "length nodes = length items" using i(4) by (simp add: list_all2_lengthD)
  have "proposal_ok frepr nodes \<and> p = \<lparr>plan_nodes = greedy nodes []\<rparr>"
    using checked_nodes_Inr [OF built_all [OF b], of frepr p] i len by auto
  moreover then have "nodes_ok nodes" "acyclic (dep_rel nodes)"
    using built_all [OF b] by (auto simp: proposal_ok_def nodes_ok_def)
  ultimately show ?thesis using b greedy_perm by auto
qed

lemma plan_of_nodes_checked:
  "plan_of_nodes redacts frepr nodes =
     (if nodes = [] then Inl EMPTY else if length nodes > MAX_NODES then Inl TOO_MANY_NODES else checked_nodes frepr nodes)"
proof -
  have "each (plan_item redacts frepr) (map (\<lambda>n. O_obj (Obj_node n)) nodes) = Inr nodes"
    by (rule each_map) (simp add: plan_item_def)
  then show ?thesis by (simp add: plan_of_nodes_def Plan_init_checked collection_def)
qed


text \<open>
  C27: for nodes with distinct keys and known dependencies the algorithm with the counters and the heap ends;
  it refuses the nodes exactly when the dependencies have a cycle, and otherwise it returns every node once, in the
  order of the reference definition.
\<close>

theorem kahn_is_greedy:
  assumes "nodes_ok nodes"
  shows "topological_order nodes = (if acyclic (dep_rel nodes) then Inr (greedy nodes []) else Inl CYCLE)
    \<and> (acyclic (dep_rel nodes) \<longrightarrow> mset (greedy nodes []) = mset nodes)"
  using topological_order_greedy [OF assms] greedy_perm(1) [OF assms] by simp

text \<open>
  C28: in every accepted plan the keys are distinct, every dependency of a node is a node with a smaller
  ordinal, and the depth is the number of nodes on the longest dependency chain, at most 16.
\<close>

theorem plan_in_order:
  assumes "Plan_init redacts frepr v = Inr p" and "proposal_built redacts frepr v"
  shows "distinct (map pn_key (plan_nodes p))
    \<and> (\<forall>n \<in> set (plan_nodes p). \<forall>d \<in> set (pn_depends_on n). \<exists>i j. Plan_ordinal p d = Some i
         \<and> Plan_ordinal p (pn_key n) = Some j \<and> i < j)
    \<and> (\<forall>ns. chain (plan_nodes p) ns \<longrightarrow> length ns \<le> Plan_depth p)
    \<and> (\<exists>ns. chain (plan_nodes p) ns \<and> length ns = Plan_depth p) \<and> Plan_depth p \<le> MAX_DEPTH"
proof -
  from Plan_init_Inr [OF assms] obtain nodes where n: "proposal_ok frepr nodes" "mset (plan_nodes p) = mset nodes"
    and o: "in_order [] (plan_nodes p)" by blast
  let ?N = "plan_nodes p"
  have dist: "distinct (map pn_key ?N)" using in_order_keys [OF o] by simp
  have ord: "Plan_ordinal p (pn_key (?N ! i)) = Some i" if "i < length ?N" for i
    using map_of_zip_nth [of "map pn_key ?N" "[0..<length ?N]" i] dist that by (simp add: Plan_ordinal_def)
  have "\<exists>i j. Plan_ordinal p d = Some i \<and> Plan_ordinal p (pn_key n) = Some j \<and> i < j"
    if nd: "n \<in> set ?N" "d \<in> set (pn_depends_on n)" for n d
  proof -
    obtain j where j: "j < length ?N" "n = ?N ! j" using nd(1) by (auto simp: in_set_conv_nth)
    from in_order_nth [OF o j(1)] nd(2) j(2) obtain i where "i < j" "pn_key (?N ! i) = d" by blast
    with ord [of i] ord [of j] j show ?thesis by auto
  qed
  moreover have "Plan_depth p \<le> MAX_DEPTH"
  proof -
    obtain ns where "chain ?N ns" "length ns = Plan_depth p"
      using depth_longest_chain(2) [OF o] by (auto simp: Plan_depth_def)
    moreover have "chain nodes ns = chain ?N ns" using chain_set [OF mset_eq_setD [OF n(2)]] by simp
    ultimately show ?thesis using n(1) unfolding proposal_ok_def by metis
  qed
  ultimately show ?thesis using dist depth_longest_chain [OF o] by (auto simp: Plan_depth_def)
qed

section \<open>Round trip\<close>

lemma ordered_proposal:
  assumes "proposal_ok frepr nodes" and "\<forall>n \<in> set nodes. distinct (pn_depends_on n)"
  shows "proposal_ok frepr (greedy nodes [])" and "greedy (greedy nodes []) [] = greedy nodes []"
proof -
  have ok: "nodes_ok nodes" "acyclic (dep_rel nodes)" using assms by (auto simp: proposal_ok_def nodes_ok_def)
  note g = greedy_perm [OF ok]
  have set: "set (greedy nodes []) = set nodes" using g(1) by (rule mset_eq_setD)
  show again: "greedy (greedy nodes []) [] = greedy nodes []"
    using greedy_of_ordered [OF g(2), of "[]"] by simp
  have "(\<Sum>n \<leftarrow> greedy nodes []. length (pn_depends_on n)) = (\<Sum>n \<leftarrow> nodes. length (pn_depends_on n))"
    using arg_cong [OF g(1), of "\<lambda>M. sum_mset (image_mset (\<lambda>n. length (pn_depends_on n)) M)"]
    by (simp add: sum_mset_sum_list flip: mset_map)
  moreover have "length (greedy nodes []) = length nodes" using g(1) by (rule mset_eq_length)
  moreover have "dep_rel (greedy nodes []) = dep_rel nodes" by (simp add: dep_rel_def set)
  ultimately show "proposal_ok frepr (greedy nodes [])"
    using assms(1) in_order_keys [OF g(2)] chain_set [OF set] again set
    by (auto simp: proposal_ok_def)
qed

text \<open>
  C29: the mapping of an accepted plan reads back as the same plan: every node with its fields, in the same
  order.
\<close>

theorem plan_roundtrip:
  assumes "Plan_init redacts frepr v = Inr p" and "proposal_built redacts frepr v"
    and "\<forall>n \<in> set (plan_nodes p). \<forall>us. pn_repositories n = Some us \<longrightarrow> (\<forall>u \<in> set us. u < 2 ^ 128)"
  shows "Plan_from_mapping redacts frepr (plain (Plan_to_mapping p)) = Inr p"
proof -
  from Plan_init_Inr [OF assms(1,2)] obtain nodes where b: "\<forall>n \<in> set nodes. built redacts frepr n"
    and n: "proposal_ok frepr nodes" "plan_nodes p = greedy nodes []" "mset (plan_nodes p) = mset nodes" by blast
  let ?N = "plan_nodes p"
  have set: "set ?N = set nodes" using n(3) by (rule mset_eq_setD)
  have ok: "plan_item redacts frepr (plain (PlanNode_to_mapping m)) = Inr m" if "m \<in> set ?N" for m
  proof -
    have "node_ok redacts frepr m" using that set b assms(3) node_init_again by (fastforce simp: built_def)
    then show ?thesis by (simp add: node_ok_def plan_item_def PlanNode_to_mapping_def)
  qed
  have "proposal_ok frepr ?N" "greedy ?N [] = ?N" using ordered_proposal [OF n(1) built_all [OF b]] n(2) by auto
  moreover from this have "?N \<noteq> []" "length ?N \<le> MAX_NODES" by (auto simp: proposal_ok_def)
  ultimately have "checked_nodes frepr ?N = Inr p"
    using checked_nodes_Inr [of ?N frepr p] built_all [OF b] set by simp
  moreover have "each (plan_item redacts frepr) (map (\<lambda>m. plain (PlanNode_to_mapping m)) ?N) = Inr ?N"
    using ok by (rule each_map)
  ultimately show ?thesis using \<open>?N \<noteq> []\<close> \<open>length ?N \<le> MAX_NODES\<close>
    by (simp add: Plan_from_mapping_def Plan_to_mapping_def nodes_json_def key_text_def Plan_init_checked collection_def
        comp_def)
qed

section \<open>Agents and reviews\<close>

lemma replace_agent_built:
  assumes "built redacts frepr n" and "replace_agent redacts frepr n agent = Inr m"
  shows "m = n\<lparr>pn_agent := Some agent\<rparr>" and "built redacts frepr m"
proof -
  from assms(1) obtain a where a: "PlanNode_init redacts frepr a = Inr n" by (auto simp: built_def)
  note i = PlanNode_init_Inr [OF a]
  define b where "b = \<lparr>na_key = O_str (pn_key n), na_role = O_obj (Obj_role (pn_role n)), na_title = O_str (pn_title n),
        na_goal = O_str (pn_goal n), na_depends_on = O_tuple (map O_str (pn_depends_on n)),
        na_required = O_bool (pn_required n), na_input = freeze_json (pn_input n),
        na_capabilities = (case pn_capabilities n of None \<Rightarrow> O_none
          | Some cs \<Rightarrow> O_tuple (map (\<lambda>c. O_obj (Obj_cap c)) cs)),
        na_repositories = (case pn_repositories n of None \<Rightarrow> O_none | Some us \<Rightarrow> O_tuple (map O_uuid us)),
        na_agent = O_str agent :: pobj\<rparr>"
  have r: "replace_agent redacts frepr n agent = PlanNode_init redacts frepr b" by (simp add: replace_agent_def b_def)
  have "plan_capabilities (pn_role n) (na_capabilities b) = Inr (pn_capabilities n)"
  proof (cases "pn_capabilities n")
    case (Some cs)
    then show ?thesis
      using plan_capabilities_again(1) [of "pn_role n" "na_capabilities a" cs "na_capabilities b" "\<lambda>c. O_obj (Obj_cap c)"] i(9)
      by (simp add: b_def collection_def capability_item_def)
  qed (simp add: b_def plan_capabilities_def)
  moreover have "plan_repositories (na_repositories b) = Inr (pn_repositories n)"
  proof (cases "pn_repositories n")
    case (Some us)
    then show ?thesis
      using plan_repositories_again [of "na_repositories a" us "na_repositories b" O_uuid] i(10)
      by (simp add: b_def collection_def repository_item_def to_uuid_def)
  qed (simp add: b_def plan_repositories_def)
  moreover have "plan_input frepr (na_input b) = Inr (pn_input n)"
    using plan_input_frozen [OF i(8)] by (simp add: b_def)
  ultimately have "reads_as frepr b n" by (simp add: reads_as_def b_def collection_def plan_role_def)
  moreover obtain ag where ag: "plan_agent (na_agent b) = Inr ag"
    using assms(2) PlanNode_init_Inr(11) [of redacts frepr b m] by (auto simp: r)
  moreover from ag have "ag = Some agent" by (simp add: b_def plan_agent_def split: if_splits)
  ultimately show "m = n\<lparr>pn_agent := Some agent\<rparr>" "built redacts frepr m"
    using init_as [OF a] assms(2) by (auto simp: r built_def)
qed

lemma assign_node_built:
  assumes "assign_node redacts frepr c n = Inr m" and "built redacts frepr n"
  shows "\<exists>agent. m = n\<lparr>pn_agent := Some agent\<rparr> \<and> built redacts frepr m
    \<and> (\<exists>allowed dflt. allowed_agents c (pn_role n) = Some (allowed, dflt) \<and> agent \<in> insert dflt (set allowed))
    \<and> (\<forall>a. pn_agent n = Some a \<longrightarrow> a = agent)"
proof -
  from assms(1) obtain allowed dflt where al: "allowed_agents c (pn_role n) = Some (allowed, dflt)"
    by (auto simp: assign_node_def split: option.splits)
  show ?thesis
  proof (cases "pn_agent n")
    case None
    with assms(1) al have "replace_agent redacts frepr n dflt = Inr m" by (simp add: assign_node_def)
    from replace_agent_built [OF assms(2) this] al None show ?thesis by auto
  next
    case (Some a)
    with assms al have "m = n" "a \<in> set allowed" by (auto simp: assign_node_def split: if_splits)
    with Some al assms(2) show ?thesis by (intro exI [of _ a]) simp
  qed
qed

lemma plan_of_nodes_mset:
  assumes "\<forall>n \<in> set nodes. built redacts frepr n" and "plan_of_nodes redacts frepr nodes = Inr p"
  shows "mset (plan_nodes p) = mset nodes"
proof -
  have "\<forall>n. O_obj (Obj_node n) \<in> set (map (\<lambda>n. O_obj (Obj_node n)) nodes :: pobj list) \<longrightarrow> built redacts frepr n"
    using assms(1) by auto
  have "proposal_ok frepr nodes" "p = \<lparr>plan_nodes = greedy nodes []\<rparr>"
    using checked_nodes_Inr [OF built_all [OF assms(1)], of frepr p] assms(2)
    by (auto simp: plan_of_nodes_checked split: if_splits)
  moreover have "nodes_ok nodes" "acyclic (dep_rel nodes)"
    using calculation(1) built_all [OF assms(1)] by (auto simp: proposal_ok_def nodes_ok_def)
  ultimately show ?thesis using greedy_perm by simp
qed

lemma assign_built:
  assumes "assign redacts frepr c p = Inr p'" and "\<forall>n \<in> set (plan_nodes p). built redacts frepr n"
  shows "\<exists>nodes. list_all2 (\<lambda>n m. assign_node redacts frepr c n = Inr m) (plan_nodes p) nodes
    \<and> mset (plan_nodes p') = mset nodes \<and> (\<forall>m \<in> set nodes. built redacts frepr m)"
proof -
  from assms(1) obtain nodes where n: "list_all2 (\<lambda>n m. assign_node redacts frepr c n = Inr m) (plan_nodes p) nodes"
    "plan_of_nodes redacts frepr nodes = Inr p'"
    by (auto simp: assign_def rbind_eq_Inr_iff each_Inr)
  have "\<forall>m \<in> set nodes. built redacts frepr m"
  proof
    fix m assume "m \<in> set nodes"
    then obtain k where "k < length nodes" "nodes ! k = m" by (auto simp: in_set_conv_nth)
    then have "plan_nodes p ! k \<in> set (plan_nodes p)" "assign_node redacts frepr c (plan_nodes p ! k) = Inr m"
      using n(1) by (auto simp: list_all2_conv_all_nth)
    with assms(2) assign_node_built show "built redacts frepr m" by blast
  qed
  with n plan_of_nodes_mset show ?thesis by blast
qed

definition node_rights :: "PlanNode \<Rightarrow> Capability set" where
  "node_rights n = (case pn_capabilities n of None \<Rightarrow> ROLE_CEILING (pn_role n) | Some cs \<Rightarrow> set cs)"

lemma built_rights:
  assumes "built redacts frepr n"
  shows "node_rights n \<subseteq> ROLE_CEILING (pn_role n)"
proof -
  from assms obtain a where a: "PlanNode_init redacts frepr a = Inr n" by (auto simp: built_def)
  show ?thesis using plan_capabilities_again(2) PlanNode_init_Inr(9) [OF a] by (cases "pn_capabilities n") (auto simp: node_rights_def)
qed

lemma assigned_from:
  assumes "assign redacts frepr c p = Inr p'" and "\<forall>n \<in> set (plan_nodes p). built redacts frepr n"
    and "m \<in> set (plan_nodes p')"
  shows "\<exists>n \<in> set (plan_nodes p). assign_node redacts frepr c n = Inr m"
proof -
  from assign_built [OF assms(1,2)] obtain nodes where
    n: "list_all2 (\<lambda>n m. assign_node redacts frepr c n = Inr m) (plan_nodes p) nodes" "mset (plan_nodes p') = mset nodes"
    by blast
  with assms(3) have "m \<in> set nodes" by (metis mset_eq_setD)
  with n(1) show ?thesis by (fastforce simp: list_all2_conv_all_nth in_set_conv_nth)
qed

text \<open>
  C30: no node of a plan that was accepted for a read-only task holds a capability that writes,
  whether it asked for capabilities or takes the ceiling of its role.
\<close>

theorem read_only_task_cannot_write:
  assumes "accepted redacts frepr c True title p = Inr p'" and "\<forall>n \<in> set (plan_nodes p). built redacts frepr n"
    and "m \<in> set (plan_nodes p')"
  shows "node_rights m \<subseteq> READ_ONLY_TASK_CAPABILITIES \<and> node_rights m \<inter> WRITING_CAPABILITIES = {}"
proof -
  from assms(1) have a: "assign redacts frepr c p = Inr p'" "\<forall>n \<in> set (plan_nodes p). pn_role n \<noteq> NodeRole_WORKER"
    by (auto simp: accepted_def refuse_writers_def rbind_eq_Inr_iff list_ex_iff split: if_splits)
  from assigned_from [OF a(1) assms(2,3)] obtain n where n: "n \<in> set (plan_nodes p)" "assign_node redacts frepr c n = Inr m"
    by blast
  with assms(2) assign_node_built [of redacts frepr c n m] have "built redacts frepr m" "pn_role m = pn_role n" by auto
  then have "node_rights m \<subseteq> ROLE_CEILING (pn_role m)" "pn_role m \<noteq> NodeRole_WORKER"
    using built_rights [of redacts frepr m] a(2) n(1) by simp_all
  moreover have "ROLE_CEILING r = READ_ONLY" if "r \<noteq> NodeRole_WORKER" for r using that by (cases r) simp_all
  ultimately have "node_rights m \<subseteq> READ_ONLY" by simp
  then show ?thesis
    by (auto simp: READ_ONLY_TASK_CAPABILITIES_def NodeRole_members_def READ_ONLY_def WRITING_CAPABILITIES_def)
qed

section \<open>The configuration\<close>

definition orch_config_ok :: "OrchestratorConfig \<Rightarrow> bool" where
  "orch_config_ok c \<longleftrightarrow> (\<forall>role. oc_ladders c role \<noteq> [] \<and> length (oc_ladders c role) \<le> MAX_LADDER_LENGTH
     \<and> distinct (oc_ladders c role) \<and> ra_allowed (oc_assigned c role) \<noteq> []
     \<and> set (ra_allowed (oc_assigned c role)) \<subseteq> set (oc_ladders c role)
     \<and> (\<forall>a. ra_default (oc_assigned c role) = Some a \<longrightarrow> a \<in> set (ra_allowed (oc_assigned c role))))"

lemma role_map_all:
  assumes "each f NodeRole_members = Inr xs"
  shows "f role = Inr (role_map xs role)"
  using assms by (cases role) (auto simp: NodeRole_members_def role_map_def rbind_eq_Inr_iff)

text \<open>An assignment was built by its class.\<close>

definition assignment_built :: "RoleAssignment \<Rightarrow> bool" where
  "assignment_built r \<longleftrightarrow> (\<exists>v d. RoleAssignment_init (v :: pobj) d = Inr r)"

lemma assignment_built_ok:
  "assignment_built r \<Longrightarrow> ra_allowed r \<noteq> [] \<and> (\<forall>a. ra_default r = Some a \<longrightarrow> a \<in> set (ra_allowed r))"
  by (auto simp: assignment_built_def RoleAssignment_init_def rbind_eq_Inr_iff split: if_splits)

lemma OrchestratorConfig_init_ok:
  assumes "OrchestratorConfig_init a = Inr c"
    and "\<And>es role r. xa_assignment a = Some (Inst es) \<Longrightarrow> map_of es (Some role) = Some (Inst r) \<Longrightarrow> assignment_built r"
  shows "orch_config_ok c"
proof -
  from assms(1) obtain es lists where l: "xa_ladders a = Inst es" "each (check_ladder es) NodeRole_members = Inr lists"
    "oc_ladders c = role_map lists" "check_assignment (role_map lists) (xa_assignment a) = Inr (oc_assigned c)"
    by (auto simp: OrchestratorConfig_init_def rbind_eq_Inr_iff split: arg.splits if_splits)
  have ladder: "oc_ladders c role \<noteq> [] \<and> length (oc_ladders c role) \<le> MAX_LADDER_LENGTH \<and> distinct (oc_ladders c role)" for role
    using role_map_all [OF l(2), of role] by (auto simp: l(3) check_ladder_def rbind_eq_Inr_iff split: if_splits)
  have "ra_allowed (oc_assigned c role) \<noteq> [] \<and> set (ra_allowed (oc_assigned c role)) \<subseteq> set (oc_ladders c role)
     \<and> (\<forall>a. ra_default (oc_assigned c role) = Some a \<longrightarrow> a \<in> set (ra_allowed (oc_assigned c role)))" for role
  proof (cases "xa_assignment a")
    case None
    then have "oc_assigned c = (\<lambda>r. \<lparr>ra_allowed = [hd (oc_ladders c r)], ra_default = Some (hd (oc_ladders c r))\<rparr>)"
      using l(3,4) by (simp add: check_assignment_def)
    then show ?thesis using ladder [of role] by simp
  next
    case (Some es')
    then obtain fs entries where f: "es' = Inst fs" "each (check_entry (role_map lists) fs) NodeRole_members = Inr entries"
      "oc_assigned c = role_map entries"
      using l(4) by (auto simp: check_assignment_def rbind_eq_Inr_iff split: arg.splits if_splits)
    from role_map_all [OF f(2), of role] have "map_of fs (Some role) = Some (Inst (oc_assigned c role))"
      "set (ra_allowed (oc_assigned c role)) \<subseteq> set (oc_ladders c role)"
      by (auto simp: check_entry_def f(3) l(3) split: option.splits arg.splits if_splits)
    then show ?thesis using assignment_built_ok assms(2) Some f(1) by blast
  qed
  with ladder show ?thesis by (simp add: orch_config_ok_def)
qed

lemma allowed_agents_ok:
  assumes "orch_config_ok c"
  shows "\<exists>d. allowed_agents c role = Some (ra_allowed (oc_assigned c role), d) \<and> d \<in> set (ra_allowed (oc_assigned c role))"
proof (cases "ra_default (oc_assigned c role)")
  case None
  obtain a where "a \<in> set (oc_ladders c role)" "a \<in> set (ra_allowed (oc_assigned c role))"
    using assms unfolding orch_config_ok_def by (metis list.set_intros(1) neq_Nil_conv subsetD)
  then obtain d where d: "find (\<lambda>l. l \<in> set (ra_allowed (oc_assigned c role))) (oc_ladders c role) = Some d"
    using find_None_iff [of "\<lambda>l. l \<in> set (ra_allowed (oc_assigned c role))" "oc_ladders c role"] by auto
  with None find_member [OF d] show ?thesis by (simp add: allowed_agents_def)
next
  case (Some d)
  then show ?thesis using assms by (auto simp: allowed_agents_def orch_config_ok_def)
qed

lemma index_of_mem: "a \<in> set xs \<Longrightarrow> \<exists>i. index_of xs a = Some i \<and> i < length xs \<and> xs ! i = a"
  by (induction xs) auto

text \<open>
  C31: under a checked configuration every node of an accepted plan has an agent that its role is allowed,
  the agent it asked for if it asked for one, and the rung the node starts on exists: it is a rung of the role's ladder
  with that agent.
\<close>

theorem agents_on_ladder:
  assumes "orch_config_ok c" and "assign redacts frepr c p = Inr p'"
    and "\<forall>n \<in> set (plan_nodes p). built redacts frepr n" and "m \<in> set (plan_nodes p')"
  shows "\<exists>agent i n. pn_agent m = Some agent \<and> agent \<in> set (ra_allowed (oc_assigned c (pn_role m)))
    \<and> start_rung c (pn_role m) agent = Some i \<and> i < length (oc_ladders c (pn_role m)) \<and> oc_ladders c (pn_role m) ! i = agent
    \<and> n \<in> set (plan_nodes p) \<and> m = n\<lparr>pn_agent := Some agent\<rparr> \<and> (pn_agent n = None \<or> pn_agent n = Some agent)"
proof -
  from assigned_from [OF assms(2-4)] obtain n where n: "n \<in> set (plan_nodes p)" "assign_node redacts frepr c n = Inr m" by blast
  from assign_node_built [OF n(2)] assms(3) n(1) obtain agent al d where g: "m = n\<lparr>pn_agent := Some agent\<rparr>"
    "allowed_agents c (pn_role n) = Some (al, d)" "agent \<in> insert d (set al)" "\<forall>a. pn_agent n = Some a \<longrightarrow> a = agent"
    by blast
  with allowed_agents_ok [OF assms(1), of "pn_role n"] have al: "agent \<in> set (ra_allowed (oc_assigned c (pn_role n)))" by auto
  then have "agent \<in> set (oc_ladders c (pn_role n))" using assms(1) by (auto simp: orch_config_ok_def)
  from index_of_mem [OF this] obtain i where "start_rung c (pn_role n) agent = Some i" "i < length (oc_ladders c (pn_role n))"
    "oc_ladders c (pn_role n) ! i = agent" by (auto simp: start_rung_def)
  moreover have "pn_agent n = None \<or> pn_agent n = Some agent" using g(4) by (cases "pn_agent n") auto
  ultimately show ?thesis using g(1) al n(1) by (intro exI [of _ agent] exI [of _ i] exI [of _ n]) simp
qed

section \<open>Required reviews\<close>




section \<open>A plan\<close>

definition demo_node_args :: "string \<Rightarrow> NodeRole \<Rightarrow> string list \<Rightarrow> node_args" where
  "demo_node_args k role deps =
     \<lparr>na_key = O_str (cp k), na_role = O_obj (Obj_role role), na_title = O_str (cp ''Step''), na_goal = O_str (cp ''Do it''),
      na_depends_on = O_list (map (\<lambda>d. O_str (cp d)) deps), na_required = O_bool True, na_input = O_map Map_dict [],
      na_capabilities = O_none, na_repositories = O_none, na_agent = O_none\<rparr>"

definition demo_node :: "string \<Rightarrow> NodeRole \<Rightarrow> string list \<Rightarrow> PlanNode" where
  "demo_node k role deps =
     \<lparr>pn_key = cp k, pn_role = role, pn_title = cp ''Step'', pn_goal = cp ''Do it'', pn_depends_on = map cp deps,
      pn_required = True, pn_input = J_dict [], pn_capabilities = None, pn_repositories = None, pn_agent = None\<rparr>"

definition demo_plan :: "PlanNode list" where
  "demo_plan = [demo_node ''impl'' NodeRole_WORKER [''read''], demo_node ''read'' NodeRole_RESEARCHER []]"

definition demo_ladder :: oc_args where
  "demo_ladder =
     \<lparr>xa_ladders = Inst (map (\<lambda>r. (Some r, O_list [O_str (cp ''local''), O_str (cp ''claude''), O_str (cp ''codex'')])) NodeRole_members),
      xa_max_parallel_nodes = PyInt 4, xa_node_timeout = Sec 60, xa_poll = Sec 1, xa_heartbeat = None,
      xa_retry_backoff = Sec 1, xa_max_attempts_per_rung = PyInt 6, xa_max_plan_attempts = PyInt 2,
      xa_assignment = Some (Inst (map (\<lambda>r. (Some r, Inst \<lparr>ra_allowed = [cp ''local'', cp ''claude'', cp ''codex''],
        ra_default = Some (cp ''local'')\<rparr>)) NodeRole_members))\<rparr>"

lemmas plan_node_defs = plan_role_def plan_key_def key_ok_def is_lower_def plan_text_def text_forbidden_def is_control_def
  is_surrogate_def is_space_def strip_def MAX_TITLE_CHARS_def MAX_GOAL_CHARS_def collection_def MAX_DEPENDENCIES_def
  plan_input_def check_json_object_def encoded_size_def utf8_def utf8_char_def MAX_NODE_INPUT_BYTES_def
  MAX_NODE_INPUT_DEPTH_def spend_def plan_capabilities_def plan_repositories_def plan_agent_def

lemma demo_built:
  "PlanNode_init (\<lambda>_. False) (\<lambda>_. []) (demo_node_args ''impl'' NodeRole_WORKER [''read'']) = Inr (demo_node ''impl'' NodeRole_WORKER [''read''])"
  "PlanNode_init (\<lambda>_. False) (\<lambda>_. []) (demo_node_args ''read'' NodeRole_RESEARCHER []) = Inr (demo_node ''read'' NodeRole_RESEARCHER [])"
  by (simp_all add: PlanNode_init_def demo_node_args_def demo_node_def plan_node_defs cp_def)

lemma demo_plan_built: "\<forall>n \<in> set demo_plan. built (\<lambda>_. False) (\<lambda>_. []) n"
  using demo_built by (auto simp: demo_plan_def built_def)

lemma demo_plan_init:
  "plan_of_nodes (\<lambda>_. False) (\<lambda>_. []) demo_plan = Inr \<lparr>plan_nodes = rev demo_plan\<rparr>"
  by (simp add: plan_of_nodes_checked checked_nodes_def demo_plan_def demo_node_def MAX_NODES_def MAX_EDGES_def
      topological_order_def kahn_loop.simps waiting_start_def position_def dependents_def release_one_def
      nodes_depth_def max_default_def MAX_DEPTH_def plan_bytes_def MAX_PLAN_BYTES_def encoded_size_def nodes_json_def
      PlanNode_to_mapping_def texts_def utf8_def utf8_char_def dump_text_def dump_char_def cp_def)

lemma demo_proposal: "proposal_built (\<lambda>_. False) (\<lambda>_. []) (O_tuple (map (\<lambda>n. O_obj (Obj_node n)) demo_plan))"
  using demo_plan_built by (auto simp: proposal_built_def collection_def)


theorem kahn_is_greedy_witness: "topological_order demo_plan = Inr (greedy demo_plan []) \<and> mset (greedy demo_plan []) = mset demo_plan"
proof -
  have ok: "nodes_ok demo_plan" by (simp add: nodes_ok_def demo_plan_def demo_node_def)
  have "proposal_ok (\<lambda>_. []) demo_plan"
    using checked_nodes_Inr [OF built_all [OF demo_plan_built]] demo_plan_init
    by (auto simp: plan_of_nodes_checked split: if_splits)
  then have "acyclic (dep_rel demo_plan)" by (simp add: proposal_ok_def)
  with kahn_is_greedy [OF ok] show ?thesis by simp
qed

theorem plan_in_order_witness:
  "Plan_depth \<lparr>plan_nodes = rev demo_plan\<rparr> \<le> MAX_DEPTH
    \<and> (\<exists>ns. chain (rev demo_plan) ns \<and> length ns = Plan_depth \<lparr>plan_nodes = rev demo_plan\<rparr>)"
  using plan_in_order [OF demo_plan_init [unfolded plan_of_nodes_def] demo_proposal] by simp

theorem plan_roundtrip_witness:
  "Plan_from_mapping (\<lambda>_. False) (\<lambda>_. []) (plain (Plan_to_mapping \<lparr>plan_nodes = rev demo_plan\<rparr>)) = Inr \<lparr>plan_nodes = rev demo_plan\<rparr>"
  by (rule plan_roundtrip [OF demo_plan_init [unfolded plan_of_nodes_def] demo_proposal])
    (simp add: demo_plan_def demo_node_def)

definition demo_orch_config :: OrchestratorConfig where
  "demo_orch_config =
     \<lparr>oc_ladders = (let l = [cp ''local'', cp ''claude'', cp ''codex''] in role_map [l, l, l, l]), oc_max_parallel_nodes = 4,
      oc_node_timeout = 60, oc_poll = 1, oc_heartbeat = None, oc_retry_backoff = 1, oc_max_attempts_per_rung = 6,
      oc_max_plan_attempts = 2,
      oc_assigned = (let r = \<lparr>ra_allowed = [cp ''local'', cp ''claude'', cp ''codex''], ra_default = Some (cp ''local'')\<rparr>
        in role_map [r, r, r, r])\<rparr>"

lemma demo_config_init: "OrchestratorConfig_init demo_ladder = Inr demo_orch_config"
  by (simp add: OrchestratorConfig_init_def demo_ladder_def demo_orch_config_def all_roles_def NodeRole_members_def check_ladder_def
      sequence_of_def check_agent_label_def agent_label_ok_def is_lower_def MAX_LADDER_LENGTH_def orch_check_int_def
      orch_check_seconds_def MAX_PARALLEL_NODES_def MAX_NODE_TIMEOUT_SECONDS_def MAX_RETRY_BACKOFF_SECONDS_def
      MAX_ATTEMPTS_PER_RUNG_def MAX_PLAN_ATTEMPTS_def check_assignment_def check_entry_def role_map_def cp_def Let_def)

definition demo_read_plan :: Plan where
  "demo_read_plan = \<lparr>plan_nodes = [demo_node ''read'' NodeRole_RESEARCHER []]\<rparr>"

lemma demo_read_built: "\<forall>n \<in> set (plan_nodes demo_read_plan). built (\<lambda>_. False) (\<lambda>_. []) n"
  using demo_built by (auto simp: demo_read_plan_def built_def)

lemmas plan_run_defs = PlanNode_init_def demo_node_def plan_node_defs plan_of_nodes_checked checked_nodes_def MAX_NODES_def
  MAX_EDGES_def topological_order_def kahn_loop.simps waiting_start_def position_def dependents_def release_one_def
  nodes_depth_def max_default_def MAX_DEPTH_def plan_bytes_def MAX_PLAN_BYTES_def nodes_json_def
  PlanNode_to_mapping_def texts_def dump_text_def dump_char_def cp_def

lemma demo_node_fields:
  "pn_key (demo_node k r d) = cp k" "pn_role (demo_node k r d) = r" "pn_agent (demo_node k r d) = None"
  by (simp_all add: demo_node_def)

lemma demo_allowed: "allowed_agents demo_orch_config role = Some ([cp ''local'', cp ''claude'', cp ''codex''], cp ''local'')"
  by (cases role) (simp_all add: allowed_agents_def demo_orch_config_def role_map_def NodeRole_members_def Let_def)

lemma demo_replaced:
  "replace_agent (\<lambda>_. False) (\<lambda>_. []) (demo_node ''read'' NodeRole_RESEARCHER []) (cp ''local'')
     = Inr ((demo_node ''read'' NodeRole_RESEARCHER [])\<lparr>pn_agent := Some (cp ''local'')\<rparr>)"
  by (simp add: replace_agent_def agent_label_ok_def plan_run_defs)

lemma demo_read_plan:
  "plan_of_nodes (\<lambda>_. False) (\<lambda>_. []) [(demo_node ''read'' NodeRole_RESEARCHER [])\<lparr>pn_agent := Some (cp ''local'')\<rparr>]
     = Inr \<lparr>plan_nodes = [(demo_node ''read'' NodeRole_RESEARCHER [])\<lparr>pn_agent := Some (cp ''local'')\<rparr>]\<rparr>"
  by (simp add: plan_run_defs)

lemma demo_read_assign:
  "assign (\<lambda>_. False) (\<lambda>_. []) demo_orch_config demo_read_plan
     = Inr \<lparr>plan_nodes = [(demo_node ''read'' NodeRole_RESEARCHER [])\<lparr>pn_agent := Some (cp ''local'')\<rparr>]\<rparr>"
  by (simp add: assign_def assign_node_def demo_read_plan_def demo_allowed demo_node_fields demo_replaced demo_read_plan)

lemma demo_read_accepted:
  "accepted (\<lambda>_. False) (\<lambda>_. []) demo_orch_config True [] demo_read_plan
     = Inr \<lparr>plan_nodes = [(demo_node ''read'' NodeRole_RESEARCHER [])\<lparr>pn_agent := Some (cp ''local'')\<rparr>]\<rparr>"
proof -
  have "\<not> is_reserved_key (cp ''read'')" by (simp add: is_reserved_key_def RESERVED_KEY_PREFIX_def cp_def)
  then show ?thesis
    by (simp add: accepted_def refuse_reserved_keys_def refuse_writers_def demo_read_assign)
      (simp add: demo_read_plan_def demo_node_fields)
qed

theorem read_only_task_cannot_write_witness:
  "node_rights ((demo_node ''read'' NodeRole_RESEARCHER [])\<lparr>pn_agent := Some (cp ''local'')\<rparr>) \<inter> WRITING_CAPABILITIES = {}"
  using read_only_task_cannot_write [OF demo_read_accepted demo_read_built] by simp

lemma demo_config_ok: "orch_config_ok demo_orch_config"
proof (rule OrchestratorConfig_init_ok [OF demo_config_init])
  fix es role r
  assume "xa_assignment demo_ladder = Some (Inst es)" "map_of es (Some role) = Some (Inst r)"
  then have r: "r = \<lparr>ra_allowed = [cp ''local'', cp ''claude'', cp ''codex''], ra_default = Some (cp ''local'')\<rparr>"
    by (cases role) (auto simp: demo_ladder_def NodeRole_members_def)
  have "RoleAssignment_init (O_list (map O_str [cp ''local'', cp ''claude'', cp ''codex'']) :: pobj) (Some (cp ''local'')) = Inr r"
    by (simp add: RoleAssignment_init_def sequence_of_def check_agent_label_def agent_label_ok_def is_lower_def cp_def r)
  then show "assignment_built r" by (auto simp: assignment_built_def)
qed

theorem agents_on_ladder_witness:
  "\<exists>i. start_rung demo_orch_config NodeRole_RESEARCHER (cp ''local'') = Some i
    \<and> oc_ladders demo_orch_config NodeRole_RESEARCHER ! i = cp ''local''"
  using agents_on_ladder [OF demo_config_ok demo_read_assign demo_read_built] by (auto simp: demo_node_def)









lemma length_cp [simp]: "length (cp s) = length s"
  by (simp add: cp_def)







lemma utf8_append [simp]: "utf8 (a @ b) = utf8 a @ utf8 b"
  by (simp add: utf8_def)

lemma utf8_Cons [simp]: "c < 128 \<Longrightarrow> utf8 (c # s) = c # utf8 s"
  by (simp add: utf8_def utf8_char_def)

lemma utf8_Nil [simp]: "utf8 [] = []"
  by (simp add: utf8_def)






end
