(* ===== verification/Dag_Scheduling.thy ===== *)
theory Dag_Scheduling
  imports Prelude
begin

text \<open>
  The scheduling rules of a DAG (\<^verbatim>\<open>paw_backend/orchestrator/scheduling.py\<close>, with the states of
  \<^verbatim>\<open>domain.py\<close>): the effects of the dependencies on the states of the nodes, the nodes to start
  next, the verdict and the nodes a failure reaches. Nodes are given in ordinal order: a
  dependency stands before its dependents (\<open>views_ok\<close>).
\<close>

section \<open>States\<close>

datatype NodeState = NodeState_PENDING | NodeState_READY | NodeState_RUNNING | NodeState_SUCCEEDED | NodeState_FAILED
  | NodeState_BLOCKED | NodeState_CANCELLED

definition SETTLED_NODE_STATES :: "NodeState set" where
  "SETTLED_NODE_STATES = {NodeState_SUCCEEDED, NodeState_FAILED, NodeState_BLOCKED, NodeState_CANCELLED}"

definition UNSATISFIABLE_NODE_STATES :: "NodeState set" where
  "UNSATISFIABLE_NODE_STATES = {NodeState_FAILED, NodeState_BLOCKED, NodeState_CANCELLED}"

definition OPEN_STATES :: "NodeState set" where
  "OPEN_STATES = {NodeState_PENDING, NodeState_READY, NodeState_BLOCKED}"

datatype DagState = DagState_ACTIVE | DagState_SUCCEEDED | DagState_FAILED | DagState_CANCELLED

datatype DagVerdict = DagVerdict_ACTIVE | DagVerdict_SUCCEEDED | DagVerdict_FAILED

record NodeView =
  nv_key :: pystr
  nv_ordinal :: int
  nv_state :: NodeState
  nv_depends_on :: "pystr list"
  nv_required :: bool

section \<open>Rules\<close>

definition settled_state :: "NodeState list \<Rightarrow> NodeState" where
  "settled_state states =
     (if list_ex (\<lambda>s. s \<in> UNSATISFIABLE_NODE_STATES) states then NodeState_BLOCKED
      else if list_all (\<lambda>s. s = NodeState_SUCCEEDED) states then NodeState_READY
      else NodeState_PENDING)"

text \<open>The loop over the nodes; \<open>None\<close> is the \<^verbatim>\<open>KeyError\<close> of a dependency that was not visited.\<close>

fun settle_from :: "(pystr \<rightharpoonup> NodeState) \<Rightarrow> NodeView list \<Rightarrow> (pystr \<rightharpoonup> NodeState) option" where
  "settle_from settled [] = Some settled"
| "settle_from settled (n # ns) =
     (if nv_state n \<notin> OPEN_STATES then settle_from (settled(nv_key n \<mapsto> nv_state n)) ns
      else
        (case those (map settled (nv_depends_on n)) of
           None \<Rightarrow> None
         | Some states \<Rightarrow> settle_from (settled(nv_key n \<mapsto> settled_state states)) ns))"

definition settle_states :: "NodeView list \<Rightarrow> (pystr \<rightharpoonup> NodeState) option" where
  "settle_states ns = settle_from Map.empty ns"

definition ready_batch :: "NodeView list \<Rightarrow> int \<Rightarrow> pystr set \<Rightarrow> pystr list" where
  "ready_batch ns capacity exclude =
     (if capacity \<le> 0 then []
      else take (nat capacity)
        (map nv_key (filter (\<lambda>n. nv_state n = NodeState_READY \<and> nv_key n \<notin> exclude) ns)))"

definition dag_verdict :: "NodeView list \<Rightarrow> DagVerdict" where
  "dag_verdict ns =
     (if list_ex (\<lambda>n. nv_state n \<in> {NodeState_READY, NodeState_RUNNING}) ns then DagVerdict_ACTIVE
      else if list_all (\<lambda>n. nv_state n = NodeState_SUCCEEDED) (filter nv_required ns) then DagVerdict_SUCCEEDED
      else DagVerdict_FAILED)"

fun dependents_from :: "pystr \<Rightarrow> pystr set \<Rightarrow> NodeView list \<Rightarrow> pystr set" where
  "dependents_from k found [] = found"
| "dependents_from k found (n # ns) =
     dependents_from k
       (if k \<in> set (nv_depends_on n) \<or> found \<inter> set (nv_depends_on n) \<noteq> {} then insert (nv_key n) found else found) ns"

definition transitive_dependents :: "NodeView list \<Rightarrow> pystr \<Rightarrow> pystr set" where
  "transitive_dependents ns k = dependents_from k {} ns"

section \<open>Nodes in ordinal order\<close>

fun views_from :: "pystr list \<Rightarrow> NodeView list \<Rightarrow> bool" where
  "views_from seen [] \<longleftrightarrow> True"
| "views_from seen (n # ns) \<longleftrightarrow>
     nv_key n \<notin> set seen \<and> set (nv_depends_on n) \<subseteq> set seen \<and> views_from (seen @ [nv_key n]) ns"

abbreviation views_ok :: "NodeView list \<Rightarrow> bool" where
  "views_ok ns \<equiv> views_from [] ns"

definition view_deps :: "NodeView list \<Rightarrow> (pystr \<times> pystr) set" where
  "view_deps ns = {(d, nv_key n) | d n. n \<in> set ns \<and> d \<in> set (nv_depends_on n)}"

text \<open>What one pass makes of a node when its dependencies have the states \<open>m\<close>.\<close>

definition settle_node :: "(pystr \<Rightarrow> NodeState) \<Rightarrow> NodeView \<Rightarrow> NodeState" where
  "settle_node m n =
     (if nv_state n \<notin> OPEN_STATES then nv_state n else settled_state (map m (nv_depends_on n)))"

lemma settle_node_cong: "(\<And>d. d \<in> set (nv_depends_on n) \<Longrightarrow> m d = m' d) \<Longrightarrow> settle_node m n = settle_node m' n"
  by (auto simp: settle_node_def cong: map_cong)

lemma views_keys: "views_from seen ns \<Longrightarrow> distinct (map nv_key ns) \<and> set seen \<inter> nv_key ` set ns = {}"
  by (induction seen ns rule: views_from.induct) auto

lemma views_append: "views_from seen (xs @ ys) \<longleftrightarrow> views_from seen xs \<and> views_from (seen @ map nv_key xs) ys"
  by (induction xs arbitrary: seen) auto

lemma views_dep:
  "views_ok (xs @ n # ys) \<Longrightarrow> d \<in> set (nv_depends_on n) \<Longrightarrow> \<exists>v \<in> set xs. nv_key v = d"
  by (auto simp: views_append)

lemma those_all: "(\<And>d. d \<in> set ds \<Longrightarrow> m d = Some (f d)) \<Longrightarrow> those (map m ds) = Some (map f ds)"
  by (induction ds) auto

lemma settle_from_total:
  assumes "views_from seen ns" and "dom m = set seen"
  shows "\<exists>m'. settle_from m ns = Some m' \<and> dom m' = set seen \<union> nv_key ` set ns \<and> (\<forall>k \<in> set seen. m' k = m k)
    \<and> (\<forall>n \<in> set ns. m' (nv_key n) = Some (settle_node (\<lambda>d. the (m' d)) n))"
  using assms
proof (induction ns arbitrary: seen m)
  case (Cons n ns)
  have deps: "set (nv_depends_on n) \<subseteq> dom m" and key: "nv_key n \<notin> set seen" using Cons.prems by auto
  let ?m = "m(nv_key n \<mapsto> settle_node (\<lambda>d. the (m d)) n)"
  have "those (map m (nv_depends_on n)) = Some (map (\<lambda>d. the (m d)) (nv_depends_on n))"
    using deps by (intro those_all) auto
  then have step: "settle_from m (n # ns) = settle_from ?m ns" by (simp add: settle_node_def)
  have "views_from (seen @ [nv_key n]) ns" "dom ?m = set (seen @ [nv_key n])" using Cons.prems by auto
  from Cons.IH [OF this] obtain m' where m': "settle_from ?m ns = Some m'" "dom m' = set (seen @ [nv_key n]) \<union> nv_key ` set ns"
    "\<forall>k \<in> set (seen @ [nv_key n]). m' k = ?m k" "\<forall>v \<in> set ns. m' (nv_key v) = Some (settle_node (\<lambda>d. the (m' d)) v)" by blast
  have old: "m' k = m k" if "k \<in> set seen" for k using m'(3) that key by auto
  have "settle_node (\<lambda>d. the (m' d)) n = settle_node (\<lambda>d. the (m d)) n"
    using deps old Cons.prems(2) by (intro settle_node_cong) auto
  then have "m' (nv_key n) = Some (settle_node (\<lambda>d. the (m' d)) n)" using m'(3) by simp
  with m' old step show ?case by (intro exI [of _ m']) auto
qed simp

text \<open>The states after one pass, as a function of the key.\<close>

definition settled :: "NodeView list \<Rightarrow> pystr \<Rightarrow> NodeState" where
  "settled ns k = (case settle_states ns of Some m \<Rightarrow> the (m k) | None \<Rightarrow> NodeState_PENDING)"

lemma settle_states_total:
  assumes "views_ok ns"
  shows "\<exists>m. settle_states ns = Some m \<and> dom m = nv_key ` set ns \<and> (\<forall>n \<in> set ns. m (nv_key n) = Some (settled ns (nv_key n)))"
proof -
  from settle_from_total [OF assms, of Map.empty] obtain m where m: "settle_states ns = Some m" "dom m = nv_key ` set ns"
    by (auto simp: settle_states_def)
  then have "m (nv_key n) = Some (settled ns (nv_key n))" if "n \<in> set ns" for n
    using that domIff [of "nv_key n" m] by (auto simp: settled_def)
  with m show ?thesis by blast
qed

lemma settled_eq:
  assumes "views_ok ns" and "n \<in> set ns"
  shows "settled ns (nv_key n) = settle_node (settled ns) n"
proof -
  from settle_from_total [OF assms(1), of Map.empty] obtain m where m: "settle_states ns = Some m"
    "\<forall>n \<in> set ns. m (nv_key n) = Some (settle_node (\<lambda>d. the (m d)) n)" by (auto simp: settle_states_def)
  then have "settled ns = (\<lambda>d. the (m d))" by (simp add: settled_def fun_eq_iff)
  with m(2) assms(2) show ?thesis by simp
qed

text \<open>A function that satisfies the equations of the pass on all nodes is the pass.\<close>

lemma settled_unique:
  assumes "views_ok ns" and "\<And>n. n \<in> set ns \<Longrightarrow> m (nv_key n) = settle_node m n" and "n \<in> set ns"
  shows "m (nv_key n) = settled ns (nv_key n)"
proof -
  have "\<forall>n \<in> set xs. m (nv_key n) = settled ns (nv_key n)" if "ns = xs @ ys" for xs ys
    using that
  proof (induction xs arbitrary: ys rule: rev_induct)
    case (snoc x xs)
    have IH: "\<forall>n \<in> set xs. m (nv_key n) = settled ns (nv_key n)" using snoc.IH [of "x # ys"] snoc.prems by simp
    have "settle_node m x = settle_node (settled ns) x"
    proof (rule settle_node_cong)
      fix d assume "d \<in> set (nv_depends_on x)"
      with views_dep [of xs x ys d] assms(1) snoc.prems obtain v where "v \<in> set xs" "nv_key v = d" by auto
      with IH show "m d = settled ns d" by auto
    qed
    moreover have "x \<in> set ns" using snoc.prems by simp
    ultimately have "m (nv_key x) = settled ns (nv_key x)"
      using assms(2) [of x] settled_eq [OF assms(1), of x] by simp
    with IH show ?case by simp
  qed simp
  from this [of ns "[]"] assms(3) show ?thesis by simp
qed

end
