(* ===== verification/Dag_Store.thy ===== *)
theory Dag_Store
  imports Dag_Scheduling Plan_Assign Task_Store Authz_Authorizer "HOL-Library.AList"
begin

text \<open>
  The DAG store (\<^verbatim>\<open>paw_backend/orchestrator/store.py\<close>, rows of \<^verbatim>\<open>models.py\<close>, the audit row of
  \<^verbatim>\<open>audit.py\<close>). The tables are one record; a method is one transaction, a function that returns
  the new tables or an error and writes nothing. The lock on the DAG row makes the
  transactions of one DAG follow each other. What a node was planned as never changes and is
  kept as the node of the plan; timestamps only describe and are left out. \<open>KeyError\<close> is the
  error of a settling pass that misses a dependency; a counter that leaves its 32-bit column
  is \<open>NumericValueOutOfRange\<close>.
\<close>

section \<open>Rows\<close>

datatype AttemptState = AttemptState_RUNNING | AttemptState_SUCCEEDED | AttemptState_FAILED | AttemptState_INTERRUPTED
datatype NextStep = RETRY | ALTERNATIVE | ESCALATE | GIVE_UP | HOLD
datatype IncidentKind = OUT_OF_MEMORY | ESCALATION
datatype ExecutionPlacement = Exec_LOCAL_GPU | Exec_LOCAL_CPU | Exec_CLOUD

record CloudSend =
  content_fingerprint :: pystr
  content_bytes :: int
  send_agent_id :: uuid
  send_occurred_at :: instant

record PlacementRecord =
  pl_placement :: ExecutionPlacement
  pl_agent :: pystr
  pl_model :: pystr
  pl_cloud :: "(pystr \<times> int \<times> uuid) option"

record DagNode =
  dn_plan :: PlanNode
  dn_ordinal :: int
  dn_state :: NodeState
  dn_agent_index :: int
  dn_approach :: int
  dn_attempt_count :: int
  dn_rung_attempts :: int
  dn_result :: "json option"
  dn_error_class :: "pystr option"

abbreviation dn_key :: "DagNode \<Rightarrow> pystr" where
  "dn_key n \<equiv> pn_key (dn_plan n)"

record DagAttempt =
  at_node_key :: pystr
  at_number :: int
  at_agent_index :: int
  at_approach :: int
  at_epoch :: int
  at_state :: AttemptState
  at_error_class :: "pystr option"
  at_signature :: "pystr option"
  at_placement :: "PlacementRecord option"

record DagRow =
  dg_task_id :: uuid
  dg_attempt :: int
  dg_retry_count :: int
  dg_state :: DagState
  dg_epoch :: int
  dg_owner :: "pystr option"
  dg_node_count :: nat
  dg_plan_bytes :: nat
  dg_nodes :: "DagNode list"
  dg_edges :: "(pystr \<times> pystr) list"
  dg_attempts :: "DagAttempt list"

record DagTask = TaskRow +
  t_created_by :: uuid

record dag_db =
  db_dags :: "(uuid \<times> DagRow) list"
  db_tasks :: "uuid \<rightharpoonup> DagTask"
  db_incidents :: "(IncidentKind \<times> uuid) list"
  db_audit :: "AuditEvent list"

datatype dag_error =
    Dag_argument string
  | DagNotFoundError
  | StaleDagEpochError
  | DagStateError
  | Dag_StaleRunError
  | Dag_TaskNotRunningError
  | Dag_TaskNotFoundError
  | DagAlreadyExistsError
  | NodeStateError
  | StaleNodeAttemptError
  | CloudSendRefusedError
  | Dag_KeyError
  | Dag_NumericValueOutOfRange
  | Dag_IntegrityError

section \<open>Argument checks\<close>

definition MAX_INT32 :: int where "MAX_INT32 = 2 ^ 31 - 1"
definition DAG_ERROR_CLASS_CHARS :: nat where "DAG_ERROR_CLASS_CHARS = 100"

definition dag_check_int :: "string \<Rightarrow> pyval \<Rightarrow> int \<Rightarrow> int \<Rightarrow> dag_error + int" where
  "dag_check_int name v minimum maximum =
     (case v of PyInt n \<Rightarrow> if minimum \<le> n \<and> n \<le> maximum then Inr n else Inl (Dag_argument name)
      | _ \<Rightarrow> Inl (Dag_argument name))"

definition dag_check_uuid :: "string \<Rightarrow> pyval \<Rightarrow> dag_error + uuid" where
  "dag_check_uuid name v = (case v of PyUuid u \<Rightarrow> Inr u | _ \<Rightarrow> Inl (Dag_argument name))"

definition dag_check_label :: "string \<Rightarrow> pyval \<Rightarrow> nat \<Rightarrow> dag_error + pystr" where
  "dag_check_label name v maximum =
     (case v of PyStr s \<Rightarrow> if label_ok maximum s then Inr s else Inl (Dag_argument name)
      | _ \<Rightarrow> Inl (Dag_argument name))"

definition dag_check_worker_id :: "string \<Rightarrow> pyval \<Rightarrow> dag_error + pystr" where
  "dag_check_worker_id name v =
     (case v of PyStr s \<Rightarrow> if worker_id_ok s then Inr s else Inl (Dag_argument name)
      | _ \<Rightarrow> Inl (Dag_argument name))"

definition dag_check_signature :: "pyval \<Rightarrow> dag_error + pystr" where
  "dag_check_signature v =
     (case v of PyStr s \<Rightarrow> if signature_ok s then Inr s else Inl (Dag_argument ''signature'')
      | _ \<Rightarrow> Inl (Dag_argument ''signature''))"

definition dag_check_agent :: "pyval \<Rightarrow> dag_error + pystr" where
  "dag_check_agent v =
     (case v of PyStr s \<Rightarrow> if agent_label_ok s then Inr s else Inl (Dag_argument ''agent'')
      | _ \<Rightarrow> Inl (Dag_argument ''agent''))"

text \<open>\<^verbatim>\<open>[A-Za-z0-9][A-Za-z0-9._:/@+-]{0,127}\<close>\<close>

definition model_ok :: "pystr \<Rightarrow> bool" where
  "model_ok s \<longleftrightarrow> (case s of [] \<Rightarrow> False
     | c # cs \<Rightarrow> is_alnum_ascii c \<and> length cs \<le> 127 \<and> list_all (\<lambda>d. worker_char d \<or> d = 43) cs)"

definition check_model :: "pyval \<Rightarrow> dag_error + pystr" where
  "check_model v =
     (case v of PyStr s \<Rightarrow> if model_ok s then Inr s else Inl (Dag_argument ''model'')
      | _ \<Rightarrow> Inl (Dag_argument ''model''))"

definition check_epoch :: "pyval \<Rightarrow> dag_error + int" where
  "check_epoch v = dag_check_int ''epoch'' v 1 MAX_INT32"

definition dag_check_number :: "pyval \<Rightarrow> dag_error + int" where
  "dag_check_number v = dag_check_int ''attempt_number'' v 1 MAX_INT32"

section \<open>A locked DAG\<close>

definition depends :: "DagRow \<Rightarrow> pystr \<Rightarrow> pystr list" where
  "depends d k = sort (map snd (filter (\<lambda>e. fst e = k) (dg_edges d)))"

definition node_view :: "DagRow \<Rightarrow> DagNode \<Rightarrow> NodeView" where
  "node_view d n =
     \<lparr>nv_key = dn_key n, nv_ordinal = dn_ordinal n, nv_state = dn_state n, nv_depends_on = depends d (dn_key n),
      nv_required = pn_required (dn_plan n)\<rparr>"

definition dag_views :: "DagRow \<Rightarrow> NodeView list" where
  "dag_views d = map (node_view d) (sort_key dn_ordinal (dg_nodes d))"

definition dag_settle :: "DagRow \<Rightarrow> dag_error + DagRow" where
  "dag_settle d =
     (case settle_states (dag_views d) of
        None \<Rightarrow> Inl Dag_KeyError
      | Some m \<Rightarrow>
          Inr (d\<lparr>dg_nodes := map (\<lambda>n. case m (dn_key n) of Some st \<Rightarrow> n\<lparr>dn_state := st\<rparr> | None \<Rightarrow> n) (dg_nodes d)\<rparr>))"

definition dag_node :: "DagRow \<Rightarrow> pystr \<Rightarrow> DagNode option" where
  "dag_node d k = find (\<lambda>n. dn_key n = k) (dg_nodes d)"

definition upd_node :: "pystr \<Rightarrow> (DagNode \<Rightarrow> DagNode) \<Rightarrow> DagRow \<Rightarrow> DagRow" where
  "upd_node k f d = d\<lparr>dg_nodes := map (\<lambda>n. if dn_key n = k then f n else n) (dg_nodes d)\<rparr>"

definition ENDED_TASK_STATES :: "TaskState set" where
  "ENDED_TASK_STATES = {TaskState_COMPLETED, TaskState_FAILED, TaskState_CANCELLED}"

definition dag_require_run :: "uuid \<Rightarrow> TaskRun \<Rightarrow> dag_db \<Rightarrow> dag_error + unit" where
  "dag_require_run tid run s =
     (case db_tasks s tid of
        None \<Rightarrow> Inl Dag_TaskNotFoundError
      | Some t \<Rightarrow>
          if t_state t \<in> ENDED_TASK_STATES \<or> \<lparr>run_attempt = t_attempt t, run_retry_count = t_retry_count t\<rparr> \<noteq> run
          then Inl Dag_StaleRunError else Inr ())"

definition check_run_of :: "bool \<Rightarrow> DagRow \<Rightarrow> dag_db \<Rightarrow> dag_error + unit" where
  "check_run_of require_running d s =
     (case db_tasks s (dg_task_id d) of
        None \<Rightarrow> Inl Dag_StaleRunError
      | Some t \<Rightarrow>
          if t_attempt t \<noteq> dg_attempt d \<or> t_retry_count t \<noteq> dg_retry_count d \<or> t_state t \<in> ENDED_TASK_STATES
          then Inl Dag_StaleRunError
          else if require_running \<and> t_state t \<noteq> TaskState_RUNNING then Inl Dag_TaskNotRunningError
          else Inr ())"

definition open_dag ::
  "uuid \<Rightarrow> int option \<Rightarrow> bool \<Rightarrow> bool \<Rightarrow> bool \<Rightarrow> dag_db \<Rightarrow> dag_error + DagRow" where
  "open_dag dag_id epoch must_be_active check_run must_be_running s =
     (case map_of (db_dags s) dag_id of
        None \<Rightarrow> Inl DagNotFoundError
      | Some d \<Rightarrow>
          if (case epoch of None \<Rightarrow> False | Some e \<Rightarrow> dg_epoch d \<noteq> e) then Inl StaleDagEpochError
          else if must_be_active \<and> dg_state d \<noteq> DagState_ACTIVE then Inl DagStateError
          else if check_run then rbind (check_run_of must_be_running d s) (\<lambda>_. Inr d)
          else Inr d)"

definition put_dag :: "uuid \<Rightarrow> DagRow \<Rightarrow> dag_db \<Rightarrow> dag_db" where
  "put_dag dag_id d s = s\<lparr>db_dags := AList.update dag_id d (db_dags s)\<rparr>"

text \<open>The running node of an attempt's report.\<close>

definition running_node :: "DagRow \<Rightarrow> pystr \<Rightarrow> int \<Rightarrow> dag_error + DagNode" where
  "running_node d k number =
     (case dag_node d k of
        None \<Rightarrow> Inl StaleNodeAttemptError
      | Some n \<Rightarrow> if dn_state n \<noteq> NodeState_RUNNING \<or> dn_attempt_count n \<noteq> number then Inl StaleNodeAttemptError else Inr n)"

definition is_running_attempt :: "pystr \<Rightarrow> int \<Rightarrow> DagAttempt \<Rightarrow> bool" where
  "is_running_attempt k number a \<longleftrightarrow> at_node_key a = k \<and> at_number a = number \<and> at_state a = AttemptState_RUNNING"

definition close_attempt ::
  "pystr \<Rightarrow> int \<Rightarrow> AttemptState \<Rightarrow> pystr option \<Rightarrow> pystr option \<Rightarrow> DagRow \<Rightarrow> dag_error + DagRow" where
  "close_attempt k number st error_class signature d =
     (if list_ex (is_running_attempt k number) (dg_attempts d)
      then Inr (d\<lparr>dg_attempts := map (\<lambda>a. if is_running_attempt k number a
                   then a\<lparr>at_state := st, at_error_class := error_class, at_signature := signature\<rparr> else a) (dg_attempts d)\<rparr>)
      else Inl StaleNodeAttemptError)"

definition interrupt_running :: "NodeState \<Rightarrow> DagRow \<Rightarrow> DagRow" where
  "interrupt_running st d =
     d\<lparr>dg_attempts := map (\<lambda>a. if at_state a = AttemptState_RUNNING then a\<lparr>at_state := AttemptState_INTERRUPTED\<rparr> else a) (dg_attempts d),
       dg_nodes := map (\<lambda>n. if dn_state n = NodeState_RUNNING then n\<lparr>dn_state := st\<rparr> else n) (dg_nodes d)\<rparr>"

section \<open>Creating and reading\<close>

definition plan_views :: "Plan \<Rightarrow> NodeView list" where
  "plan_views p = map (\<lambda>(i, n). \<lparr>nv_key = pn_key n, nv_ordinal = int i, nv_state = NodeState_PENDING,
     nv_depends_on = pn_depends_on n, nv_required = pn_required n\<rparr>) (enumerate 0 (plan_nodes p))"

text \<open>The rungs of the nodes with an agent, by key.\<close>

definition check_rungs :: "Plan \<Rightarrow> (pystr \<times> pyval) list \<Rightarrow> dag_error + (pystr \<times> int) list" where
  "check_rungs p rungs =
     rbind (each (\<lambda>n.
        if (pn_agent n = None) \<noteq> (pn_key n \<notin> fst ` set rungs) then Inl (Dag_argument ''start_rungs'')
        else (case map_of rungs (pn_key n) of
                None \<Rightarrow> Inr []
              | Some v \<Rightarrow> rbind (dag_check_int ''start_rungs'' v 0 (int MAX_LADDER_LENGTH - 1)) (\<lambda>i. Inr [(pn_key n, i)])))
        (plan_nodes p)) (\<lambda>found.
     if length rungs \<noteq> length (filter (\<lambda>n. pn_agent n \<noteq> None) (plan_nodes p)) then Inl (Dag_argument ''start_rungs'')
     else Inr (concat found))"

definition new_node :: "(pystr \<rightharpoonup> NodeState) \<Rightarrow> (pystr \<times> int) list \<Rightarrow> nat \<times> PlanNode \<Rightarrow> DagNode" where
  "new_node initial rungs x =
     (case x of (i, n) \<Rightarrow>
        \<lparr>dn_plan = n, dn_ordinal = int i, dn_state = (case initial (pn_key n) of Some st \<Rightarrow> st | None \<Rightarrow> NodeState_PENDING),
         dn_agent_index = (case map_of rungs (pn_key n) of Some r \<Rightarrow> r | None \<Rightarrow> 0), dn_approach = 0,
         dn_attempt_count = 0, dn_rung_attempts = 0, dn_result = None, dn_error_class = None\<rparr>)"

definition new_dag ::
  "(64 word \<Rightarrow> pystr) \<Rightarrow> uuid \<Rightarrow> int \<Rightarrow> Plan \<Rightarrow> TaskRun option \<Rightarrow> (pystr \<rightharpoonup> NodeState) \<Rightarrow> (pystr \<times> int) list \<Rightarrow> DagRow" where
  "new_dag frepr tid att p run initial rungs =
     \<lparr>dg_task_id = tid, dg_attempt = att, dg_retry_count = (case run of None \<Rightarrow> 0 | Some r \<Rightarrow> run_retry_count r),
      dg_state = DagState_ACTIVE, dg_epoch = 0, dg_owner = None, dg_node_count = length (plan_nodes p),
      dg_plan_bytes = plan_bytes frepr (plan_nodes p), dg_nodes = map (new_node initial rungs) (enumerate 0 (plan_nodes p)),
      dg_edges = Plan_edges p, dg_attempts = []\<rparr>"

definition dag_get :: "uuid \<Rightarrow> int \<Rightarrow> dag_db \<Rightarrow> DagRow option" where
  "dag_get tid att s = find (\<lambda>d. dg_task_id d = tid \<and> dg_attempt d = att) (map snd (db_dags s))"

definition check_run_arg :: "int \<Rightarrow> TaskRun arg option \<Rightarrow> dag_error + TaskRun option" where
  "check_run_arg att run =
     (case run of None \<Rightarrow> Inr None
      | Some (Inst r) \<Rightarrow> if run_attempt r \<noteq> att then Inl (Dag_argument ''run'') else Inr (Some r)
      | Some Other \<Rightarrow> Inl (Dag_argument ''run''))"

definition dag_create ::
  "(64 word \<Rightarrow> pystr) \<Rightarrow> uuid \<Rightarrow> pyval \<Rightarrow> pyval \<Rightarrow> Plan arg \<Rightarrow> TaskRun arg option \<Rightarrow> (pystr \<times> pyval) list arg \<Rightarrow> dag_db
    \<Rightarrow> dag_error + dag_db" where
  "dag_create frepr fresh task attempt plan run_arg rungs_arg s =
     rbind (dag_check_uuid ''task_id'' task) (\<lambda>tid.
     rbind (dag_check_int ''attempt'' attempt 1 MAX_INT32) (\<lambda>att.
     rbind (case plan of Inst p \<Rightarrow> Inr p | Other \<Rightarrow> Inl (Dag_argument ''plan'')) (\<lambda>p.
     rbind (check_run_arg att run_arg) (\<lambda>run.
     rbind (case rungs_arg of Inst m \<Rightarrow> Inr m | Other \<Rightarrow> Inl (Dag_argument ''start_rungs'')) (\<lambda>m.
     rbind (check_rungs p m) (\<lambda>rungs.
     case settle_states (plan_views p) of
       None \<Rightarrow> Inl Dag_KeyError
     | Some initial \<Rightarrow>
         rbind (case run of None \<Rightarrow> Inr () | Some r \<Rightarrow> dag_require_run tid r s) (\<lambda>_.
         if db_tasks s tid = None then Inl Dag_TaskNotFoundError
         else if dag_get tid att s \<noteq> None then Inl DagAlreadyExistsError
         else if fresh \<in> fst ` set (db_dags s) then Inl Dag_IntegrityError
         else Inr (put_dag fresh (new_dag frepr tid att p run initial rungs) s))))))))"

definition dag_get_by_id :: "uuid \<Rightarrow> dag_db \<Rightarrow> dag_error + DagRow" where
  "dag_get_by_id dag_id s = (case map_of (db_dags s) dag_id of None \<Rightarrow> Inl DagNotFoundError | Some d \<Rightarrow> Inr d)"

definition dag_attempts :: "uuid \<Rightarrow> pystr option \<Rightarrow> dag_db \<Rightarrow> DagAttempt list" where
  "dag_attempts dag_id k s =
     (case map_of (db_dags s) dag_id of
        None \<Rightarrow> []
      | Some d \<Rightarrow> filter (\<lambda>a. case k of None \<Rightarrow> True | Some x \<Rightarrow> at_node_key a = x) (dg_attempts d))"

section \<open>Taking a DAG over\<close>

definition REOPENED_STATES :: "NodeState set" where
  "REOPENED_STATES = {NodeState_FAILED, NodeState_BLOCKED}"

definition reopen :: "int \<Rightarrow> DagRow \<Rightarrow> DagRow" where
  "reopen retry_count d =
     (if retry_count > dg_retry_count d
      then d\<lparr>dg_retry_count := retry_count,
             dg_state := (if dg_state d = DagState_FAILED then DagState_ACTIVE else dg_state d),
             dg_nodes := map (\<lambda>n. if dn_state n \<in> REOPENED_STATES
               then n\<lparr>dn_state := NodeState_PENDING, dn_rung_attempts := 0, dn_error_class := None\<rparr> else n) (dg_nodes d)\<rparr>
      else d)"

definition dag_acquire :: "pyval \<Rightarrow> pyval \<Rightarrow> TaskRun arg \<Rightarrow> dag_db \<Rightarrow> dag_error + dag_db" where
  "dag_acquire dag_id owner run s =
     rbind (dag_check_uuid ''dag_id'' dag_id) (\<lambda>i.
     rbind (dag_check_worker_id ''owner'' owner) (\<lambda>w.
     rbind (case run of Inst r \<Rightarrow> Inr r | Other \<Rightarrow> Inl (Dag_argument ''run'')) (\<lambda>r.
     rbind (open_dag i None False False False s) (\<lambda>d.
     if run_attempt r \<noteq> dg_attempt d \<or> dg_state d = DagState_CANCELLED then Inl DagStateError
     else if dg_epoch d + 1 > MAX_INT32 then Inl Dag_NumericValueOutOfRange
     else
       rbind (dag_settle (interrupt_running NodeState_READY
           (reopen (run_retry_count r) (d\<lparr>dg_epoch := dg_epoch d + 1, dg_owner := Some w\<rparr>)))) (\<lambda>d'.
       Inr (put_dag i d' s))))))"

section \<open>The writes of the owner\<close>

definition dag_start_row :: "int \<Rightarrow> DagNode \<Rightarrow> DagRow \<Rightarrow> DagRow" where
  "dag_start_row epoch n d =
     (upd_node (dn_key n) (\<lambda>m. m\<lparr>dn_state := NodeState_RUNNING, dn_attempt_count := dn_attempt_count m + 1,
        dn_rung_attempts := dn_rung_attempts m + 1\<rparr>) d)
     \<lparr>dg_attempts := dg_attempts d @ [\<lparr>at_node_key = dn_key n, at_number = dn_attempt_count n + 1,
        at_agent_index = dn_agent_index n, at_approach = dn_approach n, at_epoch = epoch, at_state = AttemptState_RUNNING,
        at_error_class = None, at_signature = None, at_placement = None\<rparr>]\<rparr>"

text \<open>The result is the number of the attempt that was started.\<close>

definition dag_start_node ::
  "pyval \<Rightarrow> pyval \<Rightarrow> pyval \<Rightarrow> pyval \<Rightarrow> dag_db \<Rightarrow> dag_error + int \<times> dag_db" where
  "dag_start_node dag_id epoch key max_attempts s =
     rbind (dag_check_uuid ''dag_id'' dag_id) (\<lambda>i.
     rbind (check_epoch epoch) (\<lambda>e.
     rbind (dag_check_label ''key'' key 32) (\<lambda>k.
     rbind (dag_check_int ''max_attempts'' max_attempts 1 MAX_ATTEMPTS_PER_RUNG) (\<lambda>limit.
     rbind (open_dag i (Some e) True True True s) (\<lambda>d.
     case dag_node d k of
       None \<Rightarrow> Inl NodeStateError
     | Some n \<Rightarrow>
         if dn_state n \<noteq> NodeState_READY \<or> dn_rung_attempts n \<ge> limit then Inl NodeStateError
         else if dn_attempt_count n + 1 > MAX_INT32 then Inl Dag_NumericValueOutOfRange
         else Inr (dn_attempt_count n + 1, put_dag i (dag_start_row e n d) s))))))"

definition dag_complete_node ::
  "pyval \<Rightarrow> pyval \<Rightarrow> pyval \<Rightarrow> pyval \<Rightarrow> json arg \<Rightarrow> dag_db \<Rightarrow> dag_error + dag_db" where
  "dag_complete_node dag_id epoch key attempt_number result s =
     rbind (dag_check_uuid ''dag_id'' dag_id) (\<lambda>i.
     rbind (check_epoch epoch) (\<lambda>e.
     rbind (dag_check_label ''key'' key 32) (\<lambda>k.
     rbind (dag_check_number attempt_number) (\<lambda>number.
     rbind (case result of Inst r \<Rightarrow> Inr r | Other \<Rightarrow> Inl (Dag_argument ''result'')) (\<lambda>r.
     rbind (open_dag i (Some e) True True False s) (\<lambda>d.
     rbind (running_node d k number) (\<lambda>_.
     rbind (close_attempt k number AttemptState_SUCCEEDED None None
         (upd_node k (\<lambda>n. n\<lparr>dn_state := NodeState_SUCCEEDED, dn_result := Some r, dn_error_class := None\<rparr>) d)) (\<lambda>d1.
     rbind (dag_settle d1) (\<lambda>d2. Inr (put_dag i d2 s))))))))))"

definition check_step ::
  "NextStep \<Rightarrow> pyval \<Rightarrow> pyval \<Rightarrow> dag_error + (int \<times> int) option" where
  "check_step step agent_index approach =
     (if step = ALTERNATIVE \<or> step = ESCALATE
      then rbind (dag_check_int ''agent_index'' agent_index 0 (int MAX_LADDER_LENGTH - 1)) (\<lambda>a.
           rbind (dag_check_int ''approach'' approach 0 MAX_APPROACH) (\<lambda>b. Inr (Some (a, b))))
      else if agent_index \<noteq> PyNone then Inl (Dag_argument ''agent_index'')
      else if approach \<noteq> PyNone then Inl (Dag_argument ''approach'')
      else Inr None)"

text \<open>The node after a failed attempt.\<close>

definition failed_row :: "NextStep \<Rightarrow> (int \<times> int) option \<Rightarrow> pystr \<Rightarrow> DagNode \<Rightarrow> dag_error + DagNode" where
  "failed_row step args error_class n =
     rbind (case args of
              None \<Rightarrow> Inr n
            | Some (a, b) \<Rightarrow>
                if step = ALTERNATIVE
                then if a \<noteq> dn_agent_index n \<or> b \<le> dn_approach n then Inl NodeStateError
                     else Inr (n\<lparr>dn_approach := b\<rparr>)
                else if a \<le> dn_agent_index n \<or> b \<le> dn_approach n then Inl NodeStateError
                     else Inr (n\<lparr>dn_agent_index := a, dn_approach := b, dn_rung_attempts := 0\<rparr>)) (\<lambda>m.
     Inr (m\<lparr>dn_error_class := Some error_class,
            dn_state := (if step = GIVE_UP then NodeState_FAILED else NodeState_READY)\<rparr>))"

definition OUT_OF_MEMORY_CLASSES :: "pystr set" where
  "OUT_OF_MEMORY_CLASSES = {cp ''AgentOutOfMemory'', cp ''MemoryError''}"

definition dag_fail_node ::
  "pyval \<Rightarrow> pyval \<Rightarrow> pyval \<Rightarrow> pyval \<Rightarrow> pyval \<Rightarrow> pyval \<Rightarrow> NextStep arg \<Rightarrow> pyval \<Rightarrow> pyval \<Rightarrow> dag_db \<Rightarrow> dag_error + dag_db" where
  "dag_fail_node dag_id epoch key attempt_number error_class signature step agent_index approach s =
     rbind (dag_check_uuid ''dag_id'' dag_id) (\<lambda>i.
     rbind (check_epoch epoch) (\<lambda>e.
     rbind (dag_check_label ''key'' key 32) (\<lambda>k.
     rbind (dag_check_number attempt_number) (\<lambda>number.
     rbind (dag_check_label ''error_class'' error_class DAG_ERROR_CLASS_CHARS) (\<lambda>ec.
     rbind (dag_check_signature signature) (\<lambda>sig.
     rbind (case step of Inst st \<Rightarrow> Inr st | Other \<Rightarrow> Inl (Dag_argument ''step'')) (\<lambda>st.
     rbind (check_step st agent_index approach) (\<lambda>args.
     rbind (open_dag i (Some e) True True False s) (\<lambda>d.
     rbind (running_node d k number) (\<lambda>n.
     rbind (failed_row st args ec n) (\<lambda>m.
     rbind (close_attempt k number AttemptState_FAILED (Some ec) (Some sig) (upd_node k (\<lambda>_. m) d)) (\<lambda>d1.
     rbind (dag_settle d1) (\<lambda>d2.
     Inr ((put_dag i d2 s)\<lparr>db_incidents := db_incidents s
          @ (if ec \<in> OUT_OF_MEMORY_CLASSES then [(OUT_OF_MEMORY, dg_task_id d)] else [])
          @ (if st = ESCALATE then [(ESCALATION, dg_task_id d)] else [])\<rparr>))))))))))))))"

definition dag_record_incident :: "IncidentKind arg \<Rightarrow> pyval \<Rightarrow> dag_db \<Rightarrow> dag_error + dag_db" where
  "dag_record_incident kind task s =
     rbind (case kind of Inst k \<Rightarrow> Inr k | Other \<Rightarrow> Inl (Dag_argument ''kind'')) (\<lambda>k.
     rbind (dag_check_uuid ''task_id'' task) (\<lambda>t.
     if db_tasks s t = None then Inl Dag_IntegrityError
     else Inr (s\<lparr>db_incidents := db_incidents s @ [(k, t)]\<rparr>)))"

definition dag_give_up_node :: "pyval \<Rightarrow> pyval \<Rightarrow> pyval \<Rightarrow> pyval \<Rightarrow> dag_db \<Rightarrow> dag_error + dag_db" where
  "dag_give_up_node dag_id epoch key error_class s =
     rbind (dag_check_uuid ''dag_id'' dag_id) (\<lambda>i.
     rbind (check_epoch epoch) (\<lambda>e.
     rbind (dag_check_label ''key'' key 32) (\<lambda>k.
     rbind (dag_check_label ''error_class'' error_class DAG_ERROR_CLASS_CHARS) (\<lambda>ec.
     rbind (open_dag i (Some e) True True False s) (\<lambda>d.
     case dag_node d k of
       None \<Rightarrow> Inl NodeStateError
     | Some n \<Rightarrow>
         if dn_state n \<noteq> NodeState_READY then Inl NodeStateError
         else
           rbind (dag_settle (upd_node k (\<lambda>m. m\<lparr>dn_state := NodeState_FAILED, dn_error_class := Some ec\<rparr>) d)) (\<lambda>d1.
           Inr (put_dag i d1 s)))))))"

definition dag_interrupt :: "pyval \<Rightarrow> pyval \<Rightarrow> dag_db \<Rightarrow> dag_error + dag_db" where
  "dag_interrupt dag_id epoch s =
     rbind (dag_check_uuid ''dag_id'' dag_id) (\<lambda>i.
     rbind (check_epoch epoch) (\<lambda>e.
     rbind (open_dag i (Some e) False False False s) (\<lambda>d.
     rbind (dag_settle (interrupt_running NodeState_READY d)) (\<lambda>d1. Inr (put_dag i d1 s)))))"

definition dag_cancel_row :: "DagRow \<Rightarrow> DagRow" where
  "dag_cancel_row d =
     (let d1 = interrupt_running NodeState_CANCELLED d in
      d1\<lparr>dg_nodes := map (\<lambda>n. if dn_state n \<in> {NodeState_PENDING, NodeState_READY, NodeState_BLOCKED}
           then n\<lparr>dn_state := NodeState_CANCELLED\<rparr> else n) (dg_nodes d1),
         dg_state := DagState_CANCELLED\<rparr>)"

definition dag_cancel :: "pyval \<Rightarrow> pyval \<Rightarrow> dag_db \<Rightarrow> dag_error + dag_db" where
  "dag_cancel dag_id epoch s =
     rbind (dag_check_uuid ''dag_id'' dag_id) (\<lambda>i.
     rbind (check_epoch epoch) (\<lambda>e.
     rbind (open_dag i (Some e) False False False s) (\<lambda>d.
     if dg_state d \<noteq> DagState_ACTIVE then Inr s else Inr (put_dag i (dag_cancel_row d) s))))"

definition dag_finalize :: "pyval \<Rightarrow> pyval \<Rightarrow> dag_db \<Rightarrow> dag_error + dag_db" where
  "dag_finalize dag_id epoch s =
     rbind (dag_check_uuid ''dag_id'' dag_id) (\<lambda>i.
     rbind (check_epoch epoch) (\<lambda>e.
     rbind (open_dag i (Some e) True True False s) (\<lambda>d.
     case dag_verdict (dag_views d) of
       DagVerdict_ACTIVE \<Rightarrow> Inl DagStateError
     | DagVerdict_SUCCEEDED \<Rightarrow> Inr (put_dag i (d\<lparr>dg_state := DagState_SUCCEEDED\<rparr>) s)
     | DagVerdict_FAILED \<Rightarrow> Inr (put_dag i (d\<lparr>dg_state := DagState_FAILED\<rparr>) s))))"

section \<open>Placements\<close>

definition fingerprint_ok :: "pystr \<Rightarrow> bool" where
  "fingerprint_ok s \<longleftrightarrow> length s = 71 \<and> take 7 s = cp ''sha256:'' \<and> list_all is_hex_lower (drop 7 s)"

definition CloudSend_init :: "pyval \<Rightarrow> pyval \<Rightarrow> pyval \<Rightarrow> instant arg \<Rightarrow> dag_error + CloudSend" where
  "CloudSend_init fingerprint bytes agent at_time =
     rbind (case fingerprint of PyStr s \<Rightarrow> if fingerprint_ok s then Inr s else Inl (Dag_argument ''content_fingerprint'')
            | _ \<Rightarrow> Inl (Dag_argument ''content_fingerprint'')) (\<lambda>f.
     rbind (dag_check_int ''content_bytes'' bytes 0 (2 ^ 31 - 1)) (\<lambda>n.
     rbind (dag_check_uuid ''agent_id'' agent) (\<lambda>a.
     rbind (case at_time of Inst t \<Rightarrow> Inr t | Other \<Rightarrow> Inl (Dag_argument ''occurred_at'')) (\<lambda>t.
     Inr \<lparr>content_fingerprint = f, content_bytes = n, send_agent_id = a, send_occurred_at = t\<rparr>))))"

definition cloud_send_event ::
  "CloudSend \<Rightarrow> uuid \<Rightarrow> uuid \<Rightarrow> uuid option \<Rightarrow> uuid option \<Rightarrow> string \<Rightarrow> dag_error + AuditEvent" where
  "cloud_send_event send eid tid project delegator why =
     (if why \<notin> {''cloud_placement'', ''cloud_planning''} then Inl (Dag_argument ''reason'')
      else
        Inr \<lparr>event_id = eid, correlation_id = eid, occurred_at = send_occurred_at send, actor_id = delegator,
          actor_role = Some (SystemRole_value SystemRole_SYSTEM), e_agent_id = Some (send_agent_id send),
          action = ''orchestrator.cloud_send'', resource_kind = cp ''task'', resource_id = Some tid,
          e_project_id = project, e_repo_id = None, e_repo_acl = None, e_decision = ''allow'', e_reason = why,
          old_role = None, new_role = None, client_request_id = None\<rparr>)"

definition placed_row :: "pystr \<Rightarrow> int \<Rightarrow> PlacementRecord \<Rightarrow> DagRow \<Rightarrow> DagRow" where
  "placed_row k number p d =
     d\<lparr>dg_attempts := map (\<lambda>x. if is_running_attempt k number x then x\<lparr>at_placement := Some p\<rparr> else x) (dg_attempts d)\<rparr>"

text \<open>\<open>check\<close> is the answer of the deployment policy (\<open>None\<close>: the store has no check).\<close>

definition dag_record_placement ::
  "bool option \<Rightarrow> uuid \<Rightarrow> pyval \<Rightarrow> pyval \<Rightarrow> pyval \<Rightarrow> pyval \<Rightarrow> ExecutionPlacement arg \<Rightarrow> pyval \<Rightarrow> pyval \<Rightarrow> CloudSend arg option
    \<Rightarrow> dag_db \<Rightarrow> dag_error + dag_db" where
  "dag_record_placement check audit_id dag_id epoch key attempt_number placement agent model cloud s =
     rbind (dag_check_uuid ''dag_id'' dag_id) (\<lambda>i.
     rbind (check_epoch epoch) (\<lambda>e.
     rbind (dag_check_label ''key'' key 32) (\<lambda>k.
     rbind (dag_check_number attempt_number) (\<lambda>number.
     rbind (case placement of Inst p \<Rightarrow> Inr p | Other \<Rightarrow> Inl (Dag_argument ''placement'')) (\<lambda>p.
     rbind (dag_check_agent agent) (\<lambda>ag.
     rbind (check_model model) (\<lambda>mo.
     if (p = Exec_CLOUD) \<noteq> (cloud \<noteq> None) then Inl (Dag_argument ''cloud'')
     else
       rbind (case cloud of None \<Rightarrow> Inr None | Some (Inst c) \<Rightarrow> Inr (Some c) | Some Other \<Rightarrow> Inl (Dag_argument ''cloud'')) (\<lambda>send.
       rbind (open_dag i (Some e) True True False s) (\<lambda>d.
       rbind (running_node d k number) (\<lambda>_.
       case find (is_running_attempt k number) (dg_attempts d) of
         None \<Rightarrow> Inl StaleNodeAttemptError
       | Some a \<Rightarrow>
           if at_placement a \<noteq> None then Inl (Dag_argument ''placement'')
           else
             let placed = (\<lambda>c. put_dag i (placed_row k number
                   \<lparr>pl_placement = p, pl_agent = ag, pl_model = mo, pl_cloud = c\<rparr> d) s)
             in case send of
                  None \<Rightarrow> Inr (placed None)
                | Some c \<Rightarrow>
                    if (case check of None \<Rightarrow> False | Some b \<Rightarrow> \<not> b) then Inl CloudSendRefusedError
                    else
                      (case db_tasks s (dg_task_id d) of
                         None \<Rightarrow> Inl Dag_IntegrityError
                       | Some t \<Rightarrow>
                           rbind (cloud_send_event c audit_id (dg_task_id d) (Some (t_project_id t)) (Some (t_created_by t))
                               ''cloud_placement'') (\<lambda>event.
                           Inr ((placed (Some (content_fingerprint c, content_bytes c, audit_id)))
                             \<lparr>db_audit := db_audit s @ [event]\<rparr>)))))))))))))"

end
