(* ===== verification/Dag_Scheduling_Facts.thy ===== *)
theory Dag_Scheduling_Facts
  imports Dag_Scheduling
begin

text \<open>
  Facts of the scheduling rules: a pass settles the states for good, a DAG that is settled is never
  stuck, what blocks a node and what a failure reaches.
\<close>

section \<open>Reached nodes\<close>

lemma dependents_from_spec:
  assumes "views_from seen ns" and "found \<subseteq> set seen"
  shows "found \<subseteq> dependents_from k found ns \<and> dependents_from k found ns \<inter> set seen = found
    \<and> dependents_from k found ns \<subseteq> set seen \<union> nv_key ` set ns
    \<and> (\<forall>n \<in> set ns. nv_key n \<in> dependents_from k found ns \<longleftrightarrow>
         k \<in> set (nv_depends_on n) \<or> dependents_from k found ns \<inter> set (nv_depends_on n) \<noteq> {})"
  using assms
proof (induction ns arbitrary: seen found)
  case (Cons n ns)
  define F where "F = (if k \<in> set (nv_depends_on n) \<or> found \<inter> set (nv_depends_on n) \<noteq> {} then insert (nv_key n) found else found)"
  let ?T = "dependents_from k F ns"
  have v: "views_from (seen @ [nv_key n]) ns" "nv_key n \<notin> set seen" "set (nv_depends_on n) \<subseteq> set seen" using Cons.prems by auto
  have F: "F \<subseteq> set (seen @ [nv_key n])" "F \<inter> set seen = found" "found \<subseteq> F"
    "nv_key n \<in> F \<longleftrightarrow> k \<in> set (nv_depends_on n) \<or> found \<inter> set (nv_depends_on n) \<noteq> {}"
    using Cons.prems(2) v(2) by (auto simp: F_def)
  note IH = Cons.IH [OF v(1) F(1)]
  have T: "dependents_from k found (n # ns) = ?T" by (simp add: F_def)
  have keep: "?T \<inter> set (seen @ [nv_key n]) = F" using IH by blast
  then have old: "?T \<inter> set seen = found" "nv_key n \<in> ?T \<longleftrightarrow> nv_key n \<in> F" using F(2) by auto
  then have "?T \<inter> set (nv_depends_on n) = found \<inter> set (nv_depends_on n)" using v(3) by blast
  then have new: "nv_key n \<in> ?T \<longleftrightarrow> k \<in> set (nv_depends_on n) \<or> ?T \<inter> set (nv_depends_on n) \<noteq> {}"
    using old(2) F(4) by simp
  have "found \<subseteq> ?T" "?T \<subseteq> set seen \<union> nv_key ` set (n # ns)" using IH F(3) by auto
  moreover have "\<forall>v \<in> set (n # ns). nv_key v \<in> ?T \<longleftrightarrow> k \<in> set (nv_depends_on v) \<or> ?T \<inter> set (nv_depends_on v) \<noteq> {}"
    using IH new by simp
  ultimately show ?case unfolding T using old(1) by blast
qed auto

lemma view_deps_cases:
  assumes "views_ok ns" and "n \<in> set ns" and "(d, nv_key n) \<in> view_deps ns"
  shows "d \<in> set (nv_depends_on n)"
proof -
  from assms(3) obtain v where v: "v \<in> set ns" "nv_key v = nv_key n" "d \<in> set (nv_depends_on v)" by (auto simp: view_deps_def)
  moreover have "distinct (map nv_key ns)" using views_keys [OF assms(1)] by simp
  ultimately have "v = n" using assms(2) by (auto simp: distinct_map dest: inj_onD)
  with v(3) show ?thesis by simp
qed

lemma transitive_dependents_trancl:
  assumes "views_ok ns"
  shows "transitive_dependents ns k = {x. (k, x) \<in> (view_deps ns)\<^sup>+}"
proof -
  let ?T = "transitive_dependents ns k"
  have spec: "\<forall>n \<in> set ns. nv_key n \<in> ?T \<longleftrightarrow> k \<in> set (nv_depends_on n) \<or> ?T \<inter> set (nv_depends_on n) \<noteq> {}"
    and sub: "?T \<subseteq> nv_key ` set ns"
    using dependents_from_spec [OF assms, of "{}" k] by (auto simp: transitive_dependents_def)
  have "x \<in> ?T" if "(k, x) \<in> (view_deps ns)\<^sup>+" for x
    using that
  proof (induction rule: trancl_induct)
    case (base y)
    then show ?case using spec by (auto simp: view_deps_def)
  next
    case (step y z)
    then obtain n where n: "n \<in> set ns" "nv_key n = z" "y \<in> set (nv_depends_on n)" by (auto simp: view_deps_def)
    then have "?T \<inter> set (nv_depends_on n) \<noteq> {}" using step.IH by blast
    then show ?case using spec n by blast
  qed
  moreover have up: "\<forall>n \<in> set xs. nv_key n \<in> ?T \<longrightarrow> (k, nv_key n) \<in> (view_deps ns)\<^sup>+" if "ns = xs @ ys" for xs ys
    using that
  proof (induction xs arbitrary: ys rule: rev_induct)
    case (snoc x xs)
    have IH: "\<forall>n \<in> set xs. nv_key n \<in> ?T \<longrightarrow> (k, nv_key n) \<in> (view_deps ns)\<^sup>+" using snoc.IH [of "x # ys"] snoc.prems by simp
    have edge: "(d, nv_key x) \<in> view_deps ns" if "d \<in> set (nv_depends_on x)" for d
      using that snoc.prems by (auto simp: view_deps_def)
    have "(k, nv_key x) \<in> (view_deps ns)\<^sup>+" if x: "nv_key x \<in> ?T"
    proof (cases "k \<in> set (nv_depends_on x)")
      case False
      then obtain d where d: "d \<in> ?T" "d \<in> set (nv_depends_on x)" using spec x snoc.prems by auto
      then obtain v where "v \<in> set xs" "nv_key v = d" using views_dep [of xs x ys d] assms snoc.prems by auto
      with IH d show ?thesis using edge [OF d(2)] by (auto intro: trancl_into_trancl)
    qed (auto intro: edge)
    with IH show ?case by simp
  qed simp
  have "(k, x) \<in> (view_deps ns)\<^sup>+" if "x \<in> ?T" for x
    using that sub up [of ns "[]"] by auto
  ultimately show ?thesis by blast
qed

section \<open>Settled states\<close>

definition with_states :: "(pystr \<Rightarrow> NodeState) \<Rightarrow> NodeView list \<Rightarrow> NodeView list" where
  "with_states m ns = map (\<lambda>n. n\<lparr>nv_state := m (nv_key n)\<rparr>) ns"

lemma with_states_views: "views_from seen (with_states m ns) = views_from seen ns"
  by (induction ns arbitrary: seen) (auto simp: with_states_def)

lemma with_states_deps: "view_deps (with_states m ns) = view_deps ns"
proof -
  have "view_deps xs = (\<Union>n \<in> set xs. (\<lambda>d. (d, nv_key n)) ` set (nv_depends_on n))" for xs by (auto simp: view_deps_def)
  then show ?thesis by (simp add: with_states_def)
qed

definition settled_views :: "NodeView list \<Rightarrow> bool" where
  "settled_views ns \<longleftrightarrow> (\<forall>n \<in> set ns. nv_state n = settled ns (nv_key n))"

lemma settle_idem:
  assumes "views_ok ns"
  shows "settled_views (with_states (settled ns) ns)"
proof -
  let ?ns = "with_states (settled ns) ns"
  have ok: "views_ok ?ns" using assms by (simp add: with_states_views)
  have "settled ns (nv_key v) = settle_node (settled ns) v" if v: "v \<in> set ?ns" for v
  proof -
    from v obtain n where n: "n \<in> set ns" "v = n\<lparr>nv_state := settled ns (nv_key n)\<rparr>" by (auto simp: with_states_def)
    have eq: "settled ns (nv_key n) = settle_node (settled ns) n" using settled_eq [OF assms n(1)] .
    have "settled_state xs \<in> OPEN_STATES" for xs by (simp add: settled_state_def OPEN_STATES_def)
    with n eq show ?thesis by (auto simp: settle_node_def)
  qed
  then have "settled ns (nv_key v) = settled ?ns (nv_key v)" if "v \<in> set ?ns" for v
    using settled_unique [OF ok, of "settled ns" v] that by blast
  moreover have "nv_state v = settled ns (nv_key v)" if "v \<in> set ?ns" for v using that by (auto simp: with_states_def)
  ultimately show ?thesis by (simp add: settled_views_def)
qed

lemma settled_views_node:
  assumes "views_ok ns" and "settled_views ns" and "n \<in> set ns"
  shows "nv_state n = settle_node (settled ns) n"
  using assms settled_eq by (auto simp: settled_views_def)

lemma settled_pending:
  assumes "settled_state (map f ds) = NodeState_PENDING"
  shows "\<exists>d \<in> set ds. f d \<notin> UNSATISFIABLE_NODE_STATES \<and> f d \<noteq> NodeState_SUCCEEDED"
proof -
  have "\<not> list_ex (\<lambda>s. s \<in> UNSATISFIABLE_NODE_STATES) (map f ds)" "\<not> list_all (\<lambda>s. s = NodeState_SUCCEEDED) (map f ds)"
    using assms by (auto simp: settled_state_def split: if_splits)
  then show ?thesis by (auto simp: list_ex_iff list_all_iff)
qed

lemma not_stuck:
  assumes "views_ok ns" and "settled_views ns" and "n \<in> set ns" and "nv_state n = NodeState_PENDING"
  shows "\<exists>v \<in> set ns. nv_state v \<in> {NodeState_READY, NodeState_RUNNING}"
proof (rule ccontr)
  assume none: "\<not> ?thesis"
  have "\<forall>n \<in> set xs. nv_state n \<noteq> NodeState_PENDING" if "ns = xs @ ys" for xs ys
    using that
  proof (induction xs arbitrary: ys rule: rev_induct)
    case (snoc x xs)
    have IH: "\<forall>n \<in> set xs. nv_state n \<noteq> NodeState_PENDING" using snoc.IH [of "x # ys"] snoc.prems by simp
    have x: "x \<in> set ns" using snoc.prems by simp
    have "nv_state x \<noteq> NodeState_PENDING"
    proof
      assume p: "nv_state x = NodeState_PENDING"
      have "settle_node (settled ns) x = NodeState_PENDING" using settled_views_node [OF assms(1,2) x] p by (rule subst)
      then have "settled_state (map (settled ns) (nv_depends_on x)) = NodeState_PENDING"
        by (simp add: settle_node_def OPEN_STATES_def p)
      then obtain d where d: "d \<in> set (nv_depends_on x)" "settled ns d \<notin> UNSATISFIABLE_NODE_STATES" "settled ns d \<noteq> NodeState_SUCCEEDED"
        using settled_pending by blast
      obtain v where v: "v \<in> set xs" "nv_key v = d" using views_dep [of xs x ys d] d(1) assms(1) snoc.prems by auto
      then have "v \<in> set ns" "nv_state v = settled ns d" using assms(2) snoc.prems by (auto simp: settled_views_def)
      then have "nv_state v \<in> {NodeState_READY, NodeState_RUNNING}" using d IH v
        by (cases "nv_state v") (auto simp: UNSATISFIABLE_NODE_STATES_def)
      with none \<open>v \<in> set ns\<close> show False by blast
    qed
    with IH show ?case by simp
  qed simp
  from this [of ns "[]"] assms(3,4) show False by simp
qed

section \<open>What blocks a node\<close>

text \<open>Dependencies of nodes whose state the effects may change.\<close>

definition open_deps :: "NodeView list \<Rightarrow> (pystr \<times> pystr) set" where
  "open_deps ns = {(d, nv_key n) | d n. n \<in> set ns \<and> nv_state n \<in> OPEN_STATES \<and> d \<in> set (nv_depends_on n)}"

definition broken :: "NodeView list \<Rightarrow> pystr \<Rightarrow> bool" where
  "broken ns k \<longleftrightarrow> (\<exists>v \<in> set ns. nv_key v = k \<and> nv_state v \<in> {NodeState_FAILED, NodeState_CANCELLED})"

lemma settled_unsat:
  assumes "views_ok ns" and "n \<in> set ns"
  shows "settled ns (nv_key n) \<in> UNSATISFIABLE_NODE_STATES \<longleftrightarrow>
    nv_state n \<in> {NodeState_FAILED, NodeState_CANCELLED}
    \<or> nv_state n \<in> OPEN_STATES \<and> (\<exists>d \<in> set (nv_depends_on n). settled ns d \<in> UNSATISFIABLE_NODE_STATES)"
  unfolding settled_eq [OF assms]
  by (cases "nv_state n") (auto simp: settle_node_def OPEN_STATES_def settled_state_def UNSATISFIABLE_NODE_STATES_def list_ex_iff)

lemma unsat_iff_broken:
  assumes "views_ok ns" and "n \<in> set ns"
  shows "settled ns (nv_key n) \<in> UNSATISFIABLE_NODE_STATES \<longleftrightarrow> (\<exists>k. broken ns k \<and> (k, nv_key n) \<in> (open_deps ns)\<^sup>*)"
proof
  have "\<forall>n \<in> set xs. settled ns (nv_key n) \<in> UNSATISFIABLE_NODE_STATES
      \<longrightarrow> (\<exists>k. broken ns k \<and> (k, nv_key n) \<in> (open_deps ns)\<^sup>*)" if "ns = xs @ ys" for xs ys
    using that
  proof (induction xs arbitrary: ys rule: rev_induct)
    case (snoc x xs)
    have IH: "\<forall>n \<in> set xs. settled ns (nv_key n) \<in> UNSATISFIABLE_NODE_STATES
      \<longrightarrow> (\<exists>k. broken ns k \<and> (k, nv_key n) \<in> (open_deps ns)\<^sup>*)" using snoc.IH [of "x # ys"] snoc.prems by simp
    have x: "x \<in> set ns" using snoc.prems by simp
    have "\<exists>k. broken ns k \<and> (k, nv_key x) \<in> (open_deps ns)\<^sup>*" if u: "settled ns (nv_key x) \<in> UNSATISFIABLE_NODE_STATES"
    proof (cases "nv_state x \<in> {NodeState_FAILED, NodeState_CANCELLED}")
      case True
      then have "broken ns (nv_key x)" using x by (auto simp: broken_def)
      then show ?thesis by blast
    next
      case False
      with u settled_unsat [OF assms(1) x] obtain d where d: "d \<in> set (nv_depends_on x)" "nv_state x \<in> OPEN_STATES"
        "settled ns d \<in> UNSATISFIABLE_NODE_STATES" by blast
      obtain v where v: "v \<in> set xs" "nv_key v = d" using views_dep [of xs x ys d] d(1) assms(1) snoc.prems by auto
      with IH d(3) obtain k where "broken ns k" "(k, d) \<in> (open_deps ns)\<^sup>*" by auto
      moreover have "(d, nv_key x) \<in> open_deps ns" using x d by (auto simp: open_deps_def)
      ultimately show ?thesis by (meson rtrancl.rtrancl_into_rtrancl)
    qed
    with IH show ?case by simp
  qed simp
  from this [of ns "[]"] assms(2)
  show "settled ns (nv_key n) \<in> UNSATISFIABLE_NODE_STATES \<Longrightarrow> \<exists>k. broken ns k \<and> (k, nv_key n) \<in> (open_deps ns)\<^sup>*" by simp
next
  assume "\<exists>k. broken ns k \<and> (k, nv_key n) \<in> (open_deps ns)\<^sup>*"
  then obtain k where k: "broken ns k" "(k, nv_key n) \<in> (open_deps ns)\<^sup>*" by blast
  from k(2) show "settled ns (nv_key n) \<in> UNSATISFIABLE_NODE_STATES"
  proof (induction rule: rtrancl_induct)
    case base
    with k(1) show ?case using settled_unsat [OF assms(1)] by (auto simp: broken_def)
  next
    case (step y z)
    then obtain v where "v \<in> set ns" "nv_key v = z" "nv_state v \<in> OPEN_STATES" "y \<in> set (nv_depends_on v)"
      by (auto simp: open_deps_def)
    with step.IH settled_unsat [OF assms(1), of v] show ?case by auto
  qed
qed

section \<open>What a failure reaches\<close>

lemma isolation:
  assumes "views_ok ns" and "n \<in> set ns" and "nv_key n \<noteq> x" and "nv_key n \<notin> transitive_dependents ns x"
    and "\<And>k. k \<noteq> x \<Longrightarrow> m k = m' k"
  shows "settled (with_states m ns) (nv_key n) = settled (with_states m' ns) (nv_key n)"
proof -
  let ?A = "with_states m ns" and ?B = "with_states m' ns"
  have okA: "views_ok ?A" and okB: "views_ok ?B" using assms(1) by (simp_all add: with_states_views)
  have "\<forall>n \<in> set xs. nv_key n \<noteq> x \<and> (x, nv_key n) \<notin> (view_deps ns)\<^sup>+ \<longrightarrow> settled ?A (nv_key n) = settled ?B (nv_key n)"
    if "ns = xs @ ys" for xs ys using that
  proof (induction xs arbitrary: ys rule: rev_induct)
    case (snoc v xs)
    let ?P = "\<lambda>n. nv_key n \<noteq> x \<and> (x, nv_key n) \<notin> (view_deps ns)\<^sup>+ \<longrightarrow> settled ?A (nv_key n) = settled ?B (nv_key n)"
    have IH: "\<forall>n \<in> set xs. ?P n" using snoc.IH [of "v # ys"] snoc.prems by simp
    have v: "v \<in> set ns" using snoc.prems by simp
    have "settled ?A (nv_key v) = settled ?B (nv_key v)" if nx: "nv_key v \<noteq> x" "(x, nv_key v) \<notin> (view_deps ns)\<^sup>+"
    proof -
      have dep: "settled ?A d = settled ?B d" if d: "d \<in> set (nv_depends_on v)" for d
      proof -
        have e: "(d, nv_key v) \<in> view_deps ns" using v d by (auto simp: view_deps_def)
        then have "d \<noteq> x" "(x, d) \<notin> (view_deps ns)\<^sup>+" using nx(2) by (auto intro: trancl_into_trancl)
        moreover obtain u where "u \<in> set xs" "nv_key u = d" using views_dep [of xs v ys d] d assms(1) snoc.prems by auto
        ultimately show ?thesis using IH by auto
      qed
      let ?a = "v\<lparr>nv_state := m (nv_key v)\<rparr>" and ?b = "v\<lparr>nv_state := m' (nv_key v)\<rparr>"
      have ab: "?a \<in> set ?A" "?b \<in> set ?B" unfolding with_states_def set_map using v by (rule imageI)+
      have "?a = ?b" using assms(5) [OF nx(1)] by simp
      have "settle_node (settled ?A) ?a = settle_node (settled ?B) ?b"
        using dep \<open>?a = ?b\<close> by (auto intro!: settle_node_cong)
      then show ?thesis using settled_eq [OF okA ab(1)] settled_eq [OF okB ab(2)] by simp
    qed
    with IH show ?case by simp
  qed simp
  from this [of ns "[]"] assms(2-4) show ?thesis by (simp add: transitive_dependents_trancl [OF assms(1)])
qed

end
