(* ===== verification/Dag_Steps.thy ===== *)
theory Dag_Steps
  imports Dag_Store Dag_Scheduling_Facts Plan_Facts
begin

text \<open>
  The runs of the DAG store. A DAG row changes by the writes of its owner (\<open>owner_write\<close>) or by a
  take-over (\<open>take_over\<close>); a run of the store is any sequence of its methods, by any callers with
  any arguments, and of changes other components make to the task rows (\<open>dstep\<close>).
\<close>

section \<open>Changes of one row\<close>

inductive owner_write :: "DagRow \<Rightarrow> DagRow \<Rightarrow> bool" where
  start: "owner_write d (dag_start_row (dg_epoch d) n d)"
    if "dg_state d = DagState_ACTIVE" "1 \<le> dg_epoch d" "dag_node d k = Some n" "dn_state n = NodeState_READY"
      "dn_rung_attempts n < MAX_ATTEMPTS_PER_RUNG" "dn_attempt_count n + 1 \<le> MAX_INT32"
| complete: "owner_write d d2"
    if "dg_state d = DagState_ACTIVE" "running_node d k number = Inr n"
      "close_attempt k number AttemptState_SUCCEEDED None None
         (upd_node k (\<lambda>n. n\<lparr>dn_state := NodeState_SUCCEEDED, dn_result := Some r, dn_error_class := None\<rparr>) d) = Inr d1"
      "dag_settle d1 = Inr d2"
| fail: "owner_write d d2"
    if "dg_state d = DagState_ACTIVE" "running_node d k number = Inr n" "check_step step ai ap = Inr args"
      "failed_row step args ec n = Inr m"
      "close_attempt k number AttemptState_FAILED (Some ec) (Some sig) (upd_node k (\<lambda>_. m) d) = Inr d1"
      "dag_settle d1 = Inr d2"
| give_up: "owner_write d d1"
    if "dg_state d = DagState_ACTIVE" "dag_node d k = Some n" "dn_state n = NodeState_READY"
      "dag_settle (upd_node k (\<lambda>m. m\<lparr>dn_state := NodeState_FAILED, dn_error_class := Some ec\<rparr>) d) = Inr d1"
| interrupt: "owner_write d d1" if "dag_settle (interrupt_running NodeState_READY d) = Inr d1"
| cancel: "owner_write d (dag_cancel_row d)" if "dg_state d = DagState_ACTIVE"
| succeed: "owner_write d (d\<lparr>dg_state := DagState_SUCCEEDED\<rparr>)"
    if "dg_state d = DagState_ACTIVE" "dag_verdict (dag_views d) = DagVerdict_SUCCEEDED"
| fail_dag: "owner_write d (d\<lparr>dg_state := DagState_FAILED\<rparr>)"
    if "dg_state d = DagState_ACTIVE" "dag_verdict (dag_views d) = DagVerdict_FAILED"
| place: "owner_write d (placed_row k number p d)"
    if "dg_state d = DagState_ACTIVE" "find (is_running_attempt k number) (dg_attempts d) = Some a" "at_placement a = None"
      "(pl_placement p = Exec_CLOUD) = (pl_cloud p \<noteq> None)"

definition dag_acquired :: "pystr \<Rightarrow> int \<Rightarrow> DagRow \<Rightarrow> DagRow" where
  "dag_acquired w r d = interrupt_running NodeState_READY (reopen r (d\<lparr>dg_epoch := dg_epoch d + 1, dg_owner := Some w\<rparr>))"

inductive take_over :: "DagRow \<Rightarrow> DagRow \<Rightarrow> bool" where
  take_over: "take_over d d'"
    if "dg_state d \<noteq> DagState_CANCELLED" "dg_epoch d + 1 \<le> MAX_INT32" "dag_settle (dag_acquired w r d) = Inr d'"

section \<open>Runs of the store\<close>

text \<open>What the constructor of a plan guarantees.\<close>

definition plan_ok :: "Plan \<Rightarrow> bool" where
  "plan_ok p \<longleftrightarrow> plan_nodes p \<noteq> [] \<and> in_order [] (plan_nodes p)
     \<and> (\<forall>n \<in> set (plan_nodes p). key_ok (pn_key n) \<and> sorted (pn_depends_on n) \<and> distinct (pn_depends_on n))"

inductive dstep :: "dag_db \<Rightarrow> dag_db \<Rightarrow> bool" where
  create: "dstep s t" if "dag_create frepr fresh task att plan run rungs s = Inr t"
    "case plan of Inst p \<Rightarrow> plan_ok p | Other \<Rightarrow> True"
    "case run of Some (Inst r) \<Rightarrow> 0 \<le> run_retry_count r | _ \<Rightarrow> True"
| acquire: "dstep s t" if "dag_acquire dag owner run s = Inr t"
| start: "dstep s t" if "dag_start_node dag ep key limit s = Inr (number, t)"
| complete: "dstep s t" if "dag_complete_node dag ep key number res s = Inr t"
| fail: "dstep s t" if "dag_fail_node dag ep key number ec sig st ai ap s = Inr t"
| incident: "dstep s t" if "dag_record_incident kind task s = Inr t"
| give_up: "dstep s t" if "dag_give_up_node dag ep key ec s = Inr t"
| interrupt: "dstep s t" if "dag_interrupt dag ep s = Inr t"
| cancel: "dstep s t" if "dag_cancel dag ep s = Inr t"
| finalize: "dstep s t" if "dag_finalize dag ep s = Inr t"
| place: "dstep s t" if "dag_record_placement chk aid dag ep key number pl agent model cloud s = Inr t"
| tasks: "dstep s (s\<lparr>db_tasks := f\<rparr>)"

abbreviation dag_of :: "dag_db \<Rightarrow> uuid \<Rightarrow> DagRow option" where
  "dag_of s \<equiv> map_of (db_dags s)"

definition empty_dags :: "dag_db \<Rightarrow> bool" where
  "empty_dags s \<longleftrightarrow> db_dags s = []"

definition dag_reachable :: "dag_db \<Rightarrow> bool" where
  "dag_reachable s \<longleftrightarrow> (\<exists>s0. empty_dags s0 \<and> dstep\<^sup>*\<^sup>* s0 s)"

section \<open>The methods are changes of one row\<close>

lemma case_option_Inr [result_simps]:
  "(case x of None \<Rightarrow> Inl e | Some y \<Rightarrow> f y) = Inr z \<longleftrightarrow> (\<exists>y. x = Some y \<and> f y = Inr z)"
  by (cases x) auto

lemma case_arg_Inr [result_simps]:
  "(case x of Inst y \<Rightarrow> f y | Other \<Rightarrow> Inl e) = Inr z \<longleftrightarrow> (\<exists>y. x = Inst y \<and> f y = Inr z)"
  by (cases x) auto

lemma if_Inl_Inr [result_simps]: "(if b then Inl e else f) = Inr z \<longleftrightarrow> \<not> b \<and> f = Inr z"
  by simp

lemma dag_check_int_Inr: "dag_check_int name v lo hi = Inr n \<longleftrightarrow> v = PyInt n \<and> lo \<le> n \<and> n \<le> hi"
  by (auto simp: dag_check_int_def split: pyval.splits if_splits)

lemma dag_check_uuid_Inr: "dag_check_uuid name v = Inr u \<longleftrightarrow> v = PyUuid u"
  by (auto simp: dag_check_uuid_def split: pyval.splits)

lemma open_dag_Inr:
  "open_dag i ep active chk running s = Inr d \<longleftrightarrow> dag_of s i = Some d \<and> (\<forall>e. ep = Some e \<longrightarrow> dg_epoch d = e)
     \<and> (active \<longrightarrow> dg_state d = DagState_ACTIVE) \<and> (chk \<longrightarrow> check_run_of running d s = Inr ())"
  by (auto simp: open_dag_def rbind_eq_Inr_iff split: option.splits if_splits)

lemma dag_of_put [simp]: "dag_of (put_dag i d s) = (dag_of s)(i \<mapsto> d)"
  by (simp add: put_dag_def update_conv')

lemmas store_Inr = rbind_eq_Inr_iff case_option_Inr case_arg_Inr if_Inl_Inr dag_check_int_Inr dag_check_uuid_Inr open_dag_Inr check_epoch_def dag_check_number_def

definition row_changes :: "(DagRow \<Rightarrow> DagRow \<Rightarrow> bool) \<Rightarrow> dag_db \<Rightarrow> dag_db \<Rightarrow> bool" where
  "row_changes R s t \<longleftrightarrow> (\<exists>i d d'. dag_of s i = Some d \<and> R d d' \<and> dag_of t = (dag_of s)(i \<mapsto> d'))"

lemma row_changesI: "dag_of s i = Some d \<Longrightarrow> dag_of t = (dag_of s)(i \<mapsto> d') \<Longrightarrow> R d d' \<Longrightarrow> row_changes R s t"
  by (auto simp: row_changes_def)

lemma put_changes: "dag_of s i = Some d \<Longrightarrow> R d d' \<Longrightarrow> row_changes R s (put_dag i d' s)"
  by (auto intro: row_changesI)

lemma row_changes_more [simp]:
  "row_changes R s (t\<lparr>db_audit := au\<rparr>) = row_changes R s t"
  "row_changes R s (t\<lparr>db_incidents := inc\<rparr>) = row_changes R s t"
  by (simp_all add: row_changes_def)

lemma start_row_changes:
  assumes "dag_start_node dag ep key limit s = Inr (number, t)"
  shows "row_changes owner_write s t"
proof -
  from assms obtain i d k n l where d: "dag_of s i = Some d" and t: "t = put_dag i (dag_start_row (dg_epoch d) n d) s"
    and n: "dg_state d = DagState_ACTIVE" "1 \<le> dg_epoch d" "dag_node d k = Some n" "dn_state n = NodeState_READY"
    and l: "dn_rung_attempts n < l" "l \<le> MAX_ATTEMPTS_PER_RUNG" "dn_attempt_count n + 1 \<le> MAX_INT32"
    by (auto simp: dag_start_node_def store_Inr not_le)
  then have "owner_write d (dag_start_row (dg_epoch d) n d)" by (auto intro: owner_write.start)
  with d t show ?thesis by (auto intro: row_changesI)
qed

lemma complete_row_changes: "dag_complete_node dag ep key number res s = Inr t \<Longrightarrow> row_changes owner_write s t"
  by (auto simp: dag_complete_node_def store_Inr intro: put_changes dest: owner_write.complete)

lemma fail_row_changes: "dag_fail_node dag ep key number ec sig st ai ap s = Inr t \<Longrightarrow> row_changes owner_write s t"
  by (auto simp: dag_fail_node_def store_Inr intro!: put_changes intro: owner_write.fail)

lemma give_up_row_changes: "dag_give_up_node dag ep key ec s = Inr t \<Longrightarrow> row_changes owner_write s t"
  by (auto simp: dag_give_up_node_def store_Inr intro: put_changes dest: owner_write.give_up)

lemma interrupt_row_changes: "dag_interrupt dag ep s = Inr t \<Longrightarrow> row_changes owner_write s t"
  by (auto simp: dag_interrupt_def store_Inr intro: put_changes dest: owner_write.interrupt)

lemma cancel_row_changes: "dag_cancel dag ep s = Inr t \<Longrightarrow> t = s \<or> row_changes owner_write s t"
  by (auto simp: dag_cancel_def store_Inr intro: put_changes dest: owner_write.cancel split: if_splits)

lemma finalize_row_changes:
  assumes "dag_finalize dag ep s = Inr t"
  shows "row_changes owner_write s t"
proof -
  from assms obtain i d where d: "dag_of s i = Some d" "dg_state d = DagState_ACTIVE"
    "(case dag_verdict (dag_views d) of DagVerdict_ACTIVE \<Rightarrow> Inl DagStateError
      | DagVerdict_SUCCEEDED \<Rightarrow> Inr (put_dag i (d\<lparr>dg_state := DagState_SUCCEEDED\<rparr>) s)
      | DagVerdict_FAILED \<Rightarrow> Inr (put_dag i (d\<lparr>dg_state := DagState_FAILED\<rparr>) s)) = Inr t"
    by (auto simp: dag_finalize_def store_Inr)
  from d(3) show ?thesis
    by (cases "dag_verdict (dag_views d)") (auto intro!: put_changes [OF d(1)] owner_write.succeed owner_write.fail_dag d(2))
qed

lemma acquire_row_changes:
  assumes "dag_acquire dag owner run s = Inr t"
  shows "row_changes take_over s t"
proof -
  from assms obtain i d d' w r where d: "dag_of s i = Some d" "t = put_dag i d' s"
    "dg_state d \<noteq> DagState_CANCELLED" "dg_epoch d + 1 \<le> MAX_INT32" "dag_settle (dag_acquired w r d) = Inr d'"
    by (auto simp: dag_acquire_def store_Inr dag_acquired_def not_less)
  from take_over.take_over [OF d(3-5)] d(1,2) show ?thesis by (auto intro: row_changesI)
qed

lemma place_row_changes:
  assumes "dag_record_placement chk aid dag ep key number pl agent model cloud s = Inr t"
  shows "row_changes owner_write s t"
proof (cases cloud)
  case None
  with assms show ?thesis
    by (auto simp: dag_record_placement_def store_Inr Let_def intro!: put_changes owner_write.place)
next
  case (Some c)
  with assms show ?thesis
    by (cases c) (auto simp: dag_record_placement_def store_Inr Let_def intro!: put_changes owner_write.place)
qed

text \<open>A created row.\<close>

definition created :: "DagRow \<Rightarrow> bool" where
  "created d \<longleftrightarrow> (\<exists>frepr tid att p run initial rungs m. plan_ok p \<and> check_rungs p m = Inr rungs
     \<and> settle_states (plan_views p) = Some initial \<and> 1 \<le> att \<and> (\<forall>r. run = Some r \<longrightarrow> 0 \<le> run_retry_count r)
     \<and> d = new_dag frepr tid att p run initial rungs)"

lemma check_run_arg_Inr: "check_run_arg att run = Inr r \<Longrightarrow> r = None \<or> (\<exists>x. run = Some (Inst x) \<and> r = Some x)"
  by (auto simp: check_run_arg_def split: option.splits arg.splits if_splits)

lemma create_InrD:
  assumes "dag_create frepr fresh task att plan run rungs s = Inr t" and "case plan of Inst p \<Rightarrow> plan_ok p | Other \<Rightarrow> True"
    and "case run of Some (Inst r) \<Rightarrow> 0 \<le> run_retry_count r | _ \<Rightarrow> True"
  shows "\<exists>d. created d \<and> dag_of s fresh = None \<and> dag_of t = (dag_of s)(fresh \<mapsto> d)
    \<and> (\<forall>i d'. dag_of s i = Some d' \<longrightarrow> (dg_task_id d', dg_attempt d') \<noteq> (dg_task_id d, dg_attempt d))"
proof -
  from assms(1) obtain tid a p r m rs initial where c: "dag_check_int ''attempt'' att 1 MAX_INT32 = Inr a" "plan = Inst p"
    "check_run_arg a run = Inr r" "check_rungs p m = Inr rs" "settle_states (plan_views p) = Some initial"
    "dag_get tid a s = None" "fresh \<notin> fst ` set (db_dags s)"
    and t: "t = put_dag fresh (new_dag frepr tid a p r initial rs) s"
    by (auto simp: dag_create_def rbind_eq_Inr_iff case_option_Inr case_arg_Inr if_Inl_Inr)
  let ?d = "new_dag frepr tid a p r initial rs"
  have "\<forall>x. r = Some x \<longrightarrow> 0 \<le> run_retry_count x" using check_run_arg_Inr [OF c(3)] assms(3) by auto
  moreover have "plan_ok p" "1 \<le> a" using c(1,2) assms(2) by (simp_all add: dag_check_int_Inr)
  ultimately have "created ?d" using c(4,5) unfolding created_def by blast
  moreover have "dag_of s fresh = None" using c(7) by (simp add: map_of_eq_None_iff)
  moreover have "(dg_task_id d', dg_attempt d') \<noteq> (tid, a)" if "dag_of s i = Some d'" for i d'
    using c(6) map_of_SomeD [OF that] by (force simp: dag_get_def find_None_iff)
  ultimately show ?thesis unfolding t by (intro exI [of _ ?d]) (simp add: new_dag_def)
qed

lemma dstep_cases:
  assumes "dstep s t"
  obtains (same) "dag_of t = dag_of s" | (owner) "row_changes owner_write s t" | (take) "row_changes take_over s t"
    | (new) fresh d where "created d" "dag_of s fresh = None" "dag_of t = (dag_of s)(fresh \<mapsto> d)"
        "\<forall>i d'. dag_of s i = Some d' \<longrightarrow> (dg_task_id d', dg_attempt d') \<noteq> (dg_task_id d, dg_attempt d)"
  using assms
proof (cases rule: dstep.cases)
  case create
  with create_InrD [OF create] show ?thesis by (metis new)
next
  case incident
  then show ?thesis by (intro same) (auto simp: dag_record_incident_def store_Inr)
next
  case cancel
  with cancel_row_changes [OF cancel] show ?thesis using same owner by auto
qed (auto intro: same owner take dest: start_row_changes complete_row_changes fail_row_changes give_up_row_changes
    interrupt_row_changes finalize_row_changes acquire_row_changes place_row_changes)

text \<open>An invariant of the rows: true of a created row and kept by every change.\<close>

locale row_invariant =
  fixes P :: "DagRow \<Rightarrow> bool"
  assumes new: "created d \<Longrightarrow> P d"
    and owner: "owner_write d d' \<Longrightarrow> P d \<Longrightarrow> P d'"
    and take: "take_over d d' \<Longrightarrow> P d \<Longrightarrow> P d'"
begin

lemma step_rows: "dstep s t \<Longrightarrow> (\<And>i d. dag_of s i = Some d \<Longrightarrow> P d) \<Longrightarrow> dag_of t i = Some d \<Longrightarrow> P d"
  by (erule dstep_cases) (auto simp: row_changes_def new split: if_splits, (blast intro: owner take)+)

lemma reachable_rows:
  assumes "dag_reachable s" and "dag_of s i = Some d"
  shows "P d"
proof -
  from assms(1) obtain s0 where s0: "empty_dags s0" "dstep\<^sup>*\<^sup>* s0 s" by (auto simp: dag_reachable_def)
  from s0(2) have "\<forall>i d. dag_of s i = Some d \<longrightarrow> P d"
    by (induction rule: rtranclp_induct) (use s0(1) step_rows in \<open>auto simp: empty_dags_def\<close>)
  with assms(2) show ?thesis by blast
qed

end

text \<open>What happens to one row in a run.\<close>

abbreviation dag_row_step :: "DagRow \<Rightarrow> DagRow \<Rightarrow> bool" where
  "dag_row_step d d' \<equiv> owner_write d d' \<or> take_over d d'"

lemma dstep_row:
  assumes "dstep s t" and "dag_of s i = Some d"
  shows "\<exists>d'. dag_of t i = Some d' \<and> (d' = d \<or> dag_row_step d d')"
  using assms by (elim dstep_cases) (auto simp: row_changes_def)

lemma run_row:
  assumes "dstep\<^sup>*\<^sup>* s t" and "dag_of s i = Some d"
  shows "\<exists>d'. dag_of t i = Some d' \<and> dag_row_step\<^sup>*\<^sup>* d d'"
  using assms
proof (induction rule: rtranclp_induct)
  case (step t u)
  then obtain d' where d': "dag_of t i = Some d'" "dag_row_step\<^sup>*\<^sup>* d d'" by blast
  from dstep_row [OF step.hyps(2) d'(1)] d'(2) show ?case by (auto intro: rtranclp.rtrancl_into_rtrancl)
qed auto

end
