(* ===== verification/Dag_Invariant.thy ===== *)
theory Dag_Invariant
  imports Dag_Steps
begin

text \<open>
  The invariant of a DAG row (\<open>dag_ok\<close>): the stored graph is an accepted plan, the states of the nodes
  are what the rules make of them, and every CHECK and UNIQUE constraint of \<^verbatim>\<open>models.py\<close> holds.
\<close>

section \<open>What never changes\<close>

definition skel :: "DagRow \<Rightarrow> (uuid \<times> int \<times> nat \<times> nat) \<times> PlanNode list \<times> int list \<times> (pystr \<times> pystr) list" where
  "skel d = ((dg_task_id d, dg_attempt d, dg_node_count d, dg_plan_bytes d), map dn_plan (dg_nodes d),
     map dn_ordinal (dg_nodes d), dg_edges d)"

definition shape :: "DagRow \<Rightarrow> bool" where
  "shape d \<longleftrightarrow> plan_ok \<lparr>plan_nodes = map dn_plan (dg_nodes d)\<rparr> \<and> map dn_ordinal (dg_nodes d) = map int [0..<length (dg_nodes d)]
     \<and> dg_edges d = Plan_edges \<lparr>plan_nodes = map dn_plan (dg_nodes d)\<rparr> \<and> dg_node_count d = length (dg_nodes d) \<and> 1 \<le> dg_attempt d"

lemma shape_skel: "skel d' = skel d \<Longrightarrow> shape d' = shape d"
proof -
  assume e: "skel d' = skel d"
  then have "length (dg_nodes d') = length (dg_nodes d)" by (metis Pair_inject length_map skel_def)
  with e show ?thesis by (simp add: shape_def skel_def)
qed

text \<open>A change of the nodes that leaves the plan alone.\<close>

definition set_nodes :: "(DagNode \<Rightarrow> DagNode) \<Rightarrow> DagRow \<Rightarrow> DagRow" where
  "set_nodes h d = d\<lparr>dg_nodes := map h (dg_nodes d)\<rparr>"

definition keeps_plan :: "(DagNode \<Rightarrow> DagNode) \<Rightarrow> DagRow \<Rightarrow> bool" where
  "keeps_plan h d \<longleftrightarrow> (\<forall>n \<in> set (dg_nodes d). dn_plan (h n) = dn_plan n \<and> dn_ordinal (h n) = dn_ordinal n)"

lemma skel_set_nodes: "keeps_plan h d \<Longrightarrow> skel (set_nodes h d) = skel d"
  by (simp add: skel_def set_nodes_def keeps_plan_def)

definition settle_fun :: "DagRow \<Rightarrow> DagNode \<Rightarrow> DagNode" where
  "settle_fun d n = (case settle_states (dag_views d) of None \<Rightarrow> n
     | Some m \<Rightarrow> (case m (dn_key n) of Some st \<Rightarrow> n\<lparr>dn_state := st\<rparr> | None \<Rightarrow> n))"

lemma settle_fun_keeps: "keeps_plan (settle_fun d) d"
  by (auto simp: keeps_plan_def settle_fun_def split: option.splits)

lemma dag_settle_set_nodes: "dag_settle d = Inr d' \<Longrightarrow> d' = set_nodes (settle_fun d) d"
  by (auto simp: dag_settle_def set_nodes_def settle_fun_def split: option.splits)

lemma settle_skel [simp]: "dag_settle d = Inr d' \<Longrightarrow> skel d' = skel d"
  using dag_settle_set_nodes skel_set_nodes settle_fun_keeps by metis

lemma upd_skel: "(\<And>n. dn_key n = k \<Longrightarrow> n \<in> set (dg_nodes d) \<Longrightarrow> dn_plan (f n) = dn_plan n \<and> dn_ordinal (f n) = dn_ordinal n)
  \<Longrightarrow> skel (upd_node k f d) = skel d"
  by (auto simp: skel_def upd_node_def)

lemma close_skel: "close_attempt k number st ec sig d = Inr d' \<Longrightarrow> skel d' = skel d"
  by (auto simp: close_attempt_def skel_def split: if_splits)

lemma skel_more: "skel (d\<lparr>dg_state := st\<rparr>) = skel d" "skel (d\<lparr>dg_attempts := as\<rparr>) = skel d"
  by (simp_all add: skel_def)

lemma interrupt_skel: "skel (interrupt_running st d) = skel d"
  by (auto simp: interrupt_running_def skel_def)

lemma cancel_skel: "skel (dag_cancel_row d) = skel d"
  by (auto simp: dag_cancel_row_def Let_def interrupt_running_def skel_def)

lemma acquired_skel: "skel (dag_acquired w r d) = skel d"
  by (auto simp: dag_acquired_def reopen_def interrupt_running_def skel_def)

lemma start_skel: "skel (dag_start_row e n d) = skel d"
  by (auto simp: dag_start_row_def upd_node_def skel_def)

lemma dag_node_Some: "dag_node d k = Some n \<Longrightarrow> n \<in> set (dg_nodes d) \<and> dn_key n = k"
  by (auto simp: dag_node_def find_Some_iff)

lemma running_node_Inr:
  "running_node d k number = Inr n \<longleftrightarrow> dag_node d k = Some n \<and> dn_state n = NodeState_RUNNING \<and> dn_attempt_count n = number"
  by (auto simp: running_node_def split: option.splits if_splits)

lemma failed_row_plan: "failed_row st args ec n = Inr m \<Longrightarrow> dn_plan m = dn_plan n \<and> dn_ordinal m = dn_ordinal n"
  by (auto simp: failed_row_def rbind_eq_Inr_iff split: option.splits if_splits)

section \<open>Nodes by key\<close>

lemma shape_keys: "shape d \<Longrightarrow> distinct (map dn_key (dg_nodes d))"
  using in_order_keys [of "[]" "map dn_plan (dg_nodes d)"] by (simp add: shape_def plan_ok_def comp_def)

lemma shape_inj: "shape d \<Longrightarrow> n \<in> set (dg_nodes d) \<Longrightarrow> m \<in> set (dg_nodes d) \<Longrightarrow> dn_key n = dn_key m \<Longrightarrow> n = m"
  using shape_keys [of d] by (auto simp: distinct_map dest: inj_onD)

lemma shape_node: "shape d \<Longrightarrow> n \<in> set (dg_nodes d) \<Longrightarrow> dag_node d (dn_key n) = Some n"
proof -
  assume s: "shape d" and n: "n \<in> set (dg_nodes d)"
  then obtain m where "dag_node d (dn_key n) = Some m" by (cases "dag_node d (dn_key n)") (auto simp: dag_node_def find_None_iff)
  with dag_node_Some [OF this] shape_inj [OF s] n show ?thesis by auto
qed

lemma fail_skel:
  assumes "shape d" and "running_node d k number = Inr n" and "failed_row st args ec n = Inr m"
  shows "skel (upd_node k (\<lambda>_. m) d) = skel d"
proof (rule upd_skel)
  fix x assume x: "dn_key x = k" "x \<in> set (dg_nodes d)"
  with shape_node [OF assms(1) x(2)] assms(2) have "x = n" by (simp add: running_node_Inr)
  with failed_row_plan [OF assms(3)] show "dn_plan m = dn_plan x \<and> dn_ordinal m = dn_ordinal x" by simp
qed

lemma owner_write_skel: "owner_write d d' \<Longrightarrow> shape d \<Longrightarrow> skel d' = skel d"
proof (induction rule: owner_write.induct)
  case (complete d k number n r d1 d2)
  have "skel (upd_node k (\<lambda>n. n\<lparr>dn_state := NodeState_SUCCEEDED, dn_result := Some r, dn_error_class := None\<rparr>) d) = skel d"
    by (rule upd_skel) simp
  with complete show ?case using settle_skel close_skel by metis
next
  case (fail d k number n step ai ap args ec m sig d1 d2)
  then show ?case by (metis settle_skel close_skel fail_skel)
next
  case (give_up d k n ec d1)
  have "skel (upd_node k (\<lambda>m. m\<lparr>dn_state := NodeState_FAILED, dn_error_class := Some ec\<rparr>) d) = skel d"
    by (rule upd_skel) simp
  with give_up show ?case using settle_skel by metis
qed (auto simp: start_skel interrupt_skel cancel_skel placed_row_def skel_more)

lemma take_over_skel: "take_over d d' \<Longrightarrow> skel d' = skel d"
  by (auto simp: acquired_skel elim!: take_over.cases)

lemma shape_step: "dag_row_step d d' \<Longrightarrow> shape d \<Longrightarrow> shape d'"
  using owner_write_skel take_over_skel shape_skel by metis

section \<open>Views\<close>

abbreviation dn_deps :: "DagNode \<Rightarrow> pystr list" where
  "dn_deps n \<equiv> pn_depends_on (dn_plan n)"

definition nview :: "DagNode \<Rightarrow> NodeView" where
  "nview n = \<lparr>nv_key = dn_key n, nv_ordinal = dn_ordinal n, nv_state = dn_state n, nv_depends_on = dn_deps n,
     nv_required = pn_required (dn_plan n)\<rparr>"

lemma edges_of_node:
  assumes "distinct (map pn_key ns)" and "n \<in> set ns"
  shows "map snd (filter (\<lambda>e. fst e = pn_key n) (Plan_edges \<lparr>plan_nodes = ns\<rparr>)) = pn_depends_on n"
proof -
  have none: "filter (\<lambda>e. fst e = k) (concat (map (\<lambda>n. map (\<lambda>d. (pn_key n, d)) (pn_depends_on n)) ns)) = []"
    if "k \<notin> pn_key ` set ns" for ns k using that by (induction ns) (auto simp: filter_empty_conv)
  have same: "map snd (filter (\<lambda>e. fst e = k) (map (Pair k') ds)) = (if k' = k then ds else [])" for k k' and ds :: "pystr list"
    by (induction ds) auto
  from assms show ?thesis
  proof (induction ns)
    case (Cons m ns)
    show ?case
    proof (cases "pn_key m = pn_key n")
      case True
      with Cons.prems have "m = n" "pn_key n \<notin> pn_key ` set ns" by auto
      with none [of "pn_key n" ns] show ?thesis by (simp add: Plan_edges_def same comp_def)
    next
      case False
      with Cons have "map snd (filter (\<lambda>e. fst e = pn_key n) (Plan_edges \<lparr>plan_nodes = ns\<rparr>)) = pn_depends_on n" by auto
      with False show ?thesis by (simp add: Plan_edges_def same)
    qed
  qed simp
qed

lemma depends_shape: "shape d \<Longrightarrow> n \<in> set (dg_nodes d) \<Longrightarrow> depends d (dn_key n) = dn_deps n"
  using edges_of_node [of "map dn_plan (dg_nodes d)" "dn_plan n"] shape_keys [of d]
  by (auto simp: shape_def depends_def plan_ok_def comp_def sorted_sort_id)

lemma dag_views_shape:
  assumes "shape d"
  shows "dag_views d = map nview (dg_nodes d)"
proof -
  have "sorted (map dn_ordinal (dg_nodes d))" using assms by (simp add: shape_def sorted_map)
  then have "sort_key dn_ordinal (dg_nodes d) = dg_nodes d" by (rule sort_key_id_if_sorted)
  then show ?thesis using depends_shape [OF assms] by (simp add: dag_views_def node_view_def nview_def)
qed

lemma nview_simps [simp]: "nv_key (nview n) = dn_key n" "nv_state (nview n) = dn_state n" "nv_depends_on (nview n) = dn_deps n"
  "nv_required (nview n) = pn_required (dn_plan n)"
  by (simp_all add: nview_def)

lemma views_in_order: "in_order taken (map dn_plan ns) \<Longrightarrow> views_from taken (map nview ns)"
  by (induction ns arbitrary: taken) (auto simp: free_def)

lemma shape_views: "shape d \<Longrightarrow> views_ok (dag_views d)"
  by (simp add: dag_views_shape views_in_order shape_def plan_ok_def)

text \<open>The state of a node by its key.\<close>

definition node_state :: "DagRow \<Rightarrow> pystr \<Rightarrow> NodeState" where
  "node_state d k = (case dag_node d k of Some n \<Rightarrow> dn_state n | None \<Rightarrow> NodeState_PENDING)"

lemma node_state_node [simp]: "shape d \<Longrightarrow> n \<in> set (dg_nodes d) \<Longrightarrow> node_state d (dn_key n) = dn_state n"
  by (simp add: node_state_def shape_node)

lemma dep_node:
  assumes "shape d" and "n \<in> set (dg_nodes d)" and "k \<in> set (dn_deps n)"
  obtains m where "m \<in> set (dg_nodes d)" "dn_key m = k"
proof -
  obtain xs ys where "dg_nodes d = xs @ n # ys" using split_list [OF assms(2)] by blast
  with views_dep [of "map nview xs" "nview n" "map nview ys" k] shape_views [OF assms(1)] assms(3) that show thesis
    by (auto simp: dag_views_shape [OF assms(1)])
qed

lemma dag_node_map:
  assumes "keeps_plan h d" and "dg_nodes d' = map h (dg_nodes d)"
  shows "dag_node d' k = map_option h (dag_node d k)"
proof -
  have "find (\<lambda>n. dn_key n = k) (map h ns) = map_option h (find (\<lambda>n. dn_key n = k) ns)" if "set ns \<subseteq> set (dg_nodes d)" for ns
    using that assms(1) by (induction ns) (auto simp: keeps_plan_def)
  then show ?thesis by (simp add: dag_node_def assms(2))
qed

lemma node_state_map:
  assumes "shape d" and "keeps_plan h d" and "dg_nodes d' = map h (dg_nodes d)" and "n \<in> set (dg_nodes d)"
  shows "node_state d' (dn_key n) = dn_state (h n)"
  using dag_node_map [OF assms(2,3), of "dn_key n"] shape_node [OF assms(1,4)] by (simp add: node_state_def)

section \<open>Settled rows\<close>

definition settled_row :: "DagRow \<Rightarrow> bool" where
  "settled_row d \<longleftrightarrow> (\<forall>n \<in> set (dg_nodes d). dn_state n \<in> OPEN_STATES \<longrightarrow> dn_state n = settled_state (map (node_state d) (dn_deps n)))"

lemma settle_total:
  assumes "shape d"
  shows "dag_settle d = Inr (set_nodes (\<lambda>n. n\<lparr>dn_state := settled (dag_views d) (dn_key n)\<rparr>) d)"
proof -
  from settle_states_total [OF shape_views [OF assms]] obtain m where m: "settle_states (dag_views d) = Some m"
    "\<forall>n \<in> set (dg_nodes d). m (dn_key n) = Some (settled (dag_views d) (dn_key n))"
    by (auto simp: dag_views_shape [OF assms])
  then show ?thesis by (simp add: dag_settle_def set_nodes_def cong: map_cong)
qed

lemma settled_row_views:
  assumes "shape d"
  shows "settled_row d \<longleftrightarrow> settled_views (dag_views d)"
proof
  assume r: "settled_row d"
  have "node_state d (nv_key v) = settle_node (node_state d) v" if "v \<in> set (dag_views d)" for v
    using that r assms by (auto simp: dag_views_shape settle_node_def settled_row_def)
  then have "node_state d (nv_key v) = settled (dag_views d) (nv_key v)" if "v \<in> set (dag_views d)" for v
    using settled_unique [OF shape_views [OF assms]] that by blast
  moreover have "nv_state v = node_state d (nv_key v)" if "v \<in> set (dag_views d)" for v
    using that assms by (auto simp: dag_views_shape)
  ultimately show "settled_views (dag_views d)" by (simp add: settled_views_def)
next
  assume v: "settled_views (dag_views d)"
  have eq: "dn_state n = settled (dag_views d) (dn_key n)" if "n \<in> set (dg_nodes d)" for n
    using that v assms by (auto simp: settled_views_def dag_views_shape)
  show "settled_row d" unfolding settled_row_def
  proof (intro ballI impI)
    fix n assume n: "n \<in> set (dg_nodes d)" "dn_state n \<in> OPEN_STATES"
    have "settled (dag_views d) (dn_key n) = settle_node (settled (dag_views d)) (nview n)"
      using settled_eq [OF shape_views [OF assms], of "nview n"] n(1) by (simp add: dag_views_shape assms)
    also have "\<dots> = settle_node (node_state d) (nview n)"
      by (rule settle_node_cong) (use eq in \<open>auto elim!: dep_node [OF assms n(1)] simp: assms\<close>)
    finally show "dn_state n = settled_state (map (node_state d) (dn_deps n))"
      using eq [OF n(1)] n(2) by (simp add: settle_node_def)
  qed
qed

lemma settle_spec:
  assumes "shape d" and "dag_settle d = Inr d'"
  obtains g where "d' = set_nodes (\<lambda>n. n\<lparr>dn_state := g n\<rparr>) d" "settled_row d'"
    "\<And>n. n \<in> set (dg_nodes d) \<Longrightarrow> dn_state n \<notin> OPEN_STATES \<Longrightarrow> g n = dn_state n"
    "\<And>n. n \<in> set (dg_nodes d) \<Longrightarrow> dn_state n \<in> OPEN_STATES \<Longrightarrow> g n \<in> OPEN_STATES"
proof -
  let ?g = "\<lambda>n. settled (dag_views d) (dn_key n)"
  have d': "d' = set_nodes (\<lambda>n. n\<lparr>dn_state := ?g n\<rparr>) d" using settle_total [OF assms(1)] assms(2) by simp
  have eq: "?g n = settle_node (settled (dag_views d)) (nview n)" if "n \<in> set (dg_nodes d)" for n
    using settled_eq [OF shape_views [OF assms(1)], of "nview n"] that by (simp add: dag_views_shape assms(1))
  have sh: "shape d'" using assms shape_skel settle_skel by blast
  have "dag_views d' = with_states (settled (dag_views d)) (dag_views d)"
    unfolding dag_views_shape [OF sh] unfolding d' by (simp add: set_nodes_def dag_views_shape assms(1) with_states_def nview_def)
  then have "settled_views (dag_views d')" using settle_idem [OF shape_views [OF assms(1)]] by simp
  then have "settled_row d'" using settled_row_views [OF sh] by simp
  moreover have "settled_state xs \<in> OPEN_STATES" for xs by (simp add: settled_state_def OPEN_STATES_def)
  ultimately show thesis using d' eq by (intro that [of ?g]) (auto simp: settle_node_def)
qed

lemma settle_id: "shape d \<Longrightarrow> settled_row d \<Longrightarrow> dag_settle d = Inr d"
proof -
  assume s: "shape d" and r: "settled_row d"
  then have "dn_state n = settled (dag_views d) (dn_key n)" if "n \<in> set (dg_nodes d)" for n
    using that by (auto simp: settled_row_views settled_views_def dag_views_shape)
  then have "map (\<lambda>n. n\<lparr>dn_state := settled (dag_views d) (dn_key n)\<rparr>) (dg_nodes d) = dg_nodes d"
    by (intro map_idI) (simp add: DagNode.equality)
  then show ?thesis using settle_total [OF s] by (simp add: set_nodes_def)
qed

lemma settled_ready: "settled_state (map f ds) = NodeState_READY \<Longrightarrow> d \<in> set ds \<Longrightarrow> f d = NodeState_SUCCEEDED"
  by (auto simp: settled_state_def list_all_iff split: if_splits)

section \<open>Nodes whose dependencies are done\<close>

abbreviation DONE_DEPS :: "NodeState set" where
  "DONE_DEPS \<equiv> {NodeState_RUNNING, NodeState_SUCCEEDED, NodeState_FAILED}"

definition deps_done :: "DagRow \<Rightarrow> bool" where
  "deps_done d \<longleftrightarrow> (\<forall>n \<in> set (dg_nodes d). dn_state n \<in> DONE_DEPS \<longrightarrow> (\<forall>k \<in> set (dn_deps n). node_state d k = NodeState_SUCCEEDED))"

lemma deps_done_map:
  assumes "shape d" and "deps_done d" and "keeps_plan h d" and "dg_nodes d' = map h (dg_nodes d)"
    and keep: "\<And>n. n \<in> set (dg_nodes d) \<Longrightarrow> dn_state n = NodeState_SUCCEEDED \<Longrightarrow> dn_state (h n) = NodeState_SUCCEEDED"
    and new: "\<And>n. n \<in> set (dg_nodes d) \<Longrightarrow> dn_state (h n) \<in> DONE_DEPS
      \<Longrightarrow> dn_state n \<in> DONE_DEPS \<or> dn_state n = NodeState_READY \<and> settled_row d"
  shows "deps_done d'"
  unfolding deps_done_def
proof (intro ballI impI)
  fix m k assume m: "m \<in> set (dg_nodes d')" "dn_state m \<in> DONE_DEPS" "k \<in> set (dn_deps m)"
  then obtain n where n: "n \<in> set (dg_nodes d)" "m = h n" using assms(4) by auto
  have k: "k \<in> set (dn_deps n)" using m(3) n assms(3) by (simp add: keeps_plan_def)
  then obtain x where x: "x \<in> set (dg_nodes d)" "dn_key x = k" using dep_node [OF assms(1) n(1)] by blast
  have "dn_state n \<in> OPEN_STATES \<Longrightarrow> dn_state n = NodeState_READY \<Longrightarrow> settled_row d \<Longrightarrow> node_state d k = NodeState_SUCCEEDED"
    using settled_ready [of "node_state d" "dn_deps n" k] k n(1) by (auto simp: settled_row_def)
  then have "node_state d k = NodeState_SUCCEEDED"
    using new [OF n(1)] m(2) n(2) assms(2) n(1) k by (auto simp: deps_done_def OPEN_STATES_def)
  then have "dn_state x = NodeState_SUCCEEDED" using x assms(1) by auto
  then show "node_state d' k = NodeState_SUCCEEDED" using node_state_map [OF assms(1,3,4) x(1)] keep x by simp
qed

section \<open>Counters and states\<close>

definition node_fine :: "int \<Rightarrow> DagNode \<Rightarrow> bool" where
  "node_fine r n \<longleftrightarrow> 0 \<le> dn_agent_index n \<and> dn_agent_index n < int MAX_LADDER_LENGTH
     \<and> 0 \<le> dn_approach n \<and> dn_approach n \<le> MAX_APPROACH
     \<and> 0 \<le> dn_rung_attempts n \<and> dn_rung_attempts n \<le> MAX_ATTEMPTS_PER_RUNG \<and> dn_rung_attempts n \<le> dn_attempt_count n
     \<and> dn_attempt_count n \<le> MAX_INT32 \<and> (dn_state n = NodeState_RUNNING \<longrightarrow> 1 \<le> dn_rung_attempts n)
     \<and> (dn_state n = NodeState_SUCCEEDED) = (dn_result n \<noteq> None)
     \<and> dn_attempt_count n \<le> (r + dn_agent_index n) * MAX_ATTEMPTS_PER_RUNG + dn_rung_attempts n"

definition row_fine :: "DagRow \<Rightarrow> bool" where
  "row_fine d \<longleftrightarrow> 0 \<le> dg_epoch d \<and> dg_epoch d \<le> MAX_INT32 \<and> (dg_epoch d = 0) = (dg_owner d = None) \<and> 0 \<le> dg_retry_count d
     \<and> (\<forall>n \<in> set (dg_nodes d). node_fine (dg_retry_count d) n)"

definition states_ok :: "DagRow \<Rightarrow> bool" where
  "states_ok d \<longleftrightarrow> (dg_state d \<noteq> DagState_ACTIVE \<longrightarrow> (\<forall>n \<in> set (dg_nodes d). dn_state n \<noteq> NodeState_RUNNING))
     \<and> (dg_state d = DagState_SUCCEEDED \<longrightarrow> (\<forall>n \<in> set (dg_nodes d). pn_required (dn_plan n) \<longrightarrow> dn_state n = NodeState_SUCCEEDED))
     \<and> (dg_state d = DagState_FAILED \<longrightarrow> (\<exists>n \<in> set (dg_nodes d). pn_required (dn_plan n) \<and> dn_state n \<noteq> NodeState_SUCCEEDED))
     \<and> (dg_state d = DagState_CANCELLED \<longrightarrow> (\<forall>n \<in> set (dg_nodes d). dn_state n \<notin> OPEN_STATES))
     \<and> (dg_state d \<noteq> DagState_CANCELLED \<longrightarrow> (\<forall>n \<in> set (dg_nodes d). dn_state n \<noteq> NodeState_CANCELLED))"

definition attempt_fine :: "DagAttempt \<Rightarrow> bool" where
  "attempt_fine a \<longleftrightarrow> 0 \<le> at_agent_index a \<and> at_agent_index a < int MAX_LADDER_LENGTH \<and> 0 \<le> at_approach a
     \<and> at_approach a \<le> MAX_APPROACH \<and> (at_state a = AttemptState_FAILED \<longrightarrow> at_error_class a \<noteq> None \<and> at_signature a \<noteq> None)
     \<and> (\<forall>p. at_placement a = Some p \<longrightarrow> (pl_placement p = Exec_CLOUD) = (pl_cloud p \<noteq> None))"

definition attempt_of :: "DagRow \<Rightarrow> DagAttempt \<Rightarrow> bool" where
  "attempt_of d a \<longleftrightarrow> (\<exists>n \<in> set (dg_nodes d). dn_key n = at_node_key a \<and> 1 \<le> at_number a \<and> at_number a \<le> dn_attempt_count n
     \<and> (at_state a = AttemptState_RUNNING \<longrightarrow> dn_state n = NodeState_RUNNING \<and> at_number a = dn_attempt_count n
          \<and> at_epoch a = dg_epoch d))"

definition node_has :: "DagRow \<Rightarrow> DagNode \<Rightarrow> bool" where
  "node_has d n \<longleftrightarrow> (\<forall>j. 1 \<le> j \<and> j \<le> dn_attempt_count n \<longrightarrow> (\<exists>a \<in> set (dg_attempts d). at_node_key a = dn_key n \<and> at_number a = j
     \<and> (dn_state n = NodeState_RUNNING \<and> j = dn_attempt_count n \<longrightarrow> at_state a = AttemptState_RUNNING)))"

definition attempts_ok :: "DagRow \<Rightarrow> bool" where
  "attempts_ok d \<longleftrightarrow> distinct (map (\<lambda>a. (at_node_key a, at_number a)) (dg_attempts d))
     \<and> (\<forall>a \<in> set (dg_attempts d). attempt_fine a \<and> 1 \<le> at_epoch a \<and> at_epoch a \<le> dg_epoch d \<and> attempt_of d a)
     \<and> (\<forall>n \<in> set (dg_nodes d). node_has d n)"

definition dag_core :: "DagRow \<Rightarrow> bool" where
  "dag_core d \<longleftrightarrow> shape d \<and> deps_done d \<and> row_fine d \<and> states_ok d \<and> attempts_ok d"

lemma settle_core:
  assumes "dag_core d" and "dag_settle d = Inr d'"
  shows "dag_core d' \<and> settled_row d'"
proof -
  have sh: "shape d" using assms(1) by (simp add: dag_core_def)
  from settle_spec [OF sh assms(2)] obtain g where d': "d' = set_nodes (\<lambda>n. n\<lparr>dn_state := g n\<rparr>) d" and set: "settled_row d'"
    and g: "\<And>n. n \<in> set (dg_nodes d) \<Longrightarrow> dn_state n \<notin> OPEN_STATES \<Longrightarrow> g n = dn_state n"
      "\<And>n. n \<in> set (dg_nodes d) \<Longrightarrow> dn_state n \<in> OPEN_STATES \<Longrightarrow> g n \<in> OPEN_STATES" by blast
  have st: "g n = st \<longleftrightarrow> dn_state n = st" if "n \<in> set (dg_nodes d)" "st \<notin> OPEN_STATES" for n st
    using g [OF that(1)] that(2) by metis
  have op: "g n \<in> OPEN_STATES \<longleftrightarrow> dn_state n \<in> OPEN_STATES" if "n \<in> set (dg_nodes d)" for n
    using g [OF that] by metis
  have cl: "NodeState_RUNNING \<notin> OPEN_STATES" "NodeState_SUCCEEDED \<notin> OPEN_STATES" "NodeState_FAILED \<notin> OPEN_STATES"
    "NodeState_CANCELLED \<notin> OPEN_STATES" by (simp_all add: OPEN_STATES_def)
  have nodes: "dg_nodes d' = map (\<lambda>n. n\<lparr>dn_state := g n\<rparr>) (dg_nodes d)" by (simp add: d' set_nodes_def)
  have "shape d'" using sh assms(2) shape_skel settle_skel by blast
  moreover have "deps_done d'"
    by (rule deps_done_map [OF sh _ _ nodes]) (use assms(1) in \<open>auto simp: dag_core_def keeps_plan_def st cl\<close>)
  moreover have "row_fine d'" using assms(1) by (auto simp: dag_core_def row_fine_def d' set_nodes_def node_fine_def st cl)
  moreover have "states_ok d'" using assms(1) by (auto simp: dag_core_def states_ok_def d' set_nodes_def st cl op)
  moreover have "attempts_ok d'"
    using assms(1) by (auto simp: dag_core_def attempts_ok_def attempt_of_def node_has_def d' set_nodes_def st cl)
  ultimately show ?thesis using set by (simp add: dag_core_def)
qed

section \<open>Every change keeps the invariant\<close>

lemma upd_node_map:
  assumes "shape d" and "dag_node d k = Some n"
  shows "upd_node k f d = set_nodes (\<lambda>x. if x = n then f n else x) d"
proof -
  have "(if dn_key x = k then f x else x) = (if x = n then f n else x)" if "x \<in> set (dg_nodes d)" for x
    using that shape_inj [OF assms(1) that] dag_node_Some [OF assms(2)] by auto
  then show ?thesis by (simp add: upd_node_def set_nodes_def)
qed

lemma core_node:
  assumes "dag_core d" and "dag_node d k = Some n"
  shows "n \<in> set (dg_nodes d)" and "dn_key n = k" and "node_fine (dg_retry_count d) n"
  using dag_node_Some [OF assms(2)] assms(1) by (auto simp: dag_core_def row_fine_def)

lemma settled_state_cong:
  assumes "\<And>d. d \<in> set ds \<Longrightarrow> f d \<in> UNSATISFIABLE_NODE_STATES \<longleftrightarrow> g d \<in> UNSATISFIABLE_NODE_STATES"
    and "\<And>d. d \<in> set ds \<Longrightarrow> f d = NodeState_SUCCEEDED \<longleftrightarrow> g d = NodeState_SUCCEEDED"
  shows "settled_state (map f ds) = settled_state (map g ds)"
  using assms by (auto simp: settled_state_def list_ex_iff list_all_iff)

lemma core_replace:
  assumes "dag_core d" and "dag_node d k = Some n" and "dn_plan m = dn_plan n" and "dn_ordinal m = dn_ordinal n"
    and "dg_nodes d' = map (\<lambda>x. if x = n then m else x) (dg_nodes d)" and "skel d' = skel d"
    and "dg_epoch d' = dg_epoch d" "dg_owner d' = dg_owner d" "dg_retry_count d' = dg_retry_count d" "dg_state d' = dg_state d"
    and "dg_state d = DagState_ACTIVE" "node_fine (dg_retry_count d) m" "dn_state n \<noteq> NodeState_SUCCEEDED"
      "dn_state m \<noteq> NodeState_CANCELLED"
    and "dn_state m \<in> DONE_DEPS \<Longrightarrow> dn_state n \<in> DONE_DEPS \<or> dn_state n = NodeState_READY \<and> settled_row d"
    and "attempts_ok d'"
  shows "dag_core d'"
proof -
  let ?h = "\<lambda>x. if x = n then m else x"
  have sh: "shape d" "deps_done d" using assms(1) by (simp_all add: dag_core_def)
  have keeps: "keeps_plan ?h d" using assms(3,4) by (simp add: keeps_plan_def)
  have "deps_done d'"
    by (rule deps_done_map [OF sh keeps assms(5)]) (use assms(13,15) in \<open>auto split: if_splits\<close>)
  moreover have "row_fine d'" using assms by (auto simp: dag_core_def row_fine_def)
  moreover have "states_ok d'" using assms by (auto simp: dag_core_def states_ok_def)
  moreover have "shape d'" using sh(1) shape_skel [OF assms(6)] by simp
  ultimately show ?thesis using assms(16) by (simp add: dag_core_def)
qed

lemma attempts_ok_map:
  assumes "attempts_ok d" and "dg_attempts d1 = map c (dg_attempts d)" and "dg_nodes d1 = map h (dg_nodes d)"
    and "\<And>a. a \<in> set (dg_attempts d) \<Longrightarrow> attempt_of d1 (c a)"
    and "\<And>a. a \<in> set (dg_attempts d) \<Longrightarrow> attempt_fine (c a)"
    and "\<And>a. a \<in> set (dg_attempts d) \<Longrightarrow> 1 \<le> at_epoch (c a) \<and> at_epoch (c a) \<le> dg_epoch d1"
    and "\<And>a. at_node_key (c a) = at_node_key a \<and> at_number (c a) = at_number a"
    and "\<And>x. x \<in> set (dg_nodes d) \<Longrightarrow> node_has d1 (h x)"
  shows "attempts_ok d1"
proof -
  have "map (\<lambda>a. (at_node_key a, at_number a)) (dg_attempts d1) = map (\<lambda>a. (at_node_key a, at_number a)) (dg_attempts d)"
    using assms(2,7) by simp
  then have "distinct (map (\<lambda>a. (at_node_key a, at_number a)) (dg_attempts d1))"
    using assms(1) by (simp only: attempts_ok_def)
  moreover have "\<forall>a \<in> set (dg_attempts d1). attempt_fine a \<and> 1 \<le> at_epoch a \<and> at_epoch a \<le> dg_epoch d1 \<and> attempt_of d1 a"
    "\<forall>n \<in> set (dg_nodes d1). node_has d1 n" using assms(2-6,8) by auto
  ultimately show ?thesis by (simp only: attempts_ok_def)
qed

lemma attempt_ofI:
  assumes "x \<in> set (dg_nodes d)" and "dg_nodes d' = map h (dg_nodes d)" and "dn_key (h x) = at_node_key a"
    and "1 \<le> at_number a" and "at_number a \<le> dn_attempt_count (h x)"
    and "at_state a = AttemptState_RUNNING \<Longrightarrow> dn_state (h x) = NodeState_RUNNING \<and> at_number a = dn_attempt_count (h x)
      \<and> at_epoch a = dg_epoch d'"
  shows "attempt_of d' a"
  using assms by (auto simp: attempt_of_def)

text \<open>The rows of attempts after a report.\<close>

lemma outcome_core:
  assumes "dag_core d" and "dg_state d = DagState_ACTIVE" and "running_node d k number = Inr n"
    and m: "dn_plan m = dn_plan n" "dn_ordinal m = dn_ordinal n" "dn_attempt_count m = dn_attempt_count n"
      "dn_state m \<in> {NodeState_SUCCEEDED, NodeState_READY, NodeState_FAILED}" "node_fine (dg_retry_count d) m"
    and c: "close_attempt k number st ec sig (upd_node k (\<lambda>_. m) d) = Inr d1"
    and st: "st \<noteq> AttemptState_RUNNING" "st = AttemptState_FAILED \<longrightarrow> ec \<noteq> None \<and> sig \<noteq> None"
  shows "dag_core d1"
proof -
  have n: "dag_node d k = Some n" "dn_state n = NodeState_RUNNING" "dn_attempt_count n = number"
    using assms(3) by (simp_all add: running_node_Inr)
  note nk = core_node [OF assms(1) n(1)]
  have sh: "shape d" using assms(1) by (simp add: dag_core_def)
  let ?h = "\<lambda>x. if x = n then m else x"
  let ?close = "\<lambda>a. if is_running_attempt k number a then a\<lparr>at_state := st, at_error_class := ec, at_signature := sig\<rparr> else a"
  have d1: "d1 = (set_nodes ?h d)\<lparr>dg_attempts := map ?close (dg_attempts d)\<rparr>"
    using c upd_node_map [OF sh n(1)] by (auto simp: close_attempt_def set_nodes_def split: if_splits)
  have old: "attempt_of d a" "attempt_fine a" "1 \<le> at_epoch a \<and> at_epoch a \<le> dg_epoch d" if "a \<in> set (dg_attempts d)" for a
    using assms(1) that by (auto simp: dag_core_def attempts_ok_def)
  have mk: "dn_key m = k" using m(1) nk(2) by simp
  have uniq: "x = n" if "x \<in> set (dg_nodes d)" "dn_key x = k" for x using shape_inj [OF sh that(1) nk(1)] that(2) nk(2) by simp
  have "attempt_of d1 (?close a)" if a: "a \<in> set (dg_attempts d)" for a
  proof (cases "at_node_key a = k")
    case True
    from old(1) [OF a] obtain x where "x \<in> set (dg_nodes d)" "dn_key x = at_node_key a" "1 \<le> at_number a" "at_number a \<le> dn_attempt_count x"
      "at_state a = AttemptState_RUNNING \<longrightarrow> at_number a = dn_attempt_count x" by (auto simp: attempt_of_def)
    moreover from this True uniq have "x = n" by simp
    ultimately show ?thesis
      using True nk(1) m(3) mk st(1) n(3) by (auto simp: attempt_of_def d1 set_nodes_def is_running_attempt_def)
  next
    case False
    then have cl: "?close a = a" by (simp add: is_running_attempt_def)
    from old(1) [OF a] obtain x where x: "x \<in> set (dg_nodes d)" "dn_key x = at_node_key a" "1 \<le> at_number a" "at_number a \<le> dn_attempt_count x"
      "at_state a = AttemptState_RUNNING \<longrightarrow> dn_state x = NodeState_RUNNING \<and> at_number a = dn_attempt_count x \<and> at_epoch a = dg_epoch d"
      by (auto simp: attempt_of_def)
    moreover have "x \<noteq> n" using x(2) False nk(2) by auto
    ultimately show ?thesis unfolding cl by (auto simp: attempt_of_def d1 set_nodes_def)
  qed
  moreover have "attempt_fine (?close a)" "1 \<le> at_epoch (?close a) \<and> at_epoch (?close a) \<le> dg_epoch d1"
    if "a \<in> set (dg_attempts d)" for a
    using old(2,3) [OF that] st(2) by (simp_all add: attempt_fine_def d1 set_nodes_def)
  moreover have "node_has d1 (?h x)" if x: "x \<in> set (dg_nodes d)" for x
    unfolding node_has_def
  proof (intro allI impI)
    fix j assume j: "1 \<le> j \<and> j \<le> dn_attempt_count (?h x)"
    have "node_has d x" using assms(1) x by (simp add: dag_core_def attempts_ok_def)
    moreover have "1 \<le> j \<and> j \<le> dn_attempt_count x" using j m(3) by (auto split: if_splits)
    ultimately obtain a where a: "a \<in> set (dg_attempts d)" "at_node_key a = dn_key x" "at_number a = j"
      "dn_state x = NodeState_RUNNING \<and> j = dn_attempt_count x \<longrightarrow> at_state a = AttemptState_RUNNING" by (auto simp: node_has_def)
    have key: "dn_key (?h x) = dn_key x" using m(1) by simp
    have "x \<noteq> n \<Longrightarrow> at_node_key a \<noteq> k" using uniq [OF x] a(2) by auto
    then have "dn_state (?h x) = NodeState_RUNNING \<and> j = dn_attempt_count (?h x) \<longrightarrow> at_state (?close a) = AttemptState_RUNNING"
      using a(4) m(4) by (auto simp: is_running_attempt_def)
    then show "\<exists>a \<in> set (dg_attempts d1). at_node_key a = dn_key (?h x) \<and> at_number a = j
        \<and> (dn_state (?h x) = NodeState_RUNNING \<and> j = dn_attempt_count (?h x) \<longrightarrow> at_state a = AttemptState_RUNNING)"
      using a(1-3) key by (intro bexI [of _ "?close a"]) (auto simp: d1)
  qed
  ultimately have att: "attempts_ok d1"
    using assms(1) by (intro attempts_ok_map [of d d1 ?close ?h]) (simp_all add: dag_core_def d1 set_nodes_def)
  show ?thesis
    by (rule core_replace [OF assms(1) n(1) m(1,2)])
      (use att m n assms(2) in \<open>auto simp: d1 set_nodes_def skel_def\<close>)
qed

lemma check_step_Inr:
  assumes "check_step st ai ap = Inr args"
  shows "args = None \<and> st \<notin> {ALTERNATIVE, NextStep.ESCALATE}
    \<or> (\<exists>a b. args = Some (a, b) \<and> st \<in> {ALTERNATIVE, NextStep.ESCALATE} \<and> 0 \<le> a \<and> a < int MAX_LADDER_LENGTH \<and> 0 \<le> b \<and> b \<le> MAX_APPROACH)"
  using assms by (auto simp: check_step_def rbind_eq_Inr_iff dag_check_int_Inr split: if_splits)

lemma failed_row_fine:
  assumes "check_step st ai ap = Inr args" and "failed_row st args ec n = Inr m" and "node_fine r n" and "dn_state n = NodeState_RUNNING"
  shows "node_fine r m \<and> dn_attempt_count m = dn_attempt_count n \<and> dn_state m = (if st = GIVE_UP then NodeState_FAILED else NodeState_READY)"
proof -
  have more: "(r + a) * 20 + x \<le> (r + b) * 20" if "a < b" "x \<le> 20" for a b x :: int using that by simp
  from assms show ?thesis
    by (auto simp: failed_row_def rbind_eq_Inr_iff node_fine_def MAX_ATTEMPTS_PER_RUNG_def dest!: check_step_Inr
        dest: more split: if_splits)
qed

lemma complete_core:
  assumes "dag_core d" and "dg_state d = DagState_ACTIVE" and "running_node d k number = Inr n"
    and "close_attempt k number AttemptState_SUCCEEDED None None
      (upd_node k (\<lambda>n. n\<lparr>dn_state := NodeState_SUCCEEDED, dn_result := Some r, dn_error_class := None\<rparr>) d) = Inr d1"
  shows "dag_core d1"
proof -
  let ?m = "n\<lparr>dn_state := NodeState_SUCCEEDED, dn_result := Some r, dn_error_class := None\<rparr>"
  have n: "dag_node d k = Some n" "shape d" using assms(1,3) by (simp_all add: running_node_Inr dag_core_def)
  have "upd_node k (\<lambda>n. n\<lparr>dn_state := NodeState_SUCCEEDED, dn_result := Some r, dn_error_class := None\<rparr>) d = upd_node k (\<lambda>_. ?m) d"
    unfolding upd_node_map [OF n(2,1)] ..
  with assms(4) have c: "close_attempt k number AttemptState_SUCCEEDED None None (upd_node k (\<lambda>_. ?m) d) = Inr d1" by simp
  have "node_fine (dg_retry_count d) ?m" using core_node(3) [OF assms(1) n(1)] by (simp add: node_fine_def)
  then show ?thesis by (intro outcome_core [OF assms(1-3) _ _ _ _ _ c]) simp_all
qed

lemma fail_core:
  assumes "dag_core d" and "dg_state d = DagState_ACTIVE" and "running_node d k number = Inr n"
    and "check_step st ai ap = Inr args" and "failed_row st args ec n = Inr m"
    and "close_attempt k number AttemptState_FAILED (Some ec) (Some sig) (upd_node k (\<lambda>_. m) d) = Inr d1"
  shows "dag_core d1"
proof -
  have n: "dag_node d k = Some n" "dn_state n = NodeState_RUNNING" using assms(3) by (simp_all add: running_node_Inr)
  from failed_row_fine [OF assms(4,5) core_node(3) [OF assms(1) n(1)] n(2)] failed_row_plan [OF assms(5)]
  show ?thesis by (intro outcome_core [OF assms(1-3) _ _ _ _ _ assms(6)]) auto
qed

lemma give_up_core:
  assumes "dag_core d" and "settled_row d" and "dg_state d = DagState_ACTIVE" and "dag_node d k = Some n" and "dn_state n = NodeState_READY"
  shows "dag_core (upd_node k (\<lambda>m. m\<lparr>dn_state := NodeState_FAILED, dn_error_class := Some ec\<rparr>) d)"
proof -
  let ?m = "n\<lparr>dn_state := NodeState_FAILED, dn_error_class := Some ec\<rparr>" let ?h = "\<lambda>x. if x = n then ?m else x"
  let ?d = "set_nodes ?h d"
  have sh: "shape d" using assms(1) by (simp add: dag_core_def)
  note n = core_node [OF assms(1,4)]
  have "attempt_of ?d a" if a: "a \<in> set (dg_attempts d)" for a
  proof -
    from assms(1) a have "attempt_of d a" by (simp add: dag_core_def attempts_ok_def)
    then obtain x where "x \<in> set (dg_nodes d)" "dn_key x = at_node_key a" "1 \<le> at_number a" "at_number a \<le> dn_attempt_count x"
      "at_state a = AttemptState_RUNNING \<longrightarrow> dn_state x = NodeState_RUNNING \<and> at_number a = dn_attempt_count x \<and> at_epoch a = dg_epoch d"
      by (auto simp: attempt_of_def)
    then show ?thesis using assms(5) by (intro attempt_ofI [of x d _ ?h]) (auto simp: set_nodes_def)
  qed
  moreover have "node_has ?d (?h x)" if "x \<in> set (dg_nodes d)" for x
  proof -
    have "node_has d x" using assms(1) that by (simp add: dag_core_def attempts_ok_def)
    then show ?thesis using assms(5) by (auto simp: node_has_def set_nodes_def)
  qed
  ultimately have att: "attempts_ok ?d"
    using assms(1) by (intro attempts_ok_map [of d ?d id ?h]) (auto simp: dag_core_def set_nodes_def attempts_ok_def)
  show ?thesis unfolding upd_node_map [OF sh assms(4)]
    by (rule core_replace [OF assms(1,4), of ?m]) (use att assms n in \<open>auto simp: set_nodes_def skel_def node_fine_def\<close>)
qed

lemma start_core:
  assumes "dag_core d" and "settled_row d" and "dg_state d = DagState_ACTIVE" and "1 \<le> dg_epoch d" and "dag_node d k = Some n"
    and "dn_state n = NodeState_READY" and "dn_rung_attempts n < MAX_ATTEMPTS_PER_RUNG" and "dn_attempt_count n + 1 \<le> MAX_INT32"
  shows "dag_core (dag_start_row (dg_epoch d) n d) \<and> settled_row (dag_start_row (dg_epoch d) n d)"
proof -
  let ?m = "n\<lparr>dn_state := NodeState_RUNNING, dn_attempt_count := dn_attempt_count n + 1, dn_rung_attempts := dn_rung_attempts n + 1\<rparr>"
  let ?h = "\<lambda>x. if x = n then ?m else x" let ?d = "dag_start_row (dg_epoch d) n d"
  have sh: "shape d" using assms(1) by (simp add: dag_core_def)
  note n = core_node [OF assms(1,5)]
  define a where "a = \<lparr>at_node_key = dn_key n, at_number = dn_attempt_count n + 1, at_agent_index = dn_agent_index n,
    at_approach = dn_approach n, at_epoch = dg_epoch d, at_state = AttemptState_RUNNING, at_error_class = None, at_signature = None,
    at_placement = None\<rparr>"
  have d': "?d = (set_nodes ?h d)\<lparr>dg_attempts := dg_attempts d @ [a]\<rparr>"
    using upd_node_map [OF sh shape_node [OF sh n(1)]] by (simp add: dag_start_row_def a_def set_nodes_def)
  have uniq: "x = n" if "x \<in> set (dg_nodes d)" "dn_key x = dn_key n" for x using shape_inj [OF sh that(1) n(1) that(2)] .
  have less: "at_number b \<le> dn_attempt_count n \<and> at_state b \<noteq> AttemptState_RUNNING"
    if "b \<in> set (dg_attempts d)" "at_node_key b = dn_key n" for b
  proof -
    from assms(1) that(1) have "attempt_of d b" by (simp add: dag_core_def attempts_ok_def)
    then obtain x where "x \<in> set (dg_nodes d)" "dn_key x = at_node_key b" "at_number b \<le> dn_attempt_count x"
      "at_state b = AttemptState_RUNNING \<longrightarrow> dn_state x = NodeState_RUNNING" by (auto simp: attempt_of_def)
    with uniq [of x] that(2) assms(6) show ?thesis by auto
  qed
  have "distinct (map (\<lambda>a. (at_node_key a, at_number a)) (dg_attempts ?d))"
    using assms(1) less by (fastforce simp: d' dag_core_def attempts_ok_def a_def)
  moreover have "attempt_of ?d b" if b: "b \<in> set (dg_attempts d)" for b
  proof -
    from assms(1) b have "attempt_of d b" by (simp add: dag_core_def attempts_ok_def)
    then obtain x where x: "x \<in> set (dg_nodes d)" "dn_key x = at_node_key b" "1 \<le> at_number b" "at_number b \<le> dn_attempt_count x"
      "at_state b = AttemptState_RUNNING \<longrightarrow> dn_state x = NodeState_RUNNING \<and> at_number b = dn_attempt_count x \<and> at_epoch b = dg_epoch d"
      by (auto simp: attempt_of_def)
    then show ?thesis using less [OF b] assms(6) by (intro attempt_ofI [of x d _ ?h]) (auto simp: d' set_nodes_def)
  qed
  moreover have "attempt_of ?d a"
    using n by (intro attempt_ofI [of n d _ ?h]) (auto simp: d' set_nodes_def a_def node_fine_def)
  moreover have "attempt_fine a" using n(3) by (simp add: a_def attempt_fine_def node_fine_def)
  moreover have new: "node_has ?d (?h x)" if x: "x \<in> set (dg_nodes d)" for x
  proof -
    have old: "node_has d x" using assms(1) x by (simp add: dag_core_def attempts_ok_def)
    show ?thesis
    proof (cases "x = n")
      case True
      have "j = dn_attempt_count n + 1 \<or> j \<le> dn_attempt_count n" if "j \<le> dn_attempt_count n + 1" for j using that by auto
      then show ?thesis using old True by (fastforce simp: node_has_def d' a_def)
    qed (use old in \<open>auto simp: node_has_def d'\<close>)
  qed
  moreover have "dg_attempts ?d = dg_attempts d @ [a]" "dg_epoch ?d = dg_epoch d" "at_epoch a = dg_epoch d"
    by (simp_all add: d' set_nodes_def a_def)
  moreover have "\<forall>b \<in> set (dg_attempts d). attempt_fine b \<and> 1 \<le> at_epoch b \<and> at_epoch b \<le> dg_epoch d"
    using assms(1) by (simp add: dag_core_def attempts_ok_def)
  moreover have nodes: "dg_nodes ?d = map ?h (dg_nodes d)" by (simp add: d' set_nodes_def)
  moreover have "\<forall>x \<in> set (dg_nodes ?d). node_has ?d x" unfolding nodes set_map using new by blast
  ultimately have att: "attempts_ok ?d" unfolding attempts_ok_def using assms(4) by simp
  have "dag_core ?d"
    by (rule core_replace [OF assms(1,5), of ?m]) (use att assms n in \<open>auto simp: d' set_nodes_def skel_def node_fine_def\<close>)
  moreover have "settled_row ?d" unfolding settled_row_def
  proof (intro ballI impI)
    fix x assume x: "x \<in> set (dg_nodes ?d)" "dn_state x \<in> OPEN_STATES"
    then have o: "x \<in> set (dg_nodes d)" by (auto simp: d' set_nodes_def OPEN_STATES_def split: if_splits)
    have keeps: "keeps_plan ?h d" by (simp add: keeps_plan_def)
    have "settled_state (map (node_state ?d) (dn_deps x)) = settled_state (map (node_state d) (dn_deps x))"
    proof (rule settled_state_cong)
      fix k assume "k \<in> set (dn_deps x)"
      then obtain y where y: "y \<in> set (dg_nodes d)" "dn_key y = k" using dep_node [OF sh o] by blast
      note e = node_state_map [OF sh keeps nodes y(1)]
      show "node_state ?d k \<in> UNSATISFIABLE_NODE_STATES \<longleftrightarrow> node_state d k \<in> UNSATISFIABLE_NODE_STATES"
        "node_state ?d k = NodeState_SUCCEEDED \<longleftrightarrow> node_state d k = NodeState_SUCCEEDED"
        using e sh y assms(6) by (auto simp: UNSATISFIABLE_NODE_STATES_def split: if_splits)
    qed
    with assms(2) o x(2) show "dn_state x = settled_state (map (node_state ?d) (dn_deps x))" by (simp add: settled_row_def)
  qed
  ultimately show ?thesis by simp
qed

text \<open>A change of the nodes that stops every running attempt.\<close>

definition stop_attempt :: "DagAttempt \<Rightarrow> DagAttempt" where
  "stop_attempt a = (if at_state a = AttemptState_RUNNING then a\<lparr>at_state := AttemptState_INTERRUPTED\<rparr> else a)"

lemma stop_attempt_simps [simp]: "at_node_key (stop_attempt a) = at_node_key a" "at_number (stop_attempt a) = at_number a"
  "at_epoch (stop_attempt a) = at_epoch a" "at_state (stop_attempt a) \<noteq> AttemptState_RUNNING"
  by (simp_all add: stop_attempt_def)

lemma row_fine_map:
  assumes "dg_nodes d' = map h (dg_nodes d)" and "\<And>n. n \<in> set (dg_nodes d) \<Longrightarrow> node_fine (dg_retry_count d') (h n)"
    and "0 \<le> dg_epoch d'" "dg_epoch d' \<le> MAX_INT32" "(dg_epoch d' = 0) = (dg_owner d' = None)" "0 \<le> dg_retry_count d'"
  shows "row_fine d'"
  using assms by (auto simp: row_fine_def)

lemma attempts_ok_stop:
  assumes "attempts_ok d" and "dg_attempts d' = map stop_attempt (dg_attempts d)" and "dg_nodes d' = map h (dg_nodes d)"
    and "dg_epoch d \<le> dg_epoch d'"
    and h: "\<And>x. x \<in> set (dg_nodes d) \<Longrightarrow> dn_plan (h x) = dn_plan x \<and> dn_attempt_count (h x) = dn_attempt_count x
      \<and> dn_state (h x) \<noteq> NodeState_RUNNING"
  shows "attempts_ok d'"
proof (rule attempts_ok_map [OF assms(1-3)])
  fix a assume a: "a \<in> set (dg_attempts d)"
  then have "attempt_of d a" using assms(1) by (simp add: attempts_ok_def)
  then obtain x where "x \<in> set (dg_nodes d)" "dn_key x = at_node_key a" "1 \<le> at_number a" "at_number a \<le> dn_attempt_count x"
    by (auto simp: attempt_of_def)
  then show "attempt_of d' (stop_attempt a)"
    using h by (intro attempt_ofI [OF _ assms(3), of x]) auto
  show "attempt_fine (stop_attempt a)" "1 \<le> at_epoch (stop_attempt a) \<and> at_epoch (stop_attempt a) \<le> dg_epoch d'"
    using a assms(1,4) by (auto simp: attempts_ok_def stop_attempt_def attempt_fine_def)
next
  fix x assume x: "x \<in> set (dg_nodes d)"
  then have "node_has d x" using assms(1) by (simp add: attempts_ok_def)
  then show "node_has d' (h x)" using h [OF x] by (fastforce simp: node_has_def assms(2))
qed (simp add: stop_attempt_def)

lemma core_stop:
  assumes "dag_core d" and "dg_attempts d' = map stop_attempt (dg_attempts d)" and "dg_nodes d' = map h (dg_nodes d)" and "keeps_plan h d"
    and "skel d' = skel d" and "dg_epoch d \<le> dg_epoch d'" and "row_fine d'" and "states_ok d'"
    and count: "\<And>x. x \<in> set (dg_nodes d) \<Longrightarrow> dn_attempt_count (h x) = dn_attempt_count x"
    and keep: "\<And>x. x \<in> set (dg_nodes d) \<Longrightarrow> dn_state x = NodeState_SUCCEEDED \<Longrightarrow> dn_state (h x) = NodeState_SUCCEEDED"
    and new: "\<And>x. x \<in> set (dg_nodes d) \<Longrightarrow> dn_state (h x) \<noteq> NodeState_RUNNING
      \<and> (dn_state (h x) \<in> {NodeState_SUCCEEDED, NodeState_FAILED} \<longrightarrow> dn_state (h x) = dn_state x)"
  shows "dag_core d'"
proof -
  have sh: "shape d" "deps_done d" "attempts_ok d" using assms(1) by (simp_all add: dag_core_def)
  have "attempts_ok d'" using assms(4) count new by (intro attempts_ok_stop [OF sh(3) assms(2,3,6)]) (auto simp: keeps_plan_def)
  moreover have "deps_done d'" by (rule deps_done_map [OF sh(1,2) assms(4,3) keep]) (use new in \<open>force+\<close>)
  moreover have "shape d'" using sh(1) shape_skel [OF assms(5)] by simp
  ultimately show ?thesis using assms(7,8) by (simp add: dag_core_def)
qed

text \<open>The states of the nodes may change in a row that does not change its own state.\<close>

lemma states_ok_map:
  assumes "states_ok d" and "dg_nodes d' = map h (dg_nodes d)" and "dg_state d' = dg_state d \<or> dg_state d' = DagState_ACTIVE \<and> dg_state d \<noteq> DagState_CANCELLED"
    and "\<And>n. n \<in> set (dg_nodes d) \<Longrightarrow> dn_state (h n) = NodeState_SUCCEEDED \<longleftrightarrow> dn_state n = NodeState_SUCCEEDED"
    and "\<And>n. n \<in> set (dg_nodes d) \<Longrightarrow> dn_state (h n) = NodeState_CANCELLED \<longleftrightarrow> dn_state n = NodeState_CANCELLED"
    and "\<And>n. n \<in> set (dg_nodes d) \<Longrightarrow> dn_state (h n) = NodeState_RUNNING \<Longrightarrow> dn_state n = NodeState_RUNNING"
    and "\<And>n. n \<in> set (dg_nodes d) \<Longrightarrow> dg_state d = DagState_CANCELLED \<Longrightarrow> dn_state (h n) \<in> OPEN_STATES
      \<Longrightarrow> dn_state n \<in> OPEN_STATES \<or> dn_state n = NodeState_RUNNING"
    and "\<And>n. n \<in> set (dg_nodes d) \<Longrightarrow> dn_plan (h n) = dn_plan n"
  shows "states_ok d'"
proof -
  have st: "dg_state d' \<noteq> DagState_ACTIVE \<Longrightarrow> dg_state d = dg_state d'" "dg_state d' \<noteq> DagState_CANCELLED \<Longrightarrow> dg_state d \<noteq> DagState_CANCELLED"
    using assms(3) by auto
  have b: "(\<forall>n \<in> set (dg_nodes d'). P n) = (\<forall>n \<in> set (dg_nodes d). P (h n))" "(\<exists>n \<in> set (dg_nodes d'). P n) = (\<exists>n \<in> set (dg_nodes d). P (h n))"
    for P by (simp_all add: assms(2))
  have ok: "dg_state d \<noteq> DagState_ACTIVE \<Longrightarrow> \<forall>n \<in> set (dg_nodes d). dn_state n \<noteq> NodeState_RUNNING"
    "dg_state d = DagState_SUCCEEDED \<Longrightarrow> \<forall>n \<in> set (dg_nodes d). pn_required (dn_plan n) \<longrightarrow> dn_state n = NodeState_SUCCEEDED"
    "dg_state d = DagState_FAILED \<Longrightarrow> \<exists>n \<in> set (dg_nodes d). pn_required (dn_plan n) \<and> dn_state n \<noteq> NodeState_SUCCEEDED"
    "dg_state d = DagState_CANCELLED \<Longrightarrow> \<forall>n \<in> set (dg_nodes d). dn_state n \<notin> OPEN_STATES"
    "dg_state d \<noteq> DagState_CANCELLED \<Longrightarrow> \<forall>n \<in> set (dg_nodes d). dn_state n \<noteq> NodeState_CANCELLED"
    using assms(1) by (simp_all only: states_ok_def) blast+
  show ?thesis unfolding states_ok_def b
  proof (intro conjI impI ballI)
    assume "dg_state d' = DagState_FAILED"
    with st(1) have "dg_state d = DagState_FAILED" by auto
    from ok(3) [OF this] show "\<exists>n \<in> set (dg_nodes d). pn_required (dn_plan (h n)) \<and> dn_state (h n) \<noteq> NodeState_SUCCEEDED"
      using assms(4,8) by metis
  next
    fix n assume n: "n \<in> set (dg_nodes d)"
    show "dg_state d' \<noteq> DagState_ACTIVE \<Longrightarrow> dn_state (h n) \<noteq> NodeState_RUNNING" using ok(1) st(1) assms(6) [OF n] n by metis
    show "dg_state d' = DagState_SUCCEEDED \<Longrightarrow> pn_required (dn_plan (h n)) \<Longrightarrow> dn_state (h n) = NodeState_SUCCEEDED"
      using ok(2) st(1) assms(4,8) [OF n] n by (metis DagState.distinct(1))
    show "dg_state d' = DagState_CANCELLED \<Longrightarrow> dn_state (h n) \<notin> OPEN_STATES"
      using ok(1,4) st(1) assms(7) [OF n] n by (metis DagState.distinct(5))
    show "dg_state d' \<noteq> DagState_CANCELLED \<Longrightarrow> dn_state (h n) \<noteq> NodeState_CANCELLED" using ok(5) st(2) assms(5) [OF n] n by metis
  qed
qed

lemma interrupt_core:
  assumes "dag_core d"
  shows "dag_core (interrupt_running NodeState_READY d)"
proof -
  let ?d = "interrupt_running NodeState_READY d" let ?h = "\<lambda>n. if dn_state n = NodeState_RUNNING then n\<lparr>dn_state := NodeState_READY\<rparr> else n"
  have nodes: "dg_nodes ?d = map ?h (dg_nodes d)" "dg_attempts ?d = map stop_attempt (dg_attempts d)"
    by (auto simp: interrupt_running_def stop_attempt_def)
  have more: "dg_epoch ?d = dg_epoch d" "dg_owner ?d = dg_owner d" "dg_retry_count ?d = dg_retry_count d" "dg_state ?d = dg_state d"
    by (simp_all add: interrupt_running_def)
  have fine: "row_fine d" "states_ok d" using assms by (simp_all add: dag_core_def)
  have rf: "row_fine ?d" by (rule row_fine_map [OF nodes(1)]) (use fine(1) in \<open>auto simp: row_fine_def more node_fine_def\<close>)
  have so: "states_ok ?d" by (rule states_ok_map [OF fine(2) nodes(1)]) (auto simp: more OPEN_STATES_def split: if_splits)
  show ?thesis
    by (rule core_stop [OF assms nodes(2,1)]) (use rf so in \<open>auto simp: interrupt_skel more keeps_plan_def\<close>)
qed

lemma acquired_core:
  assumes "dag_core d" and "dg_state d \<noteq> DagState_CANCELLED" and "dg_epoch d + 1 \<le> MAX_INT32"
  shows "dag_core (dag_acquired w r d)"
proof -
  let ?d = "dag_acquired w r d"
  let ?re = "\<lambda>n. if r > dg_retry_count d \<and> dn_state n \<in> REOPENED_STATES
    then n\<lparr>dn_state := NodeState_PENDING, dn_rung_attempts := 0, dn_error_class := None\<rparr> else n"
  let ?h = "\<lambda>n. if dn_state (?re n) = NodeState_RUNNING then (?re n)\<lparr>dn_state := NodeState_READY\<rparr> else ?re n"
  have nodes: "dg_nodes ?d = map ?h (dg_nodes d)" "dg_attempts ?d = map stop_attempt (dg_attempts d)"
    by (auto simp: dag_acquired_def reopen_def interrupt_running_def stop_attempt_def)
  have more: "dg_epoch ?d = dg_epoch d + 1" "dg_owner ?d = Some w" "dg_retry_count ?d = max r (dg_retry_count d)"
    "dg_state ?d = (if r > dg_retry_count d \<and> dg_state d = DagState_FAILED then DagState_ACTIVE else dg_state d)"
    by (auto simp: dag_acquired_def reopen_def interrupt_running_def)
  have fine: "row_fine d" "states_ok d" using assms(1) by (simp_all add: dag_core_def)
  have "node_fine (max r (dg_retry_count d)) (?h n)" if n: "n \<in> set (dg_nodes d)" for n
  proof -
    have "node_fine (dg_retry_count d) n" using fine(1) n by (simp add: row_fine_def)
    then show ?thesis
      by (auto simp: node_fine_def REOPENED_STATES_def MAX_ATTEMPTS_PER_RUNG_def max_def)
  qed
  then have rf: "row_fine ?d"
    by (intro row_fine_map [OF nodes(1)]) (use fine(1) assms(3) in \<open>simp_all add: row_fine_def more le_max_iff_disj\<close>)
  have so: "states_ok ?d"
    by (rule states_ok_map [OF fine(2) nodes(1)]) (use assms(2) in \<open>auto simp: more REOPENED_STATES_def split: if_splits\<close>)
  show ?thesis
    by (rule core_stop [OF assms(1) nodes(2,1)])
      (use rf so in \<open>auto simp: acquired_skel more keeps_plan_def REOPENED_STATES_def\<close>)
qed

lemma cancel_core:
  assumes "dag_core d"
  shows "dag_core (dag_cancel_row d) \<and> settled_row (dag_cancel_row d)"
proof -
  let ?d = "dag_cancel_row d"
  let ?h = "\<lambda>n. if dn_state n \<in> {NodeState_RUNNING, NodeState_PENDING, NodeState_READY, NodeState_BLOCKED} then n\<lparr>dn_state := NodeState_CANCELLED\<rparr> else n"
  have nodes: "dg_nodes ?d = map ?h (dg_nodes d)" "dg_attempts ?d = map stop_attempt (dg_attempts d)"
    by (auto simp: dag_cancel_row_def Let_def interrupt_running_def stop_attempt_def)
  have more: "dg_epoch ?d = dg_epoch d" "dg_owner ?d = dg_owner d" "dg_retry_count ?d = dg_retry_count d" "dg_state ?d = DagState_CANCELLED"
    by (simp_all add: dag_cancel_row_def Let_def interrupt_running_def)
  have fine: "row_fine d" "states_ok d" using assms(1) by (simp_all add: dag_core_def)
  have closed: "dn_state (?h n) \<notin> OPEN_STATES \<and> dn_state (?h n) \<noteq> NodeState_RUNNING" for n by (cases "dn_state n") (auto simp: OPEN_STATES_def)
  have rf: "row_fine ?d" by (rule row_fine_map [OF nodes(1)]) (use fine(1) in \<open>auto simp: row_fine_def more node_fine_def\<close>)
  have "\<forall>n \<in> set (dg_nodes ?d). dn_state n \<notin> OPEN_STATES \<and> dn_state n \<noteq> NodeState_RUNNING"
    unfolding nodes(1) set_map using closed by blast
  then have so: "states_ok ?d" by (simp add: states_ok_def more)
  have "dag_core ?d"
    by (rule core_stop [OF assms(1) nodes(2,1)])
      (use rf so closed in \<open>auto simp: cancel_skel more keeps_plan_def\<close>)
  moreover have "settled_row ?d" unfolding settled_row_def nodes(1) set_map using closed by blast
  ultimately show ?thesis by simp
qed

end
