(* ===== verification/Dag_Runs.thy ===== *)
theory Dag_Runs
  imports Dag_Invariant
begin

text \<open>
  The runs of the DAG store: the invariant \<open>dag_ok\<close> holds of every stored row, epochs and attempts
  fence their holders, a settled row is never stuck, and the writes between two take-overs end.
\<close>

section \<open>The remaining changes\<close>

lemma same_nodes_core:
  assumes "dag_core d" and "dg_nodes d' = dg_nodes d" "skel d' = skel d" "dg_epoch d' = dg_epoch d" "dg_owner d' = dg_owner d"
    "dg_retry_count d' = dg_retry_count d" "states_ok d'" "attempts_ok d'"
  shows "dag_core d'"
proof -
  have ns: "node_state d' k = node_state d k" for k by (simp add: node_state_def dag_node_def assms(2))
  have "deps_done d'" "row_fine d'" using assms(1,2,4-6) by (simp_all add: dag_core_def deps_done_def row_fine_def ns)
  with assms shape_skel [OF assms(3)] show ?thesis by (simp add: dag_core_def)
qed

lemma same_nodes_settled: "settled_row d \<Longrightarrow> dg_nodes d' = dg_nodes d \<Longrightarrow> settled_row d'"
  by (simp add: settled_row_def node_state_def [abs_def] dag_node_def)

lemma same_nodes_attempts:
  assumes "attempts_ok d" and "dg_nodes d' = dg_nodes d" "dg_attempts d' = dg_attempts d" "dg_epoch d' = dg_epoch d"
  shows "attempts_ok d'"
  using assms by (simp add: attempts_ok_def attempt_of_def node_has_def)

lemma verdict_succeeded:
  assumes "shape d" and "dag_verdict (dag_views d) = DagVerdict_SUCCEEDED" and "n \<in> set (dg_nodes d)"
  shows "dn_state n \<notin> {NodeState_READY, NodeState_RUNNING}" "pn_required (dn_plan n) \<Longrightarrow> dn_state n = NodeState_SUCCEEDED"
  using assms by (auto simp: dag_verdict_def dag_views_shape list_ex_iff list_all_iff split: if_splits)

lemma verdict_failed:
  assumes "shape d" and "dag_verdict (dag_views d) = DagVerdict_FAILED"
  shows "n \<in> set (dg_nodes d) \<Longrightarrow> dn_state n \<notin> {NodeState_READY, NodeState_RUNNING}"
    "\<exists>n \<in> set (dg_nodes d). pn_required (dn_plan n) \<and> dn_state n \<noteq> NodeState_SUCCEEDED"
  using assms by (auto simp: dag_verdict_def dag_views_shape list_ex_iff list_all_iff split: if_splits)

lemma finalize_core:
  assumes "dag_core d" and "dg_state d = DagState_ACTIVE"
    and "st = DagState_SUCCEEDED \<and> dag_verdict (dag_views d) = DagVerdict_SUCCEEDED
      \<or> st = DagState_FAILED \<and> dag_verdict (dag_views d) = DagVerdict_FAILED"
  shows "dag_core (d\<lparr>dg_state := st\<rparr>)"
proof -
  have sh: "shape d" and so: "states_ok d" and att: "attempts_ok d" using assms(1) by (simp_all add: dag_core_def)
  have "states_ok (d\<lparr>dg_state := st\<rparr>)"
    using so assms(2,3) verdict_succeeded [OF sh] verdict_failed [OF sh] by (auto simp: states_ok_def)
  then show ?thesis
    by (intro same_nodes_core [OF assms(1)] same_nodes_attempts [OF att]) (simp_all add: skel_more)
qed

lemma place_core:
  assumes "dag_core d" and "(pl_placement p = Exec_CLOUD) = (pl_cloud p \<noteq> None)"
  shows "dag_core (placed_row k number p d)"
proof -
  let ?c = "\<lambda>x. if is_running_attempt k number x then x\<lparr>at_placement := Some p\<rparr> else x"
  let ?d = "placed_row k number p d"
  have att: "attempts_ok d" and so: "states_ok d" using assms(1) by (simp_all add: dag_core_def)
  have "attempts_ok ?d"
  proof (rule attempts_ok_map [OF att, of ?d ?c id])
    fix a assume "a \<in> set (dg_attempts d)"
    with att have a: "attempt_of d a" "attempt_fine a" "1 \<le> at_epoch a \<and> at_epoch a \<le> dg_epoch d" by (simp_all add: attempts_ok_def)
    show "attempt_of ?d (?c a)" using a(1) by (simp add: attempt_of_def placed_row_def)
    show "attempt_fine (?c a)" using a(2) assms(2) by (simp add: attempt_fine_def)
    show "1 \<le> at_epoch (?c a) \<and> at_epoch (?c a) \<le> dg_epoch ?d" using a(3) by (simp add: placed_row_def)
  next
    fix x assume "x \<in> set (dg_nodes d)"
    with att have "node_has d x" by (simp add: attempts_ok_def)
    moreover have "at_node_key (?c a) = at_node_key a" "at_number (?c a) = at_number a" "at_state (?c a) = at_state a" for a by simp_all
    moreover have "dg_attempts ?d = map ?c (dg_attempts d)" by (simp add: placed_row_def)
    ultimately show "node_has ?d (id x)" unfolding node_has_def by (simp only: set_map bex_simps id_apply)
  qed (simp_all add: placed_row_def)
  then show ?thesis
    using so by (intro same_nodes_core [OF assms(1)]) (simp_all add: placed_row_def skel_more states_ok_def)
qed

section \<open>The invariant\<close>

text \<open>A failed DAG has no node left to run.\<close>

definition failed_ok :: "DagRow \<Rightarrow> bool" where
  "failed_ok d \<longleftrightarrow> (dg_state d = DagState_FAILED \<longrightarrow> (\<forall>n \<in> set (dg_nodes d). dn_state n \<noteq> NodeState_READY))"

definition dag_ok :: "DagRow \<Rightarrow> bool" where
  "dag_ok d \<longleftrightarrow> dag_core d \<and> settled_row d \<and> failed_ok d"

lemma settle_state: "dag_settle d = Inr d' \<Longrightarrow> dg_state d' = dg_state d"
  by (auto simp: dag_settle_def split: option.splits)

lemma close_state: "close_attempt k number st ec sig d = Inr d' \<Longrightarrow> dg_state d' = dg_state d"
  by (auto simp: close_attempt_def split: if_splits)

lemma quiet_interrupt:
  assumes "dag_ok d" and "dg_state d \<noteq> DagState_ACTIVE"
  shows "dg_nodes (interrupt_running st d) = dg_nodes d"
  using assms by (auto simp: dag_ok_def dag_core_def states_ok_def interrupt_running_def intro!: map_idI)

lemma quiet_settle:
  assumes "dag_ok d" and "dg_nodes d1 = dg_nodes d" and "dag_core d1" and "dag_settle d1 = Inr d'"
  shows "d' = d1"
  using settle_id [of d1] same_nodes_settled [of d d1] assms by (simp add: dag_ok_def dag_core_def)

lemma owner_write_ok:
  assumes "owner_write d d'" and "dag_ok d"
  shows "dag_ok d'"
  using assms
proof (cases rule: owner_write.cases)
  case (start k n)
  with start_core [of d k n] assms(2) show ?thesis by (auto simp: dag_ok_def failed_ok_def dag_start_row_def upd_node_def)
next
  case (complete k number n r d1)
  from complete_core [OF _ complete(1-3)] assms(2) have "dag_core d1" by (simp add: dag_ok_def)
  moreover have "dg_state d' = DagState_ACTIVE"
    using settle_state [OF complete(4)] close_state [OF complete(3)] complete(1) by (simp add: upd_node_def)
  ultimately show ?thesis using settle_core [OF _ complete(4)] by (simp add: dag_ok_def failed_ok_def)
next
  case (fail k number n st ai ap args ec m sig d1)
  from fail_core [OF _ fail(1-5)] assms(2) have "dag_core d1" by (simp add: dag_ok_def)
  moreover have "dg_state d' = DagState_ACTIVE"
    using settle_state [OF fail(6)] close_state [OF fail(5)] fail(1) by (simp add: upd_node_def)
  ultimately show ?thesis using settle_core [OF _ fail(6)] by (simp add: dag_ok_def failed_ok_def)
next
  case (give_up k n ec)
  let ?d = "upd_node k (\<lambda>m. m\<lparr>dn_state := NodeState_FAILED, dn_error_class := Some ec\<rparr>) d"
  from give_up_core [OF _ _ give_up(1-3), of ec] assms(2) have "dag_core ?d" by (simp add: dag_ok_def)
  moreover have "dg_state d' = DagState_ACTIVE" using settle_state [OF give_up(4)] give_up(1) by (simp add: upd_node_def)
  ultimately show ?thesis using settle_core [OF _ give_up(4)] by (simp add: dag_ok_def failed_ok_def)
next
  case interrupt
  let ?d = "interrupt_running NodeState_READY d"
  have c: "dag_core ?d" using interrupt_core assms(2) by (simp add: dag_ok_def)
  note s = settle_core [OF c interrupt]
  have "failed_ok d'"
  proof (cases "dg_state d = DagState_ACTIVE")
    case True
    then show ?thesis using settle_state [OF interrupt] by (simp add: failed_ok_def interrupt_running_def)
  next
    case False
    have "d' = ?d" by (rule quiet_settle [OF assms(2) quiet_interrupt [OF assms(2) False] c interrupt])
    then show ?thesis using assms(2) quiet_interrupt [OF assms(2) False, of NodeState_READY]
      by (simp add: dag_ok_def failed_ok_def) (simp add: interrupt_running_def)
  qed
  with s show ?thesis by (simp add: dag_ok_def)
next
  case cancel
  with cancel_core [of d] assms(2) show ?thesis by (simp add: dag_ok_def failed_ok_def) (simp add: dag_cancel_row_def Let_def)
next
  case succeed
  with finalize_core [of d DagState_SUCCEEDED] assms(2) same_nodes_settled [of d d'] show ?thesis
    by (simp add: dag_ok_def failed_ok_def)
next
  case fail_dag
  with finalize_core [of d DagState_FAILED] verdict_failed(1) [of d] assms(2) same_nodes_settled [of d d'] show ?thesis
    by (auto simp: dag_ok_def failed_ok_def dag_core_def)
next
  case (place k number a p)
  with place_core [of d p k number] assms(2) same_nodes_settled [of d d'] show ?thesis
    by (simp add: dag_ok_def failed_ok_def placed_row_def)
qed

lemma take_over_ok:
  assumes "take_over d d'" and "dag_ok d"
  shows "dag_ok d'"
  using assms
proof (cases rule: take_over.cases)
  case (take_over w r)
  have c: "dag_core (dag_acquired w r d)" using acquired_core [OF _ take_over(1,2)] assms(2) by (simp add: dag_ok_def)
  have "failed_ok d'"
  proof (cases "dg_state d = DagState_FAILED \<and> \<not> dg_retry_count d < r")
    case True
    then have "dg_nodes (dag_acquired w r d) = dg_nodes (interrupt_running NodeState_READY d)"
      by (simp add: dag_acquired_def reopen_def interrupt_running_def)
    with quiet_interrupt [OF assms(2)] True have same: "dg_nodes (dag_acquired w r d) = dg_nodes d" by simp
    then have "d' = dag_acquired w r d" using quiet_settle [OF assms(2) _ c take_over(3)] by simp
    with same True assms(2) show ?thesis by (simp add: dag_ok_def failed_ok_def)
  next
    case False
    then have "dg_state d' \<noteq> DagState_FAILED"
      using settle_state [OF take_over(3)] by (auto simp: dag_acquired_def reopen_def interrupt_running_def)
    then show ?thesis by (simp add: failed_ok_def)
  qed
  with settle_core [OF c take_over(3)] show ?thesis by (simp add: dag_ok_def)
qed

section \<open>A created row\<close>

lemma check_rungs_range:
  assumes "check_rungs p m = Inr rungs" and "map_of rungs k = Some r"
  shows "0 \<le> r \<and> r < int MAX_LADDER_LENGTH"
proof -
  let ?f = "\<lambda>n. if (pn_agent n = None) \<noteq> (pn_key n \<notin> fst ` set m) then Inl (Dag_argument ''start_rungs'')
        else (case map_of m (pn_key n) of
                None \<Rightarrow> Inr []
              | Some v \<Rightarrow> rbind (dag_check_int ''start_rungs'' v 0 (int MAX_LADDER_LENGTH - 1)) (\<lambda>i. Inr [(pn_key n, i)]))"
  have "each ?f (plan_nodes p) = Inr found \<Longrightarrow> list_all2 (\<lambda>n xs. ?f n = Inr xs) (plan_nodes p) found" for found
    by (simp only: each_Inr)
  with assms(1) obtain found where found: "list_all2 (\<lambda>n xs. ?f n = Inr xs) (plan_nodes p) found" and r: "rungs = concat found"
    unfolding check_rungs_def rbind_eq_Inr_iff if_Inl_Inr by blast
  have ok: "0 \<le> i \<and> i < int MAX_LADDER_LENGTH" if "?f n = Inr xs" "(j, i) \<in> set xs" for n xs i j
    using that by (auto simp: rbind_eq_Inr_iff dag_check_int_Inr split: if_splits option.splits)
  from map_of_SomeD [OF assms(2)] r obtain xs where xs: "xs \<in> set found" "(k, r) \<in> set xs" by auto
  then obtain i where "i < length found" "found ! i = xs" by (auto simp: in_set_conv_nth)
  with list_all2_nthD2 [OF found] have "?f (plan_nodes p ! i) = Inr xs" by blast
  from ok [OF this xs(2)] show ?thesis .
qed

lemma created_ok:
  assumes "created d"
  shows "dag_ok d"
proof -
  from assms obtain frepr tid att p run initial rungs m where p: "plan_ok p" "check_rungs p m = Inr rungs"
    "settle_states (plan_views p) = Some initial" "1 \<le> att" "\<forall>r. run = Some r \<longrightarrow> 0 \<le> run_retry_count r"
    and d: "d = new_dag frepr tid att p run initial rungs" by (auto simp: created_def)
  let ?d = "new_dag frepr tid att p run Map.empty rungs"
  let ?N = "plan_nodes p"
  have plans: "map dn_plan (dg_nodes ?d) = ?N"
    by (simp add: new_dag_def new_node_def comp_def case_prod_unfold)
  have ords: "map dn_ordinal (dg_nodes ?d) = map int [0..<length (dg_nodes ?d)]"
    by (rule nth_equalityI) (auto simp: new_dag_def new_node_def nth_enumerate_eq)
  have sh: "shape ?d"
    unfolding shape_def plans ords using p(1,4) by (simp add: new_dag_def plan_ok_def Plan_edges_def)
  have st: "dn_state n = NodeState_PENDING \<and> dn_attempt_count n = 0 \<and> dn_rung_attempts n = 0 \<and> dn_approach n = 0 \<and> dn_result n = None
      \<and> 0 \<le> dn_agent_index n \<and> dn_agent_index n < int MAX_LADDER_LENGTH" if "n \<in> set (dg_nodes ?d)" for n
    using that check_rungs_range [OF p(2)] by (auto simp: new_dag_def new_node_def MAX_LADDER_LENGTH_def split: option.splits)
  have retry: "0 \<le> dg_retry_count ?d" using p(5) by (auto simp: new_dag_def split: option.splits)
  have more: "dg_epoch ?d = 0" "dg_owner ?d = None" "dg_state ?d = DagState_ACTIVE" "dg_attempts ?d = []" by (simp_all add: new_dag_def)
  have "dag_core ?d"
    using st retry sh by (auto simp: dag_core_def deps_done_def row_fine_def node_fine_def states_ok_def attempts_ok_def node_has_def more
        MAX_INT32_def MAX_ATTEMPTS_PER_RUNG_def MAX_APPROACH_def)
  moreover have "dag_settle ?d = Inr d"
  proof -
    have "dag_views ?d = plan_views p" unfolding dag_views_shape [OF sh]
      by (simp add: new_dag_def plan_views_def new_node_def nview_def comp_def case_prod_unfold)
    then show ?thesis using p(3) by (auto simp: dag_settle_def d new_dag_def new_node_def comp_def split: option.splits)
  qed
  ultimately have "dag_core d \<and> settled_row d" by (rule settle_core)
  moreover have "dg_state d = DagState_ACTIVE" by (simp add: d new_dag_def)
  ultimately show ?thesis by (simp add: dag_ok_def failed_ok_def)
qed

interpretation dag_rows: row_invariant dag_ok
  by unfold_locales (simp_all add: created_ok owner_write_ok take_over_ok)

lemma row_steps_ok: "dag_row_step\<^sup>*\<^sup>* d d' \<Longrightarrow> dag_ok d \<Longrightarrow> dag_ok d'"
  by (induction rule: rtranclp_induct) (auto intro: owner_write_ok take_over_ok)

section \<open>Fencing\<close>

definition epoch_of :: "uuid \<Rightarrow> dag_db \<Rightarrow> int" where
  "epoch_of i s = (case dag_of s i of None \<Rightarrow> -1 | Some d \<Rightarrow> dg_epoch d)"

lemma settle_more: "dag_settle d = Inr d' \<Longrightarrow> dg_epoch d' = dg_epoch d \<and> dg_attempts d' = dg_attempts d \<and> dg_retry_count d' = dg_retry_count d"
  by (auto simp: dag_settle_def split: option.splits)

lemma close_more: "close_attempt k number st ec sig d = Inr d' \<Longrightarrow> dg_epoch d' = dg_epoch d \<and> dg_nodes d' = dg_nodes d
    \<and> dg_retry_count d' = dg_retry_count d"
  by (auto simp: close_attempt_def split: if_splits)

lemma acquired_more: "dg_epoch (dag_acquired w r d) = dg_epoch d + 1" "dg_attempts (dag_acquired w r d) = map stop_attempt (dg_attempts d)"
  by (auto simp: dag_acquired_def reopen_def interrupt_running_def stop_attempt_def)

lemma owner_write_epoch: "owner_write d d' \<Longrightarrow> dg_epoch d' = dg_epoch d \<and> dg_retry_count d' = dg_retry_count d"
  by (induction rule: owner_write.induct)
    (auto simp: dag_start_row_def upd_node_def interrupt_running_def dag_cancel_row_def Let_def placed_row_def dest!: settle_more close_more)

lemma take_over_epoch: "take_over d d' \<Longrightarrow> dg_epoch d' = dg_epoch d + 1"
  by (auto elim!: take_over.cases dest!: settle_more simp: acquired_more)

interpretation dag_fence: fencing dstep "epoch_of i" for i
proof
  fix s t assume st: "dstep s t"
  show "epoch_of i s \<le> epoch_of i t"
  proof (cases "dag_of s i")
    case None
    from st have "\<forall>d. dag_of t i = Some d \<longrightarrow> 0 \<le> dg_epoch d"
      by (rule dstep_cases) (auto simp: row_changes_def None created_def new_dag_def split: if_splits)
    then show ?thesis by (auto simp: epoch_of_def None split: option.splits)
  next
    case (Some d)
    with dstep_row [OF st] obtain d' where "dag_of t i = Some d'" "d' = d \<or> dag_row_step d d'" by blast
    then show ?thesis using owner_write_epoch [of d d'] take_over_epoch [of d d'] by (auto simp: epoch_of_def Some)
  qed
qed

definition refused :: "dag_error + 'a \<Rightarrow> bool" where
  "refused r \<longleftrightarrow> r = Inl StaleDagEpochError \<or> (\<exists>name. r = Inl (Dag_argument name))"

definition arg_check :: "dag_error + 'a \<Rightarrow> bool" where
  "arg_check r \<longleftrightarrow> (\<forall>e. r = Inl e \<longrightarrow> e = StaleDagEpochError \<or> (\<exists>name. e = Dag_argument name))"

lemma refused_rbind: "arg_check r \<Longrightarrow> (\<And>a. r = Inr a \<Longrightarrow> refused (f a)) \<Longrightarrow> refused (rbind r f)"
  by (cases r) (auto simp: refused_def arg_check_def)

lemma arg_checks:
  "arg_check (dag_check_uuid name v)" "arg_check (dag_check_int name v lo hi)" "arg_check (dag_check_label name v m)"
  "arg_check (check_epoch v)" "arg_check (dag_check_number v)" "arg_check (dag_check_signature v)" "arg_check (dag_check_agent v)"
  "arg_check (check_model v)" "arg_check (check_step st ai ap)"
  by (auto simp: arg_check_def dag_check_uuid_def dag_check_int_def dag_check_label_def check_epoch_def dag_check_number_def
      dag_check_signature_def dag_check_agent_def check_model_def check_step_def rbind_eq_Inl_iff split: pyval.splits if_splits)

lemma arg_check_case: "arg_check (case x of Inst y \<Rightarrow> Inr y | Other \<Rightarrow> Inl (Dag_argument name))"
  by (auto simp: arg_check_def split: arg.splits)

lemma stale_open:
  assumes "dag_of s i = Some d" and "dg_epoch d \<noteq> e"
  shows "open_dag i (Some e) active chk running s = Inl StaleDagEpochError"
  using assms by (simp add: open_dag_def)

lemma stale_refused:
  assumes "dag_of s i = Some d" and "dg_epoch d \<noteq> e"
  shows "refused (dag_start_node (PyUuid i) (PyInt e) key limit s)"
    "refused (dag_complete_node (PyUuid i) (PyInt e) key number res s)"
    "refused (dag_fail_node (PyUuid i) (PyInt e) key number ec sig st ai ap s)"
    "refused (dag_give_up_node (PyUuid i) (PyInt e) key ec s)"
    "refused (dag_interrupt (PyUuid i) (PyInt e) s)"
    "refused (dag_cancel (PyUuid i) (PyInt e) s)"
    "refused (dag_finalize (PyUuid i) (PyInt e) s)"
    "refused (dag_record_placement chk aid (PyUuid i) (PyInt e) key number pl agent model cloud s)"
proof -
  have op: "open_dag j (Some e') active c running s = Inl StaleDagEpochError"
    if "dag_check_uuid name (PyUuid i) = Inr j" "check_epoch (PyInt e) = Inr e'" for j e' active c running name
    using that stale_open [OF assms] by (simp add: dag_check_uuid_Inr check_epoch_def dag_check_int_Inr)
  note r = refused_rbind arg_checks arg_check_case
  show "refused (dag_start_node (PyUuid i) (PyInt e) key limit s)" unfolding dag_start_node_def by (intro r) (simp_all add: op refused_def arg_check_def)
  show "refused (dag_complete_node (PyUuid i) (PyInt e) key number res s)" unfolding dag_complete_node_def
    by (intro r) (simp_all add: op refused_def arg_check_def)
  show "refused (dag_fail_node (PyUuid i) (PyInt e) key number ec sig st ai ap s)" unfolding dag_fail_node_def
    by (intro r) (simp_all add: op refused_def arg_check_def)
  show "refused (dag_give_up_node (PyUuid i) (PyInt e) key ec s)" unfolding dag_give_up_node_def by (intro r) (simp_all add: op refused_def arg_check_def)
  show "refused (dag_interrupt (PyUuid i) (PyInt e) s)" unfolding dag_interrupt_def by (intro r) (simp_all add: op refused_def arg_check_def)
  show "refused (dag_cancel (PyUuid i) (PyInt e) s)" unfolding dag_cancel_def by (intro r) (simp_all add: op refused_def arg_check_def)
  show "refused (dag_finalize (PyUuid i) (PyInt e) s)" unfolding dag_finalize_def by (intro r) (simp_all add: op refused_def arg_check_def)
  show "refused (dag_record_placement chk aid (PyUuid i) (PyInt e) key number pl agent model cloud s)"
    unfolding dag_record_placement_def
    by (intro r) (auto simp: op refused_def arg_check_def rbind_def split: option.splits arg.splits)
qed

section \<open>Closed attempts\<close>

lemma close_keeps: "close_attempt k number st ec sig d = Inr d' \<Longrightarrow> a \<in> set (dg_attempts d) \<Longrightarrow> at_state a \<noteq> AttemptState_RUNNING
    \<Longrightarrow> a \<in> set (dg_attempts d')"
  by (force simp: close_attempt_def is_running_attempt_def split: if_splits)

lemma stop_keeps: "a \<in> set as \<Longrightarrow> at_state a \<noteq> AttemptState_RUNNING \<Longrightarrow> a \<in> set (map stop_attempt as)"
  by (force simp: stop_attempt_def)

lemma interrupt_attempts: "dg_attempts (interrupt_running st d) = map stop_attempt (dg_attempts d)"
  by (simp add: interrupt_running_def stop_attempt_def [abs_def])

lemma closed_kept_write:
  assumes "owner_write d d'" and "a \<in> set (dg_attempts d)" and "at_state a \<noteq> AttemptState_RUNNING"
  shows "a \<in> set (dg_attempts d')"
  using assms
proof (induction rule: owner_write.induct)
  case (complete d k number n r d1 d2)
  then show ?case using settle_more [OF complete(4)] close_keeps [OF complete(3)] by (simp add: upd_node_def)
next
  case (fail d k number n step ai ap args ec m sig d1 d2)
  then show ?case using settle_more [OF fail(6)] close_keeps [OF fail(5)] by (simp add: upd_node_def)
next
  case (interrupt d d1)
  then show ?case using settle_more [OF interrupt(1)] stop_keeps by (simp add: interrupt_attempts)
next
  case (cancel d)
  then show ?case using stop_keeps by (simp add: dag_cancel_row_def Let_def interrupt_attempts)
next
  case (place d k number b p)
  then show ?case by (force simp: placed_row_def is_running_attempt_def)
qed (auto simp: dag_start_row_def upd_node_def dest!: settle_more)

lemma closed_kept_take:
  "take_over d d' \<Longrightarrow> a \<in> set (dg_attempts d) \<Longrightarrow> at_state a \<noteq> AttemptState_RUNNING \<Longrightarrow> a \<in> set (dg_attempts d')"
  using stop_keeps by (auto elim!: take_over.cases dest!: settle_more simp: acquired_more)

lemma closed_kept:
  assumes "dag_row_step\<^sup>*\<^sup>* d d'" and "a \<in> set (dg_attempts d)" and "at_state a \<noteq> AttemptState_RUNNING"
  shows "a \<in> set (dg_attempts d')"
  using assms by (induction rule: rtranclp_induct) (auto intro: closed_kept_write closed_kept_take)

lemma closed_not_running:
  assumes "attempts_ok d" and "a \<in> set (dg_attempts d)" and "at_state a \<noteq> AttemptState_RUNNING"
  shows "\<not> list_ex (is_running_attempt (at_node_key a) (at_number a)) (dg_attempts d)"
proof
  assume "list_ex (is_running_attempt (at_node_key a) (at_number a)) (dg_attempts d)"
  then obtain b where b: "b \<in> set (dg_attempts d)" "at_node_key b = at_node_key a" "at_number b = at_number a" "at_state b = AttemptState_RUNNING"
    by (auto simp: list_ex_iff is_running_attempt_def)
  have "distinct (map (\<lambda>a. (at_node_key a, at_number a)) (dg_attempts d))" using assms(1) by (simp add: attempts_ok_def)
  with assms(2) b have "a = b" by (auto simp: distinct_map dest: inj_onD)
  with b(4) assms(3) show False by simp
qed

end
