(* ===== verification/Dag_Progress.thy ===== *)
theory Dag_Progress
  imports Dag_Runs
begin

text \<open>
  Progress of a DAG: what the state of every node says of its dependencies, how far a failure reaches,
  how many attempts a node can have, that an active DAG always accepts a write of its owner, and
  that these writes come to an end.
\<close>

section \<open>What the states say\<close>

abbreviation dag_deps :: "DagRow \<Rightarrow> (pystr \<times> pystr) set" where
  "dag_deps d \<equiv> dep_rel (map dn_plan (dg_nodes d))"

lemma ok_parts:
  assumes "dag_ok d"
  shows "shape d" "settled_row d" "deps_done d" "row_fine d" "states_ok d" "attempts_ok d"
  using assms by (simp_all add: dag_ok_def dag_core_def)

lemma dag_deps_iff: "(k, l) \<in> dag_deps d \<longleftrightarrow> (\<exists>n \<in> set (dg_nodes d). dn_key n = l \<and> k \<in> set (dn_deps n))"
  by (auto simp: dep_rel_def)

lemma view_deps_dag: "shape d \<Longrightarrow> view_deps (dag_views d) = dag_deps d"
proof -
  assume sh: "shape d"
  have "(k, l) \<in> view_deps ns \<longleftrightarrow> (\<exists>v \<in> set ns. nv_key v = l \<and> k \<in> set (nv_depends_on v))" for k l ns
    by (auto simp: view_deps_def)
  then have "(k, l) \<in> view_deps (dag_views d) \<longleftrightarrow> (k, l) \<in> dag_deps d" for k l
    unfolding dag_deps_iff by (simp add: dag_views_shape [OF sh])
  then show ?thesis by auto
qed

lemma done_iff:
  assumes "dag_ok d" and "dg_state d \<noteq> DagState_CANCELLED" and "n \<in> set (dg_nodes d)"
  shows "dn_state n \<in> {NodeState_READY, NodeState_RUNNING, NodeState_SUCCEEDED, NodeState_FAILED}
    \<longleftrightarrow> (\<forall>k \<in> set (dn_deps n). node_state d k = NodeState_SUCCEEDED)"
proof
  note ok = ok_parts [OF assms(1)]
  show "\<forall>k \<in> set (dn_deps n). node_state d k = NodeState_SUCCEEDED"
    if s: "dn_state n \<in> {NodeState_READY, NodeState_RUNNING, NodeState_SUCCEEDED, NodeState_FAILED}"
  proof (cases "dn_state n = NodeState_READY")
    case True
    then have "settled_state (map (node_state d) (dn_deps n)) = NodeState_READY"
      using ok(2) assms(3) by (auto simp: settled_row_def OPEN_STATES_def)
    then show ?thesis using settled_ready [of "node_state d" "dn_deps n"] by blast
  next
    case False
    then show ?thesis using s ok(3) assms(3) by (auto simp: deps_done_def)
  qed
  assume all: "\<forall>k \<in> set (dn_deps n). node_state d k = NodeState_SUCCEEDED"
  then have "settled_state (map (node_state d) (dn_deps n)) = NodeState_READY"
    by (auto simp: settled_state_def list_ex_iff list_all_iff UNSATISFIABLE_NODE_STATES_def)
  moreover have "dn_state n \<noteq> NodeState_CANCELLED" using ok(5) assms(2,3) by (auto simp: states_ok_def)
  ultimately show "dn_state n \<in> {NodeState_READY, NodeState_RUNNING, NodeState_SUCCEEDED, NodeState_FAILED}"
    using ok(2) assms(3) by (cases "dn_state n") (auto simp: settled_row_def OPEN_STATES_def)
qed

lemma blocked_from:
  assumes "dag_ok d" and "dg_state d \<noteq> DagState_CANCELLED"
    and "(k, l) \<in> (dag_deps d)\<^sup>+" and "node_state d k \<in> {NodeState_FAILED, NodeState_BLOCKED}"
  shows "node_state d l = NodeState_BLOCKED"
proof -
  note ok = ok_parts [OF assms(1)]
  have edge: "node_state d z = NodeState_BLOCKED" if "(y, z) \<in> dag_deps d" "node_state d y \<in> {NodeState_FAILED, NodeState_BLOCKED}" for y z
  proof -
    from that(1) obtain n where n: "n \<in> set (dg_nodes d)" "dn_key n = z" "y \<in> set (dn_deps n)" by (auto simp: dag_deps_iff)
    have "\<not> (\<forall>k \<in> set (dn_deps n). node_state d k = NodeState_SUCCEEDED)" using n(3) that(2) by force
    then have "dn_state n \<notin> {NodeState_READY, NodeState_RUNNING, NodeState_SUCCEEDED, NodeState_FAILED}"
      using done_iff [OF assms(1,2) n(1)] by blast
    moreover have "dn_state n \<noteq> NodeState_CANCELLED" using ok(5) assms(2) n(1) by (auto simp: states_ok_def)
    ultimately have op: "dn_state n \<in> OPEN_STATES" by (cases "dn_state n") (auto simp: OPEN_STATES_def)
    have "settled_state (map (node_state d) (dn_deps n)) = NodeState_BLOCKED"
      using n(3) that(2) by (auto simp: settled_state_def list_ex_iff UNSATISFIABLE_NODE_STATES_def)
    with op ok(2) n(1) have "dn_state n = NodeState_BLOCKED" by (auto simp: settled_row_def)
    with n ok(1) show ?thesis by auto
  qed
  from assms(3) show ?thesis by (induction rule: trancl_induct) (auto intro: edge edge [OF _ assms(4)])
qed

lemma blocked_iff:
  assumes "dag_ok d" and "dg_state d \<noteq> DagState_CANCELLED" and "n \<in> set (dg_nodes d)"
  shows "dn_state n = NodeState_BLOCKED \<longleftrightarrow> (\<exists>m \<in> set (dg_nodes d). dn_state m = NodeState_FAILED \<and> (dn_key m, dn_key n) \<in> (dag_deps d)\<^sup>+)"
proof
  note ok = ok_parts [OF assms(1)]
  let ?V = "dag_views d"
  assume b: "dn_state n = NodeState_BLOCKED"
  have v: "nview n \<in> set ?V" using assms(3) by (simp add: dag_views_shape [OF ok(1)])
  have "settled_views ?V" using ok(1,2) by (simp add: settled_row_views)
  then have "settled ?V (dn_key n) = NodeState_BLOCKED" using v b by (auto simp: settled_views_def)
  then obtain k where k: "broken ?V k" "(k, dn_key n) \<in> (open_deps ?V)\<^sup>*"
    using unsat_iff_broken [OF shape_views [OF ok(1)] v] by (auto simp: UNSATISFIABLE_NODE_STATES_def)
  from k(1) obtain m where m: "m \<in> set (dg_nodes d)" "dn_key m = k" "dn_state m \<in> {NodeState_FAILED, NodeState_CANCELLED}"
    by (auto simp: broken_def dag_views_shape [OF ok(1)])
  then have f: "dn_state m = NodeState_FAILED" using ok(5) assms(2) by (auto simp: states_ok_def)
  have "(a, b) \<in> dag_deps d" if "(a, b) \<in> open_deps ?V" for a b
    using that unfolding dag_deps_iff by (fastforce simp: open_deps_def dag_views_shape [OF ok(1)])
  then have "open_deps ?V \<subseteq> dag_deps d" by auto
  moreover have "k \<noteq> dn_key n" using m f b shape_inj [OF ok(1) m(1) assms(3)] by auto
  ultimately have "(k, dn_key n) \<in> (dag_deps d)\<^sup>+" using k(2) by (metis rtrancl_eq_or_trancl rtrancl_mono subsetD)
  with m f show "\<exists>m \<in> set (dg_nodes d). dn_state m = NodeState_FAILED \<and> (dn_key m, dn_key n) \<in> (dag_deps d)\<^sup>+" by blast
next
  assume "\<exists>m \<in> set (dg_nodes d). dn_state m = NodeState_FAILED \<and> (dn_key m, dn_key n) \<in> (dag_deps d)\<^sup>+"
  then obtain m where m: "m \<in> set (dg_nodes d)" "dn_state m = NodeState_FAILED" "(dn_key m, dn_key n) \<in> (dag_deps d)\<^sup>+" by blast
  have "node_state d (dn_key m) \<in> {NodeState_FAILED, NodeState_BLOCKED}" using m ok_parts(1) [OF assms(1)] by simp
  from blocked_from [OF assms(1,2) m(3) this] assms(3) ok_parts(1) [OF assms(1)] show "dn_state n = NodeState_BLOCKED" by simp
qed

section \<open>What a failure reaches\<close>

lemma settle_upd_state:
  assumes "shape d" and "settled_row d" and "dag_node d k = Some n" and "dn_plan m = dn_plan n" "dn_ordinal m = dn_ordinal n"
    and "dg_nodes d1 = dg_nodes (upd_node k (\<lambda>_. m) d)" and "skel d1 = skel d" and "dag_settle d1 = Inr d'"
    and x: "x \<in> set (dg_nodes d)" "dn_key x \<noteq> k" "(k, dn_key x) \<notin> (dag_deps d)\<^sup>+"
  shows "dag_node d' (dn_key x) = Some x"
proof -
  let ?h = "\<lambda>y. if y = n then m else y"
  have sh1: "shape d1" using assms(1) shape_skel [OF assms(7)] by simp
  have nodes: "dg_nodes d1 = map ?h (dg_nodes d)" using assms(6) upd_node_map [OF assms(1,3)] by (simp add: set_nodes_def)
  have kn: "dn_key n = k" "n \<in> set (dg_nodes d)" using dag_node_Some [OF assms(3)] by auto
  let ?s = "node_state d" let ?s' = "?s(k := dn_state m)"
  have keeps: "keeps_plan ?h d" using assms(4,5) by (simp add: keeps_plan_def)
  have "nview y = (nview y)\<lparr>nv_state := ?s (dn_key y)\<rparr>" if "y \<in> set (dg_nodes d)" for y
    using that assms(1) by (simp add: nview_def)
  then have v: "dag_views d = with_states ?s (dag_views d)"
    unfolding dag_views_shape [OF assms(1)] with_states_def map_map by (intro map_cong) simp_all
  have one: "nview (?h y) = (nview y)\<lparr>nv_state := ?s' (dn_key y)\<rparr>" if y: "y \<in> set (dg_nodes d)" for y
  proof (cases "y = n")
    case True
    then show ?thesis using kn assms(4,5) by (simp add: nview_def)
  next
    case False
    then have "dn_key y \<noteq> k" using shape_inj [OF assms(1) y kn(2)] kn(1) by auto
    then show ?thesis using False y assms(1) by (simp add: nview_def)
  qed
  have v1: "dag_views d1 = with_states ?s' (dag_views d)"
    unfolding dag_views_shape [OF sh1] dag_views_shape [OF assms(1)] nodes with_states_def map_map
    using one by (intro map_cong) simp_all
  have nx: "nview x \<in> set (dag_views d)" using x(1) by (simp add: dag_views_shape [OF assms(1)])
  have "dn_key x \<notin> transitive_dependents (dag_views d) k"
    using x(3) by (simp add: transitive_dependents_trancl [OF shape_views [OF assms(1)]] view_deps_dag [OF assms(1)])
  then have "settled (with_states ?s (dag_views d)) (dn_key x) = settled (with_states ?s' (dag_views d)) (dn_key x)"
    using isolation [OF shape_views [OF assms(1)] nx, of k ?s ?s'] x(2) by simp
  then have eq: "settled (dag_views d1) (dn_key x) = dn_state x"
    using v v1 assms(1,2) x(1) nx by (auto simp: settled_row_views settled_views_def)
  have hx: "x \<in> set (dg_nodes d1)" using x kn by (force simp: nodes)
  have "d' = set_nodes (\<lambda>n. n\<lparr>dn_state := settled (dag_views d1) (dn_key n)\<rparr>) d1" using settle_total [OF sh1] assms(8) by simp
  then have "x \<in> set (dg_nodes d')" using hx eq by (force simp: set_nodes_def intro!: image_eqI [of _ _ x])
  then show ?thesis using shape_node [of d' x] shape_skel [of d' d1] settle_skel [OF assms(8)] sh1 by simp
qed

section \<open>How many attempts\<close>

lemma attempt_numbers:
  assumes "dag_ok d" and "n \<in> set (dg_nodes d)"
  shows "at_number ` {a \<in> set (dg_attempts d). at_node_key a = dn_key n} = {1..dn_attempt_count n}"
proof -
  note ok = ok_parts [OF assms(1)]
  have "1 \<le> at_number a \<and> at_number a \<le> dn_attempt_count n" if "a \<in> set (dg_attempts d)" "at_node_key a = dn_key n" for a
  proof -
    have "attempt_of d a" using ok(6) that(1) by (simp add: attempts_ok_def)
    then obtain x where "x \<in> set (dg_nodes d)" "dn_key x = at_node_key a" "1 \<le> at_number a" "at_number a \<le> dn_attempt_count x"
      by (auto simp: attempt_of_def)
    with shape_inj [OF ok(1) _ assms(2), of x] that(2) show ?thesis by auto
  qed
  moreover have "\<exists>a \<in> set (dg_attempts d). at_node_key a = dn_key n \<and> at_number a = j" if "1 \<le> j" "j \<le> dn_attempt_count n" for j
    using ok(6) assms(2) that by (fastforce simp: attempts_ok_def node_has_def)
  ultimately show ?thesis by (fastforce simp: image_iff)
qed

lemma attempt_rows:
  assumes "dag_ok d" and "n \<in> set (dg_nodes d)"
  shows "int (length (filter (\<lambda>a. at_node_key a = dn_key n) (dg_attempts d))) = dn_attempt_count n"
proof -
  note ok = ok_parts [OF assms(1)]
  let ?as = "filter (\<lambda>a. at_node_key a = dn_key n) (dg_attempts d)"
  have "distinct (map (\<lambda>a. (at_node_key a, at_number a)) (dg_attempts d))" using ok(6) by (simp add: attempts_ok_def)
  then have "inj_on at_number (set ?as)" "distinct ?as" by (auto simp: distinct_map inj_on_def)
  then have "length ?as = card (at_number ` set ?as)" by (simp only: card_image distinct_card)
  also have "\<dots> = card {1..dn_attempt_count n}" using attempt_numbers [OF assms] by (simp add: Collect_conj_eq Int_commute)
  finally show ?thesis using ok(4) assms(2) by (auto simp: row_fine_def node_fine_def)
qed

section \<open>The writes of an owner end\<close>

abbreviation weight :: "(DagNode \<Rightarrow> nat) \<Rightarrow> DagRow \<Rightarrow> nat" where
  "weight f d \<equiv> sum_list (map f (dg_nodes d))"

text \<open>The starts a node has left without a Retry, and the measures that a write lowers.\<close>

definition starts_left :: "DagNode \<Rightarrow> nat" where
  "starts_left n = nat (int MAX_LADDER_LENGTH * MAX_ATTEMPTS_PER_RUNG - (dn_agent_index n * MAX_ATTEMPTS_PER_RUNG + dn_rung_attempts n))"

definition is_running :: "DagNode \<Rightarrow> nat" where
  "is_running n = (if dn_state n = NodeState_RUNNING then 1 else 0)"

definition is_open :: "DagNode \<Rightarrow> nat" where
  "is_open n = (if dn_state n \<in> insert NodeState_RUNNING OPEN_STATES then 1 else 0)"

definition unplaced :: "DagRow \<Rightarrow> nat" where
  "unplaced d = length (filter (\<lambda>a. at_state a = AttemptState_RUNNING \<and> at_placement a = None) (dg_attempts d))"

definition write_order :: "(DagRow \<times> DagRow) set" where
  "write_order = measures [weight starts_left, weight is_running, weight is_open, \<lambda>d. if dg_state d = DagState_ACTIVE then 1 else 0, unplaced]"

lemma weight_le:
  assumes "dg_nodes d' = map h (dg_nodes d)" and "\<And>x. x \<in> set (dg_nodes d) \<Longrightarrow> f (h x) \<le> f x"
  shows "weight f d' \<le> weight f d"
proof -
  have "sum_list (map (\<lambda>x. f (h x)) xs) \<le> sum_list (map f xs)" if "set xs \<subseteq> set (dg_nodes d)" for xs
    using that assms(2) by (induction xs) (auto intro!: add_mono)
  then show ?thesis by (simp add: assms(1) comp_def)
qed

lemma weight_less:
  assumes "dg_nodes d' = map h (dg_nodes d)" and "\<And>x. x \<in> set (dg_nodes d) \<Longrightarrow> f (h x) \<le> f x"
    and "n \<in> set (dg_nodes d)" "f (h n) < f n"
  shows "weight f d' < weight f d"
proof -
  obtain xs ys where xs: "dg_nodes d = xs @ n # ys" using split_list [OF assms(3)] by blast
  have "sum_list (map (\<lambda>x. f (h x)) zs) \<le> sum_list (map f zs)" if "set zs \<subseteq> set (dg_nodes d)" for zs
    using that assms(2) by (induction zs) (auto intro!: add_mono)
  then have "sum_list (map (\<lambda>x. f (h x)) xs) \<le> sum_list (map f xs)" "sum_list (map (\<lambda>x. f (h x)) ys) \<le> sum_list (map f ys)"
    by (auto simp: xs)
  then show ?thesis using assms(4) by (simp add: assms(1) xs comp_def)
qed

lemma settle_weight:
  assumes "shape d" and "dag_settle d = Inr d'"
  shows "weight starts_left d' = weight starts_left d" "weight is_running d' = weight is_running d" "weight is_open d' = weight is_open d"
proof -
  from settle_spec [OF assms] obtain g where d': "d' = set_nodes (\<lambda>n. n\<lparr>dn_state := g n\<rparr>) d"
    and g: "\<And>n. n \<in> set (dg_nodes d) \<Longrightarrow> dn_state n \<notin> OPEN_STATES \<Longrightarrow> g n = dn_state n"
      "\<And>n. n \<in> set (dg_nodes d) \<Longrightarrow> dn_state n \<in> OPEN_STATES \<Longrightarrow> g n \<in> OPEN_STATES" by metis
  have "is_running (n\<lparr>dn_state := g n\<rparr>) = is_running n" "is_open (n\<lparr>dn_state := g n\<rparr>) = is_open n" if "n \<in> set (dg_nodes d)" for n
    using g [OF that] by (cases "dn_state n"; cases "g n"; simp add: is_running_def is_open_def OPEN_STATES_def)+
  then show "weight is_running d' = weight is_running d" "weight is_open d' = weight is_open d" "weight starts_left d' = weight starts_left d"
    by (simp_all add: d' set_nodes_def comp_def starts_left_def cong: map_cong)
qed

lemma write_orderI:
  "weight starts_left d' < weight starts_left d \<Longrightarrow> (d', d) \<in> write_order"
  "weight starts_left d' \<le> weight starts_left d \<Longrightarrow> weight is_running d' < weight is_running d \<Longrightarrow> (d', d) \<in> write_order"
  "weight starts_left d' \<le> weight starts_left d \<Longrightarrow> weight is_running d' \<le> weight is_running d \<Longrightarrow> weight is_open d' < weight is_open d
    \<Longrightarrow> (d', d) \<in> write_order"
  "weight starts_left d' \<le> weight starts_left d \<Longrightarrow> weight is_running d' \<le> weight is_running d \<Longrightarrow> weight is_open d' \<le> weight is_open d
    \<Longrightarrow> dg_state d = DagState_ACTIVE \<Longrightarrow> dg_state d' \<noteq> DagState_ACTIVE \<Longrightarrow> (d', d) \<in> write_order"
  "dg_nodes d' = dg_nodes d \<Longrightarrow> dg_state d' = dg_state d \<Longrightarrow> unplaced d' < unplaced d \<Longrightarrow> (d', d) \<in> write_order"
  by (auto simp: write_order_def)

lemma wf_write_order: "wf write_order"
  by (simp add: write_order_def)

lemma failed_row_left:
  assumes "check_step st ai ap = Inr args" and "failed_row st args ec n = Inr m" and "node_fine r n"
  shows "starts_left m \<le> starts_left n"
  using assms by (auto simp: failed_row_def rbind_eq_Inr_iff starts_left_def node_fine_def MAX_ATTEMPTS_PER_RUNG_def
      MAX_LADDER_LENGTH_def dest!: check_step_Inr split: if_splits)

lemma outcome_order:
  assumes "dag_ok d" and "running_node d k number = Inr n" and "dn_plan m = dn_plan n" and "dn_ordinal m = dn_ordinal n"
    and "starts_left m \<le> starts_left n" and "dn_state m \<noteq> NodeState_RUNNING"
    and "close_attempt k number st ec sig (upd_node k (\<lambda>_. m) d) = Inr d1" and "shape d1" and "dag_settle d1 = Inr d2"
  shows "(d2, d) \<in> write_order"
proof -
  note ok = ok_parts [OF assms(1)]
  have n: "dag_node d k = Some n" "dn_state n = NodeState_RUNNING" using assms(2) by (simp_all add: running_node_Inr)
  have nodes: "dg_nodes d1 = map (\<lambda>x. if x = n then m else x) (dg_nodes d)"
    using close_more [OF assms(7)] upd_node_map [OF ok(1) n(1)] by (simp add: set_nodes_def)
  have "weight starts_left d1 \<le> weight starts_left d" by (rule weight_le [OF nodes]) (simp add: assms(5))
  moreover have "weight is_running d1 < weight is_running d"
    by (rule weight_less [OF nodes _ conjunct1 [OF dag_node_Some [OF n(1)]]]) (simp_all add: is_running_def n(2) assms(6))
  ultimately show ?thesis using settle_weight [OF assms(8,9)] by (intro write_orderI(2)) simp_all
qed

lemma length_filter_less:
  assumes "\<And>x. x \<in> set xs \<Longrightarrow> P (f x) \<Longrightarrow> P x" and "y \<in> set xs" and "P y" and "\<not> P (f y)"
  shows "length (filter P (map f xs)) < length (filter P xs)"
proof -
  have le: "length (filter P (map f zs)) \<le> length (filter P zs)" if "set zs \<subseteq> set xs" for zs
    using that assms(1) by (induction zs) auto
  obtain as bs where xs: "xs = as @ y # bs" using split_list [OF assms(2)] by blast
  have "length (filter P (map f as)) \<le> length (filter P as)" "length (filter P (map f bs)) \<le> length (filter P bs)"
    by (rule le; simp add: xs subset_iff)+
  then show ?thesis using assms(3,4) by (simp add: xs)
qed

lemma quiet_interrupt_id:
  assumes "dag_ok d" and "\<forall>n \<in> set (dg_nodes d). dn_state n \<noteq> NodeState_RUNNING" and "dag_settle (interrupt_running NodeState_READY d) = Inr d'"
  shows "d' = d"
proof -
  note ok = ok_parts [OF assms(1)]
  have "at_state a \<noteq> AttemptState_RUNNING" if "a \<in> set (dg_attempts d)" for a
    using that ok(6) assms(2) by (auto simp: attempts_ok_def attempt_of_def)
  then have "map stop_attempt (dg_attempts d) = dg_attempts d" by (intro map_idI) (simp add: stop_attempt_def)
  moreover have "map (\<lambda>n. if dn_state n = NodeState_RUNNING then n\<lparr>dn_state := NodeState_READY\<rparr> else n) (dg_nodes d) = dg_nodes d"
    using assms(2) by (intro map_idI) simp
  ultimately have "interrupt_running NodeState_READY d = d" by (simp add: interrupt_running_def stop_attempt_def [abs_def])
  then show ?thesis using settle_id [OF ok(1,2)] assms(3) by simp
qed

lemma owner_write_order:
  assumes "owner_write d d'" and "dag_ok d" and "d' \<noteq> d"
  shows "(d', d) \<in> write_order"
proof -
  note ok = ok_parts [OF assms(2)]
  have c: "dag_core d" using assms(2) by (simp add: dag_ok_def)
  from assms(1) show ?thesis
  proof (cases rule: owner_write.cases)
    case (start k n)
    let ?m = "n\<lparr>dn_state := NodeState_RUNNING, dn_attempt_count := dn_attempt_count n + 1, dn_rung_attempts := dn_rung_attempts n + 1\<rparr>"
    note n = core_node [OF c start(4)]
    have nodes: "dg_nodes d' = map (\<lambda>x. if x = n then ?m else x) (dg_nodes d)"
      using upd_node_map [OF ok(1) start(4)] n(2) start(1) by (simp add: dag_start_row_def set_nodes_def)
    have less: "starts_left ?m < starts_left n"
      using n(3) start(6) by (auto simp: starts_left_def node_fine_def MAX_ATTEMPTS_PER_RUNG_def MAX_LADDER_LENGTH_def)
    show ?thesis by (rule write_orderI(1), rule weight_less [OF nodes _ n(1)]) (use less in auto)
  next
    case (complete k number n r d1)
    let ?m = "n\<lparr>dn_state := NodeState_SUCCEEDED, dn_result := Some r, dn_error_class := None\<rparr>"
    have n: "dag_node d k = Some n" using complete(2) by (simp add: running_node_Inr)
    have "upd_node k (\<lambda>n. n\<lparr>dn_state := NodeState_SUCCEEDED, dn_result := Some r, dn_error_class := None\<rparr>) d = upd_node k (\<lambda>_. ?m) d"
      unfolding upd_node_map [OF ok(1) n] ..
    with complete(3) have cl: "close_attempt k number AttemptState_SUCCEEDED None None (upd_node k (\<lambda>_. ?m) d) = Inr d1" by simp
    have "shape d1" using complete_core [OF c complete(1-3)] by (simp add: dag_core_def)
    from outcome_order [OF assms(2) complete(2) _ _ _ _ cl this complete(4)] show ?thesis by (simp add: starts_left_def)
  next
    case (fail k number n st ai ap args ec m sig d1)
    have n: "dag_node d k = Some n" "dn_state n = NodeState_RUNNING" using fail(2) by (simp_all add: running_node_Inr)
    note fine = core_node(3) [OF c n(1)]
    have "shape d1" using fail_core [OF c fail(1-5)] by (simp add: dag_core_def)
    from outcome_order [OF assms(2) fail(2) _ _ failed_row_left [OF fail(3,4) fine] _ fail(5) this fail(6)]
      failed_row_fine [OF fail(3,4) fine n(2)] failed_row_plan [OF fail(4)] show ?thesis by auto
  next
    case (give_up k n ec)
    let ?d = "upd_node k (\<lambda>m. m\<lparr>dn_state := NodeState_FAILED, dn_error_class := Some ec\<rparr>) d"
    let ?h = "\<lambda>x. if x = n then n\<lparr>dn_state := NodeState_FAILED, dn_error_class := Some ec\<rparr> else x"
    have nodes: "dg_nodes ?d = map ?h (dg_nodes d)" using upd_node_map [OF ok(1) give_up(2)] by (simp add: set_nodes_def)
    have sh: "shape ?d" using give_up_core [OF c ok(2) give_up(1-3)] by (simp add: dag_core_def)
    have "weight starts_left ?d \<le> weight starts_left d" by (rule weight_le [OF nodes]) (simp add: starts_left_def)
    moreover have "weight is_running ?d \<le> weight is_running d" by (rule weight_le [OF nodes]) (simp add: is_running_def)
    moreover have "weight is_open ?d < weight is_open d"
      by (rule weight_less [OF nodes _ core_node(1) [OF c give_up(2)]]) (use give_up(3) in \<open>simp_all add: is_open_def OPEN_STATES_def\<close>)
    ultimately show ?thesis using settle_weight [OF sh give_up(4)] by (intro write_orderI(3)) simp_all
  next
    case interrupt
    let ?d = "interrupt_running NodeState_READY d"
    let ?h = "\<lambda>n. if dn_state n = NodeState_RUNNING then n\<lparr>dn_state := NodeState_READY\<rparr> else n"
    have nodes: "dg_nodes ?d = map ?h (dg_nodes d)" by (simp add: interrupt_running_def)
    have sh: "shape ?d" using interrupt_core [OF c] by (simp add: dag_core_def)
    obtain n where n: "n \<in> set (dg_nodes d)" "dn_state n = NodeState_RUNNING"
      using quiet_interrupt_id [OF assms(2) _ interrupt] assms(3) by blast
    have "weight starts_left ?d \<le> weight starts_left d" by (rule weight_le [OF nodes]) (simp add: starts_left_def)
    moreover have "weight is_running ?d < weight is_running d"
      by (rule weight_less [OF nodes _ n(1)]) (use n(2) in \<open>simp_all add: is_running_def\<close>)
    ultimately show ?thesis using settle_weight [OF sh interrupt] by (intro write_orderI(2)) simp_all
  next
    case cancel
    let ?h = "\<lambda>n. if dn_state n \<in> {NodeState_RUNNING, NodeState_PENDING, NodeState_READY, NodeState_BLOCKED} then n\<lparr>dn_state := NodeState_CANCELLED\<rparr> else n"
    have nodes: "dg_nodes d' = map ?h (dg_nodes d)" by (auto simp: cancel dag_cancel_row_def Let_def interrupt_running_def)
    have "weight starts_left d' \<le> weight starts_left d" by (rule weight_le [OF nodes]) (simp add: starts_left_def)
    moreover have "weight is_running d' \<le> weight is_running d" by (rule weight_le [OF nodes]) (simp add: is_running_def)
    moreover have "weight is_open d' \<le> weight is_open d" by (rule weight_le [OF nodes]) (simp add: is_open_def OPEN_STATES_def)
    moreover have "dg_state d' \<noteq> DagState_ACTIVE" by (simp add: cancel dag_cancel_row_def Let_def)
    ultimately show ?thesis using cancel(2) by (intro write_orderI(4))
  next
    case (place k number a p)
    let ?c = "\<lambda>x. if is_running_attempt k number x then x\<lparr>at_placement := Some p\<rparr> else x"
    have a: "a \<in> set (dg_attempts d)" "is_running_attempt k number a" using place(3) by (auto simp: find_Some_iff)
    have att: "dg_attempts d' = map ?c (dg_attempts d)" by (simp add: place(1) placed_row_def)
    have "unplaced d' < unplaced d" unfolding unplaced_def att
      by (rule length_filter_less [OF _ a(1)]) (use a place(4) in \<open>auto simp: is_running_attempt_def split: if_splits\<close>)
    then show ?thesis by (intro write_orderI(5)) (simp_all add: place(1) placed_row_def)
  qed (simp_all add: write_order_def)
qed

section \<open>An active DAG is never stuck\<close>

lemma key_label:
  assumes "key_ok k"
  shows "dag_check_label name (PyStr k) 32 = Inr k"
proof -
  from assms obtain c cs where k: "k = c # cs" "is_lower c" "length cs \<le> 31"
    and all: "list_all (\<lambda>d. is_lower d \<or> 48 \<le> d \<and> d \<le> 57 \<or> d = 95 \<or> d = 45) cs" by (auto simp: key_ok_def split: list.splits)
  then have "45 \<le> x \<and> x \<le> 122" if "x \<in> set k" for x using that by (auto simp: is_lower_def list_all_iff)
  then have "\<not> is_control x \<and> \<not> is_surrogate x" if "x \<in> set k" for x
    using that by (fastforce simp: is_control_def is_surrogate_def)
  moreover have "\<not> is_space c" using k(2) by (simp add: is_lower_def is_space_def)
  ultimately show ?thesis using k by (auto simp: dag_check_label_def label_ok_def list_ex_iff)
qed

text \<open>The owner's view: it holds the current epoch and the task runs in the run of the DAG.\<close>

definition owned :: "dag_db \<Rightarrow> uuid \<Rightarrow> DagRow \<Rightarrow> bool" where
  "owned s i d \<longleftrightarrow> dag_of s i = Some d \<and> dg_state d = DagState_ACTIVE \<and> 1 \<le> dg_epoch d
     \<and> (\<exists>t. db_tasks s (dg_task_id d) = Some t \<and> t_state t = TaskState_RUNNING \<and> t_attempt t = dg_attempt d
          \<and> t_retry_count t = dg_retry_count d)"

lemma owned_open: "owned s i d \<Longrightarrow> open_dag i (Some (dg_epoch d)) True True running s = Inr d"
  by (auto simp: owned_def open_dag_def check_run_of_def ENDED_TASK_STATES_def)

lemma owned_args:
  assumes "owned s i d" and "dag_ok d" and "n \<in> set (dg_nodes d)"
  shows "check_epoch (PyInt (dg_epoch d)) = Inr (dg_epoch d)" "dag_check_label name (PyStr (dn_key n)) 32 = Inr (dn_key n)"
    "1 \<le> dn_attempt_count n \<Longrightarrow> dag_check_number (PyInt (dn_attempt_count n)) = Inr (dn_attempt_count n)"
proof -
  note ok = ok_parts [OF assms(2)]
  show "check_epoch (PyInt (dg_epoch d)) = Inr (dg_epoch d)"
    using assms(1) ok(4) by (simp add: check_epoch_def dag_check_int_def owned_def row_fine_def)
  have "key_ok (dn_key n)" using ok(1) assms(3) by (auto simp: shape_def plan_ok_def)
  then show "dag_check_label name (PyStr (dn_key n)) 32 = Inr (dn_key n)" by (rule key_label)
  show "1 \<le> dn_attempt_count n \<Longrightarrow> dag_check_number (PyInt (dn_attempt_count n)) = Inr (dn_attempt_count n)"
    using ok(4) assms(3) by (auto simp: dag_check_number_def dag_check_int_def row_fine_def node_fine_def)
qed

lemma settle_succeeds: "shape d \<Longrightarrow> \<exists>d'. dag_settle d = Inr d'"
  using settle_total by blast

lemma running_completes:
  assumes "owned s i d" and "dag_ok d" and "n \<in> set (dg_nodes d)" and "dn_state n = NodeState_RUNNING"
  shows "\<exists>t. dag_complete_node (PyUuid i) (PyInt (dg_epoch d)) (PyStr (dn_key n)) (PyInt (dn_attempt_count n)) (Inst r) s = Inr t"
proof -
  note ok = ok_parts [OF assms(2)]
  have c: "dag_core d" using assms(2) by (simp add: dag_ok_def)
  have one: "1 \<le> dn_attempt_count n" using ok(4) assms(3,4) by (auto simp: row_fine_def node_fine_def)
  have run: "running_node d (dn_key n) (dn_attempt_count n) = Inr n"
    using shape_node [OF ok(1) assms(3)] assms(4) by (simp add: running_node_Inr)
  let ?u = "upd_node (dn_key n) (\<lambda>n. n\<lparr>dn_state := NodeState_SUCCEEDED, dn_result := Some r, dn_error_class := None\<rparr>) d"
  have "node_has d n" using ok(6) assms(3) by (simp add: attempts_ok_def)
  then have "list_ex (is_running_attempt (dn_key n) (dn_attempt_count n)) (dg_attempts d)"
    using one assms(4) by (fastforce simp: node_has_def list_ex_iff is_running_attempt_def)
  then obtain d1 where d1: "close_attempt (dn_key n) (dn_attempt_count n) AttemptState_SUCCEEDED None None ?u = Inr d1"
    by (auto simp: close_attempt_def upd_node_def)
  have act: "dg_state d = DagState_ACTIVE" using assms(1) by (simp add: owned_def)
  have "shape d1" using complete_core [OF c act run d1] by (simp add: dag_core_def)
  then obtain d2 where "dag_settle d1 = Inr d2" using settle_succeeds by blast
  then show ?thesis using owned_args [OF assms(1-3)] one owned_open [OF assms(1)] run d1
    by (simp add: dag_complete_node_def dag_check_uuid_def)
qed

lemma ready_can_go:
  assumes "owned s i d" and "dag_ok d" and "n \<in> set (dg_nodes d)" and "dn_state n = NodeState_READY"
  shows "1 \<le> limit \<Longrightarrow> limit \<le> MAX_ATTEMPTS_PER_RUNG \<Longrightarrow> dn_rung_attempts n < limit \<Longrightarrow> dn_attempt_count n < MAX_INT32
      \<Longrightarrow> \<exists>t. dag_start_node (PyUuid i) (PyInt (dg_epoch d)) (PyStr (dn_key n)) (PyInt limit) s = Inr (dn_attempt_count n + 1, t)"
    and "label_ok DAG_ERROR_CLASS_CHARS ec
      \<Longrightarrow> \<exists>t. dag_give_up_node (PyUuid i) (PyInt (dg_epoch d)) (PyStr (dn_key n)) (PyStr ec) s = Inr t"
proof -
  note ok = ok_parts [OF assms(2)]
  have c: "dag_core d" using assms(2) by (simp add: dag_ok_def)
  note n = shape_node [OF ok(1) assms(3)]
  have act: "dg_state d = DagState_ACTIVE" using assms(1) by (simp add: owned_def)
  show "\<exists>t. dag_start_node (PyUuid i) (PyInt (dg_epoch d)) (PyStr (dn_key n)) (PyInt limit) s = Inr (dn_attempt_count n + 1, t)"
    if "1 \<le> limit" "limit \<le> MAX_ATTEMPTS_PER_RUNG" "dn_rung_attempts n < limit" "dn_attempt_count n < MAX_INT32"
    using that owned_args [OF assms(1-3)] owned_open [OF assms(1)] n assms(4)
    by (simp add: dag_start_node_def dag_check_uuid_def dag_check_int_def)
  have "shape (upd_node (dn_key n) (\<lambda>m. m\<lparr>dn_state := NodeState_FAILED, dn_error_class := Some ec\<rparr>) d)"
    using give_up_core [OF c ok(2) act n assms(4)] by (simp add: dag_core_def)
  then obtain d' where "dag_settle (upd_node (dn_key n) (\<lambda>m. m\<lparr>dn_state := NodeState_FAILED, dn_error_class := Some ec\<rparr>) d) = Inr d'"
    using settle_succeeds by blast
  then show "\<exists>t. dag_give_up_node (PyUuid i) (PyInt (dg_epoch d)) (PyStr (dn_key n)) (PyStr ec) s = Inr t"
    if "label_ok DAG_ERROR_CLASS_CHARS ec"
    using that owned_args [OF assms(1-3)] owned_open [OF assms(1)] n assms(4)
    by (simp add: dag_give_up_node_def dag_check_uuid_def) (simp add: dag_check_label_def)
qed

lemma quiet_finalizes:
  assumes "owned s i d" and "dag_ok d" and "\<forall>n \<in> set (dg_nodes d). dn_state n \<notin> {NodeState_READY, NodeState_RUNNING}"
  shows "\<exists>t. dag_finalize (PyUuid i) (PyInt (dg_epoch d)) s = Inr t"
    and "\<forall>n \<in> set (dg_nodes d). dn_state n \<in> {NodeState_SUCCEEDED, NodeState_FAILED, NodeState_BLOCKED}"
proof -
  note ok = ok_parts [OF assms(2)]
  have "dag_verdict (dag_views d) \<noteq> DagVerdict_ACTIVE"
    using assms(3) by (auto simp: dag_verdict_def dag_views_shape [OF ok(1)] list_ex_iff)
  moreover have "check_epoch (PyInt (dg_epoch d)) = Inr (dg_epoch d)"
    using assms(1) ok(4) by (simp add: check_epoch_def dag_check_int_def owned_def row_fine_def)
  ultimately show "\<exists>t. dag_finalize (PyUuid i) (PyInt (dg_epoch d)) s = Inr t"
    using owned_open [OF assms(1)] by (cases "dag_verdict (dag_views d)") (simp_all add: dag_finalize_def dag_check_uuid_def)
  have "dn_state n \<noteq> NodeState_PENDING" if "n \<in> set (dg_nodes d)" for n
    using not_stuck [OF shape_views [OF ok(1)], of "nview n"] that ok(1,2) assms(3)
    by (auto simp: settled_row_views dag_views_shape)
  moreover have "dn_state n \<noteq> NodeState_CANCELLED" if "n \<in> set (dg_nodes d)" for n
    using ok(5) that assms(1) by (auto simp: states_ok_def owned_def)
  ultimately show "\<forall>n \<in> set (dg_nodes d). dn_state n \<in> {NodeState_SUCCEEDED, NodeState_FAILED, NodeState_BLOCKED}"
    using assms(3) by (metis NodeState.exhaust insert_iff)
qed

end
