(* ===== verification/Dag_Properties.thy ===== *)
theory Dag_Properties
  imports Dag_Progress Plan_Properties
begin

text \<open>
  The properties of the DAG store over all its runs, with a run of a plan of two nodes for the witnesses.
\<close>

section \<open>One DAG per attempt of a task\<close>

definition one_per_attempt :: "dag_db \<Rightarrow> bool" where
  "one_per_attempt s \<longleftrightarrow> (\<forall>i j d d'. dag_of s i = Some d \<and> dag_of s j = Some d'
     \<and> (dg_task_id d, dg_attempt d) = (dg_task_id d', dg_attempt d') \<longrightarrow> i = j)"

lemma skel_task: "skel d' = skel d \<Longrightarrow> dg_task_id d' = dg_task_id d \<and> dg_attempt d' = dg_attempt d"
  by (simp add: skel_def)

lemma row_step_task: "dag_row_step d d' \<Longrightarrow> dag_ok d \<Longrightarrow> dg_task_id d' = dg_task_id d \<and> dg_attempt d' = dg_attempt d"
  using owner_write_skel take_over_skel skel_task ok_parts(1) by metis

lemma row_changes_one:
  assumes "row_changes R s t" and "\<And>d d'. R d d' \<Longrightarrow> dag_row_step d d'" and "\<And>i d. dag_of s i = Some d \<Longrightarrow> dag_ok d" and "one_per_attempt s"
  shows "one_per_attempt t"
proof -
  from assms(1) obtain i d d' where r: "dag_of s i = Some d" "R d d'" "dag_of t = (dag_of s)(i \<mapsto> d')" by (auto simp: row_changes_def)
  have "dg_task_id d' = dg_task_id d \<and> dg_attempt d' = dg_attempt d" using row_step_task [OF assms(2) [OF r(2)] assms(3) [OF r(1)]] .
  with assms(4) r show ?thesis unfolding one_per_attempt_def by (simp split: if_splits) metis
qed

lemma reachable_one_per_attempt: "dag_reachable s \<Longrightarrow> one_per_attempt s"
proof -
  assume "dag_reachable s"
  then obtain s0 where s0: "empty_dags s0" "dstep\<^sup>*\<^sup>* s0 s" by (auto simp: dag_reachable_def)
  from s0(2) show ?thesis
  proof (induction rule: rtranclp_induct)
    case base
    show ?case using s0(1) by (simp add: one_per_attempt_def empty_dags_def)
  next
    case (step t u)
    have rows: "\<And>i d. dag_of t i = Some d \<Longrightarrow> dag_ok d"
      using dag_rows.reachable_rows [of t] s0(1) step.hyps(1) by (auto simp: dag_reachable_def)
    from step.hyps(2) show ?case
    proof (cases rule: dstep_cases)
      case same
      with step.IH show ?thesis by (simp add: one_per_attempt_def)
    next
      case owner
      show ?thesis by (rule row_changes_one [OF owner]) (use rows step.IH in auto)
    next
      case take
      show ?thesis by (rule row_changes_one [OF take]) (use rows step.IH in auto)
    next
      case (new fresh d)
      then show ?thesis using step.IH unfolding one_per_attempt_def by (simp split: if_splits) metis
    qed
  qed
qed

section \<open>Properties\<close>

text \<open>
  C33: in every reachable state of the store every DAG row satisfies the constraints of its
  tables and what ties them together: an owner exactly after a take-over, counters, rungs and approaches in
  range, a result exactly for a succeeded node, the nodes and edges those of one accepted plan, the
  attempts of a node numbered without a gap, its last attempt running in the current epoch exactly while
  the node runs, a cloud placement exactly with its audit, an error class for every failed attempt, and at most one
  DAG for an attempt of a task.
\<close>

theorem dag_rows_valid:
  assumes "dag_reachable s" and "dag_of s i = Some d"
  shows "plan_ok \<lparr>plan_nodes = map dn_plan (dg_nodes d)\<rparr> \<and> dg_edges d = Plan_edges \<lparr>plan_nodes = map dn_plan (dg_nodes d)\<rparr>
    \<and> dg_node_count d = length (dg_nodes d) \<and> 0 \<le> dg_epoch d \<and> (dg_epoch d = 0) = (dg_owner d = None) \<and> 0 \<le> dg_retry_count d
    \<and> (\<forall>n \<in> set (dg_nodes d). 0 \<le> dn_agent_index n \<and> dn_agent_index n < int MAX_LADDER_LENGTH
         \<and> 0 \<le> dn_approach n \<and> dn_approach n \<le> MAX_APPROACH \<and> 0 \<le> dn_rung_attempts n \<and> dn_rung_attempts n \<le> dn_attempt_count n
         \<and> (dn_state n = NodeState_SUCCEEDED) = (dn_result n \<noteq> None)
         \<and> at_number ` {a \<in> set (dg_attempts d). at_node_key a = dn_key n} = {1..dn_attempt_count n}
         \<and> (dn_state n = NodeState_RUNNING) = (\<exists>a \<in> set (dg_attempts d). at_node_key a = dn_key n \<and> at_state a = AttemptState_RUNNING))
    \<and> distinct (map (\<lambda>a. (at_node_key a, at_number a)) (dg_attempts d))
    \<and> (\<forall>a \<in> set (dg_attempts d). attempt_fine a \<and> 1 \<le> at_epoch a \<and> at_epoch a \<le> dg_epoch d
         \<and> (at_state a = AttemptState_RUNNING \<longrightarrow> at_epoch a = dg_epoch d))
    \<and> (\<forall>j d'. dag_of s j = Some d' \<and> (dg_task_id d', dg_attempt d') = (dg_task_id d, dg_attempt d) \<longrightarrow> j = i)"
proof -
  have ok: "dag_ok d" by (rule dag_rows.reachable_rows [OF assms])
  note p = ok_parts [OF ok]
  have run: "(dn_state n = NodeState_RUNNING) = (\<exists>a \<in> set (dg_attempts d). at_node_key a = dn_key n \<and> at_state a = AttemptState_RUNNING)"
    if n: "n \<in> set (dg_nodes d)" for n
  proof
    assume r: "dn_state n = NodeState_RUNNING"
    moreover from r have "1 \<le> dn_attempt_count n" using p(4) n by (auto simp: row_fine_def node_fine_def)
    ultimately show "\<exists>a \<in> set (dg_attempts d). at_node_key a = dn_key n \<and> at_state a = AttemptState_RUNNING"
      using p(6) n by (fastforce simp: attempts_ok_def node_has_def)
  next
    assume "\<exists>a \<in> set (dg_attempts d). at_node_key a = dn_key n \<and> at_state a = AttemptState_RUNNING"
    then obtain a where a: "a \<in> set (dg_attempts d)" "at_node_key a = dn_key n" "at_state a = AttemptState_RUNNING" by blast
    then have "attempt_of d a" using p(6) by (simp add: attempts_ok_def)
    with a obtain x where "x \<in> set (dg_nodes d)" "dn_key x = dn_key n" "dn_state x = NodeState_RUNNING" by (auto simp: attempt_of_def)
    with shape_inj [OF p(1) _ n, of x] show "dn_state n = NodeState_RUNNING" by auto
  qed
  have "at_epoch a = dg_epoch d" if "a \<in> set (dg_attempts d)" "at_state a = AttemptState_RUNNING" for a
    using p(6) that by (auto simp: attempts_ok_def attempt_of_def)
  moreover have "\<forall>j d'. dag_of s j = Some d' \<and> (dg_task_id d', dg_attempt d') = (dg_task_id d, dg_attempt d) \<longrightarrow> j = i"
    using reachable_one_per_attempt [OF assms(1)] assms(2) unfolding one_per_attempt_def by blast
  ultimately show ?thesis
    using p(1,4,6) run attempt_numbers [OF ok] by (auto simp: shape_def row_fine_def node_fine_def attempts_ok_def)
qed

text \<open>
  C34: once a DAG has been taken over, every write with an earlier epoch is refused in
  every later state, whatever its other arguments: with a stale epoch, or already as an invalid argument.
\<close>

theorem superseded_worker_refused:
  assumes "dag_of s i = Some d" and "e < dg_epoch d" and "dstep\<^sup>*\<^sup>* s t"
  shows "refused (dag_start_node (PyUuid i) (PyInt e) key limit t) \<and> refused (dag_complete_node (PyUuid i) (PyInt e) key number res t)
    \<and> refused (dag_fail_node (PyUuid i) (PyInt e) key number ec sig st ai ap t) \<and> refused (dag_give_up_node (PyUuid i) (PyInt e) key ec t)
    \<and> refused (dag_interrupt (PyUuid i) (PyInt e) t) \<and> refused (dag_cancel (PyUuid i) (PyInt e) t)
    \<and> refused (dag_finalize (PyUuid i) (PyInt e) t)
    \<and> refused (dag_record_placement chk aid (PyUuid i) (PyInt e) key number pl agent model cloud t)"
proof -
  obtain d' where d': "dag_of t i = Some d'" using run_row [OF assms(3,1)] by blast
  have "epoch_of i t \<noteq> e" by (rule dag_fence.superseded_stays [OF assms(3)]) (use assms(1,2) in \<open>simp add: epoch_of_def\<close>)
  then have "dg_epoch d' \<noteq> e" by (simp add: epoch_of_def d')
  then show ?thesis by (intro conjI stale_refused [OF d'])
qed

text \<open>
  C35: an attempt that has ended stays in the history as it is, and no later report of it is
  accepted: neither a result, nor a failure, nor a placement.
\<close>

theorem closed_attempt_final:
  assumes "dag_reachable s" and "dag_of s i = Some d" and "a \<in> set (dg_attempts d)" and "at_state a \<noteq> AttemptState_RUNNING"
    and "dstep\<^sup>*\<^sup>* s t"
  shows "\<exists>d'. dag_of t i = Some d' \<and> a \<in> set (dg_attempts d')
    \<and> (\<forall>ep res u. dag_complete_node (PyUuid i) ep (PyStr (at_node_key a)) (PyInt (at_number a)) res t \<noteq> Inr u)
    \<and> (\<forall>ep ec sig st ai ap u. dag_fail_node (PyUuid i) ep (PyStr (at_node_key a)) (PyInt (at_number a)) ec sig st ai ap t \<noteq> Inr u)
    \<and> (\<forall>chk aid ep pl agent model cloud u.
         dag_record_placement chk aid (PyUuid i) ep (PyStr (at_node_key a)) (PyInt (at_number a)) pl agent model cloud t \<noteq> Inr u)"
proof -
  obtain d' where d': "dag_of t i = Some d'" "dag_row_step\<^sup>*\<^sup>* d d'" using run_row [OF assms(5,2)] by blast
  have "dag_ok d'" using row_steps_ok [OF d'(2) dag_rows.reachable_rows [OF assms(1,2)]] .
  then have att: "attempts_ok d'" by (rule ok_parts(6))
  have a: "a \<in> set (dg_attempts d')" by (rule closed_kept [OF d'(2) assms(3,4)])
  note no = closed_not_running [OF att a assms(4)]
  have key: "dag_check_label name (PyStr k) m = Inr l \<longleftrightarrow> l = k \<and> label_ok m k" for name k m l
    by (auto simp: dag_check_label_def)
  have num: "dag_check_number (PyInt j) = Inr l \<Longrightarrow> l = j" for j l by (simp add: dag_check_number_def dag_check_int_Inr)
  have cl: "close_attempt (at_node_key a) (at_number a) st ec sig (upd_node k f d') = Inl StaleNodeAttemptError" for st ec sig k f
    using no by (simp add: close_attempt_def upd_node_def)
  have "find (is_running_attempt (at_node_key a) (at_number a)) (dg_attempts d') = None"
    using no by (simp add: find_None_iff list_ex_iff)
  then have place: "dag_record_placement chk aid (PyUuid i) ep (PyStr (at_node_key a)) (PyInt (at_number a)) pl agent model cloud t \<noteq> Inr u"
    for chk aid ep pl agent model cloud u
    by (auto simp: dag_record_placement_def rbind_eq_Inr_iff dag_check_uuid_Inr open_dag_Inr d'(1) key if_Inl_Inr case_option_Inr dest!: num)
  have "dag_complete_node (PyUuid i) ep (PyStr (at_node_key a)) (PyInt (at_number a)) res t \<noteq> Inr u" for ep res u
    by (auto simp: dag_complete_node_def rbind_eq_Inr_iff dag_check_uuid_Inr open_dag_Inr d'(1) key cl dest!: num)
  moreover have "dag_fail_node (PyUuid i) ep (PyStr (at_node_key a)) (PyInt (at_number a)) ec sig st ai ap t \<noteq> Inr u" for ep ec sig st ai ap u
    by (auto simp: dag_fail_node_def rbind_eq_Inr_iff dag_check_uuid_Inr open_dag_Inr d'(1) key cl dest!: num)
  ultimately show ?thesis using d'(1) a place by blast
qed

text \<open>
  C36: in every DAG that was not cancelled a node is blocked exactly when a node it
  depends on, directly or through others, failed; it is ready, running, succeeded or failed exactly when all its dependencies
  succeeded; and pending exactly otherwise.
\<close>

theorem node_states_explained:
  assumes "dag_reachable s" and "dag_of s i = Some d" and "dg_state d \<noteq> DagState_CANCELLED" and "n \<in> set (dg_nodes d)"
  shows "(dn_state n = NodeState_BLOCKED \<longleftrightarrow>
      (\<exists>m \<in> set (dg_nodes d). dn_state m = NodeState_FAILED \<and> (dn_key m, dn_key n) \<in> (dag_deps d)\<^sup>+))
    \<and> (dn_state n \<in> {NodeState_READY, NodeState_RUNNING, NodeState_SUCCEEDED, NodeState_FAILED}
        \<longleftrightarrow> (\<forall>k \<in> set (dn_deps n). node_state d k = NodeState_SUCCEEDED))
    \<and> (dn_state n = NodeState_PENDING \<longleftrightarrow> (\<exists>k \<in> set (dn_deps n). node_state d k \<noteq> NodeState_SUCCEEDED)
        \<and> \<not> (\<exists>m \<in> set (dg_nodes d). dn_state m = NodeState_FAILED \<and> (dn_key m, dn_key n) \<in> (dag_deps d)\<^sup>+))"
proof -
  have ok: "dag_ok d" by (rule dag_rows.reachable_rows [OF assms(1,2)])
  have "dn_state n \<noteq> NodeState_CANCELLED" using ok_parts(5) [OF ok] assms(3,4) by (auto simp: states_ok_def)
  then show ?thesis using blocked_iff [OF ok assms(3,4)] done_iff [OF ok assms(3,4)]
    by (cases "dn_state n") auto
qed

lemma fail_nodes:
  assumes "dag_fail_node (PyUuid i) ep (PyStr k) number ec sig st ai ap s = Inr t" and "dag_of s i = Some d" and "dag_ok d"
  obtains n m d1 d2 where "dag_node d k = Some n" "dn_plan m = dn_plan n" "dn_ordinal m = dn_ordinal n"
    "dg_nodes d1 = dg_nodes (upd_node k (\<lambda>_. m) d)" "skel d1 = skel d" "dag_settle d1 = Inr d2" "dag_of t = (dag_of s)(i \<mapsto> d2)"
proof -
  from assms(1,2) obtain num n m d1 d2 step args e sg where f: "running_node d k num = Inr n" "failed_row step args e n = Inr m"
    "close_attempt k num AttemptState_FAILED (Some e) (Some sg) (upd_node k (\<lambda>_. m) d) = Inr d1" "dag_settle d1 = Inr d2"
    "dag_of t = (dag_of s)(i \<mapsto> d2)"
    by (auto simp: dag_fail_node_def store_Inr dag_check_label_def split: if_splits)
  have "skel (upd_node k (\<lambda>_. m) d) = skel d" using fail_skel [OF ok_parts(1) [OF assms(3)] f(1,2)] .
  with f close_more [OF f(3)] close_skel [OF f(3)] failed_row_plan [OF f(2)] show thesis
    by (intro that [of n m d1 d2]) (simp_all add: running_node_Inr)
qed

lemma give_up_nodes:
  assumes "dag_give_up_node (PyUuid i) ep (PyStr k) ec s = Inr t" and "dag_of s i = Some d" and "dag_ok d"
  obtains n m d1 d2 where "dag_node d k = Some n" "dn_plan m = dn_plan n" "dn_ordinal m = dn_ordinal n"
    "dg_nodes d1 = dg_nodes (upd_node k (\<lambda>_. m) d)" "skel d1 = skel d" "dag_settle d1 = Inr d2" "dag_of t = (dag_of s)(i \<mapsto> d2)"
proof -
  from assms(1,2) obtain n d2 e where g: "dag_node d k = Some n"
    "dag_settle (upd_node k (\<lambda>m. m\<lparr>dn_state := NodeState_FAILED, dn_error_class := Some e\<rparr>) d) = Inr d2"
    "dag_of t = (dag_of s)(i \<mapsto> d2)"
    by (auto simp: dag_give_up_node_def store_Inr dag_check_label_def split: if_splits)
  let ?m = "n\<lparr>dn_state := NodeState_FAILED, dn_error_class := Some e\<rparr>"
  let ?d1 = "upd_node k (\<lambda>m. m\<lparr>dn_state := NodeState_FAILED, dn_error_class := Some e\<rparr>) d"
  have "?d1 = upd_node k (\<lambda>_. ?m) d" unfolding upd_node_map [OF ok_parts(1) [OF assms(3)] g(1)] ..
  moreover have "skel ?d1 = skel d" by (rule upd_skel) simp
  ultimately show thesis using g by (intro that [of n ?m ?d1 d2]) simp_all
qed

text \<open>
  C37: the failure of a node, whatever the next step, changes at most that node and the nodes that
  depend on it, directly or through others; every other node of the DAG and every other DAG is left as it is.
\<close>

theorem failure_contained:
  assumes "dag_reachable s" and "dag_of s i = Some d"
    and "dag_fail_node (PyUuid i) ep (PyStr k) number ec sig st ai ap s = Inr t \<or> dag_give_up_node (PyUuid i) ep (PyStr k) ec s = Inr t"
    and "x \<in> set (dg_nodes d)" and "dn_key x \<noteq> k" and "(k, dn_key x) \<notin> (dag_deps d)\<^sup>+"
  shows "\<exists>d'. dag_of t i = Some d' \<and> dag_node d' (dn_key x) = Some x \<and> (\<forall>j. j \<noteq> i \<longrightarrow> dag_of t j = dag_of s j)"
proof -
  have ok: "dag_ok d" by (rule dag_rows.reachable_rows [OF assms(1,2)])
  obtain n m d1 d2 where u: "dag_node d k = Some n" "dn_plan m = dn_plan n" "dn_ordinal m = dn_ordinal n"
    "dg_nodes d1 = dg_nodes (upd_node k (\<lambda>_. m) d)" "skel d1 = skel d" "dag_settle d1 = Inr d2" "dag_of t = (dag_of s)(i \<mapsto> d2)"
    using assms(3)
  proof
    assume f: "dag_fail_node (PyUuid i) ep (PyStr k) number ec sig st ai ap s = Inr t"
    show thesis by (rule fail_nodes [OF f assms(2) ok]) (rule that)
  next
    assume g: "dag_give_up_node (PyUuid i) ep (PyStr k) ec s = Inr t"
    show thesis by (rule give_up_nodes [OF g assms(2) ok]) (rule that)
  qed
  from settle_upd_state [OF ok_parts(1,2) [OF ok] u(1-6) assms(4-6)] u(7) show ?thesis by simp
qed

text \<open>
  A cancelled DAG never changes again: it cannot be taken over, so no Retry opens its cancelled nodes again.
\<close>

theorem cancelled_dag_final:
  assumes "dag_reachable s" and "dag_of s i = Some d" and "dg_state d = DagState_CANCELLED" and "dstep\<^sup>*\<^sup>* s t"
  shows "dag_of t i = Some d"
proof -
  have ok: "dag_ok d" by (rule dag_rows.reachable_rows [OF assms(1,2)])
  have quiet: "\<forall>n \<in> set (dg_nodes d). dn_state n \<noteq> NodeState_RUNNING" using ok_parts(5) [OF ok] assms(3) by (auto simp: states_ok_def)
  have one: "d' = d" if "dag_row_step d d'" for d'
    using that assms(3) quiet_interrupt_id [OF ok quiet] by (auto elim!: owner_write.cases take_over.cases)
  have "d' = d" if "dag_row_step\<^sup>*\<^sup>* d d'" for d' using that by (induction rule: rtranclp_induct) (use one in blast)+
  then show ?thesis using run_row [OF assms(4,2)] by blast
qed

text \<open>
  C38: the attempts of a node are numbered from 1 without a gap, and there are at most
  (4 + the number of the task's Retries) times 20 of them: a rung allows at most 20 attempts, an escalation never goes back
  and only a Retry starts a rung again.
\<close>

theorem attempts_bounded:
  assumes "dag_reachable s" and "dag_of s i = Some d" and "n \<in> set (dg_nodes d)"
  shows "int (length (filter (\<lambda>a. at_node_key a = dn_key n) (dg_attempts d))) = dn_attempt_count n
    \<and> dn_attempt_count n \<le> (int MAX_LADDER_LENGTH + dg_retry_count d) * MAX_ATTEMPTS_PER_RUNG"
proof -
  have ok: "dag_ok d" by (rule dag_rows.reachable_rows [OF assms(1,2)])
  have "node_fine (dg_retry_count d) n" using ok_parts(4) [OF ok] assms(3) by (simp add: row_fine_def)
  then show ?thesis using attempt_rows [OF ok assms(3)]
    by (auto simp: node_fine_def MAX_ATTEMPTS_PER_RUNG_def MAX_LADDER_LENGTH_def)
qed


text \<open>
  C40: while the task runs, the owner of an active DAG always has a write that is accepted: every
  running attempt can be completed, every ready node can be started (unless its rung or its counter is used up) or given
  up, and when no node is ready or running the DAG can be finalized and every node has succeeded, failed or is blocked.
\<close>

theorem dag_never_stuck:
  assumes "dag_reachable s" and "owned s i d" and "1 \<le> limit" and "limit \<le> MAX_ATTEMPTS_PER_RUNG" and "label_ok DAG_ERROR_CLASS_CHARS ec"
  shows "(\<forall>n \<in> set (dg_nodes d). dn_state n = NodeState_RUNNING \<longrightarrow> (\<forall>r. \<exists>t.
        dag_complete_node (PyUuid i) (PyInt (dg_epoch d)) (PyStr (dn_key n)) (PyInt (dn_attempt_count n)) (Inst r) s = Inr t))
    \<and> (\<forall>n \<in> set (dg_nodes d). dn_state n = NodeState_READY \<longrightarrow>
        (dn_rung_attempts n < limit \<and> dn_attempt_count n < MAX_INT32 \<longrightarrow> (\<exists>t.
           dag_start_node (PyUuid i) (PyInt (dg_epoch d)) (PyStr (dn_key n)) (PyInt limit) s = Inr (dn_attempt_count n + 1, t)))
        \<and> (\<exists>t. dag_give_up_node (PyUuid i) (PyInt (dg_epoch d)) (PyStr (dn_key n)) (PyStr ec) s = Inr t))
    \<and> ((\<forall>n \<in> set (dg_nodes d). dn_state n \<notin> {NodeState_READY, NodeState_RUNNING}) \<longrightarrow>
        (\<exists>t. dag_finalize (PyUuid i) (PyInt (dg_epoch d)) s = Inr t)
        \<and> (\<forall>n \<in> set (dg_nodes d). dn_state n \<in> {NodeState_SUCCEEDED, NodeState_FAILED, NodeState_BLOCKED}))"
proof -
  have ok: "dag_ok d" using dag_rows.reachable_rows [OF assms(1), of i d] assms(2) by (simp add: owned_def)
  show ?thesis
    using running_completes [OF assms(2) ok] ready_can_go [OF assms(2) ok] quiet_finalizes [OF assms(2) ok] assms(3-5) by blast
qed

section \<open>A run for the witnesses\<close>

definition demo_dag_plan :: Plan where
  "demo_dag_plan = \<lparr>plan_nodes = [demo_node ''a'' NodeRole_WORKER [], demo_node ''b'' NodeRole_REVIEWER [''a''], demo_node ''c'' NodeRole_RESEARCHER []]\<rparr>"

text \<open>A row of the plan: the states of the nodes, the attempts of the first node and its error.\<close>

definition demo_row :: "int \<Rightarrow> NodeState list \<Rightarrow> int \<Rightarrow> pystr option \<Rightarrow> DagAttempt list \<Rightarrow> DagRow" where
  "demo_row e sts cnt err as =
     \<lparr>dg_task_id = 7, dg_attempt = 1, dg_retry_count = 0, dg_state = DagState_ACTIVE, dg_epoch = e,
      dg_owner = (if e = 0 then None else Some (cp ''w'')), dg_node_count = 3, dg_plan_bytes = plan_bytes (\<lambda>_. []) (plan_nodes demo_dag_plan),
      dg_nodes = map (\<lambda>(i, n, st). \<lparr>dn_plan = n, dn_ordinal = int i, dn_state = st, dn_agent_index = 0, dn_approach = 0,
         dn_attempt_count = (if i = 0 then cnt else 0), dn_rung_attempts = (if i = 0 then cnt else 0), dn_result = None,
         dn_error_class = (if i = 0 then err else None)\<rparr>) (enumerate 0 (zip (plan_nodes demo_dag_plan) sts)),
      dg_edges = Plan_edges demo_dag_plan, dg_attempts = as\<rparr>"

definition demo_attempt :: "AttemptState \<Rightarrow> pystr option \<Rightarrow> pystr option \<Rightarrow> DagAttempt" where
  "demo_attempt st err sig = \<lparr>at_node_key = cp ''a'', at_number = 1, at_agent_index = 0, at_approach = 0, at_epoch = 1, at_state = st,
     at_error_class = err, at_signature = sig, at_placement = None\<rparr>"

definition demo_sig :: pystr where "demo_sig = replicate 64 97"

definition demo_dags :: "DagRow list \<Rightarrow> dag_db" where
  "demo_dags ds = \<lparr>db_dags = map (Pair 9) ds,
     db_tasks = [7 \<mapsto> \<lparr>t_project_id = 3, t_state = TaskState_RUNNING, t_attempt = 1, t_retry_count = 0, t_created_by = 5\<rparr>],
     db_incidents = [], db_audit = []\<rparr>"

definition demo_created :: DagRow where
  "demo_created = demo_row 0 [NodeState_READY, NodeState_PENDING, NodeState_READY] 0 None []"
definition demo_taken :: DagRow where
  "demo_taken = demo_row 1 [NodeState_READY, NodeState_PENDING, NodeState_READY] 0 None []"
definition demo_running :: DagRow where
  "demo_running = demo_row 1 [NodeState_RUNNING, NodeState_PENDING, NodeState_READY] 1 None [demo_attempt AttemptState_RUNNING None None]"
definition demo_failed :: DagRow where
  "demo_failed = demo_row 1 [NodeState_FAILED, NodeState_BLOCKED, NodeState_READY] 1 (Some (cp ''E'')) [demo_attempt AttemptState_FAILED (Some (cp ''E'')) (Some demo_sig)]"

lemmas demo_defs = demo_dags_def demo_created_def demo_taken_def demo_running_def demo_failed_def demo_row_def demo_dag_plan_def demo_node_def
  demo_attempt_def demo_sig_def

lemmas demo_settle = dag_settle_def settle_states_def dag_views_def node_view_def depends_def Plan_edges_def put_dag_def OPEN_STATES_def
  settled_state_def UNSATISFIABLE_NODE_STATES_def cp_def

lemma demo_create:
  "dag_create (\<lambda>_. []) 9 (PyUuid 7) (PyInt 1) (Inst demo_dag_plan) (Some (Inst \<lparr>run_attempt = 1, run_retry_count = 0\<rparr>)) (Inst []) (demo_dags [])
    = Inr (demo_dags [demo_created])"
  by (simp add: dag_create_def demo_defs demo_settle dag_check_uuid_def dag_check_int_def check_run_arg_def MAX_INT32_def check_rungs_def
      plan_views_def dag_require_run_def ENDED_TASK_STATES_def dag_get_def new_dag_def new_node_def)

lemma demo_acquire:
  "dag_acquire (PyUuid 9) (PyStr (cp ''w'')) (Inst \<lparr>run_attempt = 1, run_retry_count = 0\<rparr>) (demo_dags [demo_created]) = Inr (demo_dags [demo_taken])"
  by (simp add: dag_acquire_def demo_defs demo_settle dag_check_uuid_def MAX_INT32_def open_dag_def dag_check_worker_id_def worker_id_ok_def
      MAX_WORKER_ID_LENGTH_def interrupt_running_def reopen_def is_alnum_ascii_def)

lemmas demo_args = dag_check_uuid_def check_epoch_def dag_check_number_def dag_check_int_def MAX_INT32_def dag_check_label_def label_ok_def is_space_def
  is_control_def is_surrogate_def

lemma demo_owned: "owned (demo_dags [demo_taken]) 9 demo_taken" "owned (demo_dags [demo_running]) 9 demo_running"
  by (simp_all add: owned_def demo_dags_def demo_taken_def demo_running_def demo_row_def)

lemma demo_node_start:
  "dag_start_node (PyUuid 9) (PyInt 1) (PyStr (cp ''a'')) (PyInt 2) (demo_dags [demo_taken]) = Inr (1, demo_dags [demo_running])"
  by (simp add: dag_start_node_def demo_defs demo_args put_dag_def open_dag_def check_run_of_def ENDED_TASK_STATES_def MAX_ATTEMPTS_PER_RUNG_def
      dag_node_def dag_start_row_def upd_node_def cp_def)

lemma demo_fail:
  "dag_fail_node (PyUuid 9) (PyInt 1) (PyStr (cp ''a'')) (PyInt 1) (PyStr (cp ''E'')) (PyStr demo_sig) (Inst GIVE_UP) PyNone PyNone (demo_dags [demo_running])
    = Inr (demo_dags [demo_failed])"
  by (simp add: dag_fail_node_def demo_defs demo_args demo_settle open_dag_def check_run_of_def ENDED_TASK_STATES_def dag_node_def upd_node_def
      running_node_def check_step_def failed_row_def close_attempt_def is_running_attempt_def OUT_OF_MEMORY_CLASSES_def dag_check_signature_def
      signature_ok_def is_hex_lower_def DAG_ERROR_CLASS_CHARS_def list_all_iff)

lemma demo_plan_ok: "plan_ok demo_dag_plan"
  by (simp add: plan_ok_def demo_dag_plan_def demo_node_def free_def key_ok_def is_lower_def cp_def)

lemma demo_reachable:
  "dag_reachable (demo_dags [demo_created])" "dag_reachable (demo_dags [demo_taken])" "dag_reachable (demo_dags [demo_running])"
  "dag_reachable (demo_dags [demo_failed])"
proof -
  have go: "dag_reachable s \<Longrightarrow> dstep s t \<Longrightarrow> dag_reachable t" for s t
    by (auto simp: dag_reachable_def intro: rtranclp.rtrancl_into_rtrancl)
  have "empty_dags (demo_dags [])" by (simp add: empty_dags_def demo_dags_def)
  then have "dag_reachable (demo_dags [])" by (auto simp: dag_reachable_def)
  from go [OF this dstep.create [OF demo_create]] show c: "dag_reachable (demo_dags [demo_created])" by (simp add: demo_plan_ok)
  from go [OF c dstep.acquire [OF demo_acquire]] show t: "dag_reachable (demo_dags [demo_taken])" .
  from go [OF t dstep.start [OF demo_node_start]] show r: "dag_reachable (demo_dags [demo_running])" .
  from go [OF r dstep.fail [OF demo_fail]] show "dag_reachable (demo_dags [demo_failed])" .
qed

lemma demo_dag_of [simp]: "dag_of (demo_dags [d]) 9 = Some d"
  by (simp add: demo_dags_def)

theorem dag_rows_valid_witness:
  "distinct (map (\<lambda>a. (at_node_key a, at_number a)) (dg_attempts demo_failed)) \<and> dg_node_count demo_failed = length (dg_nodes demo_failed)"
  using dag_rows_valid [OF demo_reachable(4) demo_dag_of] by simp

theorem superseded_worker_refused_witness: "refused (dag_finalize (PyUuid 9) (PyInt 0) (demo_dags [demo_failed]))"
proof -
  have run: "dstep\<^sup>*\<^sup>* (demo_dags [demo_taken]) (demo_dags [demo_failed])"
    using dstep.start [OF demo_node_start] dstep.fail [OF demo_fail] by (meson converse_rtranclp_into_rtranclp rtranclp.rtrancl_refl)
  have "0 < dg_epoch demo_taken" by (simp add: demo_taken_def demo_row_def)
  from superseded_worker_refused [OF demo_dag_of this run] show ?thesis by blast
qed

theorem closed_attempt_final_witness:
  "\<exists>d'. dag_of (demo_dags [demo_failed]) 9 = Some d' \<and> demo_attempt AttemptState_FAILED (Some (cp ''E'')) (Some demo_sig) \<in> set (dg_attempts d')"
proof -
  have "demo_attempt AttemptState_FAILED (Some (cp ''E'')) (Some demo_sig) \<in> set (dg_attempts demo_failed)"
    "at_state (demo_attempt AttemptState_FAILED (Some (cp ''E'')) (Some demo_sig)) \<noteq> AttemptState_RUNNING"
    by (simp_all add: demo_failed_def demo_row_def demo_attempt_def)
  from closed_attempt_final [OF demo_reachable(4) demo_dag_of this rtranclp.rtrancl_refl] show ?thesis by blast
qed

text \<open>The second node of the failed row.\<close>

definition demo_blocked :: DagNode where
  "demo_blocked = dg_nodes demo_failed ! 1"

definition demo_other :: DagNode where
  "demo_other = dg_nodes demo_running ! 2"

theorem node_states_explained_witness:
  "dn_state demo_blocked = NodeState_BLOCKED \<and>
    (\<exists>m \<in> set (dg_nodes demo_failed). dn_state m = NodeState_FAILED \<and> (dn_key m, dn_key demo_blocked) \<in> (dag_deps demo_failed)\<^sup>+)"
proof -
  have "demo_blocked \<in> set (dg_nodes demo_failed)" "dg_state demo_failed \<noteq> DagState_CANCELLED" "dn_state demo_blocked = NodeState_BLOCKED"
    by (simp_all add: demo_blocked_def demo_failed_def demo_row_def demo_dag_plan_def)
  with node_states_explained [OF demo_reachable(4) demo_dag_of] show ?thesis by blast
qed

theorem failure_contained_witness: "\<exists>d'. dag_of (demo_dags [demo_failed]) 9 = Some d' \<and> dag_node d' (cp ''c'') = Some demo_other"
proof -
  have x: "demo_other \<in> set (dg_nodes demo_running)" "dn_key demo_other = cp ''c''"
    by (simp_all add: demo_other_def demo_running_def demo_row_def demo_dag_plan_def demo_node_def)
  have "(k, cp ''c'') \<notin> dag_deps demo_running" for k
    unfolding dag_deps_iff by (simp add: demo_running_def demo_row_def demo_dag_plan_def demo_node_def cp_def)
  then have "(cp ''a'', cp ''c'') \<notin> (dag_deps demo_running)\<^sup>+" by (meson tranclE)
  then show ?thesis
    using failure_contained [OF demo_reachable(3) demo_dag_of disjI1 [OF demo_fail] x(1)] x(2) by auto
qed

theorem attempts_bounded_witness: "dn_attempt_count demo_blocked \<le> 80"
proof -
  have "demo_blocked \<in> set (dg_nodes demo_failed)" by (simp add: demo_blocked_def demo_failed_def demo_row_def demo_dag_plan_def)
  from attempts_bounded [OF demo_reachable(4) demo_dag_of this] show ?thesis
    by (simp add: MAX_LADDER_LENGTH_def MAX_ATTEMPTS_PER_RUNG_def demo_failed_def demo_row_def)
qed

theorem dag_never_stuck_witness:
  "\<exists>t. dag_give_up_node (PyUuid 9) (PyInt 1) (PyStr (cp ''c'')) (PyStr (cp ''E'')) (demo_dags [demo_running]) = Inr t"
proof -
  have x: "demo_other \<in> set (dg_nodes demo_running)" "dn_key demo_other = cp ''c''" "dn_state demo_other = NodeState_READY" "dg_epoch demo_running = 1"
    by (simp_all add: demo_other_def demo_running_def demo_row_def demo_dag_plan_def demo_node_def)
  have "label_ok DAG_ERROR_CLASS_CHARS (cp ''E'')" by (simp add: label_ok_def DAG_ERROR_CLASS_CHARS_def cp_def is_space_def is_control_def is_surrogate_def)
  from dag_never_stuck [OF demo_reachable(3) demo_owned(2) _ _ this, of 2] x show ?thesis
    by (auto simp: MAX_ATTEMPTS_PER_RUNG_def)
qed

end
