(* ===== verification/Node_Result.thy ===== *)
theory Node_Result
  imports Plan_Facts
begin

text \<open>
  The structured result of a node (\<^verbatim>\<open>paw_backend/orchestrator/result.py\<close>): the checked
  constructor, the storage form and reading it back. A float is its 64 bits; the numbers from 0 to 1
  are the bit patterns up to the one of 1.0, and the negative zero.
\<close>

section \<open>Vocabulary\<close>

datatype ResultReason =
    ResultReason_NOT_A_RESULT | ResultReason_UNKNOWN_FIELD | ResultReason_MISSING_FIELD | ResultReason_BAD_TYPE
  | ResultReason_BAD_TEXT | ResultReason_BAD_NUMBER | ResultReason_TOO_MANY_ITEMS | ResultReason_TOO_LARGE

text \<open>\<open>ResultOverflow\<close> is the \<^verbatim>\<open>OverflowError\<close> of \<^verbatim>\<open>math.isfinite\<close> on an integer beyond every float.\<close>

datatype result_error = InvalidNodeResultError ResultReason | ResultOverflow

definition MAX_RESULT_BYTES :: nat where "MAX_RESULT_BYTES = 32 * 1024"
definition MAX_SUMMARY_CHARS :: nat where "MAX_SUMMARY_CHARS = 2000"
definition MAX_LIST_ITEMS :: nat where "MAX_LIST_ITEMS = 50"
definition MAX_ITEM_CHARS :: nat where "MAX_ITEM_CHARS = 1000"
definition MAX_CHANGED_FILES :: nat where "MAX_CHANGED_FILES = 200"
definition MAX_PATH_CHARS :: nat where "MAX_PATH_CHARS = 500"
definition MAX_COMMIT_CHARS :: nat where "MAX_COMMIT_CHARS = 64"
definition MAX_TEST_RESULT_BYTES :: nat where "MAX_TEST_RESULT_BYTES = 4 * 1024"
definition MAX_TEST_RESULT_DEPTH :: nat where "MAX_TEST_RESULT_DEPTH = 4"

definition RESULT_FIELDS :: "pystr list" where
  "RESULT_FIELDS = map cp [''summary'', ''changed_files'', ''commit'', ''test_result'', ''discovered_facts'',
     ''dependency_notes'', ''unresolved_questions'', ''confidence'', ''artifacts'']"

record NodeResult =
  nr_summary :: pystr
  nr_changed_files :: "pystr list"
  nr_commit :: "pystr option"
  nr_test_result :: "json option"
  nr_discovered_facts :: "pystr list"
  nr_dependency_notes :: "pystr list"
  nr_unresolved_questions :: "pystr list"
  nr_confidence :: "64 word option"
  nr_artifacts :: "pystr list"

record result_args =
  ra_summary :: pobj
  ra_changed_files :: pobj
  ra_commit :: pobj
  ra_test_result :: pobj
  ra_discovered_facts :: pobj
  ra_dependency_notes :: pobj
  ra_unresolved_questions :: pobj
  ra_confidence :: pobj
  ra_artifacts :: pobj

section \<open>Checks\<close>

definition refuse_result :: "ResultReason \<Rightarrow> result_error + 'a" where
  "refuse_result r = Inl (InvalidNodeResultError r)"

definition result_text :: "nat \<Rightarrow> bool \<Rightarrow> pobj \<Rightarrow> result_error + pystr" where
  "result_text limit multiline v =
     (case v of
        O_str s \<Rightarrow>
          if length s > limit * 4 then refuse_result ResultReason_BAD_TEXT
          else if list_ex (text_forbidden multiline) s \<or> list_ex is_surrogate s then refuse_result ResultReason_BAD_TEXT
          else if strip s = [] \<or> length (strip s) > limit then refuse_result ResultReason_BAD_TEXT
          else Inr (strip s)
      | _ \<Rightarrow> refuse_result ResultReason_BAD_TYPE)"

definition result_texts :: "nat \<Rightarrow> nat \<Rightarrow> bool \<Rightarrow> pobj \<Rightarrow> result_error + pystr list" where
  "result_texts most limit multiline v =
     (case collection v of
        Inl _ \<Rightarrow> refuse_result ResultReason_BAD_TYPE
      | Inr items \<Rightarrow>
          if length items > most then refuse_result ResultReason_TOO_MANY_ITEMS else each (result_text limit multiline) items)"

definition result_commit :: "pobj \<Rightarrow> result_error + pystr option" where
  "result_commit v =
     (if v = O_none then Inr None else rbind (result_text MAX_COMMIT_CHARS False v) (\<lambda>t. Inr (Some t)))"

definition result_test :: "(64 word \<Rightarrow> pystr) \<Rightarrow> pobj \<Rightarrow> result_error + json option" where
  "result_test frepr v =
     (if v = O_none then Inr None
      else
        let v' = (case v of O_map Map_proxy _ \<Rightarrow> thaw_json v | _ \<Rightarrow> v) in
        case v' of
          O_map kind _ \<Rightarrow>
            if kind = Map_dict \<or> kind = Map_subclass
            then
              (case check_json_object frepr MAX_TEST_RESULT_BYTES MAX_TEST_RESULT_DEPTH v' of
                 Inr j \<Rightarrow> Inr (Some j)
               | Inl problem \<Rightarrow> refuse_result (if problem = Problem_size then ResultReason_TOO_LARGE else ResultReason_BAD_TYPE))
            else refuse_result ResultReason_BAD_TYPE
        | _ \<Rightarrow> refuse_result ResultReason_BAD_TYPE)"

definition FLOAT_ONE :: "64 word" where "FLOAT_ONE = 0x3FF0000000000000"
definition FLOAT_MINUS_ZERO :: "64 word" where "FLOAT_MINUS_ZERO = 0x8000000000000000"

definition unit_float :: "64 word \<Rightarrow> bool" where
  "unit_float w \<longleftrightarrow> w \<le> FLOAT_ONE \<or> w = FLOAT_MINUS_ZERO"

text \<open>The integers that \<^verbatim>\<open>float\<close> rounds to something beyond the largest double.\<close>

definition beyond_floats :: "int \<Rightarrow> bool" where
  "beyond_floats n \<longleftrightarrow> \<bar>n\<bar> \<ge> 2 ^ 1024 - 2 ^ 970"

definition result_confidence :: "pobj \<Rightarrow> result_error + 64 word option" where
  "result_confidence v =
     (case v of
        O_none \<Rightarrow> Inr None
      | O_int n \<Rightarrow>
          if beyond_floats n then Inl ResultOverflow
          else if 0 \<le> n \<and> n \<le> 1 then Inr (Some (if n = 0 then 0 else FLOAT_ONE))
          else refuse_result ResultReason_BAD_NUMBER
      | O_float w \<Rightarrow> if is_finite_float w \<and> unit_float w then Inr (Some w) else refuse_result ResultReason_BAD_NUMBER
      | _ \<Rightarrow> refuse_result ResultReason_BAD_NUMBER)"

section \<open>Results\<close>

definition NodeResult_to_json :: "NodeResult \<Rightarrow> json" where
  "NodeResult_to_json r =
     J_dict [(cp ''summary'', J_str (nr_summary r)),
       (cp ''changed_files'', texts (nr_changed_files r)),
       (cp ''commit'', case nr_commit r of None \<Rightarrow> J_null | Some t \<Rightarrow> J_str t),
       (cp ''test_result'', case nr_test_result r of None \<Rightarrow> J_null | Some j \<Rightarrow> j),
       (cp ''discovered_facts'', texts (nr_discovered_facts r)),
       (cp ''dependency_notes'', texts (nr_dependency_notes r)),
       (cp ''unresolved_questions'', texts (nr_unresolved_questions r)),
       (cp ''confidence'', case nr_confidence r of None \<Rightarrow> J_null | Some w \<Rightarrow> J_float w),
       (cp ''artifacts'', texts (nr_artifacts r))]"

definition NodeResult_init :: "(64 word \<Rightarrow> pystr) \<Rightarrow> result_args \<Rightarrow> result_error + NodeResult" where
  "NodeResult_init frepr a =
     rbind (result_text MAX_SUMMARY_CHARS True (ra_summary a)) (\<lambda>summary.
     rbind (result_texts MAX_CHANGED_FILES MAX_PATH_CHARS False (ra_changed_files a)) (\<lambda>files.
     rbind (result_commit (ra_commit a)) (\<lambda>commit.
     rbind (result_test frepr (ra_test_result a)) (\<lambda>test.
     rbind (result_texts MAX_LIST_ITEMS MAX_ITEM_CHARS True (ra_discovered_facts a)) (\<lambda>facts.
     rbind (result_texts MAX_LIST_ITEMS MAX_ITEM_CHARS True (ra_dependency_notes a)) (\<lambda>notes.
     rbind (result_texts MAX_LIST_ITEMS MAX_ITEM_CHARS True (ra_unresolved_questions a)) (\<lambda>questions.
     rbind (result_texts MAX_LIST_ITEMS MAX_PATH_CHARS False (ra_artifacts a)) (\<lambda>artifacts.
     rbind (result_confidence (ra_confidence a)) (\<lambda>confidence.
       let r = \<lparr>nr_summary = summary, nr_changed_files = files, nr_commit = commit, nr_test_result = test,
                nr_discovered_facts = facts, nr_dependency_notes = notes, nr_unresolved_questions = questions,
                nr_confidence = confidence, nr_artifacts = artifacts\<rparr>
       in if encoded_size frepr (NodeResult_to_json r) > MAX_RESULT_BYTES then refuse_result ResultReason_TOO_LARGE else Inr r)))))))))"

definition result_mapping_args :: "(pykey \<times> pobj) list \<Rightarrow> result_args" where
  "result_mapping_args es =
     \<lparr>ra_summary = field_of es ''summary'' O_none, ra_changed_files = field_of es ''changed_files'' (O_tuple []),
      ra_commit = field_of es ''commit'' O_none, ra_test_result = field_of es ''test_result'' O_none,
      ra_discovered_facts = field_of es ''discovered_facts'' (O_tuple []),
      ra_dependency_notes = field_of es ''dependency_notes'' (O_tuple []),
      ra_unresolved_questions = field_of es ''unresolved_questions'' (O_tuple []),
      ra_confidence = field_of es ''confidence'' O_none, ra_artifacts = field_of es ''artifacts'' (O_tuple [])\<rparr>"

definition NodeResult_from_json :: "(64 word \<Rightarrow> pystr) \<Rightarrow> pobj \<Rightarrow> result_error + NodeResult" where
  "NodeResult_from_json frepr v =
     (case v of
        O_map _ es \<Rightarrow>
          if list_ex (\<lambda>(k, _). case k of Key_str s \<Rightarrow> s \<notin> set RESULT_FIELDS | _ \<Rightarrow> True) es then refuse_result ResultReason_UNKNOWN_FIELD
          else if Key_str (cp ''summary'') \<notin> fst ` set es then refuse_result ResultReason_MISSING_FIELD
          else NodeResult_init frepr (result_mapping_args es)
      | _ \<Rightarrow> refuse_result ResultReason_NOT_A_RESULT)"

definition upstream_size :: "(64 word \<Rightarrow> pystr) \<Rightarrow> NodeResult list \<Rightarrow> nat" where
  "upstream_size frepr rs = sum_list (map (\<lambda>r. encoded_size frepr (NodeResult_to_json r)) rs)"

section \<open>Building a result again\<close>

lemma refuse_result_not_Inr [simp]: "refuse_result r \<noteq> Inr x"
  by (simp add: refuse_result_def)

lemma result_text_again: "result_text limit ml v = Inr t \<Longrightarrow> result_text limit ml (O_str t) = Inr t"
  using strip_set by (auto simp: result_text_def list_ex_iff split: pyo.splits if_splits)

lemma result_texts_again:
  assumes "result_texts most limit ml v = Inr ts"
  shows "result_texts most limit ml (O_list (map O_str ts)) = Inr ts"
proof -
  from assms obtain items where i: "length items \<le> most" "each (result_text limit ml) items = Inr ts"
    by (fastforce simp: result_texts_def not_less split: sum.splits if_splits)
  then have l: "list_all2 (\<lambda>x y. result_text limit ml x = Inr y) items ts" by (simp add: each_Inr)
  then have "result_text limit ml (O_str t) = Inr t" if "t \<in> set ts" for t
    using that by (auto simp: list_all2_conv_all_nth in_set_conv_nth intro: result_text_again)
  then have "each (result_text limit ml) (map O_str ts) = Inr ts" by (rule each_map)
  then show ?thesis using i(1) list_all2_lengthD [OF l] by (simp add: result_texts_def collection_def)
qed

lemma result_commit_again:
  "result_commit v = Inr c \<Longrightarrow> result_commit (case c of None \<Rightarrow> O_none | Some t \<Rightarrow> O_str t) = Inr c"
  by (auto simp: result_commit_def rbind_eq_Inr_iff dest: result_text_again split: if_splits)

lemma result_test_again:
  assumes "result_test frepr v = Inr j"
  shows "result_test frepr (case j of None \<Rightarrow> O_none | Some j' \<Rightarrow> plain j') = Inr j"
proof (cases j)
  case (Some j')
  with assms obtain v' :: pobj where "check_json_object frepr MAX_TEST_RESULT_BYTES MAX_TEST_RESULT_DEPTH v' = Inr j'"
    by (auto simp: result_test_def Let_def split: pyo.splits map_kind.splits sum.splits if_splits)
  then have "check_json_object frepr MAX_TEST_RESULT_BYTES MAX_TEST_RESULT_DEPTH (plain j' :: pobj) = Inr j'"
    "\<exists>es. j' = J_dict es" by (rule check_again, rule check_json_object_shape)
  with Some show ?thesis by (auto simp: result_test_def Let_def)
qed (simp add: result_test_def)

lemma unit_floats: "is_finite_float 0" "is_finite_float FLOAT_ONE" "unit_float 0" "unit_float FLOAT_ONE"
  by (simp_all add: is_finite_float_def unit_float_def FLOAT_ONE_def)

lemma result_confidence_again:
  "result_confidence v = Inr c \<Longrightarrow> result_confidence (case c of None \<Rightarrow> O_none | Some w \<Rightarrow> O_float w) = Inr c"
  using unit_floats by (auto simp: result_confidence_def split: pyo.splits if_splits)

definition stored_args :: "NodeResult \<Rightarrow> result_args" where
  "stored_args r =
     \<lparr>ra_summary = O_str (nr_summary r), ra_changed_files = O_list (map O_str (nr_changed_files r)),
      ra_commit = (case nr_commit r of None \<Rightarrow> O_none | Some t \<Rightarrow> O_str t),
      ra_test_result = (case nr_test_result r of None \<Rightarrow> O_none | Some j \<Rightarrow> plain j),
      ra_discovered_facts = O_list (map O_str (nr_discovered_facts r)),
      ra_dependency_notes = O_list (map O_str (nr_dependency_notes r)),
      ra_unresolved_questions = O_list (map O_str (nr_unresolved_questions r)),
      ra_confidence = (case nr_confidence r of None \<Rightarrow> O_none | Some w \<Rightarrow> O_float w),
      ra_artifacts = O_list (map O_str (nr_artifacts r))\<rparr>"

lemma from_stored: "NodeResult_from_json frepr (plain (NodeResult_to_json r)) = NodeResult_init frepr (stored_args r)"
proof -
  obtain es :: "(pykey \<times> pobj) list" where es: "plain (NodeResult_to_json r) = O_map Map_dict es"
    "es = map (\<lambda>(k, j). (Key_str k, plain j)) (case NodeResult_to_json r of J_dict js \<Rightarrow> js)"
    by (simp add: NodeResult_to_json_def)
  have "result_mapping_args es = stored_args r"
    unfolding es(2) by (simp add: result_mapping_args_def stored_args_def field_of_def NodeResult_to_json_def texts_def comp_def
        split: option.split)
  moreover have "\<not> list_ex (\<lambda>(k, _). case k of Key_str s \<Rightarrow> s \<notin> set RESULT_FIELDS | _ \<Rightarrow> True) es"
    unfolding es(2) by (simp add: NodeResult_to_json_def RESULT_FIELDS_def)
  moreover have "Key_str (cp ''summary'') \<in> fst ` set es"
    unfolding es(2) by (simp add: NodeResult_to_json_def)
  ultimately show ?thesis unfolding es(1) by (simp add: NodeResult_from_json_def)
qed

lemma NodeResult_init_Inr:
  assumes "NodeResult_init frepr a = Inr r"
  shows "NodeResult_init frepr (stored_args r) = Inr r" and "encoded_size frepr (NodeResult_to_json r) \<le> MAX_RESULT_BYTES"
proof -
  from assms obtain x where
    "result_text MAX_SUMMARY_CHARS True (ra_summary a) = Inr (nr_summary r)"
    "result_texts MAX_CHANGED_FILES MAX_PATH_CHARS False (ra_changed_files a) = Inr (nr_changed_files r)"
    "result_commit (ra_commit a) = Inr (nr_commit r)" "result_test frepr (ra_test_result a) = Inr (nr_test_result r)"
    "result_texts MAX_LIST_ITEMS MAX_ITEM_CHARS True (ra_discovered_facts a) = Inr (nr_discovered_facts r)"
    "result_texts MAX_LIST_ITEMS MAX_ITEM_CHARS True (ra_dependency_notes a) = Inr (nr_dependency_notes r)"
    "result_texts MAX_LIST_ITEMS MAX_ITEM_CHARS True (ra_unresolved_questions a) = Inr (nr_unresolved_questions r)"
    "result_texts MAX_LIST_ITEMS MAX_PATH_CHARS False (ra_artifacts a) = Inr (nr_artifacts r)"
    "result_confidence (ra_confidence a) = Inr (nr_confidence r)"
    and size: "encoded_size frepr (NodeResult_to_json r) \<le> MAX_RESULT_BYTES"
    by (auto simp: NodeResult_init_def rbind_eq_Inr_iff Let_def split: if_splits)
  note again = this(1) [THEN result_text_again] this(2,5,6,7,8) [THEN result_texts_again]
    this(3) [THEN result_commit_again] this(4) [THEN result_test_again] this(9) [THEN result_confidence_again]
  show "encoded_size frepr (NodeResult_to_json r) \<le> MAX_RESULT_BYTES" by (rule size)
  show "NodeResult_init frepr (stored_args r) = Inr r"
  proof -
    let ?r = "\<lparr>nr_summary = nr_summary r, nr_changed_files = nr_changed_files r, nr_commit = nr_commit r,
        nr_test_result = nr_test_result r, nr_discovered_facts = nr_discovered_facts r,
        nr_dependency_notes = nr_dependency_notes r, nr_unresolved_questions = nr_unresolved_questions r,
        nr_confidence = nr_confidence r, nr_artifacts = nr_artifacts r\<rparr>"
    have "NodeResult_init frepr (stored_args r) =
        (if encoded_size frepr (NodeResult_to_json ?r) > MAX_RESULT_BYTES then refuse_result ResultReason_TOO_LARGE else Inr ?r)"
      by (simp add: NodeResult_init_def stored_args_def again Let_def)
    also have "?r = r" by simp
    finally show ?thesis using size by simp
  qed
qed

section \<open>Properties\<close>

text \<open>
  C25: a result that was accepted reads back as itself from its storage form, whatever form its
  parts were given in, and its storage form is within the limit; so the results a node
  receives from its dependencies are within theirs.
\<close>

theorem result_roundtrip:
  assumes "NodeResult_init frepr a = Inr r"
  shows "NodeResult_from_json frepr (plain (NodeResult_to_json r)) = Inr r
    \<and> encoded_size frepr (NodeResult_to_json r) \<le> MAX_RESULT_BYTES"
  using NodeResult_init_Inr [OF assms] by (simp add: from_stored)

lemma upstream_bounded:
  assumes "\<And>r. r \<in> set rs \<Longrightarrow> \<exists>a. NodeResult_init frepr a = Inr r" "length rs \<le> MAX_DEPENDENCIES"
  shows "upstream_size frepr rs \<le> MAX_DEPENDENCIES * MAX_RESULT_BYTES"
proof -
  have "encoded_size frepr (NodeResult_to_json r) \<le> MAX_RESULT_BYTES" if "r \<in> set rs" for r
    using assms(1) [OF that] NodeResult_init_Inr(2) by blast
  then have "upstream_size frepr rs \<le> length rs * MAX_RESULT_BYTES"
    unfolding upstream_size_def by (induction rs) (auto simp: add_mono)
  then show ?thesis using assms(2) by (meson le_trans mult_le_mono1)
qed

text \<open>
  An integer beyond every float is not refused as a bad number: the test for finiteness
  itself fails on it.
\<close>

lemma huge_confidence_overflows: "result_confidence (O_int (2 ^ 1024)) = Inl ResultOverflow"
  by (simp add: result_confidence_def beyond_floats_def)

definition demo_result_args :: result_args where
  "demo_result_args =
     \<lparr>ra_summary = O_str (cp '' done ''), ra_changed_files = O_tuple [O_str (cp ''a.py'')], ra_commit = O_none,
      ra_test_result = O_map Map_dict [(Key_str (cp ''passed''), O_int 3)], ra_discovered_facts = O_tuple [],
      ra_dependency_notes = O_tuple [], ra_unresolved_questions = O_list [O_str (cp ''why?'')],
      ra_confidence = O_float FLOAT_ONE, ra_artifacts = O_tuple []\<rparr>"

definition demo_result :: NodeResult where
  "demo_result =
     \<lparr>nr_summary = cp ''done'', nr_changed_files = [cp ''a.py''], nr_commit = None,
      nr_test_result = Some (J_dict [(cp ''passed'', J_int 3)]), nr_discovered_facts = [], nr_dependency_notes = [],
      nr_unresolved_questions = [cp ''why?''], nr_confidence = Some FLOAT_ONE, nr_artifacts = []\<rparr>"

lemma demo_result_init: "NodeResult_init (\<lambda>_. cp ''1.0'') demo_result_args = Inr demo_result"
  by (simp add: NodeResult_init_def demo_result_args_def demo_result_def result_text_def result_texts_def result_commit_def
      result_test_def result_confidence_def unit_floats check_json_object_def encoded_size_def NodeResult_to_json_def texts_def
      collection_def strip_def cp_def is_space_def text_forbidden_def is_control_def is_surrogate_def spend_def walk_text_def
      bad_text_def dump_text_def dump_char_def int_text_def utf8_def utf8_char_def MAX_KEY_CHARS_def MAX_INT_def
      MAX_RESULT_BYTES_def MAX_SUMMARY_CHARS_def MAX_LIST_ITEMS_def MAX_ITEM_CHARS_def MAX_CHANGED_FILES_def MAX_PATH_CHARS_def
      MAX_TEST_RESULT_BYTES_def MAX_TEST_RESULT_DEPTH_def)

theorem result_roundtrip_witness:
  "NodeResult_from_json (\<lambda>_. cp ''1.0'') (plain (NodeResult_to_json demo_result)) = Inr demo_result"
  using result_roundtrip [OF demo_result_init] by blast

end
