(* ===== verification/Tool_Targets.thy ===== *)
theory Tool_Targets
  imports Authz_Subjects
begin

text \<open>
  What a tool call may name, brought to one spelling: the paths, hosts, URLs and remotes of
  \<^verbatim>\<open>paw_backend/tools/scope.py\<close>. The Unicode tables and the IPv6 parser of Python's library
  are the fields of \<open>uni\<close>: \<open>category\<close> and \<open>normal_form\<close> of \<^verbatim>\<open>unicodedata\<close>, and \<open>ipv6\<close>, the
  compressed text of an address or \<open>None\<close> where \<^verbatim>\<open>IPv6Address\<close> raises. A regular expression is
  a function on the text; each of them has only one way to match.
\<close>

record uni =
  category :: "nat \<Rightarrow> string"
  normal_form :: "pystr \<Rightarrow> pystr"
  ipv6 :: "pystr \<Rightarrow> pystr option"

datatype scope_error =
    TargetError | ScopeValueError | ScopeTypeError | PathResolutionError | ScopeEscalationError

section \<open>Text\<close>

definition MAX_PATH_LENGTH :: nat where "MAX_PATH_LENGTH = 1024"
definition MAX_URL_LENGTH :: nat where "MAX_URL_LENGTH = 2048"
definition MAX_HOST_LENGTH :: nat where "MAX_HOST_LENGTH = 253"

definition FORBIDDEN_CATEGORIES :: "string set" where
  "FORBIDDEN_CATEGORIES = {''Cc'', ''Cf'', ''Cs'', ''Co'', ''Cn'', ''Zl'', ''Zp''}"

definition char_allowed :: "uni \<Rightarrow> nat \<Rightarrow> bool" where
  "char_allowed u c \<longleftrightarrow> \<not> (category u c \<in> FORBIDDEN_CATEGORIES \<or> category u c = ''Zs'' \<and> c \<noteq> 32)"

definition target_text :: "uni \<Rightarrow> nat \<Rightarrow> pyval \<Rightarrow> scope_error + pystr" where
  "target_text u max_length v =
     (case v of
        PyStr s \<Rightarrow>
          if s = [] \<or> length s > max_length then Inl TargetError
          else if \<not> list_all (char_allowed u) s then Inl TargetError
          else if normal_form u s \<noteq> s then Inl TargetError
          else Inr s
      | _ \<Rightarrow> Inl TargetError)"

text \<open>\<^verbatim>\<open>str.split\<close> and \<^verbatim>\<open>str.join\<close> with one character, \<^verbatim>\<open>startswith\<close>, \<^verbatim>\<open>partition\<close> and \<^verbatim>\<open>rstrip\<close>.\<close>

fun split_on :: "nat \<Rightarrow> pystr \<Rightarrow> pystr list" where
  "split_on d [] = [[]]"
| "split_on d (c # s) =
     (if c = d then [] # split_on d s
      else (case split_on d s of w # ws \<Rightarrow> (c # w) # ws | [] \<Rightarrow> [[c]]))"

fun join_on :: "nat \<Rightarrow> pystr list \<Rightarrow> pystr" where
  "join_on d [] = []"
| "join_on d [w] = w"
| "join_on d (w # ws) = w @ d # join_on d ws"

definition starts_with :: "pystr \<Rightarrow> pystr \<Rightarrow> bool" where
  "starts_with s p \<longleftrightarrow> take (length p) s = p"

fun partition_on :: "pystr \<Rightarrow> pystr \<Rightarrow> pystr \<times> pystr" where
  "partition_on sep [] = ([], [])"
| "partition_on sep (c # s) =
     (if starts_with (c # s) sep then ([], drop (length sep) (c # s))
      else (case partition_on sep s of (a, b) \<Rightarrow> (c # a, b)))"

definition rstrip_slash :: "pystr \<Rightarrow> pystr" where
  "rstrip_slash s = rev (dropWhile (\<lambda>c. c = 47) (rev s))"

text \<open>\<^verbatim>\<open>%(?:2[eEfF]|5[cC])\<close>: an encoded dot, slash or backslash\<close>

fun percent_separator :: "pystr \<Rightarrow> bool" where
  "percent_separator (a # b # c # s) \<longleftrightarrow>
     a = 37 \<and> (b = 50 \<and> c \<in> {101, 69, 102, 70} \<or> b = 53 \<and> c \<in> {99, 67})
     \<or> percent_separator (b # c # s)"
| "percent_separator _ \<longleftrightarrow> False"

text \<open>\<^verbatim>\<open>not segment.strip(" .")\<close>\<close>

definition dots_only :: "pystr \<Rightarrow> bool" where
  "dots_only s \<longleftrightarrow> list_all (\<lambda>c. c = 32 \<or> c = 46) s"

section \<open>Paths\<close>

fun path_segments :: "pystr list \<Rightarrow> scope_error + pystr list" where
  "path_segments [] = Inr []"
| "path_segments (s # ss) =
     (if s = [] \<or> s = [46] then path_segments ss
      else if dots_only s then Inl TargetError
      else rbind (path_segments ss) (\<lambda>r. Inr (s # r)))"

definition normalise_path :: "uni \<Rightarrow> pystr option \<Rightarrow> pyval \<Rightarrow> scope_error + pystr" where
  "normalise_path u base v =
     rbind (target_text u MAX_PATH_LENGTH v) (\<lambda>text.
       if 92 \<in> set text \<or> starts_with text [126] \<or> percent_separator text then Inl TargetError
       else
         rbind (if starts_with text [47] then Inr text
                else (case base of
                        Some b \<Rightarrow> if starts_with b [47] then Inr (b @ 47 # text) else Inl TargetError
                      | None \<Rightarrow> Inl TargetError)) (\<lambda>raw.
         rbind (path_segments (split_on 47 raw)) (\<lambda>segments.
           Inr (47 # join_on 47 segments))))"

definition path_within :: "pystr \<Rightarrow> pystr \<Rightarrow> bool" where
  "path_within path root \<longleftrightarrow> root \<noteq> [47] \<and> (path = root \<or> starts_with path (root @ [47]))"

section \<open>Hosts\<close>

definition lower_char :: "nat \<Rightarrow> nat" where
  "lower_char c = (if 65 \<le> c \<and> c \<le> 90 then c + 32 else c)"

definition alnum_lower :: "nat \<Rightarrow> bool" where
  "alnum_lower c \<longleftrightarrow> lower_ascii c \<or> digit_ascii c"

text \<open>\<^verbatim>\<open>[a-z0-9](?:[a-z0-9-]{0,61}[a-z0-9])?\<close>\<close>

definition host_label_ok :: "pystr \<Rightarrow> bool" where
  "host_label_ok s \<longleftrightarrow> s \<noteq> [] \<and> length s \<le> 63 \<and> alnum_lower (hd s) \<and> alnum_lower (last s)
     \<and> list_all (\<lambda>c. alnum_lower c \<or> c = 45) s"

definition digits_value :: "pystr \<Rightarrow> nat" where
  "digits_value s = foldl (\<lambda>n c. 10 * n + (c - 48)) 0 s"

text \<open>
  \<^verbatim>\<open>ipaddress.IPv4Address\<close> accepts four decimal octets without leading zeros; its text is then
  the one it was given.
\<close>

definition octet_ok :: "pystr \<Rightarrow> bool" where
  "octet_ok s \<longleftrightarrow> s \<noteq> [] \<and> list_all digit_ascii s \<and> length s \<le> 3 \<and> (s = [48] \<or> hd s \<noteq> 48)
     \<and> digits_value s \<le> 255"

definition ipv4_ok :: "pystr \<Rightarrow> bool" where
  "ipv4_ok s \<longleftrightarrow> length (split_on 46 s) = 4 \<and> list_all octet_ok (split_on 46 s)"

definition named_host :: "pystr \<Rightarrow> scope_error + pystr" where
  "named_host h =
     (if h = [] \<or> length h > MAX_HOST_LENGTH then Inl TargetError
      else
        let labels = split_on 46 h; final = last labels in
        if \<not> list_all host_label_ok labels then Inl TargetError
        else if list_all digit_ascii final \<or> starts_with final [48, 120]
        then (if ipv4_ok h then Inr h else Inl TargetError)
        else Inr h)"

definition normalise_host :: "uni \<Rightarrow> pyval \<Rightarrow> scope_error + pystr" where
  "normalise_host u v =
     (case v of
        PyStr s \<Rightarrow>
          if s = [] \<or> length s > MAX_HOST_LENGTH + 2 then Inl TargetError
          else if \<not> list_all (\<lambda>c. c < 128) s then Inl TargetError
          else
            let host = map lower_char s in
            if starts_with host [91] then
              (if last host \<noteq> 93 \<or> 37 \<in> set host then Inl TargetError
               else (case ipv6 u (butlast (tl host)) of
                       Some a \<Rightarrow> Inr (91 # a @ [93])
                     | None \<Rightarrow> Inl TargetError))
            else named_host (if last host = 46 then butlast host else host)
      | _ \<Rightarrow> Inl TargetError)"

section \<open>URLs\<close>

definition scheme_char :: "nat \<Rightarrow> bool" where
  "scheme_char c \<longleftrightarrow> lower_ascii (lower_char c) \<or> digit_ascii c \<or> c = 43 \<or> c = 46 \<or> c = 45"

definition authority_char :: "nat \<Rightarrow> bool" where
  "authority_char c \<longleftrightarrow> c \<notin> {47, 63, 35, 64, 92, 32}"

text \<open>
  The match of \<^verbatim>\<open>_URL\<close>: scheme, authority, path and query. The text is ASCII without control
  characters here, so the space is the only white space.
\<close>

definition url_parts :: "pystr \<Rightarrow> (pystr \<times> pystr \<times> pystr \<times> pystr) option" where
  "url_parts s =
     (let scheme = takeWhile scheme_char s;
          rest = drop (length scheme) s;
          after = drop 3 rest;
          authority = takeWhile authority_char after;
          r1 = drop (length authority) after;
          path = (if starts_with r1 [47] then takeWhile (\<lambda>c. c \<notin> {32, 63, 35}) r1 else []);
          r2 = drop (length path) r1;
          query = (if starts_with r2 [63] then takeWhile (\<lambda>c. c \<notin> {32, 35}) r2 else []);
          r3 = drop (length query) r2
      in if scheme \<noteq> [] \<and> lower_ascii (lower_char (hd scheme)) \<and> starts_with rest [58, 47, 47]
            \<and> authority \<noteq> [] \<and> (r3 = [] \<or> starts_with r3 [35] \<and> 32 \<notin> set r3)
         then Some (scheme, authority, path, query) else None)"

definition default_port :: "pystr \<Rightarrow> nat option" where
  "default_port scheme =
     (if scheme = cp ''http'' then Some 80 else if scheme = cp ''https'' then Some 443 else None)"

text \<open>The host and the port of an authority.\<close>

definition host_and_port :: "pystr \<Rightarrow> scope_error + pystr \<times> pystr option" where
  "host_and_port authority =
     (if starts_with authority [91] then
        (if 93 \<notin> set authority then Inl TargetError
         else
           let host = takeWhile (\<lambda>c. c \<noteq> 93) authority @ [93]; rest = drop (length host) authority in
           if rest = [] then Inr (host, None)
           else if starts_with rest [58] then Inr (host, Some (drop 1 rest))
           else Inl TargetError)
      else if count_list authority 58 > 1 then Inl TargetError
      else if 58 \<in> set authority
      then Inr (takeWhile (\<lambda>c. c \<noteq> 58) authority, Some (drop 1 (dropWhile (\<lambda>c. c \<noteq> 58) authority)))
      else Inr (authority, None))"

definition port_ok :: "nat \<Rightarrow> pystr option \<Rightarrow> scope_error + unit" where
  "port_ok standard p =
     (case p of
        None \<Rightarrow> Inr ()
      | Some t \<Rightarrow>
          require (t \<noteq> [] \<and> list_all digit_ascii t \<and> length t \<le> 5 \<and> digits_value t = standard) TargetError)"

definition normalise_url :: "uni \<Rightarrow> pyval \<Rightarrow> scope_error + pystr \<times> pystr" where
  "normalise_url u v =
     (case v of
        PyStr s \<Rightarrow>
          if s = [] \<or> length s > MAX_URL_LENGTH then Inl TargetError
          else if \<not> list_all (\<lambda>c. 32 \<le> c \<and> c < 127) s then Inl TargetError
          else
            (case url_parts s of
               None \<Rightarrow> Inl TargetError
             | Some (scheme0, authority, path, query) \<Rightarrow>
                 let scheme = map lower_char scheme0 in
                 (case default_port scheme of
                    None \<Rightarrow> Inl TargetError
                  | Some standard \<Rightarrow>
                      rbind (host_and_port authority) (\<lambda>(host_text, port).
                      rbind (port_ok standard port) (\<lambda>_.
                      rbind (normalise_host u (PyStr host_text)) (\<lambda>host.
                        Inr (scheme @ cp ''://'' @ host @ path @ query, host))))))
      | _ \<Rightarrow> Inl TargetError)"

definition normalise_project :: "pyval \<Rightarrow> scope_error + uuid" where
  "normalise_project v = (case to_uuid v of Inr i \<Rightarrow> Inr i | Inl _ \<Rightarrow> Inl TargetError)"

definition normalise_repository :: "pyval \<Rightarrow> scope_error + uuid" where
  "normalise_repository v = (case to_uuid v of Inr i \<Rightarrow> Inr i | Inl _ \<Rightarrow> Inl TargetError)"

definition safe_tail :: "pystr \<Rightarrow> bool" where
  "safe_tail tail \<longleftrightarrow> 92 \<notin> set tail \<and> 59 \<notin> set tail \<and> \<not> percent_separator tail
     \<and> list_all (\<lambda>s. s = [] \<or> \<not> dots_only s) (split_on 47 tail)"

definition url_path :: "pystr \<Rightarrow> pystr" where
  "url_path url = snd (partition_on [47] (snd (partition_on (cp ''://'') url)))"

definition url_path_is_safe :: "pystr \<Rightarrow> bool" where
  "url_path_is_safe url \<longleftrightarrow> safe_tail (url_path (takeWhile (\<lambda>c. c \<noteq> 63) url))"

definition normalise_remote :: "uni \<Rightarrow> pyval \<Rightarrow> scope_error + pystr" where
  "normalise_remote u v =
     rbind (normalise_url u v) (\<lambda>(url, host).
       let path = rstrip_slash (url_path url) in
       if 63 \<in> set url \<or> path = [] \<or> \<not> safe_tail path then Inl TargetError
       else Inr (rstrip_slash url))"

definition url_within :: "pystr \<Rightarrow> pystr \<Rightarrow> bool" where
  "url_within url remote =
     (let path = takeWhile (\<lambda>c. c \<noteq> 63) url in
      if path = remote then True
      else if \<not> starts_with path (remote @ [47]) then False
      else safe_tail (drop (length remote + 1) path))"

end
