(* ===== verification/Tool_Scope.thy ===== *)
theory Tool_Scope
  imports Tool_Targets Task_Domain "HOL-Library.AList"
begin

text \<open>
  The scope of a task (\<^verbatim>\<open>TaskScope\<close> and \<^verbatim>\<open>ScopedRepository\<close> of \<^verbatim>\<open>paw_backend/tools/scope.py\<close>) and
  where the targets of a call lie relative to it (\<^verbatim>\<open>classify_targets\<close>). A \<^verbatim>\<open>frozenset\<close> of hosts
  is a list without duplicates, a dictionary the association list of its items in insertion
  order. The path resolver (\<^verbatim>\<open>os.path.realpath\<close>) is the parameter \<open>resolve\<close>, the file system as
  one call sees it; \<open>None\<close> is any failure, the timeout included.
\<close>

section \<open>Limits and targets\<close>

definition MAX_ROOTS :: nat where "MAX_ROOTS = 32"
definition MAX_HOSTS :: nat where "MAX_HOSTS = 128"
definition MAX_REPOSITORIES :: nat where "MAX_REPOSITORIES = 32"
definition MAX_PROJECTS :: nat where "MAX_PROJECTS = MAX_REPOSITORIES + 1"
definition MAX_REMOTES :: nat where "MAX_REMOTES = 8"
definition MAX_CREDENTIAL_HANDLES :: nat where "MAX_CREDENTIAL_HANDLES = 64"
definition MAX_EXCLUDED_PATHS :: nat where "MAX_EXCLUDED_PATHS = MAX_ROOTS + 4 * MAX_REPOSITORIES"
definition MAX_PATH_ROOTS :: nat where "MAX_PATH_ROOTS = MAX_ROOTS + MAX_REPOSITORIES"

datatype TargetKind =
    TargetKind_PATH | TargetKind_HOST | TargetKind_PROJECT | TargetKind_CREDENTIAL
  | TargetKind_REPOSITORY | TargetKind_URL | TargetKind_WORKING_SET_REPOSITORY

record Target =
  tg_kind :: TargetKind
  tg_value :: pystr

datatype ScopeStatus = IN_SCOPE | HOST_OUT_OF_SCOPE | OUT_OF_SCOPE

text \<open>\<^verbatim>\<open>cred_[0-9a-f]{32}\<close>\<close>

definition is_credential_handle :: "pyval \<Rightarrow> bool" where
  "is_credential_handle v =
     (case v of
        PyStr s \<Rightarrow> take 5 s = cp ''cred_'' \<and> length s = 37 \<and> list_all (\<lambda>c. hex_value c \<noteq> None) (drop 5 s)
      | _ \<Rightarrow> False)"

section \<open>Repositories of the scope\<close>

record ScopedRepository =
  sr_repo_id :: uuid
  sr_project_id :: uuid
  sr_root :: "pystr option"
  sr_acl :: "RepoAcl option"
  sr_remotes :: "pystr list"
  sr_role :: "RepoRole option"

definition add_new :: "'a \<Rightarrow> 'a list \<Rightarrow> 'a list" where
  "add_new x xs = (if x \<in> set xs then xs else xs @ [x])"

definition uuid_field :: "pyval \<Rightarrow> scope_error + uuid" where
  "uuid_field v = (case to_uuid v of Inr i \<Rightarrow> Inr i | Inl _ \<Rightarrow> Inl ScopeValueError)"

text \<open>An absolute path other than the root of the file system.\<close>

definition root_path :: "uni \<Rightarrow> pyval \<Rightarrow> scope_error + pystr" where
  "root_path u v =
     rbind (normalise_path u None v) (\<lambda>p. if p = [47] then Inl ScopeValueError else Inr p)"

fun add_remotes :: "uni \<Rightarrow> pystr list \<Rightarrow> pyval list \<Rightarrow> scope_error + pystr list" where
  "add_remotes u found [] = Inr found"
| "add_remotes u found (v # vs) =
     rbind (normalise_remote u v) (\<lambda>r. add_remotes u (add_new r found) vs)"

definition ScopedRepository_init ::
  "uni \<Rightarrow> pyval \<Rightarrow> pyval \<Rightarrow> pyval option \<Rightarrow> RepoAcl arg option \<Rightarrow> pyval list arg \<Rightarrow> RepoRole arg option
     \<Rightarrow> scope_error + ScopedRepository" where
  "ScopedRepository_init u repo project root acl remotes role =
     rbind (uuid_field repo) (\<lambda>rid.
     rbind (uuid_field project) (\<lambda>pid.
     rbind (case root of None \<Rightarrow> Inr None | Some v \<Rightarrow> rbind (root_path u v) (\<lambda>p. Inr (Some p))) (\<lambda>root'.
     rbind (case acl of
              None \<Rightarrow> Inr None
            | Some Other \<Rightarrow> Inl ScopeTypeError
            | Some (Inst a) \<Rightarrow>
                if acl_repo_id a \<noteq> rid \<or> acl_project_id a \<noteq> pid then Inl ScopeValueError else Inr (Some a)) (\<lambda>acl'.
     rbind (case role of
              None \<Rightarrow> Inr None
            | Some Other \<Rightarrow> Inl ScopeTypeError
            | Some (Inst r) \<Rightarrow> Inr (Some r)) (\<lambda>role'.
       case remotes of
         Other \<Rightarrow> Inl ScopeTypeError
       | Inst vs \<Rightarrow>
           if length vs > MAX_REMOTES then Inl ScopeValueError
           else
             rbind (add_remotes u [] vs) (\<lambda>remotes'.
               Inr \<lparr>sr_repo_id = rid, sr_project_id = pid, sr_root = root', sr_acl = acl',
                    sr_remotes = remotes', sr_role = role'\<rparr>))))))"

text \<open>
  \<^verbatim>\<open>dataclasses.replace\<close> builds a new object from the fields, so the constructor checks them
  all again.
\<close>

definition replace_repository ::
  "uni \<Rightarrow> ScopedRepository \<Rightarrow> pystr option \<Rightarrow> RepoRole option \<Rightarrow> scope_error + ScopedRepository" where
  "replace_repository u r root role =
     ScopedRepository_init u (PyUuid (sr_repo_id r)) (PyUuid (sr_project_id r))
       (map_option PyStr root) (map_option Inst (sr_acl r)) (Inst (map PyStr (sr_remotes r)))
       (map_option Inst role)"

fun working_set_roles ::
  "(uuid \<times> RepoRole) list \<Rightarrow> (uuid \<times> RepoRole) arg list \<Rightarrow> scope_error + (uuid \<times> RepoRole) list" where
  "working_set_roles roles [] = Inr roles"
| "working_set_roles roles (Other # es) = Inl ScopeTypeError"
| "working_set_roles roles (Inst (i, r) # es) = working_set_roles (AList.update i r roles) es"

fun give_roles ::
  "uni \<Rightarrow> (uuid \<times> RepoRole) list \<Rightarrow> ScopedRepository arg list \<Rightarrow> scope_error + ScopedRepository list" where
  "give_roles u roles [] = Inr []"
| "give_roles u roles (Other # rs) = Inl ScopeTypeError"
| "give_roles u roles (Inst r # rs) =
     rbind (replace_repository u r (sr_root r) (map_of roles (sr_repo_id r))) (\<lambda>r'.
     rbind (give_roles u roles rs) (\<lambda>rs'. Inr (r' # rs')))"

definition with_working_set_roles ::
  "uni \<Rightarrow> ScopedRepository arg list \<Rightarrow> (uuid \<times> RepoRole) arg list \<Rightarrow> scope_error + ScopedRepository list" where
  "with_working_set_roles u repositories working_set =
     rbind (working_set_roles [] working_set) (\<lambda>roles. give_roles u roles repositories)"

section \<open>Scopes\<close>

record TaskScope =
  ts_path_roots :: "pystr list"
  ts_hosts :: "pystr list"
  ts_projects :: "(uuid \<times> ProjectState) list"
  ts_credential_handles :: "(pystr \<times> pystr list) list"
  ts_repositories :: "ScopedRepository list"
  ts_excluded_repositories :: "ScopedRepository list"
  ts_excluded_paths :: "pystr list"

record scope_args =
  sa_path_roots :: "pyval list arg"
  sa_hosts :: "pyval list arg"
  sa_projects :: "(pyval \<times> ProjectState enum_arg) list arg"
  sa_credential_handles :: "(pyval \<times> pyval list arg) list arg"
  sa_repositories :: "ScopedRepository arg list arg"
  sa_excluded_repositories :: "ScopedRepository arg list arg"
  sa_excluded_paths :: "pyval list arg"

definition repository :: "TaskScope \<Rightarrow> uuid \<Rightarrow> ScopedRepository option" where
  "repository s i = find (\<lambda>r. sr_repo_id r = i) (ts_repositories s)"

definition as_collection :: "'a arg \<Rightarrow> scope_error + 'a" where
  "as_collection a = (case a of Inst x \<Rightarrow> Inr x | Other \<Rightarrow> Inl ScopeTypeError)"

fun add_paths :: "uni \<Rightarrow> pystr list \<Rightarrow> pyval list \<Rightarrow> scope_error + pystr list" where
  "add_paths u found [] = Inr found"
| "add_paths u found (v # vs) = rbind (root_path u v) (\<lambda>p. add_paths u (add_new p found) vs)"

fun add_hosts :: "uni \<Rightarrow> pystr list \<Rightarrow> pyval list \<Rightarrow> scope_error + pystr list" where
  "add_hosts u found [] = Inr found"
| "add_hosts u found (v # vs) = rbind (normalise_host u v) (\<lambda>h. add_hosts u (add_new h found) vs)"

fun add_projects ::
  "(uuid \<times> ProjectState) list \<Rightarrow> (pyval \<times> ProjectState enum_arg) list
     \<Rightarrow> scope_error + (uuid \<times> ProjectState) list" where
  "add_projects found [] = Inr found"
| "add_projects found ((p, st) # items) =
     rbind (normalise_project p) (\<lambda>i.
       case enum_of ProjectState_members ProjectState_value st of
         Inl _ \<Rightarrow> Inl ScopeValueError
       | Inr s \<Rightarrow> add_projects (AList.update i s found) items)"

fun add_handles ::
  "uni \<Rightarrow> (pystr \<times> pystr list) list \<Rightarrow> (pyval \<times> pyval list arg) list
     \<Rightarrow> scope_error + (pystr \<times> pystr list) list" where
  "add_handles u found [] = Inr found"
| "add_handles u found ((h, hosts) # items) =
     (case h of
        PyStr name \<Rightarrow>
          if is_credential_handle h then
            rbind (as_collection hosts) (\<lambda>vs.
            rbind (add_hosts u [] vs) (\<lambda>valid. add_handles u (AList.update name valid found) items))
          else Inl ScopeValueError
      | _ \<Rightarrow> Inl ScopeValueError)"

definition repository_list :: "ScopedRepository arg list arg \<Rightarrow> scope_error + ScopedRepository list" where
  "repository_list a =
     rbind (as_collection a) (\<lambda>rs. if all_inst rs then Inr (insts rs) else Inl ScopeTypeError)"

definition scope_too_large :: "TaskScope \<Rightarrow> bool" where
  "scope_too_large s \<longleftrightarrow> length (ts_path_roots s) > MAX_PATH_ROOTS
     \<or> length (ts_excluded_paths s) > MAX_EXCLUDED_PATHS \<or> length (ts_hosts s) > MAX_HOSTS
     \<or> length (ts_projects s) > MAX_PROJECTS \<or> length (ts_repositories s) > MAX_REPOSITORIES
     \<or> length (ts_excluded_repositories s) > MAX_REPOSITORIES
     \<or> length (ts_credential_handles s) > MAX_CREDENTIAL_HANDLES
     \<or> list_ex (\<lambda>(h, valid). length valid > MAX_HOSTS) (ts_credential_handles s)"

definition TaskScope_init :: "uni \<Rightarrow> scope_args \<Rightarrow> scope_error + TaskScope" where
  "TaskScope_init u a =
     rbind (as_collection (sa_path_roots a)) (\<lambda>rs.
     rbind (add_paths u [] rs) (\<lambda>roots.
     rbind (as_collection (sa_hosts a)) (\<lambda>hs.
     rbind (add_hosts u [] hs) (\<lambda>hosts.
     rbind (as_collection (sa_projects a)) (\<lambda>ps.
     rbind (add_projects [] ps) (\<lambda>projects.
     rbind (as_collection (sa_credential_handles a)) (\<lambda>cs.
     rbind (add_handles u [] cs) (\<lambda>handles.
     rbind (repository_list (sa_repositories a)) (\<lambda>repositories.
       if \<not> distinct (map sr_repo_id repositories) then Inl ScopeValueError
       else if list_ex (\<lambda>r. sr_project_id r \<notin> fst ` set projects) repositories then Inl ScopeValueError
       else
         rbind (repository_list (sa_excluded_repositories a)) (\<lambda>excluded.
           if \<not> distinct (map sr_repo_id excluded) then Inl ScopeValueError
           else if set (map sr_repo_id excluded) \<inter> set (map sr_repo_id repositories) \<noteq> {}
           then Inl ScopeValueError
           else
             rbind (as_collection (sa_excluded_paths a)) (\<lambda>es.
             rbind (add_paths u [] es) (\<lambda>excluded_paths.
               let s = \<lparr>ts_path_roots = roots, ts_hosts = hosts, ts_projects = projects,
                        ts_credential_handles = handles, ts_repositories = repositories,
                        ts_excluded_repositories = excluded, ts_excluded_paths = excluded_paths\<rparr>
               in if scope_too_large s then Inl ScopeValueError else Inr s))))))))))))"

section \<open>Where the targets of a call lie\<close>

type_synonym resolver = "pystr \<Rightarrow> pyval option"

record Classification =
  cl_status :: ScopeStatus
  cl_offending :: "TargetKind option"
  cl_repositories :: "uuid list"

definition resolve_path :: "uni \<Rightarrow> resolver \<Rightarrow> pystr \<Rightarrow> scope_error + pystr" where
  "resolve_path u res path =
     (case res path of
        None \<Rightarrow> Inl PathResolutionError
      | Some v \<Rightarrow> (case normalise_path u None v of Inr p \<Rightarrow> Inr p | Inl _ \<Rightarrow> Inl PathResolutionError))"

fun resolve_all :: "uni \<Rightarrow> resolver \<Rightarrow> pystr list \<Rightarrow> scope_error + pystr list" where
  "resolve_all u res [] = Inr []"
| "resolve_all u res (p # ps) =
     rbind (resolve_path u res p) (\<lambda>q. rbind (resolve_all u res ps) (\<lambda>qs. Inr (q # qs)))"

fun repository_roots ::
  "uni \<Rightarrow> resolver \<Rightarrow> ScopedRepository list \<Rightarrow> scope_error + (uuid \<times> pystr) list" where
  "repository_roots u res [] = Inr []"
| "repository_roots u res (r # rs) =
     (case sr_root r of
        None \<Rightarrow> repository_roots u res rs
      | Some p \<Rightarrow>
          rbind (resolve_path u res p) (\<lambda>q.
          rbind (repository_roots u res rs) (\<lambda>qs. Inr ((sr_repo_id r, q) # qs))))"

text \<open>The roots that are carved out of an excluded path: the ones strictly inside it.\<close>

definition carved_out :: "pystr list \<Rightarrow> pystr \<Rightarrow> pystr list" where
  "carved_out roots excluded = filter (\<lambda>r. r \<noteq> excluded \<and> path_within r excluded) roots"

definition path_outside ::
  "pystr list \<Rightarrow> pystr list \<Rightarrow> (pystr \<times> pystr list) list \<Rightarrow> pystr \<Rightarrow> bool" where
  "path_outside roots excluded_roots excluded_paths p \<longleftrightarrow>
     \<not> list_ex (path_within p) roots
     \<or> list_ex (path_within p) excluded_roots
     \<or> list_ex (\<lambda>(e, carved). path_within p e \<and> \<not> list_ex (path_within p) carved) excluded_paths"

fun classify_paths ::
  "uni \<Rightarrow> resolver \<Rightarrow> pystr list \<Rightarrow> (uuid \<times> pystr) list \<Rightarrow> pystr list \<Rightarrow> (pystr \<times> pystr list) list
     \<Rightarrow> Target list \<Rightarrow> TargetKind list \<times> uuid set \<Rightarrow> scope_error + TargetKind list \<times> uuid set" where
  "classify_paths u res roots repo_roots excluded_roots excluded_paths [] (outside, touched) =
     Inr (outside, touched)"
| "classify_paths u res roots repo_roots excluded_roots excluded_paths (t # ts) (outside, touched) =
     rbind (resolve_path u res (tg_value t)) (\<lambda>p.
       classify_paths u res roots repo_roots excluded_roots excluded_paths ts
         (if path_outside roots excluded_roots excluded_paths p then outside @ [TargetKind_PATH] else outside,
          touched \<union> fst ` set (filter (\<lambda>(i, root). path_within p root) repo_roots)))"

definition path_targets ::
  "uni \<Rightarrow> resolver \<Rightarrow> TaskScope \<Rightarrow> Target list \<Rightarrow> scope_error + TargetKind list \<times> uuid set" where
  "path_targets u res s ts =
     (let paths = filter (\<lambda>t. tg_kind t = TargetKind_PATH) ts in
      if paths = [] then Inr ([], {})
      else
        rbind (resolve_all u res (ts_path_roots s)) (\<lambda>roots.
        rbind (repository_roots u res (ts_repositories s)) (\<lambda>repo_roots.
        rbind (repository_roots u res (ts_excluded_repositories s)) (\<lambda>excluded_roots.
        rbind (resolve_all u res (ts_excluded_paths s)) (\<lambda>excluded.
          classify_paths u res roots repo_roots (map snd excluded_roots)
            (map (\<lambda>e. (e, carved_out roots e)) excluded) paths ([], {}))))))"

fun other_targets ::
  "TaskScope \<Rightarrow> pystr set \<Rightarrow> Target list \<Rightarrow> TargetKind list \<times> uuid set
     \<Rightarrow> scope_error + TargetKind list \<times> uuid set" where
  "other_targets s hosts [] (outside, touched) = Inr (outside, touched)"
| "other_targets s hosts (t # ts) (outside, touched) =
     (case tg_kind t of
        TargetKind_PROJECT \<Rightarrow>
          rbind (normalise_project (PyStr (tg_value t))) (\<lambda>i.
            other_targets s hosts ts
              (if i \<in> fst ` set (ts_projects s) then outside else outside @ [TargetKind_PROJECT], touched))
      | TargetKind_REPOSITORY \<Rightarrow>
          rbind (normalise_repository (PyStr (tg_value t))) (\<lambda>i.
            if repository s i = None then other_targets s hosts ts (outside @ [TargetKind_REPOSITORY], touched)
            else other_targets s hosts ts (outside, insert i touched))
      | TargetKind_CREDENTIAL \<Rightarrow>
          other_targets s hosts ts
            ((case map_of (ts_credential_handles s) (tg_value t) of
                Some valid \<Rightarrow> if hosts \<subseteq> set valid then outside else outside @ [TargetKind_CREDENTIAL]
              | None \<Rightarrow> outside @ [TargetKind_CREDENTIAL]), touched)
      | _ \<Rightarrow> other_targets s hosts ts (outside, touched))"

definition owns_url :: "pystr \<Rightarrow> ScopedRepository \<Rightarrow> bool" where
  "owns_url url r \<longleftrightarrow> list_ex (url_within url) (sr_remotes r)"

fun url_targets ::
  "uni \<Rightarrow> TaskScope \<Rightarrow> pyval list \<Rightarrow> TargetKind list \<times> uuid set \<times> bool
     \<Rightarrow> scope_error + TargetKind list \<times> uuid set \<times> bool" where
  "url_targets u s [] acc = Inr acc"
| "url_targets u s (v # vs) (outside, touched, unbound) =
     rbind (normalise_url u v) (\<lambda>(url, host).
       let owners = set (map sr_repo_id (filter (owns_url url) (ts_repositories s))) in
       url_targets u s vs
         (if list_ex (owns_url url) (ts_excluded_repositories s) then outside @ [TargetKind_URL] else outside,
          touched \<union> owners, unbound \<or> owners = {}))"

definition classify_targets ::
  "uni \<Rightarrow> resolver \<Rightarrow> TaskScope \<Rightarrow> Target list \<Rightarrow> pyval list \<Rightarrow> scope_error + Classification" where
  "classify_targets u res s ts urls =
     (let hosts = set (map tg_value (filter (\<lambda>t. tg_kind t = TargetKind_HOST) ts)) in
      rbind (path_targets u res s ts) (\<lambda>acc.
      rbind (other_targets s hosts ts acc) (\<lambda>(outside1, touched1).
      rbind (url_targets u s urls (outside1, touched1, False)) (\<lambda>(outside, touched, unbound).
        let repositories = filter (\<lambda>i. i \<in> touched) (map sr_repo_id (ts_repositories s)) in
        if outside \<noteq> [] then
          Inr \<lparr>cl_status = OUT_OF_SCOPE, cl_offending = Some (hd outside), cl_repositories = repositories\<rparr>
        else if \<not> hosts \<subseteq> set (ts_hosts s) then
          Inr \<lparr>cl_status = HOST_OUT_OF_SCOPE, cl_offending = Some TargetKind_HOST,
               cl_repositories = repositories\<rparr>
        else if unbound \<and> touched \<noteq> {} then
          Inr \<lparr>cl_status = OUT_OF_SCOPE, cl_offending = Some TargetKind_URL, cl_repositories = repositories\<rparr>
        else Inr \<lparr>cl_status = IN_SCOPE, cl_offending = None, cl_repositories = repositories\<rparr>))))"

end
