(* ===== verification/Node_Scope.thy ===== *)
theory Node_Scope
  imports Tool_Scope Authz_Delegation Plan_Nodes
begin

text \<open>
  The grant and the scope of a node, derived from the ones of its task
  (\<^verbatim>\<open>paw_backend/orchestrator/scope.py\<close>). \<open>uuid5\<close> stands for \<^verbatim>\<open>uuid.uuid5\<close> with the module's
  namespace, a hash.
\<close>

definition ROLES_WITH_CREDENTIALS :: "NodeRole set" where
  "ROLES_WITH_CREDENTIALS = {NodeRole_WORKER}"

section \<open>Identity and grant\<close>

definition agent_name :: "uuid \<Rightarrow> int \<times> int \<Rightarrow> pystr \<Rightarrow> int \<Rightarrow> (int \<times> int) option \<Rightarrow> pystr" where
  "agent_name task_id run node_key attempt claim =
     join_on 47 ([uuid_text task_id, int_text (fst run) @ 46 # int_text (snd run), node_key]
       @ (case claim of
            None \<Rightarrow> []
          | Some (entry, count) \<Rightarrow> [cp ''claim-'' @ int_text entry @ 46 # int_text count])
       @ [int_text attempt])"

definition agent_id_of ::
  "(pystr \<Rightarrow> uuid) \<Rightarrow> uuid \<Rightarrow> int \<times> int \<Rightarrow> pystr \<Rightarrow> int \<Rightarrow> (int \<times> int) option \<Rightarrow> uuid" where
  "agent_id_of uuid5 task_id run node_key attempt claim =
     uuid5 (agent_name task_id run node_key attempt claim)"

text \<open>\<open>wanted\<close> is the field \<^verbatim>\<open>capabilities\<close> of the node; \<open>None\<close> also stands for no node at all.\<close>

definition node_grant ::
  "AgentGrant \<Rightarrow> Capability list option \<Rightarrow> NodeRole \<Rightarrow> uuid \<Rightarrow> delegation_error + AgentGrant" where
  "node_grant parent wanted role agent =
     (let cs = (case wanted of
                  Some w \<Rightarrow> w
                | None \<Rightarrow> filter (\<lambda>c. c \<in> ROLE_CEILING role \<and> c \<in> capabilities parent) Capability_members)
      in derive_child_grant (Inst parent) (PyUuid agent) (Some (Items (map Inst cs))) None)"

section \<open>Worktrees\<close>

record NodeWorktree =
  nw_repo_id :: uuid
  nw_path :: pystr
  nw_branch :: pystr
  nw_protected :: "pystr list"
  nw_base_commit :: "pystr option"
  nw_read_only :: bool

type_synonym worktrees = "(uuid \<times> NodeWorktree) list"

fun read_worktrees :: "(pyval \<times> NodeWorktree arg) list \<Rightarrow> scope_error + worktrees" where
  "read_worktrees [] = Inr []"
| "read_worktrees ((i, w) # items) =
     (case w of
        Other \<Rightarrow> Inl ScopeTypeError
      | Inst wt \<Rightarrow>
          if i \<noteq> PyUuid (nw_repo_id wt) then Inl ScopeTypeError
          else rbind (read_worktrees items) (\<lambda>ws. Inr ((nw_repo_id wt, wt) # ws)))"

definition checked_worktrees ::
  "(pyval \<times> NodeWorktree arg) list arg option \<Rightarrow> NodeRole \<Rightarrow> scope_error + worktrees" where
  "checked_worktrees a role =
     (case a of
        None \<Rightarrow> Inr []
      | Some Other \<Rightarrow> Inl ScopeTypeError
      | Some (Inst items) \<Rightarrow>
          rbind (read_worktrees items) (\<lambda>ws.
            if ws = [] then Inr []
            else if role = NodeRole_REVIEWER then
              (if list_all (\<lambda>(i, w). nw_read_only w) ws then Inr ws else Inl ScopeEscalationError)
            else if role \<notin> ROLES_WITH_CREDENTIALS \<or> list_ex (\<lambda>(i, w). nw_read_only w) ws
            then Inl ScopeEscalationError
            else Inr ws))"

definition git_dir :: "NodeWorktree \<Rightarrow> pystr" where
  "git_dir w = nw_path w @ cp ''/.git''"

definition moved_into_worktrees :: "TaskScope \<Rightarrow> worktrees \<Rightarrow> pystr list" where
  "moved_into_worktrees parent ws =
     concat (map (\<lambda>(i, w).
       case repository parent i of
         None \<Rightarrow> []
       | Some original \<Rightarrow>
           (case sr_root original of
              None \<Rightarrow> []
            | Some checkout \<Rightarrow>
                map (\<lambda>path. nw_path w @ drop (length checkout) path)
                  (filter (\<lambda>path. path_within path checkout) (ts_excluded_paths parent)))) ws)"

section \<open>The check of a derived scope\<close>

fun repositories_within ::
  "uni \<Rightarrow> TaskScope \<Rightarrow> worktrees \<Rightarrow> ScopedRepository list \<Rightarrow> scope_error + bool" where
  "repositories_within u parent ws [] = Inr True"
| "repositories_within u parent ws (r # rs) =
     (case repository parent (sr_repo_id r) of
        None \<Rightarrow> Inr False
      | Some original \<Rightarrow>
          if original = r then repositories_within u parent ws rs
          else
            (case map_of ws (sr_repo_id r) of
               None \<Rightarrow> Inr False
             | Some w \<Rightarrow>
                 rbind (replace_repository u original (Some (nw_path w)) (sr_role original)) (\<lambda>r'.
                   if r' = r then repositories_within u parent ws rs else Inr False)))"

definition paths_within :: "TaskScope \<Rightarrow> TaskScope \<Rightarrow> worktrees \<Rightarrow> bool" where
  "paths_within child parent ws =
     (let allowed_roots = map (\<lambda>(i, w). nw_path w) ws;
          parent_excluded = ts_excluded_paths parent
            @ List.map_filter sr_root (ts_excluded_repositories parent)
      in list_all (\<lambda>root. root \<in> set allowed_roots \<or> list_ex (path_within root) (ts_path_roots parent))
           (ts_path_roots child)
       \<and> \<not> list_ex (\<lambda>root. list_ex (path_within root) parent_excluded) allowed_roots
       \<and> list_all (\<lambda>path. path \<in> set (ts_excluded_paths child)) (ts_excluded_paths parent)
       \<and> list_all (\<lambda>path. path \<in> set (ts_excluded_paths child)) (moved_into_worktrees parent ws)
       \<and> \<not> list_ex (\<lambda>root. root \<notin> set (ts_path_roots parent) \<and> root \<notin> set allowed_roots
             \<and> list_ex (\<lambda>e. path_within root e \<and> root \<noteq> e) (ts_excluded_paths child)) (ts_path_roots child)
       \<and> \<not> list_ex (\<lambda>(i, w). git_dir w \<notin> set (ts_excluded_paths child)) ws)"

definition scope_within :: "uni \<Rightarrow> TaskScope \<Rightarrow> TaskScope \<Rightarrow> worktrees \<Rightarrow> scope_error + bool" where
  "scope_within u child parent ws =
     (if \<not> paths_within child parent ws then Inr False
      else if \<not> set (ts_hosts child) \<subseteq> set (ts_hosts parent) then Inr False
      else if list_ex (\<lambda>(i, st). map_of (ts_projects parent) i \<noteq> Some st) (ts_projects child) then Inr False
      else if list_ex (\<lambda>(h, hosts).
                case map_of (ts_credential_handles parent) h of
                  None \<Rightarrow> True
                | Some valid \<Rightarrow> \<not> set hosts \<subseteq> set valid) (ts_credential_handles child) then Inr False
      else
        rbind (repositories_within u parent ws (ts_repositories child)) (\<lambda>ok.
          Inr (ok \<and> list_all (\<lambda>r. r \<in> set (ts_excluded_repositories child))
                 (ts_excluded_repositories parent))))"

section \<open>Deriving a scope\<close>

fun chosen_repositories :: "TaskScope \<Rightarrow> uuid list \<Rightarrow> scope_error + ScopedRepository list" where
  "chosen_repositories parent [] = Inr []"
| "chosen_repositories parent (i # is) =
     (case repository parent i of
        None \<Rightarrow> Inl ScopeEscalationError
      | Some r \<Rightarrow> rbind (chosen_repositories parent is) (\<lambda>rs. Inr (r # rs)))"

definition left_out :: "TaskScope \<Rightarrow> ScopedRepository list \<Rightarrow> ScopedRepository list" where
  "left_out parent chosen =
     filter (\<lambda>r. sr_repo_id r \<notin> set (map sr_repo_id chosen)) (ts_repositories parent)"

fun in_worktrees :: "uni \<Rightarrow> worktrees \<Rightarrow> ScopedRepository list \<Rightarrow> scope_error + ScopedRepository list" where
  "in_worktrees u ws [] = Inr []"
| "in_worktrees u ws (r # rs) =
     rbind (case map_of ws (sr_repo_id r) of
              None \<Rightarrow> Inr r
            | Some w \<Rightarrow> replace_repository u r (Some (nw_path w)) (sr_role r)) (\<lambda>r'.
     rbind (in_worktrees u ws rs) (\<lambda>rs'. Inr (r' # rs')))"

text \<open>The worktrees of the chosen repositories, in their order.\<close>

definition own_worktrees :: "worktrees \<Rightarrow> ScopedRepository list \<Rightarrow> NodeWorktree list" where
  "own_worktrees ws chosen = List.map_filter (\<lambda>r. map_of ws (sr_repo_id r)) chosen"

definition texts_arg :: "pystr list \<Rightarrow> pyval list arg" where
  "texts_arg ts = Inst (map PyStr ts)"

definition child_args ::
  "TaskScope \<Rightarrow> NodeRole \<Rightarrow> ScopedRepository list \<Rightarrow> ScopedRepository list \<Rightarrow> pystr list \<Rightarrow> pystr list
     \<Rightarrow> scope_args" where
  "child_args parent role chosen excluded roots excluded_paths =
     \<lparr>sa_path_roots = texts_arg roots,
      sa_hosts = texts_arg (ts_hosts parent),
      sa_projects = Inst (map (\<lambda>(i, st). (PyUuid i, Member st)) (ts_projects parent)),
      sa_credential_handles =
        Inst (if role \<in> ROLES_WITH_CREDENTIALS
              then map (\<lambda>(h, hosts). (PyStr h, texts_arg hosts)) (ts_credential_handles parent) else []),
      sa_repositories = Inst (map Inst chosen),
      sa_excluded_repositories = Inst (map Inst excluded),
      sa_excluded_paths = texts_arg excluded_paths\<rparr>"

definition derive_child_scope ::
  "uni \<Rightarrow> TaskScope arg \<Rightarrow> NodeRole \<Rightarrow> uuid list option \<Rightarrow> (pyval \<times> NodeWorktree arg) list arg option
     \<Rightarrow> scope_error + TaskScope" where
  "derive_child_scope u parent role wanted worktrees =
     (case parent of
        Other \<Rightarrow> Inl ScopeTypeError
      | Inst par \<Rightarrow>
          rbind (checked_worktrees worktrees role) (\<lambda>ws.
          rbind (case wanted of
                   None \<Rightarrow> Inr (ts_repositories par, ts_excluded_repositories par)
                 | Some is \<Rightarrow>
                     rbind (chosen_repositories par is) (\<lambda>chosen.
                       Inr (chosen, ts_excluded_repositories par @ left_out par chosen))) (\<lambda>(chosen, excluded).
            if \<not> set (map fst ws) \<subseteq> set (map sr_repo_id chosen) then Inl ScopeEscalationError
            else
              let own = own_worktrees ws chosen;
                  roots = map nw_path own @ ts_path_roots par;
                  excluded_paths = ts_excluded_paths par @ moved_into_worktrees par ws
                    @ concat (map (\<lambda>w. nw_protected w @ [git_dir w]) own)
              in
                rbind (in_worktrees u ws chosen) (\<lambda>chosen'.
                rbind (TaskScope_init u (child_args par role chosen' excluded roots excluded_paths)) (\<lambda>child.
                rbind (scope_within u child par ws) (\<lambda>ok.
                  if ok then Inr child else Inl ScopeEscalationError))))))"

end
