(* ===== verification/Scope_Facts.thy ===== *)
theory Scope_Facts
  imports Node_Scope "HOL-Library.Sublist"
begin

text \<open>
  Facts about target texts and scopes: splitting and joining, the canonical form of a path and
  what \<open>path_within\<close> means on it, that normalising a path again changes nothing, and what a
  classification says about each target.
\<close>

section \<open>Splitting and joining\<close>

lemma split_on_nonempty [simp]: "split_on d s \<noteq> []"
  by (induction s) (auto split: list.splits)

lemma split_on_free: "w \<in> set (split_on d s) \<Longrightarrow> d \<notin> set w"
  by (induction s arbitrary: w) (auto split: if_splits list.splits)

lemma split_on_chars: "w \<in> set (split_on d s) \<Longrightarrow> set w \<subseteq> set s"
  by (induction s arbitrary: w) (fastforce split: if_splits list.splits)+

lemma join_on_Cons: "ws \<noteq> [] \<Longrightarrow> join_on d (w # ws) = w @ d # join_on d ws"
  by (cases ws) simp_all

lemma join_split [simp]: "join_on d (split_on d s) = s"
proof (induction s)
  case (Cons c s)
  obtain w ws where ws: "split_on d s = w # ws" by (meson neq_Nil_conv split_on_nonempty)
  with Cons show ?case by (cases ws) (simp_all add: join_on_Cons)
qed simp

lemma split_on_append: "split_on d (a @ d # b) = split_on d a @ split_on d b"
  by (induction a) (auto split: list.splits)

lemma split_on_word: "d \<notin> set w \<Longrightarrow> split_on d w = [w]"
  by (induction w) simp_all

lemma split_join: "ws \<noteq> [] \<Longrightarrow> \<forall>w \<in> set ws. d \<notin> set w \<Longrightarrow> split_on d (join_on d ws) = ws"
proof (induction ws)
  case (Cons w ws)
  then show ?case by (cases "ws = []") (simp_all add: split_on_word join_on_Cons split_on_append)
qed simp

lemma join_on_append:
  "xs \<noteq> [] \<Longrightarrow> ys \<noteq> [] \<Longrightarrow> join_on d (xs @ ys) = join_on d xs @ d # join_on d ys"
proof (induction xs)
  case (Cons x xs)
  then show ?case by (cases "xs = []") (simp_all add: join_on_Cons)
qed simp

lemma join_on_chars: "set (join_on d ws) \<subseteq> insert d (\<Union> (set ` set ws))"
proof (induction ws)
  case (Cons w ws)
  then show ?case by (cases "ws = []") (auto simp: join_on_Cons)
qed simp

lemma join_on_inj:
  assumes "join_on d xs = join_on d ys" "xs \<noteq> []" "ys \<noteq> []"
    and "\<forall>w \<in> set xs. d \<notin> set w" "\<forall>w \<in> set ys. d \<notin> set w"
  shows "xs = ys"
  using assms split_join by metis

lemma starts_with_iff: "starts_with s p \<longleftrightarrow> (\<exists>q. s = p @ q)"
  unfolding starts_with_def by (metis append_take_drop_id append_eq_conv_conj)

lemma percent_separator_append:
  "percent_separator (a @ 47 # b) \<longleftrightarrow> percent_separator a \<or> percent_separator b"
proof (induction a)
  case Nil
  then show ?case by (cases b rule: percent_separator.cases) auto
next
  case (Cons x a)
  then show ?case
    by (cases a rule: percent_separator.cases; cases b rule: percent_separator.cases) auto
qed

lemma percent_separator_join:
  "percent_separator (join_on 47 ws) \<longleftrightarrow> (\<exists>w \<in> set ws. percent_separator w)"
proof (induction ws)
  case (Cons w ws)
  then show ?case by (cases "ws = []") (simp_all add: join_on_Cons percent_separator_append)
qed simp

section \<open>Canonical paths\<close>

text \<open>The names on the way from the root to a path.\<close>

definition segments :: "pystr \<Rightarrow> pystr list" where
  "segments p = filter (\<lambda>s. s \<noteq> []) (split_on 47 p)"

definition segment_ok :: "pystr \<Rightarrow> bool" where
  "segment_ok s \<longleftrightarrow> 47 \<notin> set s \<and> \<not> dots_only s"

definition canonical :: "pystr \<Rightarrow> bool" where
  "canonical p \<longleftrightarrow> p = 47 # join_on 47 (segments p) \<and> list_all segment_ok (segments p)"

lemma segment_ok_nonempty: "segment_ok s \<Longrightarrow> s \<noteq> []"
  by (auto simp: segment_ok_def dots_only_def)

definition plain_segment :: "pystr \<Rightarrow> bool" where
  "plain_segment s \<longleftrightarrow> s \<noteq> [] \<and> s \<noteq> [46]"

lemma path_segments_eq:
  "path_segments ws =
     (if list_all (\<lambda>s. plain_segment s \<longrightarrow> \<not> dots_only s) ws then Inr (filter plain_segment ws)
      else Inl TargetError)"
  by (induction ws) (simp_all add: plain_segment_def [abs_def])

lemma path_segments_Inr:
  assumes "path_segments ws = Inr ss"
  shows "ss = filter plain_segment ws" "list_all (\<lambda>s. \<not> dots_only s) ss"
  using assms by (auto simp: path_segments_eq list_all_iff split: if_splits)

lemma segments_rendered:
  assumes "list_all segment_ok ss"
  shows "segments (47 # join_on 47 ss) = ss"
proof (cases "ss = []")
  case False
  with assms have "split_on 47 (join_on 47 ss) = ss"
    by (intro split_join) (auto simp: list_all_iff segment_ok_def)
  moreover have "filter (\<lambda>s. s \<noteq> []) ss = ss"
    using assms by (auto simp: list_all_iff filter_id_conv dest: segment_ok_nonempty)
  ultimately show ?thesis by (simp add: segments_def)
qed (simp add: segments_def)

lemma canonicalI: "list_all segment_ok ss \<Longrightarrow> canonical (47 # join_on 47 ss)"
  by (simp add: canonical_def segments_rendered)

lemma normalise_path_Inr:
  assumes "normalise_path u b v = Inr p"
  obtains t raw where "target_text u MAX_PATH_LENGTH v = Inr t" "92 \<notin> set t"
    "\<not> percent_separator t" "starts_with t [47] \<Longrightarrow> raw = t" "b = None \<Longrightarrow> starts_with t [47]"
    "path_segments (split_on 47 raw) = Inr (filter plain_segment (split_on 47 raw))"
    "p = 47 # join_on 47 (filter plain_segment (split_on 47 raw))"
proof -
  from assms obtain t raw ss where t: "target_text u MAX_PATH_LENGTH v = Inr t" "92 \<notin> set t" "\<not> percent_separator t"
    and raw: "(if starts_with t [47] then Inr t
       else (case b of
          Some b' \<Rightarrow> if starts_with b' [47] then Inr (b' @ 47 # t) else Inl TargetError
        | None \<Rightarrow> Inl TargetError)) = Inr raw"
    and ss: "path_segments (split_on 47 raw) = Inr ss" "p = 47 # join_on 47 ss"
    unfolding normalise_path_def by (auto simp: rbind_eq_Inr_iff split: if_splits)
  show thesis
    using that [OF t, of raw] raw ss path_segments_Inr(1) [OF ss(1)] by (auto split: if_splits option.splits)
qed

lemma split_segments_ok:
  "path_segments (split_on 47 raw) = Inr ss \<Longrightarrow> list_all segment_ok ss"
  using path_segments_Inr [of "split_on 47 raw" ss]
  by (auto simp: list_all_iff segment_ok_def dest: split_on_free)

lemma normalise_path_canonical: "normalise_path u b v = Inr p \<Longrightarrow> canonical p"
  by (elim normalise_path_Inr) (auto intro: canonicalI split_segments_ok)

lemma split_canonical:
  assumes "canonical p" "segments p \<noteq> []"
  shows "split_on 47 p = [] # segments p"
proof -
  have "split_on 47 (join_on 47 (segments p)) = segments p"
    using assms by (intro split_join) (auto simp: canonical_def list_all_iff segment_ok_def)
  with assms(1) show ?thesis unfolding canonical_def by (metis split_on.simps(2))
qed

lemma canonical_eq: "canonical p \<Longrightarrow> canonical r \<Longrightarrow> segments p = segments r \<longleftrightarrow> p = r"
  by (metis canonical_def)

lemma path_within_prefix:
  assumes p: "canonical p" and r: "canonical r"
  shows "path_within p r \<longleftrightarrow> segments r \<noteq> [] \<and> prefix (segments r) (segments p)"
proof (cases "segments r = []")
  case True
  with r have "r = [47]" by (simp add: canonical_def)
  with True show ?thesis by (simp add: path_within_def)
next
  case False
  with r have "r \<noteq> [47]" by (auto simp: segments_def)
  moreover have "starts_with p (r @ [47]) \<longleftrightarrow> (\<exists>qs. qs \<noteq> [] \<and> segments p = segments r @ qs)"
  proof
    assume "starts_with p (r @ [47])"
    then obtain q where q: "p = r @ 47 # q" by (auto simp: starts_with_iff)
    then have s: "split_on 47 p = ([] # segments r) @ split_on 47 q"
      by (simp only: split_on_append split_canonical [OF r False])
    then have "segments p \<noteq> []" using False by (auto simp: segments_def)
    with s split_canonical [OF p] show "\<exists>qs. qs \<noteq> [] \<and> segments p = segments r @ qs" by auto
  next
    assume "\<exists>qs. qs \<noteq> [] \<and> segments p = segments r @ qs"
    then obtain qs where "qs \<noteq> []" "segments p = segments r @ qs" by blast
    with p r False have "p = r @ 47 # join_on 47 qs"
      unfolding canonical_def by (metis append_Cons join_on_append)
    then show "starts_with p (r @ [47])" by (simp add: starts_with_iff)
  qed
  ultimately show ?thesis using False canonical_eq [OF p r]
    by (auto simp: path_within_def prefix_def)
qed

section \<open>Normalising again\<close>

text \<open>
  What the paths need of the Unicode tables: the slash is an allowed character and separates
  what the normal form looks at.
\<close>

definition slash_separates :: "uni \<Rightarrow> bool" where
  "slash_separates u \<longleftrightarrow> char_allowed u 47
     \<and> (\<forall>a b. normal_form u (a @ 47 # b) = normal_form u a @ 47 # normal_form u b)"

lemma normal_form_join:
  "slash_separates u \<Longrightarrow> ws \<noteq> [] \<Longrightarrow> normal_form u (join_on 47 ws) = join_on 47 (map (normal_form u) ws)"
proof (induction ws)
  case (Cons w ws)
  then show ?case by (cases "ws = []") (simp_all add: join_on_Cons slash_separates_def)
qed simp

lemma count_join: "ws \<noteq> [] \<Longrightarrow> count_list (join_on d ws) d = length ws - 1 + (\<Sum>w\<leftarrow>ws. count_list w d)"
proof (induction ws)
  case (Cons w ws)
  then show ?case by (cases "ws = []") (simp_all add: join_on_Cons Suc_diff_le)
qed simp

lemma stable_words:
  assumes "slash_separates u" and s: "normal_form u s = s" and w: "w \<in> set (split_on 47 s)"
  shows "normal_form u w = w"
proof -
  let ?ws = "split_on 47 s"
  have j: "join_on 47 (map (normal_form u) ?ws) = join_on 47 ?ws"
    using normal_form_join [OF assms(1), of ?ws] s by simp
  have "count_list w 47 = 0" if "w \<in> set ?ws" for w using split_on_free [OF that] by simp
  then have "(\<Sum>w\<leftarrow>?ws. count_list w 47) = 0" by simp
  with count_join [of "map (normal_form u) ?ws" 47] count_join [of ?ws 47] j
  have "(\<Sum>w\<leftarrow>map (normal_form u) ?ws. count_list w 47) = 0" by simp
  then have "\<forall>w \<in> set (map (normal_form u) ?ws). 47 \<notin> set w" by (auto simp: count_list_0_iff)
  then have "map (normal_form u) ?ws = ?ws"
    using join_on_inj [OF j] by (auto dest: split_on_free)
  with w show ?thesis by (metis in_set_conv_nth length_map nth_map)
qed

lemma length_join: "ws \<noteq> [] \<Longrightarrow> length (join_on d ws) + 1 = (\<Sum>w\<leftarrow>ws. length w + 1)"
proof (induction ws)
  case (Cons w ws)
  then show ?case by (cases "ws = []") (simp_all add: join_on_Cons)
qed simp

lemma sum_filter_le: "(\<Sum>w\<leftarrow>filter P ws. f w) \<le> (\<Sum>w\<leftarrow>ws. f w :: nat)"
  by (induction ws) simp_all

text \<open>Dropping segments of an absolute path keeps every check.\<close>

lemma target_text_dropped:
  assumes u: "slash_separates u" and t: "target_text u n (PyStr t) = Inr t" "starts_with t [47]"
  defines "p \<equiv> 47 # join_on 47 (filter plain_segment (split_on 47 t))"
  shows "target_text u n (PyStr p) = Inr p"
proof -
  from t have t': "length t \<le> n" "list_all (char_allowed u) t" "normal_form u t = t"
    by (auto simp: target_text_def split: if_splits)
  obtain s where s: "t = 47 # s" using t(2) by (auto simp: starts_with_iff)
  let ?ss = "filter plain_segment (split_on 47 s)"
  have ss: "filter plain_segment (split_on 47 t) = ?ss" by (simp add: s plain_segment_def)
  have pj: "?ss \<noteq> [] \<Longrightarrow> p = join_on 47 ([] # ?ss)" by (simp add: p_def ss join_on_Cons)
  have st: "normal_form u w = w" if "w \<in> set ([] # ?ss)" for w
    using that stable_words [OF u t'(3), of w] by (auto simp: s)
  have nf: "normal_form u p = p"
  proof (cases "?ss = []")
    case True
    have "normal_form u ([] @ 47 # []) = normal_form u [] @ 47 # normal_form u []"
      using u unfolding slash_separates_def by blast
    with st [of "[]"] True show ?thesis by (simp add: p_def ss)
  next
    case False
    then have "normal_form u p = join_on 47 (map (normal_form u) ([] # ?ss))"
      using normal_form_join [OF u, of "[] # ?ss"] pj by simp
    also have "map (normal_form u) ([] # ?ss) = [] # ?ss" using st by (intro map_idI) blast
    finally show ?thesis using pj False by simp
  qed
  have "(\<Sum>w\<leftarrow>?ss. length w + 1) \<le> (\<Sum>w\<leftarrow>split_on 47 s. length w + 1)" by (rule sum_filter_le)
  then have "length (join_on 47 ?ss) \<le> length s"
    using length_join [of "split_on 47 s" 47] length_join [of ?ss 47] by (cases "?ss = []") simp_all
  then have len: "length p \<le> n" using t'(1) unfolding p_def ss by (simp add: s)
  have "\<Union> (set ` set ?ss) \<subseteq> set s" using split_on_chars [of _ 47 s] by auto
  then have "set (join_on 47 ?ss) \<subseteq> insert 47 (set s)"
    by (rule subset_trans [OF join_on_chars insert_mono])
  then have "set p \<subseteq> insert 47 (set t)" unfolding p_def ss by (simp add: s)
  then have "list_all (char_allowed u) p"
    using t'(2) u by (auto simp: list_all_iff slash_separates_def)
  with nf len show ?thesis by (simp add: target_text_def p_def)
qed

lemma target_text_value: "target_text u n v = Inr t \<Longrightarrow> v = PyStr t"
  by (cases v) (auto simp: target_text_def split: if_splits)

lemma normalise_path_again:
  assumes u: "slash_separates u" and p: "normalise_path u None v = Inr p"
  shows "normalise_path u None (PyStr p) = Inr p"
proof -
  from p obtain t raw where t: "target_text u MAX_PATH_LENGTH v = Inr t" "92 \<notin> set t" "\<not> percent_separator t"
    and abs: "starts_with t [47]" and raw: "raw = t"
    and pe: "p = 47 # join_on 47 (filter plain_segment (split_on 47 t))"
    by (elim normalise_path_Inr) auto
  have c: "canonical p" by (rule normalise_path_canonical [OF p])
  have "target_text u MAX_PATH_LENGTH (PyStr p) = Inr p"
    using target_text_dropped [OF u _ abs] t(1) target_text_value [OF t(1)] by (simp add: pe)
  moreover have "92 \<notin> set p"
    using t(2) join_on_chars [of 47 "filter plain_segment (split_on 47 t)"] split_on_chars [of _ 47 t]
    by (fastforce simp: pe)
  moreover have "\<not> percent_separator p"
    using t(3) percent_separator_join [of "split_on 47 t"] percent_separator_append [of "[]"]
    by (auto simp: pe percent_separator_join)
  moreover have "path_segments (split_on 47 p) = Inr (segments p)"
  proof -
    have "list_all (\<lambda>s. plain_segment s \<longrightarrow> \<not> dots_only s) (split_on 47 p)
       \<and> filter plain_segment (split_on 47 p) = segments p"
    proof (cases "segments p = []")
      case True
      with c have "p = [47]" by (simp add: canonical_def)
      then show ?thesis by (simp add: plain_segment_def segments_def)
    next
      case False
      have "segment_ok s \<Longrightarrow> plain_segment s \<and> \<not> dots_only s" for s
        by (auto simp: plain_segment_def segment_ok_def dots_only_def)
      then have "plain_segment s \<and> \<not> dots_only s" if "s \<in> set (segments p)" for s
        using c that by (auto simp: canonical_def list_all_iff)
      then show ?thesis by (simp add: split_canonical [OF c False] list_all_iff filter_id_conv plain_segment_def)
    qed
    then show ?thesis by (simp add: path_segments_eq)
  qed
  moreover have "starts_with p [47]" "\<not> starts_with p [126]" by (simp_all add: pe starts_with_def)
  moreover have "47 # join_on 47 (segments p) = p" using c by (simp add: canonical_def)
  ultimately show ?thesis by (simp add: normalise_path_def)
qed

end
