(* ===== verification/Node_Scope_Facts.thy ===== *)
theory Node_Scope_Facts
  imports Scope_Facts
begin

text \<open>
  What a scope lets through and what a derived scope keeps of its parent. \<open>reaches\<close> is the
  specification of the path part of a scope; the classification refines it.
\<close>

section \<open>What a scope lets through\<close>

definition inside :: "uni \<Rightarrow> resolver \<Rightarrow> pystr \<Rightarrow> pystr \<Rightarrow> bool" where
  "inside u res p d \<longleftrightarrow> (\<exists>q. resolve_path u res d = Inr q \<and> path_within p q)"

text \<open>The root \<open>r\<close> lies strictly inside the excluded path \<open>e\<close> after symlinks are resolved.\<close>

definition carves :: "uni \<Rightarrow> resolver \<Rightarrow> pystr \<Rightarrow> pystr \<Rightarrow> bool" where
  "carves u res r e \<longleftrightarrow> (\<exists>q d. resolve_path u res r = Inr q \<and> resolve_path u res e = Inr d \<and> q \<noteq> d \<and> path_within q d)"

definition reaches :: "uni \<Rightarrow> resolver \<Rightarrow> TaskScope \<Rightarrow> pystr \<Rightarrow> bool" where
  "reaches u res s p \<longleftrightarrow>
     (\<exists>r \<in> set (ts_path_roots s). inside u res p r)
     \<and> (\<forall>x \<in> set (ts_excluded_repositories s). \<forall>d. sr_root x = Some d \<longrightarrow> \<not> inside u res p d)
     \<and> (\<forall>e \<in> set (ts_excluded_paths s). inside u res p e \<longrightarrow>
          (\<exists>r \<in> set (ts_path_roots s). carves u res r e \<and> inside u res p r))"

definition resolvable :: "uni \<Rightarrow> resolver \<Rightarrow> pystr \<Rightarrow> bool" where
  "resolvable u res p \<longleftrightarrow> (\<exists>q. resolve_path u res p = Inr q)"

definition roots_of :: "ScopedRepository list \<Rightarrow> pystr list" where
  "roots_of rs = List.map_filter sr_root rs"

lemma set_roots_of: "set (roots_of rs) = {d. \<exists>x \<in> set rs. sr_root x = Some d}"
  by (induction rs) (auto simp: roots_of_def map_filter_simps split: option.splits)

lemma resolve_all_Inr: "resolve_all u res ps = Inr qs \<longleftrightarrow> map (resolve_path u res) ps = map Inr qs"
  by (induction ps arbitrary: qs) (auto simp: rbind_eq_Inr_iff Cons_eq_map_conv)

lemma resolve_all_ex: "(\<exists>qs. resolve_all u res ps = Inr qs) \<longleftrightarrow> (\<forall>p \<in> set ps. resolvable u res p)"
  by (induction ps) (auto simp: rbind_eq_Inr_iff resolvable_def)

lemma resolve_all_set:
  "resolve_all u res ps = Inr qs \<Longrightarrow> set qs = {q. \<exists>p \<in> set ps. resolve_path u res p = Inr q}"
  by (induction ps arbitrary: qs) (auto simp: rbind_eq_Inr_iff)

lemma repository_roots_ex:
  "(\<exists>qs. repository_roots u res rs = Inr qs) \<longleftrightarrow> (\<forall>p \<in> set (roots_of rs). resolvable u res p)"
  by (induction rs) (auto simp: rbind_eq_Inr_iff resolvable_def roots_of_def map_filter_simps split: option.splits)

lemma repository_roots_set:
  "repository_roots u res rs = Inr qs \<Longrightarrow>
     set qs = {(i, q). \<exists>x \<in> set rs. \<exists>d. sr_repo_id x = i \<and> sr_root x = Some d \<and> resolve_path u res d = Inr q}"
  by (induction rs arbitrary: qs) (auto simp: rbind_eq_Inr_iff split: option.splits)

definition touched_by :: "(uuid \<times> pystr) list \<Rightarrow> pystr list \<Rightarrow> uuid set" where
  "touched_by repo_roots ps = {i. \<exists>(j, root) \<in> set repo_roots. j = i \<and> (\<exists>p \<in> set ps. path_within p root)}"

lemma touched_by_simps [simp]:
  "touched_by rr [] = {}"
  "touched_by rr (p # ps) = fst ` set (filter (\<lambda>(i, root). path_within p root) rr) \<union> touched_by rr ps"
  by (force simp: touched_by_def)+

lemma classify_paths_Inr:
  "classify_paths u res roots repo_roots er ep ts acc = Inr (o', t') \<longleftrightarrow>
     (\<exists>ps. resolve_all u res (map tg_value ts) = Inr ps
       \<and> o' = fst acc @ map (\<lambda>_. TargetKind_PATH) (filter (path_outside roots er ep) ps)
       \<and> t' = snd acc \<union> touched_by repo_roots ps)"
proof (induction ts arbitrary: acc)
  case Nil
  then show ?case by (cases acc) auto
next
  case (Cons t ts)
  obtain o1 t1 where acc: "acc = (o1, t1)" by (cases acc)
  show ?case
  proof (cases "resolve_path u res (tg_value t)")
    case (Inr p)
    then show ?thesis by (auto simp: acc Cons.IH rbind_eq_Inr_iff Un_assoc simp del: set_filter)
  qed (simp add: acc)
qed

definition path_values :: "Target list \<Rightarrow> pystr list" where
  "path_values ts = map tg_value (filter (\<lambda>t. tg_kind t = TargetKind_PATH) ts)"

text \<open>The paths a classification has to resolve, and what their resolution says.\<close>

definition needed_paths :: "TaskScope \<Rightarrow> Target list \<Rightarrow> pystr set" where
  "needed_paths s ts = set (ts_path_roots s) \<union> set (roots_of (ts_repositories s))
     \<union> set (roots_of (ts_excluded_repositories s)) \<union> set (ts_excluded_paths s) \<union> set (path_values ts)"

lemma needed_resolvable:
  "(\<forall>d \<in> needed_paths s ts. resolvable u res d) \<longleftrightarrow>
     (\<exists>roots. resolve_all u res (ts_path_roots s) = Inr roots)
     \<and> (\<exists>rr. repository_roots u res (ts_repositories s) = Inr rr)
     \<and> (\<exists>er. repository_roots u res (ts_excluded_repositories s) = Inr er)
     \<and> (\<exists>es. resolve_all u res (ts_excluded_paths s) = Inr es)
     \<and> (\<exists>ps. resolve_all u res (path_values ts) = Inr ps)"
  unfolding needed_paths_def resolve_all_ex repository_roots_ex by blast

lemma path_outside_reaches:
  assumes "resolve_all u res (ts_path_roots s) = Inr roots"
    and "repository_roots u res (ts_excluded_repositories s) = Inr er"
    and "resolve_all u res (ts_excluded_paths s) = Inr es"
  shows "path_outside roots (map snd er) (map (\<lambda>e. (e, carved_out roots e)) es) p \<longleftrightarrow> \<not> reaches u res s p"
proof -
  note sets = resolve_all_set [OF assms(1)] repository_roots_set [OF assms(2)] resolve_all_set [OF assms(3)]
  have c: "list_ex (path_within p) (carved_out roots d) \<longleftrightarrow>
      (\<exists>r \<in> set (ts_path_roots s). carves u res r e \<and> inside u res p r)"
    if "resolve_path u res e = Inr d" for e d p
    using that sets(1) by (auto simp: list_ex_iff carved_out_def carves_def inside_def)
  have "list_ex (path_within p) roots \<longleftrightarrow> (\<exists>r \<in> set (ts_path_roots s). inside u res p r)" for p
    using sets(1) by (auto simp: list_ex_iff inside_def)
  moreover have "list_ex (path_within p) (map snd er) \<longleftrightarrow>
      (\<exists>x \<in> set (ts_excluded_repositories s). \<exists>d. sr_root x = Some d \<and> inside u res p d)" for p
    using sets(2) by (force simp: list_ex_iff inside_def)
  moreover have "list_ex (\<lambda>(e, carved). path_within p e \<and> \<not> list_ex (path_within p) carved)
       (map (\<lambda>e. (e, carved_out roots e)) es) \<longleftrightarrow>
      (\<exists>e \<in> set (ts_excluded_paths s). inside u res p e
        \<and> \<not> (\<exists>r \<in> set (ts_path_roots s). carves u res r e \<and> inside u res p r))" for p
  proof -
    define R where "R e \<longleftrightarrow> (\<exists>r \<in> set (ts_path_roots s). carves u res r e \<and> inside u res p r)" for e
    define L where "L d \<longleftrightarrow> list_ex (path_within p) (carved_out roots d)" for d
    have "list_ex (\<lambda>(e, carved). path_within p e \<and> \<not> list_ex (path_within p) carved)
         (map (\<lambda>e. (e, carved_out roots e)) es) \<longleftrightarrow> (\<exists>d \<in> set es. path_within p d \<and> \<not> L d)"
      unfolding L_def by (simp add: list_ex_iff)
    also have "\<dots> \<longleftrightarrow> (\<exists>e \<in> set (ts_excluded_paths s). \<exists>d. resolve_path u res e = Inr d \<and> path_within p d \<and> \<not> L d)"
      unfolding sets(3) by blast
    also have "\<dots> \<longleftrightarrow> (\<exists>e \<in> set (ts_excluded_paths s). inside u res p e \<and> \<not> R e)"
      using c [of _ _ p, folded L_def R_def] unfolding inside_def by blast
    finally show ?thesis unfolding R_def .
  qed
  ultimately show ?thesis unfolding path_outside_def reaches_def by simp
qed

text \<open>The repositories of the scope that the paths of a call lie in.\<close>

definition touches :: "uni \<Rightarrow> resolver \<Rightarrow> ScopedRepository list \<Rightarrow> Target list \<Rightarrow> uuid set" where
  "touches u res rs ts = {i. \<exists>x \<in> set rs. sr_repo_id x = i \<and> (\<exists>d. sr_root x = Some d
     \<and> (\<exists>v \<in> set (path_values ts). \<exists>p. resolve_path u res v = Inr p \<and> inside u res p d))}"

lemma touched_by_touches:
  assumes "repository_roots u res rs = Inr rr" "resolve_all u res (path_values ts) = Inr ps"
  shows "touched_by rr ps = touches u res rs ts"
  unfolding touched_by_def touches_def repository_roots_set [OF assms(1)] resolve_all_set [OF assms(2)] inside_def
  by fastforce

text \<open>A call whose paths are all let through, and the repositories they touch.\<close>

lemma path_targets_in:
  "path_targets u res s ts = Inr ([], touched) \<longleftrightarrow>
     (if path_values ts = [] then touched = {}
      else (\<forall>d \<in> needed_paths s ts. resolvable u res d)
        \<and> (\<forall>v \<in> set (path_values ts). \<forall>p. resolve_path u res v = Inr p \<longrightarrow> reaches u res s p)
        \<and> touched = touches u res (ts_repositories s) ts)"
proof (cases "path_values ts = []")
  case True
  then show ?thesis by (auto simp: path_targets_def path_values_def Let_def)
next
  case False
  let ?paths = "filter (\<lambda>t. tg_kind t = TargetKind_PATH) ts"
  have ne: "?paths \<noteq> []" using False by (auto simp: path_values_def)
  show ?thesis
  proof (cases "\<forall>d \<in> needed_paths s ts. resolvable u res d")
    case True
    then obtain roots rr er es ps where q: "resolve_all u res (ts_path_roots s) = Inr roots"
      "repository_roots u res (ts_repositories s) = Inr rr"
      "repository_roots u res (ts_excluded_repositories s) = Inr er"
      "resolve_all u res (ts_excluded_paths s) = Inr es" "resolve_all u res (path_values ts) = Inr ps"
      unfolding needed_resolvable by blast
    have "path_targets u res s ts = Inr ([], touched) \<longleftrightarrow>
        (\<forall>p \<in> set ps. reaches u res s p) \<and> touched = touches u res (ts_repositories s) ts"
      using ne q path_outside_reaches [OF q(1,3,4)] touched_by_touches [OF q(2,5)]
      by (auto simp: path_targets_def Let_def classify_paths_Inr filter_empty_conv path_values_def)
    with True False resolve_all_set [OF q(5)] show ?thesis by auto
  next
    case none: False
    then have "path_targets u res s ts \<noteq> Inr ([], touched)"
      using ne unfolding needed_resolvable
      by (auto simp: path_targets_def Let_def rbind_eq_Inr_iff classify_paths_Inr path_values_def)
    with none False show ?thesis by simp
  qed
qed

section \<open>Scopes that were built\<close>

definition scope_built :: "uni \<Rightarrow> TaskScope \<Rightarrow> bool" where
  "scope_built u s \<longleftrightarrow> (\<exists>a. TaskScope_init u a = Inr s)"

lemma add_paths_Inr:
  "add_paths u found vs = Inr ps \<Longrightarrow> distinct found \<Longrightarrow>
     distinct ps \<and> set ps = set found \<union> {p. \<exists>v \<in> set vs. root_path u v = Inr p}"
proof (induction vs arbitrary: found)
  case (Cons v vs)
  then obtain p where p: "root_path u v = Inr p" "add_paths u (add_new p found) vs = Inr ps"
    by (auto simp: rbind_eq_Inr_iff)
  with Cons.IH [OF p(2)] Cons.prems(2) show ?case by (auto simp: add_new_def)
qed simp

lemma add_paths_member: "add_paths u [] vs = Inr ps \<Longrightarrow> p \<in> set ps \<Longrightarrow> \<exists>v. root_path u v = Inr p"
  using add_paths_Inr [of u "[]" vs ps] by auto

lemma add_paths_all:
  "add_paths u found vs = Inr ps \<Longrightarrow> v \<in> set vs \<Longrightarrow> \<exists>p \<in> set ps. root_path u v = Inr p"
proof (induction vs arbitrary: found)
  case (Cons a vs)
  have keep: "add_paths u found vs = Inr ps \<Longrightarrow> set found \<subseteq> set ps" for found vs
    by (induction vs arbitrary: found) (fastforce simp: rbind_eq_Inr_iff add_new_def split: if_splits)+
  from Cons.prems obtain p where p: "root_path u a = Inr p" "add_paths u (add_new p found) vs = Inr ps"
    by (auto simp: rbind_eq_Inr_iff)
  moreover have "p \<in> set (add_new p found)" by (simp add: add_new_def)
  ultimately show ?case using Cons.IH [OF p(2)] Cons.prems(2) keep [OF p(2)] by auto
qed simp

lemma add_paths_again:
  "\<forall>p \<in> set ps. root_path u (PyStr p) = Inr p \<Longrightarrow> distinct (found @ ps) \<Longrightarrow>
     add_paths u found (map PyStr ps) = Inr (found @ ps)"
  by (induction ps arbitrary: found) (auto simp: add_new_def)

lemma root_path_again: "slash_separates u \<Longrightarrow> root_path u v = Inr p \<Longrightarrow> root_path u (PyStr p) = Inr p"
  by (auto simp: root_path_def rbind_eq_Inr_iff dest: normalise_path_again split: if_splits)

lemma insts_map [simp]: "insts (map Inst xs) = xs"
  by (induction xs) simp_all

lemma as_collection_Inr [simp]: "as_collection a = Inr x \<longleftrightarrow> a = Inst x"
  by (cases a) (simp_all add: as_collection_def)

lemma repository_list_Inr [simp]: "repository_list (Inst (map Inst rs)) = Inr rs"
  by (simp add: repository_list_def as_collection_def)

lemma scope_built_fields:
  assumes "TaskScope_init u a = Inr s"
  obtains rs es where "sa_path_roots a = Inst rs" "add_paths u [] rs = Inr (ts_path_roots s)"
    "sa_excluded_paths a = Inst es" "add_paths u [] es = Inr (ts_excluded_paths s)"
    "repository_list (sa_repositories a) = Inr (ts_repositories s)"
    "repository_list (sa_excluded_repositories a) = Inr (ts_excluded_repositories s)"
    "distinct (map sr_repo_id (ts_repositories s))"
  using assms that
  by (auto simp: TaskScope_init_def rbind_eq_Inr_iff Let_def split: if_splits)

lemma built_again:
  assumes "slash_separates u" "scope_built u s"
  shows "add_paths u [] (map PyStr (ts_path_roots s)) = Inr (ts_path_roots s)"
    and "add_paths u [] (map PyStr (ts_excluded_paths s)) = Inr (ts_excluded_paths s)"
    and "distinct (map sr_repo_id (ts_repositories s))"
    and "p \<in> set (ts_path_roots s) \<Longrightarrow> root_path u (PyStr p) = Inr p"
proof -
  from assms(2) obtain a where "TaskScope_init u a = Inr s" by (auto simp: scope_built_def)
  then obtain rs es where f: "add_paths u [] rs = Inr (ts_path_roots s)" "add_paths u [] es = Inr (ts_excluded_paths s)"
    and d: "distinct (map sr_repo_id (ts_repositories s))"
    by (elim scope_built_fields)
  show "distinct (map sr_repo_id (ts_repositories s))" by (rule d)
  show "p \<in> set (ts_path_roots s) \<Longrightarrow> root_path u (PyStr p) = Inr p"
    using add_paths_Inr [OF f(1)] root_path_again [OF assms(1)] by auto
  show "add_paths u [] (map PyStr (ts_path_roots s)) = Inr (ts_path_roots s)"
    using add_paths_Inr [OF f(1)] root_path_again [OF assms(1)] by (intro add_paths_again [where found = "[]", simplified]) auto
  show "add_paths u [] (map PyStr (ts_excluded_paths s)) = Inr (ts_excluded_paths s)"
    using add_paths_Inr [OF f(2)] root_path_again [OF assms(1)] by (intro add_paths_again [where found = "[]", simplified]) auto
qed

section \<open>Derived scopes\<close>

definition selects ::
  "TaskScope \<Rightarrow> uuid list option \<Rightarrow> ScopedRepository list \<Rightarrow> ScopedRepository list \<Rightarrow> bool" where
  "selects par wanted chosen excluded \<longleftrightarrow>
     (case wanted of
        None \<Rightarrow> chosen = ts_repositories par \<and> excluded = ts_excluded_repositories par
      | Some is \<Rightarrow> chosen_repositories par is = Inr chosen
          \<and> excluded = ts_excluded_repositories par @ left_out par chosen)"

lemma derive_child_scope_Inr:
  assumes "derive_child_scope u (Inst par) role wanted worktrees = Inr child"
  obtains ws chosen excluded chosen' where "checked_worktrees worktrees role = Inr ws"
    "selects par wanted chosen excluded" "set (map fst ws) \<subseteq> set (map sr_repo_id chosen)"
    "in_worktrees u ws chosen = Inr chosen'"
    "TaskScope_init u (child_args par role chosen' excluded
       (map nw_path (own_worktrees ws chosen) @ ts_path_roots par)
       (ts_excluded_paths par @ moved_into_worktrees par ws
         @ concat (map (\<lambda>w. nw_protected w @ [git_dir w]) (own_worktrees ws chosen)))) = Inr child"
    "scope_within u child par ws = Inr True"
  using assms that
  by (cases wanted)
    (auto simp: derive_child_scope_def selects_def rbind_eq_Inr_iff Let_def split: if_splits)

lemma child_fields:
  assumes "TaskScope_init u (child_args par role chosen excluded roots paths) = Inr child"
  shows "ts_repositories child = chosen" "ts_excluded_repositories child = excluded"
    "add_paths u [] (map PyStr roots) = Inr (ts_path_roots child)"
    "add_paths u [] (map PyStr paths) = Inr (ts_excluded_paths child)"
  using assms
  by (auto elim!: scope_built_fields simp: child_args_def texts_arg_def)

lemma chosen_members:
  "chosen_repositories par is = Inr chosen \<Longrightarrow>
     set chosen \<subseteq> set (ts_repositories par) \<and> map sr_repo_id chosen = is"
  by (induction "is" arbitrary: chosen)
    (auto simp: rbind_eq_Inr_iff repository_def find_Some_iff split: option.splits)

lemma selects_members:
  assumes "selects par wanted chosen excluded" and d: "distinct (map sr_repo_id (ts_repositories par))"
  shows "set chosen \<subseteq> set (ts_repositories par)"
    and "set (ts_excluded_repositories par) \<subseteq> set excluded"
    and "set (ts_repositories par) \<subseteq> set chosen \<union> set excluded"
proof -
  have same: "x = y" if "x \<in> set (ts_repositories par)" "y \<in> set (ts_repositories par)" "sr_repo_id x = sr_repo_id y" for x y
    using d that by (auto simp: distinct_map dest: inj_onD)
  show "set chosen \<subseteq> set (ts_repositories par)" "set (ts_excluded_repositories par) \<subseteq> set excluded"
    using assms(1) chosen_members by (auto simp: selects_def split: option.splits)
  show "set (ts_repositories par) \<subseteq> set chosen \<union> set excluded"
  proof (cases wanted)
    case None
    then show ?thesis using assms(1) by (simp add: selects_def)
  next
    case (Some "is")
    then have c: "chosen_repositories par is = Inr chosen" and e: "excluded = ts_excluded_repositories par @ left_out par chosen"
      using assms(1) by (simp_all add: selects_def)
    from chosen_members [OF c] have "set chosen \<subseteq> set (ts_repositories par)" by blast
    with same have "x \<in> set chosen" if "x \<in> set (ts_repositories par)" "sr_repo_id x \<in> sr_repo_id ` set chosen" for x
      using that by blast
    then show ?thesis by (auto simp: e left_out_def)
  qed
qed

lemma in_worktrees_Nil: "in_worktrees u [] rs = Inr rs"
  by (induction rs) simp_all

section \<open>A derived scope only narrows\<close>

text \<open>What the parts of a classification need so that the second scope lets through what the first does.\<close>

definition narrower :: "TaskScope \<Rightarrow> TaskScope \<Rightarrow> bool" where
  "narrower c p \<longleftrightarrow>
     fst ` set (ts_projects c) \<subseteq> fst ` set (ts_projects p)
     \<and> (\<forall>h valid. map_of (ts_credential_handles c) h = Some valid \<longrightarrow>
          (\<exists>v. map_of (ts_credential_handles p) h = Some v \<and> set valid \<subseteq> set v))
     \<and> set (ts_hosts c) \<subseteq> set (ts_hosts p)
     \<and> set (ts_repositories c) \<subseteq> set (ts_repositories p)
     \<and> set (ts_excluded_repositories p) \<subseteq> set (ts_excluded_repositories c)
     \<and> set (ts_repositories p) \<subseteq> set (ts_repositories c) \<union> set (ts_excluded_repositories c)"

lemma other_targets_outside: "other_targets s hosts ts (out, t) = Inr (out', t') \<Longrightarrow> \<exists>x. out' = out @ x"
proof (induction ts arbitrary: out t)
  case (Cons a ts)
  then show ?case
    by (cases "tg_kind a") (fastforce simp: rbind_eq_Inr_iff split: if_splits option.splits)+
qed simp

lemma url_targets_outside:
  "url_targets u s vs (out, t, un) = Inr (out', t', un') \<Longrightarrow> \<exists>x. out' = out @ x"
proof (induction vs arbitrary: out t un)
  case (Cons a vs)
  then show ?case by (fastforce simp: rbind_eq_Inr_iff Let_def split: if_splits)
qed simp

lemma repository_None: "repository s i = None \<longleftrightarrow> i \<notin> sr_repo_id ` set (ts_repositories s)"
  by (auto simp: repository_def find_None_iff)

lemma other_targets_mono:
  assumes n: "narrower c p"
  shows "other_targets c hosts ts ([], t) = Inr ([], t') \<Longrightarrow> other_targets p hosts ts ([], t) = Inr ([], t')"
proof (induction ts arbitrary: t)
  case (Cons a ts)
  have stop: "other_targets c hosts ts ([k], t) \<noteq> Inr ([], t')" for k t
    using other_targets_outside [of c hosts ts "[k]" t "[]" t'] by auto
  show ?case
  proof (cases "tg_kind a")
    case TargetKind_PROJECT
    then obtain i where i: "normalise_project (PyStr (tg_value a)) = Inr i" "i \<in> fst ` set (ts_projects c)"
      "other_targets c hosts ts ([], t) = Inr ([], t')"
      using Cons.prems stop by (auto simp: rbind_eq_Inr_iff split: if_splits)
    moreover have "i \<in> fst ` set (ts_projects p)" using n i(2) unfolding narrower_def by blast
    ultimately show ?thesis using Cons.IH TargetKind_PROJECT by simp
  next
    case TargetKind_CREDENTIAL
    then obtain valid where v: "map_of (ts_credential_handles c) (tg_value a) = Some valid" "hosts \<subseteq> set valid"
      "other_targets c hosts ts ([], t) = Inr ([], t')"
      using Cons.prems stop by (auto split: option.splits if_splits)
    moreover obtain w where "map_of (ts_credential_handles p) (tg_value a) = Some w" "set valid \<subseteq> set w"
      using n v(1) unfolding narrower_def by blast
    ultimately show ?thesis using Cons.IH TargetKind_CREDENTIAL by auto
  next
    case TargetKind_REPOSITORY
    then obtain i where i: "normalise_repository (PyStr (tg_value a)) = Inr i" "repository c i \<noteq> None"
      "other_targets c hosts ts ([], insert i t) = Inr ([], t')"
      using Cons.prems stop by (auto simp: rbind_eq_Inr_iff split: if_splits)
    moreover have "repository p i \<noteq> None" using n i(2) unfolding narrower_def repository_None by blast
    ultimately show ?thesis using Cons.IH TargetKind_REPOSITORY by auto
  qed (use Cons in auto)
qed simp

lemma owners_same:
  assumes "narrower c p" "\<not> list_ex (owns_url url) (ts_excluded_repositories c)"
  shows "\<not> list_ex (owns_url url) (ts_excluded_repositories p)"
    and "set (map sr_repo_id (filter (owns_url url) (ts_repositories p)))
       = set (map sr_repo_id (filter (owns_url url) (ts_repositories c)))"
  using assms by (auto simp: narrower_def list_ex_iff image_iff subset_iff)

lemma url_targets_mono:
  assumes n: "narrower c p"
  shows "url_targets u c vs ([], t, un) = Inr ([], t', un') \<Longrightarrow> url_targets u p vs ([], t, un) = Inr ([], t', un')"
proof (induction vs arbitrary: t un)
  case (Cons v vs)
  then obtain url host where v: "normalise_url u v = Inr (url, host)"
    by (auto simp: rbind_eq_Inr_iff)
  have ne: "\<not> list_ex (owns_url url) (ts_excluded_repositories c)"
    using Cons.prems url_targets_outside [of u c vs "[TargetKind_URL]" _ _ "[]"] by (auto simp: v Let_def)
  have "filter (owns_url url) (ts_repositories p) = [] \<longleftrightarrow> filter (owns_url url) (ts_repositories c) = []"
    using owners_same(2) [OF n ne] by (metis map_is_Nil_conv set_empty)
  then show ?case using Cons ne owners_same [OF n ne] by (simp add: v Let_def del: set_map)
qed simp

lemma touches_same:
  assumes n: "narrower c p"
    and reach: "\<And>v q. v \<in> set (path_values ts) \<Longrightarrow> resolve_path u res v = Inr q \<Longrightarrow> reaches u res c q"
  shows "touches u res (ts_repositories p) ts = touches u res (ts_repositories c) ts"
proof -
  have out: False if "x \<in> set (ts_excluded_repositories c)" "sr_root x = Some d" "v \<in> set (path_values ts)"
    "resolve_path u res v = Inr q" "inside u res q d" for x d v q
    using reach [OF that(3,4)] that unfolding reaches_def by blast
  show ?thesis
  proof (intro equalityI subsetI)
    fix i assume "i \<in> touches u res (ts_repositories p) ts"
    then obtain x d v q where x: "x \<in> set (ts_repositories p)" "sr_repo_id x = i" "sr_root x = Some d"
      "v \<in> set (path_values ts)" "resolve_path u res v = Inr q" "inside u res q d"
      unfolding touches_def by blast
    then have "x \<in> set (ts_repositories c)" using n out unfolding narrower_def by blast
    with x show "i \<in> touches u res (ts_repositories c) ts" unfolding touches_def by blast
  next
    fix i assume "i \<in> touches u res (ts_repositories c) ts"
    then show "i \<in> touches u res (ts_repositories p) ts" using n unfolding touches_def narrower_def by blast
  qed
qed

lemma path_targets_mono:
  assumes n: "narrower c p" and same: "ts_path_roots c = ts_path_roots p" "ts_excluded_paths c = ts_excluded_paths p"
    and c: "path_targets u res c ts = Inr ([], touched)"
  shows "path_targets u res p ts = Inr ([], touched)"
proof (cases "path_values ts = []")
  case True
  with c show ?thesis by (simp add: path_targets_in)
next
  case False
  with c have all: "\<forall>d \<in> needed_paths c ts. resolvable u res d"
    and reach: "\<forall>v \<in> set (path_values ts). \<forall>q. resolve_path u res v = Inr q \<longrightarrow> reaches u res c q"
    and t: "touched = touches u res (ts_repositories c) ts" by (simp_all add: path_targets_in)
  have "set (roots_of (ts_repositories p)) \<subseteq> set (roots_of (ts_repositories c)) \<union> set (roots_of (ts_excluded_repositories c))"
    "set (roots_of (ts_excluded_repositories p)) \<subseteq> set (roots_of (ts_excluded_repositories c))"
    using n unfolding set_roots_of narrower_def by blast+
  then have "needed_paths p ts \<subseteq> needed_paths c ts" unfolding needed_paths_def same by blast
  moreover have "reaches u res c q \<Longrightarrow> reaches u res p q" for q
    using n unfolding reaches_def same narrower_def by blast
  moreover have "touches u res (ts_repositories p) ts = touches u res (ts_repositories c) ts"
    using touches_same [OF n] reach by blast
  ultimately show ?thesis using all reach t False by (auto simp: path_targets_in)
qed

lemma classify_in:
  "classify_targets u res s ts urls = Inr k \<and> cl_status k = IN_SCOPE \<longleftrightarrow>
     (\<exists>t1 t2 touched unbound.
       path_targets u res s ts = Inr ([], t1)
       \<and> other_targets s (tg_value ` {t \<in> set ts. tg_kind t = TargetKind_HOST}) ts ([], t1) = Inr ([], t2)
       \<and> url_targets u s urls ([], t2, False) = Inr ([], touched, unbound)
       \<and> tg_value ` {t \<in> set ts. tg_kind t = TargetKind_HOST} \<subseteq> set (ts_hosts s)
       \<and> \<not> (unbound \<and> touched \<noteq> {})
       \<and> k = \<lparr>cl_status = IN_SCOPE, cl_offending = None,
              cl_repositories = filter (\<lambda>i. i \<in> touched) (map sr_repo_id (ts_repositories s))\<rparr>)"
  (is "?l \<longleftrightarrow> ?r")
proof
  assume ?l
  then obtain out1 t1 out2 t2 touched unbound where
    p: "path_targets u res s ts = Inr (out1, t1)"
      "other_targets s (tg_value ` {t \<in> set ts. tg_kind t = TargetKind_HOST}) ts (out1, t1) = Inr (out2, t2)"
      "url_targets u s urls (out2, t2, False) = Inr ([], touched, unbound)"
    and r: "tg_value ` {t \<in> set ts. tg_kind t = TargetKind_HOST} \<subseteq> set (ts_hosts s)" "\<not> (unbound \<and> touched \<noteq> {})"
      "k = \<lparr>cl_status = IN_SCOPE, cl_offending = None,
              cl_repositories = filter (\<lambda>i. i \<in> touched) (map sr_repo_id (ts_repositories s))\<rparr>"
    by (auto simp: classify_targets_def Let_def rbind_eq_Inr_iff split: if_splits)
  have "out2 = []" using url_targets_outside [OF p(3)] by simp
  moreover from this have "out1 = []" using other_targets_outside [of s _ ts out1 t1 out2 t2] p(2) by simp
  ultimately show ?r using p r by blast
next
  assume ?r
  then show ?l by (auto simp: classify_targets_def Let_def)
qed

lemma other_targets_touched:
  "other_targets s hosts ts (out, t) = Inr (out', t') \<Longrightarrow> t' \<subseteq> t \<union> sr_repo_id ` set (ts_repositories s)"
proof (induction ts arbitrary: out t)
  case (Cons a ts)
  have "repository s i \<noteq> None \<Longrightarrow> insert i t \<subseteq> t \<union> sr_repo_id ` set (ts_repositories s)" for i t
    by (auto simp: repository_None simp del: not_None_eq)
  with Cons show ?case
    by (cases "tg_kind a") (fastforce simp: rbind_eq_Inr_iff simp del: not_None_eq split: if_splits)+
qed simp

lemma url_targets_touched:
  "url_targets u s vs (out, t, un) = Inr (out', t', un') \<Longrightarrow> t' \<subseteq> t \<union> sr_repo_id ` set (ts_repositories s)"
proof (induction vs arbitrary: out t un)
  case (Cons a vs)
  then show ?case by (fastforce simp: rbind_eq_Inr_iff Let_def)
qed simp

lemma path_targets_touched:
  "path_targets u res s ts = Inr ([], t) \<Longrightarrow> t \<subseteq> sr_repo_id ` set (ts_repositories s)"
  by (auto simp: path_targets_in touches_def split: if_splits)

text \<open>The second scope lets the call through too, and decides on the same repositories.\<close>

lemma classify_mono:
  assumes n: "narrower c p" and same: "ts_path_roots c = ts_path_roots p" "ts_excluded_paths c = ts_excluded_paths p"
    and k: "classify_targets u res c ts urls = Inr k" "cl_status k = IN_SCOPE"
  shows "\<exists>k'. classify_targets u res p ts urls = Inr k' \<and> cl_status k' = IN_SCOPE
    \<and> set (cl_repositories k') = set (cl_repositories k)"
proof -
  from k have "classify_targets u res c ts urls = Inr k \<and> cl_status k = IN_SCOPE" by blast
  then obtain t1 t2 touched unbound where c:
    "path_targets u res c ts = Inr ([], t1)"
    "other_targets c (tg_value ` {t \<in> set ts. tg_kind t = TargetKind_HOST}) ts ([], t1) = Inr ([], t2)"
    "url_targets u c urls ([], t2, False) = Inr ([], touched, unbound)"
    "tg_value ` {t \<in> set ts. tg_kind t = TargetKind_HOST} \<subseteq> set (ts_hosts c)" "\<not> (unbound \<and> touched \<noteq> {})"
    "k = \<lparr>cl_status = IN_SCOPE, cl_offending = None,
       cl_repositories = filter (\<lambda>i. i \<in> touched) (map sr_repo_id (ts_repositories c))\<rparr>"
    unfolding classify_in by blast
  let ?k = "\<lparr>cl_status = IN_SCOPE, cl_offending = None,
      cl_repositories = filter (\<lambda>i. i \<in> touched) (map sr_repo_id (ts_repositories p))\<rparr>"
  have "set (ts_hosts c) \<subseteq> set (ts_hosts p)" and sub: "set (ts_repositories c) \<subseteq> set (ts_repositories p)"
    using n unfolding narrower_def by blast+
  then have "classify_targets u res p ts urls = Inr ?k \<and> cl_status ?k = IN_SCOPE"
    using path_targets_mono [OF n same c(1)] other_targets_mono [OF n c(2)] url_targets_mono [OF n c(3)] c(4,5)
    unfolding classify_in by blast
  moreover have "touched \<subseteq> sr_repo_id ` set (ts_repositories c)"
    using path_targets_touched [OF c(1)] other_targets_touched [OF c(2)] url_targets_touched [OF c(3)] by blast
  then have "set (cl_repositories ?k) = set (cl_repositories k)" using sub by (auto simp: c(6))
  ultimately show ?thesis by blast
qed

lemma repository_narrower:
  assumes "narrower c p" "distinct (map sr_repo_id (ts_repositories p))" "repository c i = Some r"
  shows "repository p i = Some r"
proof -
  from assms(1,3) have r: "r \<in> set (ts_repositories p)" "sr_repo_id r = i"
    by (auto simp: repository_def find_Some_iff narrower_def)
  then obtain r' where r': "repository p i = Some r'" using repository_None [of p i] by blast
  then have "r' \<in> set (ts_repositories p)" "sr_repo_id r' = i" by (auto simp: repository_def find_Some_iff)
  with r assms(2) r' show ?thesis by (auto simp: distinct_map dest: inj_onD)
qed

text \<open>Without worktrees a derived scope has the paths of its parent and is narrower.\<close>

lemma derived_narrower:
  assumes u: "slash_separates u" and par: "scope_built u par"
    and d: "derive_child_scope u (Inst par) role wanted worktrees = Inr child"
    and none: "checked_worktrees worktrees role = Inr []"
  shows "narrower child par" "ts_path_roots child = ts_path_roots par" "ts_excluded_paths child = ts_excluded_paths par"
proof -
  from d none obtain chosen excluded where s: "selects par wanted chosen excluded"
    and i: "TaskScope_init u (child_args par role chosen excluded (ts_path_roots par) (ts_excluded_paths par)) = Inr child"
    and w: "scope_within u child par [] = Inr True"
    by (elim derive_child_scope_Inr)
      (auto simp: in_worktrees_Nil own_worktrees_def moved_into_worktrees_def map_filter_simps List.map_filter_def)
  note f = child_fields [OF i] and b = built_again [OF u par]
  show "ts_path_roots child = ts_path_roots par" "ts_excluded_paths child = ts_excluded_paths par"
    using f(3,4) b(1,2) by simp_all
  have sw: "set (ts_hosts child) \<subseteq> set (ts_hosts par)"
    "\<forall>(i, st) \<in> set (ts_projects child). map_of (ts_projects par) i = Some st"
    "\<forall>(h, hosts) \<in> set (ts_credential_handles child).
       \<exists>v. map_of (ts_credential_handles par) h = Some v \<and> set hosts \<subseteq> set v"
    using w by (auto simp: scope_within_def list_ex_iff split: if_splits option.splits)
  have "fst ` set (ts_projects child) \<subseteq> fst ` set (ts_projects par)"
    using sw(2) by (force dest: map_of_SomeD)
  moreover have "\<exists>v. map_of (ts_credential_handles par) h = Some v \<and> set valid \<subseteq> set v"
    if "map_of (ts_credential_handles child) h = Some valid" for h valid
    using sw(3) map_of_SomeD [OF that] by blast
  ultimately show "narrower child par"
    using sw(1) selects_members [OF s b(3)] unfolding narrower_def f(1,2) by blast
qed

section \<open>Worktrees\<close>

text \<open>A worktree whose \<^verbatim>\<open>.git\<close> is an excluded path of a built scope has a canonical path.\<close>

lemma worktree_path_canonical:
  assumes g: "root_path u v = Inr (git_dir w)" "v = PyStr (git_dir w)" and r: "root_path u (PyStr (nw_path w)) = Inr q"
  shows "q = nw_path w"
proof -
  let ?n = "nw_path w" and ?dot = "cp ''.git''"
  have gd: "git_dir w = ?n @ 47 # ?dot" by (simp add: git_dir_def cp_def)
  have dot: "split_on 47 ?dot = [?dot]" "plain_segment ?dot" by (simp_all add: cp_def plain_segment_def)
  from r obtain t raw where t: "target_text u MAX_PATH_LENGTH (PyStr ?n) = Inr t" "raw = t"
    and q: "q = 47 # join_on 47 (filter plain_segment (split_on 47 t))" and nz: "q \<noteq> [47]" and abs: "starts_with t [47]"
    by (auto simp: root_path_def rbind_eq_Inr_iff elim!: normalise_path_Inr split: if_splits)
  have tn: "t = ?n" using target_text_value [OF t(1)] by simp
  from g obtain t' where t': "target_text u MAX_PATH_LENGTH (PyStr (git_dir w)) = Inr t'"
    "git_dir w = 47 # join_on 47 (filter plain_segment (split_on 47 t'))"
    by (auto simp: root_path_def rbind_eq_Inr_iff elim!: normalise_path_Inr split: if_splits)
  have "t' = git_dir w" using target_text_value [OF t'(1)] by simp
  with t'(2) have "git_dir w = 47 # join_on 47 (filter plain_segment (split_on 47 (git_dir w)))" by simp
  then have "?n @ 47 # ?dot = 47 # join_on 47 (filter plain_segment (split_on 47 ?n) @ [?dot])"
    unfolding gd split_on_append by (simp add: dot)
  moreover have "filter plain_segment (split_on 47 ?n) \<noteq> []" using q nz tn by auto
  ultimately have "?n @ 47 # ?dot = q @ 47 # ?dot" by (simp add: join_on_append q tn)
  then show ?thesis by simp
qed

lemma own_worktrees_member: "w \<in> set (own_worktrees ws rs) \<Longrightarrow> \<exists>i. (i, w) \<in> set ws"
  by (auto simp: own_worktrees_def List.map_filter_def) (metis map_of_SomeD)

lemma own_worktrees_of:
  "map_of ws i = Some w \<Longrightarrow> set (map fst ws) \<subseteq> set (map sr_repo_id rs) \<Longrightarrow> w \<in> set (own_worktrees ws rs)"
proof -
  assume w: "map_of ws i = Some w" and sub: "set (map fst ws) \<subseteq> set (map sr_repo_id rs)"
  then obtain r where "r \<in> set rs" "sr_repo_id r = i" by (force dest: map_of_SomeD)
  with w show ?thesis by (force simp: own_worktrees_def List.map_filter_def)
qed

lemma derived_paths:
  assumes u: "slash_separates u" and par: "scope_built u par"
    and d: "derive_child_scope u (Inst par) role wanted worktrees = Inr child"
    and ws: "checked_worktrees worktrees role = Inr ws"
  shows "set (ts_path_roots child) \<subseteq> (\<lambda>(i, w). nw_path w) ` set ws \<union> set (ts_path_roots par)"
    and "set (ts_excluded_paths par) \<subseteq> set (ts_excluded_paths child)"
    and "set (ts_excluded_repositories par) \<subseteq> set (ts_excluded_repositories child)"
    and "map_of ws i = Some w \<Longrightarrow> e \<in> set (nw_protected w @ [git_dir w]) \<Longrightarrow>
      \<exists>e' \<in> set (ts_excluded_paths child). root_path u (PyStr e) = Inr e'"
proof -
  from d ws obtain chosen excluded chosen' where s: "selects par wanted chosen excluded"
    and sub: "set (map fst ws) \<subseteq> set (map sr_repo_id chosen)"
    and i: "TaskScope_init u (child_args par role chosen' excluded
       (map nw_path (own_worktrees ws chosen) @ ts_path_roots par)
       (ts_excluded_paths par @ moved_into_worktrees par ws
         @ concat (map (\<lambda>w. nw_protected w @ [git_dir w]) (own_worktrees ws chosen)))) = Inr child"
    and w: "scope_within u child par ws = Inr True"
    by (elim derive_child_scope_Inr) simp
  note f = child_fields [OF i] and b = built_again [OF u par]
  note roots = add_paths_Inr [OF f(3)]
  have w': "paths_within child par ws" using w by (simp add: scope_within_def split: if_splits)
  have git: "git_dir x \<in> set (ts_excluded_paths child)" if "(j, x) \<in> set ws" for j x
    using w' that by (fastforce simp: paths_within_def Let_def list_ex_iff)
  have own: "q = nw_path x" if "x \<in> set (own_worktrees ws chosen)" "root_path u (PyStr (nw_path x)) = Inr q" for x q
  proof -
    from own_worktrees_member [OF that(1)] obtain j where "(j, x) \<in> set ws" by blast
    from add_paths_member [OF f(4) git [OF this]] obtain v where "root_path u v = Inr (git_dir x)" ..
    from worktree_path_canonical [OF root_path_again [OF u this] refl that(2)] show ?thesis .
  qed
  show "set (ts_path_roots child) \<subseteq> (\<lambda>(i, w). nw_path w) ` set ws \<union> set (ts_path_roots par)"
  proof
    fix q assume "q \<in> set (ts_path_roots child)"
    then consider x where "x \<in> set (own_worktrees ws chosen)" "root_path u (PyStr (nw_path x)) = Inr q"
      | p where "p \<in> set (ts_path_roots par)" "root_path u (PyStr p) = Inr q"
      using roots by auto
    then show "q \<in> (\<lambda>(i, w). nw_path w) ` set ws \<union> set (ts_path_roots par)"
    proof cases
      case 1
      with own own_worktrees_member [OF 1(1)] show ?thesis by force
    next
      case 2
      with b(4) [of p] show ?thesis by simp
    qed
  qed
  show "set (ts_excluded_paths par) \<subseteq> set (ts_excluded_paths child)"
    using w' by (auto simp: paths_within_def Let_def list_all_iff)
  show "set (ts_excluded_repositories par) \<subseteq> set (ts_excluded_repositories child)"
    using selects_members(2) [OF s b(3)] f(2) by simp
  assume m: "map_of ws i = Some w" "e \<in> set (nw_protected w @ [git_dir w])"
  have "w \<in> set (own_worktrees ws chosen)" by (rule own_worktrees_of [OF m(1) sub])
  with m(2) show "\<exists>e' \<in> set (ts_excluded_paths child). root_path u (PyStr e) = Inr e'"
    by (intro add_paths_all [OF f(4)]) auto
qed

lemma derived_reaches:
  assumes u: "slash_separates u" and par: "scope_built u par"
    and d: "derive_child_scope u (Inst par) role wanted worktrees = Inr child"
    and ws: "checked_worktrees worktrees role = Inr ws" and p: "reaches u res child p"
  shows "reaches u res par p \<or> (\<exists>(i, w) \<in> set ws. inside u res p (nw_path w))"
proof (rule disjCI)
  assume "\<not> (\<exists>(i, w) \<in> set ws. inside u res p (nw_path w))"
  then have root: "r \<in> set (ts_path_roots par)" if "r \<in> set (ts_path_roots child)" "inside u res p r" for r
    using that derived_paths(1) [OF u par d ws] by auto
  show "reaches u res par p"
    using p root derived_paths(2,3) [OF u par d ws] unfolding reaches_def by blast
qed

end
