(* ===== verification/Scope_Properties.thy ===== *)
theory Scope_Properties
  imports Node_Scope_Facts
begin

text \<open>
  The properties of target texts and scopes: what one path being within another means, that a
  node's scope lets through only what the scope of its task does, what worktrees add to it, and
  that every attempt has an agent of its own.
\<close>

section \<open>Derivation as narrowing\<close>

definition scope_derives :: "uni \<Rightarrow> TaskScope \<Rightarrow> TaskScope \<Rightarrow> bool" where
  "scope_derives u p c \<longleftrightarrow> slash_separates u \<and> scope_built u p
     \<and> (\<exists>role wanted. derive_child_scope u (Inst p) role wanted None = Inr c)"

definition call_in_scope :: "uni \<Rightarrow> TaskScope \<Rightarrow> resolver \<times> Target list \<times> pyval list \<Rightarrow> bool" where
  "call_in_scope u s call = (case call of (res, ts, urls) \<Rightarrow>
     (\<exists>k. classify_targets u res s ts urls = Inr k \<and> cl_status k = IN_SCOPE))"

lemma no_worktrees [simp]: "checked_worktrees None role = Inr []"
  by (simp add: checked_worktrees_def)

interpretation scope_chain: narrowing "scope_derives u" "call_in_scope u" for u
proof
  fix p c call
  assume d: "scope_derives u p c" and "call_in_scope u c call"
  then obtain res ts urls k where k: "call = (res, ts, urls)" "classify_targets u res c ts urls = Inr k" "cl_status k = IN_SCOPE"
    by (cases call) (auto simp: call_in_scope_def)
  from d obtain role wanted where "slash_separates u" "scope_built u p" "derive_child_scope u (Inst p) role wanted None = Inr c"
    by (auto simp: scope_derives_def)
  note n = derived_narrower [OF this no_worktrees]
  from classify_mono [OF n k(2,3)] k(1) show "call_in_scope u p call" by (auto simp: call_in_scope_def)
qed



section \<open>Properties\<close>

text \<open>
  C23: paths are compared name by name: for two paths that were normalised (whatever the base of
  the first), one is within the other exactly when the names of the other are a non-empty
  initial part of its own; and no name on the way is empty, a dot, a parent directory or one of
  its look-alikes of dots and spaces.
\<close>

theorem path_within_is_ancestry:
  assumes "normalise_path u b v = Inr p" and "normalise_path u b' w = Inr r"
  shows "(path_within p r \<longleftrightarrow> segments r \<noteq> [] \<and> prefix (segments r) (segments p))
    \<and> list_all (\<lambda>s. 47 \<notin> set s \<and> \<not> dots_only s) (segments p)"
  using path_within_prefix [OF normalise_path_canonical [OF assms(1)] normalise_path_canonical [OF assms(2)]]
    normalise_path_canonical [OF assms(1)]
  by (auto simp: canonical_def segment_ok_def list_all_iff)


text \<open>
  C22: worktrees are the only thing a derived scope adds: a path it lets through is one the task
  reaches, or lies in a worktree the backend prepared for the node. What a worktree protects
  (the user's checkout, the integration worktree, the area of all worktrees) and its
  \<^verbatim>\<open>.git\<close> stay out of reach, except inside a root that lies strictly within them.
\<close>

theorem worktree_confined:
  assumes u: "slash_separates u" and par: "scope_built u par"
    and d: "derive_child_scope u (Inst par) role wanted worktrees = Inr child"
    and ws: "checked_worktrees worktrees role = Inr ws"
    and k: "classify_targets u res child ts urls = Inr k" "cl_status k = IN_SCOPE"
    and v: "v \<in> set (path_values ts)" "resolve_path u res v = Inr p"
  shows "(reaches u res par p \<or> (\<exists>(i, w) \<in> set ws. inside u res p (nw_path w)))
    \<and> (map_of ws i = Some w \<and> e \<in> set (nw_protected w @ [git_dir w]) \<and> root_path u (PyStr e) = Inr e'
         \<and> inside u res p e' \<longrightarrow> (\<exists>r \<in> set (ts_path_roots child). carves u res r e' \<and> inside u res p r))"
proof -
  from k have "classify_targets u res child ts urls = Inr k \<and> cl_status k = IN_SCOPE" by blast
  then obtain t1 where "path_targets u res child ts = Inr ([], t1)" unfolding classify_in by blast
  with v have reach: "reaches u res child p" by (auto simp: path_targets_in split: if_splits)
  have "e' \<in> set (ts_excluded_paths child)"
    if "map_of ws i = Some w" "e \<in> set (nw_protected w @ [git_dir w])" "root_path u (PyStr e) = Inr e'"
    using derived_paths(4) [OF u par d ws that(1,2)] that(3) by auto
  with reach derived_reaches [OF u par d ws reach] show ?thesis unfolding reaches_def by blast
qed

section \<open>Names of agents\<close>

lemma digits_value_snoc [simp]: "digits_value (s @ [c]) = 10 * digits_value s + (c - 48)"
  by (simp add: digits_value_def)

declare nat_text.simps [simp del]

lemma digits_value_nat_text [simp]: "digits_value (nat_text n) = n"
proof (induction n rule: nat_text.induct)
  case (1 n)
  then show ?case by (cases "n < 10") (simp_all add: nat_text.simps [of n], simp add: digits_value_def)
qed

lemma nat_text_digits: "c \<in> set (nat_text n) \<Longrightarrow> 48 \<le> c \<and> c \<le> 57"
proof (induction n rule: nat_text.induct)
  case (1 n)
  then show ?case by (auto simp: nat_text.simps [of n] split: if_splits)
qed

lemma int_text_chars: "c \<in> set (int_text n) \<Longrightarrow> c = 45 \<or> 48 \<le> c \<and> c \<le> 57"
  by (auto simp: int_text_def dest: nat_text_digits split: if_splits)

lemma nat_text_inj: "nat_text m = nat_text n \<longleftrightarrow> m = n"
  by (metis digits_value_nat_text)

lemma int_text_inj: "int_text m = int_text n \<longleftrightarrow> m = n"
proof -
  have "nat_text k \<noteq> 45 # s" for k s using nat_text_digits [of 45 k] by auto
  then show ?thesis by (auto simp: int_text_def nat_text_inj eq_commute [of "45 # _"])
qed

lemma pair_text_inj:
  assumes "int_text a @ 46 # int_text b = int_text c @ 46 # int_text d"
  shows "a = c \<and> b = d"
proof -
  have "46 \<notin> set (int_text n)" for n using int_text_chars [of 46 n] by auto
  then have "split_on 46 (int_text x @ 46 # int_text y) = [int_text x, int_text y]" for x y
    by (simp add: split_on_append split_on_word)
  then have "[int_text a, int_text b] = [int_text c, int_text d]" using assms by metis
  then show ?thesis by (simp add: int_text_inj)
qed

lemma hex_digits_chars: "c \<in> set (hex_digits k n) \<Longrightarrow> 48 \<le> c"
  by (induction k arbitrary: n) (auto simp: hex_digit_def)

lemma uuid_text_chars: "47 \<notin> set (uuid_text u)"
  using hex_digits_chars [of 47 32 u] by (auto simp: uuid_text_def dashed_def dest: in_set_takeD in_set_dropD)

lemma uuid_text_inj: "a < 2 ^ 128 \<Longrightarrow> b < 2 ^ 128 \<Longrightarrow> uuid_text a = uuid_text b \<Longrightarrow> a = b"
  by (metis option.inject parse_uuid_text_uuid_text)

definition agent_parts :: "uuid \<Rightarrow> int \<times> int \<Rightarrow> pystr \<Rightarrow> int \<Rightarrow> (int \<times> int) option \<Rightarrow> pystr list" where
  "agent_parts t run key n claim =
     [uuid_text t, int_text (fst run) @ 46 # int_text (snd run), key]
       @ (case claim of
            None \<Rightarrow> []
          | Some (e, c) \<Rightarrow> [cp ''claim-'' @ int_text e @ 46 # int_text c])
       @ [int_text n]"

lemma agent_parts_free: "47 \<notin> set key \<Longrightarrow> w \<in> set (agent_parts t run key n claim) \<Longrightarrow> 47 \<notin> set w"
  using int_text_chars [of 47] uuid_text_chars [of t]
  by (fastforce simp: agent_parts_def cp_def split: option.splits)

text \<open>
  No two attempts share an agent: the text the agent's id is the hash of determines the task,
  its run, the node, the attempt and, for the planner, the claim. A node key has no slash.
\<close>

theorem agent_names_differ:
  assumes keys: "47 \<notin> set key" "47 \<notin> set key'" and ids: "t < 2 ^ 128" "t' < 2 ^ 128"
    and eq: "agent_name t run key n claim = agent_name t' run' key' n' claim'"
  shows "t = t' \<and> run = run' \<and> key = key' \<and> n = n' \<and> claim = claim'"
proof -
  have "join_on 47 (agent_parts t run key n claim) = join_on 47 (agent_parts t' run' key' n' claim')"
    using eq by (simp add: agent_name_def agent_parts_def)
  then have parts: "agent_parts t run key n claim = agent_parts t' run' key' n' claim'"
  proof (rule join_on_inj)
    show "agent_parts t run key n claim \<noteq> []" "agent_parts t' run' key' n' claim' \<noteq> []"
      by (simp_all add: agent_parts_def)
  qed (use agent_parts_free [OF keys(1)] agent_parts_free [OF keys(2)] in blast)+
  then have "t = t'" using uuid_text_inj [OF ids] by (simp add: agent_parts_def)
  moreover from parts have "run = run'" using pair_text_inj by (cases run; cases run') (auto simp: agent_parts_def)
  moreover from parts have "claim = claim' \<and> n = n'"
    by (cases claim; cases claim') (auto simp: agent_parts_def int_text_inj dest: pair_text_inj)
  ultimately show ?thesis using parts by (simp add: agent_parts_def)
qed

section \<open>A task with two repositories\<close>

definition demo_uni :: uni where
  "demo_uni = \<lparr>category = (\<lambda>c. if c < 32 \<or> 126 < c then ''Cc'' else ''Ll''), normal_form = (\<lambda>s. s), ipv6 = (\<lambda>_. None)\<rparr>"

definition demo_scoped :: "uuid \<Rightarrow> string \<Rightarrow> string \<Rightarrow> ScopedRepository" where
  "demo_scoped i root remote = \<lparr>sr_repo_id = i, sr_project_id = 7, sr_root = Some (cp root), sr_acl = None,
     sr_remotes = [cp remote], sr_role = Some RepoRole_TARGET\<rparr>"

definition demo_one :: ScopedRepository where
  "demo_one = demo_scoped 1 ''/w/one'' ''https://git.example/one''"

definition demo_two :: ScopedRepository where
  "demo_two = demo_scoped 2 ''/w/two'' ''https://git.example/two''"

definition demo_scope :: TaskScope where
  "demo_scope = \<lparr>ts_path_roots = [cp ''/w''], ts_hosts = [cp ''git.example''], ts_projects = [(7, ProjectState_ACTIVE)],
     ts_credential_handles = [], ts_repositories = [demo_one, demo_two], ts_excluded_repositories = [],
     ts_excluded_paths = []\<rparr>"

definition demo_scope_args :: scope_args where
  "demo_scope_args = \<lparr>sa_path_roots = texts_arg [cp ''/w/.''], sa_hosts = texts_arg [cp ''Git.Example.''],
     sa_projects = Inst [(PyUuid 7, ExactStr (cp ''active''))], sa_credential_handles = Inst [],
     sa_repositories = Inst [Inst demo_one, Inst demo_two], sa_excluded_repositories = Inst [],
     sa_excluded_paths = texts_arg []\<rparr>"

definition demo_node_scope :: TaskScope where
  "demo_node_scope = demo_scope\<lparr>ts_repositories := [demo_one], ts_excluded_repositories := [demo_two]\<rparr>"

definition demo_files :: resolver where
  "demo_files p = (if p = cp ''/w/one/link'' then Some (PyStr (cp ''/w/two/x'')) else Some (PyStr p))"

definition demo_target :: "string \<Rightarrow> Target" where
  "demo_target p = \<lparr>tg_kind = TargetKind_PATH, tg_value = cp p\<rparr>"

lemma demo_slash: "slash_separates demo_uni"
  by (simp add: slash_separates_def demo_uni_def char_allowed_def FORBIDDEN_CATEGORIES_def)

lemma demo_scope_init: "TaskScope_init demo_uni demo_scope_args = Inr demo_scope"
  by code_simp

lemma demo_scope_built: "scope_built demo_uni demo_scope"
  using demo_scope_init by (auto simp: scope_built_def)



lemma demo_link_refused:
  "classify_targets demo_uni demo_files demo_node_scope [demo_target ''/w/one/link''] []
     = Inr \<lparr>cl_status = OUT_OF_SCOPE, cl_offending = Some TargetKind_PATH, cl_repositories = []\<rparr>"
  by code_simp

definition demo_worktree :: NodeWorktree where
  "demo_worktree = \<lparr>nw_repo_id = 1, nw_path = cp ''/t/1'', nw_branch = cp ''paw/1'', nw_protected = [cp ''/w/one'', cp ''/t''],
     nw_base_commit = None, nw_read_only = False\<rparr>"

definition demo_worker :: TaskScope where
  "demo_worker = demo_node_scope\<lparr>ts_path_roots := [cp ''/t/1'', cp ''/w''],
     ts_repositories := [demo_one\<lparr>sr_root := Some (cp ''/t/1'')\<rparr>],
     ts_excluded_paths := [cp ''/w/one'', cp ''/t'', cp ''/t/1/.git'']\<rparr>"

lemma demo_worker_derived:
  "derive_child_scope demo_uni (Inst demo_scope) NodeRole_WORKER (Some [1]) (Some (Inst [(PyUuid 1, Inst demo_worktree)]))
     = Inr demo_worker"
  by code_simp

lemma demo_worktrees: "checked_worktrees (Some (Inst [(PyUuid 1, Inst demo_worktree)])) NodeRole_WORKER = Inr [(1, demo_worktree)]"
  by code_simp

lemma demo_worker_call:
  "classify_targets demo_uni demo_files demo_worker [demo_target ''/t/1/src''] []
     = Inr \<lparr>cl_status = IN_SCOPE, cl_offending = None, cl_repositories = [1]\<rparr>"
  by code_simp

lemma demo_worker_path: "resolve_path demo_uni demo_files (cp ''/t/1/src'') = Inr (cp ''/t/1/src'')"
  by code_simp

text \<open>
  \<open>scope_within\<close> compares roots as texts. A scope with a root that is a symbolic link out of
  the parent's root passes it, and reaches what the parent does not; \<open>derive_child_scope\<close> never
  builds such a scope.
\<close>

definition demo_outside_files :: resolver where
  "demo_outside_files p =
     (if starts_with p (cp ''/w/out'') then Some (PyStr (cp ''/etc'' @ drop 6 p)) else Some (PyStr p))"

definition demo_linked :: TaskScope where
  "demo_linked = demo_scope\<lparr>ts_path_roots := [cp ''/w/out'']\<rparr>"

lemma scope_within_follows_no_links:
  "scope_within demo_uni demo_linked demo_scope [] = Inr True"
  "classify_targets demo_uni demo_outside_files demo_linked [demo_target ''/w/out/x''] []
     = Inr \<lparr>cl_status = IN_SCOPE, cl_offending = None, cl_repositories = []\<rparr>"
  "classify_targets demo_uni demo_outside_files demo_scope [demo_target ''/w/out/x''] []
     = Inr \<lparr>cl_status = OUT_OF_SCOPE, cl_offending = Some TargetKind_PATH, cl_repositories = []\<rparr>"
  by code_simp+

section \<open>Witnesses\<close>

theorem path_within_is_ancestry_witness:
  "\<not> path_within (cp ''/srv/w/task-evil'') (cp ''/srv/w/task'')
     \<and> path_within (cp ''/srv/w/task/a'') (cp ''/srv/w/task'')"
proof -
  have n: "normalise_path demo_uni None (PyStr (cp ''/srv/w/task'')) = Inr (cp ''/srv/w/task'')"
    "normalise_path demo_uni None (PyStr (cp ''/srv/w/task-evil'')) = Inr (cp ''/srv/w/task-evil'')"
    "normalise_path demo_uni (Some (cp ''/srv/w'')) (PyStr (cp ''./task//a'')) = Inr (cp ''/srv/w/task/a'')"
    by code_simp+
  have s: "segments (cp ''/srv/w/task'') = map cp [''srv'', ''w'', ''task'']"
    "segments (cp ''/srv/w/task-evil'') = map cp [''srv'', ''w'', ''task-evil'']"
    "segments (cp ''/srv/w/task/a'') = map cp [''srv'', ''w'', ''task'', ''a'']"
    by code_simp+
  show ?thesis
    using path_within_is_ancestry [OF n(2,1)] path_within_is_ancestry [OF n(3,1)] by (simp add: s)
qed


theorem worktree_confined_witness:
  "reaches demo_uni demo_files demo_scope (cp ''/t/1/src'') \<or> inside demo_uni demo_files (cp ''/t/1/src'') (cp ''/t/1'')"
  using worktree_confined [OF demo_slash demo_scope_built demo_worker_derived demo_worktrees demo_worker_call _ _ demo_worker_path]
  by (simp add: path_values_def demo_target_def demo_worktree_def)

theorem agent_names_differ_witness:
  "agent_name 3 (1, 0) (cp ''build'') 2 None \<noteq> agent_name 3 (1, 0) (cp ''build'') 1 None"
  using agent_names_differ [of "cp ''build''" "cp ''build''" 3 3 "(1, 0)" 2 None "(1, 0)" 1 None]
  by (auto simp: cp_def)

end
