(* ===== verification/Auth_Throttle.thy ===== *)
theory Auth_Throttle
  imports Prelude
begin

text \<open>
  The progressive backoff of the login and token endpoints (\<^verbatim>\<open>paw_backend/auth/throttle.py\<close>)
  over the table \<^verbatim>\<open>auth_throttles\<close> of \<^verbatim>\<open>auth/models.py\<close>. An SQL statement is a function on the
  table; the readings of the caller's clock and of the database's clock are arguments, one per
  statement. Which expired rows a purge meets first is left open: \<open>rd_candidates\<close>.
\<close>

section \<open>Policies\<close>

datatype ThrottleScope =
    LOGIN_ACCOUNT | LOGIN_SOURCE | REDEEM_SOURCE | REDEEM_GLOBAL | PAIRING_SOURCE | PAIRING_GLOBAL

definition ThrottleScope_members :: "ThrottleScope list" where
  "ThrottleScope_members =
     [LOGIN_ACCOUNT, LOGIN_SOURCE, REDEEM_SOURCE, REDEEM_GLOBAL, PAIRING_SOURCE, PAIRING_GLOBAL]"

datatype OnSuccess = OnSuccess_RESET | OnSuccess_REFUND | OnSuccess_KEEP

fun OnSuccess_value :: "OnSuccess \<Rightarrow> string" where
  "OnSuccess_value OnSuccess_RESET = ''reset''"
| "OnSuccess_value OnSuccess_REFUND = ''refund''"
| "OnSuccess_value OnSuccess_KEEP = ''keep''"

definition OnSuccess_members :: "OnSuccess list" where
  "OnSuccess_members = [OnSuccess_RESET, OnSuccess_REFUND, OnSuccess_KEEP]"

datatype auth_error =
    AuthTypeError | AuthValueError | InvalidAuthInput string | ThrottledError int | AuthUnavailable

record ThrottlePolicy =
  tp_free_attempts :: int
  tp_backoff_seconds :: "int list"
  tp_decay_seconds :: int
  tp_on_success :: OnSuccess

fun schedule_entries :: "pyval list \<Rightarrow> int list option" where
  "schedule_entries [] = Some []"
| "schedule_entries (PyInt n # vs) =
     (if 1 \<le> n \<and> n \<le> 86400 then map_option (\<lambda>ns. n # ns) (schedule_entries vs) else None)"
| "schedule_entries (_ # vs) = None"

definition ThrottlePolicy_init ::
  "pyval \<Rightarrow> pyval list arg \<Rightarrow> pyval \<Rightarrow> OnSuccess enum_arg \<Rightarrow> auth_error + ThrottlePolicy" where
  "ThrottlePolicy_init free backoff decay on_success =
     (case free of
        PyInt f \<Rightarrow>
          if f < 1 then Inl AuthValueError
          else
            (case backoff of
               Other \<Rightarrow> Inl AuthTypeError
             | Inst vs \<Rightarrow>
                 (case schedule_entries vs of
                    None \<Rightarrow> Inl AuthValueError
                  | Some schedule \<Rightarrow>
                      if schedule = [] then Inl AuthValueError
                      else
                        (case decay of
                           PyInt d \<Rightarrow>
                             if d < 1 then Inl AuthValueError
                             else
                               (case on_success of
                                  Member m \<Rightarrow>
                                    Inr \<lparr>tp_free_attempts = f, tp_backoff_seconds = schedule,
                                         tp_decay_seconds = d, tp_on_success = m\<rparr>
                                | ExactStr t \<Rightarrow>
                                    (case enum_lookup OnSuccess_members OnSuccess_value t of
                                       Some m \<Rightarrow>
                                         Inr \<lparr>tp_free_attempts = f, tp_backoff_seconds = schedule,
                                              tp_decay_seconds = d, tp_on_success = m\<rparr>
                                     | None \<Rightarrow> Inl AuthValueError)
                                | NoEnum \<Rightarrow> Inl AuthValueError)
                         | _ \<Rightarrow> Inl AuthValueError)))
      | _ \<Rightarrow> Inl AuthTypeError)"

record auth_settings =
  login_account_free_attempts :: int
  login_source_free_attempts :: int
  login_backoff_seconds :: "int list"
  login_decay_seconds :: int
  redeem_source_free_attempts :: int
  redeem_global_free_attempts :: int
  redeem_backoff_seconds :: "int list"
  redeem_decay_seconds :: int

definition login_policy :: "auth_settings \<Rightarrow> int \<Rightarrow> OnSuccess \<Rightarrow> auth_error + ThrottlePolicy" where
  "login_policy s free m =
     ThrottlePolicy_init (PyInt free) (Inst (map PyInt (login_backoff_seconds s)))
       (PyInt (login_decay_seconds s)) (Member m)"

definition redeem_policy :: "auth_settings \<Rightarrow> int \<Rightarrow> OnSuccess \<Rightarrow> auth_error + ThrottlePolicy" where
  "redeem_policy s free m =
     ThrottlePolicy_init (PyInt free) (Inst (map PyInt (redeem_backoff_seconds s)))
       (PyInt (redeem_decay_seconds s)) (Member m)"

definition policies_from_settings :: "auth_settings \<Rightarrow> auth_error + (ThrottleScope \<times> ThrottlePolicy) list" where
  "policies_from_settings s =
     rbind (login_policy s (login_account_free_attempts s) OnSuccess_RESET) (\<lambda>la.
     rbind (login_policy s (login_source_free_attempts s) OnSuccess_REFUND) (\<lambda>ls.
     rbind (redeem_policy s (redeem_source_free_attempts s) OnSuccess_KEEP) (\<lambda>rs.
     rbind (redeem_policy s (redeem_global_free_attempts s) OnSuccess_KEEP) (\<lambda>rg.
     rbind (redeem_policy s (redeem_source_free_attempts s) OnSuccess_REFUND) (\<lambda>ps.
     rbind (redeem_policy s (redeem_global_free_attempts s) OnSuccess_REFUND) (\<lambda>pg.
       Inr [(LOGIN_ACCOUNT, la), (LOGIN_SOURCE, ls), (REDEEM_SOURCE, rs), (REDEEM_GLOBAL, rg),
            (PAIRING_SOURCE, ps), (PAIRING_GLOBAL, pg)]))))))"

record Throttle =
  th_policies :: "(ThrottleScope \<times> ThrottlePolicy) list"
  th_memory :: int

text \<open>The argument is a dictionary: its keys are distinct.\<close>

definition Throttle_init :: "(ThrottleScope arg \<times> ThrottlePolicy arg) list \<Rightarrow> auth_error + Throttle" where
  "Throttle_init ps =
     (if set (map fst ps) \<noteq> set (map Inst ThrottleScope_members)
        \<or> list_ex (\<lambda>(k, p). p = Other) ps then Inl AuthValueError
      else
        let policies = List.map_filter (\<lambda>(k, p). case (k, p) of (Inst s, Inst q) \<Rightarrow> Some (s, q) | _ \<Rightarrow> None) ps
        in Inr \<lparr>th_policies = policies,
                th_memory = foldr (\<lambda>(s, q) m. max (tp_decay_seconds q) m) policies 0\<rparr>)"

definition policy_of :: "Throttle \<Rightarrow> ThrottleScope \<Rightarrow> ThrottlePolicy" where
  "policy_of th s = the (map_of (th_policies th) s)"

section \<open>The table and its statements\<close>

type_synonym tkey = "ThrottleScope \<times> nat list"

record throttle_row =
  tr_attempts :: int
  tr_last :: instant
  tr_locked :: "instant option"

type_synonym throttles = "tkey \<rightharpoonup> throttle_row"

definition SECOND :: int where "SECOND = 1000000"
definition MAX_ATTEMPTS :: int where "MAX_ATTEMPTS = 2147483647"
definition PURGE_BATCH :: nat where "PURGE_BATCH = 50"

definition last_use :: "throttle_row \<Rightarrow> instant" where
  "last_use r = max (tr_last r) (case tr_locked r of Some l \<Rightarrow> l | None \<Rightarrow> tr_last r)"

definition new_attempts :: "ThrottlePolicy \<Rightarrow> instant \<Rightarrow> throttle_row \<Rightarrow> int" where
  "new_attempts p ts r =
     (if last_use r < ts - SECOND * tp_decay_seconds p then 1 else tr_attempts r + 1)"

definition lock_for :: "ThrottlePolicy \<Rightarrow> instant \<Rightarrow> int \<Rightarrow> instant option" where
  "lock_for p ts n =
     (if n \<ge> tp_free_attempts p
      then Some (ts + SECOND * tp_backoff_seconds p !
             (nat (min (n - tp_free_attempts p + 1) (int (length (tp_backoff_seconds p)))) - 1))
      else None)"

definition counted_row :: "ThrottlePolicy \<Rightarrow> instant \<Rightarrow> int \<Rightarrow> throttle_row" where
  "counted_row p ts n = \<lparr>tr_attempts = n, tr_last = ts, tr_locked = lock_for p ts n\<rparr>"

text \<open>\<^verbatim>\<open>_RESERVE\<close>: the row after the statement, or \<open>None\<close> when the row is locked and not touched.\<close>

definition reserve_statement ::
  "ThrottlePolicy \<Rightarrow> instant \<Rightarrow> throttle_row option \<Rightarrow> auth_error + throttle_row option" where
  "reserve_statement p ts row =
     (case row of
        None \<Rightarrow> Inr (Some (counted_row p ts 1))
      | Some r \<Rightarrow>
          if (case tr_locked r of None \<Rightarrow> True | Some l \<Rightarrow> l \<le> ts) then
            (if new_attempts p ts r > MAX_ATTEMPTS then Inl AuthUnavailable
             else Inr (Some (counted_row p ts (new_attempts p ts r))))
          else Inr None)"

text \<open>\<^verbatim>\<open>max(1, math.ceil(float(remaining or 1)))\<close> on the answer of \<^verbatim>\<open>_REMAINING\<close>\<close>

definition retry_after :: "instant \<Rightarrow> throttle_row option \<Rightarrow> int" where
  "retry_after ts row =
     (case row of
        Some r \<Rightarrow> (case tr_locked r of Some l \<Rightarrow> max 1 (- ((ts - l) div SECOND)) | None \<Rightarrow> 1)
      | None \<Rightarrow> 1)"

definition expired :: "instant \<Rightarrow> throttle_row \<Rightarrow> bool" where
  "expired cutoff r \<longleftrightarrow> tr_last r < cutoff \<and> (case tr_locked r of None \<Rightarrow> True | Some l \<Rightarrow> l < cutoff)"

definition purge :: "instant \<Rightarrow> tkey list \<Rightarrow> throttles \<Rightarrow> throttles" where
  "purge cutoff candidates t =
     (let gone = take PURGE_BATCH (filter (\<lambda>k. case t k of Some r \<Rightarrow> expired cutoff r | None \<Rightarrow> False)
            (remdups candidates))
      in (\<lambda>k. if k \<in> set gone then None else t k))"

definition refund_row :: "ThrottlePolicy \<Rightarrow> throttle_row \<Rightarrow> throttle_row" where
  "refund_row p r =
     (let n = max (tr_attempts r - 1) 0
      in r\<lparr>tr_attempts := n, tr_locked := if n < tp_free_attempts p then None else tr_locked r\<rparr>)"

section \<open>Operations\<close>

record Reservation =
  rv_scope :: ThrottleScope
  rv_key :: "nat list"
  rv_attempts :: int
  rv_locked_now :: bool

datatype reserve_outcome = Refused int | Granted Reservation

record reading =
  rd_now :: "instant arg"
  rd_db :: instant
  rd_remaining :: instant
  rd_candidates :: "tkey list"

text \<open>\<^verbatim>\<open>_now\<close>: \<open>Other\<close> is a naive datetime or another object.\<close>

definition clock_now :: "instant arg \<Rightarrow> auth_error + instant" where
  "clock_now a = (case a of Inst n \<Rightarrow> Inr n | Other \<Rightarrow> Inl AuthValueError)"

definition check_throttle_key :: "ThrottleScope arg \<Rightarrow> nat list arg \<Rightarrow> auth_error + tkey" where
  "check_throttle_key scope key =
     (case scope of
        Other \<Rightarrow> Inl (InvalidAuthInput ''scope'')
      | Inst s \<Rightarrow>
          (case key of
             Other \<Rightarrow> Inl (InvalidAuthInput ''key'')
           | Inst k \<Rightarrow> if length k = 32 then Inr (s, k) else Inl (InvalidAuthInput ''key'')))"

definition reserve_in :: "Throttle \<Rightarrow> throttles \<Rightarrow> tkey \<Rightarrow> reading \<Rightarrow> auth_error + throttles \<times> reserve_outcome" where
  "reserve_in th t k rd =
     rbind (clock_now (rd_now rd)) (\<lambda>now.
     rbind (reserve_statement (policy_of th (fst k)) (max now (rd_db rd)) (t k)) (\<lambda>row.
       case row of
         None \<Rightarrow> Inr (t, Refused (retry_after (max now (rd_remaining rd)) (t k)))
       | Some r \<Rightarrow>
           Inr ((if t k = None then purge (now - SECOND * th_memory th) (rd_candidates rd) (t(k \<mapsto> r))
                 else t(k \<mapsto> r)),
                Granted \<lparr>rv_scope = fst k, rv_key = snd k, rv_attempts = tr_attempts r,
                         rv_locked_now = (tr_locked r \<noteq> None)\<rparr>)))"

fun reserve_keys ::
  "Throttle \<Rightarrow> throttles \<Rightarrow> tkey list \<Rightarrow> reading list \<Rightarrow> Reservation list
     \<Rightarrow> auth_error + throttles \<times> Reservation list \<times> int option" where
  "reserve_keys th t (k # ks) (rd # rds) granted =
     rbind (reserve_in th t k rd) (\<lambda>(t', out).
       case out of
         Refused n \<Rightarrow> Inr (t', granted, Some n)
       | Granted r \<Rightarrow> reserve_keys th t' ks rds (granted @ [r]))"
| "reserve_keys th t _ _ granted = Inr (t, granted, None)"

fun check_keys ::
  "(ThrottleScope arg \<times> nat list arg) list \<Rightarrow> auth_error + tkey list" where
  "check_keys [] = Inr []"
| "check_keys ((s, k) # ks) =
     rbind (check_throttle_key s k) (\<lambda>c. rbind (check_keys ks) (\<lambda>cs. Inr (c # cs)))"

text \<open>
  One transaction. The table after it and what the caller gets: a refusal keeps the attempts
  counted before it; an exception of the database or the clock rolls everything back. The
  readings are the ones of the keys in order, one for each key.
\<close>

definition reserve_many ::
  "Throttle \<Rightarrow> throttles \<Rightarrow> (ThrottleScope arg \<times> nat list arg) arg list arg \<Rightarrow> reading list
     \<Rightarrow> throttles \<times> (auth_error + Reservation list)" where
  "reserve_many th t keys rds =
     (case keys of
        Other \<Rightarrow> (t, Inl (InvalidAuthInput ''keys''))
      | Inst items \<Rightarrow>
          if items = [] \<or> length items > length ThrottleScope_members \<or> list_ex (\<lambda>i. i = Other) items
          then (t, Inl (InvalidAuthInput ''keys''))
          else
            (case check_keys (List.map_filter (\<lambda>i. case i of Inst x \<Rightarrow> Some x | Other \<Rightarrow> None) items) of
               Inl e \<Rightarrow> (t, Inl e)
             | Inr ks \<Rightarrow>
                 (case reserve_keys th t ks rds [] of
                    Inl e \<Rightarrow> (t, Inl e)
                  | Inr (t', granted, Some n) \<Rightarrow> (t', Inl (ThrottledError n))
                  | Inr (t', granted, None) \<Rightarrow> (t', Inr granted))))"

definition throttle_reserve ::
  "Throttle \<Rightarrow> throttles \<Rightarrow> ThrottleScope arg \<Rightarrow> nat list arg \<Rightarrow> reading
     \<Rightarrow> throttles \<times> (auth_error + Reservation)" where
  "throttle_reserve th t scope key rd =
     (case reserve_many th t (Inst [Inst (scope, key)]) [rd] of
        (t', Inl e) \<Rightarrow> (t', Inl e)
      | (t', Inr rs) \<Rightarrow> (t', Inr (hd rs)))"

definition succeed_in :: "Throttle \<Rightarrow> throttles \<Rightarrow> Reservation arg \<Rightarrow> instant arg \<Rightarrow> auth_error + throttles" where
  "succeed_in th t reservation clock =
     (case reservation of
        Other \<Rightarrow> Inl (InvalidAuthInput ''reservation'')
      | Inst r \<Rightarrow>
          let p = policy_of th (rv_scope r); k = (rv_scope r, rv_key r) in
          if tp_on_success p = OnSuccess_KEEP then Inr t
          else
            rbind (clock_now clock) (\<lambda>_.
              Inr (if tp_on_success p = OnSuccess_RESET then t(k := None)
                   else t(k := map_option (refund_row p) (t k)))))"

definition reset_throttle ::
  "Throttle \<Rightarrow> throttles \<Rightarrow> ThrottleScope arg \<Rightarrow> nat list arg \<Rightarrow> instant arg \<Rightarrow> auth_error + throttles" where
  "reset_throttle th t scope key clock =
     rbind (check_throttle_key scope key) (\<lambda>k. rbind (clock_now clock) (\<lambda>_. Inr (t(k := None))))"

definition reset_in :: "throttles \<Rightarrow> ThrottleScope arg \<Rightarrow> nat list arg \<Rightarrow> auth_error + throttles" where
  "reset_in t scope key = rbind (check_throttle_key scope key) (\<lambda>k. Inr (t(k := None)))"

section \<open>Calls\<close>

text \<open>What the endpoints do with the throttle, in the order the transactions commit.\<close>

datatype throttle_call =
    Reserve "(ThrottleScope arg \<times> nat list arg) arg list arg" "reading list"
  | Succeed Reservation "instant arg"
  | Reset "ThrottleScope arg" "nat list arg" "instant arg"

definition after_commit :: "throttles \<Rightarrow> auth_error + throttles \<Rightarrow> throttles" where
  "after_commit t r = (case r of Inr t' \<Rightarrow> t' | Inl _ \<Rightarrow> t)"

text \<open>The table after a call and the keys of the attempts that may now be judged.\<close>

fun throttle_step :: "Throttle \<Rightarrow> throttles \<Rightarrow> throttle_call \<Rightarrow> throttles \<times> tkey list" where
  "throttle_step th t (Reserve keys rds) =
     (case reserve_many th t keys rds of
        (t', Inr rs) \<Rightarrow> (t', map (\<lambda>r. (rv_scope r, rv_key r)) rs)
      | (t', Inl _) \<Rightarrow> (t', []))"
| "throttle_step th t (Succeed r clock) = (after_commit t (succeed_in th t (Inst r) clock), [])"
| "throttle_step th t (Reset s k clock) = (after_commit t (reset_throttle th t s k clock), [])"

fun throttle_run :: "Throttle \<Rightarrow> throttles \<Rightarrow> throttle_call list \<Rightarrow> throttles \<times> tkey list" where
  "throttle_run th t [] = (t, [])"
| "throttle_run th t (c # cs) =
     (case throttle_step th t c of
        (t', judged) \<Rightarrow> (case throttle_run th t' cs of (t'', rest) \<Rightarrow> (t'', judged @ rest)))"

end
