(* ===== verification/Throttle_Properties.thy ===== *)
theory Throttle_Properties
  imports Auth_Throttle
begin

text \<open>
  What the throttle guarantees whatever calls arrive in whatever order: the rows of its table
  keep their shape, so that a lock always ends and no lock is missing, and nobody gets more than
  a known number of guesses in a stretch of time.
\<close>

section \<open>Policies and throttles that were built\<close>

definition policy_ok :: "ThrottlePolicy \<Rightarrow> bool" where
  "policy_ok p \<longleftrightarrow> 1 \<le> tp_free_attempts p \<and> tp_backoff_seconds p \<noteq> []
     \<and> (\<forall>s \<in> set (tp_backoff_seconds p). 1 \<le> s \<and> s \<le> 86400) \<and> 1 \<le> tp_decay_seconds p"

definition throttle_ok :: "Throttle \<Rightarrow> bool" where
  "throttle_ok th \<longleftrightarrow> (\<forall>s. policy_ok (policy_of th s) \<and> tp_decay_seconds (policy_of th s) \<le> th_memory th)"

lemma schedule_entries_ok: "schedule_entries vs = Some ns \<Longrightarrow> \<forall>n \<in> set ns. 1 \<le> n \<and> n \<le> 86400"
proof (induction vs arbitrary: ns)
  case (Cons v vs)
  then show ?case by (cases v) (auto split: if_splits)
qed simp

lemma ThrottlePolicy_init_ok: "ThrottlePolicy_init f b d m = Inr p \<Longrightarrow> policy_ok p"
  by (auto simp: ThrottlePolicy_init_def policy_ok_def dest: schedule_entries_ok
      split: pyval.splits arg.splits option.splits if_splits enum_arg.splits)

lemma memory_covers:
  "(s, q) \<in> set ps \<Longrightarrow> tp_decay_seconds q \<le> foldr (\<lambda>(s, q) m. max (tp_decay_seconds q) m) ps 0"
  by (induction ps) auto

lemma Throttle_init_ok:
  assumes i: "Throttle_init ps = Inr th" and ok: "\<And>k p. (k, Inst p) \<in> set ps \<Longrightarrow> policy_ok p"
  shows "throttle_ok th"
  unfolding throttle_ok_def
proof
  fix s
  let ?sel = "\<lambda>(k, p). case (k, p) of (Inst s, Inst q) \<Rightarrow> Some (s, q) | _ \<Rightarrow> None"
  from i have keys: "set (map fst ps) = set (map Inst ThrottleScope_members)" and inst: "\<And>k. (k, Other) \<notin> set ps"
    and th: "th_policies th = List.map_filter ?sel ps"
      "th_memory th = foldr (\<lambda>(s, q) m. max (tp_decay_seconds q) m) (List.map_filter ?sel ps) 0"
    by (auto simp: Throttle_init_def Let_def list_ex_iff split: if_splits)
  have "s \<in> set ThrottleScope_members" by (cases s) (simp_all add: ThrottleScope_members_def)
  then obtain a where "(Inst s, a) \<in> set ps" using keys by (metis (no_types, lifting) image_eqI in_set_zip imageE list.set_map prod.collapse)
  with inst obtain q where "(Inst s, Inst q) \<in> set ps" by (cases a) auto
  then have "(s, q) \<in> set (th_policies th)" unfolding th List.map_filter_def by force
  then obtain q' where q': "map_of (th_policies th) s = Some q'" by (metis map_of_eq_None_iff not_None_eq image_eqI fst_conv)
  then have m: "(s, q') \<in> set (th_policies th)" by (rule map_of_SomeD)
  then have "\<exists>k. (k, Inst q') \<in> set ps"
    unfolding th List.map_filter_def by (auto split: arg.splits)
  then have "policy_ok q'" using ok by blast
  with q' memory_covers [OF m] show "policy_ok (policy_of th s) \<and> tp_decay_seconds (policy_of th s) \<le> th_memory th"
    by (simp add: policy_of_def th)
qed

section \<open>Rows\<close>

text \<open>
  The table's constraint, that a lock exists exactly from the last free attempt on, and that it
  ends within a day of the attempt that set it.
\<close>

definition throttle_row_ok :: "ThrottlePolicy \<Rightarrow> throttle_row \<Rightarrow> bool" where
  "throttle_row_ok p r \<longleftrightarrow> 0 \<le> tr_attempts r \<and> tr_attempts r \<le> MAX_ATTEMPTS
     \<and> (tr_locked r = None \<longleftrightarrow> tr_attempts r < tp_free_attempts p)
     \<and> (\<forall>l. tr_locked r = Some l \<longrightarrow> tr_last r + SECOND \<le> l \<and> l \<le> tr_last r + 86400 * SECOND)"

definition rows_ok :: "Throttle \<Rightarrow> throttles \<Rightarrow> bool" where
  "rows_ok th t \<longleftrightarrow> (\<forall>k r. t k = Some r \<longrightarrow> throttle_row_ok (policy_of th (fst k)) r)"

lemma schedule_index:
  assumes "policy_ok p" "tp_free_attempts p \<le> n"
  shows "tp_backoff_seconds p ! (nat (min (n - tp_free_attempts p + 1) (int (length (tp_backoff_seconds p)))) - 1)
    \<in> set (tp_backoff_seconds p)"
proof (rule nth_mem)
  have "0 < length (tp_backoff_seconds p)" using assms(1) by (auto simp: policy_ok_def)
  with assms(2) show "nat (min (n - tp_free_attempts p + 1) (int (length (tp_backoff_seconds p)))) - 1
      < length (tp_backoff_seconds p)" by linarith
qed

lemma lock_for_Some:
  assumes "policy_ok p" "tp_free_attempts p \<le> n"
  obtains s where "lock_for p ts n = Some (ts + SECOND * s)" "s \<in> set (tp_backoff_seconds p)"
  using that [OF _ schedule_index [OF assms]] assms(2) by (simp add: lock_for_def)

lemma lock_for_None: "lock_for p ts n = None \<longleftrightarrow> n < tp_free_attempts p"
  by (auto simp: lock_for_def)

lemma counted_row_ok:
  assumes p: "policy_ok p" and n: "1 \<le> n" "n \<le> MAX_ATTEMPTS"
  shows "throttle_row_ok p (counted_row p ts n)"
proof (cases "n < tp_free_attempts p")
  case False
  then obtain s where "lock_for p ts n = Some (ts + SECOND * s)" "s \<in> set (tp_backoff_seconds p)"
    using lock_for_Some [OF p, of n ts] by force
  with p n False show ?thesis
    by (auto simp: throttle_row_ok_def counted_row_def policy_ok_def SECOND_def)
qed (use n in \<open>auto simp: throttle_row_ok_def counted_row_def lock_for_def\<close>)

lemma reserve_statement_Some:
  assumes p: "policy_ok p" and row: "\<And>r. row = Some r \<Longrightarrow> 0 \<le> tr_attempts r"
    and s: "reserve_statement p ts row = Inr (Some r')"
  obtains n where "r' = counted_row p ts n" "1 \<le> n" "n \<le> MAX_ATTEMPTS"
    "row = None \<Longrightarrow> n = 1" "\<And>r. row = Some r \<Longrightarrow> n = new_attempts p ts r \<and> (\<forall>l. tr_locked r = Some l \<longrightarrow> l \<le> ts)"
proof (cases row)
  case None
  with s that [of 1] show thesis by (simp add: reserve_statement_def MAX_ATTEMPTS_def)
next
  case (Some r)
  with s row [OF Some] that [of "new_attempts p ts r"] show thesis
    by (auto simp: reserve_statement_def new_attempts_def split: if_splits option.splits)
qed

lemma purge_le: "purge c cs t k = Some r \<Longrightarrow> t k = Some r"
  by (auto simp: purge_def Let_def split: if_splits)

lemma reserve_in_Inr:
  assumes "reserve_in th t k rd = Inr (t', out)"
  obtains now row where "rd_now rd = Inst now"
    "reserve_statement (policy_of th (fst k)) (max now (rd_db rd)) (t k) = Inr row"
    "row = None \<Longrightarrow> t' = t \<and> (\<exists>n. out = Refused n)"
    "\<And>r. row = Some r \<Longrightarrow> t' = (if t k = None then purge (now - SECOND * th_memory th) (rd_candidates rd) (t(k \<mapsto> r)) else t(k \<mapsto> r))
        \<and> out = Granted \<lparr>rv_scope = fst k, rv_key = snd k, rv_attempts = tr_attempts r, rv_locked_now = (tr_locked r \<noteq> None)\<rparr>"
    "\<And>r x r0. row = Some r \<Longrightarrow> t' x = Some r0 \<Longrightarrow> (t(k \<mapsto> r)) x = Some r0"
proof -
  from assms obtain now row where n: "rd_now rd = Inst now"
    and row: "reserve_statement (policy_of th (fst k)) (max now (rd_db rd)) (t k) = Inr row"
    and res: "(case row of
         None \<Rightarrow> Inr (t, Refused (retry_after (max now (rd_remaining rd)) (t k)))
       | Some r \<Rightarrow>
           Inr ((if t k = None then purge (now - SECOND * th_memory th) (rd_candidates rd) (t(k \<mapsto> r))
                 else t(k \<mapsto> r)),
                Granted \<lparr>rv_scope = fst k, rv_key = snd k, rv_attempts = tr_attempts r,
                         rv_locked_now = (tr_locked r \<noteq> None)\<rparr>)) = (Inr (t', out) :: auth_error + _)"
    by (cases "rd_now rd") (auto simp: reserve_in_def clock_now_def rbind_eq_Inr_iff simp del: not_None_eq)
  show thesis
  proof (rule that [OF n row])
    fix r x r0 assume "row = Some r" "t' x = Some r0"
    with res show "(t(k \<mapsto> r)) x = Some r0" by (auto dest: purge_le split: if_splits)
  qed (use res in \<open>auto split: option.splits\<close>)
qed

lemma reserve_in_ok:
  assumes th: "throttle_ok th" and t: "rows_ok th t" and r: "reserve_in th t k rd = Inr (t', out)"
  shows "rows_ok th t'"
proof -
  let ?p = "policy_of th (fst k)"
  have p: "policy_ok ?p" using th by (simp add: throttle_ok_def)
  show ?thesis
  proof (rule reserve_in_Inr [OF r])
    fix now row
    assume row: "reserve_statement ?p (max now (rd_db rd)) (t k) = Inr row"
      and none: "row = None \<Longrightarrow> t' = t \<and> (\<exists>n. out = Refused n)"
      and some: "\<And>r x r0. row = Some r \<Longrightarrow> t' x = Some r0 \<Longrightarrow> (t(k \<mapsto> r)) x = Some r0"
    show "rows_ok th t'"
    proof (cases row)
      case None
      with t none show ?thesis by simp
    next
      case (Some r')
      have "0 \<le> tr_attempts r" if "t k = Some r" for r
        using t that unfolding rows_ok_def throttle_row_ok_def by blast
      then have "throttle_row_ok ?p r'"
        by (rule reserve_statement_Some [OF p _ row [unfolded Some]]) (simp_all add: counted_row_ok [OF p])
      with t some [OF Some] show ?thesis unfolding rows_ok_def by (metis fun_upd_apply option.inject)
    qed
  qed
qed

lemma reserve_keys_ok:
  "throttle_ok th \<Longrightarrow> rows_ok th t \<Longrightarrow> reserve_keys th t ks rds g = Inr (t', g', o') \<Longrightarrow> rows_ok th t'"
proof (induction th t ks rds g arbitrary: t' rule: reserve_keys.induct)
  case (1 th t k ks rd rds g)
  from 1(4) obtain t1 out where r: "reserve_in th t k rd = Inr (t1, out)" by (auto simp: rbind_eq_Inr_iff)
  have "rows_ok th t1" by (rule reserve_in_ok [OF 1(2,3) r])
  with 1 r show ?case by (cases out) auto
qed auto

lemma reserve_many_cases:
  assumes "reserve_many th t keys rds = (t', res)"
  shows "t' = t \<and> (\<exists>e. res = Inl e) \<or> (\<exists>ks g' o'. reserve_keys th t ks rds [] = Inr (t', g', o')
     \<and> (res = Inr g' \<or> (\<exists>e. res = Inl e)))"
  using assms unfolding reserve_many_def
  by (simp split: arg.splits if_splits sum.splits prod.splits option.splits) blast+

lemma refund_row_ok: "throttle_row_ok p r \<Longrightarrow> policy_ok p \<Longrightarrow> throttle_row_ok p (refund_row p r)"
  by (auto simp: throttle_row_ok_def refund_row_def Let_def policy_ok_def)

lemma throttle_step_ok:
  assumes th: "throttle_ok th" and t: "rows_ok th t"
  shows "rows_ok th (fst (throttle_step th t c))"
proof (cases c)
  case (Reserve keys rds)
  obtain t' res where r: "reserve_many th t keys rds = (t', res)" by fastforce
  have "fst (throttle_step th t c) = t'" using Reserve r by (simp split: sum.splits)
  with reserve_many_cases [OF r] t reserve_keys_ok [OF th t] show ?thesis by metis
next
  case (Succeed r clock)
  have "policy_ok (policy_of th s)" for s using th by (simp add: throttle_ok_def)
  with Succeed t show ?thesis
    by (auto simp: succeed_in_def after_commit_def Let_def rbind_def rows_ok_def refund_row_ok split: sum.splits)
next
  case (Reset s k clock)
  with t show ?thesis by (auto simp: reset_throttle_def after_commit_def rbind_def rows_ok_def split: sum.splits)
qed

lemma throttle_run_ok: "throttle_ok th \<Longrightarrow> rows_ok th t \<Longrightarrow> rows_ok th (fst (throttle_run th t cs))"
proof (induction cs arbitrary: t)
  case (Cons c cs)
  obtain t' j where s: "throttle_step th t c = (t', j)" by fastforce
  obtain t'' j' where r: "throttle_run th t' cs = (t'', j')" by fastforce
  have "rows_ok th t'" using throttle_step_ok [OF Cons.prems, of c] s by simp
  from Cons.IH [OF Cons.prems(1) this] show ?case by (simp add: s r)
qed simp

section \<open>Counting guesses\<close>

text \<open>
  The book of one key in a stretch of time \<open>t0 .. t1\<close> that is not longer than the decay: \<open>n\<close>
  attempts that set no lock, \<open>m\<close> that set one, and what its row then looks like. \<open>step\<close> is the
  shortest lock.
\<close>

definition shortest_lock :: "ThrottlePolicy \<Rightarrow> int" where
  "shortest_lock p = SECOND * Min (set (tp_backoff_seconds p))"

definition guess_book :: "ThrottlePolicy \<Rightarrow> instant \<Rightarrow> instant \<Rightarrow> throttle_row option \<Rightarrow> int \<Rightarrow> int \<Rightarrow> bool" where
  "guess_book p t0 t1 row n m \<longleftrightarrow> 0 \<le> n \<and> 0 \<le> m \<and> n \<le> tp_free_attempts p - 1
     \<and> (0 < m \<longrightarrow> t0 + (m - 1) * shortest_lock p \<le> t1)
     \<and> (\<forall>r. row = Some r \<longrightarrow> 0 \<le> tr_attempts r)
     \<and> (0 < n + m \<longrightarrow> (\<exists>r. row = Some r \<and> t0 \<le> tr_last r \<and> n + m \<le> tr_attempts r
          \<and> (0 < m \<longrightarrow> tp_free_attempts p \<le> tr_attempts r
               \<and> (\<exists>l. tr_locked r = Some l \<and> t0 + m * shortest_lock p \<le> l))))"

lemma shortest_lock_le:
  "policy_ok p \<Longrightarrow> s \<in> set (tp_backoff_seconds p) \<Longrightarrow> shortest_lock p \<le> SECOND * s"
  by (simp add: shortest_lock_def SECOND_def)

lemma shortest_lock_pos: "policy_ok p \<Longrightarrow> 0 < shortest_lock p"
  by (auto simp: shortest_lock_def SECOND_def policy_ok_def)

lemma guess_granted:
  assumes p: "policy_ok p" and b: "guess_book p t0 t1 row n m"
    and t: "t0 \<le> ts" "ts \<le> t1" "t1 - t0 \<le> SECOND * tp_decay_seconds p"
    and s: "reserve_statement p ts row = Inr (Some r')"
  shows "\<exists>n' m'. guess_book p t0 t1 (Some r') n' m' \<and> n' + m' = n + m + 1"
proof -
  have nonneg: "\<And>r. row = Some r \<Longrightarrow> 0 \<le> tr_attempts r" using b by (simp add: guess_book_def)
  show ?thesis
  proof (rule reserve_statement_Some [OF p nonneg s])
    fix k assume r': "r' = counted_row p ts k" and k: "1 \<le> k"
      and old: "\<And>r. row = Some r \<Longrightarrow> k = new_attempts p ts r \<and> (\<forall>l. tr_locked r = Some l \<longrightarrow> l \<le> ts)"
    have many: "n + m + 1 \<le> k" and locks: "0 < m \<Longrightarrow> tp_free_attempts p < k \<and> t0 + m * shortest_lock p \<le> ts"
    proof -
      have "n + m + 1 \<le> k \<and> (0 < m \<longrightarrow> tp_free_attempts p < k \<and> t0 + m * shortest_lock p \<le> ts)"
      proof (cases "0 < n + m")
        case True
        with b obtain r where r: "row = Some r" "t0 \<le> tr_last r" "n + m \<le> tr_attempts r"
          "0 < m \<longrightarrow> tp_free_attempts p \<le> tr_attempts r \<and> (\<exists>l. tr_locked r = Some l \<and> t0 + m * shortest_lock p \<le> l)"
          unfolding guess_book_def by blast
        have "t0 \<le> last_use r" using r(2) by (simp add: last_use_def)
        then have "k = tr_attempts r + 1" using old [OF r(1)] t by (simp add: new_attempts_def)
        with r old [OF r(1)] show ?thesis by force
      next
        case False
        with b k show ?thesis by (simp add: guess_book_def)
      qed
      then show "n + m + 1 \<le> k" "0 < m \<Longrightarrow> tp_free_attempts p < k \<and> t0 + m * shortest_lock p \<le> ts" by blast+
    qed
    show ?thesis
    proof (cases "k < tp_free_attempts p")
      case True
      with locks b have "m = 0" unfolding guess_book_def by force
      with True b many t r' have "guess_book p t0 t1 (Some r') (n + 1) m"
        by (auto simp: guess_book_def counted_row_def)
      then show ?thesis by (intro exI [of _ "n + 1"] exI [of _ m]) simp
    next
      case False
      then obtain s where l: "lock_for p ts k = Some (ts + SECOND * s)" "s \<in> set (tp_backoff_seconds p)"
        using lock_for_Some [OF p, of k ts] by force
      have now: "t0 + m * shortest_lock p \<le> ts" using locks t(1) b by (cases "0 < m") (auto simp: guess_book_def)
      have "t0 + (m + 1) * shortest_lock p \<le> ts + SECOND * s"
        using now shortest_lock_le [OF p l(2)] by (simp add: distrib_right)
      with now False b many t r' l(1) have "guess_book p t0 t1 (Some r') n (m + 1)"
        by (auto simp: guess_book_def counted_row_def)
      then show ?thesis by (intro exI [of _ n] exI [of _ "m + 1"]) simp
    qed
  qed
qed

lemma guess_bound:
  assumes p: "policy_ok p" and b: "guess_book p t0 t1 row n m" and t: "t0 \<le> t1"
  shows "n + m \<le> tp_free_attempts p + (t1 - t0) div shortest_lock p"
proof (cases "0 < m")
  case True
  with b have "(m - 1) * shortest_lock p \<le> t1 - t0" by (simp add: guess_book_def)
  then have "m - 1 \<le> (t1 - t0) div shortest_lock p"
    using shortest_lock_pos [OF p] by (metis zdiv_mono1 nonzero_mult_div_cancel_right order_less_irrefl)
  with b show ?thesis by (simp add: guess_book_def)
next
  case False
  have "0 \<le> (t1 - t0) div shortest_lock p" using t shortest_lock_pos [OF p] by (simp add: pos_imp_zdiv_nonneg_iff)
  with False b show ?thesis by (simp add: guess_book_def)
qed

lemma guess_purge:
  assumes b: "guess_book p t0 t1 (t k) n m" and c: "cutoff \<le> t0"
  shows "guess_book p t0 t1 (purge cutoff cs t k) n m"
proof (cases "purge cutoff cs t k = t k")
  case False
  then have gone: "purge cutoff cs t k = None" "\<exists>r. t k = Some r \<and> expired cutoff r"
    by (auto simp: purge_def Let_def dest!: in_set_takeD split: if_splits option.splits)
  then have "\<not> 0 < n + m" using b c by (auto simp: guess_book_def expired_def)
  with b gone show ?thesis by (auto simp: guess_book_def)
qed (use b in simp)

text \<open>Readings that lie in the stretch.\<close>

definition within_stretch :: "instant \<Rightarrow> instant \<Rightarrow> reading \<Rightarrow> bool" where
  "within_stretch t0 t1 rd \<longleftrightarrow>
     (case rd_now rd of Inst now \<Rightarrow> t0 \<le> max now (rd_db rd) \<and> max now (rd_db rd) \<le> t1 | Other \<Rightarrow> True)"

lemma guess_reserve_in:
  assumes th: "throttle_ok th" and b: "guess_book (policy_of th (fst k)) t0 t1 (t k) n m"
    and len: "t1 - t0 \<le> SECOND * tp_decay_seconds (policy_of th (fst k))" and w: "within_stretch t0 t1 rd"
    and r: "reserve_in th t k' rd = Inr (t', out)"
  shows "\<exists>n' m'. guess_book (policy_of th (fst k)) t0 t1 (t' k) n' m'
     \<and> n' + m' = n + m + (case out of Granted _ \<Rightarrow> if k' = k then 1 else 0 | Refused _ \<Rightarrow> 0)"
proof (rule reserve_in_Inr [OF r])
  fix now row
  let ?p = "policy_of th (fst k)"
  assume now: "rd_now rd = Inst now" and row: "reserve_statement (policy_of th (fst k')) (max now (rd_db rd)) (t k') = Inr row"
    and none: "row = None \<Longrightarrow> t' = t \<and> (\<exists>n. out = Refused n)"
    and some: "\<And>r. row = Some r \<Longrightarrow> t' = (if t k' = None then purge (now - SECOND * th_memory th) (rd_candidates rd) (t(k' \<mapsto> r)) else t(k' \<mapsto> r))
        \<and> out = Granted \<lparr>rv_scope = fst k', rv_key = snd k', rv_attempts = tr_attempts r, rv_locked_now = (tr_locked r \<noteq> None)\<rparr>"
  have ts: "t0 \<le> max now (rd_db rd)" "max now (rd_db rd) \<le> t1" using w now by (simp_all add: within_stretch_def)
  have p: "policy_ok ?p" and "tp_decay_seconds ?p \<le> th_memory th" using th by (simp_all add: throttle_ok_def)
  then have cut: "now - SECOND * th_memory th \<le> t0" using ts len by (simp add: SECOND_def)
  show ?thesis
  proof (cases row)
    case None
    with none b show ?thesis by (intro exI [of _ n] exI [of _ m]) auto
  next
    case (Some r')
    note s = some [OF Some]
    obtain n' m' where b': "guess_book ?p t0 t1 ((t(k' \<mapsto> r')) k) n' m'" "n' + m' = n + m + (if k' = k then 1 else 0)"
    proof (cases "k' = k")
      case True
      with row Some have "reserve_statement ?p (max now (rd_db rd)) (t k) = Inr (Some r')" by simp
      from guess_granted [OF p b ts len this] True that show ?thesis by auto
    qed (use b that [of n m] in simp)
    then show ?thesis using s guess_purge [where t = "t(k' \<mapsto> r')" and k = k, OF b'(1) cut] by (intro exI [of _ n'] exI [of _ m']) auto
  qed
qed

definition key_of :: "Reservation \<Rightarrow> tkey" where
  "key_of r = (rv_scope r, rv_key r)"

lemma guess_reserve_keys:
  assumes th: "throttle_ok th" and len: "t1 - t0 \<le> SECOND * tp_decay_seconds (policy_of th (fst k))"
  shows "reserve_keys th t ks rds g = Inr (t', g', refused) \<Longrightarrow> list_all (within_stretch t0 t1) rds \<Longrightarrow>
    guess_book (policy_of th (fst k)) t0 t1 (t k) n m \<Longrightarrow>
    \<exists>n' m'. guess_book (policy_of th (fst k)) t0 t1 (t' k) n' m'
      \<and> n' + m' + int (count_list (map key_of g) k) = n + m + int (count_list (map key_of g') k)"
proof (induction ks arbitrary: t rds g n m)
  case Nil
  then show ?case by (intro exI [of _ n] exI [of _ m]) simp
next
  case (Cons k' ks)
  show ?case
  proof (cases rds)
    case Nil
    with Cons.prems show ?thesis by (intro exI [of _ n] exI [of _ m]) simp
  next
    case rd: (Cons rd rds')
    with Cons.prems obtain t1' out where r: "reserve_in th t k' rd = Inr (t1', out)"
      and rest: "(case out of Refused x \<Rightarrow> Inr (t1', g, Some x) | Granted r \<Rightarrow> reserve_keys th t1' ks rds' (g @ [r])) = Inr (t', g', refused)"
      and w: "within_stretch t0 t1 rd" "list_all (within_stretch t0 t1) rds'"
      by (auto simp: rbind_eq_Inr_iff)
    from guess_reserve_in [where t = t and k = k, OF th Cons.prems(3) len w(1) r] obtain n1 m1 where
      b: "guess_book (policy_of th (fst k)) t0 t1 (t1' k) n1 m1"
      "n1 + m1 = n + m + (case out of Granted _ \<Rightarrow> if k' = k then 1 else 0 | Refused _ \<Rightarrow> 0)" by blast
    show ?thesis
    proof (cases out)
      case (Refused x)
      with rest b show ?thesis by (intro exI [of _ n1] exI [of _ m1]) auto
    next
      case (Granted res)
      with r have "key_of res = k'" by (auto simp: key_of_def elim!: reserve_in_Inr)
      moreover obtain n2 m2 where "guess_book (policy_of th (fst k)) t0 t1 (t' k) n2 m2"
        "n2 + m2 + int (count_list (map key_of (g @ [res])) k) = n1 + m1 + int (count_list (map key_of g') k)"
        using Cons.IH [where t = t1' and g = "g @ [res]", OF _ w(2) b(1)] rest Granted by auto
      ultimately show ?thesis using Granted b(2)
        by (intro exI [of _ n2] exI [of _ m2]) (simp split: if_splits)
    qed
  qed
qed

text \<open>A call that neither forgets the key nor gives one of its attempts back.\<close>

fun forgets_nothing :: "Throttle \<Rightarrow> instant \<Rightarrow> instant \<Rightarrow> tkey \<Rightarrow> throttle_call \<Rightarrow> bool" where
  "forgets_nothing th t0 t1 k (Reserve keys rds) \<longleftrightarrow> list_all (within_stretch t0 t1) rds"
| "forgets_nothing th t0 t1 k (Succeed r clock) \<longleftrightarrow> key_of r \<noteq> k \<or> tp_on_success (policy_of th (fst k)) = OnSuccess_KEEP"
| "forgets_nothing th t0 t1 k (Reset s x clock) \<longleftrightarrow> (s, x) \<noteq> (Inst (fst k), Inst (snd k))"

lemma guess_step:
  assumes th: "throttle_ok th" and len: "t1 - t0 \<le> SECOND * tp_decay_seconds (policy_of th (fst k))"
    and b: "guess_book (policy_of th (fst k)) t0 t1 (t k) n m" and f: "forgets_nothing th t0 t1 k c"
    and s: "throttle_step th t c = (t', judged)"
  shows "\<exists>n' m'. guess_book (policy_of th (fst k)) t0 t1 (t' k) n' m' \<and> n + m + int (count_list judged k) \<le> n' + m'"
proof (cases c)
  case (Reserve keys rds)
  obtain t2 res where r: "reserve_many th t keys rds = (t2, res)" by fastforce
  have t': "t' = t2" "judged = (case res of Inr rs \<Rightarrow> map key_of rs | Inl _ \<Rightarrow> [])"
    using s Reserve r by (auto simp: key_of_def split: sum.splits)
  from reserve_many_cases [OF r] show ?thesis
  proof (elim disjE)
    assume "t2 = t \<and> (\<exists>e. res = Inl e)"
    with b t' show ?thesis by (intro exI [of _ n] exI [of _ m]) auto
  next
    assume "\<exists>ks g' o'. reserve_keys th t ks rds [] = Inr (t2, g', o') \<and> (res = Inr g' \<or> (\<exists>e. res = Inl e))"
    then obtain ks g' o' where g: "reserve_keys th t ks rds [] = Inr (t2, g', o')" "res = Inr g' \<or> (\<exists>e. res = Inl e)" by blast
    from guess_reserve_keys [where t = t and k = k, OF th len g(1) _ b] f Reserve obtain n' m' where
      b': "guess_book (policy_of th (fst k)) t0 t1 (t2 k) n' m'" "n' + m' = n + m + int (count_list (map key_of g') k)"
      by auto
    have "count_list judged k \<le> count_list (map key_of g') k" using g(2) t'(2) by auto
    with b' t' show ?thesis by (intro exI [of _ n'] exI [of _ m']) simp
  qed
next
  case (Succeed r clock)
  with s f have "t' k = t k" "judged = []"
    by (auto simp: succeed_in_def after_commit_def Let_def rbind_def key_of_def split: sum.splits if_splits)
  with b show ?thesis by (intro exI [of _ n] exI [of _ m]) simp
next
  case (Reset x y clock)
  with s f have "t' k = t k" "judged = []"
    by (auto simp: reset_throttle_def check_throttle_key_def after_commit_def rbind_def split: sum.splits if_splits arg.splits)
  with b show ?thesis by (intro exI [of _ n] exI [of _ m]) simp
qed

lemma guess_run:
  assumes th: "throttle_ok th" and len: "t1 - t0 \<le> SECOND * tp_decay_seconds (policy_of th (fst k))"
  shows "guess_book (policy_of th (fst k)) t0 t1 (t k) n m \<Longrightarrow> list_all (forgets_nothing th t0 t1 k) cs \<Longrightarrow>
    throttle_run th t cs = (t', judged) \<Longrightarrow>
    \<exists>n' m'. guess_book (policy_of th (fst k)) t0 t1 (t' k) n' m' \<and> n + m + int (count_list judged k) \<le> n' + m'"
proof (induction cs arbitrary: t n m judged)
  case Nil
  then show ?case by (intro exI [of _ n] exI [of _ m]) auto
next
  case (Cons c cs)
  obtain t2 j where s: "throttle_step th t c = (t2, j)" by fastforce
  obtain j' where r: "throttle_run th t2 cs = (t', j')" "judged = j @ j'"
    using Cons.prems(3) s by (auto split: prod.splits)
  from guess_step [where t = t and k = k, OF th len Cons.prems(1) _ s] Cons.prems(2) obtain n1 m1 where
    b: "guess_book (policy_of th (fst k)) t0 t1 (t2 k) n1 m1" "n + m + int (count_list j k) \<le> n1 + m1" by auto
  from Cons.IH [where t = t2, OF b(1) _ r(1)] Cons.prems(2) obtain n2 m2 where
    "guess_book (policy_of th (fst k)) t0 t1 (t' k) n2 m2" "n1 + m1 + int (count_list j' k) \<le> n2 + m2" by auto
  with b r(2) show ?case by (intro exI [of _ n2] exI [of _ m2]) simp
qed

section \<open>Properties\<close>

text \<open>
  C24: whatever calls arrive, with whatever clock readings, the rows of the table stay in shape:
  the count is within its column, a row is locked exactly when its count has reached the free
  attempts of its scope, and the lock ends at least a second and at most a day after the attempt
  that set it, so that no lock is permanent.
\<close>

theorem throttle_rows_valid:
  assumes "Throttle_init ps = Inr th" and "\<And>k p. (k, Inst p) \<in> set ps \<Longrightarrow> \<exists>f b d m. ThrottlePolicy_init f b d m = Inr p"
    and "throttle_run th Map.empty cs = (t, judged)" and "t k = Some r"
  shows "0 \<le> tr_attempts r \<and> tr_attempts r \<le> MAX_ATTEMPTS
     \<and> (tr_locked r = None \<longleftrightarrow> tr_attempts r < tp_free_attempts (policy_of th (fst k)))
     \<and> (\<forall>l. tr_locked r = Some l \<longrightarrow> tr_last r + SECOND \<le> l \<and> l \<le> tr_last r + 86400 * SECOND)"
proof -
  have "throttle_ok th" using Throttle_init_ok [OF assms(1)] assms(2) ThrottlePolicy_init_ok by metis
  then have "rows_ok th t" using throttle_run_ok [of th Map.empty cs] assms(3) by (simp add: rows_ok_def)
  with assms(4) show ?thesis unfolding rows_ok_def throttle_row_ok_def by blast
qed

text \<open>
  C4: however many requests race, in whatever order they commit, the guesses against one key are
  bounded: in a stretch of time not longer than the decay in which no success and no
  administrator clears the key, at most \<open>free_attempts\<close> attempts, plus one for each time the
  shortest lock fits into the stretch, are ever handed on to be judged.
\<close>

theorem guesses_bounded:
  assumes "Throttle_init ps = Inr th" and "\<And>k p. (k, Inst p) \<in> set ps \<Longrightarrow> \<exists>f b d m. ThrottlePolicy_init f b d m = Inr p"
    and rows: "rows_ok th t" and stretch: "t0 \<le> t1" "t1 - t0 \<le> SECOND * tp_decay_seconds (policy_of th (fst k))"
    and calls: "list_all (forgets_nothing th t0 t1 k) cs" and run: "throttle_run th t cs = (t', judged)"
  shows "int (count_list judged k)
    \<le> tp_free_attempts (policy_of th (fst k)) + (t1 - t0) div shortest_lock (policy_of th (fst k))"
proof -
  have th: "throttle_ok th" using Throttle_init_ok [OF assms(1)] assms(2) ThrottlePolicy_init_ok by metis
  then have p: "policy_ok (policy_of th (fst k))" by (simp add: throttle_ok_def)
  have "0 \<le> tr_attempts r" if "t k = Some r" for r
    using rows that unfolding rows_ok_def throttle_row_ok_def by blast
  then have "guess_book (policy_of th (fst k)) t0 t1 (t k) 0 0" using p by (simp add: guess_book_def policy_ok_def)
  from guess_run [where t = t and k = k, OF th stretch(2) this calls run] obtain n m where
    b: "guess_book (policy_of th (fst k)) t0 t1 (t' k) n m" and "0 + 0 + int (count_list judged k) \<le> n + m" by blast
  then show ?thesis using guess_bound [OF p b stretch(1)] by simp
qed

section \<open>A concrete throttle\<close>

definition demo_policy :: ThrottlePolicy where
  "demo_policy = \<lparr>tp_free_attempts = 2, tp_backoff_seconds = [30, 60], tp_decay_seconds = 900, tp_on_success = OnSuccess_RESET\<rparr>"

definition demo_throttle :: Throttle where
  "demo_throttle = \<lparr>th_policies = map (\<lambda>s. (s, demo_policy)) ThrottleScope_members, th_memory = 900\<rparr>"

definition demo_hash :: "nat list" where
  "demo_hash = replicate 32 5"

definition demo_try :: "int \<Rightarrow> throttle_call" where
  "demo_try s = Reserve (Inst [Inst (Inst LOGIN_ACCOUNT, Inst demo_hash)])
     [\<lparr>rd_now = Inst (s * SECOND), rd_db = s * SECOND, rd_remaining = s * SECOND, rd_candidates = []\<rparr>]"

lemma demo_policy_init: "ThrottlePolicy_init (PyInt 2) (Inst [PyInt 30, PyInt 60]) (PyInt 900) (ExactStr (cp ''reset'')) = Inr demo_policy"
  by code_simp

lemma demo_throttle_init: "Throttle_init (map (\<lambda>s. (Inst s, Inst demo_policy)) ThrottleScope_members) = Inr demo_throttle"
  by code_simp

lemma demo_policies: "(k, Inst p) \<in> set (map (\<lambda>s. (Inst s, Inst demo_policy)) ThrottleScope_members)
    \<Longrightarrow> \<exists>f b d m. ThrottlePolicy_init f b d m = Inr p"
  using demo_policy_init by auto

text \<open>Two attempts are judged, the third meets the lock, the fourth comes after it.\<close>

lemma demo_tries:
  "snd (throttle_run demo_throttle Map.empty (map demo_try [100, 101, 102, 140])) = replicate 3 (LOGIN_ACCOUNT, demo_hash)"
  "fst (throttle_run demo_throttle Map.empty (map demo_try [100, 101, 102, 140])) (LOGIN_ACCOUNT, demo_hash)
     = Some \<lparr>tr_attempts = 3, tr_last = 140 * SECOND, tr_locked = Some (200 * SECOND)\<rparr>"
  by code_simp+

lemma demo_throttle_run:
  obtains t where "throttle_run demo_throttle Map.empty (map demo_try [100, 101, 102, 140]) = (t, replicate 3 (LOGIN_ACCOUNT, demo_hash))"
    "t (LOGIN_ACCOUNT, demo_hash) = Some \<lparr>tr_attempts = 3, tr_last = 140 * SECOND, tr_locked = Some (200 * SECOND)\<rparr>"
  using demo_tries by (metis prod.collapse)

theorem throttle_rows_valid_witness:
  "\<exists>t r. t (LOGIN_ACCOUNT, demo_hash) = Some r \<and> tr_locked r \<noteq> None \<and> 2 \<le> tr_attempts r
     \<and> fst (throttle_run demo_throttle Map.empty (map demo_try [100, 101, 102, 140])) = t"
proof (rule demo_throttle_run)
  fix t assume run: "throttle_run demo_throttle Map.empty (map demo_try [100, 101, 102, 140]) = (t, replicate 3 (LOGIN_ACCOUNT, demo_hash))"
    and row: "t (LOGIN_ACCOUNT, demo_hash) = Some \<lparr>tr_attempts = 3, tr_last = 140 * SECOND, tr_locked = Some (200 * SECOND)\<rparr>"
  from throttle_rows_valid [OF demo_throttle_init demo_policies run row] row run show ?thesis by auto
qed

theorem guesses_bounded_witness:
  "int (count_list (snd (throttle_run demo_throttle Map.empty (map demo_try [100, 101, 102, 140]))) (LOGIN_ACCOUNT, demo_hash)) \<le> 3"
proof (rule demo_throttle_run)
  fix t assume run: "throttle_run demo_throttle Map.empty (map demo_try [100, 101, 102, 140]) = (t, replicate 3 (LOGIN_ACCOUNT, demo_hash))"
  have pol: "policy_of demo_throttle LOGIN_ACCOUNT = demo_policy" by code_simp
  have calls: "list_all (forgets_nothing demo_throttle (100 * SECOND) (140 * SECOND) (LOGIN_ACCOUNT, demo_hash)) (map demo_try [100, 101, 102, 140])"
    by (simp add: demo_try_def within_stretch_def SECOND_def)
  have "(140 * SECOND - 100 * SECOND) div shortest_lock demo_policy = 1" "tp_free_attempts demo_policy = 2"
    "140 * SECOND - 100 * SECOND \<le> SECOND * tp_decay_seconds demo_policy" "100 * SECOND \<le> 140 * SECOND"
    by (simp_all add: shortest_lock_def demo_policy_def SECOND_def)
  with guesses_bounded [OF demo_throttle_init demo_policies _ _ _ calls run] run show ?thesis
    by (simp add: pol rows_ok_def)
qed

end
