(* ===== verification/Spec2Isabelle.thy ===== *)
theory Spec2Isabelle
  imports Authz_Properties Task_Lifecycle_Properties Working_Set
    Task_Queue_Properties Task_Budget_Properties Task_Loop_Properties
    Compute_Properties Compute_Scheduler_Properties Compute_Lookups
    Plan_Properties Dag_Properties Node_Result Scope_Properties Throttle_Properties
begin

text \<open>
  \<^bold>\<open>Personal AI Workspace: the backend's authorization, task, compute and orchestration cores\<close>

  The program is the Python backend under \<^verbatim>\<open>src/apps/backend/paw_backend\<close>. A person gives
  tasks to agents. Every action is authorized (\<^verbatim>\<open>authz\<close>), a task moves through a lifecycle
  (\<^verbatim>\<open>tasks/domain.py\<close>), waits in a queue until a worker leases it
  (\<^verbatim>\<open>tasks/queueing/task_queue.py\<close>), spends a budget (\<^verbatim>\<open>budget.py\<close>), is stopped when it repeats
  a failure (\<^verbatim>\<open>loop.py\<close>, \<^verbatim>\<open>escalation.py\<close>), works on the repositories of its Working Set
  (\<^verbatim>\<open>tasks/working_set.py\<close>) and runs local models that a scheduler admits to the GPU
  (\<^verbatim>\<open>compute\<close>). The orchestrator splits a task into a plan, a graph of agent nodes with
  the reviews it needs, and a worker runs the graph through a store of nodes and attempts
  (\<^verbatim>\<open>orchestrator\<close>); each node works in a scope derived from the task's
  (\<^verbatim>\<open>orchestrator/scope.py\<close>, \<^verbatim>\<open>tools/scope.py\<close>). Logins are throttled (\<^verbatim>\<open>auth/throttle.py\<close>). State is kept in PostgreSQL: each method is one transaction.

  \<^bold>\<open>Conventions\<close> (\<open>Prelude\<close>). A Python object whose class the code tests is \<open>Inst x\<close> or
  \<open>Other\<close>; an untyped argument is a \<open>pyval\<close>; text is a list of code points; an instant is
  an integer of microseconds; an exception is \<open>Inl\<close> of an error datatype, and a
  transaction that raises returns no new state. \<open>rbind\<close> sequences fallible steps in the
  order the code takes them. Interfaces are locales: \<open>str_enum\<close> (an enumeration and its
  values), \<open>preserved\<close> (an invariant of a step relation), \<open>fencing\<close> (a token that only
  grows), \<open>narrowing\<close> (derived authority), \<open>audit_sink\<close> and \<open>row_invariant\<close> (an invariant
  that every transaction keeps row by row); each is interpreted on the
  model's own definitions, and the properties rest on those interpretations.

  \<^bold>\<open>Theories and what they show\<close>

  \<^item> \<open>Authz_Capabilities\<close>, \<open>Authz_Subjects\<close>, \<open>Authz_Policy\<close>, \<open>Authz_Delegation\<close>,
    \<open>Authz_Authorizer\<close> model \<^verbatim>\<open>authz/capabilities.py\<close>, \<^verbatim>\<open>roles.py\<close>, \<^verbatim>\<open>subjects.py\<close>, \<^verbatim>\<open>policy.py\<close>,
    \<^verbatim>\<open>delegation.py\<close>, \<^verbatim>\<open>authorizer.py\<close> and \<^verbatim>\<open>audit.py\<close>. \<open>permitted\<close> is the specification of a
    person's rights. \<open>Authz_Properties\<close>: \<open>decide\<close> refines it, an agent has the
    intersection of its user's rights and its grant, a chain of delegations only narrows,
    role changes and ownership transfers follow their rules, and an allowed agent action or
    an allowed action that must be audited is in the audit log.
  \<^item> \<open>Task_Domain\<close> models \<^verbatim>\<open>tasks/domain.py\<close>; \<open>Task_Lifecycle_Properties\<close>: the advertised
    commands are exactly the accepted ones, the shape of every reachable task, and how tasks
    end. \<open>Working_Set\<close> models \<^verbatim>\<open>tasks/working_set.py\<close> and holds its properties.
  \<^item> \<open>Queue_Validation\<close> and \<open>Queue_Domain\<close> model \<^verbatim>\<open>validation.py\<close> and \<^verbatim>\<open>domain.py\<close> of
    \<^verbatim>\<open>tasks/queueing\<close>. \<open>Task_Store\<close> is the database: the rows of \<^verbatim>\<open>tasks/queueing/models.py\<close>
    (with their CHECK constraints), what is read of the task and project rows, and the
    project gate (\<^verbatim>\<open>projects/task_gate.py\<close>).
  \<^item> \<open>Task_Queue\<close> models every operation of \<^verbatim>\<open>task_queue.py\<close>. The readings of the database
    clock are arguments, one per statement, in no assumed order; the rows other transactions
    hold locked are an argument. \<open>qstep\<close> interleaves the operations with any change by the
    rest of the backend. \<open>Task_Queue_Properties\<close>: the table's constraints are invariant,
    superseded and expired leases stay lost, one holder per task, what a claim takes, and
    what finishing leaves.
  \<^item> \<open>Task_Budget\<close> models \<^verbatim>\<open>budget.py\<close>. \<open>bstep\<close> is its step relation; \<open>row_step\<close>, the automaton
    of one row, is what it refines. \<open>Task_Budget_Properties\<close>: the rows' constraints, fencing
    of runtime sessions, no interval charged twice, the verdict, charges and presets.
  \<^item> \<open>Task_Loop\<close> models \<^verbatim>\<open>loop.py\<close> and \<^verbatim>\<open>escalation.py\<close>. \<open>lstep\<close> runs the detector beside an
    unbounded history of the current attempt; \<open>tracks\<close> relates the two.
    \<open>Task_Loop_Properties\<close>: the detector refines the history, repeated failures are found,
    what normalisation removes, and what the next action is.
  \<^item> \<open>Compute_Domain\<close> and \<open>Compute_Accounting\<close> model \<^verbatim>\<open>compute/domain.py\<close>, \<^verbatim>\<open>config.py\<close>,
    \<^verbatim>\<open>accounting.py\<close> and \<^verbatim>\<open>concurrency.py\<close>. \<open>Compute_Properties\<close>: committed memory covers use
    and promises, admission equals availability, reported parallelism can be admitted, and
    lower classes leave room for higher ones.
  \<^item> \<open>Compute_Scheduler\<close>, \<open>Compute_Requests\<close>, \<open>Compute_Residency\<close> and \<open>Compute_Control\<close> model
    \<^verbatim>\<open>compute/scheduler.py\<close> (with \<^verbatim>\<open>alerts.py\<close>): the state is the record \<open>scheduler\<close>, leases are
    objects in its heap; the synchronous code between two awaits is a function and reads the
    clock once; a coroutine is a program counter (\<open>rpc\<close>, \<open>xpc\<close>) with one definition per
    stretch between two awaits. \<open>cstep\<close> interleaves the refresh loop, the Exclusive request
    and all public operations; the answers of the probe and the model control and every
    clock reading are arbitrary. \<open>Compute_Books\<close> (the books of the leases),
    \<open>Compute_Control_Facts\<close> (lock, modes and the GPU), \<open>Compute_Vram\<close> (the extra reservation)
    and \<open>Compute_Line\<close> (one pass over the waiting line) hold the invariants;
    \<open>Compute_Scheduler_Runs\<close> two concrete runs. \<open>Compute_Scheduler_Properties\<close>: an Exclusive
    job has the GPU for itself and is granted only what fits, the reservations are the sums of
    the leases, no lease is lost, grants and releases keep the VRAM promise, nobody overtakes
    in the waiting line, a drain ends with its last lease, relief follows pressure.
    \<open>Compute_Lookups\<close>: the dictionary lookups of admission never fail.
  \<^item> \<open>Json_Value\<close> models \<^verbatim>\<open>orchestrator/jsonvalue.py\<close>, the bounded walk over an untrusted
    value and its compact encoding; \<open>Json_Facts\<close>: what it accepts, copies and bounds.
  \<^item> \<open>Plan_Nodes\<close> and \<open>Plan_Order\<close> model \<^verbatim>\<open>plan.py\<close>: the checked constructors of nodes and
    plans, reading and writing them, and the graph check, which counts the open
    dependencies of each node. \<open>Plan_Assign\<close> models \<^verbatim>\<open>config.py\<close>, \<^verbatim>\<open>reviews.py\<close> and the
    assignment of agents to nodes. \<open>Plan_Order_Facts\<close> and \<open>Plan_Facts\<close> hold the
    invariants of the graph check. \<open>Plan_Properties\<close>: a graph is accepted exactly when it
    has no cycle, the order is the greedy one, an accepted plan is well formed and reads
    back as itself, read-only tasks get no writing node, every node gets an agent, and a
    task that writes gets its reviews.
  \<^item> \<open>Dag_Scheduling\<close> models \<^verbatim>\<open>scheduling.py\<close>, \<open>Dag_Store\<close> the store of \<^verbatim>\<open>store.py\<close> with the
    rows of \<^verbatim>\<open>models.py\<close> and the events of \<^verbatim>\<open>audit.py\<close>: one definition per transaction.
    \<open>dstep\<close> (\<open>Dag_Steps\<close>) interleaves every write, by any worker with any epoch, with
    take-overs and with changes of the task. \<open>Dag_Scheduling_Facts\<close>, \<open>Dag_Invariant\<close>,
    \<open>Dag_Runs\<close> and \<open>Dag_Progress\<close> hold the invariant and its consequences.
    \<open>Dag_Properties\<close>: the constraints of the tables hold in every reachable state, a
    superseded worker is refused, a closed attempt is final, the states of nodes are
    explained by their dependencies, a failure stays among its descendants, attempts are
    bounded, the owner's writes end, and an active DAG is never stuck.
  \<^item> \<open>Node_Result\<close> models \<^verbatim>\<open>orchestrator/result.py\<close>: a result reads back as itself.
  \<^item> \<open>Tool_Targets\<close> and \<open>Tool_Scope\<close> model \<^verbatim>\<open>tools/scope.py\<close>: the one spelling of paths, hosts,
    URLs and remotes, the scope of a task and the classification of a call's targets.
    \<open>Node_Scope\<close> models \<^verbatim>\<open>orchestrator/scope.py\<close>: the grant and the scope of a node and the check
    of a derived scope. \<open>Scope_Facts\<close> (paths as lists of names) and \<open>Node_Scope_Facts\<close>
    (\<open>reaches\<close>, the specification of the path part of a scope) lead to \<open>Scope_Properties\<close>:
    \<open>path_within\<close> is ancestry, a derived scope lets through only what the task's does, worktrees
    are all it adds, and no two attempts share an agent. Derivation is an instance of
    \<open>narrowing\<close>, like the derivation of grants.
  \<^item> \<open>Auth_Throttle\<close> models \<^verbatim>\<open>auth/throttle.py\<close>, one function per SQL statement, and
    \<open>throttle_run\<close> the transactions in the order they commit. \<open>Throttle_Properties\<close>: the rows
    stay in shape, no lock is permanent, and the guesses against a key are bounded.
  \<^item> This theory: an exceeded budget reaches the lifecycle.

  \<^bold>\<open>Bounds and parameters.\<close> Columns of fixed width are integers with their bound written
  out (\<open>MAX_CLAIM_COUNT\<close>, \<open>MAX_RUNTIME_GENERATION\<close>; exceeding one is
  \<open>NumericValueOutOfRange\<close>). No definition uses fuel: every loop of the modelled code ends,
  by structural recursion or a measure. Parameters stand for what is outside the sources:
  the Unicode tables and the hash (\<open>text_lib\<close>), the rounding of floating point operations
  (\<open>rnd\<close>), the text of a float (\<open>frepr\<close>), the redaction of credentials (\<open>redacts\<close>),
  the Unicode tables and the IPv6 parser behind target texts (\<open>uni\<close>), the symbolic links a
  call meets (\<open>resolver\<close>), the hash behind agent ids (\<open>uuid5\<close>), the outcome of audit writes and directory lookups, the repository inspector, the
  fresh ids and clocks of audit events.

  \<^bold>\<open>Not modelled.\<close> Row locks and isolation levels: a transaction is atomic, as the code's
  locking makes it; logging; the task service's own transactions, Full GPU mode, the tool
  broker, memory, sessions and passkeys, and the HTTP surface, which call the cores above or do input and
  output; of the orchestrator the run loop, the gateway to agents and the sweeps, which are
  timers and calls around the plan rules and the store modelled here.
\<close>

section \<open>Properties that span components\<close>

lemma check_status: "check s tid planned reading = Inr v \<Longrightarrow> v_status v = BudgetStatus_EXCEEDED \<longleftrightarrow> exceeded v \<noteq> []"
  by (auto simp: check_def BudgetVerdict_init_def rbind_eq_Inr_iff Let_def split: if_splits)

lemma stop_command_planned:
  assumes "c = FAIL \<and> wr = None \<or> c = WAIT \<and> wr = Some WaitReason_USER"
  shows "\<exists>p. plan_transition TaskState_RUNNING c (map_option Member wr) (Inst ro) = Inr p
    \<and> p_target p \<in> {TaskState_WAITING, TaskState_FAILED}"
  using assms unfolding plan_transition_member
  by (auto simp: wait_ok_def READ_ONLY_TRANSITIONS_def)

text \<open>
  C19: when the budget of a running task is exceeded, then whatever the loop detector says
  the decision stands for a lifecycle command, that command is accepted for a running task
  (read-only or not), and it takes the task to a state in which no worker is needed, so that
  finishing the task's queue entry completes the entry instead of releasing it.
\<close>

theorem exceeded_budget_is_enforced:
  assumes "check s (PyUuid t) planned reading = Inr v" and "k \<in> set (exceeded v)"
  shows "\<exists>d c wr p. decide_next_action (Inst v) (Inst l) (PyBool esc) = Inr d
    \<and> ACTION_TASK_COMMANDS (qd_action d) = Some (c, wr)
    \<and> plan_transition TaskState_RUNNING c (map_option Member wr) (Inst ro) = Inr p
    \<and> (\<forall>row. \<not> needs_worker (s\<lparr>tasks := (tasks s)(t \<mapsto> row\<lparr>t_state := p_target p\<rparr>)\<rparr>) t)"
proof -
  from check_status [OF assms(1)] assms(2) have "v_status v = BudgetStatus_EXCEEDED" by auto
  then obtain d where d: "decide_next_action (Inst v) (Inst l) (PyBool esc) = Inr d"
    "qd_action d \<in> {FAIL_TASK, WAIT_FOR_USER}"
    by (simp add: decide_next_action_def rbind_def check_member_def check_bool_def)
  then obtain c wr where c: "ACTION_TASK_COMMANDS (qd_action d) = Some (c, wr)"
    "c = FAIL \<and> wr = None \<or> c = WAIT \<and> wr = Some WaitReason_USER" by auto
  from stop_command_planned [OF c(2)] obtain p where
    "plan_transition TaskState_RUNNING c (map_option Member wr) (Inst ro) = Inr p"
    "p_target p \<in> {TaskState_WAITING, TaskState_FAILED}" by blast
  with d(1) c(1) show ?thesis by (auto simp: needs_worker_def NEEDS_A_WORKER_def)
qed

definition spent_store :: store where
  "spent_store = demo_budgets\<lparr>budgets := (budgets demo_budgets)(7 := (\<lambda>k. map_option
     (\<lambda>r. r\<lparr>b_consumed := 4000, running_since := None\<rparr>) (demo_budget k)))\<rparr>"

theorem exceeded_budget_is_enforced_witness:
  "\<exists>v d. check spent_store (PyUuid 7) None (Inst 0) = Inr v
     \<and> decide_next_action (Inst v) (Inst LoopVerdict.ESCALATE) (PyBool True) = Inr d
     \<and> ACTION_TASK_COMMANDS (qd_action d) \<noteq> None"
proof -
  obtain v where v: "check spent_store (PyUuid 7) None (Inst 0) = Inr v" "STEPS \<in> set (exceeded v)"
    by (simp add: check_def usage_def read_usage_def rbind_def check_uuid_def planned_amounts_def
        instant_now_def BudgetKind_members_def usage_item_def BudgetUsage_init_def check_int_def
        BudgetVerdict_init_def Let_def over_limit_def extra_of_def spent_store_def preset_row_def
        MAX_LIMIT_def demo_budget_def)
  from exceeded_budget_is_enforced [OF v, of LoopVerdict.ESCALATE True False] v(1) show ?thesis by fastforce
qed

end
